(* ===== verification/OT_Prelude.thy ===== *)
theory OT_Prelude
  imports Main "HOL-Library.Word"
begin

text \<open>
  Shared vocabulary of the development: the collections of rewrite rules the component theories
  extend, the result type of operations that can terminate the process, and generic facts on
  lists, options and maps.

  The C++ code reports errors in two ways. An ordinary failure is a return value (a
  \<open>bool\<close>, an empty identifier, an empty optional). A failed \<open>assert_true\<close> /
  \<open>assert_false\<close> (\<open>src/internal/util/LogMacros\<close>, \<open>LogAbort\<close>) or the use of a
  null pointer ends the process. The second kind is a value of type \<open>abort\<close> here, so that
  every operation that can end the process has it as a branch of its result. The same type holds
  the ways in which a C++ program has no defined behaviour, and the end of the fuel of the loops
  which nothing in the source bounds.
\<close>

named_theorems syntax_checks "definitions of the serialized-object checks"
named_theorems outcome_rules "rules for results that may be an abort"
named_theorems codec_rules "rules for the byte and bit codecs"

datatype abort =
    AssertFailed string
  | NullDereference
  | Unreachable
  | OutOfRange
  | Terminated \<comment> \<open>an exception leaves a \<open>noexcept\<close> function\<close>
  | DanglingReference
  | UndefinedBehaviour
  | OutOfFuel \<comment> \<open>the bound a caller of the model put on a loop is reached\<close>

type_synonym 'a outcome = "abort + 'a"

definition bind_outcome :: "'a outcome \<Rightarrow> ('a \<Rightarrow> 'b outcome) \<Rightarrow> 'b outcome" where
  "bind_outcome r f = (case r of Inl e \<Rightarrow> Inl e | Inr x \<Rightarrow> f x)"

definition assert_that :: "string \<Rightarrow> bool \<Rightarrow> 'a outcome \<Rightarrow> 'a outcome" where
  "assert_that what b k = (if b then k else Inl (AssertFailed what))"

definition aborts :: "'a outcome \<Rightarrow> bool" where
  "aborts r \<longleftrightarrow> (case r of Inl _ \<Rightarrow> True | Inr _ \<Rightarrow> False)"

lemma bind_outcome_Inr [simp]: "bind_outcome (Inr x) f = f x"
  by (simp add: bind_outcome_def)

lemma bind_outcome_Inl [simp]: "bind_outcome (Inl e) f = Inl e"
  by (simp add: bind_outcome_def)

lemma bind_outcome_eq_Inr [outcome_rules]:
  "bind_outcome r f = Inr y \<longleftrightarrow> (\<exists>x. r = Inr x \<and> f x = Inr y)"
  by (cases r) simp_all

lemma assert_that_True [simp]: "assert_that w True k = k"
  by (simp add: assert_that_def)

lemma assert_that_False [simp]: "assert_that w False k = Inl (AssertFailed w)"
  by (simp add: assert_that_def)

lemma assert_that_eq_Inr [outcome_rules]:
  "assert_that w b k = Inr y \<longleftrightarrow> b \<and> k = Inr y"
  by (cases b) simp_all

lemma bind_outcome_InrE:
  assumes "bind_outcome r f = Inr y"
  obtains x where "r = Inr x" "f x = Inr y"
  using assms by (cases r) simp_all

lemma assert_that_InrE:
  assumes "assert_that w b k = Inr y"
  obtains "b" "k = Inr y"
  using assms by (cases b) simp_all

lemmas outcome_elims = bind_outcome_InrE assert_that_InrE

lemma aborts_simps [simp]: "aborts (Inl e)" "\<not> aborts (Inr x)"
  by (simp_all add: aborts_def)

lemma aborts_bind [simp]: "aborts r \<Longrightarrow> aborts (bind_outcome r f)"
  by (cases r) simp_all

lemma aborts_iff: "\<not> aborts r \<longleftrightarrow> (\<exists>x. r = Inr x)"
  by (cases r) simp_all

lemma aborts_assert_that [outcome_rules]:
  "aborts (assert_that w b k) \<longleftrightarrow> \<not> b \<or> aborts k"
  by (cases b) simp_all

subsection \<open>Loops whose body may end the process\<close>

primrec fold_outcome :: "('a \<Rightarrow> 's \<Rightarrow> 's outcome) \<Rightarrow> 'a list \<Rightarrow> 's \<Rightarrow> 's outcome" where
  "fold_outcome f [] s = Inr s"
| "fold_outcome f (x # xs) s = bind_outcome (f x s) (fold_outcome f xs)"

lemma bind_outcome_assoc: "bind_outcome (bind_outcome r f) g = bind_outcome r (\<lambda>x. bind_outcome (f x) g)"
  by (cases r) simp_all

lemma bind_outcome_Inr_right [simp]: "bind_outcome r Inr = r"
  by (cases r) simp_all

lemma fold_outcome_append:
  "fold_outcome f (xs @ ys) s = bind_outcome (fold_outcome f xs s) (fold_outcome f ys)"
  by (induction xs arbitrary: s) (simp_all add: bind_outcome_def split: sum.splits)

lemma fold_outcome_inv:
  assumes "fold_outcome f xs s = Inr s'" "P s"
    and "\<And>x s s'. x \<in> set xs \<Longrightarrow> P s \<Longrightarrow> f x s = Inr s' \<Longrightarrow> P s'"
  shows "P s'"
  using assms by (induction xs arbitrary: s) (auto simp: outcome_rules)

lemma fold_outcome_total:
  assumes "\<And>x s. x \<in> set xs \<Longrightarrow> P s \<Longrightarrow> \<exists>s'. f x s = Inr s' \<and> P s'" "P s"
  shows "\<exists>s'. fold_outcome f xs s = Inr s' \<and> P s'"
  using assms
proof (induction xs arbitrary: s)
  case (Cons x xs)
  obtain s' where "f x s = Inr s'" "P s'"
    using Cons.prems(1) [of x s] Cons.prems(2) by auto
  then show ?case
    using Cons.IH [OF Cons.prems(1), of s'] by simp
qed simp

lemma fold_outcome_pure: "(\<And>x s. x \<in> set xs \<Longrightarrow> f x s = Inr (g x s)) \<Longrightarrow> fold_outcome f xs s = Inr (fold g xs s)"
  by (induction xs arbitrary: s) simp_all

subsection \<open>Maps of sets\<close>

text \<open>
  \<open>UnallocatedMap<K, UnallocatedSet<V>>\<close> with \<open>operator[]\<close>, which creates the empty set
  of a missing key.
\<close>

definition bucket :: "('k \<Rightarrow> 'v set option) \<Rightarrow> 'k \<Rightarrow> 'v set" where
  "bucket m k = (case m k of None \<Rightarrow> {} | Some s \<Rightarrow> s)"

definition bucket_emplace :: "'k \<Rightarrow> 'v \<Rightarrow> ('k \<Rightarrow> 'v set option) \<Rightarrow> ('k \<Rightarrow> 'v set option)" where
  "bucket_emplace k v m = m(k := Some (insert v (bucket m k)))"

lemma bucket_bucket_emplace [simp]:
  "bucket (bucket_emplace k v m) k' = (if k' = k then insert v (bucket m k) else bucket m k')"
  by (simp add: bucket_emplace_def bucket_def)

lemma bucket_upd [simp]: "bucket (m(k := Some s)) k' = (if k' = k then s else bucket m k')"
  by (simp add: bucket_def)

lemma bucket_del [simp]: "bucket (m(k := None)) k' = (if k' = k then {} else bucket m k')"
  by (simp add: bucket_def)

text \<open>\<open>std::map::emplace\<close>: a key that is present keeps its value.\<close>

definition emplace :: "'k \<Rightarrow> 'v \<Rightarrow> ('k \<Rightarrow> 'v option) \<Rightarrow> ('k \<Rightarrow> 'v option)" where
  "emplace k v m = (case m k of None \<Rightarrow> m(k := Some v) | Some _ \<Rightarrow> m)"

lemma emplace_apply:
  "emplace k v m k' = (if k' = k then (case m k of None \<Rightarrow> Some v | Some w \<Rightarrow> Some w) else m k')"
  by (simp add: emplace_def split: option.splits)

lemma emplace_other [simp]: "k' \<noteq> k \<Longrightarrow> emplace k v m k' = m k'"
  by (simp add: emplace_apply)

lemma emplace_absent [simp]: "m k = None \<Longrightarrow> emplace k v m = m(k := Some v)"
  by (simp add: emplace_def)

lemma emplace_present [simp]: "m k = Some w \<Longrightarrow> emplace k v m = m"
  by (simp add: emplace_def)

end
