(* ===== verification/Protobuf_Syntax.thy ===== *)
theory Protobuf_Syntax
  imports OT_Prelude
begin

text \<open>
  The field checks every serialized object of the library goes through before it is stored or
  sent: the macros of \<open>src/opentxs/protobuf/syntax/Macros.hpp\<close>, the limits of
  \<open>Constants.hpp\<close> and the version dispatch of \<open>Types.internal.tpp\<close>.

  An optional protobuf field is an \<open>option\<close>: \<open>None\<close> is \<open>has_x() == false\<close>,
  and a field that is present and empty is \<open>Some []\<close>. A check is a boolean: the C++ macros
  return \<open>false\<close> from the enclosing function when a check fails, so a sequence of macros is
  a conjunction.
\<close>

definition MIN_PLAUSIBLE_IDENTIFIER :: nat where
  "MIN_PLAUSIBLE_IDENTIFIER = 20"

definition MAX_PLAUSIBLE_IDENTIFIER :: nat where
  "MAX_PLAUSIBLE_IDENTIFIER = 116"

definition CHECK_STRING :: "string option \<Rightarrow> nat \<Rightarrow> nat \<Rightarrow> bool" where
  "CHECK_STRING a mn mx =
     (case a of None \<Rightarrow> True
      | Some s \<Rightarrow> (if 0 < length s then \<not> (mn > length s \<or> mx < length s) else True))"

definition CHECK_EXCLUDED :: "'a option \<Rightarrow> bool" where
  "CHECK_EXCLUDED a = (a = None)"

definition CHECK_EXISTS :: "'a option \<Rightarrow> bool" where
  "CHECK_EXISTS a = (a \<noteq> None)"

definition CHECK_EXISTS_STRING :: "string option \<Rightarrow> bool" where
  "CHECK_EXISTS_STRING a = (case a of None \<Rightarrow> False | Some s \<Rightarrow> 0 \<noteq> length s)"

definition OPTIONAL_IDENTIFIER :: "string option \<Rightarrow> bool" where
  "OPTIONAL_IDENTIFIER a = CHECK_STRING a MIN_PLAUSIBLE_IDENTIFIER MAX_PLAUSIBLE_IDENTIFIER"

definition CHECK_IDENTIFIER :: "string option \<Rightarrow> bool" where
  "CHECK_IDENTIFIER a \<longleftrightarrow> CHECK_EXISTS_STRING a \<and> OPTIONAL_IDENTIFIER a"

definition OPTIONAL_IDENTIFIERS :: "string list \<Rightarrow> bool" where
  "OPTIONAL_IDENTIFIERS as =
     list_all (\<lambda>it. \<not> (MIN_PLAUSIBLE_IDENTIFIER > length it \<or> MAX_PLAUSIBLE_IDENTIFIER < length it)) as"

definition CHECK_IDENTIFIERS :: "string list \<Rightarrow> bool" where
  "CHECK_IDENTIFIERS as = OPTIONAL_IDENTIFIERS as"

text \<open>
  A \<open>VersionMap\<close> gives, for the version of the parent object, the least and the greatest
  version of the child; \<open>at\<close> of a missing version throws and the check fails.
\<close>

type_synonym version_map = "nat \<Rightarrow> (nat \<times> nat) option"

definition check_version :: "nat option \<Rightarrow> nat \<Rightarrow> nat \<Rightarrow> (nat \<Rightarrow> bool) \<Rightarrow> bool" where
  "check_version has_version minVersion maxVersion version_n =
     (case has_version of None \<Rightarrow> False
      | Some version \<Rightarrow>
          (if version < minVersion \<or> version > maxVersion then False
           else if 1 \<le> version \<and> version \<le> 20 then version_n version
           else False))"

definition syntax_check :: "nat option \<Rightarrow> (nat \<Rightarrow> bool) \<Rightarrow> bool" where
  "syntax_check has_version version_n =
     (case has_version of None \<Rightarrow> False
      | Some version \<Rightarrow> check_version (Some version) version version version_n)"

definition CHECK_SUBOBJECTS :: "(nat \<Rightarrow> nat \<Rightarrow> 'a \<Rightarrow> bool) \<Rightarrow> version_map \<Rightarrow> nat \<Rightarrow> 'a list \<Rightarrow> bool" where
  "CHECK_SUBOBJECTS check b version as =
     list_all (\<lambda>it. case b version of None \<Rightarrow> False | Some (lo, hi) \<Rightarrow> check lo hi it) as"

definition CHECK_SUBOBJECT :: "(nat \<Rightarrow> nat \<Rightarrow> 'a \<Rightarrow> bool) \<Rightarrow> version_map \<Rightarrow> nat \<Rightarrow> 'a option \<Rightarrow> bool" where
  "CHECK_SUBOBJECT check b version a =
     (case a of None \<Rightarrow> False
      | Some x \<Rightarrow> (case b version of None \<Rightarrow> False | Some (lo, hi) \<Rightarrow> check lo hi x))"

subsection \<open>Plausible identifiers\<close>

text \<open>The abstract content of the identifier checks: a length between the two limits.\<close>

definition plausible :: "string \<Rightarrow> bool" where
  "plausible s \<longleftrightarrow> 20 \<le> length s \<and> length s \<le> 116"

lemma plausible_not_empty [simp]: "plausible s \<Longrightarrow> s \<noteq> []"
  by (auto simp: plausible_def)

lemma not_plausible_empty [simp]: "\<not> plausible []"
  by (simp add: plausible_def)

lemma CHECK_IDENTIFIER_iff [simp]:
  "CHECK_IDENTIFIER (Some s) \<longleftrightarrow> plausible s" "\<not> CHECK_IDENTIFIER None"
  by (auto simp: CHECK_IDENTIFIER_def CHECK_EXISTS_STRING_def OPTIONAL_IDENTIFIER_def CHECK_STRING_def
      MIN_PLAUSIBLE_IDENTIFIER_def MAX_PLAUSIBLE_IDENTIFIER_def plausible_def)

lemma OPTIONAL_IDENTIFIER_iff [simp]:
  "OPTIONAL_IDENTIFIER None"
  "OPTIONAL_IDENTIFIER (Some s) \<longleftrightarrow> s = [] \<or> plausible s"
  by (auto simp: OPTIONAL_IDENTIFIER_def CHECK_STRING_def MIN_PLAUSIBLE_IDENTIFIER_def
      MAX_PLAUSIBLE_IDENTIFIER_def plausible_def)

lemma CHECK_IDENTIFIERS_iff [simp]: "CHECK_IDENTIFIERS as \<longleftrightarrow> list_all plausible as"
  by (induction as) (auto simp: CHECK_IDENTIFIERS_def OPTIONAL_IDENTIFIERS_def plausible_def
      MIN_PLAUSIBLE_IDENTIFIER_def MAX_PLAUSIBLE_IDENTIFIER_def)

lemma CHECK_EXCLUDED_iff [simp]: "CHECK_EXCLUDED a \<longleftrightarrow> a = None"
  by (simp add: CHECK_EXCLUDED_def)

lemma CHECK_EXISTS_iff [simp]: "CHECK_EXISTS a \<longleftrightarrow> a \<noteq> None"
  by (simp add: CHECK_EXISTS_def)

lemma check_version_Some [simp]:
  "check_version (Some v) lo hi f \<longleftrightarrow> lo \<le> v \<and> v \<le> hi \<and> 1 \<le> v \<and> v \<le> 20 \<and> f v"
  by (auto simp: check_version_def)

lemma check_version_None [simp]: "\<not> check_version None lo hi f"
  by (simp add: check_version_def)

lemma syntax_check_iff [simp]:
  "syntax_check (Some v) f \<longleftrightarrow> 1 \<le> v \<and> v \<le> 20 \<and> f v" "\<not> syntax_check None f"
  by (simp_all add: syntax_check_def)

end
