(* ===== verification/Workflow_Types.thy ===== *)
theory Workflow_Types
  imports Protobuf_Syntax
begin

text \<open>
  The payment workflow objects (\<open>data/opentxs/protobuf/PaymentWorkflow.proto.in\<close>,
  \<open>PaymentEvent.proto.in\<close>, \<open>InstrumentRevision.proto.in\<close> and their enumerations) and the
  tables of \<open>src/opentxs/protobuf/syntax/VerifyWorkflows.cpp\<close> that say which states, events,
  transport methods and child versions each workflow type admits.

  The client enumerations \<open>otx::client::PaymentWorkflowType\<close> / \<open>PaymentWorkflowState\<close>
  and the protobuf enumerations of the same names have the same members, and \<open>translate\<close>
  (\<open>src/api/session/Common.cpp\<close>) maps each member to the member of the same name, so one
  datatype stands for both. Identifiers are represented by their base58 text; the empty
  identifier is \<open>[]\<close>.
\<close>

type_synonym ident = string

datatype workflow_type =
    TypeError
  | OutgoingCheque
  | IncomingCheque
  | OutgoingInvoice
  | IncomingInvoice
  | OutgoingTransfer
  | IncomingTransfer
  | InternalTransfer
  | OutgoingCash
  | IncomingCash

datatype workflow_state =
    StateError
  | Unsent
  | Conveyed
  | Cancelled
  | Accepted
  | Completed
  | Expired
  | Initiated
  | Aborted
  | Acknowledged
  | Rejected

datatype transport_method =
    TransportError
  | TransportNone
  | TransportOT
  | TransportOOB

datatype event_type =
    EventError
  | EventCreate
  | EventConvey
  | EventCancel
  | EventAccept
  | EventComplete
  | EventAbort
  | EventAcknowledge
  | EventExpire
  | EventReject

record instrument_revision =
  ir_version :: "nat option"
  ir_id :: "string option"
  ir_revision :: "nat option"
  ir_item :: "string option"

record payment_event =
  ev_version :: "nat option"
  ev_type :: event_type
  ev_item :: "string list"
  ev_time :: int
  ev_method :: transport_method
  ev_transport :: "string option"
  ev_nym :: "string option"
  ev_success :: bool

record workflow =
  wf_version :: "nat option"
  wf_id :: "string option"
  wf_type :: workflow_type
  wf_state :: workflow_state
  wf_source :: "instrument_revision list"
  wf_notary :: "string option"
  wf_party :: "string list"
  wf_event :: "payment_event list"
  wf_unit :: "string list"
  wf_account :: "string list"

text \<open>A message as the default constructor leaves it: every field absent.\<close>

definition blank_revision :: instrument_revision where
  "blank_revision = \<lparr>ir_version = None, ir_id = None, ir_revision = None, ir_item = None\<rparr>"

definition blank_event :: payment_event where
  "blank_event = \<lparr>ev_version = None, ev_type = EventError, ev_item = [], ev_time = 0,
     ev_method = TransportError, ev_transport = None, ev_nym = None, ev_success = False\<rparr>"

definition blank_workflow :: workflow where
  "blank_workflow = \<lparr>wf_version = None, wf_id = None, wf_type = TypeError, wf_state = StateError,
     wf_source = [], wf_notary = None, wf_party = [], wf_event = [], wf_unit = [], wf_account = []\<rparr>"

text \<open>The getter of an optional string gives the empty string when the field is absent.\<close>

definition text_of :: "string option \<Rightarrow> string" where
  "text_of s = (case s of None \<Rightarrow> [] | Some t \<Rightarrow> t)"

lemma text_of_simps [simp]: "text_of None = []" "text_of (Some t) = t"
  by (simp_all add: text_of_def)

subsection \<open>Tables\<close>

definition PaymentEventAllowedTransportMethod :: "nat \<times> event_type \<Rightarrow> transport_method list option" where
  "PaymentEventAllowedTransportMethod = map_of [
     ((1, EventCreate), [TransportNone, TransportOT]),
     ((1, EventConvey), [TransportOT, TransportOOB]),
     ((1, EventCancel), [TransportOT]),
     ((1, EventAccept), [TransportOT]),
     ((1, EventComplete), [TransportOT]),
     ((2, EventCreate), [TransportNone, TransportOT]),
     ((2, EventConvey), [TransportOT, TransportOOB]),
     ((2, EventCancel), [TransportOT]),
     ((2, EventAccept), [TransportOT]),
     ((2, EventComplete), [TransportOT]),
     ((2, EventAbort), [TransportNone, TransportOT]),
     ((2, EventAcknowledge), [TransportOT]),
     ((3, EventCreate), [TransportNone, TransportOT]),
     ((3, EventConvey), [TransportOT, TransportOOB]),
     ((3, EventCancel), [TransportOT]),
     ((3, EventAccept), [TransportOT]),
     ((3, EventComplete), [TransportOT]),
     ((3, EventAbort), [TransportNone, TransportOT]),
     ((3, EventAcknowledge), [TransportOT]),
     ((3, EventExpire), [TransportNone]),
     ((3, EventReject), [TransportOT])]"

definition PaymentWorkflowAllowedEventTypes :: "nat \<times> workflow_type \<Rightarrow> event_type list option" where
  "PaymentWorkflowAllowedEventTypes = map_of [
     ((1, OutgoingCheque), [EventCreate, EventConvey, EventCancel, EventAccept, EventComplete]),
     ((1, IncomingCheque), [EventConvey, EventAccept]),
     ((1, OutgoingInvoice), [EventCreate, EventConvey, EventCancel, EventAccept, EventComplete]),
     ((1, IncomingInvoice), [EventConvey, EventAccept]),
     ((2, OutgoingCheque), [EventCreate, EventConvey, EventCancel, EventAccept, EventComplete]),
     ((2, IncomingCheque), [EventConvey, EventAccept]),
     ((2, OutgoingInvoice), [EventCreate, EventConvey, EventCancel, EventAccept, EventComplete]),
     ((2, IncomingInvoice), [EventConvey, EventAccept]),
     ((2, OutgoingTransfer), [EventCreate, EventAbort, EventAcknowledge, EventAccept, EventComplete]),
     ((2, IncomingTransfer), [EventConvey, EventAccept]),
     ((2, InternalTransfer),
        [EventCreate, EventAbort, EventAcknowledge, EventConvey, EventAccept, EventComplete]),
     ((3, OutgoingCheque), [EventCreate, EventConvey, EventCancel, EventAccept, EventComplete]),
     ((3, IncomingCheque), [EventConvey, EventAccept]),
     ((3, OutgoingInvoice), [EventCreate, EventConvey, EventCancel, EventAccept, EventComplete]),
     ((3, IncomingInvoice), [EventConvey, EventAccept]),
     ((3, OutgoingTransfer), [EventCreate, EventAbort, EventAcknowledge, EventAccept, EventComplete]),
     ((3, IncomingTransfer), [EventConvey, EventAccept]),
     ((3, InternalTransfer),
        [EventCreate, EventAbort, EventAcknowledge, EventConvey, EventAccept, EventComplete]),
     ((3, OutgoingCash), [EventCreate, EventConvey, EventExpire]),
     ((3, IncomingCash), [EventConvey, EventAccept, EventExpire, EventReject])]"

definition PaymentWorkflowAllowedInstrumentRevision :: version_map where
  "PaymentWorkflowAllowedInstrumentRevision = map_of [(1, (1, 1)), (2, (1, 1)), (3, (1, 1))]"

definition PaymentWorkflowAllowedPaymentEvent :: version_map where
  "PaymentWorkflowAllowedPaymentEvent = map_of [(1, (1, 1)), (2, (1, 2)), (3, (3, 3))]"

definition PaymentWorkflowAllowedState :: "nat \<times> workflow_type \<Rightarrow> workflow_state list option" where
  "PaymentWorkflowAllowedState = map_of [
     ((1, OutgoingCheque), [Unsent, Conveyed, Cancelled, Accepted, Completed, Expired]),
     ((1, IncomingCheque), [Conveyed, Completed, Expired]),
     ((1, OutgoingInvoice), [Unsent, Conveyed, Cancelled, Accepted, Completed, Expired]),
     ((1, IncomingInvoice), [Conveyed, Completed, Expired]),
     ((2, OutgoingCheque), [Unsent, Conveyed, Cancelled, Accepted, Completed, Expired]),
     ((2, IncomingCheque), [Conveyed, Completed, Expired]),
     ((2, OutgoingInvoice), [Unsent, Conveyed, Cancelled, Accepted, Completed, Expired]),
     ((2, IncomingInvoice), [Conveyed, Completed, Expired]),
     ((2, OutgoingTransfer), [Initiated, Aborted, Acknowledged, Accepted, Completed]),
     ((2, IncomingTransfer), [Conveyed, Completed]),
     ((2, InternalTransfer), [Initiated, Aborted, Acknowledged, Conveyed, Accepted, Completed]),
     ((3, OutgoingCheque), [Unsent, Conveyed, Cancelled, Accepted, Completed, Expired]),
     ((3, IncomingCheque), [Conveyed, Completed, Expired]),
     ((3, OutgoingInvoice), [Unsent, Conveyed, Cancelled, Accepted, Completed, Expired]),
     ((3, IncomingInvoice), [Conveyed, Completed, Expired]),
     ((3, OutgoingTransfer), [Initiated, Aborted, Acknowledged, Accepted, Completed]),
     ((3, IncomingTransfer), [Conveyed, Completed]),
     ((3, InternalTransfer), [Initiated, Aborted, Acknowledged, Conveyed, Accepted, Completed]),
     ((3, OutgoingCash), [Unsent, Conveyed, Expired]),
     ((3, IncomingCash), [Conveyed, Accepted, Rejected, Expired])]"

lemmas workflow_tables =
  PaymentEventAllowedTransportMethod_def PaymentWorkflowAllowedEventTypes_def
  PaymentWorkflowAllowedInstrumentRevision_def PaymentWorkflowAllowedPaymentEvent_def
  PaymentWorkflowAllowedState_def

end
