(* ===== verification/Workflow_Syntax.thy ===== *)
theory Workflow_Syntax
  imports Workflow_Types
begin

text \<open>
  The checks of the payment workflow objects: \<open>version_1\<close> of \<open>InstrumentRevision\<close>,
  \<open>version_1\<close> to \<open>version_3\<close> of \<open>PaymentEvent\<close> and of \<open>PaymentWorkflow\<close>
  (\<open>src/opentxs/protobuf/syntax/\<close>). \<open>save_workflow\<close> asserts the last one before it
  stores anything, so what these functions accept is what the workflow engine may write.

  Checking the events fills the map \<open>events\<close> from event type to number of events; it is the
  argument \<open>n\<close> of the per-type conditions. Every other version of these objects is refused
  (\<open>*.undefined.cpp\<close>).
\<close>

type_synonym counters = "event_type \<Rightarrow> nat"

definition version_of :: "nat option \<Rightarrow> nat" where
  "version_of v = (case v of None \<Rightarrow> 0 | Some n \<Rightarrow> n)"

lemma version_of_Some [simp]: "version_of (Some n) = n"
  by (simp add: version_of_def)

subsection \<open>Instrument revisions\<close>

definition instrument_revision_1 :: "instrument_revision \<Rightarrow> bool" where
  "instrument_revision_1 input \<longleftrightarrow>
     CHECK_IDENTIFIER (ir_id input) \<and> CHECK_EXISTS (ir_revision input) \<and> CHECK_EXISTS (ir_item input)"

definition check_instrument_revision :: "nat \<Rightarrow> nat \<Rightarrow> instrument_revision \<Rightarrow> bool" where
  "check_instrument_revision lo hi input =
     check_version (ir_version input) lo hi (\<lambda>v. v = 1 \<and> instrument_revision_1 input)"

subsection \<open>Payment events\<close>

definition event_type_allowed :: "nat \<Rightarrow> workflow_type \<Rightarrow> event_type \<Rightarrow> bool" where
  "event_type_allowed parentVersion parent t =
     (case PaymentWorkflowAllowedEventTypes (parentVersion, parent) of
        None \<Rightarrow> False | Some ts \<Rightarrow> t \<in> set ts)"

definition event_transport_present :: "payment_event \<Rightarrow> bool" where
  "event_transport_present input =
     (case ev_method input of
        TransportOT \<Rightarrow> CHECK_IDENTIFIER (ev_transport input)
      | TransportNone \<Rightarrow> CHECK_EXCLUDED (ev_transport input)
      | TransportOOB \<Rightarrow> CHECK_EXCLUDED (ev_transport input)
      | TransportError \<Rightarrow> False)"

definition event_transport_allowed :: "payment_event \<Rightarrow> bool" where
  "event_transport_allowed input =
     (case PaymentEventAllowedTransportMethod (version_of (ev_version input), ev_type input) of
        None \<Rightarrow> False | Some ms \<Rightarrow> ev_method input \<in> set ms)"

definition count_event :: "payment_event \<Rightarrow> counters \<Rightarrow> counters" where
  "count_event input events = events(ev_type input := Suc (events (ev_type input)))"

definition payment_event_1 ::
  "payment_event \<Rightarrow> nat \<Rightarrow> workflow_type \<Rightarrow> counters \<Rightarrow> counters option" where
  "payment_event_1 input parentVersion parent events =
     (if event_type_allowed parentVersion parent (ev_type input)
         \<and> event_transport_present input
         \<and> event_transport_allowed input
         \<and> (case ev_type input of
              EventCreate \<Rightarrow> OPTIONAL_IDENTIFIER (ev_nym input)
            | EventConvey \<Rightarrow> OPTIONAL_IDENTIFIER (ev_nym input)
            | EventAccept \<Rightarrow> OPTIONAL_IDENTIFIER (ev_nym input)
            | EventCancel \<Rightarrow> CHECK_EXCLUDED (ev_nym input)
            | EventComplete \<Rightarrow> CHECK_EXCLUDED (ev_nym input)
            | _ \<Rightarrow> False)
      then Some (count_event input events) else None)"

definition payment_event_2 ::
  "payment_event \<Rightarrow> nat \<Rightarrow> workflow_type \<Rightarrow> counters \<Rightarrow> counters option" where
  "payment_event_2 input parentVersion parent events =
     (if event_type_allowed parentVersion parent (ev_type input)
         \<and> event_transport_present input
         \<and> event_transport_allowed input
         \<and> (case ev_type input of
              EventCreate \<Rightarrow> OPTIONAL_IDENTIFIER (ev_nym input)
            | EventConvey \<Rightarrow> OPTIONAL_IDENTIFIER (ev_nym input)
            | EventAccept \<Rightarrow> OPTIONAL_IDENTIFIER (ev_nym input)
            | EventCancel \<Rightarrow> CHECK_EXCLUDED (ev_nym input)
            | EventComplete \<Rightarrow> CHECK_EXCLUDED (ev_nym input)
            | EventAbort \<Rightarrow> CHECK_EXCLUDED (ev_nym input)
            | EventAcknowledge \<Rightarrow> CHECK_EXCLUDED (ev_nym input)
            | _ \<Rightarrow> False)
      then Some (count_event input events) else None)"

definition payment_event_3 ::
  "payment_event \<Rightarrow> nat \<Rightarrow> workflow_type \<Rightarrow> counters \<Rightarrow> counters option" where
  "payment_event_3 input parentVersion parent events =
     (if event_type_allowed parentVersion parent (ev_type input)
         \<and> event_transport_present input
         \<and> event_transport_allowed input
         \<and> (case ev_type input of
              EventCreate \<Rightarrow> OPTIONAL_IDENTIFIER (ev_nym input)
            | EventConvey \<Rightarrow> OPTIONAL_IDENTIFIER (ev_nym input)
            | EventAccept \<Rightarrow> OPTIONAL_IDENTIFIER (ev_nym input)
            | EventReject \<Rightarrow> OPTIONAL_IDENTIFIER (ev_nym input)
            | EventCancel \<Rightarrow> CHECK_EXCLUDED (ev_nym input)
            | EventComplete \<Rightarrow> CHECK_EXCLUDED (ev_nym input)
            | EventAbort \<Rightarrow> CHECK_EXCLUDED (ev_nym input)
            | EventAcknowledge \<Rightarrow> CHECK_EXCLUDED (ev_nym input)
            | EventExpire \<Rightarrow> CHECK_EXCLUDED (ev_nym input)
            | EventError \<Rightarrow> False)
      then Some (count_event input events) else None)"

definition payment_event_version ::
  "nat \<Rightarrow> payment_event \<Rightarrow> nat \<Rightarrow> workflow_type \<Rightarrow> counters \<Rightarrow> counters option" where
  "payment_event_version v input parentVersion parent events =
     (if v = 1 then payment_event_1 input parentVersion parent events
      else if v = 2 then payment_event_2 input parentVersion parent events
      else if v = 3 then payment_event_3 input parentVersion parent events
      else None)"

definition check_payment_event ::
  "nat \<Rightarrow> nat \<Rightarrow> payment_event \<Rightarrow> nat \<Rightarrow> workflow_type \<Rightarrow> counters \<Rightarrow> counters option" where
  "check_payment_event lo hi input parentVersion parent events =
     (if check_version (ev_version input) lo hi (\<lambda>_. True)
      then payment_event_version (version_of (ev_version input)) input parentVersion parent events
      else None)"

text \<open>The loop of \<open>OPTIONAL_SUBOBJECTS_VA(event, ...)\<close>.\<close>

fun check_payment_events ::
  "nat \<Rightarrow> workflow_type \<Rightarrow> payment_event list \<Rightarrow> counters \<Rightarrow> counters option" where
  "check_payment_events version type [] events = Some events"
| "check_payment_events version type (it # its) events =
     (case PaymentWorkflowAllowedPaymentEvent version of
        None \<Rightarrow> None
      | Some (lo, hi) \<Rightarrow>
          (case check_payment_event lo hi it version type events of
             None \<Rightarrow> None
           | Some events' \<Rightarrow> check_payment_events version type its events'))"

text \<open>
  What the loop computes: it accepts when each event is acceptable on its own, and the counters
  are the numbers of events of each type.
\<close>

definition event_count :: "payment_event list \<Rightarrow> counters" where
  "event_count es t = length (filter (\<lambda>e. ev_type e = t) es)"

definition event_ok :: "nat \<Rightarrow> workflow_type \<Rightarrow> payment_event \<Rightarrow> bool" where
  "event_ok version type e =
     (case PaymentWorkflowAllowedPaymentEvent version of
        None \<Rightarrow> False
      | Some (lo, hi) \<Rightarrow> check_payment_event lo hi e version type (\<lambda>_. 0) \<noteq> None)"

lemma event_count_simps [simp]:
  "event_count [] t = 0"
  "event_count (e # es) t = (if ev_type e = t then Suc (event_count es t) else event_count es t)"
  "event_count (es @ es') t = event_count es t + event_count es' t"
  by (simp_all add: event_count_def)

lemma check_payment_event_counts:
  "check_payment_event lo hi e v t c =
     (if check_payment_event lo hi e v t (\<lambda>_. 0) \<noteq> None then Some (count_event e c) else None)"
  by (simp add: check_payment_event_def payment_event_version_def payment_event_1_def
      payment_event_2_def payment_event_3_def)

lemma check_payment_events_eq:
  "check_payment_events v t es c =
     (if list_all (event_ok v t) es then Some (\<lambda>k. c k + event_count es k) else None)"
proof (induction es arbitrary: c)
  case Nil
  then show ?case by simp
next
  case (Cons e es)
  show ?case
  proof (cases "event_ok v t e")
    case True
    then obtain lo hi where b: "PaymentWorkflowAllowedPaymentEvent v = Some (lo, hi)"
      and "check_payment_event lo hi e v t (\<lambda>_. 0) \<noteq> None"
      by (auto simp: event_ok_def split: option.splits)
    then have "check_payment_event lo hi e v t c = Some (count_event e c)"
      by (subst check_payment_event_counts) simp
    with b True Cons.IH show ?thesis
      by (auto simp: count_event_def fun_eq_iff)
  next
    case False
    then show ?thesis
      by (auto simp: event_ok_def check_payment_event_counts [of _ _ e v t c] split: option.splits prod.splits)
  qed
qed

subsection \<open>Payment workflows, version 1\<close>

definition state_allowed :: "workflow \<Rightarrow> bool" where
  "state_allowed input =
     (case PaymentWorkflowAllowedState (version_of (wf_version input), wf_type input) of
        None \<Rightarrow> False | Some sts \<Rightarrow> wf_state input \<in> set sts)"

definition sources_ok :: "workflow \<Rightarrow> bool" where
  "sources_ok input = CHECK_SUBOBJECTS check_instrument_revision
     PaymentWorkflowAllowedInstrumentRevision (version_of (wf_version input)) (wf_source input)"

fun outgoing_cheque_1 :: "workflow_state \<Rightarrow> counters \<Rightarrow> bool" where
  "outgoing_cheque_1 Unsent n =
     (n EventCreate = 1 \<and> \<not> 0 < n EventCancel \<and>
      \<not> 0 < n EventAccept \<and> \<not> 0 < n EventComplete)"
| "outgoing_cheque_1 Conveyed n =
     (n EventCreate = 1 \<and> n EventConvey \<noteq> 0 \<and> \<not> 0 < n EventComplete)"
| "outgoing_cheque_1 Cancelled n =
     (n EventCreate = 1 \<and> n EventCancel \<noteq> 0 \<and>
      \<not> 0 < n EventAccept \<and> \<not> 0 < n EventComplete)"
| "outgoing_cheque_1 Accepted n =
     (n EventCreate = 1 \<and> n EventConvey \<noteq> 0 \<and> n EventAccept \<noteq> 0)"
| "outgoing_cheque_1 Completed n =
     (n EventCreate = 1 \<and> n EventConvey \<noteq> 0 \<and>
      n EventAccept \<noteq> 0 \<and> n EventComplete \<noteq> 0)"
| "outgoing_cheque_1 Expired n =
     (n EventCreate = 1 \<and> \<not> 0 < n EventAccept \<and> \<not> 0 < n EventComplete)"
| "outgoing_cheque_1 _ _ = False"

fun incoming_cheque_1 :: "workflow_state \<Rightarrow> string option \<Rightarrow> nat \<Rightarrow> counters \<Rightarrow> bool" where
  "incoming_cheque_1 Conveyed notary accounts n =
     (accounts = 0 \<and> \<not> 0 < n EventCreate \<and> n EventConvey = 1 \<and>
      \<not> 0 < n EventCancel \<and> \<not> 0 < n EventComplete)"
| "incoming_cheque_1 Completed notary accounts n =
     (CHECK_IDENTIFIER notary \<and> accounts = 1 \<and> \<not> 0 < n EventCreate \<and>
      n EventConvey = 1 \<and> \<not> 0 < n EventCancel \<and>
      n EventAccept \<noteq> 0 \<and> \<not> 0 < n EventComplete)"
| "incoming_cheque_1 Expired notary accounts n =
     (\<not> 1 < accounts \<and> \<not> 0 < n EventCreate \<and> n EventConvey = 1 \<and>
      \<not> 0 < n EventCancel \<and> \<not> 0 < n EventComplete)"
| "incoming_cheque_1 _ _ _ _ = False"

definition one_source_one_party :: "workflow \<Rightarrow> bool" where
  "one_source_one_party input \<longleftrightarrow> length (wf_source input) = 1 \<and> length (wf_party input) = 1"

definition payment_workflow_1 :: "workflow \<Rightarrow> bool" where
  "payment_workflow_1 input =
     (CHECK_IDENTIFIER (wf_id input)
      \<and> state_allowed input
      \<and> (case wf_type input of
           OutgoingCheque \<Rightarrow> one_source_one_party input
         | IncomingCheque \<Rightarrow> one_source_one_party input
         | OutgoingInvoice \<Rightarrow> one_source_one_party input
         | IncomingInvoice \<Rightarrow> one_source_one_party input
         | _ \<Rightarrow> False)
      \<and> sources_ok input
      \<and> CHECK_IDENTIFIERS (wf_party input)
      \<and> (case check_payment_events (version_of (wf_version input)) (wf_type input) (wf_event input) (\<lambda>_. 0) of
           None \<Rightarrow> False
         | Some n \<Rightarrow>
             CHECK_IDENTIFIERS (wf_unit input)
             \<and> CHECK_IDENTIFIERS (wf_account input)
             \<and> (let accounts = length (wf_account input);
                    outgoing = CHECK_IDENTIFIER (wf_notary input) \<and> accounts = 1
                               \<and> outgoing_cheque_1 (wf_state input) n;
                    incoming = OPTIONAL_IDENTIFIER (wf_notary input)
                               \<and> incoming_cheque_1 (wf_state input) (wf_notary input) accounts n
                in case wf_type input of
                     OutgoingCheque \<Rightarrow> outgoing
                   | OutgoingInvoice \<Rightarrow> outgoing
                   | IncomingCheque \<Rightarrow> incoming
                   | IncomingInvoice \<Rightarrow> incoming
                   | _ \<Rightarrow> False))
      \<and> (case wf_type input of
           OutgoingCheque \<Rightarrow> length (wf_unit input) = 1
         | IncomingCheque \<Rightarrow> length (wf_unit input) = 1
         | OutgoingInvoice \<Rightarrow> length (wf_unit input) = 1
         | IncomingInvoice \<Rightarrow> length (wf_unit input) = 1
         | _ \<Rightarrow> False))"

subsection \<open>Payment workflows, version 2\<close>

fun outgoing_cheque_2 :: "workflow_state \<Rightarrow> counters \<Rightarrow> bool" where
  "outgoing_cheque_2 Unsent n =
     (n EventCreate = 1 \<and> \<not> 0 < n EventCancel \<and>
      \<not> 0 < n EventAccept \<and> \<not> 0 < n EventComplete \<and>
      \<not> 0 < n EventAbort \<and> \<not> 0 < n EventAcknowledge)"
| "outgoing_cheque_2 Conveyed n =
     (n EventCreate = 1 \<and> n EventConvey \<noteq> 0 \<and>
      \<not> 0 < n EventComplete \<and> \<not> 0 < n EventAbort \<and>
      \<not> 0 < n EventAcknowledge)"
| "outgoing_cheque_2 Cancelled n =
     (n EventCreate = 1 \<and> n EventCancel \<noteq> 0 \<and>
      \<not> 0 < n EventAccept \<and> \<not> 0 < n EventComplete \<and>
      \<not> 0 < n EventAbort \<and> \<not> 0 < n EventAcknowledge)"
| "outgoing_cheque_2 Accepted n =
     (n EventCreate = 1 \<and> n EventConvey \<noteq> 0 \<and>
      n EventAccept \<noteq> 0 \<and> \<not> 0 < n EventAbort \<and>
      \<not> 0 < n EventAcknowledge)"
| "outgoing_cheque_2 Completed n =
     (n EventCreate = 1 \<and> n EventConvey \<noteq> 0 \<and>
      n EventAccept \<noteq> 0 \<and> n EventComplete \<noteq> 0 \<and>
      \<not> 0 < n EventAbort \<and> \<not> 0 < n EventAcknowledge)"
| "outgoing_cheque_2 Expired n =
     (n EventCreate = 1 \<and> \<not> 0 < n EventAccept \<and>
      \<not> 0 < n EventComplete \<and> \<not> 0 < n EventAbort \<and>
      \<not> 0 < n EventAcknowledge)"
| "outgoing_cheque_2 _ _ = False"

fun incoming_cheque_2 :: "workflow_state \<Rightarrow> string option \<Rightarrow> nat \<Rightarrow> counters \<Rightarrow> bool" where
  "incoming_cheque_2 Conveyed notary accounts n =
     (accounts = 0 \<and> \<not> 0 < n EventCreate \<and> n EventConvey = 1 \<and>
      \<not> 0 < n EventCancel \<and> \<not> 0 < n EventComplete \<and>
      \<not> 0 < n EventAbort \<and> \<not> 0 < n EventAcknowledge)"
| "incoming_cheque_2 Completed notary accounts n =
     (CHECK_IDENTIFIER notary \<and> accounts = 1 \<and> \<not> 0 < n EventCreate \<and>
      n EventConvey = 1 \<and> \<not> 0 < n EventCancel \<and>
      n EventAccept \<noteq> 0 \<and> \<not> 0 < n EventComplete \<and>
      \<not> 0 < n EventAbort \<and> \<not> 0 < n EventAcknowledge)"
| "incoming_cheque_2 Expired notary accounts n =
     (\<not> 1 < accounts \<and> \<not> 0 < n EventCreate \<and> n EventConvey = 1 \<and>
      \<not> 0 < n EventCancel \<and> \<not> 0 < n EventComplete \<and>
      \<not> 0 < n EventAbort \<and> \<not> 0 < n EventAcknowledge)"
| "incoming_cheque_2 _ _ _ _ = False"

fun outgoing_transfer_2 :: "workflow_state \<Rightarrow> counters \<Rightarrow> bool" where
  "outgoing_transfer_2 Initiated n =
     (n EventCreate = 1 \<and> \<not> 0 < n EventConvey \<and>
      \<not> 0 < n EventCancel \<and> \<not> 0 < n EventAccept \<and>
      \<not> 0 < n EventComplete \<and> \<not> 0 < n EventAbort \<and>
      \<not> 0 < n EventAcknowledge)"
| "outgoing_transfer_2 Acknowledged n =
     (n EventCreate = 1 \<and> \<not> 0 < n EventConvey \<and>
      \<not> 0 < n EventCancel \<and> \<not> 0 < n EventAccept \<and>
      \<not> 0 < n EventComplete \<and> \<not> 0 < n EventAbort \<and> n EventAcknowledge = 1)"
| "outgoing_transfer_2 Aborted n =
     (n EventCreate = 1 \<and> \<not> 0 < n EventConvey \<and>
      \<not> 0 < n EventCancel \<and> \<not> 0 < n EventAccept \<and>
      \<not> 0 < n EventComplete \<and> n EventAbort = 1 \<and> \<not> 0 < n EventAcknowledge)"
| "outgoing_transfer_2 Accepted n =
     (n EventCreate = 1 \<and> \<not> 0 < n EventConvey \<and>
      \<not> 0 < n EventCancel \<and> n EventAccept = 1 \<and>
      \<not> 0 < n EventComplete \<and> \<not> 0 < n EventAbort \<and>
      \<not> 1 < n EventAcknowledge)"
| "outgoing_transfer_2 Completed n =
     (n EventCreate = 1 \<and> \<not> 0 < n EventConvey \<and>
      \<not> 0 < n EventCancel \<and> n EventAccept = 1 \<and>
      \<not> 1 > n EventComplete \<and> \<not> 0 < n EventAbort \<and>
      \<not> 1 < n EventAcknowledge)"
| "outgoing_transfer_2 _ _ = False"

fun incoming_transfer_2 :: "workflow_state \<Rightarrow> counters \<Rightarrow> bool" where
  "incoming_transfer_2 Conveyed n =
     (\<not> 0 < n EventCreate \<and> n EventConvey = 1 \<and>
      \<not> 0 < n EventCancel \<and> \<not> 0 < n EventAccept \<and>
      \<not> 0 < n EventComplete \<and> \<not> 0 < n EventAbort \<and>
      \<not> 0 < n EventAcknowledge)"
| "incoming_transfer_2 Completed n =
     (\<not> 0 < n EventCreate \<and> n EventConvey = 1 \<and>
      \<not> 0 < n EventCancel \<and> \<not> 1 > n EventAccept \<and>
      \<not> 0 < n EventComplete \<and> \<not> 0 < n EventAbort \<and>
      \<not> 0 < n EventAcknowledge)"
| "incoming_transfer_2 _ _ = False"

fun internal_transfer_2 :: "workflow_state \<Rightarrow> counters \<Rightarrow> bool" where
  "internal_transfer_2 Initiated n =
     (n EventCreate = 1 \<and> \<not> 0 < n EventConvey \<and>
      \<not> 0 < n EventCancel \<and> \<not> 0 < n EventAccept \<and>
      \<not> 0 < n EventComplete \<and> \<not> 0 < n EventAbort \<and>
      \<not> 0 < n EventAcknowledge)"
| "internal_transfer_2 Acknowledged n =
     (n EventCreate = 1 \<and> \<not> 1 < n EventConvey \<and>
      \<not> 0 < n EventCancel \<and> \<not> 0 < n EventAccept \<and>
      \<not> 0 < n EventComplete \<and> \<not> 0 < n EventAbort \<and> n EventAcknowledge = 1)"
| "internal_transfer_2 Aborted n =
     (n EventCreate = 1 \<and> \<not> 0 < n EventConvey \<and>
      \<not> 0 < n EventCancel \<and> \<not> 0 < n EventAccept \<and>
      \<not> 0 < n EventComplete \<and> n EventAbort = 1 \<and> \<not> 0 < n EventAcknowledge)"
| "internal_transfer_2 Conveyed n =
     (n EventCreate = 1 \<and> n EventConvey = 1 \<and> \<not> 0 < n EventCancel \<and>
      \<not> 0 < n EventAccept \<and> \<not> 0 < n EventComplete \<and>
      \<not> 0 < n EventAbort \<and> \<not> 1 < n EventAcknowledge)"
| "internal_transfer_2 Accepted n =
     (n EventCreate = 1 \<and> n EventConvey = 1 \<and> \<not> 0 < n EventCancel \<and>
      n EventAccept = 1 \<and> \<not> 0 < n EventComplete \<and>
      \<not> 0 < n EventAbort \<and> n EventAcknowledge = 1)"
| "internal_transfer_2 Completed n =
     (n EventCreate = 1 \<and> n EventConvey = 1 \<and> \<not> 0 < n EventCancel \<and>
      n EventAccept = 1 \<and> \<not> 1 > n EventComplete \<and>
      \<not> 0 < n EventAbort \<and> n EventAcknowledge = 1)"
| "internal_transfer_2 _ _ = False"

definition outgoing_transfer_parties :: "workflow \<Rightarrow> bool" where
  "outgoing_transfer_parties input \<longleftrightarrow>
     length (wf_source input) = 1 \<and> \<not> 1 < length (wf_party input)
     \<and> (case wf_state input of
          Accepted \<Rightarrow> length (wf_party input) = 1
        | Completed \<Rightarrow> length (wf_party input) = 1
        | Initiated \<Rightarrow> True
        | Conveyed \<Rightarrow> True
        | Acknowledged \<Rightarrow> True
        | Aborted \<Rightarrow> True
        | _ \<Rightarrow> False)"

definition payment_workflow_2 :: "workflow \<Rightarrow> bool" where
  "payment_workflow_2 input =
     (CHECK_IDENTIFIER (wf_id input)
      \<and> state_allowed input
      \<and> (case wf_type input of
           OutgoingCheque \<Rightarrow> one_source_one_party input
         | IncomingCheque \<Rightarrow> one_source_one_party input
         | OutgoingInvoice \<Rightarrow> one_source_one_party input
         | IncomingInvoice \<Rightarrow> one_source_one_party input
         | IncomingTransfer \<Rightarrow> one_source_one_party input
         | OutgoingTransfer \<Rightarrow> outgoing_transfer_parties input
         | InternalTransfer \<Rightarrow> length (wf_source input) = 1 \<and> length (wf_party input) = 0
         | _ \<Rightarrow> False)
      \<and> sources_ok input
      \<and> CHECK_IDENTIFIERS (wf_party input)
      \<and> (case check_payment_events (version_of (wf_version input)) (wf_type input) (wf_event input) (\<lambda>_. 0) of
           None \<Rightarrow> False
         | Some n \<Rightarrow>
             CHECK_IDENTIFIERS (wf_unit input)
             \<and> CHECK_IDENTIFIERS (wf_account input)
             \<and> (let accounts = length (wf_account input);
                    outgoing = CHECK_IDENTIFIER (wf_notary input) \<and> accounts = 1
                               \<and> outgoing_cheque_2 (wf_state input) n;
                    incoming = OPTIONAL_IDENTIFIER (wf_notary input)
                               \<and> incoming_cheque_2 (wf_state input) (wf_notary input) accounts n
                in case wf_type input of
                     OutgoingCheque \<Rightarrow> outgoing
                   | OutgoingInvoice \<Rightarrow> outgoing
                   | IncomingCheque \<Rightarrow> incoming
                   | IncomingInvoice \<Rightarrow> incoming
                   | OutgoingTransfer \<Rightarrow> CHECK_IDENTIFIER (wf_notary input) \<and> accounts = 1
                               \<and> outgoing_transfer_2 (wf_state input) n
                   | IncomingTransfer \<Rightarrow> CHECK_IDENTIFIER (wf_notary input) \<and> accounts = 1
                               \<and> incoming_transfer_2 (wf_state input) n
                   | InternalTransfer \<Rightarrow> CHECK_IDENTIFIER (wf_notary input) \<and> accounts = 2
                               \<and> internal_transfer_2 (wf_state input) n
                   | _ \<Rightarrow> False))
      \<and> (case wf_type input of
           OutgoingCheque \<Rightarrow> length (wf_unit input) = 1
         | IncomingCheque \<Rightarrow> length (wf_unit input) = 1
         | OutgoingInvoice \<Rightarrow> length (wf_unit input) = 1
         | IncomingInvoice \<Rightarrow> length (wf_unit input) = 1
         | OutgoingTransfer \<Rightarrow> length (wf_unit input) = 1
         | IncomingTransfer \<Rightarrow> length (wf_unit input) = 1
         | InternalTransfer \<Rightarrow> length (wf_unit input) = 1
         | _ \<Rightarrow> False))"

subsection \<open>Payment workflows, version 3\<close>

fun outgoing_cheque_3 :: "workflow_state \<Rightarrow> counters \<Rightarrow> bool" where
  "outgoing_cheque_3 Unsent n =
     (n EventCreate = 1 \<and> \<not> 0 < n EventCancel \<and>
      \<not> 0 < n EventAccept \<and> \<not> 0 < n EventComplete \<and>
      \<not> 0 < n EventAbort \<and> \<not> 0 < n EventAcknowledge)"
| "outgoing_cheque_3 Conveyed n =
     (n EventCreate = 1 \<and> n EventConvey \<noteq> 0 \<and>
      \<not> 0 < n EventComplete \<and> \<not> 0 < n EventAbort \<and>
      \<not> 0 < n EventAcknowledge)"
| "outgoing_cheque_3 Cancelled n =
     (n EventCreate = 1 \<and> n EventCancel \<noteq> 0 \<and>
      \<not> 0 < n EventAccept \<and> \<not> 0 < n EventComplete \<and>
      \<not> 0 < n EventAbort \<and> \<not> 0 < n EventAcknowledge)"
| "outgoing_cheque_3 Accepted n =
     (n EventCreate = 1 \<and> n EventConvey \<noteq> 0 \<and>
      n EventAccept \<noteq> 0 \<and> \<not> 0 < n EventAbort \<and>
      \<not> 0 < n EventAcknowledge)"
| "outgoing_cheque_3 Completed n =
     (n EventCreate = 1 \<and> n EventConvey \<noteq> 0 \<and>
      n EventAccept \<noteq> 0 \<and> n EventComplete \<noteq> 0 \<and>
      \<not> 0 < n EventAbort \<and> \<not> 0 < n EventAcknowledge)"
| "outgoing_cheque_3 Expired n =
     (n EventCreate = 1 \<and> \<not> 0 < n EventAccept \<and>
      \<not> 0 < n EventComplete \<and> \<not> 0 < n EventAbort \<and>
      \<not> 0 < n EventAcknowledge)"
| "outgoing_cheque_3 _ _ = False"

fun incoming_cheque_3 :: "workflow_state \<Rightarrow> string option \<Rightarrow> nat \<Rightarrow> counters \<Rightarrow> bool" where
  "incoming_cheque_3 Conveyed notary accounts n =
     (accounts = 0 \<and> \<not> 0 < n EventCreate \<and> n EventConvey = 1 \<and>
      \<not> 0 < n EventCancel \<and> \<not> 0 < n EventComplete \<and>
      \<not> 0 < n EventAbort \<and> \<not> 0 < n EventAcknowledge)"
| "incoming_cheque_3 Completed notary accounts n =
     (CHECK_IDENTIFIER notary \<and> accounts = 1 \<and> \<not> 0 < n EventCreate \<and>
      n EventConvey = 1 \<and> \<not> 0 < n EventCancel \<and>
      n EventAccept \<noteq> 0 \<and> \<not> 0 < n EventComplete \<and>
      \<not> 0 < n EventAbort \<and> \<not> 0 < n EventAcknowledge)"
| "incoming_cheque_3 Expired notary accounts n =
     (\<not> 1 < accounts \<and> \<not> 0 < n EventCreate \<and> n EventConvey = 1 \<and>
      \<not> 0 < n EventCancel \<and> \<not> 0 < n EventComplete \<and>
      \<not> 0 < n EventAbort \<and> \<not> 0 < n EventAcknowledge)"
| "incoming_cheque_3 _ _ _ _ = False"

fun outgoing_transfer_3 :: "workflow_state \<Rightarrow> counters \<Rightarrow> bool" where
  "outgoing_transfer_3 Initiated n =
     (n EventCreate = 1 \<and> \<not> 0 < n EventConvey \<and>
      \<not> 0 < n EventCancel \<and> \<not> 0 < n EventAccept \<and>
      \<not> 0 < n EventComplete \<and> \<not> 0 < n EventAbort \<and>
      \<not> 0 < n EventAcknowledge)"
| "outgoing_transfer_3 Acknowledged n =
     (n EventCreate = 1 \<and> \<not> 0 < n EventConvey \<and>
      \<not> 0 < n EventCancel \<and> \<not> 0 < n EventAccept \<and>
      \<not> 0 < n EventComplete \<and> \<not> 0 < n EventAbort \<and> n EventAcknowledge = 1)"
| "outgoing_transfer_3 Aborted n =
     (n EventCreate = 1 \<and> \<not> 0 < n EventConvey \<and>
      \<not> 0 < n EventCancel \<and> \<not> 0 < n EventAccept \<and>
      \<not> 0 < n EventComplete \<and> n EventAbort = 1 \<and> \<not> 0 < n EventAcknowledge)"
| "outgoing_transfer_3 Accepted n =
     (n EventCreate = 1 \<and> \<not> 0 < n EventConvey \<and>
      \<not> 0 < n EventCancel \<and> n EventAccept = 1 \<and>
      \<not> 0 < n EventComplete \<and> \<not> 0 < n EventAbort \<and>
      \<not> 1 < n EventAcknowledge)"
| "outgoing_transfer_3 Completed n =
     (n EventCreate = 1 \<and> \<not> 0 < n EventConvey \<and>
      \<not> 0 < n EventCancel \<and> n EventAccept = 1 \<and>
      \<not> 1 > n EventComplete \<and> \<not> 0 < n EventAbort \<and>
      \<not> 1 < n EventAcknowledge)"
| "outgoing_transfer_3 _ _ = False"

fun incoming_transfer_3 :: "workflow_state \<Rightarrow> counters \<Rightarrow> bool" where
  "incoming_transfer_3 Conveyed n =
     (\<not> 0 < n EventCreate \<and> n EventConvey = 1 \<and>
      \<not> 0 < n EventCancel \<and> \<not> 0 < n EventAccept \<and>
      \<not> 0 < n EventComplete \<and> \<not> 0 < n EventAbort \<and>
      \<not> 0 < n EventAcknowledge)"
| "incoming_transfer_3 Completed n =
     (\<not> 0 < n EventCreate \<and> n EventConvey = 1 \<and>
      \<not> 0 < n EventCancel \<and> \<not> 1 > n EventAccept \<and>
      \<not> 0 < n EventComplete \<and> \<not> 0 < n EventAbort \<and>
      \<not> 0 < n EventAcknowledge)"
| "incoming_transfer_3 _ _ = False"

fun internal_transfer_3 :: "workflow_state \<Rightarrow> counters \<Rightarrow> bool" where
  "internal_transfer_3 Initiated n =
     (n EventCreate = 1 \<and> \<not> 0 < n EventConvey \<and>
      \<not> 0 < n EventCancel \<and> \<not> 0 < n EventAccept \<and>
      \<not> 0 < n EventComplete \<and> \<not> 0 < n EventAbort \<and>
      \<not> 0 < n EventAcknowledge)"
| "internal_transfer_3 Acknowledged n =
     (n EventCreate = 1 \<and> \<not> 1 < n EventConvey \<and>
      \<not> 0 < n EventCancel \<and> \<not> 0 < n EventAccept \<and>
      \<not> 0 < n EventComplete \<and> \<not> 0 < n EventAbort \<and> n EventAcknowledge = 1)"
| "internal_transfer_3 Aborted n =
     (n EventCreate = 1 \<and> \<not> 0 < n EventConvey \<and>
      \<not> 0 < n EventCancel \<and> \<not> 0 < n EventAccept \<and>
      \<not> 0 < n EventComplete \<and> n EventAbort = 1 \<and> \<not> 0 < n EventAcknowledge)"
| "internal_transfer_3 Conveyed n =
     (n EventCreate = 1 \<and> n EventConvey = 1 \<and> \<not> 0 < n EventCancel \<and>
      \<not> 0 < n EventAccept \<and> \<not> 0 < n EventComplete \<and>
      \<not> 0 < n EventAbort \<and> \<not> 1 < n EventAcknowledge)"
| "internal_transfer_3 Accepted n =
     (n EventCreate = 1 \<and> n EventConvey = 1 \<and> \<not> 0 < n EventCancel \<and>
      n EventAccept = 1 \<and> \<not> 0 < n EventComplete \<and>
      \<not> 0 < n EventAbort \<and> n EventAcknowledge = 1)"
| "internal_transfer_3 Completed n =
     (n EventCreate = 1 \<and> n EventConvey = 1 \<and> \<not> 0 < n EventCancel \<and>
      n EventAccept = 1 \<and> \<not> 1 > n EventComplete \<and>
      \<not> 0 < n EventAbort \<and> n EventAcknowledge = 1)"
| "internal_transfer_3 _ _ = False"

fun outgoing_cash_3 :: "workflow_state \<Rightarrow> counters \<Rightarrow> bool" where
  "outgoing_cash_3 Unsent n =
     (n EventCreate = 1 \<and> \<not> 0 < n EventExpire)"
| "outgoing_cash_3 Conveyed n =
     (n EventCreate = 1 \<and> \<not> 0 < n EventExpire \<and> n EventConvey \<noteq> 0)"
| "outgoing_cash_3 Expired n =
     (n EventCreate = 1 \<and> n EventExpire = 1)"
| "outgoing_cash_3 _ _ = False"

fun incoming_cash_3 :: "workflow_state \<Rightarrow> counters \<Rightarrow> bool" where
  "incoming_cash_3 Conveyed n =
     (n EventConvey = 1 \<and> \<not> 0 < n EventExpire \<and> \<not> 0 < n EventReject)"
| "incoming_cash_3 Accepted n =
     (n EventConvey = 1 \<and> n EventAccept \<noteq> 0 \<and>
      \<not> 0 < n EventExpire \<and> \<not> 0 < n EventReject)"
| "incoming_cash_3 Expired n =
     (n EventConvey = 1)"
| "incoming_cash_3 Rejected n =
     (n EventConvey = 1 \<and> \<not> 0 < n EventExpire \<and> n EventReject \<noteq> 0)"
| "incoming_cash_3 _ _ = False"

definition cash_parties :: "workflow \<Rightarrow> bool" where
  "cash_parties input \<longleftrightarrow> length (wf_source input) = 1 \<and> \<not> 1 < length (wf_party input)"

definition payment_workflow_3 :: "workflow \<Rightarrow> bool" where
  "payment_workflow_3 input =
     (CHECK_IDENTIFIER (wf_id input)
      \<and> state_allowed input
      \<and> (case wf_type input of
           OutgoingCheque \<Rightarrow> one_source_one_party input
         | IncomingCheque \<Rightarrow> one_source_one_party input
         | OutgoingInvoice \<Rightarrow> one_source_one_party input
         | IncomingInvoice \<Rightarrow> one_source_one_party input
         | IncomingTransfer \<Rightarrow> one_source_one_party input
         | OutgoingTransfer \<Rightarrow> outgoing_transfer_parties input
         | InternalTransfer \<Rightarrow> length (wf_source input) = 1 \<and> length (wf_party input) = 0
         | OutgoingCash \<Rightarrow> cash_parties input
         | IncomingCash \<Rightarrow> cash_parties input
         | TypeError \<Rightarrow> False)
      \<and> sources_ok input
      \<and> CHECK_IDENTIFIERS (wf_party input)
      \<and> (case check_payment_events (version_of (wf_version input)) (wf_type input) (wf_event input) (\<lambda>_. 0) of
           None \<Rightarrow> False
         | Some n \<Rightarrow>
             CHECK_IDENTIFIERS (wf_unit input)
             \<and> CHECK_IDENTIFIERS (wf_account input)
             \<and> (let accounts = length (wf_account input);
                    outgoing = CHECK_IDENTIFIER (wf_notary input) \<and> accounts = 1
                               \<and> outgoing_cheque_3 (wf_state input) n;
                    incoming = OPTIONAL_IDENTIFIER (wf_notary input)
                               \<and> incoming_cheque_3 (wf_state input) (wf_notary input) accounts n
                in case wf_type input of
                     OutgoingCheque \<Rightarrow> outgoing
                   | OutgoingInvoice \<Rightarrow> outgoing
                   | IncomingCheque \<Rightarrow> incoming
                   | IncomingInvoice \<Rightarrow> incoming
                   | OutgoingTransfer \<Rightarrow> CHECK_IDENTIFIER (wf_notary input) \<and> accounts = 1
                               \<and> outgoing_transfer_3 (wf_state input) n
                   | IncomingTransfer \<Rightarrow> CHECK_IDENTIFIER (wf_notary input) \<and> accounts = 1
                               \<and> incoming_transfer_3 (wf_state input) n
                   | InternalTransfer \<Rightarrow> CHECK_IDENTIFIER (wf_notary input) \<and> accounts = 2
                               \<and> internal_transfer_3 (wf_state input) n
                   | OutgoingCash \<Rightarrow> CHECK_IDENTIFIER (wf_notary input) \<and> accounts = 0
                               \<and> outgoing_cash_3 (wf_state input) n
                   | IncomingCash \<Rightarrow> CHECK_IDENTIFIER (wf_notary input) \<and> accounts = 0
                               \<and> incoming_cash_3 (wf_state input) n
                   | TypeError \<Rightarrow> False))
      \<and> (case wf_type input of
           OutgoingCheque \<Rightarrow> length (wf_unit input) = 1
         | IncomingCheque \<Rightarrow> length (wf_unit input) = 1
         | OutgoingInvoice \<Rightarrow> length (wf_unit input) = 1
         | IncomingInvoice \<Rightarrow> length (wf_unit input) = 1
         | OutgoingTransfer \<Rightarrow> length (wf_unit input) = 1
         | IncomingTransfer \<Rightarrow> length (wf_unit input) = 1
         | InternalTransfer \<Rightarrow> length (wf_unit input) = 1
         | OutgoingCash \<Rightarrow> True
         | IncomingCash \<Rightarrow> True
         | TypeError \<Rightarrow> False))"

definition payment_workflow_version :: "workflow \<Rightarrow> nat \<Rightarrow> bool" where
  "payment_workflow_version input v =
     (if v = 1 then payment_workflow_1 input
      else if v = 2 then payment_workflow_2 input
      else if v = 3 then payment_workflow_3 input
      else False)"

definition check_workflow :: "workflow \<Rightarrow> bool" where
  "check_workflow input = syntax_check (wf_version input) (payment_workflow_version input)"

end
