(* ===== verification/Workflow_Storage.thy ===== *)
theory Workflow_Storage
  imports Workflow_Syntax
begin

text \<open>
  The storage node that holds the workflows of one nym
  (\<open>src/util/storage/tree/PaymentWorkflows.cpp\<close>): the objects, and the indexes by source
  object, account, unit and state that the node keeps in memory beside them.

  \<open>pw_items\<close> is \<open>item_map_\<close>: an entry whose object was never written has a null hash and is
  \<open>Some None\<close>. The hash of a written object and the plugin that stores the bytes under it are
  represented by the object itself. Whether the plugin accepts a write is not under the control of
  the node; it is the argument \<open>plugin_ok\<close> of \<open>pw_Store\<close> and \<open>pw_Delete\<close>.
  The encoding of the indexes in \<open>StoragePaymentWorkflows\<close> (\<open>serialize\<close>, \<open>init\<close>) is
  not modelled.
\<close>

type_synonym state_key = "workflow_type \<times> workflow_state"

record workflow_store =
  pw_items :: "ident \<Rightarrow> workflow option option"
  pw_sources :: "ident \<Rightarrow> ident option"
  pw_accounts :: "ident \<Rightarrow> ident set option"
  pw_units :: "ident \<Rightarrow> ident set option"
  pw_states :: "ident \<Rightarrow> state_key option"
  pw_types :: "workflow_type \<Rightarrow> ident set option"
  pw_by_state :: "state_key \<Rightarrow> ident set option"

definition pw_empty :: workflow_store where
  "pw_empty = \<lparr>pw_items = (\<lambda>_. None), pw_sources = (\<lambda>_. None), pw_accounts = (\<lambda>_. None),
     pw_units = (\<lambda>_. None), pw_states = (\<lambda>_. None), pw_types = (\<lambda>_. None), pw_by_state = (\<lambda>_. None)\<rparr>"

subsection \<open>Index maintenance\<close>

definition add_state_index ::
  "ident \<Rightarrow> workflow_type \<Rightarrow> workflow_state \<Rightarrow> workflow_store \<Rightarrow> workflow_store outcome" where
  "add_state_index workflowID type state s =
     assert_that ''workflowID.empty()'' (workflowID \<noteq> [])
       (assert_that ''PaymentWorkflowType::Error'' (type \<noteq> TypeError)
         (assert_that ''PaymentWorkflowState::Error'' (state \<noteq> StateError)
           (Inr (s\<lparr>pw_states := emplace workflowID (type, state) (pw_states s),
                   pw_types := bucket_emplace type workflowID (pw_types s),
                   pw_by_state := bucket_emplace (type, state) workflowID (pw_by_state s)\<rparr>))))"

definition delete_by_value :: "ident \<Rightarrow> workflow_store \<Rightarrow> workflow_store" where
  "delete_by_value v s =
     s\<lparr>pw_sources := (\<lambda>k. if pw_sources s k = Some v then None else pw_sources s k)\<rparr>"

definition reindex ::
  "ident \<Rightarrow> workflow_type \<Rightarrow> workflow_state \<Rightarrow> workflow_state \<Rightarrow> workflow_store \<Rightarrow> workflow_store outcome" where
  "reindex workflowID type newState state s =
     assert_that ''workflowID.empty()'' (workflowID \<noteq> [])
       (let oldKey = (type, state);
            oldSet = bucket (pw_by_state s) oldKey - {workflowID};
            m1 = (if oldSet = {} then (pw_by_state s)(oldKey := None)
                  else (pw_by_state s)(oldKey := Some oldSet))
        in assert_that ''PaymentWorkflowType::Error'' (type \<noteq> TypeError)
             (assert_that ''PaymentWorkflowState::Error'' (newState \<noteq> StateError)
               (Inr (s\<lparr>pw_states := (pw_states s)(workflowID := Some (type, newState)),
                       pw_by_state := bucket_emplace (type, newState) workflowID m1\<rparr>))))"

subsection \<open>Operations\<close>

definition pw_GetState :: "ident \<Rightarrow> workflow_store \<Rightarrow> state_key" where
  "pw_GetState workflowID s =
     (case pw_states s workflowID of None \<Rightarrow> (TypeError, StateError) | Some k \<Rightarrow> k)"

definition pw_ListByAccount :: "ident \<Rightarrow> workflow_store \<Rightarrow> ident set" where
  "pw_ListByAccount accountID s = (case pw_accounts s accountID of None \<Rightarrow> {} | Some ws \<Rightarrow> ws)"

definition pw_ListByUnit :: "ident \<Rightarrow> workflow_store \<Rightarrow> ident set" where
  "pw_ListByUnit unitID s = (case pw_units s unitID of None \<Rightarrow> {} | Some ws \<Rightarrow> ws)"

definition pw_ListByState :: "workflow_type \<Rightarrow> workflow_state \<Rightarrow> workflow_store \<Rightarrow> ident set" where
  "pw_ListByState type state s = (case pw_by_state s (type, state) of None \<Rightarrow> {} | Some ws \<Rightarrow> ws)"

definition pw_LookupBySource :: "ident \<Rightarrow> workflow_store \<Rightarrow> ident" where
  "pw_LookupBySource sourceID s = (case pw_sources s sourceID of None \<Rightarrow> [] | Some w \<Rightarrow> w)"

text \<open>\<open>Node::load_proto\<close>; \<open>LoadProto\<close> asserts that what it read passes the check.\<close>

definition pw_Load :: "ident \<Rightarrow> workflow_store \<Rightarrow> workflow option outcome" where
  "pw_Load i s =
     (if i = [] then Inr None
      else case pw_items s i of
             None \<Rightarrow> Inr None
           | Some None \<Rightarrow> Inr None
           | Some (Some w) \<Rightarrow> assert_that ''valid'' (check_workflow w) (Inr (Some w)))"

text \<open>\<open>Node::store_proto\<close>; \<open>StoreProto\<close> checks the object and hands it to the plugin.\<close>

definition pw_store_proto :: "bool \<Rightarrow> ident \<Rightarrow> workflow \<Rightarrow> workflow_store \<Rightarrow> bool \<times> workflow_store" where
  "pw_store_proto plugin_ok i w s =
     (let s1 = s\<lparr>pw_items := emplace i None (pw_items s)\<rparr>
      in if check_workflow w \<and> plugin_ok
         then (True, s1\<lparr>pw_items := (pw_items s1)(i := Some (Some w))\<rparr>)
         else (False, s1))"

definition source_ids :: "workflow \<Rightarrow> ident list" where
  "source_ids w = map (\<lambda>src. text_of (ir_id src)) (wf_source w)"

definition pw_Store :: "bool \<Rightarrow> workflow \<Rightarrow> workflow_store \<Rightarrow> (bool \<times> workflow_store) outcome" where
  "pw_Store plugin_ok w s =
     (let i = text_of (wf_id w);
          s1 = delete_by_value i s;
          s2 = s1\<lparr>pw_sources := fold (\<lambda>src. emplace src i) (source_ids w) (pw_sources s1)\<rparr>
      in bind_outcome
           (case pw_states s2 i of
              None \<Rightarrow> add_state_index i (wf_type w) (wf_state w) s2
            | Some (type, state) \<Rightarrow> reindex i type (wf_state w) state s2)
           (\<lambda>s3.
             let s4 = s3\<lparr>pw_accounts := fold (\<lambda>a. bucket_emplace a i) (wf_account w) (pw_accounts s3),
                         pw_units := fold (\<lambda>u. bucket_emplace u i) (wf_unit w) (pw_units s3)\<rparr>
             in Inr (pw_store_proto plugin_ok i w s4)))"

definition pw_Delete :: "bool \<Rightarrow> ident \<Rightarrow> workflow_store \<Rightarrow> bool \<times> workflow_store" where
  "pw_Delete plugin_ok i s =
     (let s1 = delete_by_value i s
      in case pw_items s1 i of
           None \<Rightarrow> (False, s1)
         | Some _ \<Rightarrow> (plugin_ok, s1\<lparr>pw_items := (pw_items s1)(i := None)\<rparr>))"

subsection \<open>The object a node holds under an identifier\<close>

definition pw_get :: "ident \<Rightarrow> workflow_store \<Rightarrow> workflow option" where
  "pw_get i s = (case pw_items s i of None \<Rightarrow> None | Some w \<Rightarrow> w)"

lemma pw_get_empty [simp]: "pw_get i pw_empty = None"
  by (simp add: pw_get_def pw_empty_def)

text \<open>
  The invariant of a node: what it holds under an identifier carries that identifier and passes
  the check, the state index has the type and state of every object, and the two directions of
  the state index agree.
\<close>

definition pw_invar :: "workflow_store \<Rightarrow> bool" where
  "pw_invar s \<longleftrightarrow>
     (\<forall>i w. pw_get i s = Some w \<longrightarrow>
        wf_id w = Some i \<and> check_workflow w \<and> pw_states s i = Some (wf_type w, wf_state w))
     \<and> (\<forall>t st. pw_ListByState t st s = {i. pw_states s i = Some (t, st)})"

lemma pw_invar_empty: "pw_invar pw_empty"
  by (simp add: pw_invar_def pw_empty_def pw_get_def pw_ListByState_def)

lemma pw_invar_get:
  "pw_invar s \<Longrightarrow> pw_get i s = Some w \<Longrightarrow>
     wf_id w = Some i \<and> check_workflow w \<and> pw_states s i = Some (wf_type w, wf_state w)"
  by (simp add: pw_invar_def)

lemma check_workflow_id: "check_workflow w \<Longrightarrow> \<exists>i. wf_id w = Some i \<and> plausible i"
  by (cases "wf_id w") (auto simp: check_workflow_def payment_workflow_version_def payment_workflow_1_def
      payment_workflow_2_def payment_workflow_3_def syntax_check_def split: option.splits if_splits)

lemma check_workflow_type_state:
  assumes "check_workflow w"
  shows "wf_type w \<noteq> TypeError \<and> wf_state w \<noteq> StateError"
proof -
  from assms have "state_allowed w"
    by (auto simp: check_workflow_def payment_workflow_version_def payment_workflow_1_def
        payment_workflow_2_def payment_workflow_3_def syntax_check_def split: option.splits if_splits)
  then show ?thesis
    by (auto simp: state_allowed_def PaymentWorkflowAllowedState_def split: option.splits if_splits)
qed

subsection \<open>Effect of the operations\<close>

lemma pw_Load_eq:
  "pw_invar s \<Longrightarrow> pw_Load i s = Inr (if i = [] then None else pw_get i s)"
  by (auto simp: pw_Load_def pw_get_def pw_invar_def split: option.splits)

lemma pw_get_plausible: "pw_invar s \<Longrightarrow> pw_get i s = Some w \<Longrightarrow> plausible i"
  using pw_invar_get check_workflow_id by fastforce

lemma fold_emplace_apply:
  "fold (\<lambda>src. emplace src i) ks m k =
     (case m k of Some v \<Rightarrow> Some v | None \<Rightarrow> if k \<in> set ks then Some i else None)"
  by (induction ks arbitrary: m) (auto simp: emplace_apply split: option.splits)

lemma fold_bucket_emplace:
  "bucket (fold (\<lambda>a. bucket_emplace a i) ks m) k = (if k \<in> set ks then insert i (bucket m k) else bucket m k)"
  by (induction ks arbitrary: m) auto

text \<open>
  The type the state index keeps for an identifier: \<open>reindex\<close> moves the state only, so a node
  remembers the type of the first object stored under it.
\<close>

definition indexed_type :: "ident \<Rightarrow> workflow \<Rightarrow> workflow_store \<Rightarrow> workflow_type" where
  "indexed_type i w s = (case pw_states s i of None \<Rightarrow> wf_type w | Some (t, _) \<Rightarrow> t)"

lemma indexed_type_invar [simp]:
  "pw_invar s \<Longrightarrow> pw_get i s = Some w' \<Longrightarrow> indexed_type i w s = wf_type w'"
  by (simp add: indexed_type_def pw_invar_def)

lemma pw_store_proto_simps [simp]:
  "pw_states (snd (pw_store_proto ok i w s)) = pw_states s"
  "pw_sources (snd (pw_store_proto ok i w s)) = pw_sources s"
  "pw_by_state (snd (pw_store_proto ok i w s)) = pw_by_state s"
  "pw_accounts (snd (pw_store_proto ok i w s)) = pw_accounts s"
  "pw_units (snd (pw_store_proto ok i w s)) = pw_units s"
  "fst (pw_store_proto ok i w s) \<longleftrightarrow> check_workflow w \<and> ok"
  "pw_get j (snd (pw_store_proto ok i w s)) =
     (if j = i \<and> check_workflow w \<and> ok then Some w else pw_get j s)"
  by (auto simp: pw_store_proto_def Let_def pw_get_def emplace_apply split: option.splits)

definition pw_indexed :: "ident \<Rightarrow> workflow \<Rightarrow> workflow_store \<Rightarrow> workflow_store" where
  "pw_indexed i w s =
     (let t = indexed_type i w s
      in s\<lparr>pw_states := (pw_states s)(i := Some (t, wf_state w)),
           pw_types := (case pw_states s i of
              None \<Rightarrow> bucket_emplace t i (pw_types s) | Some _ \<Rightarrow> pw_types s),
           pw_by_state := bucket_emplace (t, wf_state w) i
             (case pw_states s i of
                None \<Rightarrow> pw_by_state s
              | Some k \<Rightarrow>
                  (if bucket (pw_by_state s) k - {i} = {} then (pw_by_state s)(k := None)
                   else (pw_by_state s)(k := Some (bucket (pw_by_state s) k - {i}))))\<rparr>)"

lemma pw_invar_index_type:
  "pw_invar s \<Longrightarrow> pw_get i s = Some w \<Longrightarrow> pw_states s i = Some (t, st) \<Longrightarrow> t \<noteq> TypeError"
  using check_workflow_type_state by (fastforce simp: pw_invar_def)

text \<open>
  With an identifier and a type the index admits, \<open>Store\<close> does not abort, and its result has a
  closed form: the source index loses what pointed to the identifier and gains the object's
  sources that nobody owns, the state index is updated, and the object is written when the check
  and the plugin accept it.
\<close>

lemma pw_Store_closed:
  assumes i: "wf_id w = Some i" "i \<noteq> []"
    and st: "wf_state w \<noteq> StateError" and t: "indexed_type i w s \<noteq> TypeError"
  shows "pw_Store ok w s = Inr (pw_store_proto ok i w
     ((pw_indexed i w s)\<lparr>
        pw_sources := fold (\<lambda>src. emplace src i) (source_ids w) (pw_sources (delete_by_value i s)),
        pw_accounts := fold (\<lambda>a. bucket_emplace a i) (wf_account w) (pw_accounts s),
        pw_units := fold (\<lambda>u. bucket_emplace u i) (wf_unit w) (pw_units s)\<rparr>))"
proof (cases "pw_states s i")
  case None
  with i st t show ?thesis
    by (auto simp: pw_Store_def Let_def delete_by_value_def add_state_index_def pw_indexed_def
        indexed_type_def intro!: arg_cong [where f = "pw_store_proto ok i w"] workflow_store.equality)
next
  case (Some k)
  with i st t show ?thesis
    by (cases k) (auto simp: pw_Store_def Let_def delete_by_value_def reindex_def pw_indexed_def
        indexed_type_def intro!: arg_cong [where f = "pw_store_proto ok i w"] workflow_store.equality)
qed

lemma pw_indexed_simps [simp]:
  "pw_states (pw_indexed i w s) = (pw_states s)(i := Some (indexed_type i w s, wf_state w))"
  "pw_get j (pw_indexed i w s) = pw_get j s"
  by (simp_all add: pw_indexed_def Let_def pw_get_def)

lemma pw_ListByState_bucket: "pw_ListByState t st s = bucket (pw_by_state s) (t, st)"
  by (simp add: pw_ListByState_def bucket_def)

lemma pw_indexed_by_state:
  assumes "\<forall>t st. pw_ListByState t st s = {i. pw_states s i = Some (t, st)}"
  shows "pw_ListByState t st (pw_indexed i w s) = {j. pw_states (pw_indexed i w s) j = Some (t, st)}"
  using assms by (cases "pw_states s i")
    (auto simp: pw_ListByState_bucket pw_indexed_def Let_def split: if_splits)

lemma pw_Store_lookup:
  assumes "wf_id w = Some i" "i \<noteq> []" "wf_state w \<noteq> StateError" "indexed_type i w s \<noteq> TypeError"
    and "pw_Store ok w s = Inr (b, s')"
  shows "pw_sources s' src =
     (case pw_sources s src of
        Some v \<Rightarrow> if v = i then if src \<in> set (source_ids w) then Some i else None else Some v
      | None \<Rightarrow> if src \<in> set (source_ids w) then Some i else None)"
  using assms(5) unfolding pw_Store_closed [OF assms(1-4)]
  by (auto simp: prod_eq_iff fold_emplace_apply delete_by_value_def dest!: arg_cong [where f = pw_sources]
      split: option.splits)

text \<open>Storing a valid object that keeps its type re-establishes the invariant of the node.\<close>

lemma pw_Store_step:
  assumes inv: "pw_invar s" and ok: "check_workflow w" and i: "wf_id w = Some i"
    and t: "indexed_type i w s = wf_type w"
  obtains s' where "pw_Store plugin_ok w s = Inr (plugin_ok, s')"
    and "plugin_ok \<longrightarrow> pw_invar s'"
    and "\<And>j. pw_get j s' = (if j = i \<and> plugin_ok then Some w else pw_get j s)"
    and "pw_states s' = (pw_states s)(i := Some (wf_type w, wf_state w))"
proof -
  from ok i have i_ne: "i \<noteq> []"
    using check_workflow_id by fastforce
  have st: "wf_state w \<noteq> StateError" and ty: "indexed_type i w s \<noteq> TypeError"
    using check_workflow_type_state [OF ok] t by auto
  define base where "base = (pw_indexed i w s)\<lparr>
        pw_sources := fold (\<lambda>src. emplace src i) (source_ids w) (pw_sources (delete_by_value i s)),
        pw_accounts := fold (\<lambda>a. bucket_emplace a i) (wf_account w) (pw_accounts s),
        pw_units := fold (\<lambda>u. bucket_emplace u i) (wf_unit w) (pw_units s)\<rparr>"
  define s' where "s' = snd (pw_store_proto plugin_ok i w base)"
  have base_get: "pw_get j base = pw_get j s" for j
    by (simp add: base_def pw_get_def pw_indexed_def Let_def)
  have store: "pw_Store plugin_ok w s = Inr (plugin_ok, s')"
    unfolding pw_Store_closed [OF i i_ne st ty] base_def [symmetric] s'_def
    using ok by (simp add: prod_eq_iff)
  have get: "pw_get j s' = (if j = i \<and> plugin_ok then Some w else pw_get j s)" for j
    using ok base_get by (simp add: s'_def)
  have states: "pw_states s' = (pw_states s)(i := Some (wf_type w, wf_state w))"
    using t by (simp add: s'_def base_def)
  have idx: "pw_ListByState a b s' = {j. pw_states s' j = Some (a, b)}" for a b
    using pw_indexed_by_state [of s a b i w] inv
    by (simp add: pw_ListByState_bucket pw_invar_def s'_def base_def)
  have "plugin_ok \<longrightarrow> pw_invar s'"
    using inv ok i unfolding pw_invar_def by (auto simp: get states idx)
  with store get states that show thesis by blast
qed

end
