(* ===== verification/Workflow_Engine.thy ===== *)
theory Workflow_Engine
  imports Workflow_Storage
begin

text \<open>
  The parts of \<open>api::session::imp::Workflow\<close> (\<open>src/api/session/Workflow.cpp\<close>) that its
  operations share: the state they act on, loading and saving workflows, the notifications, the
  guards \<open>can_*\<close> and the extraction of transfer items from receipts.

  The state is the workflow nodes of the nyms storage knows (\<open>api::session::Storage\<close>) and the
  log of notifications sent. The environment \<open>wf_env\<close> holds what one call obtains from the
  rest of the library: the clock, the random identifier, the account index, the contact list, the
  deserializers of \<open>src/otx/common/\<close> and the outcome of the storage plugin. Locks are not
  modelled: an operation holds the lock of its workflow from its load to its save, so operations on
  one workflow are a sequence.
\<close>

subsection \<open>Objects the operations receive\<close>

record cheque =
  ch_id :: ident \<comment> \<open>\<open>Factory().Internal().Identifier(cheque)\<close>\<close>
  ch_text :: string \<comment> \<open>\<open>String::Factory(cheque)->Get()\<close>\<close>
  ch_has_remitter :: bool
  ch_amount :: int
  ch_sender_nym :: ident
  ch_sender_account :: ident
  ch_remitter_account :: ident
  ch_has_recipient :: bool
  ch_recipient_nym :: ident
  ch_unit :: ident
  ch_valid_to :: int
  ch_memo :: string

definition SourceAccountID :: "cheque \<Rightarrow> ident" where
  "SourceAccountID c = (if ch_has_remitter c then ch_remitter_account c else ch_sender_account c)"

datatype item_type = ItemTransfer | ItemAcceptPending | ItemOther

record item =
  it_type :: item_type
  it_id :: ident
  it_text :: string
  it_nym :: ident
  it_real_account :: ident
  it_purported_account :: ident
  it_destination :: ident
  it_amount :: int
  it_note :: string
  it_attachment :: string

datatype transaction_type = TxPending | TxTransferReceipt | TxOther

record transaction =
  tx_type :: transaction_type
  tx_text :: string
  tx_reference :: string
  tx_nym :: ident
  tx_purported_account :: ident
  tx_real_account :: ident
  tx_real_notary :: ident

record message =
  msg_text :: string
  msg_nym_id :: ident
  msg_nym_id2 :: ident
  msg_notary_id :: ident
  msg_success :: bool
  msg_time :: int

record purse =
  pu_text :: string
  pu_notary :: ident
  pu_unit :: ident

record wf_env =
  env_now :: int
  env_random :: ident
  env_account_owner :: "ident \<Rightarrow> ident"
  env_account_server :: "ident \<Rightarrow> ident"
  env_account_contract :: "ident \<Rightarrow> ident"
  env_contact_id :: "ident \<Rightarrow> ident"
  env_nym_to_contact :: "ident \<Rightarrow> ident"
  env_add_payment_event :: bool
  env_plugin_ok :: bool
  env_item :: "string \<Rightarrow> item option"
  env_transaction :: "string \<Rightarrow> transaction option"
  env_receipt_cheque :: "transaction \<Rightarrow> cheque option"

subsection \<open>State and notifications\<close>

datatype storage_box = BoxIncomingCheque | BoxOutgoingCheque | BoxIncomingTransfer | BoxOutgoingTransfer

datatype account_event_type =
    AccountEventError
  | AccountIncomingCheque
  | AccountOutgoingCheque
  | AccountIncomingTransfer
  | AccountOutgoingTransfer
  | AccountIncomingInvoice
  | AccountOutgoingInvoice
  | AccountIncomingVoucher
  | AccountOutgoingVoucher
  | AccountIncomingBlockchain
  | AccountOutgoingBlockchain

record account_event =
  ae_version :: "nat option"
  ae_id :: "string option"
  ae_type :: account_event_type
  ae_contact :: "string option"
  ae_workflow :: "string option"
  ae_amount :: int
  ae_pending :: int
  ae_timestamp :: int
  ae_memo :: string
  ae_uuid :: "string option"

datatype notification =
    AccountUpdate ident
  | PaymentEventAdded ident ident storage_box ident ident int
  | NymToContact ident
  | RpcPush ident account_event

record engine =
  en_nyms :: "ident \<Rightarrow> workflow_store option"
  en_log :: "notification list"

definition notify :: "notification \<Rightarrow> engine \<Rightarrow> engine" where
  "notify n s = s\<lparr>en_log := en_log s @ [n]\<rparr>"

lemma notify_simps [simp]: "en_nyms (notify n s) = en_nyms s" "en_log (notify n s) = en_log s @ [n]"
  by (simp_all add: notify_def)

subsection \<open>Storage front end (\<open>src/api/session/Storage.cpp\<close>)\<close>

definition storage_Load :: "ident \<Rightarrow> ident \<Rightarrow> engine \<Rightarrow> workflow option outcome" where
  "storage_Load nymID workflowID s =
     (case en_nyms s nymID of None \<Rightarrow> Inr None | Some node \<Rightarrow> pw_Load workflowID node)"

definition storage_Store :: "bool \<Rightarrow> ident \<Rightarrow> workflow \<Rightarrow> engine \<Rightarrow> (bool \<times> engine) outcome" where
  "storage_Store plugin_ok nymID w s =
     (case en_nyms s nymID of
        None \<Rightarrow> Inr (False, s)
      | Some node \<Rightarrow>
          bind_outcome (pw_Store plugin_ok w node)
            (\<lambda>(saved, node'). Inr (saved, s\<lparr>en_nyms := (en_nyms s)(nymID := Some node')\<rparr>)))"

definition storage_Delete :: "bool \<Rightarrow> ident \<Rightarrow> ident \<Rightarrow> engine \<Rightarrow> bool \<times> engine" where
  "storage_Delete plugin_ok nymID workflowID s =
     (case en_nyms s nymID of
        None \<Rightarrow> (False, s)
      | Some node \<Rightarrow>
          (let (deleted, node') = pw_Delete plugin_ok workflowID node
           in (deleted, s\<lparr>en_nyms := (en_nyms s)(nymID := Some node')\<rparr>)))"

definition PaymentWorkflowLookup :: "ident \<Rightarrow> ident \<Rightarrow> engine \<Rightarrow> ident" where
  "PaymentWorkflowLookup nymID sourceID s =
     (case en_nyms s nymID of None \<Rightarrow> [] | Some node \<Rightarrow> pw_LookupBySource sourceID node)"

definition PaymentWorkflowsByAccount :: "ident \<Rightarrow> ident \<Rightarrow> engine \<Rightarrow> ident set" where
  "PaymentWorkflowsByAccount nymID accountID s =
     (case en_nyms s nymID of None \<Rightarrow> {} | Some node \<Rightarrow> pw_ListByAccount accountID node)"

definition PaymentWorkflowsByState ::
  "ident \<Rightarrow> workflow_type \<Rightarrow> workflow_state \<Rightarrow> engine \<Rightarrow> ident set" where
  "PaymentWorkflowsByState nymID type state s =
     (case en_nyms s nymID of None \<Rightarrow> {} | Some node \<Rightarrow> pw_ListByState type state node)"

subsection \<open>Loading and saving workflows\<close>

definition get_workflow_by_id :: "ident \<Rightarrow> ident \<Rightarrow> engine \<Rightarrow> workflow option outcome" where
  "get_workflow_by_id nymID workflowID s = storage_Load nymID workflowID s"

text \<open>
  The overload that checks the type dereferences the loaded object without a test; when nothing is
  loaded this is a null pointer.
\<close>

definition get_workflow_by_id_typed ::
  "workflow_type list \<Rightarrow> ident \<Rightarrow> ident \<Rightarrow> engine \<Rightarrow> workflow option outcome" where
  "get_workflow_by_id_typed types nymID workflowID s =
     bind_outcome (get_workflow_by_id nymID workflowID s)
       (\<lambda>output. case output of
          None \<Rightarrow> Inl NullDereference
        | Some w \<Rightarrow> if wf_type w \<notin> set types then Inr None else Inr (Some w))"

definition get_workflow_by_source ::
  "workflow_type list \<Rightarrow> ident \<Rightarrow> ident \<Rightarrow> engine \<Rightarrow> workflow option outcome" where
  "get_workflow_by_source types nymID sourceID s =
     (let workflowID = PaymentWorkflowLookup nymID sourceID s
      in if workflowID = [] then Inr None
         else get_workflow_by_id_typed types nymID workflowID s)"

definition save_workflow :: "wf_env \<Rightarrow> ident \<Rightarrow> ident \<Rightarrow> workflow \<Rightarrow> engine \<Rightarrow> (bool \<times> engine) outcome" where
  "save_workflow env nymID accountID w s =
     (let valid = check_workflow w
      in assert_that ''valid'' valid
           (bind_outcome (storage_Store (env_plugin_ok env) nymID w s)
             (\<lambda>(saved, s'). assert_that ''saved'' saved
               (Inr (valid \<and> saved, if accountID \<noteq> [] then notify (AccountUpdate accountID) s' else s')))))"

subsection \<open>Notifications\<close>

text \<open>
  \<open>RPCPush\<close> and \<open>AccountEvent\<close> version 1 (\<open>src/opentxs/protobuf/syntax/RPCPush.01.cpp\<close>,
  \<open>AccountEvent.01.cpp\<close>); the table \<open>RPCPushAllowedAccountEvent\<close> admits version 1 only.
\<close>

definition RPCPushAllowedAccountEvent :: version_map where
  "RPCPushAllowedAccountEvent = map_of [(1, (1, 1)), (2, (1, 2)), (3, (1, 2))]"

definition account_event_1 :: "account_event \<Rightarrow> bool" where
  "account_event_1 input =
     (OPTIONAL_IDENTIFIER (ae_id input)
      \<and> CHECK_IDENTIFIER (ae_workflow input)
      \<and> (case ae_type input of
           AccountIncomingTransfer \<Rightarrow> CHECK_IDENTIFIER (ae_contact input)
         | AccountIncomingInvoice \<Rightarrow> CHECK_IDENTIFIER (ae_contact input)
         | AccountIncomingVoucher \<Rightarrow> CHECK_IDENTIFIER (ae_contact input)
         | AccountIncomingCheque \<Rightarrow> CHECK_IDENTIFIER (ae_contact input)
         | AccountOutgoingCheque \<Rightarrow> OPTIONAL_IDENTIFIER (ae_contact input)
         | AccountOutgoingTransfer \<Rightarrow> OPTIONAL_IDENTIFIER (ae_contact input)
         | AccountOutgoingInvoice \<Rightarrow> OPTIONAL_IDENTIFIER (ae_contact input)
         | AccountOutgoingVoucher \<Rightarrow> OPTIONAL_IDENTIFIER (ae_contact input)
         | _ \<Rightarrow> False)
      \<and> CHECK_EXCLUDED (ae_uuid input))"

definition rpc_push_1 :: "ident \<Rightarrow> account_event \<Rightarrow> bool" where
  "rpc_push_1 push_id accountevent =
     (CHECK_IDENTIFIER (Some push_id)
      \<and> CHECK_SUBOBJECT (\<lambda>lo hi e. check_version (ae_version e) lo hi (\<lambda>v. v = 1 \<and> account_event_1 e))
           RPCPushAllowedAccountEvent 1 (Some accountevent))"

definition update_rpc ::
  "wf_env \<Rightarrow> ident \<Rightarrow> ident \<Rightarrow> ident \<Rightarrow> account_event_type \<Rightarrow> ident \<Rightarrow> int \<Rightarrow> int \<Rightarrow> int \<Rightarrow> string
     \<Rightarrow> engine \<Rightarrow> engine outcome" where
  "update_rpc env localNymID remoteNymID accountID type workflowID amount pending time memo s =
     (let (contact, s1) =
            (if remoteNymID \<noteq> []
             then (Some (env_nym_to_contact env remoteNymID), notify (NymToContact remoteNymID) s)
             else (None, s));
          event = \<lparr>ae_version = Some 1, ae_id = Some accountID, ae_type = type, ae_contact = contact,
                   ae_workflow = Some workflowID, ae_amount = amount, ae_pending = pending,
                   ae_timestamp = time, ae_memo = memo, ae_uuid = None\<rparr>
      in assert_that ''check(push)'' (rpc_push_1 localNymID event)
           (Inr (notify (RpcPush localNymID event) s1)))"

definition update_activity ::
  "wf_env \<Rightarrow> ident \<Rightarrow> ident \<Rightarrow> ident \<Rightarrow> ident \<Rightarrow> storage_box \<Rightarrow> int \<Rightarrow> engine \<Rightarrow> bool \<times> engine" where
  "update_activity env localNymID remoteNymID sourceID workflowID type time s =
     (let contactID = env_contact_id env remoteNymID
      in if contactID = [] then (False, s)
         else (env_add_payment_event env,
               notify (PaymentEventAdded localNymID contactID type sourceID workflowID time) s))"

subsection \<open>Guards\<close>

definition can_abort_transfer :: "workflow \<Rightarrow> bool" where
  "can_abort_transfer w = (case wf_state w of Initiated \<Rightarrow> True | _ \<Rightarrow> False)"

definition can_accept_cheque :: "workflow \<Rightarrow> bool" where
  "can_accept_cheque w = (case wf_state w of Expired \<Rightarrow> True | Conveyed \<Rightarrow> True | _ \<Rightarrow> False)"

definition can_accept_transfer :: "workflow \<Rightarrow> bool" where
  "can_accept_transfer w = (case wf_state w of Conveyed \<Rightarrow> True | _ \<Rightarrow> False)"

definition can_acknowledge_transfer :: "workflow \<Rightarrow> bool" where
  "can_acknowledge_transfer w = (case wf_state w of Initiated \<Rightarrow> True | Conveyed \<Rightarrow> True | _ \<Rightarrow> False)"

definition can_cancel_cheque :: "workflow \<Rightarrow> bool" where
  "can_cancel_cheque w = (case wf_state w of Unsent \<Rightarrow> True | Conveyed \<Rightarrow> True | _ \<Rightarrow> False)"

definition can_clear_transfer :: "workflow \<Rightarrow> bool" where
  "can_clear_transfer w =
     (case wf_type w of
        OutgoingTransfer \<Rightarrow> Acknowledged = wf_state w
      | InternalTransfer \<Rightarrow> Conveyed = wf_state w
      | _ \<Rightarrow> False)"

definition can_complete_transfer :: "workflow \<Rightarrow> bool" where
  "can_complete_transfer w = (if Accepted \<noteq> wf_state w then False else True)"

definition can_convey_cash :: "workflow \<Rightarrow> bool" where
  "can_convey_cash w = (if Expired = wf_state w then False else True)"

definition can_convey_cheque :: "workflow \<Rightarrow> bool" where
  "can_convey_cheque w = (if Unsent \<noteq> wf_state w then False else True)"

definition can_convey_transfer :: "workflow \<Rightarrow> bool" where
  "can_convey_transfer w = (case wf_state w of Initiated \<Rightarrow> True | Acknowledged \<Rightarrow> True | _ \<Rightarrow> False)"

definition can_deposit_cheque :: "workflow \<Rightarrow> bool" where
  "can_deposit_cheque w = (if Conveyed \<noteq> wf_state w then False else True)"

definition can_expire_cheque :: "wf_env \<Rightarrow> cheque \<Rightarrow> workflow \<Rightarrow> bool outcome" where
  "can_expire_cheque env cheque w =
     (let finish = (\<lambda>correctState.
            if \<not> correctState then Inr False
            else if env_now env < ch_valid_to cheque then Inr False
            else Inr True)
      in case wf_type w of
           OutgoingCheque \<Rightarrow> finish (case wf_state w of Unsent \<Rightarrow> True | Conveyed \<Rightarrow> True | _ \<Rightarrow> False)
         | IncomingCheque \<Rightarrow> finish (case wf_state w of Conveyed \<Rightarrow> True | _ \<Rightarrow> False)
         | _ \<Rightarrow> Inl Unreachable)"

definition can_finish_cheque :: "workflow \<Rightarrow> bool" where
  "can_finish_cheque w = (if Accepted \<noteq> wf_state w then False else True)"

definition cheque_deposit_success :: "message option \<Rightarrow> bool" where
  "cheque_deposit_success m = (case m of None \<Rightarrow> False | Some r \<Rightarrow> msg_success r)"

definition isCheque :: "cheque \<Rightarrow> bool" where
  "isCheque c =
     (if ch_has_remitter c then False
      else if 0 > ch_amount c then False
      else if 0 = ch_amount c then False
      else True)"

definition isTransfer :: "item \<Rightarrow> bool" where
  "isTransfer i = (it_type i = ItemTransfer)"

definition isInternalTransfer :: "wf_env \<Rightarrow> ident \<Rightarrow> ident \<Rightarrow> bool outcome" where
  "isInternalTransfer env sourceAccount destinationAccount =
     (let ownerNymID = env_account_owner env sourceAccount
      in assert_that ''ownerNymID.empty()'' (ownerNymID \<noteq> [])
           (let recipientNymID = env_account_owner env destinationAccount
            in if recipientNymID = [] then Inr False else Inr (ownerNymID = recipientNymID)))"

definition validate_recipient :: "ident \<Rightarrow> cheque \<Rightarrow> bool" where
  "validate_recipient nymID c = (if nymID = [] then True else nymID = ch_recipient_nym c)"

subsection \<open>Extraction\<close>

fun extract_conveyed_time_loop :: "payment_event list \<Rightarrow> int" where
  "extract_conveyed_time_loop [] = 0"
| "extract_conveyed_time_loop (e # es) =
     (if ev_type e = EventConvey then if ev_success e then ev_time e else extract_conveyed_time_loop es
      else extract_conveyed_time_loop es)"

definition extract_conveyed_time :: "workflow \<Rightarrow> int" where
  "extract_conveyed_time w = extract_conveyed_time_loop (wf_event w)"

definition extract_transfer_from_pending :: "wf_env \<Rightarrow> transaction \<Rightarrow> item option" where
  "extract_transfer_from_pending env receipt =
     (if tx_type receipt \<noteq> TxPending then None
      else if tx_reference receipt = [] then None
      else case env_item env (tx_reference receipt) of
             None \<Rightarrow> None
           | Some transfer \<Rightarrow> if it_type transfer \<noteq> ItemTransfer then None else Some transfer)"

text \<open>The result is the item and the depositor, which is empty where the code leaves it unset.\<close>

definition extract_transfer_from_receipt :: "wf_env \<Rightarrow> transaction \<Rightarrow> item option \<times> ident" where
  "extract_transfer_from_receipt env receipt =
     (if tx_type receipt \<noteq> TxTransferReceipt then
        (if tx_type receipt = TxPending then (extract_transfer_from_pending env receipt, [])
         else (None, []))
      else if tx_reference receipt = [] then (None, [])
      else case env_item env (tx_reference receipt) of
        None \<Rightarrow> (None, [])
      | Some acceptPending \<Rightarrow>
          if it_type acceptPending \<noteq> ItemAcceptPending then (None, [])
          else let depositorNymID = it_nym acceptPending
            in if it_attachment acceptPending = [] then (None, depositorNymID)
               else case env_transaction env (it_attachment acceptPending) of
                 None \<Rightarrow> (None, depositorNymID)
               | Some pending \<Rightarrow>
                   if tx_type pending \<noteq> TxPending then (None, depositorNymID)
                   else if tx_reference pending = [] then (None, depositorNymID)
                   else case env_item env (tx_reference pending) of
                     None \<Rightarrow> (None, depositorNymID)
                   | Some transfer \<Rightarrow>
                       if it_type transfer \<noteq> ItemTransfer then (None, depositorNymID)
                       else (Some transfer, depositorNymID))"

subsection \<open>Versions\<close>

definition workflow_version :: "workflow_type \<Rightarrow> nat" where
  "workflow_version t = (case t of OutgoingCheque \<Rightarrow> 1 | IncomingCheque \<Rightarrow> 1
     | OutgoingTransfer \<Rightarrow> 2 | IncomingTransfer \<Rightarrow> 2 | InternalTransfer \<Rightarrow> 2
     | OutgoingCash \<Rightarrow> 3 | IncomingCash \<Rightarrow> 3 | _ \<Rightarrow> 0)"

definition source_version :: "workflow_type \<Rightarrow> nat" where
  "source_version t = (case t of OutgoingCheque \<Rightarrow> 1 | IncomingCheque \<Rightarrow> 1
     | OutgoingTransfer \<Rightarrow> 1 | IncomingTransfer \<Rightarrow> 1 | InternalTransfer \<Rightarrow> 1
     | OutgoingCash \<Rightarrow> 1 | IncomingCash \<Rightarrow> 1 | _ \<Rightarrow> 0)"

definition event_version :: "workflow_type \<Rightarrow> nat" where
  "event_version t = (case t of OutgoingCheque \<Rightarrow> 1 | IncomingCheque \<Rightarrow> 1
     | OutgoingTransfer \<Rightarrow> 2 | IncomingTransfer \<Rightarrow> 2 | InternalTransfer \<Rightarrow> 2
     | OutgoingCash \<Rightarrow> 3 | IncomingCash \<Rightarrow> 3 | _ \<Rightarrow> 0)"

end
