(* ===== verification/Workflow_Events.thy ===== *)
theory Workflow_Events
  imports Workflow_Engine
begin

text \<open>
  How \<open>Workflow.cpp\<close> extends a workflow with an event and how it builds a new one:
  \<open>add_cheque_event\<close> (two overloads), \<open>add_transfer_event\<close> (two overloads),
  \<open>create_cheque\<close> and \<open>create_transfer\<close>.

  The functions change the workflow object their caller holds and then save it, and callers read
  the changed object afterwards, so each returns it beside the result. The part that changes the
  object is a definition of its own (\<open>*_event\<close>, \<open>new_*\<close>); the part that saves it follows.
  \<open>LogAbort().Abort()\<close> on an event type that does not belong is \<open>Unreachable\<close>.
\<close>

subsection \<open>Events of cheque workflows\<close>

definition cheque_event ::
  "wf_env \<Rightarrow> workflow \<Rightarrow> workflow_state \<Rightarrow> event_type \<Rightarrow> nat \<Rightarrow> message \<Rightarrow> message option \<Rightarrow> ident
     \<Rightarrow> workflow outcome" where
  "cheque_event env w newState newEventType version request reply account =
     (let success = cheque_deposit_success reply;
          w1 = (if success then
                  (let w0 = w\<lparr>wf_state := newState\<rparr>
                   in if account \<noteq> [] \<and> length (wf_account w0) = 0
                      then w0\<lparr>wf_account := wf_account w0 @ [account]\<rparr> else w0)
                else w);
          event = blank_event\<lparr>ev_version := Some version, ev_type := newEventType,
                    ev_item := [msg_text request], ev_method := TransportOT,
                    ev_transport := Some (msg_notary_id request)\<rparr>
      in bind_outcome
           (case newEventType of
              EventCancel \<Rightarrow> Inr event
            | EventComplete \<Rightarrow> Inr event
            | EventConvey \<Rightarrow> Inr (event\<lparr>ev_nym := Some (msg_nym_id2 request)\<rparr>)
            | EventAccept \<Rightarrow> Inr (event\<lparr>ev_nym := Some (msg_nym_id2 request)\<rparr>)
            | _ \<Rightarrow> Inl Unreachable)
           (\<lambda>event.
             let event1 = event\<lparr>ev_success := success\<rparr>;
                 event2 = (case reply of
                             Some r \<Rightarrow> event1\<lparr>ev_item := ev_item event1 @ [msg_text r], ev_time := msg_time r\<rparr>
                           | None \<Rightarrow> event1\<lparr>ev_time := msg_time request\<rparr>);
                 w2 = w1\<lparr>wf_event := wf_event w1 @ [event2]\<rparr>
             in Inr (if account \<noteq> [] then w2\<lparr>wf_notary := Some (env_account_server env account)\<rparr>
                     else w2)))"

definition add_cheque_event ::
  "wf_env \<Rightarrow> ident \<Rightarrow> workflow \<Rightarrow> workflow_state \<Rightarrow> event_type \<Rightarrow> nat \<Rightarrow> message \<Rightarrow> message option
     \<Rightarrow> ident \<Rightarrow> engine \<Rightarrow> ((bool \<times> workflow) \<times> engine) outcome" where
  "add_cheque_event env nymID w newState newEventType version request reply account s =
     bind_outcome (cheque_event env w newState newEventType version request reply account)
       (\<lambda>w'. bind_outcome (save_workflow env nymID account w' s)
          (\<lambda>(ok, s'). Inr ((ok, w'), s')))"

text \<open>The overload that \<open>ClearCheque\<close> uses.\<close>

definition clear_cheque_event ::
  "workflow \<Rightarrow> workflow_state \<Rightarrow> event_type \<Rightarrow> nat \<Rightarrow> ident \<Rightarrow> transaction \<Rightarrow> int \<Rightarrow> workflow" where
  "clear_cheque_event w newState newEventType version recipientNymID receipt time =
     (let event = blank_event\<lparr>ev_version := Some version, ev_type := newEventType,
                    ev_item := [tx_text receipt], ev_time := time, ev_method := TransportOT,
                    ev_transport := Some (tx_real_notary receipt),
                    ev_nym := Some recipientNymID, ev_success := True\<rparr>;
          w1 = w\<lparr>wf_state := newState, wf_event := wf_event w @ [event]\<rparr>
      in if 0 = length (wf_party w1) then w1\<lparr>wf_party := wf_party w1 @ [recipientNymID]\<rparr> else w1)"

definition add_cheque_event_receipt ::
  "wf_env \<Rightarrow> ident \<Rightarrow> ident \<Rightarrow> workflow \<Rightarrow> workflow_state \<Rightarrow> event_type \<Rightarrow> nat \<Rightarrow> ident \<Rightarrow> transaction
     \<Rightarrow> int \<Rightarrow> engine \<Rightarrow> ((bool \<times> workflow) \<times> engine) outcome" where
  "add_cheque_event_receipt env nymID accountID w newState newEventType version recipientNymID receipt time s =
     (let w' = clear_cheque_event w newState newEventType version recipientNymID receipt time
      in bind_outcome (save_workflow env nymID accountID w' s) (\<lambda>(ok, s'). Inr ((ok, w'), s')))"

subsection \<open>Events of transfer workflows\<close>

definition transfer_event_type :: "event_type \<Rightarrow> bool" where
  "transfer_event_type t =
     (case t of EventConvey \<Rightarrow> True | EventAccept \<Rightarrow> True | EventComplete \<Rightarrow> True
      | EventAbort \<Rightarrow> True | EventAcknowledge \<Rightarrow> True | _ \<Rightarrow> False)"

definition transfer_event ::
  "workflow \<Rightarrow> ident \<Rightarrow> workflow_state \<Rightarrow> event_type \<Rightarrow> nat \<Rightarrow> string \<Rightarrow> string \<Rightarrow> int \<Rightarrow> bool
     \<Rightarrow> workflow outcome" where
  "transfer_event w eventNym newState newEventType version text transport time success =
     (let w1 = (if success then w\<lparr>wf_state := newState\<rparr> else w);
          event = blank_event\<lparr>ev_version := Some version, ev_type := newEventType,
                    ev_item := [text], ev_method := TransportOT, ev_transport := Some transport\<rparr>
      in if \<not> transfer_event_type newEventType then Inl Unreachable
         else let event1 = event\<lparr>ev_success := success, ev_time := time\<rparr>;
                  w2 = w1\<lparr>wf_event := wf_event w1 @ [event1]\<rparr>
              in Inr (if 0 = length (wf_party w2) \<and> eventNym \<noteq> []
                      then w2\<lparr>wf_party := wf_party w2 @ [eventNym]\<rparr> else w2))"

definition add_transfer_event ::
  "wf_env \<Rightarrow> ident \<Rightarrow> ident \<Rightarrow> workflow \<Rightarrow> workflow_state \<Rightarrow> event_type \<Rightarrow> nat \<Rightarrow> message \<Rightarrow> ident
     \<Rightarrow> bool \<Rightarrow> engine \<Rightarrow> ((bool \<times> workflow) \<times> engine) outcome" where
  "add_transfer_event env nymID eventNym w newState newEventType version message account success s =
     bind_outcome
       (transfer_event w eventNym newState newEventType version
          (msg_text message) (msg_notary_id message) (msg_time message) success)
       (\<lambda>w'. bind_outcome (save_workflow env nymID account w' s)
          (\<lambda>(ok, s'). Inr ((ok, w'), s')))"

definition add_transfer_event_receipt ::
  "wf_env \<Rightarrow> ident \<Rightarrow> string \<Rightarrow> ident \<Rightarrow> workflow \<Rightarrow> workflow_state \<Rightarrow> event_type \<Rightarrow> nat \<Rightarrow> transaction
     \<Rightarrow> ident \<Rightarrow> bool \<Rightarrow> engine \<Rightarrow> ((bool \<times> workflow) \<times> engine) outcome" where
  "add_transfer_event_receipt env nymID notaryID eventNym w newState newEventType version receipt account success s =
     bind_outcome
       (transfer_event w eventNym newState newEventType version
          (tx_text receipt) notaryID (env_now env) success)
       (\<lambda>w'. bind_outcome (save_workflow env nymID account w' s)
          (\<lambda>(ok, s'). Inr ((ok, w'), s')))"

subsection \<open>New cheque workflows\<close>

definition new_cheque ::
  "wf_env \<Rightarrow> cheque \<Rightarrow> workflow_type \<Rightarrow> workflow_state \<Rightarrow> nat \<Rightarrow> nat \<Rightarrow> nat \<Rightarrow> ident \<Rightarrow> ident
     \<Rightarrow> message option \<Rightarrow> workflow outcome" where
  "new_cheque env cheque workflowType workflowState workflowVersion sourceVersion eventVersion
     party account message =
     (let workflowID = env_random env;
          source = \<lparr>ir_version = Some sourceVersion, ir_id = Some (ch_id cheque),
                    ir_revision = Some 1, ir_item = Some (ch_text cheque)\<rparr>;
          w0 = blank_workflow\<lparr>wf_version := Some workflowVersion, wf_id := Some workflowID,
                 wf_type := workflowType, wf_state := workflowState, wf_source := [source]\<rparr>;
          w1 = (if party \<noteq> [] \<and> length (wf_party w0) = 0
                then w0\<lparr>wf_party := wf_party w0 @ [party]\<rparr> else w0);
          event = blank_event\<lparr>ev_version := Some eventVersion\<rparr>
      in bind_outcome
           (case message of
              Some m \<Rightarrow> Inr (event\<lparr>ev_type := EventConvey, ev_item := [msg_text m], ev_time := msg_time m,
                                   ev_method := TransportOT, ev_transport := Some (msg_notary_id m)\<rparr>)
            | None \<Rightarrow>
                (let event1 = event\<lparr>ev_time := env_now env\<rparr>
                 in if workflowState = Unsent
                    then Inr (event1\<lparr>ev_type := EventCreate, ev_method := TransportNone\<rparr>)
                    else if workflowState = Conveyed
                    then Inr (event1\<lparr>ev_type := EventConvey, ev_method := TransportOOB\<rparr>)
                    else Inl Unreachable))
           (\<lambda>event.
             let event2 = (if party \<noteq> [] then event\<lparr>ev_nym := Some party\<rparr> else event);
                 event3 = event2\<lparr>ev_success := True\<rparr>;
                 w2 = w1\<lparr>wf_event := wf_event w1 @ [event3], wf_unit := wf_unit w1 @ [ch_unit cheque]\<rparr>;
                 w3 = (if account \<noteq> [] \<and> length (wf_account w2) = 0
                       then w2\<lparr>wf_account := wf_account w2 @ [account]\<rparr> else w2);
                 w4 = (if account \<noteq> [] \<and> text_of (wf_notary w3) = []
                       then w3\<lparr>wf_notary := Some (env_account_server env account)\<rparr> else w3);
                 w5 = (case message of
                         Some m \<Rightarrow> if text_of (wf_notary w4) = []
                                   then w4\<lparr>wf_notary := Some (msg_notary_id m)\<rparr> else w4
                       | None \<Rightarrow> w4)
             in Inr w5))"

text \<open>
  \<open>save_workflow\<close> hands back the pair of identifier and workflow, or a pair of empty objects when
  it fails.
\<close>

definition save_workflow_pair ::
  "wf_env \<Rightarrow> ident \<times> workflow \<Rightarrow> ident \<Rightarrow> ident \<Rightarrow> workflow \<Rightarrow> engine
     \<Rightarrow> ((ident \<times> workflow) \<times> engine) outcome" where
  "save_workflow_pair env out nymID accountID w s =
     bind_outcome (save_workflow env nymID accountID w s)
       (\<lambda>(ok, s'). Inr (if ok then out else ([], blank_workflow), s'))"

definition create_cheque ::
  "wf_env \<Rightarrow> ident \<Rightarrow> cheque \<Rightarrow> workflow_type \<Rightarrow> workflow_state \<Rightarrow> nat \<Rightarrow> nat \<Rightarrow> nat \<Rightarrow> ident \<Rightarrow> ident
     \<Rightarrow> message option \<Rightarrow> engine \<Rightarrow> ((ident \<times> workflow) \<times> engine) outcome" where
  "create_cheque env nymID cheque workflowType workflowState workflowVersion sourceVersion
     eventVersion party account message s =
     bind_outcome
       (new_cheque env cheque workflowType workflowState workflowVersion sourceVersion eventVersion
          party account message)
       (\<lambda>w. save_workflow_pair env (env_random env, w) nymID account w s)"

subsection \<open>New transfer workflows\<close>

definition new_transfer ::
  "wf_env \<Rightarrow> item \<Rightarrow> workflow_type \<Rightarrow> workflow_state \<Rightarrow> nat \<Rightarrow> nat \<Rightarrow> nat \<Rightarrow> ident \<Rightarrow> ident \<Rightarrow> string
     \<Rightarrow> string \<Rightarrow> workflow outcome" where
  "new_transfer env transfer workflowType workflowState workflowVersion sourceVersion eventVersion
     party account notaryID destinationAccountID =
     (let workflowID = env_random env;
          source = \<lparr>ir_version = Some sourceVersion, ir_id = Some (it_id transfer),
                    ir_revision = Some 1, ir_item = Some (it_text transfer)\<rparr>;
          w0 = blank_workflow\<lparr>wf_version := Some workflowVersion, wf_id := Some workflowID,
                 wf_type := workflowType, wf_state := workflowState, wf_source := [source],
                 wf_notary := Some notaryID\<rparr>;
          w1 = (if party \<noteq> [] \<and> length (wf_party w0) = 0
                then w0\<lparr>wf_party := wf_party w0 @ [party]\<rparr> else w0);
          event = blank_event\<lparr>ev_version := Some eventVersion, ev_time := env_now env\<rparr>
      in bind_outcome
           (if workflowState = Initiated
            then Inr (event\<lparr>ev_type := EventCreate, ev_method := TransportOT\<rparr>)
            else if workflowState = Conveyed
            then Inr (event\<lparr>ev_type := EventConvey, ev_method := TransportOT\<rparr>)
            else Inl Unreachable)
           (\<lambda>event.
             let event1 = event\<lparr>ev_transport := Some notaryID\<rparr>;
                 event2 = (if party \<noteq> [] then event1\<lparr>ev_nym := Some party\<rparr> else event1);
                 event3 = event2\<lparr>ev_success := True\<rparr>;
                 w2 = w1\<lparr>wf_event := wf_event w1 @ [event3],
                         wf_unit := wf_unit w1 @ [env_account_contract env account]\<rparr>;
                 w3 = (if 0 = length (wf_account w2)
                       then (let w = w2\<lparr>wf_account := wf_account w2 @ [account]\<rparr>
                             in if destinationAccountID \<noteq> []
                                then w\<lparr>wf_account := wf_account w @ [destinationAccountID]\<rparr> else w)
                       else w2)
             in Inr w3))"

definition create_transfer ::
  "wf_env \<Rightarrow> ident \<Rightarrow> item \<Rightarrow> workflow_type \<Rightarrow> workflow_state \<Rightarrow> nat \<Rightarrow> nat \<Rightarrow> nat \<Rightarrow> ident \<Rightarrow> ident
     \<Rightarrow> string \<Rightarrow> string \<Rightarrow> engine \<Rightarrow> ((ident \<times> workflow) \<times> engine) outcome" where
  "create_transfer env nymID transfer workflowType workflowState workflowVersion sourceVersion
     eventVersion party account notaryID destinationAccountID s =
     assert_that ''nymID.empty()'' (nymID \<noteq> [])
       (assert_that ''account.empty()'' (account \<noteq> [])
         (assert_that ''notaryID.empty()'' (notaryID \<noteq> [])
           (bind_outcome (get_workflow_by_source [workflowType] nymID (it_id transfer) s)
             (\<lambda>existing. case existing of
                Some e \<Rightarrow> Inr ((text_of (wf_id e), blank_workflow), s)
              | None \<Rightarrow>
                  bind_outcome
                    (new_transfer env transfer workflowType workflowState workflowVersion
                       sourceVersion eventVersion party account notaryID destinationAccountID)
                    (\<lambda>w. save_workflow_pair env (env_random env, w) nymID account w s)))))"

subsection \<open>Closed forms\<close>

text \<open>
  The objects these functions produce, written out as one record each; the lemmas about the
  operations rest on these equations.
\<close>

definition the_cheque_event :: "event_type \<Rightarrow> nat \<Rightarrow> message \<Rightarrow> message option \<Rightarrow> payment_event" where
  "the_cheque_event t v req rep =
     \<lparr>ev_version = Some v, ev_type = t,
      ev_item = msg_text req # (case rep of None \<Rightarrow> [] | Some r \<Rightarrow> [msg_text r]),
      ev_time = (case rep of None \<Rightarrow> msg_time req | Some r \<Rightarrow> msg_time r),
      ev_method = TransportOT, ev_transport = Some (msg_notary_id req),
      ev_nym = (if t = EventConvey \<or> t = EventAccept then Some (msg_nym_id2 req) else None),
      ev_success = cheque_deposit_success rep\<rparr>"

definition with_cheque_event ::
  "wf_env \<Rightarrow> workflow \<Rightarrow> workflow_state \<Rightarrow> event_type \<Rightarrow> nat \<Rightarrow> message \<Rightarrow> message option \<Rightarrow> ident \<Rightarrow> workflow" where
  "with_cheque_event env w st t v req rep acct =
     w\<lparr>wf_state := (if cheque_deposit_success rep then st else wf_state w),
       wf_account := (if cheque_deposit_success rep \<and> acct \<noteq> [] \<and> wf_account w = [] then [acct]
                      else wf_account w),
       wf_event := wf_event w @ [the_cheque_event t v req rep],
       wf_notary := (if acct \<noteq> [] then Some (env_account_server env acct) else wf_notary w)\<rparr>"

lemma cheque_event_eq:
  "cheque_event env w st t v req rep acct =
     (if t \<in> {EventCancel, EventComplete, EventConvey, EventAccept}
      then Inr (with_cheque_event env w st t v req rep acct) else Inl Unreachable)"
proof (cases rep)
  case None
  then show ?thesis
    by (cases t; cases "acct = []")
      (simp_all add: cheque_event_def Let_def with_cheque_event_def the_cheque_event_def blank_event_def
        cheque_deposit_success_def)
next
  case (Some r)
  then show ?thesis
    by (cases t; cases "acct = []"; cases "msg_success r"; cases "wf_account w = []")
      (simp_all add: cheque_event_def Let_def with_cheque_event_def the_cheque_event_def blank_event_def
        cheque_deposit_success_def)
qed

definition the_transfer_event :: "event_type \<Rightarrow> nat \<Rightarrow> string \<Rightarrow> string \<Rightarrow> int \<Rightarrow> bool \<Rightarrow> payment_event" where
  "the_transfer_event t v text transport time success =
     \<lparr>ev_version = Some v, ev_type = t, ev_item = [text], ev_time = time, ev_method = TransportOT,
      ev_transport = Some transport, ev_nym = None, ev_success = success\<rparr>"

definition with_transfer_event ::
  "workflow \<Rightarrow> ident \<Rightarrow> workflow_state \<Rightarrow> event_type \<Rightarrow> nat \<Rightarrow> string \<Rightarrow> string \<Rightarrow> int \<Rightarrow> bool \<Rightarrow> workflow" where
  "with_transfer_event w nym st t v text transport time success =
     w\<lparr>wf_state := (if success then st else wf_state w),
       wf_event := wf_event w @ [the_transfer_event t v text transport time success],
       wf_party := (if wf_party w = [] \<and> nym \<noteq> [] then [nym] else wf_party w)\<rparr>"

lemma transfer_event_eq:
  "transfer_event w nym st t v text transport time success =
     (if transfer_event_type t then Inr (with_transfer_event w nym st t v text transport time success)
      else Inl Unreachable)"
  by (cases success)
    (simp_all add: transfer_event_def Let_def with_transfer_event_def the_transfer_event_def blank_event_def)

definition first_cheque ::
  "wf_env \<Rightarrow> cheque \<Rightarrow> workflow_type \<Rightarrow> workflow_state \<Rightarrow> nat \<Rightarrow> nat \<Rightarrow> nat \<Rightarrow> ident \<Rightarrow> ident
     \<Rightarrow> message option \<Rightarrow> workflow" where
  "first_cheque env c ty st v sv ev party acct msg =
     \<lparr>wf_version = Some v, wf_id = Some (env_random env), wf_type = ty, wf_state = st,
      wf_source = [\<lparr>ir_version = Some sv, ir_id = Some (ch_id c), ir_revision = Some 1,
                     ir_item = Some (ch_text c)\<rparr>],
      wf_notary = (if acct \<noteq> [] \<and> (msg = None \<or> env_account_server env acct \<noteq> [])
                   then Some (env_account_server env acct) else map_option msg_notary_id msg),
      wf_party = (if party = [] then [] else [party]),
      wf_event = [\<lparr>ev_version = Some ev,
                   ev_type = (if msg = None \<and> st = Unsent then EventCreate else EventConvey),
                   ev_item = (case msg of None \<Rightarrow> [] | Some m \<Rightarrow> [msg_text m]),
                   ev_time = (case msg of None \<Rightarrow> env_now env | Some m \<Rightarrow> msg_time m),
                   ev_method = (if msg \<noteq> None then TransportOT else if st = Unsent then TransportNone
                                else TransportOOB),
                   ev_transport = map_option msg_notary_id msg,
                   ev_nym = (if party = [] then None else Some party), ev_success = True\<rparr>],
      wf_unit = [ch_unit c], wf_account = (if acct = [] then [] else [acct])\<rparr>"

lemma new_cheque_eq:
  "new_cheque env c ty st v sv ev party acct msg =
     (if msg = None \<and> st \<noteq> Unsent \<and> st \<noteq> Conveyed then Inl Unreachable
      else Inr (first_cheque env c ty st v sv ev party acct msg))"
  unfolding new_cheque_def first_cheque_def
  by (cases msg; cases "party = []"; cases "acct = []"; cases "env_account_server env acct = []";
      cases "st = Unsent"; cases "st = Conveyed";
      simp only: Let_def blank_workflow_def blank_event_def if_True if_False simp_thms
        bind_outcome_Inr bind_outcome_Inl option.simps length_append list.size append.simps
        not_True_eq_False not_False_eq_True sum.simps;
      simp)

definition first_transfer ::
  "wf_env \<Rightarrow> item \<Rightarrow> workflow_type \<Rightarrow> workflow_state \<Rightarrow> nat \<Rightarrow> nat \<Rightarrow> nat \<Rightarrow> ident \<Rightarrow> ident \<Rightarrow> string
     \<Rightarrow> string \<Rightarrow> workflow" where
  "first_transfer env c ty st v sv ev party acct notary dest =
     \<lparr>wf_version = Some v, wf_id = Some (env_random env), wf_type = ty, wf_state = st,
      wf_source = [\<lparr>ir_version = Some sv, ir_id = Some (it_id c), ir_revision = Some 1,
                     ir_item = Some (it_text c)\<rparr>],
      wf_notary = Some notary,
      wf_party = (if party = [] then [] else [party]),
      wf_event = [\<lparr>ev_version = Some ev,
                   ev_type = (if st = Initiated then EventCreate else EventConvey),
                   ev_item = [], ev_time = env_now env, ev_method = TransportOT,
                   ev_transport = Some notary,
                   ev_nym = (if party = [] then None else Some party), ev_success = True\<rparr>],
      wf_unit = [env_account_contract env acct],
      wf_account = (if dest = [] then [acct] else [acct, dest])\<rparr>"

lemma new_transfer_eq:
  "new_transfer env c ty st v sv ev party acct notary dest =
     (if st \<noteq> Initiated \<and> st \<noteq> Conveyed then Inl Unreachable
      else Inr (first_transfer env c ty st v sv ev party acct notary dest))"
  unfolding new_transfer_def first_transfer_def Let_def blank_workflow_def blank_event_def
  by (cases "party = []"; cases "dest = []"; simp)

end
