(* ===== verification/Workflow_Operations.thy ===== *)
theory Workflow_Operations
  imports Workflow_Events
begin

text \<open>
  The operations of \<open>api::session::imp::Workflow\<close> that change workflows
  (\<open>src/api/session/Workflow.cpp\<close>), in the order of their life cycles: cheques, transfers,
  cash. Each takes the environment, the arguments of the C++ function and the engine, and returns
  the C++ result with the new engine, or the abort the code runs into. An identifier result is the
  empty identifier where the code returns \<open>{}\<close>.
\<close>

subsection \<open>Cheques\<close>

definition WriteCheque :: "wf_env \<Rightarrow> cheque \<Rightarrow> engine \<Rightarrow> (ident \<times> engine) outcome" where
  "WriteCheque env cheque s =
     (if \<not> isCheque cheque then Inr ([], s)
      else let nymID = ch_sender_nym cheque in
        bind_outcome (get_workflow_by_source [OutgoingCheque] nymID (ch_id cheque) s)
          (\<lambda>existing. case existing of
             Some e \<Rightarrow> Inr (text_of (wf_id e), s)
           | None \<Rightarrow>
               if ch_has_recipient cheque \<and> env_contact_id env (ch_recipient_nym cheque) = []
               then Inr ([], s)
               else
                 let party = (if ch_has_recipient cheque then ch_recipient_nym cheque else [])
                 in bind_outcome
                      (create_cheque env nymID cheque OutgoingCheque Unsent
                         (workflow_version OutgoingCheque) (source_version OutgoingCheque)
                         (event_version OutgoingCheque) party (ch_sender_account cheque) None s)
                      (\<lambda>((workflowID, w), s1).
                        if wf_event w = [] then Inl OutOfRange
                        else
                          let haveWorkflow = (workflowID \<noteq> []);
                              time = ev_time (hd (wf_event w));
                              s2 = (if haveWorkflow \<and> ch_has_recipient cheque
                                    then snd (update_activity env (ch_sender_nym cheque)
                                           (ch_recipient_nym cheque) (ch_id cheque) workflowID
                                           BoxOutgoingCheque time s1)
                                    else s1)
                          in if workflowID \<noteq> []
                             then bind_outcome
                                    (update_rpc env nymID (ch_recipient_nym cheque)
                                       (SourceAccountID cheque) AccountOutgoingCheque workflowID
                                       0 (- 1 * ch_amount cheque) time (ch_memo cheque) s2)
                                    (\<lambda>s3. Inr (workflowID, s3))
                             else Inr (workflowID, s2))))"

definition SendCheque ::
  "wf_env \<Rightarrow> cheque \<Rightarrow> message \<Rightarrow> message option \<Rightarrow> engine \<Rightarrow> (bool \<times> engine) outcome" where
  "SendCheque env cheque request reply s =
     (if \<not> isCheque cheque then Inr (False, s)
      else let nymID = ch_sender_nym cheque in
        bind_outcome (get_workflow_by_source [OutgoingCheque] nymID (ch_id cheque) s)
          (\<lambda>workflow. case workflow of
             None \<Rightarrow> Inr (False, s)
           | Some w \<Rightarrow>
               if \<not> can_convey_cheque w then Inr (False, s)
               else bind_outcome
                      (add_cheque_event env nymID w Conveyed EventConvey
                         (event_version OutgoingCheque) request reply [] s)
                      (\<lambda>((ok, _), s'). Inr (ok, s'))))"

definition ExportCheque :: "wf_env \<Rightarrow> cheque \<Rightarrow> engine \<Rightarrow> (bool \<times> engine) outcome" where
  "ExportCheque env cheque s =
     (if \<not> isCheque cheque then Inr (False, s)
      else let nymID = ch_sender_nym cheque in
        bind_outcome (get_workflow_by_source [] nymID (ch_id cheque) s)
          (\<lambda>workflow. case workflow of
             None \<Rightarrow> Inr (False, s)
           | Some w \<Rightarrow>
               if \<not> can_convey_cheque w then Inr (False, s)
               else let event = blank_event\<lparr>ev_version := Some (event_version OutgoingCheque),
                                  ev_type := EventConvey, ev_time := env_now env,
                                  ev_method := TransportOOB, ev_success := True\<rparr>;
                        w' = w\<lparr>wf_state := Conveyed, wf_event := wf_event w @ [event]\<rparr>
                    in save_workflow env nymID (ch_sender_account cheque) w' s))"

definition CancelCheque ::
  "wf_env \<Rightarrow> cheque \<Rightarrow> message \<Rightarrow> message option \<Rightarrow> engine \<Rightarrow> (bool \<times> engine) outcome" where
  "CancelCheque env cheque request reply s =
     (if \<not> isCheque cheque then Inr (False, s)
      else let nymID = ch_sender_nym cheque in
        bind_outcome (get_workflow_by_source [OutgoingCheque] nymID (ch_id cheque) s)
          (\<lambda>workflow. case workflow of
             None \<Rightarrow> Inr (False, s)
           | Some w \<Rightarrow>
               if \<not> can_cancel_cheque w then Inr (False, s)
               else bind_outcome
                      (add_cheque_event env nymID w Cancelled EventCancel
                         (event_version OutgoingCheque) request reply [] s)
                      (\<lambda>((ok, _), s'). Inr (ok, s'))))"

definition ClearCheque :: "wf_env \<Rightarrow> ident \<Rightarrow> transaction \<Rightarrow> engine \<Rightarrow> (bool \<times> engine) outcome" where
  "ClearCheque env recipientNymID receipt s =
     (if recipientNymID = [] then Inr (False, s)
      else case env_receipt_cheque env receipt of
        None \<Rightarrow> Inr (False, s)
      | Some cheque \<Rightarrow>
          if \<not> isCheque cheque then Inr (False, s)
          else let nymID = ch_sender_nym cheque in
            bind_outcome (get_workflow_by_source [OutgoingCheque] nymID (ch_id cheque) s)
              (\<lambda>workflow. case workflow of
                 None \<Rightarrow> Inr (False, s)
               | Some w \<Rightarrow>
                   let workflowID = text_of (wf_id w) in
                   if \<not> can_accept_cheque w then Inr (False, s)
                   else assert_that ''1 == workflow->account_size()'' (length (wf_account w) = 1)
                     (let needNym = (0 = length (wf_party w));
                          time = env_now env
                      in bind_outcome
                           (add_cheque_event_receipt env nymID (hd (wf_account w)) w Accepted EventAccept
                              (event_version OutgoingCheque) recipientNymID receipt time s)
                           (\<lambda>((output, w'), s1).
                             let s2 = (if needNym
                                       then snd (update_activity env (ch_sender_nym cheque) recipientNymID
                                              (ch_id cheque) workflowID BoxOutgoingCheque
                                              (extract_conveyed_time w') s1)
                                       else s1)
                             in bind_outcome
                                  (update_rpc env nymID (ch_recipient_nym cheque)
                                     (SourceAccountID cheque) AccountOutgoingCheque workflowID
                                     (- 1 * ch_amount cheque) 0 time (ch_memo cheque) s2)
                                  (\<lambda>s3. Inr (output, s3))))))"

definition FinishCheque ::
  "wf_env \<Rightarrow> cheque \<Rightarrow> message \<Rightarrow> message option \<Rightarrow> engine \<Rightarrow> (bool \<times> engine) outcome" where
  "FinishCheque env cheque request reply s =
     (if \<not> isCheque cheque then Inr (False, s)
      else let nymID = ch_sender_nym cheque in
        bind_outcome (get_workflow_by_source [OutgoingCheque] nymID (ch_id cheque) s)
          (\<lambda>workflow. case workflow of
             None \<Rightarrow> Inr (False, s)
           | Some w \<Rightarrow>
               if \<not> can_finish_cheque w then Inr (False, s)
               else bind_outcome
                      (add_cheque_event env nymID w Completed EventComplete
                         (event_version OutgoingCheque) request reply [] s)
                      (\<lambda>((ok, _), s'). Inr (ok, s'))))"

definition ExpireCheque :: "wf_env \<Rightarrow> ident \<Rightarrow> cheque \<Rightarrow> engine \<Rightarrow> (bool \<times> engine) outcome" where
  "ExpireCheque env nym cheque s =
     (if \<not> isCheque cheque then Inr (False, s)
      else bind_outcome (get_workflow_by_source [OutgoingCheque, IncomingCheque] nym (ch_id cheque) s)
             (\<lambda>workflow. case workflow of
                None \<Rightarrow> Inr (False, s)
              | Some w \<Rightarrow>
                  bind_outcome (can_expire_cheque env cheque w)
                    (\<lambda>ok. if \<not> ok then Inr (False, s)
                          else save_workflow env nym (ch_sender_account cheque)
                                 (w\<lparr>wf_state := Expired\<rparr>) s)))"

text \<open>
  \<open>ImportCheque\<close> (no message) and \<open>ReceiveCheque\<close> (with one) differ in that argument of
  \<open>create_cheque\<close> only.
\<close>

definition receive_cheque ::
  "wf_env \<Rightarrow> ident \<Rightarrow> cheque \<Rightarrow> message option \<Rightarrow> engine \<Rightarrow> (ident \<times> engine) outcome" where
  "receive_cheque env nymID cheque message s =
     (if \<not> isCheque cheque then Inr ([], s)
      else if \<not> validate_recipient nymID cheque then Inr ([], s)
      else bind_outcome (get_workflow_by_source [IncomingCheque] nymID (ch_id cheque) s)
             (\<lambda>existing. case existing of
                Some e \<Rightarrow> Inr (text_of (wf_id e), s)
              | None \<Rightarrow>
                  let party = ch_sender_nym cheque in
                  bind_outcome
                    (create_cheque env nymID cheque IncomingCheque Conveyed
                       (workflow_version IncomingCheque) (source_version IncomingCheque)
                       (event_version IncomingCheque) party [] message s)
                    (\<lambda>((workflowID, w), s1).
                      if workflowID \<noteq> [] then
                        let time = extract_conveyed_time w;
                            s2 = snd (update_activity env nymID (ch_sender_nym cheque) (ch_id cheque)
                                   workflowID BoxIncomingCheque time s1)
                        in bind_outcome
                             (update_rpc env nymID (ch_sender_nym cheque) [] AccountIncomingCheque
                                workflowID 0 (ch_amount cheque) time (ch_memo cheque) s2)
                             (\<lambda>s3. Inr (workflowID, s3))
                      else Inr (workflowID, s1))))"

definition ImportCheque :: "wf_env \<Rightarrow> ident \<Rightarrow> cheque \<Rightarrow> engine \<Rightarrow> (ident \<times> engine) outcome" where
  "ImportCheque env nymID cheque s = receive_cheque env nymID cheque None s"

definition ReceiveCheque :: "wf_env \<Rightarrow> ident \<Rightarrow> cheque \<Rightarrow> message \<Rightarrow> engine \<Rightarrow> (ident \<times> engine) outcome" where
  "ReceiveCheque env nymID cheque message s = receive_cheque env nymID cheque (Some message) s"

definition DepositCheque ::
  "wf_env \<Rightarrow> ident \<Rightarrow> ident \<Rightarrow> cheque \<Rightarrow> message \<Rightarrow> message option \<Rightarrow> engine \<Rightarrow> (bool \<times> engine) outcome" where
  "DepositCheque env receiver accountID cheque request reply s =
     (if \<not> isCheque cheque then Inr (False, s)
      else bind_outcome (get_workflow_by_source [IncomingCheque] receiver (ch_id cheque) s)
             (\<lambda>workflow. case workflow of
                None \<Rightarrow> Inr (False, s)
              | Some w \<Rightarrow>
                  if \<not> can_deposit_cheque w then Inr (False, s)
                  else bind_outcome
                         (add_cheque_event env receiver w Completed EventAccept
                            (event_version IncomingCheque) request reply accountID s)
                         (\<lambda>((output, w'), s1).
                           case reply of
                             Some r \<Rightarrow>
                               if output \<and> cheque_deposit_success reply
                               then bind_outcome
                                      (update_rpc env receiver (ch_sender_nym cheque) accountID
                                         AccountIncomingCheque (text_of (wf_id w')) (ch_amount cheque) 0
                                         (msg_time r) (ch_memo cheque) s1)
                                      (\<lambda>s2. Inr (output, s2))
                               else Inr (output, s1)
                           | None \<Rightarrow> Inr (output, s1))))"

subsection \<open>Transfers\<close>

definition transfer_type :: "bool \<Rightarrow> workflow_type" where
  "transfer_type isInternal = (if isInternal then InternalTransfer else OutgoingTransfer)"

definition CreateTransfer :: "wf_env \<Rightarrow> item \<Rightarrow> message \<Rightarrow> engine \<Rightarrow> (ident \<times> engine) outcome" where
  "CreateTransfer env transfer request s =
     (if \<not> isTransfer transfer then Inr ([], s)
      else let senderNymID = msg_nym_id request;
               accountID = it_real_account transfer
           in bind_outcome (isInternalTransfer env accountID (it_destination transfer))
                (\<lambda>isInternal.
                  let t = transfer_type isInternal in
                  bind_outcome (get_workflow_by_source [t] senderNymID (it_id transfer) s)
                    (\<lambda>existing. case existing of
                       Some e \<Rightarrow> Inr (text_of (wf_id e), s)
                     | None \<Rightarrow>
                         bind_outcome
                           (create_transfer env senderNymID transfer t Initiated (workflow_version t)
                              (source_version t) (event_version t) [] accountID (msg_notary_id request)
                              (if isInternal then it_destination transfer else []) s)
                           (\<lambda>((workflowID, w), s1).
                             if workflowID \<noteq> [] then
                               bind_outcome
                                 (update_rpc env senderNymID [] accountID AccountOutgoingTransfer workflowID
                                    (it_amount transfer) 0 (extract_conveyed_time w) (it_note transfer) s1)
                                 (\<lambda>s2. Inr (workflowID, s2))
                             else Inr (workflowID, s1)))))"

definition AcknowledgeTransfer ::
  "wf_env \<Rightarrow> ident \<Rightarrow> item \<Rightarrow> message \<Rightarrow> engine \<Rightarrow> (bool \<times> engine) outcome" where
  "AcknowledgeTransfer env nymID transfer reply s =
     (if \<not> isTransfer transfer then Inr (False, s)
      else bind_outcome (isInternalTransfer env (it_real_account transfer) (it_destination transfer))
             (\<lambda>isInternal.
               let t = transfer_type isInternal in
               bind_outcome (get_workflow_by_source [t] nymID (it_id transfer) s)
                 (\<lambda>workflow. case workflow of
                    None \<Rightarrow> Inr (False, s)
                  | Some w \<Rightarrow>
                      if \<not> can_acknowledge_transfer w then Inr (False, s)
                      else let state = (if Conveyed = wf_state w then Conveyed else Acknowledged)
                        in bind_outcome
                             (add_transfer_event env nymID [] w state EventAcknowledge (event_version t)
                                reply (it_real_account transfer) True s)
                             (\<lambda>((ok, _), s'). Inr (ok, s')))))"

definition AbortTransfer ::
  "wf_env \<Rightarrow> ident \<Rightarrow> item \<Rightarrow> message \<Rightarrow> engine \<Rightarrow> (bool \<times> engine) outcome" where
  "AbortTransfer env nymID transfer reply s =
     (if \<not> isTransfer transfer then Inr (False, s)
      else bind_outcome (isInternalTransfer env (it_real_account transfer) (it_destination transfer))
             (\<lambda>isInternal.
               let t = transfer_type isInternal in
               bind_outcome (get_workflow_by_source [t] nymID (it_id transfer) s)
                 (\<lambda>workflow. case workflow of
                    None \<Rightarrow> Inr (False, s)
                  | Some w \<Rightarrow>
                      if \<not> can_abort_transfer w then Inr (False, s)
                      else bind_outcome
                             (add_transfer_event env nymID [] w Aborted EventAbort (event_version t)
                                reply (it_real_account transfer) True s)
                             (\<lambda>((ok, _), s'). Inr (ok, s')))))"

definition AcceptTransfer ::
  "wf_env \<Rightarrow> ident \<Rightarrow> ident \<Rightarrow> transaction \<Rightarrow> message \<Rightarrow> engine \<Rightarrow> (bool \<times> engine) outcome" where
  "AcceptTransfer env nymID notaryID pending reply s =
     (case extract_transfer_from_pending env pending of
        None \<Rightarrow> Inr (False, s)
      | Some transfer \<Rightarrow>
          let senderNymID = it_nym transfer;
              recipientNymID = tx_nym pending;
              accountID = tx_purported_account pending
          in if tx_nym pending \<noteq> nymID then Inr (False, s)
             else let isInternal = (senderNymID = recipientNymID)
             in if isInternal then Inr (True, s)
                else bind_outcome (get_workflow_by_source [IncomingTransfer] nymID (it_id transfer) s)
                       (\<lambda>workflow. case workflow of
                          None \<Rightarrow> Inr (False, s)
                        | Some w \<Rightarrow>
                            if \<not> can_accept_transfer w then Inr (False, s)
                            else bind_outcome
                                   (add_transfer_event env nymID senderNymID w Completed EventAccept
                                      (event_version OutgoingTransfer) reply accountID True s)
                                   (\<lambda>((ok, _), s'). Inr (ok, s'))))"

definition ClearTransfer ::
  "wf_env \<Rightarrow> ident \<Rightarrow> ident \<Rightarrow> transaction \<Rightarrow> engine \<Rightarrow> (bool \<times> engine) outcome" where
  "ClearTransfer env nymID notaryID receipt s =
     (case extract_transfer_from_receipt env receipt of
        (None, _) \<Rightarrow> Inr (False, s)
      | (Some transfer, depositorNymID) \<Rightarrow>
          if depositorNymID = [] then Inr (False, s)
          else let s0 = notify (NymToContact depositorNymID) s;
                   accountID = it_purported_account transfer
          in if accountID = [] then Inr (False, s0)
             else if it_destination transfer = [] then Inr (False, s0)
             else bind_outcome (isInternalTransfer env accountID (it_destination transfer))
               (\<lambda>isInternal.
                 let t = transfer_type isInternal in
                 bind_outcome (get_workflow_by_source [t] nymID (it_id transfer) s0)
                   (\<lambda>workflow. case workflow of
                      None \<Rightarrow> Inr (False, s0)
                    | Some w \<Rightarrow>
                        let workflowID = text_of (wf_id w) in
                        if \<not> can_clear_transfer w then Inr (False, s0)
                        else bind_outcome
                          (add_transfer_event_receipt env nymID notaryID
                             (if isInternal then [] else depositorNymID) w Accepted EventAccept
                             (event_version t) receipt accountID True s0)
                          (\<lambda>((output, w'), s1).
                            if output then
                              let time = extract_conveyed_time w';
                                  s2 = snd (update_activity env nymID depositorNymID (it_id transfer)
                                         workflowID BoxOutgoingTransfer time s1)
                              in bind_outcome
                                   (update_rpc env nymID depositorNymID accountID AccountOutgoingTransfer
                                      workflowID (it_amount transfer) 0 time (it_note transfer) s2)
                                   (\<lambda>s3. Inr (output, s3))
                            else Inr (output, s1)))))"

definition CompleteTransfer ::
  "wf_env \<Rightarrow> ident \<Rightarrow> ident \<Rightarrow> transaction \<Rightarrow> message \<Rightarrow> engine \<Rightarrow> (bool \<times> engine) outcome" where
  "CompleteTransfer env nymID notaryID receipt reply s =
     (case extract_transfer_from_receipt env receipt of
        (None, _) \<Rightarrow> Inr (False, s)
      | (Some transfer, depositorNymID) \<Rightarrow>
          let accountID = it_purported_account transfer
          in if accountID = [] then Inr (False, s)
             else if it_destination transfer = [] then Inr (False, s)
             else bind_outcome (isInternalTransfer env accountID (it_destination transfer))
               (\<lambda>isInternal.
                 let t = transfer_type isInternal in
                 bind_outcome (get_workflow_by_source [t] nymID (it_id transfer) s)
                   (\<lambda>workflow. case workflow of
                      None \<Rightarrow> Inr (False, s)
                    | Some w \<Rightarrow>
                        if \<not> can_complete_transfer w then Inr (False, s)
                        else bind_outcome
                          (add_transfer_event_receipt env nymID notaryID
                             (if isInternal then [] else depositorNymID) w Completed EventComplete
                             (event_version t) receipt (it_real_account transfer) True s)
                          (\<lambda>((ok, _), s'). Inr (ok, s')))))"

definition convey_incoming_transfer ::
  "wf_env \<Rightarrow> ident \<Rightarrow> ident \<Rightarrow> transaction \<Rightarrow> ident \<Rightarrow> ident \<Rightarrow> item \<Rightarrow> engine
     \<Rightarrow> (ident \<times> engine) outcome" where
  "convey_incoming_transfer env nymID notaryID pending senderNymID recipientNymID transfer s =
     bind_outcome (get_workflow_by_source [IncomingTransfer] nymID (it_id transfer) s)
       (\<lambda>existing. case existing of
          Some e \<Rightarrow> Inr (text_of (wf_id e), s)
        | None \<Rightarrow>
            let accountID = tx_purported_account pending in
            bind_outcome
              (create_transfer env nymID transfer IncomingTransfer Conveyed
                 (workflow_version IncomingTransfer) (source_version IncomingTransfer)
                 (event_version IncomingTransfer) senderNymID accountID notaryID [] s)
              (\<lambda>((workflowID, w), s1).
                if workflowID \<noteq> [] then
                  let time = extract_conveyed_time w;
                      s2 = snd (update_activity env nymID (it_nym transfer) (it_id transfer) workflowID
                             BoxIncomingTransfer time s1)
                  in bind_outcome
                       (update_rpc env recipientNymID senderNymID accountID AccountIncomingTransfer
                          workflowID (it_amount transfer) 0 time (it_note transfer) s2)
                       (\<lambda>s3. Inr (workflowID, s3))
                else Inr (workflowID, s1)))"

definition convey_internal_transfer ::
  "wf_env \<Rightarrow> ident \<Rightarrow> ident \<Rightarrow> transaction \<Rightarrow> ident \<Rightarrow> item \<Rightarrow> engine \<Rightarrow> (ident \<times> engine) outcome" where
  "convey_internal_transfer env nymID notaryID pending senderNymID transfer s =
     bind_outcome (get_workflow_by_source [InternalTransfer] nymID (it_id transfer) s)
       (\<lambda>workflow. case workflow of
          None \<Rightarrow> Inr ([], s)
        | Some w \<Rightarrow>
            if \<not> can_convey_transfer w then Inr ([], s)
            else bind_outcome
                   (add_transfer_event_receipt env nymID notaryID [] w Conveyed EventConvey
                      (event_version InternalTransfer) pending (it_destination transfer) True s)
                   (\<lambda>((output, w'), s').
                     if output then Inr (text_of (wf_id w'), s') else Inr ([], s')))"

definition ConveyTransfer ::
  "wf_env \<Rightarrow> ident \<Rightarrow> ident \<Rightarrow> transaction \<Rightarrow> engine \<Rightarrow> (ident \<times> engine) outcome" where
  "ConveyTransfer env nymID notaryID pending s =
     (case extract_transfer_from_pending env pending of
        None \<Rightarrow> Inr ([], s)
      | Some transfer \<Rightarrow>
          let senderNymID = it_nym transfer;
              s0 = notify (NymToContact (it_nym transfer)) s;
              recipientNymID = tx_nym pending
          in if tx_nym pending \<noteq> nymID then Inr ([], s0)
             else let isInternal = (senderNymID = recipientNymID)
             in if isInternal
                then convey_internal_transfer env nymID notaryID pending senderNymID transfer s0
                else convey_incoming_transfer env nymID notaryID pending senderNymID recipientNymID
                       transfer s0)"

subsection \<open>Cash\<close>

definition new_outgoing_cash :: "wf_env \<Rightarrow> purse \<Rightarrow> workflow" where
  "new_outgoing_cash env purse =
     (let workflowID = env_random env;
          source = \<lparr>ir_version = Some (source_version OutgoingCash), ir_id = Some workflowID,
                    ir_revision = Some 1, ir_item = Some (pu_text purse)\<rparr>;
          event = blank_event\<lparr>ev_version := Some (event_version OutgoingCash), ev_time := env_now env,
                    ev_type := EventCreate, ev_method := TransportNone, ev_success := True\<rparr>
      in blank_workflow\<lparr>wf_version := Some (workflow_version OutgoingCash), wf_id := Some workflowID,
           wf_type := OutgoingCash, wf_state := Unsent, wf_source := [source],
           wf_notary := Some (pu_notary purse), wf_event := [event], wf_unit := [pu_unit purse]\<rparr>)"

definition AllocateCash :: "wf_env \<Rightarrow> ident \<Rightarrow> purse \<Rightarrow> engine \<Rightarrow> (ident \<times> engine) outcome" where
  "AllocateCash env nym purse s =
     bind_outcome (save_workflow env nym [] (new_outgoing_cash env purse) s)
       (\<lambda>(saved, s'). if \<not> saved then Inr ([], s') else Inr (env_random env, s'))"

definition send_cash_event ::
  "workflow \<Rightarrow> ident \<Rightarrow> message \<Rightarrow> message option \<Rightarrow> workflow" where
  "send_cash_event w recipient request reply =
     (let haveReply = (reply \<noteq> None);
          w1 = (if haveReply then w\<lparr>wf_state := Conveyed\<rparr> else w);
          event = blank_event\<lparr>ev_version := Some (event_version OutgoingCash), ev_type := EventConvey,
                    ev_item := [msg_text request], ev_method := TransportOT,
                    ev_transport := Some (msg_notary_id request), ev_nym := Some (msg_nym_id2 request)\<rparr>;
          event1 = (case reply of
                      Some r \<Rightarrow> event\<lparr>ev_item := ev_item event @ [msg_text r], ev_time := msg_time r,
                                      ev_success := msg_success r\<rparr>
                    | None \<Rightarrow> event\<lparr>ev_time := msg_time request, ev_success := False\<rparr>);
          w2 = w1\<lparr>wf_event := wf_event w1 @ [event1]\<rparr>
      in if 0 = length (wf_party w2) then w2\<lparr>wf_party := wf_party w2 @ [recipient]\<rparr> else w2)"

definition SendCash ::
  "wf_env \<Rightarrow> ident \<Rightarrow> ident \<Rightarrow> ident \<Rightarrow> message \<Rightarrow> message option \<Rightarrow> engine
     \<Rightarrow> (bool \<times> engine) outcome" where
  "SendCash env sender recipient workflowID request reply s =
     bind_outcome (get_workflow_by_id sender workflowID s)
       (\<lambda>pWorkflow. case pWorkflow of
          None \<Rightarrow> Inr (False, s)
        | Some w \<Rightarrow>
            if \<not> can_convey_cash w then Inr (False, s)
            else save_workflow env sender [] (send_cash_event w recipient request reply) s)"

definition new_incoming_cash :: "wf_env \<Rightarrow> purse \<Rightarrow> message \<Rightarrow> workflow" where
  "new_incoming_cash env purse message =
     (let workflowID = env_random env;
          party = msg_nym_id message;
          source = \<lparr>ir_version = Some (source_version IncomingCash), ir_id = Some workflowID,
                    ir_revision = Some 1, ir_item = Some (pu_text purse)\<rparr>;
          event = blank_event\<lparr>ev_version := Some (event_version IncomingCash), ev_time := msg_time message,
                    ev_type := EventConvey, ev_method := TransportOT,
                    ev_transport := Some (msg_notary_id message), ev_item := [msg_text message],
                    ev_nym := Some party, ev_success := True\<rparr>
      in blank_workflow\<lparr>wf_version := Some (workflow_version IncomingCash), wf_id := Some workflowID,
           wf_type := IncomingCash, wf_state := Conveyed, wf_source := [source],
           wf_notary := Some (pu_notary purse), wf_event := [event], wf_unit := [pu_unit purse],
           wf_party := [party]\<rparr>)"

definition ReceiveCash :: "wf_env \<Rightarrow> ident \<Rightarrow> purse \<Rightarrow> message \<Rightarrow> engine \<Rightarrow> (ident \<times> engine) outcome" where
  "ReceiveCash env receiver purse message s =
     bind_outcome (save_workflow env receiver [] (new_incoming_cash env purse message) s)
       (\<lambda>(saved, s'). if \<not> saved then Inr ([], s') else Inr (env_random env, s'))"

end
