(* ===== verification/Workflow_Validity.thy ===== *)
theory Workflow_Validity
  imports Workflow_Engine
begin

text \<open>
  What the checks of \<open>Workflow_Syntax\<close> amount to for the objects the engine makes: one
  characterisation of \<open>check_workflow\<close> per workflow type at the version the engine gives that
  type, as conditions on the fields and on the number of events of each type. The lemmas about
  operations use these instead of the checkers.
\<close>

subsection \<open>Events\<close>

text \<open>The condition a checker puts on the nym of an event, by event type.\<close>

definition event_nym_ok :: "payment_event \<Rightarrow> bool" where
  "event_nym_ok e =
     (case ev_type e of
        EventCreate \<Rightarrow> OPTIONAL_IDENTIFIER (ev_nym e)
      | EventConvey \<Rightarrow> OPTIONAL_IDENTIFIER (ev_nym e)
      | EventAccept \<Rightarrow> OPTIONAL_IDENTIFIER (ev_nym e)
      | EventReject \<Rightarrow> OPTIONAL_IDENTIFIER (ev_nym e)
      | EventError \<Rightarrow> False
      | _ \<Rightarrow> CHECK_EXCLUDED (ev_nym e))"

lemma event_ok_1:
  "event_ok (Suc 0) t e \<longleftrightarrow>
     ev_version e = Some 1 \<and> event_type_allowed 1 t (ev_type e) \<and> event_transport_present e
     \<and> event_transport_allowed e \<and> event_nym_ok e
     \<and> ev_type e \<in> {EventCreate, EventConvey, EventAccept, EventCancel, EventComplete}"
  by (cases "ev_type e"; cases "ev_version e")
    (auto simp: event_ok_def PaymentWorkflowAllowedPaymentEvent_def check_payment_event_def
      payment_event_version_def payment_event_1_def event_nym_ok_def)

lemma event_ok_2:
  "event_ok 2 t e \<longleftrightarrow>
     (ev_version e = Some 1 \<or> ev_version e = Some 2) \<and> event_type_allowed 2 t (ev_type e)
     \<and> event_transport_present e \<and> event_transport_allowed e \<and> event_nym_ok e
     \<and> ev_type e \<notin> {EventExpire, EventReject}
     \<and> (ev_version e = Some 1 \<longrightarrow> ev_type e \<notin> {EventAbort, EventAcknowledge})"
  by (cases "ev_type e"; cases "ev_version e")
    (auto simp: event_ok_def PaymentWorkflowAllowedPaymentEvent_def check_payment_event_def
      payment_event_version_def payment_event_1_def payment_event_2_def event_nym_ok_def)

lemma event_ok_3:
  "event_ok 3 t e \<longleftrightarrow>
     ev_version e = Some 3 \<and> event_type_allowed 3 t (ev_type e) \<and> event_transport_present e
     \<and> event_transport_allowed e \<and> event_nym_ok e"
  by (cases "ev_type e"; cases "ev_version e")
    (auto simp: event_ok_def PaymentWorkflowAllowedPaymentEvent_def check_payment_event_def
      payment_event_version_def payment_event_3_def event_nym_ok_def)

lemmas event_ok_cases = event_ok_1 event_ok_2 event_ok_3

lemmas event_field_checks =
  event_type_allowed_def event_transport_present_def event_transport_allowed_def event_nym_ok_def
  PaymentEventAllowedTransportMethod_def PaymentWorkflowAllowedEventTypes_def

lemma event_count_0: "list_all P es \<Longrightarrow> (\<And>e. P e \<Longrightarrow> ev_type e \<noteq> t) \<Longrightarrow> event_count es t = 0"
  by (induction es) auto

lemma event_count_disallowed:
  assumes "list_all (event_ok v t) es" "v = 1 \<or> v = 2 \<or> v = 3" "\<not> event_type_allowed v t k"
  shows "event_count es k = 0"
  using assms(1) by (rule event_count_0) (use assms(2,3) in \<open>auto simp: event_ok_cases\<close>)

subsection \<open>Fields common to every type\<close>

definition source_ok :: "instrument_revision \<Rightarrow> bool" where
  "source_ok src \<longleftrightarrow> ir_version src = Some 1 \<and> (\<exists>i. ir_id src = Some i \<and> plausible i)
     \<and> ir_revision src \<noteq> None \<and> ir_item src \<noteq> None"

lemma check_instrument_revision_iff: "check_instrument_revision 1 1 src \<longleftrightarrow> source_ok src"
  by (cases "ir_version src"; cases "ir_id src")
    (auto simp: check_instrument_revision_def instrument_revision_1_def source_ok_def)

lemma sources_ok_iff:
  "version_of (wf_version w) \<in> {1, 2, 3} \<Longrightarrow> sources_ok w \<longleftrightarrow> list_all source_ok (wf_source w)"
  by (auto simp: sources_ok_def CHECK_SUBOBJECTS_def PaymentWorkflowAllowedInstrumentRevision_def
      check_instrument_revision_iff [simplified])

text \<open>
  The conditions that hold of every valid workflow: a plausible identifier, one good source,
  plausible parties, units and accounts, and events that are good on their own.
\<close>

definition fields_ok :: "nat \<Rightarrow> workflow \<Rightarrow> bool" where
  "fields_ok v w \<longleftrightarrow>
     (\<exists>i. wf_id w = Some i \<and> plausible i) \<and> length (wf_source w) = 1
     \<and> list_all source_ok (wf_source w)
     \<and> list_all plausible (wf_party w) \<and> list_all plausible (wf_unit w)
     \<and> list_all plausible (wf_account w)
     \<and> list_all (event_ok v (wf_type w)) (wf_event w)"

lemma identifier_field: "CHECK_IDENTIFIER x \<longleftrightarrow> (\<exists>i. x = Some i \<and> plausible i)"
  by (cases x) auto

lemmas check_defs = check_workflow_def payment_workflow_version_def payment_workflow_1_def
  payment_workflow_2_def payment_workflow_3_def check_payment_events_eq fields_ok_def
  state_allowed_def PaymentWorkflowAllowedState_def one_source_one_party_def cash_parties_def
  outgoing_transfer_parties_def

subsection \<open>One characterisation per type\<close>

lemma check_outgoing_cheque:
  assumes "wf_version w = Some 1" "wf_type w = OutgoingCheque"
  shows "check_workflow w \<longleftrightarrow> fields_ok 1 w \<and> length (wf_party w) = 1
     \<and> CHECK_IDENTIFIER (wf_notary w) \<and> length (wf_account w) = 1 \<and> length (wf_unit w) = 1
     \<and> outgoing_cheque_1 (wf_state w) (event_count (wf_event w))"
  using assms by (cases "wf_state w") (auto simp: check_defs sources_ok_iff identifier_field)

lemma check_incoming_cheque:
  assumes "wf_version w = Some 1" "wf_type w = IncomingCheque"
  shows "check_workflow w \<longleftrightarrow> fields_ok 1 w \<and> length (wf_party w) = 1
     \<and> OPTIONAL_IDENTIFIER (wf_notary w) \<and> length (wf_unit w) = 1
     \<and> incoming_cheque_1 (wf_state w) (wf_notary w) (length (wf_account w)) (event_count (wf_event w))"
  using assms by (cases "wf_state w") (auto simp: check_defs sources_ok_iff identifier_field)

lemma check_outgoing_transfer:
  assumes "wf_version w = Some 2" "wf_type w = OutgoingTransfer"
  shows "check_workflow w \<longleftrightarrow> fields_ok 2 w \<and> length (wf_party w) \<le> 1
     \<and> (wf_state w = Accepted \<or> wf_state w = Completed \<longrightarrow> length (wf_party w) = 1)
     \<and> CHECK_IDENTIFIER (wf_notary w) \<and> length (wf_account w) = 1 \<and> length (wf_unit w) = 1
     \<and> outgoing_transfer_2 (wf_state w) (event_count (wf_event w))"
  using assms by (cases "wf_state w") (auto simp: check_defs sources_ok_iff identifier_field)

lemma check_incoming_transfer:
  assumes "wf_version w = Some 2" "wf_type w = IncomingTransfer"
  shows "check_workflow w \<longleftrightarrow> fields_ok 2 w \<and> length (wf_party w) = 1
     \<and> CHECK_IDENTIFIER (wf_notary w) \<and> length (wf_account w) = 1 \<and> length (wf_unit w) = 1
     \<and> incoming_transfer_2 (wf_state w) (event_count (wf_event w))"
  using assms by (cases "wf_state w") (auto simp: check_defs sources_ok_iff identifier_field)

lemma check_internal_transfer:
  assumes "wf_version w = Some 2" "wf_type w = InternalTransfer"
  shows "check_workflow w \<longleftrightarrow> fields_ok 2 w \<and> wf_party w = []
     \<and> CHECK_IDENTIFIER (wf_notary w) \<and> length (wf_account w) = 2 \<and> length (wf_unit w) = 1
     \<and> internal_transfer_2 (wf_state w) (event_count (wf_event w))"
  using assms by (cases "wf_state w") (auto simp: check_defs sources_ok_iff identifier_field)

lemma check_outgoing_cash:
  assumes "wf_version w = Some 3" "wf_type w = OutgoingCash"
  shows "check_workflow w \<longleftrightarrow> fields_ok 3 w \<and> length (wf_party w) \<le> 1
     \<and> CHECK_IDENTIFIER (wf_notary w) \<and> wf_account w = []
     \<and> outgoing_cash_3 (wf_state w) (event_count (wf_event w))"
  using assms by (cases "wf_state w") (auto simp: check_defs sources_ok_iff identifier_field)

lemma check_incoming_cash:
  assumes "wf_version w = Some 3" "wf_type w = IncomingCash"
  shows "check_workflow w \<longleftrightarrow> fields_ok 3 w \<and> length (wf_party w) \<le> 1
     \<and> CHECK_IDENTIFIER (wf_notary w) \<and> wf_account w = []
     \<and> incoming_cash_3 (wf_state w) (event_count (wf_event w))"
  using assms by (cases "wf_state w") (auto simp: check_defs sources_ok_iff identifier_field)

end
