(* ===== verification/Workflow_History.thy ===== *)
theory Workflow_History
  imports Workflow_Operations Workflow_Validity
begin

text \<open>
  The abstract view of a workflow: the state machine of its type, and what an operation may do to
  the object. The sequences that \<open>include/opentxs/api/session/Workflow.hpp\<close> documents are the
  paths of \<open>moves\<close>.
\<close>

definition moves :: "workflow_type \<Rightarrow> (workflow_state \<times> workflow_state) list" where
  "moves t = (case t of
     OutgoingCheque \<Rightarrow> [(Unsent, Conveyed), (Unsent, Cancelled), (Unsent, Expired), (Conveyed, Cancelled),
        (Conveyed, Expired), (Conveyed, Accepted), (Expired, Accepted), (Accepted, Completed)]
   | IncomingCheque \<Rightarrow> [(Conveyed, Expired), (Conveyed, Completed)]
   | OutgoingTransfer \<Rightarrow> [(Initiated, Acknowledged), (Initiated, Aborted), (Acknowledged, Accepted),
        (Accepted, Completed)]
   | IncomingTransfer \<Rightarrow> [(Conveyed, Completed)]
   | InternalTransfer \<Rightarrow> [(Initiated, Acknowledged), (Initiated, Aborted), (Initiated, Conveyed),
        (Acknowledged, Conveyed), (Conveyed, Accepted), (Accepted, Completed)]
   | OutgoingCash \<Rightarrow> [(Unsent, Conveyed)]
   | _ \<Rightarrow> [])"

definition initial_state :: "workflow_type \<Rightarrow> workflow_state option" where
  "initial_state t = (case t of
     OutgoingCheque \<Rightarrow> Some Unsent | IncomingCheque \<Rightarrow> Some Conveyed
   | OutgoingTransfer \<Rightarrow> Some Initiated | IncomingTransfer \<Rightarrow> Some Conveyed
   | InternalTransfer \<Rightarrow> Some Initiated
   | OutgoingCash \<Rightarrow> Some Unsent | IncomingCash \<Rightarrow> Some Conveyed
   | _ \<Rightarrow> None)"

text \<open>
  What the engine knows of its own workflows beyond the check: the version it writes for the type,
  and two facts about the events that the check leaves open.
\<close>

definition seasoned :: "workflow \<Rightarrow> bool" where
  "seasoned w \<longleftrightarrow>
     initial_state (wf_type w) \<noteq> None
     \<and> wf_version w = Some (workflow_version (wf_type w))
     \<and> (wf_type w = OutgoingCheque \<and> wf_state w = Conveyed \<longrightarrow> event_count (wf_event w) EventAccept = 0)
     \<and> (wf_type w = InternalTransfer \<and> wf_state w = Acknowledged \<longrightarrow> event_count (wf_event w) EventConvey = 0)"

definition born :: "workflow \<Rightarrow> bool" where
  "born w \<longleftrightarrow> seasoned w \<and> check_workflow w \<and> initial_state (wf_type w) = Some (wf_state w)
     \<and> length (wf_event w) = 1"

definition evolves :: "workflow \<Rightarrow> workflow \<Rightarrow> bool" where
  "evolves w w' \<longleftrightarrow>
     wf_version w' = wf_version w \<and> wf_id w' = wf_id w \<and> wf_type w' = wf_type w
     \<and> wf_source w' = wf_source w \<and> wf_unit w' = wf_unit w
     \<and> (wf_state w' = wf_state w \<or> (wf_state w, wf_state w') \<in> set (moves (wf_type w)))
     \<and> (\<exists>es. length es \<le> 1 \<and> wf_event w' = wf_event w @ es)
     \<and> (\<exists>ps. wf_party w' = wf_party w @ ps) \<and> (\<exists>as. wf_account w' = wf_account w @ as)
     \<and> seasoned w' \<and> check_workflow w'"

lemma evolves_same: "evolves w w' \<Longrightarrow> wf_id w' = wf_id w \<and> wf_type w' = wf_type w \<and> wf_source w' = wf_source w"
  by (simp add: evolves_def)

subsection \<open>The invariant of the engine\<close>

definition engine_get :: "engine \<Rightarrow> ident \<times> ident \<Rightarrow> workflow option" where
  "engine_get s k = (case en_nyms s (fst k) of None \<Rightarrow> None | Some node \<Rightarrow> pw_get (snd k) node)"

definition node_inv :: "workflow_store \<Rightarrow> bool" where
  "node_inv node \<longleftrightarrow>
     pw_invar node
     \<and> (\<forall>i w. pw_get i node = Some w \<longrightarrow> seasoned w)
     \<and> (\<forall>src i. pw_sources node src = Some i \<longrightarrow>
          (\<exists>w. pw_get i node = Some w \<and> src \<in> set (source_ids w)))"

definition engine_inv :: "engine \<Rightarrow> bool" where
  "engine_inv s \<longleftrightarrow> (\<forall>nym node. en_nyms s nym = Some node \<longrightarrow> node_inv node)"

text \<open>The random identifier is one that no node has used.\<close>

definition fresh_id :: "ident \<Rightarrow> engine \<Rightarrow> bool" where
  "fresh_id i s \<longleftrightarrow> (\<forall>nym node. en_nyms s nym = Some node \<longrightarrow> pw_states node i = None)"

lemma engine_inv_nyms: "en_nyms s' = en_nyms s \<Longrightarrow> engine_inv s' = engine_inv s"
  by (simp add: engine_inv_def)

lemma engine_get_nyms: "en_nyms s' = en_nyms s \<Longrightarrow> engine_get s' = engine_get s"
  by (simp add: engine_get_def fun_eq_iff)

lemma engine_inv_notify [simp]: "engine_inv (notify n s) = engine_inv s"
  by (rule engine_inv_nyms) simp

lemma engine_get_notify [simp]: "engine_get (notify n s) = engine_get s"
  by (rule engine_get_nyms) simp

lemma engine_invD: "engine_inv s \<Longrightarrow> en_nyms s nym = Some node \<Longrightarrow> node_inv node"
  by (simp add: engine_inv_def)

lemma engine_get_inv:
  assumes "engine_inv s" "engine_get s (nym, i) = Some w"
  shows "wf_id w = Some i \<and> check_workflow w \<and> seasoned w \<and> plausible i"
  using assms pw_invar_get pw_get_plausible
  by (fastforce simp: engine_get_def engine_inv_def node_inv_def split: option.splits)

lemma node_inv_empty: "node_inv pw_empty"
  by (simp add: node_inv_def pw_invar_empty) (simp add: pw_empty_def)

subsection \<open>Loading\<close>

lemma get_workflow_by_id_eq:
  assumes "engine_inv s"
  shows "get_workflow_by_id nym i s = Inr (engine_get s (nym, i))"
proof (cases "en_nyms s nym")
  case None
  then show ?thesis by (simp add: get_workflow_by_id_def storage_Load_def engine_get_def)
next
  case (Some node)
  with assms have node: "pw_invar node" by (auto simp: engine_inv_def node_inv_def)
  then have "pw_get [] node = None"
    using pw_get_plausible [OF node, of "[]"] by (cases "pw_get [] node") (auto simp: plausible_def)
  with Some node show ?thesis
    by (simp add: get_workflow_by_id_def storage_Load_def engine_get_def pw_Load_eq)
qed

text \<open>
  A lookup by source gives the workflow the source index points to when its type is one that the
  caller asks for, and nothing otherwise; it does not abort.
\<close>

lemma get_workflow_by_source_cases:
  assumes "engine_inv s"
  obtains (none) "get_workflow_by_source ts nym src s = Inr None"
  | (found) i w where "get_workflow_by_source ts nym src s = Inr (Some w)"
      "PaymentWorkflowLookup nym src s = i" "engine_get s (nym, i) = Some w"
      "wf_type w \<in> set ts" "src \<in> set (source_ids w)"
proof (cases "PaymentWorkflowLookup nym src s = []")
  case True
  then show ?thesis using none by (simp add: get_workflow_by_source_def)
next
  case False
  define i where "i = PaymentWorkflowLookup nym src s"
  with False obtain node where node: "en_nyms s nym = Some node" "pw_sources node src = Some i"
    by (auto simp: PaymentWorkflowLookup_def pw_LookupBySource_def split: option.splits)
  with assms obtain w where w: "pw_get i node = Some w" "src \<in> set (source_ids w)"
    unfolding engine_inv_def node_inv_def by blast
  then have get: "engine_get s (nym, i) = Some w"
    using node by (simp add: engine_get_def)
  then have "get_workflow_by_source ts nym src s =
      (if wf_type w \<notin> set ts then Inr None else Inr (Some w))"
    using False assms
    by (simp add: get_workflow_by_source_def get_workflow_by_id_typed_def get_workflow_by_id_eq i_def)
  with none found get w i_def show ?thesis by (cases "wf_type w \<in> set ts") auto
qed

lemma get_workflow_by_source_Some:
  assumes "engine_inv s" "get_workflow_by_source ts nym src s = Inr (Some w)"
  obtains i where "engine_get s (nym, i) = Some w" "wf_id w = Some i" "wf_type w \<in> set ts"
    "check_workflow w" "seasoned w" "plausible i" "src \<in> set (source_ids w)"
    "PaymentWorkflowLookup nym src s = i"
  using assms(1)
proof (cases rule: get_workflow_by_source_cases [of s ts nym src])
  case none
  with assms(2) show ?thesis by simp
next
  case (found i w')
  with assms that [of i] engine_get_inv [of s nym i w'] show ?thesis by simp
qed

lemma get_workflow_by_source_total:
  "engine_inv s \<Longrightarrow> \<exists>r. get_workflow_by_source ts nym src s = Inr r"
  by (cases rule: get_workflow_by_source_cases [of s ts nym src]) auto

subsection \<open>Saving\<close>

text \<open>
  When the stored object keeps its type, or the identifier is fresh, saving a valid object that the
  engine made succeeds exactly when the plugin accepts it.
\<close>

definition may_store :: "engine \<Rightarrow> ident \<Rightarrow> workflow \<Rightarrow> bool" where
  "may_store s nym w \<longleftrightarrow>
     (\<exists>node. en_nyms s nym = Some node \<and>
        (case wf_id w of None \<Rightarrow> False | Some i \<Rightarrow> indexed_type i w node = wf_type w
           \<and> (\<forall>old. pw_get i node = Some old \<longrightarrow> wf_source old = wf_source w)))"

lemma may_store_fresh:
  assumes "fresh_id i s" "wf_id w = Some i" "en_nyms s nym = Some node" "engine_inv s"
  shows "may_store s nym w"
proof -
  have "pw_states node i = None" using assms(1,3) by (simp add: fresh_id_def)
  moreover have "pw_invar node" using assms(3,4) by (auto simp: engine_inv_def node_inv_def)
  ultimately have "pw_get i node = None"
    using pw_invar_get [of node i] by (cases "pw_get i node") auto
  with \<open>pw_states node i = None\<close> assms(2,3) show ?thesis
    by (auto simp: may_store_def indexed_type_def)
qed

lemma may_store_update:
  assumes "engine_inv s" "engine_get s (nym, i) = Some w" "wf_id w' = Some i" "wf_type w' = wf_type w"
    "wf_source w' = wf_source w"
  shows "may_store s nym w'"
proof -
  from assms(2) obtain node where node: "en_nyms s nym = Some node" "pw_get i node = Some w"
    by (auto simp: engine_get_def split: option.splits)
  with assms(1) have "pw_invar node" by (auto simp: engine_inv_def node_inv_def)
  with node assms show ?thesis by (auto simp: may_store_def)
qed

lemma pw_Store_node:
  assumes inv: "node_inv node" and ok: "check_workflow w" "seasoned w" and i: "wf_id w = Some i"
    and t: "indexed_type i w node = wf_type w"
  obtains node' where "pw_Store True w node = Inr (True, node')" "node_inv node'"
    and "\<And>j. pw_get j node' = (if j = i then Some w else pw_get j node)"
    and "pw_states node' = (pw_states node)(i := Some (wf_type w, wf_state w))"
    and "\<And>src. pw_sources node' src =
     (case pw_sources node src of
        Some v \<Rightarrow> if v = i then if src \<in> set (source_ids w) then Some i else None else Some v
      | None \<Rightarrow> if src \<in> set (source_ids w) then Some i else None)"
proof -
  from inv have "pw_invar node" by (simp add: node_inv_def)
  from this ok(1) i t obtain node' where n: "pw_Store True w node = Inr (True, node')" "pw_invar node'"
      "\<And>j. pw_get j node' = (if j = i then Some w else pw_get j node)"
      "pw_states node' = (pw_states node)(i := Some (wf_type w, wf_state w))"
    by (elim pw_Store_step [where plugin_ok = True]) auto
  have "i \<noteq> []" using check_workflow_id ok(1) i by fastforce
  with check_workflow_type_state [OF ok(1)] t i n(1)
  have src: "pw_sources node' src =
     (case pw_sources node src of
        Some v \<Rightarrow> if v = i then if src \<in> set (source_ids w) then Some i else None else Some v
      | None \<Rightarrow> if src \<in> set (source_ids w) then Some i else None)" for src
    by (intro pw_Store_lookup [where ok = True and b = True]) simp_all
  have "node_inv node'"
    unfolding node_inv_def
  proof (intro conjI allI impI)
    show "pw_invar node'" by (rule n(2))
    show "seasoned w'" if "pw_get j node' = Some w'" for j w'
      using that inv ok(2) n(3) by (auto simp: node_inv_def split: if_splits)
    show "\<exists>w'. pw_get j node' = Some w' \<and> src' \<in> set (source_ids w')"
      if "pw_sources node' src' = Some j" for src' j
      using that inv src [of src'] n(3) [of j]
      by (auto simp: node_inv_def split: option.splits if_splits)
  qed
  with n src that show thesis by blast
qed

lemma pw_Store_aborts_or_saves:
  "pw_Store ok w node = Inr (b, node') \<Longrightarrow> b \<longleftrightarrow> check_workflow w \<and> ok"
  by (auto simp: pw_Store_def Let_def bind_outcome_eq_Inr prod_eq_iff)

lemma save_workflow_Inr:
  assumes inv: "engine_inv s" and st: "may_store s nym w" and seas: "seasoned w"
    and save: "save_workflow env nym acct w s = Inr (b, s')"
  shows "b" and "check_workflow w" and "engine_inv s'"
    and "engine_get s' = (engine_get s)((nym, the (wf_id w)) := Some w)"
proof -
  from st obtain node i where node: "en_nyms s nym = Some node" and i: "wf_id w = Some i"
    and t: "indexed_type i w node = wf_type w"
    by (auto simp: may_store_def split: option.splits)
  from save have valid: "check_workflow w"
    by (simp add: save_workflow_def Let_def outcome_rules)
  from engine_invD [OF inv node] valid seas i t obtain node' where
      n: "pw_Store True w node = Inr (True, node')" "node_inv node'"
      "\<And>j. pw_get j node' = (if j = i then Some w else pw_get j node)"
    by (rule pw_Store_node) blast
  from save have plugin: "env_plugin_ok env"
    using pw_Store_aborts_or_saves [of "env_plugin_ok env" w node]
    by (auto simp: save_workflow_def Let_def outcome_rules storage_Store_def node)
  have s': "en_nyms s' = (en_nyms s)(nym := Some node')" and "b"
    using save n(1) plugin node valid
    by (auto simp: save_workflow_def Let_def outcome_rules storage_Store_def split: if_splits)
  then show "b" by simp
  show "check_workflow w" by (rule valid)
  show "engine_inv s'" using inv n(2) s' by (auto simp: engine_inv_def)
  show "engine_get s' = (engine_get s)((nym, the (wf_id w)) := Some w)"
    using n(3) i node by (auto simp: engine_get_def s' fun_eq_iff)
qed

lemma save_workflow_total:
  assumes inv: "engine_inv s" and st: "may_store s nym w" and seas: "seasoned w"
    and ok: "check_workflow w" "env_plugin_ok env"
  shows "\<exists>s'. save_workflow env nym acct w s = Inr (True, s')"
proof -
  from st obtain node i where node: "en_nyms s nym = Some node" and i: "wf_id w = Some i"
    and t: "indexed_type i w node = wf_type w"
    by (auto simp: may_store_def split: option.splits)
  from engine_invD [OF inv node] ok(1) seas i t obtain node' where
      "pw_Store True w node = Inr (True, node')"
    by (rule pw_Store_node) blast
  with ok node show ?thesis
    by (simp add: save_workflow_def Let_def storage_Store_def)
qed

lemma save_workflow_invalid: "\<not> check_workflow w \<Longrightarrow> aborts (save_workflow env nym acct w s)"
  by (simp add: save_workflow_def)

end
