(* ===== verification/Workflow_Steps.thy ===== *)
theory Workflow_Steps
  imports Workflow_History
begin

text \<open>
  Every operation of the engine, applied to a state that satisfies the invariant, either aborts or
  leads to a state that satisfies it, and changes at most one workflow, along a move of its type.
  One lemma per operation.
\<close>

definition engine_ok :: "engine \<Rightarrow> engine \<Rightarrow> bool" where
  "engine_ok s s' \<longleftrightarrow> engine_inv s'
     \<and> (\<forall>k x. engine_get s k = Some x \<longrightarrow> (\<exists>y. engine_get s' k = Some y \<and> (y = x \<or> evolves x y)))
     \<and> (\<forall>k y. engine_get s k = None \<longrightarrow> engine_get s' k = Some y \<longrightarrow> born y)"

lemma engine_ok_refl [simp]: "engine_ok s s \<longleftrightarrow> engine_inv s"
  by (auto simp: engine_ok_def)

lemma engine_ok_notify [simp]:
  "engine_ok s (notify n s') = engine_ok s s'" "engine_ok (notify n s) s' = engine_ok s s'"
  by (simp_all add: engine_ok_def)

lemma engine_ok_nyms: "en_nyms s' = en_nyms s'' \<Longrightarrow> engine_ok s s'' \<Longrightarrow> engine_ok s s'"
  using engine_inv_nyms [of s' s''] engine_get_nyms [of s' s''] by (simp add: engine_ok_def)

lemma update_activity_nyms [simp]: "en_nyms (snd (update_activity env l r src w t tm s)) = en_nyms s"
  by (simp add: update_activity_def Let_def)

lemma update_rpc_nyms:
  "update_rpc env l r a t w am p tm m s = Inr s' \<Longrightarrow> en_nyms s' = en_nyms s"
  by (auto simp: update_rpc_def Let_def outcome_rules split: if_splits)

lemma update_rpc_ok:
  "update_rpc env l r a t w am p tm m s1 = Inr s2 \<Longrightarrow> engine_ok s s1 \<Longrightarrow> engine_ok s s2"
  using update_rpc_nyms engine_ok_nyms by blast

lemma update_activity_ok [simp]:
  "engine_ok s (snd (update_activity env l r src w t tm s1)) = engine_ok s s1"
  by (simp add: update_activity_def Let_def)

subsection \<open>Saving an updated and a new workflow\<close>

lemma save_update:
  assumes inv: "engine_inv s" and get: "engine_get s (nym, i) = Some w"
    and ev: "check_workflow w' \<Longrightarrow> evolves w w'"
    and save: "save_workflow env nym acct w' s = Inr (b, s')"
  shows "b \<and> engine_ok s s' \<and> engine_get s' = (engine_get s)((nym, i) := Some w') \<and> evolves w w'"
proof -
  from save have "check_workflow w'"
    by (simp add: save_workflow_def Let_def outcome_rules)
  then have ev': "evolves w w'" by (rule ev)
  have id: "wf_id w' = Some i" using ev' engine_get_inv [OF inv get] by (simp add: evolves_def)
  from ev' have st: "may_store s nym w'"
    using inv get id by (auto intro!: may_store_update [of s nym i w w'] simp: evolves_def)
  have seas: "seasoned w'" using ev' by (simp add: evolves_def)
  note r = save_workflow_Inr [OF inv st seas save]
  have "engine_ok s s'"
    using r(3,4) id get ev' by (auto simp: engine_ok_def)
  with r id ev' show ?thesis by simp
qed

lemma save_new:
  assumes inv: "engine_inv s" and fresh: "fresh_id i s" and id: "wf_id w = Some i"
    and born: "check_workflow w \<Longrightarrow> born w"
    and save: "save_workflow env nym acct w s = Inr (b, s')"
  shows "b \<and> engine_ok s s' \<and> engine_get s (nym, i) = None \<and> born w
    \<and> engine_get s' = (engine_get s)((nym, i) := Some w)"
proof -
  from save have "check_workflow w"
    by (simp add: save_workflow_def Let_def outcome_rules)
  then have born': "born w" by (rule born)
  from save obtain node where node: "en_nyms s nym = Some node"
    by (auto simp: save_workflow_def Let_def outcome_rules storage_Store_def split: option.splits)
  have st: "may_store s nym w" by (rule may_store_fresh [OF fresh id node inv])
  have none: "engine_get s (nym, i) = None"
    using fresh inv pw_invar_get [of node i] node
    by (cases "pw_get i node") (auto simp: engine_get_def fresh_id_def engine_inv_def node_inv_def)
  have seas: "seasoned w" using born' by (simp add: born_def)
  note r = save_workflow_Inr [OF inv st seas save]
  have "engine_ok s s'"
    using r(3,4) id none born' by (auto simp: engine_ok_def)
  with r id none born' show ?thesis by simp
qed

subsection \<open>The events an operation adds\<close>

lemma with_cheque_event_evolves:
  assumes move: "(wf_state w, st) \<in> set (moves (wf_type w))"
    and ok: "check_workflow (with_cheque_event env w st t v req rep acct)" "seasoned w"
    and accept: "wf_type w = OutgoingCheque \<Longrightarrow> wf_state w \<noteq> Conveyed \<Longrightarrow> st = Conveyed \<Longrightarrow>
      event_count (wf_event w) EventAccept = 0"
    and t: "wf_type w = OutgoingCheque \<Longrightarrow> t \<noteq> EventAccept"
    and ty: "wf_type w \<noteq> InternalTransfer"
  shows "evolves w (with_cheque_event env w st t v req rep acct)"
  using assms
  by (cases "wf_state w = Conveyed")
    (auto simp: evolves_def seasoned_def with_cheque_event_def the_cheque_event_def)

lemma with_transfer_event_evolves:
  assumes move: "st = wf_state w \<or> (wf_state w, st) \<in> set (moves (wf_type w))"
    and ok: "check_workflow (with_transfer_event w nym st t v text tr tm True)" "seasoned w"
    and convey: "wf_type w = InternalTransfer \<Longrightarrow> st = Acknowledged \<Longrightarrow>
      event_count (wf_event w) EventConvey = 0 \<and> t \<noteq> EventConvey"
    and ty: "wf_type w \<noteq> OutgoingCheque"
  shows "evolves w (with_transfer_event w nym st t v text tr tm True)"
  using assms by (auto simp: evolves_def seasoned_def with_transfer_event_def the_transfer_event_def)

text \<open>What the check says of the states an operation starts from.\<close>

lemma seasoned_version: "seasoned w \<Longrightarrow> wf_version w = Some (workflow_version (wf_type w))"
  by (simp add: seasoned_def)

lemma outgoing_cheque_check:
  assumes "check_workflow w" "seasoned w" "wf_type w = OutgoingCheque"
  shows "fields_ok 1 w \<and> length (wf_party w) = 1 \<and> CHECK_IDENTIFIER (wf_notary w)
     \<and> length (wf_account w) = 1 \<and> length (wf_unit w) = 1
     \<and> outgoing_cheque_1 (wf_state w) (event_count (wf_event w))"
  using assms check_outgoing_cheque [of w] by (simp add: seasoned_version workflow_version_def)

lemma unsent_cheque_no_accept:
  "check_workflow w \<Longrightarrow> seasoned w \<Longrightarrow> wf_type w = OutgoingCheque \<Longrightarrow>
     wf_state w = Unsent \<or> wf_state w = Conveyed \<Longrightarrow> event_count (wf_event w) EventAccept = 0"
  using outgoing_cheque_check [of w] by (auto simp: seasoned_def)

lemma internal_transfer_check:
  assumes "check_workflow w" "seasoned w" "wf_type w = InternalTransfer"
  shows "fields_ok 2 w \<and> wf_party w = [] \<and> CHECK_IDENTIFIER (wf_notary w)
     \<and> length (wf_account w) = 2 \<and> length (wf_unit w) = 1
     \<and> internal_transfer_2 (wf_state w) (event_count (wf_event w))"
  using assms check_internal_transfer [of w] by (simp add: seasoned_version workflow_version_def)

subsection \<open>Cheques\<close>

lemmas state_guards = can_convey_cheque_def can_cancel_cheque_def can_finish_cheque_def
  can_deposit_cheque_def can_accept_cheque_def can_abort_transfer_def can_accept_transfer_def
  can_acknowledge_transfer_def can_clear_transfer_def can_complete_transfer_def
  can_convey_transfer_def can_convey_cash_def

lemma can_cancel_cheque_iff [simp]: "can_cancel_cheque w \<longleftrightarrow> wf_state w = Unsent \<or> wf_state w = Conveyed"
  by (auto simp: can_cancel_cheque_def split: workflow_state.splits)

lemma can_accept_cheque_iff [simp]: "can_accept_cheque w \<longleftrightarrow> wf_state w = Expired \<or> wf_state w = Conveyed"
  by (auto simp: can_accept_cheque_def split: workflow_state.splits)

lemma can_abort_transfer_iff [simp]: "can_abort_transfer w \<longleftrightarrow> wf_state w = Initiated"
  by (auto simp: can_abort_transfer_def split: workflow_state.splits)

lemma can_accept_transfer_iff [simp]: "can_accept_transfer w \<longleftrightarrow> wf_state w = Conveyed"
  by (auto simp: can_accept_transfer_def split: workflow_state.splits)

lemma can_acknowledge_transfer_iff [simp]:
  "can_acknowledge_transfer w \<longleftrightarrow> wf_state w = Initiated \<or> wf_state w = Conveyed"
  by (auto simp: can_acknowledge_transfer_def split: workflow_state.splits)

lemma can_convey_transfer_iff [simp]:
  "can_convey_transfer w \<longleftrightarrow> wf_state w = Initiated \<or> wf_state w = Acknowledged"
  by (auto simp: can_convey_transfer_def split: workflow_state.splits)

lemma simple_guards_iff [simp]:
  "can_convey_cheque w \<longleftrightarrow> wf_state w = Unsent"
  "can_finish_cheque w \<longleftrightarrow> wf_state w = Accepted"
  "can_deposit_cheque w \<longleftrightarrow> wf_state w = Conveyed"
  "can_complete_transfer w \<longleftrightarrow> wf_state w = Accepted"
  "can_convey_cash w \<longleftrightarrow> wf_state w \<noteq> Expired"
  by (auto simp: state_guards)

lemma add_cheque_event_ok:
  assumes inv: "engine_inv s" and get: "engine_get s (nym, i) = Some w"
    and add: "add_cheque_event env nym w st t v req rep acct s = Inr ((b, w'), s')"
    and move: "(wf_state w, st) \<in> set (moves (wf_type w))"
    and accept: "wf_type w = OutgoingCheque \<Longrightarrow> wf_state w \<noteq> Conveyed \<Longrightarrow> st = Conveyed \<Longrightarrow>
      event_count (wf_event w) EventAccept = 0"
    and t: "wf_type w = OutgoingCheque \<Longrightarrow> t \<noteq> EventAccept"
    and ty: "wf_type w \<noteq> InternalTransfer"
  shows "b \<and> engine_ok s s' \<and> engine_get s' = (engine_get s)((nym, i) := Some w') \<and> evolves w w'
    \<and> w' = with_cheque_event env w st t v req rep acct"
proof -
  from add have w': "w' = with_cheque_event env w st t v req rep acct"
    and save: "save_workflow env nym acct w' s = Inr (b, s')"
    by (auto simp: add_cheque_event_def cheque_event_eq elim!: outcome_elims split: if_splits)
  have seas: "seasoned w" using engine_get_inv [OF inv get] by simp
  have "evolves w w'" if "check_workflow w'"
    using that unfolding w' by (rule with_cheque_event_evolves [OF move _ seas accept t ty])
  from save_update [OF inv get this save] w' show ?thesis by simp
qed

text \<open>
  The branches of each operation: nothing changes, or the operation goes on with a workflow the
  engine made and the event it adds to it.
\<close>

lemma SendCheque_cases:
  assumes "engine_inv s" "SendCheque env c req rep s = Inr (b, s')"
  obtains (same) "s' = s" "\<not> b"
  | (event) i w w' where "engine_get s (ch_sender_nym c, i) = Some w" "wf_type w = OutgoingCheque"
      "wf_state w = Unsent"
      "add_cheque_event env (ch_sender_nym c) w Conveyed EventConvey 1 req rep [] s = Inr ((b, w'), s')"
  using assms(2) unfolding SendCheque_def Let_def
  by (auto simp: event_version_def split: if_splits option.splits
      elim!: outcome_elims get_workflow_by_source_Some [OF assms(1)])

lemma CancelCheque_cases:
  assumes "engine_inv s" "CancelCheque env c req rep s = Inr (b, s')"
  obtains (same) "s' = s" "\<not> b"
  | (event) i w w' where "engine_get s (ch_sender_nym c, i) = Some w" "wf_type w = OutgoingCheque"
      "wf_state w = Unsent \<or> wf_state w = Conveyed"
      "add_cheque_event env (ch_sender_nym c) w Cancelled EventCancel 1 req rep [] s = Inr ((b, w'), s')"
  using assms(2) unfolding CancelCheque_def Let_def
  by (auto simp: event_version_def split: if_splits option.splits
      elim!: outcome_elims get_workflow_by_source_Some [OF assms(1)])

lemma FinishCheque_cases:
  assumes "engine_inv s" "FinishCheque env c req rep s = Inr (b, s')"
  obtains (same) "s' = s" "\<not> b"
  | (event) i w w' where "engine_get s (ch_sender_nym c, i) = Some w" "wf_type w = OutgoingCheque"
      "wf_state w = Accepted"
      "add_cheque_event env (ch_sender_nym c) w Completed EventComplete 1 req rep [] s = Inr ((b, w'), s')"
  using assms(2) unfolding FinishCheque_def Let_def
  by (auto simp: event_version_def split: if_splits option.splits
      elim!: outcome_elims get_workflow_by_source_Some [OF assms(1)])

lemma DepositCheque_cases:
  assumes "engine_inv s" "DepositCheque env n a c req rep s = Inr (b, s')"
  obtains (same) "s' = s" "\<not> b"
  | (event) i w w' s1 where "engine_get s (n, i) = Some w" "wf_type w = IncomingCheque"
      "wf_state w = Conveyed"
      "add_cheque_event env n w Completed EventAccept 1 req rep a s = Inr ((b, w'), s1)"
      "en_nyms s' = en_nyms s1"
  using assms(2) unfolding DepositCheque_def Let_def
  by (auto simp: event_version_def split: if_splits option.splits dest!: update_rpc_nyms
      elim!: outcome_elims get_workflow_by_source_Some [OF assms(1)])

lemma ClearCheque_cases:
  assumes "engine_inv s" "ClearCheque env r receipt s = Inr (b, s')"
  obtains (same) "s' = s" "\<not> b"
  | (event) c i w w' s1 where "env_receipt_cheque env receipt = Some c"
      "engine_get s (ch_sender_nym c, i) = Some w" "wf_type w = OutgoingCheque"
      "wf_state w = Expired \<or> wf_state w = Conveyed" "r \<noteq> []"
      "w' = clear_cheque_event w Accepted EventAccept 1 r receipt (env_now env)"
      "save_workflow env (ch_sender_nym c) (hd (wf_account w)) w' s = Inr (b, s1)"
      "en_nyms s' = en_nyms s1"
  using assms(2) unfolding ClearCheque_def Let_def add_cheque_event_receipt_def
  by (auto simp: event_version_def split: if_splits option.splits dest!: update_rpc_nyms
      elim!: outcome_elims get_workflow_by_source_Some [OF assms(1)])

lemma ExpireCheque_cases:
  assumes "engine_inv s" "ExpireCheque env n c s = Inr (b, s')"
  obtains (same) "s' = s" "\<not> b"
  | (event) i w where "engine_get s (n, i) = Some w"
      "wf_type w = OutgoingCheque \<and> (wf_state w = Unsent \<or> wf_state w = Conveyed)
         \<or> wf_type w = IncomingCheque \<and> wf_state w = Conveyed"
      "ch_valid_to c \<le> env_now env"
      "save_workflow env n (ch_sender_account c) (w\<lparr>wf_state := Expired\<rparr>) s = Inr (b, s')"
  using assms(2) unfolding ExpireCheque_def Let_def
  by (auto simp: can_expire_cheque_def Let_def
      split: if_splits option.splits workflow_state.splits workflow_type.splits
      elim!: outcome_elims get_workflow_by_source_Some [OF assms(1)])

text \<open>No type is in the empty set that \<open>ExportCheque\<close> asks for.\<close>

lemma get_workflow_by_source_empty:
  "engine_inv s \<Longrightarrow> get_workflow_by_source [] nym src s = Inr None"
  by (cases rule: get_workflow_by_source_cases [of s "[]" nym src]) auto

lemma ExportCheque_eq: "engine_inv s \<Longrightarrow> ExportCheque env c s = Inr (False, s)"
  by (simp add: ExportCheque_def Let_def get_workflow_by_source_empty)

lemma SendCheque_step:
  assumes inv: "engine_inv s" and op: "SendCheque env c req rep s = Inr (b, s')"
  shows "engine_ok s s'"
  using assms
proof (cases rule: SendCheque_cases)
  case (event i w w')
  from add_cheque_event_ok [OF inv event(1,4)] event unsent_cheque_no_accept engine_get_inv [OF inv event(1)]
  show ?thesis by (simp add: moves_def)
qed (use inv in auto)

lemma CancelCheque_step:
  assumes inv: "engine_inv s" and op: "CancelCheque env c req rep s = Inr (b, s')"
  shows "engine_ok s s'"
  using assms
proof (cases rule: CancelCheque_cases)
  case (event i w w')
  from add_cheque_event_ok [OF inv event(1,4)] event show ?thesis by (auto simp: moves_def)
qed (use inv in auto)

lemma FinishCheque_step:
  assumes inv: "engine_inv s" and op: "FinishCheque env c req rep s = Inr (b, s')"
  shows "engine_ok s s'"
  using assms
proof (cases rule: FinishCheque_cases)
  case (event i w w')
  from add_cheque_event_ok [OF inv event(1,4)] event show ?thesis by (auto simp: moves_def)
qed (use inv in auto)

lemma DepositCheque_step:
  assumes inv: "engine_inv s" and op: "DepositCheque env n a c req rep s = Inr (b, s')"
  shows "engine_ok s s'"
  using assms
proof (cases rule: DepositCheque_cases)
  case (event i w w' s1)
  from add_cheque_event_ok [OF inv event(1,4)] event have "engine_ok s s1" by (auto simp: moves_def)
  with event(5) show ?thesis by (rule engine_ok_nyms)
qed (use inv in auto)

lemma ClearCheque_step:
  assumes inv: "engine_inv s" and op: "ClearCheque env r receipt s = Inr (b, s')"
  shows "engine_ok s s'"
  using assms
proof (cases rule: ClearCheque_cases)
  case (event c i w w' s1)
  have "evolves w w'" if "check_workflow w'"
    using event(3-6) that engine_get_inv [OF inv event(2)]
    by (auto simp: evolves_def seasoned_def clear_cheque_event_def Let_def moves_def)
  from save_update [OF inv event(2) this event(7)] have "engine_ok s s1" by blast
  with event(8) show ?thesis by (rule engine_ok_nyms)
qed (use inv in auto)

lemma ExpireCheque_step:
  assumes inv: "engine_inv s" and op: "ExpireCheque env n c s = Inr (b, s')"
  shows "engine_ok s s'"
  using assms
proof (cases rule: ExpireCheque_cases)
  case (event i w)
  have "evolves w (w\<lparr>wf_state := Expired\<rparr>)" if "check_workflow (w\<lparr>wf_state := Expired\<rparr>)"
    using event(2) that engine_get_inv [OF inv event(1)]
    by (auto simp: evolves_def seasoned_def moves_def intro!: exI [of _ "[]"])
  from save_update [OF inv event(1) this event(4)] show ?thesis by blast
qed (use inv in auto)

subsection \<open>New cheques\<close>

lemma first_cheque_born:
  assumes "initial_state ty = Some st" "ty = OutgoingCheque \<or> ty = IncomingCheque"
    and "check_workflow (first_cheque env c ty st (workflow_version ty) sv ev party acct msg)"
  shows "born (first_cheque env c ty st (workflow_version ty) sv ev party acct msg)"
  using assms by (auto simp: born_def seasoned_def initial_state_def first_cheque_def)

lemma save_workflow_pair_cases:
  assumes "save_workflow_pair env out nym acct w s = Inr (r, s')"
  obtains b where "save_workflow env nym acct w s = Inr (b, s')"
    "r = (if b then out else ([], blank_workflow))"
  using assms unfolding save_workflow_pair_def by (auto elim!: outcome_elims)

lemma create_cheque_ok:
  assumes inv: "engine_inv s" and fresh: "fresh_id (env_random env) s"
    and op: "create_cheque env nym c ty st (workflow_version ty) sv ev party acct msg s = Inr ((i, w), s')"
    and ty: "initial_state ty = Some st" "ty = OutgoingCheque \<or> ty = IncomingCheque"
  shows "i = env_random env" "engine_ok s s'" "born w"
    "engine_get s' = (engine_get s)((nym, env_random env) := Some w)"
    "w = first_cheque env c ty st (workflow_version ty) sv ev party acct msg"
proof -
  let ?w = "first_cheque env c ty st (workflow_version ty) sv ev party acct msg"
  from op obtain b where save: "save_workflow env nym acct ?w s = Inr (b, s')"
    and r: "(i, w) = (if b then (env_random env, ?w) else ([], blank_workflow))"
    unfolding create_cheque_def new_cheque_eq
    by (auto elim!: outcome_elims save_workflow_pair_cases split: if_splits)
  have "wf_id ?w = Some (env_random env)" by (simp add: first_cheque_def)
  note save_new [OF inv fresh this first_cheque_born [OF ty] save]
  with r show "i = env_random env" "engine_ok s s'" "born w"
    "engine_get s' = (engine_get s)((nym, env_random env) := Some w)" "w = ?w"
    by auto
qed

lemma WriteCheque_cases:
  assumes "engine_inv s" "WriteCheque env c s = Inr (r, s')"
  obtains (same) "s' = s"
  | (new) i w s1 where
      "get_workflow_by_source [OutgoingCheque] (ch_sender_nym c) (ch_id c) s = Inr None"
      "create_cheque env (ch_sender_nym c) c OutgoingCheque Unsent 1 1 1
         (if ch_has_recipient c then ch_recipient_nym c else []) (ch_sender_account c) None s
       = Inr ((i, w), s1)"
      "en_nyms s' = en_nyms s1" "r = i"
  using assms(2) unfolding WriteCheque_def Let_def
  by (auto simp: workflow_version_def source_version_def event_version_def
      split: if_splits option.splits dest!: update_rpc_nyms elim!: outcome_elims)

lemma receive_cheque_cases:
  assumes "engine_inv s" "receive_cheque env n c msg s = Inr (r, s')"
  obtains (same) "s' = s"
  | (new) i w s1 where
      "get_workflow_by_source [IncomingCheque] n (ch_id c) s = Inr None"
      "create_cheque env n c IncomingCheque Conveyed 1 1 1 (ch_sender_nym c) [] msg s = Inr ((i, w), s1)"
      "en_nyms s' = en_nyms s1" "r = i"
  using assms(2) unfolding receive_cheque_def Let_def
  by (auto simp: workflow_version_def source_version_def event_version_def
      split: if_splits option.splits dest!: update_rpc_nyms elim!: outcome_elims)

lemma WriteCheque_step:
  assumes inv: "engine_inv s" and fresh: "fresh_id (env_random env) s"
    and op: "WriteCheque env c s = Inr (r, s')"
  shows "engine_ok s s'"
  using inv op
proof (cases rule: WriteCheque_cases)
  case (new i w s1)
  have "engine_ok s s1"
    by (rule create_cheque_ok [OF inv fresh, of _ c OutgoingCheque])
      (use new(2) in \<open>simp_all add: workflow_version_def initial_state_def\<close>)
  with new(3) show ?thesis by (rule engine_ok_nyms)
qed (use inv in auto)

lemma receive_cheque_step:
  assumes inv: "engine_inv s" and fresh: "fresh_id (env_random env) s"
    and op: "receive_cheque env n c msg s = Inr (r, s')"
  shows "engine_ok s s'"
  using inv op
proof (cases rule: receive_cheque_cases)
  case (new i w s1)
  have "engine_ok s s1"
    by (rule create_cheque_ok [OF inv fresh, of _ c IncomingCheque])
      (use new(2) in \<open>simp_all add: workflow_version_def initial_state_def\<close>)
  with new(3) show ?thesis by (rule engine_ok_nyms)
qed (use inv in auto)

subsection \<open>Transfers\<close>

lemma create_transfer_ok:
  assumes inv: "engine_inv s" and fresh: "fresh_id (env_random env) s"
    and none: "get_workflow_by_source [ty] nym (it_id c) s = Inr None"
    and op: "create_transfer env nym c ty st (workflow_version ty) sv ev party acct notary dest s = Inr ((i, w), s')"
    and ty: "initial_state ty = Some st" "ty \<in> {OutgoingTransfer, IncomingTransfer, InternalTransfer}"
  shows "i = env_random env" "engine_ok s s'" "born w"
    "engine_get s' = (engine_get s)((nym, env_random env) := Some w)"
    "w = first_transfer env c ty st (workflow_version ty) sv ev party acct notary dest"
proof -
  let ?w = "first_transfer env c ty st (workflow_version ty) sv ev party acct notary dest"
  from op none obtain b where save: "save_workflow env nym acct ?w s = Inr (b, s')"
    and r: "(i, w) = (if b then (env_random env, ?w) else ([], blank_workflow))"
    unfolding create_transfer_def new_transfer_eq
    by (auto elim!: outcome_elims save_workflow_pair_cases split: if_splits)
  have id: "wf_id ?w = Some (env_random env)" by (simp add: first_transfer_def)
  have "born ?w" if "check_workflow ?w"
    using that ty by (auto simp: born_def seasoned_def initial_state_def first_transfer_def)
  note save_new [OF inv fresh id this save]
  with r show "i = env_random env" "engine_ok s s'" "born w"
    "engine_get s' = (engine_get s)((nym, env_random env) := Some w)" "w = ?w"
    by auto
qed

lemma save_transfer_event_ok:
  assumes inv: "engine_inv s" and get: "engine_get s (nym, i) = Some w"
    and save: "save_workflow env nym acct (with_transfer_event w enym st t v text tr tm True) s = Inr (b, s')"
    and move: "st = wf_state w \<or> (wf_state w, st) \<in> set (moves (wf_type w))"
    and convey: "wf_type w = InternalTransfer \<Longrightarrow> st = Acknowledged \<Longrightarrow>
      event_count (wf_event w) EventConvey = 0 \<and> t \<noteq> EventConvey"
    and ty: "wf_type w \<noteq> OutgoingCheque"
  shows "b \<and> engine_ok s s' \<and> evolves w (with_transfer_event w enym st t v text tr tm True)
    \<and> engine_get s' = (engine_get s)((nym, i) := Some (with_transfer_event w enym st t v text tr tm True))"
proof -
  have seas: "seasoned w" using engine_get_inv [OF inv get] by simp
  have "evolves w (with_transfer_event w enym st t v text tr tm True)"
    if "check_workflow (with_transfer_event w enym st t v text tr tm True)"
    by (rule with_transfer_event_evolves [OF move that seas convey ty])
  from save_update [OF inv get this save] show ?thesis by simp
qed

end
