(* ===== verification/Workflow_Transfers.thy ===== *)
theory Workflow_Transfers
  imports Workflow_Steps
begin

text \<open>
  The transfer and cash operations, as \<open>Workflow_Steps\<close> does it for cheques: the branches of
  each operation, and that it keeps the invariant of the engine.
\<close>

lemma add_transfer_event_eq:
  "add_transfer_event env nymID eventNym w st t v message account success s =
     (if transfer_event_type t
      then bind_outcome (save_workflow env nymID account
             (with_transfer_event w eventNym st t v (msg_text message) (msg_notary_id message)
                (msg_time message) success) s)
           (\<lambda>(ok, s'). Inr ((ok, with_transfer_event w eventNym st t v (msg_text message)
                (msg_notary_id message) (msg_time message) success), s'))
      else Inl Unreachable)"
  by (simp add: add_transfer_event_def transfer_event_eq)

lemma add_transfer_event_receipt_eq:
  "add_transfer_event_receipt env nymID notaryID eventNym w st t v receipt account success s =
     (if transfer_event_type t
      then bind_outcome (save_workflow env nymID account
             (with_transfer_event w eventNym st t v (tx_text receipt) notaryID (env_now env) success) s)
           (\<lambda>(ok, s'). Inr ((ok, with_transfer_event w eventNym st t v (tx_text receipt) notaryID
                (env_now env) success), s'))
      else Inl Unreachable)"
  by (simp add: add_transfer_event_receipt_def transfer_event_eq)

lemma transfer_event_type_simps [simp]:
  "transfer_event_type EventConvey" "transfer_event_type EventAccept" "transfer_event_type EventComplete"
  "transfer_event_type EventAbort" "transfer_event_type EventAcknowledge"
  by (simp_all add: transfer_event_type_def)

lemma transfer_type_cases [simp]:
  "transfer_type True = InternalTransfer" "transfer_type False = OutgoingTransfer"
  by (simp_all add: transfer_type_def)

lemma event_version_transfer [simp]:
  "event_version (transfer_type b) = 2" "event_version IncomingTransfer = 2"
  "event_version OutgoingTransfer = 2" "event_version InternalTransfer = 2"
  by (cases b; simp add: event_version_def)+

lemma CreateTransfer_cases:
  assumes "engine_inv s" "CreateTransfer env x req s = Inr (r, s')"
  obtains (same) "s' = s"
  | (new) internal i w s1 where
      "isInternalTransfer env (it_real_account x) (it_destination x) = Inr internal"
      "get_workflow_by_source [transfer_type internal] (msg_nym_id req) (it_id x) s = Inr None"
      "create_transfer env (msg_nym_id req) x (transfer_type internal) Initiated
         (workflow_version (transfer_type internal)) (source_version (transfer_type internal)) 2 []
         (it_real_account x) (msg_notary_id req) (if internal then it_destination x else []) s
       = Inr ((i, w), s1)"
      "en_nyms s' = en_nyms s1" "r = i"
  using assms(2) unfolding CreateTransfer_def Let_def
  by (auto split: if_splits option.splits dest!: update_rpc_nyms elim!: outcome_elims)

lemma AcknowledgeTransfer_cases:
  assumes "engine_inv s" "AcknowledgeTransfer env n x reply s = Inr (b, s')"
  obtains (same) "s' = s" "\<not> b"
  | (event) internal i w where
      "isInternalTransfer env (it_real_account x) (it_destination x) = Inr internal"
      "engine_get s (n, i) = Some w" "wf_type w = transfer_type internal"
      "wf_state w = Initiated \<or> wf_state w = Conveyed"
      "save_workflow env n (it_real_account x)
         (with_transfer_event w [] (if wf_state w = Conveyed then Conveyed else Acknowledged)
            EventAcknowledge 2 (msg_text reply) (msg_notary_id reply) (msg_time reply) True) s = Inr (b, s')"
  using assms(2) unfolding AcknowledgeTransfer_def Let_def add_transfer_event_eq
  by (auto split: if_splits option.splits elim!: outcome_elims get_workflow_by_source_Some [OF assms(1)])

lemma AbortTransfer_cases:
  assumes "engine_inv s" "AbortTransfer env n x reply s = Inr (b, s')"
  obtains (same) "s' = s" "\<not> b"
  | (event) internal i w where
      "isInternalTransfer env (it_real_account x) (it_destination x) = Inr internal"
      "engine_get s (n, i) = Some w" "wf_type w = transfer_type internal" "wf_state w = Initiated"
      "save_workflow env n (it_real_account x)
         (with_transfer_event w [] Aborted EventAbort 2 (msg_text reply) (msg_notary_id reply)
            (msg_time reply) True) s = Inr (b, s')"
  using assms(2) unfolding AbortTransfer_def Let_def add_transfer_event_eq
  by (auto split: if_splits option.splits elim!: outcome_elims get_workflow_by_source_Some [OF assms(1)])

lemma AcceptTransfer_cases:
  assumes "engine_inv s" "AcceptTransfer env n notary p reply s = Inr (b, s')"
  obtains (same) "s' = s"
  | (event) x i w where "extract_transfer_from_pending env p = Some x" "tx_nym p = n" "it_nym x \<noteq> n"
      "engine_get s (n, i) = Some w" "wf_type w = IncomingTransfer" "wf_state w = Conveyed"
      "save_workflow env n (tx_purported_account p)
         (with_transfer_event w (it_nym x) Completed EventAccept 2 (msg_text reply) (msg_notary_id reply)
            (msg_time reply) True) s = Inr (b, s')"
  using assms(2) unfolding AcceptTransfer_def Let_def add_transfer_event_eq
  by (auto split: if_splits option.splits elim!: outcome_elims get_workflow_by_source_Some [OF assms(1)])

lemma ClearTransfer_cases:
  assumes "engine_inv s" "ClearTransfer env n notary receipt s = Inr (b, s')"
  obtains (same) "en_nyms s' = en_nyms s" "\<not> b"
  | (event) x d internal i w s1 where
      "extract_transfer_from_receipt env receipt = (Some x, d)" "d \<noteq> []"
      "isInternalTransfer env (it_purported_account x) (it_destination x) = Inr internal"
      "engine_get s (n, i) = Some w"
      "wf_type w = transfer_type internal" "can_clear_transfer w"
      "save_workflow env n (it_purported_account x)
         (with_transfer_event w (if internal then [] else d) Accepted EventAccept 2 (tx_text receipt) notary
            (env_now env) True) (notify (NymToContact d) s) = Inr (b, s1)"
      "en_nyms s' = en_nyms s1"
  using assms(2) unfolding ClearTransfer_def Let_def add_transfer_event_receipt_eq
  by (auto split: if_splits option.splits prod.splits dest!: update_rpc_nyms
      elim!: outcome_elims get_workflow_by_source_Some
        [OF engine_inv_notify [THEN iffD2, OF assms(1)], unfolded engine_get_notify])

lemma CompleteTransfer_cases:
  assumes "engine_inv s" "CompleteTransfer env n notary receipt reply s = Inr (b, s')"
  obtains (same) "s' = s" "\<not> b"
  | (event) x d internal i w where
      "extract_transfer_from_receipt env receipt = (Some x, d)"
      "isInternalTransfer env (it_purported_account x) (it_destination x) = Inr internal"
      "engine_get s (n, i) = Some w" "wf_type w = transfer_type internal" "wf_state w = Accepted"
      "save_workflow env n (it_real_account x)
         (with_transfer_event w (if internal then [] else d) Completed EventComplete 2 (tx_text receipt)
            notary (env_now env) True) s = Inr (b, s')"
  using assms(2) unfolding CompleteTransfer_def Let_def add_transfer_event_receipt_eq
  by (auto split: if_splits option.splits prod.splits elim!: outcome_elims get_workflow_by_source_Some [OF assms(1)])

lemma ConveyTransfer_cases:
  assumes "engine_inv s" "ConveyTransfer env n notary p s = Inr (r, s')"
  obtains (same) "en_nyms s' = en_nyms s"
  | (incoming) x i w s1 where "extract_transfer_from_pending env p = Some x" "tx_nym p = n"
      "it_nym x \<noteq> n"
      "get_workflow_by_source [IncomingTransfer] n (it_id x) (notify (NymToContact (it_nym x)) s) = Inr None"
      "create_transfer env n x IncomingTransfer Conveyed (workflow_version IncomingTransfer)
         (source_version IncomingTransfer) 2 (it_nym x) (tx_purported_account p) notary []
         (notify (NymToContact (it_nym x)) s) = Inr ((i, w), s1)"
      "en_nyms s' = en_nyms s1" "r = i"
  | (internal) x i w b where "extract_transfer_from_pending env p = Some x" "tx_nym p = n"
      "it_nym x = n" "engine_get s (n, i) = Some w" "wf_type w = InternalTransfer"
      "wf_state w = Initiated \<or> wf_state w = Acknowledged"
      "save_workflow env n (it_destination x)
         (with_transfer_event w [] Conveyed EventConvey 2 (tx_text p) notary (env_now env) True)
         (notify (NymToContact (it_nym x)) s) = Inr (b, s')"
      "r = (if b then i else [])"
  using assms(2)
  unfolding ConveyTransfer_def convey_incoming_transfer_def convey_internal_transfer_def Let_def
    add_transfer_event_receipt_eq
  by (auto simp: with_transfer_event_def split: if_splits option.splits prod.splits dest!: update_rpc_nyms
      elim!: outcome_elims get_workflow_by_source_Some
        [OF engine_inv_notify [THEN iffD2, OF assms(1)], unfolded engine_get_notify])

subsection \<open>Each transfer operation keeps the invariant\<close>

lemma isInternalTransfer_simps: "transfer_type b \<in> {OutgoingTransfer, IncomingTransfer, InternalTransfer}"
  "initial_state (transfer_type b) = Some Initiated" "transfer_type b \<noteq> OutgoingCheque"
  by (cases b; simp add: initial_state_def)+

lemma CreateTransfer_step:
  assumes inv: "engine_inv s" and fresh: "fresh_id (env_random env) s"
    and op: "CreateTransfer env x req s = Inr (r, s')"
  shows "engine_ok s s'"
  using inv op
proof (cases rule: CreateTransfer_cases)
  case (new internal i w s1)
  have "engine_ok s s1"
    by (rule create_transfer_ok(2) [OF inv fresh new(2,3) isInternalTransfer_simps(2,1)])
  with new(4) show ?thesis by (rule engine_ok_nyms)
qed (use inv in auto)

lemma AcknowledgeTransfer_step:
  assumes inv: "engine_inv s" and op: "AcknowledgeTransfer env n x reply s = Inr (b, s')"
  shows "engine_ok s s'"
  using assms
proof (cases rule: AcknowledgeTransfer_cases)
  case (event internal i w)
  have "event_count (wf_event w) EventConvey = 0"
    if "wf_type w = InternalTransfer" "wf_state w = Initiated"
    using internal_transfer_check [of w] engine_get_inv [OF inv event(2)] that by simp
  with event(3,4) save_transfer_event_ok [OF inv event(2,5)] show ?thesis
    by (cases internal; cases "wf_state w = Conveyed") (simp_all add: moves_def)
qed (use inv in auto)

lemma AbortTransfer_step:
  assumes inv: "engine_inv s" and op: "AbortTransfer env n x reply s = Inr (b, s')"
  shows "engine_ok s s'"
  using assms
proof (cases rule: AbortTransfer_cases)
  case (event internal i w)
  with save_transfer_event_ok [OF inv event(2,5)] show ?thesis
    by (cases internal) (simp_all add: moves_def)
qed (use inv in auto)

lemma AcceptTransfer_step:
  assumes inv: "engine_inv s" and op: "AcceptTransfer env n notary p reply s = Inr (b, s')"
  shows "engine_ok s s'"
  using assms
proof (cases rule: AcceptTransfer_cases)
  case (event x i w)
  with save_transfer_event_ok [OF inv event(4,7)] show ?thesis by (simp add: moves_def)
qed (use inv in auto)

lemma ClearTransfer_step:
  assumes inv: "engine_inv s" and op: "ClearTransfer env n notary receipt s = Inr (b, s')"
  shows "engine_ok s s'"
  using assms
proof (cases rule: ClearTransfer_cases)
  case same
  then show ?thesis using inv by (auto intro: engine_ok_nyms [of s' s s])
next
  case (event x d internal i w s1)
  have inv': "engine_inv (notify (NymToContact d) s)"
    and get': "engine_get (notify (NymToContact d) s) (n, i) = Some w"
    using inv event(4) by simp_all
  have "engine_ok s s1"
    using save_transfer_event_ok [OF inv' get' event(7)] event(5,6)
    by (cases internal) (simp_all add: moves_def can_clear_transfer_def)
  with event(8) show ?thesis by (rule engine_ok_nyms)
qed

lemma CompleteTransfer_step:
  assumes inv: "engine_inv s" and op: "CompleteTransfer env n notary receipt reply s = Inr (b, s')"
  shows "engine_ok s s'"
  using assms
proof (cases rule: CompleteTransfer_cases)
  case (event x d internal i w)
  with save_transfer_event_ok [OF inv event(3,6)] show ?thesis
    by (cases internal) (simp_all add: moves_def)
qed (use inv in auto)

lemma ConveyTransfer_step:
  assumes inv: "engine_inv s" and fresh: "fresh_id (env_random env) s"
    and op: "ConveyTransfer env n notary p s = Inr (r, s')"
  shows "engine_ok s s'"
  using inv op
proof (cases rule: ConveyTransfer_cases)
  case same
  then show ?thesis using inv by (auto intro: engine_ok_nyms [of s' s s])
next
  case (incoming x i w s1)
  let ?s0 = "notify (NymToContact (it_nym x)) s"
  have inv': "engine_inv ?s0" and fresh': "fresh_id (env_random env) ?s0"
    using inv fresh by (simp_all add: fresh_id_def)
  have "engine_ok ?s0 s1"
    by (rule create_transfer_ok(2) [OF inv' fresh' incoming(4,5)]) (simp_all add: initial_state_def)
  then show ?thesis using engine_ok_nyms [OF incoming(6)] by simp
next
  case (internal x i w b)
  have inv': "engine_inv (notify (NymToContact (it_nym x)) s)"
    and get': "engine_get (notify (NymToContact (it_nym x)) s) (n, i) = Some w"
    using inv internal(4) by simp_all
  show ?thesis
    using save_transfer_event_ok [OF inv' get' internal(7)] internal(5,6) by (auto simp: moves_def)
qed

subsection \<open>Cash\<close>

lemma AllocateCash_cases:
  assumes "AllocateCash env n p s = Inr (r, s')"
  obtains b where "save_workflow env n [] (new_outgoing_cash env p) s = Inr (b, s')"
    "r = (if b then env_random env else [])"
  using assms unfolding AllocateCash_def by (auto split: if_splits elim!: outcome_elims)

lemma ReceiveCash_cases:
  assumes "ReceiveCash env n p m s = Inr (r, s')"
  obtains b where "save_workflow env n [] (new_incoming_cash env p m) s = Inr (b, s')"
    "r = (if b then env_random env else [])"
  using assms unfolding ReceiveCash_def by (auto split: if_splits elim!: outcome_elims)

lemma new_cash_born:
  "check_workflow (new_outgoing_cash env p) \<Longrightarrow> born (new_outgoing_cash env p)"
  "check_workflow (new_incoming_cash env p m) \<Longrightarrow> born (new_incoming_cash env p m)"
  by (auto simp: born_def seasoned_def initial_state_def new_outgoing_cash_def new_incoming_cash_def
      Let_def blank_workflow_def)

lemma AllocateCash_step:
  assumes inv: "engine_inv s" and fresh: "fresh_id (env_random env) s"
    and op: "AllocateCash env n p s = Inr (r, s')"
  shows "engine_ok s s'"
proof -
  from op obtain b where save: "save_workflow env n [] (new_outgoing_cash env p) s = Inr (b, s')"
    by (rule AllocateCash_cases)
  have "wf_id (new_outgoing_cash env p) = Some (env_random env)"
    by (simp add: new_outgoing_cash_def Let_def)
  from save_new [OF inv fresh this new_cash_born(1) save] show ?thesis by simp
qed

lemma ReceiveCash_step:
  assumes inv: "engine_inv s" and fresh: "fresh_id (env_random env) s"
    and op: "ReceiveCash env n p m s = Inr (r, s')"
  shows "engine_ok s s'"
proof -
  from op obtain b where save: "save_workflow env n [] (new_incoming_cash env p m) s = Inr (b, s')"
    by (rule ReceiveCash_cases)
  have "wf_id (new_incoming_cash env p m) = Some (env_random env)"
    by (simp add: new_incoming_cash_def Let_def)
  from save_new [OF inv fresh this new_cash_born(2) save] show ?thesis by simp
qed

text \<open>
  \<open>SendCash\<close> takes the workflow by its identifier and does not look at its type. The check admits
  the event, which is of version 3, on an outgoing cash workflow only.
\<close>

definition the_cash_event :: "message \<Rightarrow> message option \<Rightarrow> payment_event" where
  "the_cash_event req rep =
     \<lparr>ev_version = Some 3, ev_type = EventConvey,
      ev_item = msg_text req # (case rep of None \<Rightarrow> [] | Some r \<Rightarrow> [msg_text r]),
      ev_time = (case rep of None \<Rightarrow> msg_time req | Some r \<Rightarrow> msg_time r),
      ev_method = TransportOT, ev_transport = Some (msg_notary_id req),
      ev_nym = Some (msg_nym_id2 req),
      ev_success = (case rep of None \<Rightarrow> False | Some r \<Rightarrow> msg_success r)\<rparr>"

lemma send_cash_event_eq:
  "send_cash_event w rcp req rep =
     w\<lparr>wf_state := (if rep \<noteq> None then Conveyed else wf_state w),
       wf_event := wf_event w @ [the_cash_event req rep],
       wf_party := (if wf_party w = [] then [rcp] else wf_party w)\<rparr>"
  by (cases rep) (simp_all add: send_cash_event_def the_cash_event_def Let_def blank_event_def
      event_version_def)

lemma version_fields_ok:
  assumes "wf_version w = Some (workflow_version (wf_type w))" "initial_state (wf_type w) \<noteq> None"
    "check_workflow w"
  shows "fields_ok (workflow_version (wf_type w)) w"
  using assms check_outgoing_cheque [of w] check_incoming_cheque [of w] check_outgoing_transfer [of w]
    check_incoming_transfer [of w] check_internal_transfer [of w] check_outgoing_cash [of w]
    check_incoming_cash [of w]
  by (cases "wf_type w") (auto simp: initial_state_def workflow_version_def)

lemma send_cash_event_type:
  assumes "seasoned w" "check_workflow w" "check_workflow (send_cash_event w rcp req rep)"
    and "wf_state w \<noteq> Expired"
  shows "wf_type w = OutgoingCash \<and> (wf_state w = Unsent \<or> wf_state w = Conveyed)"
proof -
  let ?w' = "send_cash_event w rcp req rep"
  have "fields_ok (workflow_version (wf_type ?w')) ?w'"
    using assms(1,3) by (intro version_fields_ok) (auto simp: seasoned_def send_cash_event_eq)
  then have ev: "event_ok (workflow_version (wf_type w)) (wf_type w) (the_cash_event req rep)"
    by (simp add: fields_ok_def send_cash_event_eq)
  note ver = seasoned_version [OF assms(1)]
  show ?thesis
  proof (cases "wf_type w")
    case OutgoingCash
    with check_outgoing_cash [of w] assms(2,4) ver show ?thesis
      by (cases "wf_state w") (simp_all add: workflow_version_def)
  next
    case IncomingCash
    with check_incoming_cash [of w] check_incoming_cash [of ?w'] assms(2-4) ver show ?thesis
      by (cases "wf_state w"; cases rep)
        (simp_all add: workflow_version_def send_cash_event_eq the_cash_event_def)
  qed (use ev assms(1) in \<open>simp_all add: workflow_version_def event_ok_cases the_cash_event_def
        seasoned_def initial_state_def\<close>)
qed

lemma SendCash_cases:
  assumes "engine_inv s" "SendCash env n rcp i req rep s = Inr (b, s')"
  obtains (same) "s' = s" "\<not> b"
  | (event) w where "engine_get s (n, i) = Some w" "wf_state w \<noteq> Expired"
      "save_workflow env n [] (send_cash_event w rcp req rep) s = Inr (b, s')"
  using assms(2) unfolding SendCash_def
  by (auto simp: get_workflow_by_id_eq [OF assms(1)] split: option.splits if_splits)

lemma SendCash_step:
  assumes inv: "engine_inv s" and op: "SendCash env n rcp i req rep s = Inr (b, s')"
  shows "engine_ok s s'"
  using assms
proof (cases rule: SendCash_cases)
  case (event w)
  have w: "check_workflow w" "seasoned w" using engine_get_inv [OF inv event(1)] by simp_all
  have "evolves w (send_cash_event w rcp req rep)" if "check_workflow (send_cash_event w rcp req rep)"
    using send_cash_event_type [OF w(2,1) that event(2)] that w
    by (auto simp: evolves_def send_cash_event_eq seasoned_def moves_def)
  from save_update [OF inv event(1) this event(3)] show ?thesis by simp
qed (use inv in auto)

end
