(* ===== verification/Workflow_Cheques.thy ===== *)
theory Workflow_Cheques
  imports Workflow_Transfers
begin

text \<open>
  When the cheque operations return: for each, the exact condition under which the workflow it
  builds passes the check that \<open>save_workflow\<close> asserts, and from it the result of the call and
  the workflow that is stored. What an operation receives from outside is assumed to be good:
  identifiers have a plausible length, the storage plugin accepts the write.
\<close>

subsection \<open>Found workflows\<close>

definition tracked :: "engine \<Rightarrow> ident \<Rightarrow> ident \<Rightarrow> ident \<Rightarrow> workflow \<Rightarrow> bool" where
  "tracked s nym src i w \<longleftrightarrow> PaymentWorkflowLookup nym src s = i \<and> engine_get s (nym, i) = Some w"

lemma tracked_inv:
  "engine_inv s \<Longrightarrow> tracked s nym src i w \<Longrightarrow>
     wf_id w = Some i \<and> check_workflow w \<and> seasoned w \<and> plausible i"
  using engine_get_inv unfolding tracked_def by blast

lemma tracked_source:
  assumes "engine_inv s" "tracked s nym src i w"
  shows "get_workflow_by_source ts nym src s = Inr (if wf_type w \<in> set ts then Some w else None)"
proof -
  have "i \<noteq> []" using tracked_inv [OF assms] by auto
  with assms show ?thesis
    by (simp add: tracked_def get_workflow_by_source_def get_workflow_by_id_typed_def get_workflow_by_id_eq)
qed

lemma tracked_notify [simp]: "tracked (notify n s) nym src i w = tracked s nym src i w"
  by (simp add: tracked_def PaymentWorkflowLookup_def)

text \<open>
  What saving does to lookups by source: the sources of the stored workflow lead to it, unless they
  lead to another workflow already.
\<close>

lemma save_workflow_lookup:
  assumes inv: "engine_inv s" and st: "may_store s nym w" and seas: "seasoned w"
    and save: "save_workflow env nym acct w s = Inr (b, s')"
  shows "PaymentWorkflowLookup nym' src s' =
    (let old = PaymentWorkflowLookup nym' src s
     in if nym' = nym \<and> (old = [] \<or> old = the (wf_id w))
        then if src \<in> set (source_ids w) then the (wf_id w) else []
        else old)"
proof -
  from st obtain node i where node: "en_nyms s nym = Some node" and i: "wf_id w = Some i"
    and t: "indexed_type i w node = wf_type w"
    by (auto simp: may_store_def split: option.splits)
  from save have valid: "check_workflow w" and plugin: "env_plugin_ok env"
    using pw_Store_aborts_or_saves [of "env_plugin_ok env" w node]
    by (auto simp: save_workflow_def Let_def outcome_rules storage_Store_def node)
  from engine_invD [OF inv node] valid seas i t obtain node' where
      n: "pw_Store True w node = Inr (True, node')" "\<And>src. pw_sources node' src =
     (case pw_sources node src of
        Some v \<Rightarrow> if v = i then if src \<in> set (source_ids w) then Some i else None else Some v
      | None \<Rightarrow> if src \<in> set (source_ids w) then Some i else None)"
    by (rule pw_Store_node) blast
  have s': "en_nyms s' = (en_nyms s)(nym := Some node')"
    using save n(1) plugin node valid
    by (auto simp: save_workflow_def Let_def outcome_rules storage_Store_def split: if_splits)
  have i_ne: "i \<noteq> []" using check_workflow_id [OF valid] i by auto
  have old: "pw_sources node src = Some v \<Longrightarrow> v \<noteq> []" for v
    using engine_invD [OF inv node] pw_get_plausible [of node v]
    unfolding node_inv_def plausible_def by fastforce
  show ?thesis
  proof (cases "nym' = nym")
    case False
    then show ?thesis by (simp add: PaymentWorkflowLookup_def s')
  next
    case True
    show ?thesis
    proof (cases "pw_sources node src")
      case None
      with True i_ne n(2) [of src] node i show ?thesis
        by (simp add: PaymentWorkflowLookup_def pw_LookupBySource_def s')
    next
      case (Some v)
      with True old [of v] i_ne n(2) [of src] node i show ?thesis
        by (simp add: PaymentWorkflowLookup_def pw_LookupBySource_def s')
    qed
  qed
qed

lemma PaymentWorkflowLookup_nyms:
  "en_nyms s' = en_nyms s \<Longrightarrow> PaymentWorkflowLookup nym src s' = PaymentWorkflowLookup nym src s"
  by (simp add: PaymentWorkflowLookup_def)

lemma tracked_nyms: "en_nyms s' = en_nyms s \<Longrightarrow> tracked s' nym src i w = tracked s nym src i w"
  using engine_get_nyms [of s' s] by (simp add: tracked_def PaymentWorkflowLookup_def)

text \<open>A workflow stays where its source leads when it is replaced by what it evolves into.\<close>

lemma save_tracked:
  assumes inv: "engine_inv s" and tr: "tracked s nym src i w" and ev: "evolves w w'"
    and save: "save_workflow env nym acct w' s = Inr (b, s')"
  shows "tracked s' nym src i w'"
proof -
  have get: "engine_get s (nym, i) = Some w" and look: "PaymentWorkflowLookup nym src s = i"
    using tr by (simp_all add: tracked_def)
  note f = tracked_inv [OF inv tr]
  have id: "wf_id w' = Some i" and seas: "seasoned w'" and srcs: "source_ids w' = source_ids w"
    using ev f by (simp_all add: evolves_def source_ids_def)
  have st: "may_store s nym w'"
    by (rule may_store_update [OF inv get id]) (use ev in \<open>simp_all add: evolves_def\<close>)
  have "src \<in> set (source_ids w)"
  proof -
    obtain node where node: "en_nyms s nym = Some node" "pw_get i node = Some w"
      using get by (auto simp: engine_get_def split: option.splits)
    moreover have "pw_sources node src = Some i"
      using look node f
      by (cases "pw_sources node src") (auto simp: PaymentWorkflowLookup_def pw_LookupBySource_def plausible_def)
    ultimately show ?thesis using engine_invD [OF inv node(1)] unfolding node_inv_def by (metis option.inject)
  qed
  then show ?thesis
    using save_workflow_lookup [OF inv st seas save, of nym src]
      save_workflow_Inr(4) [OF inv st seas save] look id srcs
    by (simp add: tracked_def)
qed

definition good_message :: "message \<Rightarrow> bool" where
  "good_message m \<longleftrightarrow> plausible (msg_notary_id m) \<and> (msg_nym_id2 m = [] \<or> plausible (msg_nym_id2 m))"

subsection \<open>Events of outgoing cheques\<close>

lemma cheque_event_ok:
  assumes "good_message req"
  shows "event_ok 1 OutgoingCheque (the_cheque_event EventConvey 1 req rep)"
    "event_ok 1 OutgoingCheque (the_cheque_event EventCancel 1 req rep)"
    "event_ok 1 OutgoingCheque (the_cheque_event EventComplete 1 req rep)"
    "event_ok 1 IncomingCheque (the_cheque_event EventAccept 1 req rep)"
  using assms
  by (auto simp: event_ok_1 the_cheque_event_def event_field_checks good_message_def)

lemma outgoing_event_check:
  assumes "check_workflow w" "seasoned w" "wf_type w = OutgoingCheque" "good_message req"
    and "t \<in> {EventConvey, EventCancel, EventComplete}"
  shows "check_workflow (with_cheque_event env w st t 1 req rep []) \<longleftrightarrow>
     outgoing_cheque_1 (if cheque_deposit_success rep then st else wf_state w)
       (event_count (wf_event w @ [the_cheque_event t 1 req rep]))"
proof -
  let ?w' = "with_cheque_event env w st t 1 req rep []"
  have v: "wf_version w = Some 1" using assms(2,3) by (simp add: seasoned_def workflow_version_def)
  have "event_ok 1 OutgoingCheque (the_cheque_event t 1 req rep)"
    using cheque_event_ok [OF assms(4)] assms(5) by blast
  moreover have "check_workflow ?w' \<longleftrightarrow> fields_ok 1 ?w' \<and> length (wf_party ?w') = 1
     \<and> CHECK_IDENTIFIER (wf_notary ?w') \<and> length (wf_account ?w') = 1 \<and> length (wf_unit ?w') = 1
     \<and> outgoing_cheque_1 (wf_state ?w') (event_count (wf_event ?w'))"
    by (rule check_outgoing_cheque) (use v assms(3) in \<open>simp_all add: with_cheque_event_def\<close>)
  ultimately show ?thesis
    using outgoing_cheque_check [OF assms(1-3)] assms(3)
    by (auto simp: with_cheque_event_def fields_ok_def)
qed

lemma the_cheque_event_type [simp]: "ev_type (the_cheque_event t v req rep) = t"
  by (simp add: the_cheque_event_def)

text \<open>The event may be recorded: from every state for a send, an expiry of the conditions below.\<close>

lemma send_check:
  assumes "check_workflow w" "seasoned w" "wf_type w = OutgoingCheque" "good_message req"
    and "wf_state w = Unsent"
  shows "check_workflow (with_cheque_event env w Conveyed EventConvey 1 req rep [])"
  using outgoing_event_check [OF assms(1-4), of EventConvey] outgoing_cheque_check [OF assms(1-3)] assms(5)
  by simp

lemma cancel_check:
  assumes "check_workflow w" "seasoned w" "wf_type w = OutgoingCheque" "good_message req"
    and "wf_state w = Unsent \<or> wf_state w = Conveyed"
  shows "check_workflow (with_cheque_event env w Cancelled EventCancel 1 req rep []) \<longleftrightarrow>
     cheque_deposit_success rep \<or> wf_state w = Conveyed"
  using outgoing_event_check [OF assms(1-4), of EventCancel] outgoing_cheque_check [OF assms(1-3)] assms(5)
    unsent_cheque_no_accept [OF assms(1-3)]
  by (auto split: if_splits)

lemma finish_check:
  assumes "check_workflow w" "seasoned w" "wf_type w = OutgoingCheque" "good_message req"
    and "wf_state w = Accepted"
  shows "check_workflow (with_cheque_event env w Completed EventComplete 1 req rep [])"
  using outgoing_event_check [OF assms(1-4), of EventComplete] outgoing_cheque_check [OF assms(1-3)] assms(5)
  by simp

subsection \<open>Outgoing cheques\<close>

lemma add_cheque_event_run:
  assumes inv: "engine_inv s" and tr: "tracked s nym src i w"
    and t: "t \<in> {EventCancel, EventComplete, EventConvey, EventAccept}"
    and ev: "evolves w (with_cheque_event env w st t v req rep acct)"
    and plugin: "env_plugin_ok env"
  obtains s' where
    "add_cheque_event env nym w st t v req rep acct s =
       Inr ((True, with_cheque_event env w st t v req rep acct), s')"
    "engine_inv s'" "tracked s' nym src i (with_cheque_event env w st t v req rep acct)"
    "engine_get s' = (engine_get s)((nym, i) := Some (with_cheque_event env w st t v req rep acct))"
proof -
  let ?w' = "with_cheque_event env w st t v req rep acct"
  have get: "engine_get s (nym, i) = Some w" using tr by (simp add: tracked_def)
  have "may_store s nym ?w'" "seasoned ?w'" "check_workflow ?w'"
    using ev may_store_update [OF inv get] engine_get_inv [OF inv get] by (auto simp: evolves_def)
  from save_workflow_total [OF inv this plugin] obtain s' where
      save: "save_workflow env nym acct ?w' s = Inr (True, s')" by blast
  have "add_cheque_event env nym w st t v req rep acct s = Inr ((True, ?w'), s')"
    using save t by (auto simp: add_cheque_event_def cheque_event_eq)
  with that save_update [OF inv get ev save] save_tracked [OF inv tr ev save] show thesis
    by (simp add: engine_ok_def)
qed

lemma add_cheque_event_aborts:
  assumes "t \<in> {EventCancel, EventComplete, EventConvey, EventAccept}"
    and "\<not> check_workflow (with_cheque_event env w st t v req rep acct)"
  shows "aborts (add_cheque_event env nym w st t v req rep acct s)"
  using assms by (auto simp: add_cheque_event_def cheque_event_eq save_workflow_def)

lemma SendCheque_run:
  assumes inv: "engine_inv s" and c: "isCheque c"
    and w: "tracked s (ch_sender_nym c) (ch_id c) i w" "wf_type w = OutgoingCheque" "wf_state w = Unsent"
    and good: "good_message req" "env_plugin_ok env"
  shows "\<exists>s'. SendCheque env c req rep s = Inr (True, s') \<and> engine_inv s' \<and>
    tracked s' (ch_sender_nym c) (ch_id c) i (with_cheque_event env w Conveyed EventConvey 1 req rep []) \<and>
    engine_get s' = (engine_get s)((ch_sender_nym c, i) :=
      Some (with_cheque_event env w Conveyed EventConvey 1 req rep []))"
proof -
  note f = tracked_inv [OF inv w(1)]
  have chk: "check_workflow (with_cheque_event env w Conveyed EventConvey 1 req rep [])"
    using send_check f w good by blast
  have ev: "evolves w (with_cheque_event env w Conveyed EventConvey 1 req rep [])"
    by (rule with_cheque_event_evolves)
      (use w f chk unsent_cheque_no_accept in \<open>simp_all add: moves_def\<close>)
  show ?thesis
    by (rule add_cheque_event_run [OF inv w(1) _ ev good(2)])
      (use c w in \<open>auto simp: SendCheque_def Let_def tracked_source [OF inv w(1)] event_version_def\<close>)
qed

lemma CancelCheque_run:
  assumes inv: "engine_inv s" and c: "isCheque c"
    and w: "tracked s (ch_sender_nym c) (ch_id c) i w" "wf_type w = OutgoingCheque"
      "wf_state w = Conveyed \<or> wf_state w = Unsent \<and> cheque_deposit_success rep"
    and good: "good_message req" "env_plugin_ok env"
  shows "\<exists>s'. CancelCheque env c req rep s = Inr (True, s') \<and> engine_inv s' \<and>
    tracked s' (ch_sender_nym c) (ch_id c) i (with_cheque_event env w Cancelled EventCancel 1 req rep []) \<and>
    engine_get s' = (engine_get s)((ch_sender_nym c, i) :=
      Some (with_cheque_event env w Cancelled EventCancel 1 req rep []))"
proof -
  note f = tracked_inv [OF inv w(1)]
  have chk: "check_workflow (with_cheque_event env w Cancelled EventCancel 1 req rep [])"
    using cancel_check f w good by blast
  have ev: "evolves w (with_cheque_event env w Cancelled EventCancel 1 req rep [])"
    by (rule with_cheque_event_evolves) (use w f chk in \<open>auto simp: moves_def\<close>)
  show ?thesis
    by (rule add_cheque_event_run [OF inv w(1) _ ev good(2)])
      (use c w in \<open>auto simp: CancelCheque_def Let_def tracked_source [OF inv w(1)] event_version_def\<close>)
qed

lemma CancelCheque_aborts:
  assumes inv: "engine_inv s" and c: "isCheque c"
    and w: "tracked s (ch_sender_nym c) (ch_id c) i w" "wf_type w = OutgoingCheque" "wf_state w = Unsent"
    and fail: "\<not> cheque_deposit_success rep" and good: "good_message req"
  shows "aborts (CancelCheque env c req rep s)"
proof -
  have "\<not> check_workflow (with_cheque_event env w Cancelled EventCancel 1 req rep [])"
    using cancel_check [of w req env rep] tracked_inv [OF inv w(1)] w fail good by simp
  then have "aborts (add_cheque_event env (ch_sender_nym c) w Cancelled EventCancel 1 req rep [] s)"
    by (intro add_cheque_event_aborts) auto
  with c w show ?thesis
    by (simp add: CancelCheque_def Let_def tracked_source [OF inv w(1)] event_version_def)
qed

lemma FinishCheque_run:
  assumes inv: "engine_inv s" and c: "isCheque c"
    and w: "tracked s (ch_sender_nym c) (ch_id c) i w" "wf_type w = OutgoingCheque" "wf_state w = Accepted"
    and good: "good_message req" "env_plugin_ok env"
  shows "\<exists>s'. FinishCheque env c req rep s = Inr (True, s') \<and> engine_inv s' \<and>
    tracked s' (ch_sender_nym c) (ch_id c) i (with_cheque_event env w Completed EventComplete 1 req rep []) \<and>
    engine_get s' = (engine_get s)((ch_sender_nym c, i) :=
      Some (with_cheque_event env w Completed EventComplete 1 req rep []))"
proof -
  note f = tracked_inv [OF inv w(1)]
  have chk: "check_workflow (with_cheque_event env w Completed EventComplete 1 req rep [])"
    using finish_check f w good by blast
  have ev: "evolves w (with_cheque_event env w Completed EventComplete 1 req rep [])"
    by (rule with_cheque_event_evolves) (use w f chk in \<open>auto simp: moves_def\<close>)
  show ?thesis
    by (rule add_cheque_event_run [OF inv w(1) _ ev good(2)])
      (use c w in \<open>auto simp: FinishCheque_def Let_def tracked_source [OF inv w(1)] event_version_def\<close>)
qed

text \<open>The receipt of a deposit.\<close>

lemma clear_cheque_event_eq:
  "clear_cheque_event w st t v r receipt time =
     w\<lparr>wf_state := st,
       wf_event := wf_event w @
         [\<lparr>ev_version = Some v, ev_type = t, ev_item = [tx_text receipt], ev_time = time,
           ev_method = TransportOT, ev_transport = Some (tx_real_notary receipt), ev_nym = Some r,
           ev_success = True\<rparr>],
       wf_party := (if wf_party w = [] then [r] else wf_party w)\<rparr>"
  by (simp add: clear_cheque_event_def Let_def blank_event_def)

lemma clear_check:
  assumes "check_workflow w" "seasoned w" "wf_type w = OutgoingCheque"
    and "plausible r" "plausible (tx_real_notary receipt)"
    and "wf_state w = Expired \<or> wf_state w = Conveyed"
  shows "check_workflow (clear_cheque_event w Accepted EventAccept 1 r receipt time) \<longleftrightarrow>
     event_count (wf_event w) EventConvey \<noteq> 0"
proof -
  let ?w' = "clear_cheque_event w Accepted EventAccept 1 r receipt time"
  have v: "wf_version w = Some 1" using assms(2,3) by (simp add: seasoned_def workflow_version_def)
  have "check_workflow ?w' \<longleftrightarrow> fields_ok 1 ?w' \<and> length (wf_party ?w') = 1
     \<and> CHECK_IDENTIFIER (wf_notary ?w') \<and> length (wf_account ?w') = 1 \<and> length (wf_unit ?w') = 1
     \<and> outgoing_cheque_1 (wf_state ?w') (event_count (wf_event ?w'))"
    by (rule check_outgoing_cheque) (use v assms(3) in \<open>simp_all add: clear_cheque_event_eq\<close>)
  moreover have "event_ok 1 OutgoingCheque \<lparr>ev_version = Some 1, ev_type = EventAccept,
      ev_item = [tx_text receipt], ev_time = time, ev_method = TransportOT,
      ev_transport = Some (tx_real_notary receipt), ev_nym = Some r, ev_success = True\<rparr>"
    using assms(4,5) by (simp add: event_ok_1 event_field_checks)
  ultimately show ?thesis
    using outgoing_cheque_check [OF assms(1-3)] assms(3,6)
    by (cases "wf_party w") (auto simp: clear_cheque_event_eq fields_ok_def)
qed

text \<open>What \<open>update_rpc\<close> needs of its arguments to build a push message that passes the check.\<close>

definition rpc_ok :: "wf_env \<Rightarrow> ident \<Rightarrow> ident \<Rightarrow> ident \<Rightarrow> account_event_type \<Rightarrow> bool" where
  "rpc_ok env local remote account t \<longleftrightarrow>
     plausible local \<and> (account = [] \<or> plausible account)
     \<and> (t = AccountOutgoingCheque \<or> t = AccountOutgoingTransfer \<or> t = AccountIncomingCheque
        \<or> t = AccountIncomingTransfer)
     \<and> (if t = AccountOutgoingCheque \<or> t = AccountOutgoingTransfer
        then remote = [] \<or> env_nym_to_contact env remote = [] \<or> plausible (env_nym_to_contact env remote)
        else remote \<noteq> [] \<and> plausible (env_nym_to_contact env remote))"

lemma update_rpc_run:
  assumes "rpc_ok env l r a t" "plausible i"
  obtains s' where "update_rpc env l r a t i am p tm m s = Inr s'" "en_nyms s' = en_nyms s"
proof -
  have "\<exists>s'. update_rpc env l r a t i am p tm m s = Inr s'"
    using assms
    by (cases "r = []") (auto simp: rpc_ok_def update_rpc_def Let_def rpc_push_1_def CHECK_SUBOBJECT_def
        RPCPushAllowedAccountEvent_def account_event_1_def split: account_event_type.splits if_splits)
  with update_rpc_nyms that show thesis by blast
qed

lemma ClearCheque_run:
  assumes inv: "engine_inv s" and c: "env_receipt_cheque env receipt = Some c" "isCheque c"
    and w: "tracked s (ch_sender_nym c) (ch_id c) i w" "wf_type w = OutgoingCheque"
      "wf_state w = Conveyed \<or> wf_state w = Expired \<and> event_count (wf_event w) EventConvey \<noteq> 0"
    and good: "plausible r" "plausible (tx_real_notary receipt)" "env_plugin_ok env"
      "rpc_ok env (ch_sender_nym c) (ch_recipient_nym c) (SourceAccountID c) AccountOutgoingCheque"
  shows "\<exists>s'. ClearCheque env r receipt s = Inr (True, s') \<and> engine_inv s' \<and>
    tracked s' (ch_sender_nym c) (ch_id c) i
      (clear_cheque_event w Accepted EventAccept 1 r receipt (env_now env)) \<and>
    engine_get s' = (engine_get s)((ch_sender_nym c, i) :=
      Some (clear_cheque_event w Accepted EventAccept 1 r receipt (env_now env)))"
proof -
  let ?w' = "clear_cheque_event w Accepted EventAccept 1 r receipt (env_now env)"
  have get: "engine_get s (ch_sender_nym c, i) = Some w" using w(1) by (simp add: tracked_def)
  note f = tracked_inv [OF inv w(1)]
  have conveyed: "event_count (wf_event w) EventConvey \<noteq> 0"
    using outgoing_cheque_check [of w] f w(2,3) by auto
  have chk: "check_workflow ?w'"
    using clear_check [of w r receipt] f w good conveyed by blast
  have ev: "evolves w ?w'"
    using f w chk by (auto simp: evolves_def seasoned_def clear_cheque_event_eq moves_def)
  have acct: "length (wf_account w) = 1" and party: "length (wf_party w) = 1"
    using outgoing_cheque_check [of w] f w(2) by simp_all
  have "may_store s (ch_sender_nym c) ?w'" "seasoned ?w'"
    using may_store_update [OF inv get] ev f by (auto simp: evolves_def)
  from save_workflow_total [OF inv this chk good(3)] obtain s1 where
      save: "save_workflow env (ch_sender_nym c) (hd (wf_account w)) ?w' s = Inr (True, s1)" by blast
  note st = save_update [OF inv get ev save] save_tracked [OF inv w(1) ev save]
  obtain s' where rpc: "update_rpc env (ch_sender_nym c) (ch_recipient_nym c) (SourceAccountID c)
      AccountOutgoingCheque i (- 1 * ch_amount c) 0 (env_now env) (ch_memo c) s1 = Inr s'"
      "en_nyms s' = en_nyms s1"
    using update_rpc_run [OF good(4)] f by blast
  have "r \<noteq> []" using good(1) by auto
  then have "ClearCheque env r receipt s = Inr (True, s')"
    using c w f acct party save rpc(1)
    by (auto simp: ClearCheque_def Let_def tracked_source [OF inv w(1)] event_version_def
        add_cheque_event_receipt_def)
  with st engine_inv_nyms [OF rpc(2)] engine_get_nyms [OF rpc(2)] tracked_nyms [OF rpc(2)] show ?thesis
    by (auto simp: engine_ok_def)
qed

lemma ClearCheque_aborts:
  assumes inv: "engine_inv s" and c: "env_receipt_cheque env receipt = Some c" "isCheque c"
    and w: "tracked s (ch_sender_nym c) (ch_id c) i w" "wf_type w = OutgoingCheque" "wf_state w = Expired"
      "event_count (wf_event w) EventConvey = 0"
    and good: "plausible r" "plausible (tx_real_notary receipt)"
  shows "aborts (ClearCheque env r receipt s)"
proof -
  note f = tracked_inv [OF inv w(1)]
  have "\<not> check_workflow (clear_cheque_event w Accepted EventAccept 1 r receipt (env_now env))"
    using clear_check [of w r receipt] f w good by simp
  then have "aborts (save_workflow env n a (clear_cheque_event w Accepted EventAccept 1 r receipt (env_now env)) s)"
    for n a by (rule save_workflow_invalid)
  moreover have "r \<noteq> []" "length (wf_account w) = 1"
    using good(1) outgoing_cheque_check [of w] f w(2) by auto
  ultimately show ?thesis
    using c w f
    by (simp add: ClearCheque_def Let_def tracked_source [OF inv w(1)] event_version_def
        add_cheque_event_receipt_def)
qed

subsection \<open>Expiry\<close>

lemma incoming_cheque_check:
  assumes "check_workflow w" "seasoned w" "wf_type w = IncomingCheque"
  shows "fields_ok 1 w \<and> length (wf_party w) = 1 \<and> OPTIONAL_IDENTIFIER (wf_notary w)
     \<and> length (wf_unit w) = 1
     \<and> incoming_cheque_1 (wf_state w) (wf_notary w) (length (wf_account w)) (event_count (wf_event w))"
  using assms check_incoming_cheque [of w] by (simp add: seasoned_version workflow_version_def)

lemma expire_check:
  assumes "check_workflow w" "seasoned w"
    and "wf_type w = OutgoingCheque \<and> (wf_state w = Unsent \<or> wf_state w = Conveyed)
         \<or> wf_type w = IncomingCheque \<and> wf_state w = Conveyed"
  shows "check_workflow (w\<lparr>wf_state := Expired\<rparr>)"
  using assms outgoing_cheque_check [OF assms(1,2)] incoming_cheque_check [OF assms(1,2)]
    unsent_cheque_no_accept [OF assms(1,2)] check_outgoing_cheque [of "w\<lparr>wf_state := Expired\<rparr>"]
    check_incoming_cheque [of "w\<lparr>wf_state := Expired\<rparr>"]
  by (auto simp: seasoned_version workflow_version_def fields_ok_def)

lemma ExpireCheque_run:
  assumes inv: "engine_inv s" and c: "isCheque c" "ch_valid_to c \<le> env_now env"
    and w: "tracked s n (ch_id c) i w"
      "wf_type w = OutgoingCheque \<and> (wf_state w = Unsent \<or> wf_state w = Conveyed)
       \<or> wf_type w = IncomingCheque \<and> wf_state w = Conveyed"
    and plugin: "env_plugin_ok env"
  shows "\<exists>s'. ExpireCheque env n c s = Inr (True, s') \<and> engine_inv s' \<and>
    tracked s' n (ch_id c) i (w\<lparr>wf_state := Expired\<rparr>) \<and>
    engine_get s' = (engine_get s)((n, i) := Some (w\<lparr>wf_state := Expired\<rparr>))"
proof -
  let ?w' = "w\<lparr>wf_state := Expired\<rparr>"
  have get: "engine_get s (n, i) = Some w" using w(1) by (simp add: tracked_def)
  note f = tracked_inv [OF inv w(1)]
  have chk: "check_workflow ?w'" using expire_check f w(2) by blast
  have ev: "evolves w ?w'"
    using f w chk by (auto simp: evolves_def seasoned_def moves_def intro!: exI [of _ "[]"])
  have "may_store s n ?w'" "seasoned ?w'"
    using may_store_update [OF inv get] ev f by (auto simp: evolves_def)
  from save_workflow_total [OF inv this chk plugin] obtain s' where
      save: "save_workflow env n (ch_sender_account c) ?w' s = Inr (True, s')" by blast
  moreover have "ExpireCheque env n c s = Inr (True, s')"
    using c w(2) save
    by (auto simp: ExpireCheque_def tracked_source [OF inv w(1)] can_expire_cheque_def Let_def)
  ultimately show ?thesis
    using save_update [OF inv get ev save] save_tracked [OF inv w(1) ev save] by (auto simp: engine_ok_def)
qed

subsection \<open>New workflows\<close>

lemma save_new_run:
  assumes inv: "engine_inv s" and fresh: "fresh_id i s" and id: "wf_id w = Some i" and born: "born w"
    and plugin: "env_plugin_ok env" and nym: "en_nyms s nym \<noteq> None"
  obtains s' where "save_workflow env nym acct w s = Inr (True, s')" "engine_inv s'"
    "engine_get s' = (engine_get s)((nym, i) := Some w)"
    "\<And>src. src \<in> set (source_ids w) \<Longrightarrow> PaymentWorkflowLookup nym src s = [] \<Longrightarrow> tracked s' nym src i w"
    "\<And>src j w'. tracked s nym src j w' \<Longrightarrow> tracked s' nym src j w'"
proof -
  obtain node where node: "en_nyms s nym = Some node" using nym by auto
  have st: "may_store s nym w" by (rule may_store_fresh [OF fresh id node inv])
  have seas: "seasoned w" and chk: "check_workflow w" using born by (simp_all add: born_def)
  from save_workflow_total [OF inv st seas chk plugin] obtain s' where
      save: "save_workflow env nym acct w s = Inr (True, s')" by blast
  note r = save_new [OF inv fresh id born save]
  show thesis
  proof (rule that [OF save])
    show "engine_inv s'" using r by (simp add: engine_ok_def)
    show "engine_get s' = (engine_get s)((nym, i) := Some w)" using r by simp
    show "tracked s' nym src i w"
      if "src \<in> set (source_ids w)" "PaymentWorkflowLookup nym src s = []" for src
      using that r id save_workflow_lookup [OF inv st seas save, of nym src]
      by (simp add: tracked_def)
    show "tracked s' nym src j w'" if "tracked s nym src j w'" for src j w'
    proof -
      have "j \<noteq> i" "j \<noteq> []" using that r tracked_inv [OF inv that] by (auto simp: tracked_def)
      with that r id save_workflow_lookup [OF inv st seas save, of nym src] show ?thesis
        by (simp add: tracked_def)
    qed
  qed
qed

definition good_cheque :: "cheque \<Rightarrow> bool" where
  "good_cheque c \<longleftrightarrow> isCheque c \<and> plausible (ch_id c) \<and> plausible (ch_unit c) \<and> plausible (ch_sender_nym c)"

lemma first_cheque_sources [simp]: "source_ids (first_cheque env c ty st v sv ev party acct msg) = [ch_id c]"
  by (simp add: first_cheque_def source_ids_def)

lemma first_cheque_fields [simp]:
  "wf_id (first_cheque env c ty st v sv ev party acct msg) = Some (env_random env)"
  "wf_type (first_cheque env c ty st v sv ev party acct msg) = ty"
  "wf_state (first_cheque env c ty st v sv ev party acct msg) = st"
  "wf_version (first_cheque env c ty st v sv ev party acct msg) = Some v"
  by (simp_all add: first_cheque_def)

lemma write_check:
  assumes "good_cheque c" "plausible (env_random env)" "plausible acct" "plausible (env_account_server env acct)"
  shows "check_workflow (first_cheque env c OutgoingCheque Unsent 1 1 1 party acct None) \<longleftrightarrow> plausible party"
proof -
  let ?w = "first_cheque env c OutgoingCheque Unsent 1 1 1 party acct None"
  have "acct \<noteq> []" using assms(3) by auto
  moreover have "check_workflow ?w \<longleftrightarrow> fields_ok 1 ?w \<and> length (wf_party ?w) = 1
     \<and> CHECK_IDENTIFIER (wf_notary ?w) \<and> length (wf_account ?w) = 1 \<and> length (wf_unit ?w) = 1
     \<and> outgoing_cheque_1 (wf_state ?w) (event_count (wf_event ?w))"
    by (rule check_outgoing_cheque) simp_all
  ultimately show ?thesis
    using assms
    by (cases "party = []")
      (auto simp: first_cheque_def fields_ok_def good_cheque_def source_ok_def event_ok_1 event_field_checks)
qed

lemma receive_check:
  assumes "good_cheque c" "plausible (env_random env)"
    and "case msg of None \<Rightarrow> True | Some m \<Rightarrow> plausible (msg_notary_id m)"
  shows "check_workflow (first_cheque env c IncomingCheque Conveyed 1 1 1 (ch_sender_nym c) [] msg)"
proof -
  let ?w = "first_cheque env c IncomingCheque Conveyed 1 1 1 (ch_sender_nym c) [] msg"
  have "check_workflow ?w \<longleftrightarrow> fields_ok 1 ?w \<and> length (wf_party ?w) = 1 \<and> OPTIONAL_IDENTIFIER (wf_notary ?w)
     \<and> length (wf_unit ?w) = 1
     \<and> incoming_cheque_1 (wf_state ?w) (wf_notary ?w) (length (wf_account ?w)) (event_count (wf_event ?w))"
    by (rule check_incoming_cheque) simp_all
  then show ?thesis
    using assms
    by (cases "ch_sender_nym c = []"; cases msg)
      (auto simp: first_cheque_def fields_ok_def good_cheque_def source_ok_def event_ok_1 event_field_checks)
qed

lemma WriteCheque_run:
  assumes inv: "engine_inv s" and fresh: "fresh_id (env_random env) s" and c: "good_cheque c"
    and none: "PaymentWorkflowLookup (ch_sender_nym c) (ch_id c) s = []"
    and rcp: "ch_has_recipient c" "plausible (ch_recipient_nym c)" "env_contact_id env (ch_recipient_nym c) \<noteq> []"
    and env: "plausible (env_random env)" "plausible (ch_sender_account c)"
      "plausible (env_account_server env (ch_sender_account c))" "env_plugin_ok env"
      "rpc_ok env (ch_sender_nym c) (ch_recipient_nym c) (SourceAccountID c) AccountOutgoingCheque"
    and nym: "en_nyms s (ch_sender_nym c) \<noteq> None"
  shows "\<exists>s'. WriteCheque env c s = Inr (env_random env, s') \<and> engine_inv s' \<and>
    tracked s' (ch_sender_nym c) (ch_id c) (env_random env)
      (first_cheque env c OutgoingCheque Unsent 1 1 1 (ch_recipient_nym c) (ch_sender_account c) None) \<and>
    engine_get s' = (engine_get s)((ch_sender_nym c, env_random env) :=
      Some (first_cheque env c OutgoingCheque Unsent 1 1 1 (ch_recipient_nym c) (ch_sender_account c) None))"
proof -
  let ?w = "first_cheque env c OutgoingCheque Unsent 1 1 1 (ch_recipient_nym c) (ch_sender_account c) None"
  have "check_workflow ?w" using write_check [of c env "ch_sender_account c"] c env rcp by simp
  then have born: "born ?w"
    using first_cheque_born [of OutgoingCheque Unsent env c]
    by (simp add: workflow_version_def initial_state_def)
  from save_new_run [OF inv fresh first_cheque_fields(1) born env(4) nym] obtain s1 where
      save: "save_workflow env (ch_sender_nym c) (ch_sender_account c) ?w s = Inr (True, s1)" "engine_inv s1"
      "engine_get s1 = (engine_get s)((ch_sender_nym c, env_random env) := Some ?w)"
      "tracked s1 (ch_sender_nym c) (ch_id c) (env_random env) ?w"
    using none by (metis first_cheque_sources list.set_intros(1))
  obtain s' where rpc: "update_rpc env (ch_sender_nym c) (ch_recipient_nym c) (SourceAccountID c)
      AccountOutgoingCheque (env_random env) 0 (- 1 * ch_amount c) (env_now env) (ch_memo c)
      (snd (update_activity env (ch_sender_nym c) (ch_recipient_nym c) (ch_id c) (env_random env)
         BoxOutgoingCheque (env_now env) s1)) = Inr s'" "en_nyms s' = en_nyms s1"
    using update_rpc_run [OF env(5,1)] by (metis update_activity_nyms)
  have t0: "ev_time (hd (wf_event ?w)) = env_now env" "wf_event ?w \<noteq> []"
    by (simp_all add: first_cheque_def)
  have "env_random env \<noteq> []" using env(1) by auto
  then have "WriteCheque env c s = Inr (env_random env, s')"
    using c none rcp save(1) rpc(1) t0
    by (simp add: WriteCheque_def Let_def good_cheque_def get_workflow_by_source_def create_cheque_def
        new_cheque_eq save_workflow_pair_def workflow_version_def source_version_def event_version_def)
  with save engine_inv_nyms [OF rpc(2)] engine_get_nyms [OF rpc(2)] tracked_nyms [OF rpc(2)] show ?thesis
    by auto
qed

text \<open>A cheque without a recipient is refused by the check, which asks for one party.\<close>

lemma WriteCheque_blank_aborts:
  assumes c: "isCheque c" "\<not> ch_has_recipient c"
    and none: "PaymentWorkflowLookup (ch_sender_nym c) (ch_id c) s = []"
  shows "aborts (WriteCheque env c s)"
proof -
  let ?w = "first_cheque env c OutgoingCheque Unsent 1 1 1 [] (ch_sender_account c) None"
  have "\<not> check_workflow ?w"
    using check_outgoing_cheque [of ?w] by (simp add: first_cheque_def)
  then have "aborts (save_workflow env n a ?w s)" for n a by (rule save_workflow_invalid)
  with c none show ?thesis
    by (simp add: WriteCheque_def Let_def get_workflow_by_source_def create_cheque_def
        new_cheque_eq save_workflow_pair_def workflow_version_def source_version_def event_version_def)
qed

lemma receive_cheque_run:
  assumes inv: "engine_inv s" and fresh: "fresh_id (env_random env) s" and c: "good_cheque c"
    and valid: "validate_recipient n c"
    and none: "get_workflow_by_source [IncomingCheque] n (ch_id c) s = Inr None"
    and msg: "case msg of None \<Rightarrow> True | Some m \<Rightarrow> plausible (msg_notary_id m)"
    and env: "plausible (env_random env)" "env_plugin_ok env"
      "rpc_ok env n (ch_sender_nym c) [] AccountIncomingCheque"
    and nym: "en_nyms s n \<noteq> None"
  shows "\<exists>s'. receive_cheque env n c msg s = Inr (env_random env, s') \<and> engine_inv s' \<and>
    (PaymentWorkflowLookup n (ch_id c) s = [] \<longrightarrow> tracked s' n (ch_id c) (env_random env)
      (first_cheque env c IncomingCheque Conveyed 1 1 1 (ch_sender_nym c) [] msg)) \<and>
    (\<forall>j w. tracked s n (ch_id c) j w \<longrightarrow> tracked s' n (ch_id c) j w) \<and>
    engine_get s' = (engine_get s)((n, env_random env) :=
      Some (first_cheque env c IncomingCheque Conveyed 1 1 1 (ch_sender_nym c) [] msg))"
proof -
  let ?w = "first_cheque env c IncomingCheque Conveyed 1 1 1 (ch_sender_nym c) [] msg"
  have "check_workflow ?w" using receive_check [OF c env(1) msg] .
  then have born: "born ?w"
    using first_cheque_born [of IncomingCheque Conveyed env c]
    by (simp add: workflow_version_def initial_state_def)
  obtain s1 where
      save: "save_workflow env n [] ?w s = Inr (True, s1)" "engine_inv s1"
      "engine_get s1 = (engine_get s)((n, env_random env) := Some ?w)"
      "PaymentWorkflowLookup n (ch_id c) s = [] \<longrightarrow> tracked s1 n (ch_id c) (env_random env) ?w"
      "\<forall>j w. tracked s n (ch_id c) j w \<longrightarrow> tracked s1 n (ch_id c) j w"
    by (rule save_new_run [OF inv fresh first_cheque_fields(1) born env(2) nym, of "[]"]) auto
  obtain s' where rpc: "update_rpc env n (ch_sender_nym c) [] AccountIncomingCheque (env_random env)
      0 (ch_amount c) (extract_conveyed_time ?w) (ch_memo c)
      (snd (update_activity env n (ch_sender_nym c) (ch_id c) (env_random env) BoxIncomingCheque
         (extract_conveyed_time ?w) s1)) = Inr s'" "en_nyms s' = en_nyms s1"
    using update_rpc_run [OF env(3,1)] by (metis update_activity_nyms)
  have "env_random env \<noteq> []" using env(1) by auto
  then have "receive_cheque env n c msg s = Inr (env_random env, s')"
    using c valid none save(1) rpc(1)
    by (simp add: receive_cheque_def Let_def good_cheque_def create_cheque_def
        new_cheque_eq save_workflow_pair_def workflow_version_def source_version_def event_version_def)
  with save engine_inv_nyms [OF rpc(2)] engine_get_nyms [OF rpc(2)] tracked_nyms [OF rpc(2)] show ?thesis
    by auto
qed

subsection \<open>Deposits\<close>

lemma deposit_check:
  assumes "check_workflow w" "seasoned w" "wf_type w = IncomingCheque" "wf_state w = Conveyed"
    and "good_message req" "plausible acct" "plausible (env_account_server env acct)"
  shows "check_workflow (with_cheque_event env w Completed EventAccept 1 req rep acct)"
proof -
  let ?w' = "with_cheque_event env w Completed EventAccept 1 req rep acct"
  have v: "wf_version w = Some 1" using assms(2,3) by (simp add: seasoned_def workflow_version_def)
  have "check_workflow ?w' \<longleftrightarrow> fields_ok 1 ?w' \<and> length (wf_party ?w') = 1 \<and> OPTIONAL_IDENTIFIER (wf_notary ?w')
     \<and> length (wf_unit ?w') = 1
     \<and> incoming_cheque_1 (wf_state ?w') (wf_notary ?w') (length (wf_account ?w')) (event_count (wf_event ?w'))"
    by (rule check_incoming_cheque) (use v assms(3) in \<open>simp_all add: with_cheque_event_def\<close>)
  moreover have "event_ok 1 IncomingCheque (the_cheque_event EventAccept 1 req rep)"
    using cheque_event_ok [OF assms(5)] by blast
  moreover have "acct \<noteq> []" using assms(6) by auto
  ultimately show ?thesis
    using incoming_cheque_check [OF assms(1-3)] assms
    by (auto simp: with_cheque_event_def fields_ok_def)
qed

lemma DepositCheque_run:
  assumes inv: "engine_inv s" and c: "isCheque c"
    and w: "tracked s n (ch_id c) i w" "wf_type w = IncomingCheque" "wf_state w = Conveyed"
    and good: "good_message req" "plausible acct" "plausible (env_account_server env acct)"
      "env_plugin_ok env" "rpc_ok env n (ch_sender_nym c) acct AccountIncomingCheque"
  shows "\<exists>s'. DepositCheque env n acct c req rep s = Inr (True, s') \<and> engine_inv s' \<and>
    tracked s' n (ch_id c) i (with_cheque_event env w Completed EventAccept 1 req rep acct) \<and>
    engine_get s' = (engine_get s)((n, i) :=
      Some (with_cheque_event env w Completed EventAccept 1 req rep acct))"
proof -
  let ?w' = "with_cheque_event env w Completed EventAccept 1 req rep acct"
  note f = tracked_inv [OF inv w(1)]
  have chk: "check_workflow ?w'" using deposit_check f w good by blast
  have ev: "evolves w ?w'"
    by (rule with_cheque_event_evolves) (use w f chk in \<open>auto simp: moves_def\<close>)
  obtain s1 where s1: "add_cheque_event env n w Completed EventAccept 1 req rep acct s = Inr ((True, ?w'), s1)"
    "engine_inv s1" "tracked s1 n (ch_id c) i ?w'" "engine_get s1 = (engine_get s)((n, i) := Some ?w')"
    by (rule add_cheque_event_run [OF inv w(1) _ ev good(4)]) auto
  have id: "wf_id ?w' = Some i" using f by (simp add: with_cheque_event_def)
  obtain s2 where rpc: "update_rpc env n (ch_sender_nym c) acct AccountIncomingCheque i (ch_amount c) 0
      (msg_time (the rep)) (ch_memo c) s1 = Inr s2" "en_nyms s2 = en_nyms s1"
    using update_rpc_run [OF good(5)] f by blast
  have "DepositCheque env n acct c req rep s =
      Inr (True, if cheque_deposit_success rep then s2 else s1)"
    using c w s1(1) rpc(1) id
    by (cases rep) (auto simp: DepositCheque_def tracked_source [OF inv w(1)] event_version_def
        cheque_deposit_success_def)
  with s1 engine_inv_nyms [OF rpc(2)] engine_get_nyms [OF rpc(2)] tracked_nyms [OF rpc(2)] show ?thesis
    by auto
qed

text \<open>
  A source that leads to an outgoing cheque hides the incoming one of the same nym: a deposit does
  not find it.
\<close>

lemma DepositCheque_hidden:
  assumes "engine_inv s" "tracked s n (ch_id c) i w" "wf_type w = OutgoingCheque"
  shows "DepositCheque env n acct c req rep s = Inr (False, s)"
  using assms by (simp add: DepositCheque_def tracked_source [OF assms(1,2)])

end
