(* ===== verification/Workflow_Transfer_Runs.thy ===== *)
theory Workflow_Transfer_Runs
  imports Workflow_Cheques
begin

text \<open>
  When the transfer and cash operations return, in the way of \<open>Workflow_Cheques\<close>: the exact
  condition under which the check accepts the workflow with the new event, and the result of the
  call where it does.
\<close>

lemma transfer_event_ok:
  assumes "plausible tr"
  shows "event_ok 2 OutgoingTransfer (the_transfer_event EventAcknowledge 2 txt tr tm True)"
    "event_ok 2 OutgoingTransfer (the_transfer_event EventAbort 2 txt tr tm True)"
    "event_ok 2 OutgoingTransfer (the_transfer_event EventAccept 2 txt tr tm True)"
    "event_ok 2 OutgoingTransfer (the_transfer_event EventComplete 2 txt tr tm True)"
    "event_ok 2 IncomingTransfer (the_transfer_event EventAccept 2 txt tr tm True)"
    "event_ok 2 InternalTransfer (the_transfer_event EventAcknowledge 2 txt tr tm True)"
    "event_ok 2 InternalTransfer (the_transfer_event EventAbort 2 txt tr tm True)"
    "event_ok 2 InternalTransfer (the_transfer_event EventConvey 2 txt tr tm True)"
    "event_ok 2 InternalTransfer (the_transfer_event EventAccept 2 txt tr tm True)"
    "event_ok 2 InternalTransfer (the_transfer_event EventComplete 2 txt tr tm True)"
  using assms by (simp_all add: event_ok_2 the_transfer_event_def event_field_checks)

lemma the_transfer_event_type [simp]: "ev_type (the_transfer_event t v txt tr tm ok) = t"
  by (simp add: the_transfer_event_def)

lemma outgoing_transfer_check:
  assumes "check_workflow w" "seasoned w" "wf_type w = OutgoingTransfer"
  shows "fields_ok 2 w \<and> length (wf_party w) \<le> 1
     \<and> (wf_state w = Accepted \<or> wf_state w = Completed \<longrightarrow> length (wf_party w) = 1)
     \<and> CHECK_IDENTIFIER (wf_notary w) \<and> length (wf_account w) = 1 \<and> length (wf_unit w) = 1
     \<and> outgoing_transfer_2 (wf_state w) (event_count (wf_event w))"
  using assms check_outgoing_transfer [of w] by (simp add: seasoned_version workflow_version_def)

lemma incoming_transfer_check:
  assumes "check_workflow w" "seasoned w" "wf_type w = IncomingTransfer"
  shows "fields_ok 2 w \<and> length (wf_party w) = 1
     \<and> CHECK_IDENTIFIER (wf_notary w) \<and> length (wf_account w) = 1 \<and> length (wf_unit w) = 1
     \<and> incoming_transfer_2 (wf_state w) (event_count (wf_event w))"
  using assms check_incoming_transfer [of w] by (simp add: seasoned_version workflow_version_def)

subsection \<open>Which events the check accepts\<close>

lemma outgoing_transfer_event_check:
  assumes "check_workflow w" "seasoned w" "wf_type w = OutgoingTransfer" "plausible tr"
    and "nym = [] \<or> plausible nym"
    and "(wf_state w, t, st) \<in> {(Initiated, EventAcknowledge, Acknowledged), (Initiated, EventAbort, Aborted),
       (Acknowledged, EventAccept, Accepted), (Accepted, EventComplete, Completed)}"
    and "st = Accepted \<Longrightarrow> nym \<noteq> []"
  shows "check_workflow (with_transfer_event w nym st t 2 txt tr tm True)"
proof -
  let ?w' = "with_transfer_event w nym st t 2 txt tr tm True"
  have v: "wf_version ?w' = Some 2" "wf_type ?w' = OutgoingTransfer"
    using assms(2,3) by (simp_all add: seasoned_def workflow_version_def with_transfer_event_def)
  have "event_ok 2 OutgoingTransfer (the_transfer_event t 2 txt tr tm True)"
    using transfer_event_ok [OF assms(4)] assms(6) by auto
  then show ?thesis
    unfolding check_outgoing_transfer [OF v]
    using outgoing_transfer_check [OF assms(1-3)] assms(3,5-)
    by (cases "wf_party w") (auto simp: with_transfer_event_def fields_ok_def)
qed

lemma incoming_transfer_event_check:
  assumes "check_workflow w" "seasoned w" "wf_type w = IncomingTransfer" "plausible tr"
    and "wf_state w = Conveyed"
  shows "check_workflow (with_transfer_event w nym Completed EventAccept 2 txt tr tm True)"
proof -
  let ?w' = "with_transfer_event w nym Completed EventAccept 2 txt tr tm True"
  have v: "wf_version ?w' = Some 2" "wf_type ?w' = IncomingTransfer"
    using assms(2,3) by (simp_all add: seasoned_def workflow_version_def with_transfer_event_def)
  show ?thesis
    unfolding check_incoming_transfer [OF v]
    using incoming_transfer_check [OF assms(1-3)] assms(3,5) transfer_event_ok [OF assms(4)]
    by (cases "wf_party w = []") (auto simp: with_transfer_event_def fields_ok_def)
qed

text \<open>
  For an internal transfer the two events whose order is open, the acknowledgement and the
  conveyance, must each occur once before the transfer is cleared.
\<close>

lemma internal_transfer_event_check:
  assumes "check_workflow w" "seasoned w" "wf_type w = InternalTransfer" "plausible tr"
    and "(wf_state w, t, st) \<in> {(Initiated, EventAcknowledge, Acknowledged), (Initiated, EventAbort, Aborted),
       (Initiated, EventConvey, Conveyed), (Acknowledged, EventConvey, Conveyed),
       (Conveyed, EventAcknowledge, Conveyed), (Conveyed, EventAccept, Accepted),
       (Accepted, EventComplete, Completed)}"
  shows "check_workflow (with_transfer_event w [] st t 2 txt tr tm True) \<longleftrightarrow>
     (wf_state w = Conveyed \<longrightarrow>
        event_count (wf_event w) EventAcknowledge = (if t = EventAccept then 1 else 0))"
proof -
  let ?w' = "with_transfer_event w [] st t 2 txt tr tm True"
  have v: "wf_version ?w' = Some 2" "wf_type ?w' = InternalTransfer"
    using assms(2,3) by (simp_all add: seasoned_def workflow_version_def with_transfer_event_def)
  have ok: "event_ok 2 InternalTransfer (the_transfer_event t 2 txt tr tm True)"
    using transfer_event_ok [OF assms(4)] assms(5) by auto
  have convey: "wf_state w = Acknowledged \<Longrightarrow> event_count (wf_event w) EventConvey = 0"
    using assms(2,3) by (simp add: seasoned_def)
  from ok show ?thesis
    unfolding check_internal_transfer [OF v]
    using internal_transfer_check [OF assms(1-3)] assms(3,5) convey
    by (auto simp: with_transfer_event_def fields_ok_def)
qed

lemma save_transfer_run:
  assumes inv: "engine_inv s" and tr: "tracked s nym src i w"
    and ev: "evolves w w'" and plugin: "env_plugin_ok env"
  obtains s' where "save_workflow env nym acct w' s = Inr (True, s')" "engine_inv s'"
    "tracked s' nym src i w'" "engine_get s' = (engine_get s)((nym, i) := Some w')"
proof -
  have get: "engine_get s (nym, i) = Some w" using tr by (simp add: tracked_def)
  have "may_store s nym w'" "seasoned w'" "check_workflow w'"
    using ev may_store_update [OF inv get] engine_get_inv [OF inv get] by (auto simp: evolves_def)
  from save_workflow_total [OF inv this plugin] obtain s' where
      save: "save_workflow env nym acct w' s = Inr (True, s')" by blast
  with that save_update [OF inv get ev save] save_tracked [OF inv tr ev save] show thesis
    by (simp add: engine_ok_def)
qed

subsection \<open>Acknowledgement and conveyance of internal transfers\<close>

lemma AcknowledgeTransfer_run:
  assumes inv: "engine_inv s" and x: "isTransfer x"
    and internal: "isInternalTransfer env (it_real_account x) (it_destination x) = Inr internal"
    and w: "tracked s n (it_id x) i w" "wf_type w = transfer_type internal"
      "wf_state w = Initiated \<or> wf_state w = Conveyed \<and> event_count (wf_event w) EventAcknowledge = 0"
    and good: "plausible (msg_notary_id reply)" "env_plugin_ok env"
  shows "\<exists>s'. AcknowledgeTransfer env n x reply s = Inr (True, s') \<and> engine_inv s' \<and>
    tracked s' n (it_id x) i
      (with_transfer_event w [] (if wf_state w = Conveyed then Conveyed else Acknowledged)
         EventAcknowledge 2 (msg_text reply) (msg_notary_id reply) (msg_time reply) True)"
proof -
  let ?st = "if wf_state w = Conveyed then Conveyed else Acknowledged"
  let ?w' = "with_transfer_event w [] ?st EventAcknowledge 2 (msg_text reply) (msg_notary_id reply)
     (msg_time reply) True"
  note f = tracked_inv [OF inv w(1)]
  have conv: "wf_state w = Conveyed \<Longrightarrow> internal"
    using w(2) outgoing_transfer_check [of w] f by (cases internal) auto
  have chk: "check_workflow ?w'"
  proof (cases internal)
    case True
    with internal_transfer_event_check [of w "msg_notary_id reply" EventAcknowledge ?st] f w good
    show ?thesis by auto
  next
    case False
    with conv w(3) have "wf_state w = Initiated" by auto
    with False outgoing_transfer_event_check [of w "msg_notary_id reply" "[]" EventAcknowledge] f w good
    show ?thesis by auto
  qed
  have count: "event_count (wf_event w) EventConvey = 0" if "wf_type w = InternalTransfer" "?st = Acknowledged"
    using internal_transfer_check [of w] f that w(3) by (auto split: if_splits)
  have ev: "evolves w ?w'"
    by (rule with_transfer_event_evolves)
      (use w f chk count in \<open>cases internal; auto simp: moves_def\<close>)+
  obtain s' where "save_workflow env n (it_real_account x) ?w' s = Inr (True, s')" "engine_inv s'"
    "tracked s' n (it_id x) i ?w'"
    by (rule save_transfer_run [OF inv w(1) ev good(2)])
  with x internal w show ?thesis
    by (auto simp: AcknowledgeTransfer_def Let_def tracked_source [OF inv w(1)] add_transfer_event_eq)
qed

lemma AcknowledgeTransfer_twice_aborts:
  assumes inv: "engine_inv s" and x: "isTransfer x"
    and internal: "isInternalTransfer env (it_real_account x) (it_destination x) = Inr True"
    and w: "tracked s n (it_id x) i w" "wf_type w = InternalTransfer" "wf_state w = Conveyed"
      "event_count (wf_event w) EventAcknowledge \<noteq> 0"
    and good: "plausible (msg_notary_id reply)"
  shows "aborts (AcknowledgeTransfer env n x reply s)"
proof -
  note f = tracked_inv [OF inv w(1)]
  have "\<not> check_workflow (with_transfer_event w [] Conveyed EventAcknowledge 2 (msg_text reply)
      (msg_notary_id reply) (msg_time reply) True)"
    using internal_transfer_event_check [of w "msg_notary_id reply" EventAcknowledge Conveyed] f w good by simp
  then have "aborts (save_workflow env n (it_real_account x) (with_transfer_event w [] Conveyed
      EventAcknowledge 2 (msg_text reply) (msg_notary_id reply) (msg_time reply) True) s)"
    by (rule save_workflow_invalid)
  with x internal w show ?thesis
    by (simp add: AcknowledgeTransfer_def Let_def tracked_source [OF inv w(1)] add_transfer_event_eq)
qed

lemma ConveyTransfer_internal_run:
  assumes inv: "engine_inv s" and p: "extract_transfer_from_pending env p = Some x" "tx_nym p = n" "it_nym x = n"
    and w: "tracked s n (it_id x) i w" "wf_type w = InternalTransfer"
      "wf_state w = Initiated \<or> wf_state w = Acknowledged"
    and good: "plausible notary" "env_plugin_ok env"
  shows "\<exists>s'. ConveyTransfer env n notary p s = Inr (i, s') \<and> engine_inv s' \<and>
    tracked s' n (it_id x) i
      (with_transfer_event w [] Conveyed EventConvey 2 (tx_text p) notary (env_now env) True)"
proof -
  let ?w' = "with_transfer_event w [] Conveyed EventConvey 2 (tx_text p) notary (env_now env) True"
  let ?s0 = "notify (NymToContact n) s"
  have inv0: "engine_inv ?s0" and tr0: "tracked ?s0 n (it_id x) i w" using inv w(1) by simp_all
  note f = tracked_inv [OF inv w(1)]
  have chk: "check_workflow ?w'"
    using internal_transfer_event_check [of w notary EventConvey Conveyed] f w good by auto
  have ev: "evolves w ?w'"
    by (rule with_transfer_event_evolves) (use w f chk in \<open>auto simp: moves_def\<close>)
  obtain s' where "save_workflow env n (it_destination x) ?w' ?s0 = Inr (True, s')" "engine_inv s'"
    "tracked s' n (it_id x) i ?w'"
    by (rule save_transfer_run [OF inv0 tr0 ev good(2)])
  moreover have "wf_id ?w' = Some i" using f by (simp add: with_transfer_event_def)
  ultimately show ?thesis
    using p w
    by (auto simp: ConveyTransfer_def Let_def convey_internal_transfer_def tracked_source [OF inv0 tr0]
        add_transfer_event_receipt_eq)
qed

subsection \<open>Clearing, completing, aborting and accepting\<close>

lemma AbortTransfer_run:
  assumes inv: "engine_inv s" and x: "isTransfer x"
    and internal: "isInternalTransfer env (it_real_account x) (it_destination x) = Inr internal"
    and w: "tracked s n (it_id x) i w" "wf_type w = transfer_type internal" "wf_state w = Initiated"
    and good: "plausible (msg_notary_id reply)" "env_plugin_ok env"
  shows "\<exists>s'. AbortTransfer env n x reply s = Inr (True, s') \<and> engine_inv s' \<and>
    tracked s' n (it_id x) i
      (with_transfer_event w [] Aborted EventAbort 2 (msg_text reply) (msg_notary_id reply) (msg_time reply) True)"
proof -
  let ?w' = "with_transfer_event w [] Aborted EventAbort 2 (msg_text reply) (msg_notary_id reply)
     (msg_time reply) True"
  note f = tracked_inv [OF inv w(1)]
  have chk: "check_workflow ?w'"
    using internal_transfer_event_check [of w "msg_notary_id reply" EventAbort Aborted]
      outgoing_transfer_event_check [of w "msg_notary_id reply" "[]" EventAbort Aborted] f w good
    by (cases internal) auto
  have ev: "evolves w ?w'"
    by (rule with_transfer_event_evolves) (use w f chk in \<open>cases internal; auto simp: moves_def\<close>)+
  obtain s' where "save_workflow env n (it_real_account x) ?w' s = Inr (True, s')" "engine_inv s'"
    "tracked s' n (it_id x) i ?w'"
    by (rule save_transfer_run [OF inv w(1) ev good(2)])
  with x internal w show ?thesis
    by (auto simp: AbortTransfer_def Let_def tracked_source [OF inv w(1)] add_transfer_event_eq)
qed

lemma ClearTransfer_run:
  assumes inv: "engine_inv s" and x: "extract_transfer_from_receipt env receipt = (Some x, d)" "plausible d"
    "it_purported_account x \<noteq> []" "it_destination x \<noteq> []"
    and internal: "isInternalTransfer env (it_purported_account x) (it_destination x) = Inr internal"
    and w: "tracked s n (it_id x) i w" "wf_type w = transfer_type internal"
      "if internal then wf_state w = Conveyed \<and> event_count (wf_event w) EventAcknowledge = 1
       else wf_state w = Acknowledged"
    and good: "plausible notary" "env_plugin_ok env"
      "rpc_ok env n d (it_purported_account x) AccountOutgoingTransfer"
  shows "\<exists>s'. ClearTransfer env n notary receipt s = Inr (True, s') \<and> engine_inv s' \<and>
    tracked s' n (it_id x) i
      (with_transfer_event w (if internal then [] else d) Accepted EventAccept 2 (tx_text receipt) notary
         (env_now env) True)"
proof -
  let ?w' = "with_transfer_event w (if internal then [] else d) Accepted EventAccept 2 (tx_text receipt)
    notary (env_now env) True"
  let ?s0 = "notify (NymToContact d) s"
  have inv0: "engine_inv ?s0" and tr0: "tracked ?s0 n (it_id x) i w" using inv w(1) by simp_all
  note f = tracked_inv [OF inv w(1)]
  have d: "d \<noteq> []" using x(2) by auto
  have chk: "check_workflow ?w'"
    using internal_transfer_event_check [of w notary EventAccept Accepted]
      outgoing_transfer_event_check [of w notary d EventAccept Accepted] f w good x d
    by (cases internal) auto
  have ev: "evolves w ?w'"
    by (rule with_transfer_event_evolves) (use w f chk in \<open>cases internal; auto simp: moves_def\<close>)+
  obtain s1 where s1: "save_workflow env n (it_purported_account x) ?w' ?s0 = Inr (True, s1)" "engine_inv s1"
    "tracked s1 n (it_id x) i ?w'"
    by (rule save_transfer_run [OF inv0 tr0 ev good(2)])
  obtain s' where rpc: "update_rpc env n d (it_purported_account x) AccountOutgoingTransfer i (it_amount x) 0
      (extract_conveyed_time ?w') (it_note x)
      (snd (update_activity env n d (it_id x) i BoxOutgoingTransfer (extract_conveyed_time ?w') s1)) = Inr s'"
      "en_nyms s' = en_nyms s1"
    using update_rpc_run [OF good(3)] f by (metis update_activity_nyms)
  have "can_clear_transfer w" using w(2,3) by (cases internal) (simp_all add: can_clear_transfer_def)
  with x d internal w f s1(1) rpc(1) have "ClearTransfer env n notary receipt s = Inr (True, s')"
    by (simp add: ClearTransfer_def Let_def tracked_source [OF inv0 tr0] add_transfer_event_receipt_eq)
  with s1 engine_inv_nyms [OF rpc(2)] tracked_nyms [OF rpc(2)] show ?thesis by auto
qed

lemma ClearTransfer_unacknowledged_aborts:
  assumes inv: "engine_inv s" and x: "extract_transfer_from_receipt env receipt = (Some x, d)" "plausible d"
    "it_purported_account x \<noteq> []" "it_destination x \<noteq> []"
    and internal: "isInternalTransfer env (it_purported_account x) (it_destination x) = Inr True"
    and w: "tracked s n (it_id x) i w" "wf_type w = InternalTransfer" "wf_state w = Conveyed"
      "event_count (wf_event w) EventAcknowledge = 0"
    and good: "plausible notary"
  shows "aborts (ClearTransfer env n notary receipt s)"
proof -
  let ?s0 = "notify (NymToContact d) s"
  have inv0: "engine_inv ?s0" and tr0: "tracked ?s0 n (it_id x) i w" using inv w(1) by simp_all
  note f = tracked_inv [OF inv w(1)]
  have "\<not> check_workflow (with_transfer_event w [] Accepted EventAccept 2 (tx_text receipt) notary
      (env_now env) True)"
    using internal_transfer_event_check [of w notary EventAccept Accepted] f w good by simp
  then have "aborts (save_workflow env n (it_purported_account x)
      (with_transfer_event w [] Accepted EventAccept 2 (tx_text receipt) notary (env_now env) True) ?s0)"
    by (rule save_workflow_invalid)
  moreover have "d \<noteq> []" using x(2) by auto
  moreover have "can_clear_transfer w" using w by (simp add: can_clear_transfer_def)
  ultimately show ?thesis
    using x internal w f
    by (simp add: ClearTransfer_def Let_def tracked_source [OF inv0 tr0] add_transfer_event_receipt_eq)
qed

lemma CompleteTransfer_run:
  assumes inv: "engine_inv s" and x: "extract_transfer_from_receipt env receipt = (Some x, d)"
    "d = [] \<or> plausible d" "it_purported_account x \<noteq> []" "it_destination x \<noteq> []"
    and internal: "isInternalTransfer env (it_purported_account x) (it_destination x) = Inr internal"
    and w: "tracked s n (it_id x) i w" "wf_type w = transfer_type internal" "wf_state w = Accepted"
    and good: "plausible notary" "env_plugin_ok env"
  shows "\<exists>s'. CompleteTransfer env n notary receipt reply s = Inr (True, s') \<and> engine_inv s' \<and>
    tracked s' n (it_id x) i
      (with_transfer_event w (if internal then [] else d) Completed EventComplete 2 (tx_text receipt) notary
         (env_now env) True)"
proof -
  let ?w' = "with_transfer_event w (if internal then [] else d) Completed EventComplete 2 (tx_text receipt)
    notary (env_now env) True"
  note f = tracked_inv [OF inv w(1)]
  have chk: "check_workflow ?w'"
    using internal_transfer_event_check [of w notary EventComplete Completed]
      outgoing_transfer_event_check [of w notary d EventComplete Completed] f w good x
    by (cases internal) auto
  have ev: "evolves w ?w'"
    by (rule with_transfer_event_evolves) (use w f chk in \<open>cases internal; auto simp: moves_def\<close>)+
  obtain s' where "save_workflow env n (it_real_account x) ?w' s = Inr (True, s')" "engine_inv s'"
    "tracked s' n (it_id x) i ?w'"
    by (rule save_transfer_run [OF inv w(1) ev good(2)])
  with x internal w show ?thesis
    by (auto simp: CompleteTransfer_def Let_def tracked_source [OF inv w(1)] add_transfer_event_receipt_eq)
qed

lemma AcceptTransfer_run:
  assumes inv: "engine_inv s" and p: "extract_transfer_from_pending env p = Some x" "tx_nym p = n" "it_nym x \<noteq> n"
    and w: "tracked s n (it_id x) i w" "wf_type w = IncomingTransfer" "wf_state w = Conveyed"
    and good: "plausible (msg_notary_id reply)" "env_plugin_ok env"
  shows "\<exists>s'. AcceptTransfer env n notary p reply s = Inr (True, s') \<and> engine_inv s' \<and>
    tracked s' n (it_id x) i
      (with_transfer_event w (it_nym x) Completed EventAccept 2 (msg_text reply) (msg_notary_id reply)
         (msg_time reply) True)"
proof -
  let ?w' = "with_transfer_event w (it_nym x) Completed EventAccept 2 (msg_text reply) (msg_notary_id reply)
     (msg_time reply) True"
  note f = tracked_inv [OF inv w(1)]
  have chk: "check_workflow ?w'" using incoming_transfer_event_check f w good by blast
  have ev: "evolves w ?w'"
    by (rule with_transfer_event_evolves) (use w f chk in \<open>auto simp: moves_def\<close>)
  obtain s' where "save_workflow env n (tx_purported_account p) ?w' s = Inr (True, s')" "engine_inv s'"
    "tracked s' n (it_id x) i ?w'"
    by (rule save_transfer_run [OF inv w(1) ev good(2)])
  with p w show ?thesis
    by (auto simp: AcceptTransfer_def Let_def tracked_source [OF inv w(1)] add_transfer_event_eq event_version_def)
qed

subsection \<open>New transfers\<close>

lemma first_transfer_fields [simp]:
  "wf_id (first_transfer env x ty st v sv ev party acct notary dest) = Some (env_random env)"
  "wf_type (first_transfer env x ty st v sv ev party acct notary dest) = ty"
  "wf_state (first_transfer env x ty st v sv ev party acct notary dest) = st"
  "wf_version (first_transfer env x ty st v sv ev party acct notary dest) = Some v"
  "source_ids (first_transfer env x ty st v sv ev party acct notary dest) = [it_id x]"
  by (simp_all add: first_transfer_def source_ids_def)

lemma create_check:
  assumes "plausible (it_id x)" "plausible (env_random env)" "plausible acct" "plausible notary"
    "plausible (env_account_contract env acct)" "internal \<Longrightarrow> plausible dest" "\<not> internal \<Longrightarrow> dest = []"
  shows "check_workflow (first_transfer env x (transfer_type internal) Initiated 2 1 2 [] acct notary dest)"
proof -
  let ?w = "first_transfer env x (transfer_type internal) Initiated 2 1 2 [] acct notary dest"
  show ?thesis
  proof (cases internal)
    case True
    then have "dest \<noteq> []" using assms(6) by auto
    with True assms check_internal_transfer [of ?w] show ?thesis
      by (simp add: first_transfer_def fields_ok_def source_ok_def event_ok_2 event_field_checks)
  next
    case False
    with assms check_outgoing_transfer [of ?w] show ?thesis
      by (simp add: first_transfer_def fields_ok_def source_ok_def event_ok_2 event_field_checks)
  qed
qed

lemma CreateTransfer_run:
  assumes inv: "engine_inv s" and fresh: "fresh_id (env_random env) s" and x: "isTransfer x" "plausible (it_id x)"
    and internal: "isInternalTransfer env (it_real_account x) (it_destination x) = Inr internal"
    and none: "PaymentWorkflowLookup (msg_nym_id req) (it_id x) s = []"
    and env: "plausible (env_random env)" "plausible (it_real_account x)" "plausible (msg_notary_id req)"
      "plausible (env_account_contract env (it_real_account x))" "internal \<Longrightarrow> plausible (it_destination x)"
      "env_plugin_ok env" "plausible (msg_nym_id req)"
    and nym: "en_nyms s (msg_nym_id req) \<noteq> None"
  shows "\<exists>s'. CreateTransfer env x req s = Inr (env_random env, s') \<and> engine_inv s' \<and>
    tracked s' (msg_nym_id req) (it_id x) (env_random env)
      (first_transfer env x (transfer_type internal) Initiated 2 1 2 [] (it_real_account x)
         (msg_notary_id req) (if internal then it_destination x else []))"
proof -
  let ?w = "first_transfer env x (transfer_type internal) Initiated 2 1 2 [] (it_real_account x)
         (msg_notary_id req) (if internal then it_destination x else [])"
  have "check_workflow ?w" by (rule create_check) (use x env in auto)
  then have born: "born ?w"
    by (cases internal) (auto simp: born_def seasoned_def initial_state_def workflow_version_def first_transfer_def)
  obtain s1 where save: "save_workflow env (msg_nym_id req) (it_real_account x) ?w s = Inr (True, s1)"
      "engine_inv s1" "tracked s1 (msg_nym_id req) (it_id x) (env_random env) ?w"
    by (rule save_new_run [OF inv fresh first_transfer_fields(1) born env(6) nym, of "it_real_account x"])
      (use none in auto)
  have rpc_ok: "rpc_ok env (msg_nym_id req) [] (it_real_account x) AccountOutgoingTransfer"
    using env by (simp add: rpc_ok_def)
  obtain s' where rpc: "update_rpc env (msg_nym_id req) [] (it_real_account x) AccountOutgoingTransfer
      (env_random env) (it_amount x) 0 (extract_conveyed_time ?w) (it_note x) s1 = Inr s'"
      "en_nyms s' = en_nyms s1"
    using update_rpc_run [OF rpc_ok env(1)] by blast
  have ne: "msg_nym_id req \<noteq> []" "it_real_account x \<noteq> []" "msg_notary_id req \<noteq> []" "env_random env \<noteq> []"
    using env by auto
  have ver: "workflow_version (transfer_type internal) = 2" "source_version (transfer_type internal) = 1"
    by (cases internal; simp add: workflow_version_def source_version_def)+
  have look: "get_workflow_by_source ts (msg_nym_id req) (it_id x) s = Inr None" for ts
    using none by (simp add: get_workflow_by_source_def)
  have "CreateTransfer env x req s = Inr (env_random env, s')"
    using x internal save(1) rpc(1) ne
    by (simp add: CreateTransfer_def Let_def look create_transfer_def new_transfer_eq save_workflow_pair_def ver)
  with save engine_inv_nyms [OF rpc(2)] tracked_nyms [OF rpc(2)] show ?thesis by auto
qed

lemma ConveyTransfer_incoming_run:
  assumes inv: "engine_inv s" and fresh: "fresh_id (env_random env) s"
    and p: "extract_transfer_from_pending env p = Some x" "tx_nym p = n" "it_nym x \<noteq> n"
    and none: "PaymentWorkflowLookup n (it_id x) s = []"
    and env: "plausible (env_random env)" "plausible (it_id x)" "plausible (it_nym x)"
      "plausible (tx_purported_account p)" "plausible notary"
      "plausible (env_account_contract env (tx_purported_account p))" "env_plugin_ok env"
      "rpc_ok env n (it_nym x) (tx_purported_account p) AccountIncomingTransfer"
    and nym: "en_nyms s n \<noteq> None"
  shows "\<exists>s'. ConveyTransfer env n notary p s = Inr (env_random env, s') \<and> engine_inv s' \<and>
    tracked s' n (it_id x) (env_random env)
      (first_transfer env x IncomingTransfer Conveyed 2 1 2 (it_nym x) (tx_purported_account p) notary [])"
proof -
  let ?w = "first_transfer env x IncomingTransfer Conveyed 2 1 2 (it_nym x) (tx_purported_account p) notary []"
  let ?s0 = "notify (NymToContact (it_nym x)) s"
  have ne: "it_nym x \<noteq> []" "tx_purported_account p \<noteq> []" "notary \<noteq> []" "env_random env \<noteq> []"
    using env by auto
  have "check_workflow ?w"
    using env ne check_incoming_transfer [of ?w]
    by (simp add: first_transfer_def fields_ok_def source_ok_def event_ok_2 event_field_checks)
  then have born: "born ?w"
    by (auto simp: born_def seasoned_def initial_state_def workflow_version_def first_transfer_def)
  have s0: "engine_inv ?s0" "fresh_id (env_random env) ?s0" "en_nyms ?s0 n \<noteq> None"
    "PaymentWorkflowLookup n (it_id x) ?s0 = []"
    using inv fresh nym none by (simp_all add: fresh_id_def PaymentWorkflowLookup_def)
  obtain s1 where save: "save_workflow env n (tx_purported_account p) ?w ?s0 = Inr (True, s1)"
      "engine_inv s1" "tracked s1 n (it_id x) (env_random env) ?w"
    by (rule save_new_run [OF s0(1,2) first_transfer_fields(1) born env(7) s0(3), of "tx_purported_account p"])
      (use s0(4) in auto)
  obtain s' where rpc: "update_rpc env n (it_nym x) (tx_purported_account p) AccountIncomingTransfer
      (env_random env) (it_amount x) 0 (extract_conveyed_time ?w) (it_note x)
      (snd (update_activity env n (it_nym x) (it_id x) (env_random env) BoxIncomingTransfer
        (extract_conveyed_time ?w) s1)) = Inr s'" "en_nyms s' = en_nyms s1"
    using update_rpc_run [OF env(8,1)] by (metis update_activity_nyms)
  have look: "get_workflow_by_source ts n (it_id x) ?s0 = Inr None" for ts
    using s0(4) by (simp add: get_workflow_by_source_def)
  have nym_ne: "n \<noteq> []" using env(8) by (auto simp: rpc_ok_def)
  have "ConveyTransfer env n notary p s = Inr (env_random env, s')"
    using p save(1) rpc(1) ne nym_ne
    by (simp add: ConveyTransfer_def Let_def convey_incoming_transfer_def look create_transfer_def
        new_transfer_eq save_workflow_pair_def workflow_version_def source_version_def)
  with save engine_inv_nyms [OF rpc(2)] tracked_nyms [OF rpc(2)] show ?thesis by auto
qed

subsection \<open>Cash\<close>

lemma cash_fields [simp]:
  "wf_id (new_outgoing_cash env p) = Some (env_random env)"
  "wf_id (new_incoming_cash env p m) = Some (env_random env)"
  "source_ids (new_outgoing_cash env p) = [env_random env]"
  "source_ids (new_incoming_cash env p m) = [env_random env]"
  by (simp_all add: new_outgoing_cash_def new_incoming_cash_def Let_def source_ids_def)

lemma allocate_check:
  assumes "plausible (env_random env)" "plausible (pu_notary p)" "plausible (pu_unit p)"
  shows "check_workflow (new_outgoing_cash env p)"
  using assms check_outgoing_cash [of "new_outgoing_cash env p"]
  by (simp add: new_outgoing_cash_def Let_def blank_workflow_def blank_event_def workflow_version_def
      event_version_def source_version_def fields_ok_def source_ok_def event_ok_3 event_field_checks)

lemma receive_cash_check:
  assumes "plausible (env_random env)" "plausible (pu_notary p)" "plausible (pu_unit p)"
    "plausible (msg_nym_id m)" "plausible (msg_notary_id m)"
  shows "check_workflow (new_incoming_cash env p m)"
  using assms check_incoming_cash [of "new_incoming_cash env p m"]
  by (simp add: new_incoming_cash_def Let_def blank_workflow_def blank_event_def workflow_version_def
      event_version_def source_version_def fields_ok_def source_ok_def event_ok_3 event_field_checks)

lemma AllocateCash_run:
  assumes inv: "engine_inv s" and fresh: "fresh_id (env_random env) s" and nym: "en_nyms s n \<noteq> None"
    and good: "plausible (env_random env)" "plausible (pu_notary p)" "plausible (pu_unit p)" "env_plugin_ok env"
  shows "\<exists>s'. AllocateCash env n p s = Inr (env_random env, s') \<and> engine_inv s' \<and>
    engine_get s' = (engine_get s)((n, env_random env) := Some (new_outgoing_cash env p))"
proof -
  have born: "born (new_outgoing_cash env p)" using new_cash_born(1) allocate_check good by blast
  obtain s' where "save_workflow env n [] (new_outgoing_cash env p) s = Inr (True, s')" "engine_inv s'"
    "engine_get s' = (engine_get s)((n, env_random env) := Some (new_outgoing_cash env p))"
    by (rule save_new_run [OF inv fresh cash_fields(1) born good(4) nym, of "[]"])
  then show ?thesis by (simp add: AllocateCash_def)
qed

lemma ReceiveCash_run:
  assumes inv: "engine_inv s" and fresh: "fresh_id (env_random env) s" and nym: "en_nyms s n \<noteq> None"
    and good: "plausible (env_random env)" "plausible (pu_notary p)" "plausible (pu_unit p)"
      "plausible (msg_nym_id m)" "plausible (msg_notary_id m)" "env_plugin_ok env"
  shows "\<exists>s'. ReceiveCash env n p m s = Inr (env_random env, s') \<and> engine_inv s' \<and>
    engine_get s' = (engine_get s)((n, env_random env) := Some (new_incoming_cash env p m))"
proof -
  have born: "born (new_incoming_cash env p m)" using new_cash_born(2) receive_cash_check good by blast
  obtain s' where "save_workflow env n [] (new_incoming_cash env p m) s = Inr (True, s')" "engine_inv s'"
    "engine_get s' = (engine_get s)((n, env_random env) := Some (new_incoming_cash env p m))"
    by (rule save_new_run [OF inv fresh cash_fields(2) born good(6) nym, of "[]"])
  then show ?thesis by (simp add: ReceiveCash_def)
qed

lemma outgoing_cash_check:
  assumes "check_workflow w" "seasoned w" "wf_type w = OutgoingCash"
  shows "fields_ok 3 w \<and> length (wf_party w) \<le> 1 \<and> CHECK_IDENTIFIER (wf_notary w) \<and> wf_account w = []
     \<and> outgoing_cash_3 (wf_state w) (event_count (wf_event w))"
  using assms check_outgoing_cash [of w] by (simp add: seasoned_version workflow_version_def)

text \<open>A reply moves the workflow to \<open>Conveyed\<close>, whether it reports success or not.\<close>

lemma SendCash_run:
  assumes inv: "engine_inv s" and w: "engine_get s (n, i) = Some w" "wf_type w = OutgoingCash"
      "wf_state w \<noteq> Expired"
    and good: "good_message req" "plausible rcp" "env_plugin_ok env"
  shows "\<exists>s'. SendCash env n rcp i req rep s = Inr (True, s') \<and> engine_inv s' \<and>
    engine_get s' = (engine_get s)((n, i) := Some (send_cash_event w rcp req rep))"
proof -
  let ?w' = "send_cash_event w rcp req rep"
  have f: "check_workflow w" "seasoned w" using engine_get_inv [OF inv w(1)] by simp_all
  have v: "wf_version ?w' = Some 3" "wf_type ?w' = OutgoingCash"
    using f(2) w(2) by (simp_all add: send_cash_event_eq seasoned_def workflow_version_def)
  have "event_ok 3 OutgoingCash (the_cash_event req rep)"
    using good(1) by (auto simp: event_ok_3 the_cash_event_def event_field_checks good_message_def)
  moreover have "wf_state w = Unsent \<or> wf_state w = Conveyed"
    using outgoing_cash_check [OF f w(2)] w(3) by (cases "wf_state w") auto
  ultimately have chk: "check_workflow ?w'"
    unfolding check_outgoing_cash [OF v]
    using outgoing_cash_check [OF f w(2)] w(2) good(2)
    by (cases "wf_party w"; cases rep) (auto simp: send_cash_event_eq fields_ok_def the_cash_event_def)
  have ev: "evolves w ?w'"
    using send_cash_event_type [OF f(2,1) chk w(3)] chk f
    by (auto simp: evolves_def send_cash_event_eq seasoned_def moves_def)
  have "may_store s n ?w'" "seasoned ?w'"
    using may_store_update [OF inv w(1)] ev engine_get_inv [OF inv w(1)] by (auto simp: evolves_def)
  from save_workflow_total [OF inv this chk good(3)] obtain s' where
      save: "save_workflow env n [] ?w' s = Inr (True, s')" by blast
  with save_update [OF inv w(1) ev save] w show ?thesis
    by (auto simp: SendCash_def get_workflow_by_id_eq [OF inv] engine_ok_def)
qed

end
