(* ===== verification/Object_History.thy ===== *)
theory Object_History
  imports OT_Prelude
begin

text \<open>
  The interface between a store of objects and the code that changes them one object at a time:
  a step leaves every object as it was, or replaces one by an object that evolves from it, or adds
  one that is newly born. What follows for any number of steps is proved here once; the payment
  workflow engine is an instance (theory \<open>Workflow_Reachable\<close>).
\<close>

locale object_history =
  fixes get :: "'s \<Rightarrow> 'k \<Rightarrow> 'o option"
    and inv :: "'s \<Rightarrow> bool"
    and born :: "'o \<Rightarrow> bool"
    and evolves :: "'o \<Rightarrow> 'o \<Rightarrow> bool"
    and step :: "'s \<Rightarrow> 's \<Rightarrow> bool"
  assumes step_inv: "inv s \<Longrightarrow> step s s' \<Longrightarrow> inv s'"
    and step_present: "inv s \<Longrightarrow> step s s' \<Longrightarrow> get s k = Some x \<Longrightarrow>
          \<exists>y. get s' k = Some y \<and> (y = x \<or> evolves x y)"
    and step_absent: "inv s \<Longrightarrow> step s s' \<Longrightarrow> get s k = None \<Longrightarrow> get s' k = Some y \<Longrightarrow> born y"
begin

lemma run_inv: "step\<^sup>*\<^sup>* s s' \<Longrightarrow> inv s \<Longrightarrow> inv s'"
  by (induction rule: rtranclp_induct) (auto intro: step_inv)

lemma run_present:
  assumes "step\<^sup>*\<^sup>* s s'" "inv s" "get s k = Some x"
  shows "\<exists>y. get s' k = Some y \<and> evolves\<^sup>*\<^sup>* x y"
  using assms
proof (induction rule: rtranclp_induct)
  case base
  then show ?case by simp
next
  case (step s1 s2)
  then obtain y where y: "get s1 k = Some y" "evolves\<^sup>*\<^sup>* x y" by auto
  have "inv s1" using run_inv step.hyps(1) step.prems(1) .
  from step_present [OF this step.hyps(2) y(1)] y(2) show ?case
    by (auto intro: rtranclp.rtrancl_into_rtrancl)
qed

lemma run_origin:
  assumes "step\<^sup>*\<^sup>* s s'" "inv s" "get s' k = Some y"
  shows "(\<exists>x. get s k = Some x \<and> evolves\<^sup>*\<^sup>* x y) \<or> (\<exists>x. born x \<and> evolves\<^sup>*\<^sup>* x y)"
  using assms
proof (induction arbitrary: y rule: rtranclp_induct)
  case base
  then show ?case by auto
next
  case (step s1 s2)
  have inv: "inv s1" using run_inv step.hyps(1) step.prems(1) .
  show ?case
  proof (cases "get s1 k")
    case None
    with step_absent [OF inv step.hyps(2)] step.prems(2) show ?thesis by blast
  next
    case (Some x)
    from step_present [OF inv step.hyps(2) Some] step.prems(2) have "y = x \<or> evolves x y" by simp
    with step.IH [OF step.prems(1) Some] show ?thesis
      by (metis rtranclp.rtrancl_into_rtrancl)
  qed
qed

text \<open>
  A property that every newborn object has and evolution keeps holds of every object of a state
  that a run reaches from an empty one.
\<close>

lemma reachable_objects:
  assumes "step\<^sup>*\<^sup>* s s'" "inv s" "\<And>k. get s k = None" "get s' k = Some y"
    and born: "\<And>x. born x \<Longrightarrow> P x" and evolves: "\<And>x y. P x \<Longrightarrow> evolves x y \<Longrightarrow> P y"
  shows "P y"
proof -
  obtain x where x: "born x" "evolves\<^sup>*\<^sup>* x y"
    using run_origin [OF assms(1,2,4)] assms(3) by auto
  from x(2) born [OF x(1)] show ?thesis
    by (induction rule: rtranclp_induct) (auto intro: evolves)
qed

end

end
