(* ===== verification/Workflow_Reachable.thy ===== *)
theory Workflow_Reachable
  imports Workflow_Transfers Object_History
begin

text \<open>
  The engine as a transition system: one constructor per public operation of
  \<open>api::session::imp::Workflow\<close> that changes workflows, \<open>perform\<close> to run it, and the step
  relation of calls that return. \<open>fresh_id\<close> states what \<open>IdentifierFromRandom\<close> is relied on
  for: the identifier it draws has not been used in any node.
\<close>

datatype operation =
    OpWriteCheque cheque
  | OpSendCheque cheque message "message option"
  | OpExportCheque cheque
  | OpCancelCheque cheque message "message option"
  | OpClearCheque ident transaction
  | OpFinishCheque cheque message "message option"
  | OpExpireCheque ident cheque
  | OpImportCheque ident cheque
  | OpReceiveCheque ident cheque message
  | OpDepositCheque ident ident cheque message "message option"
  | OpCreateTransfer item message
  | OpAcknowledgeTransfer ident item message
  | OpAbortTransfer ident item message
  | OpAcceptTransfer ident ident transaction message
  | OpClearTransfer ident ident transaction
  | OpCompleteTransfer ident ident transaction message
  | OpConveyTransfer ident ident transaction
  | OpAllocateCash ident purse
  | OpSendCash ident ident ident message "message option"
  | OpReceiveCash ident purse message

fun perform :: "wf_env \<Rightarrow> operation \<Rightarrow> engine \<Rightarrow> engine outcome" where
  "perform env (OpWriteCheque c) s = map_sum id snd (WriteCheque env c s)"
| "perform env (OpSendCheque c req rep) s = map_sum id snd (SendCheque env c req rep s)"
| "perform env (OpExportCheque c) s = map_sum id snd (ExportCheque env c s)"
| "perform env (OpCancelCheque c req rep) s = map_sum id snd (CancelCheque env c req rep s)"
| "perform env (OpClearCheque n r) s = map_sum id snd (ClearCheque env n r s)"
| "perform env (OpFinishCheque c req rep) s = map_sum id snd (FinishCheque env c req rep s)"
| "perform env (OpExpireCheque n c) s = map_sum id snd (ExpireCheque env n c s)"
| "perform env (OpImportCheque n c) s = map_sum id snd (ImportCheque env n c s)"
| "perform env (OpReceiveCheque n c m) s = map_sum id snd (ReceiveCheque env n c m s)"
| "perform env (OpDepositCheque n a c req rep) s = map_sum id snd (DepositCheque env n a c req rep s)"
| "perform env (OpCreateTransfer x req) s = map_sum id snd (CreateTransfer env x req s)"
| "perform env (OpAcknowledgeTransfer n x rep) s = map_sum id snd (AcknowledgeTransfer env n x rep s)"
| "perform env (OpAbortTransfer n x rep) s = map_sum id snd (AbortTransfer env n x rep s)"
| "perform env (OpAcceptTransfer n notary p rep) s = map_sum id snd (AcceptTransfer env n notary p rep s)"
| "perform env (OpClearTransfer n notary r) s = map_sum id snd (ClearTransfer env n notary r s)"
| "perform env (OpCompleteTransfer n notary r rep) s =
     map_sum id snd (CompleteTransfer env n notary r rep s)"
| "perform env (OpConveyTransfer n notary p) s = map_sum id snd (ConveyTransfer env n notary p s)"
| "perform env (OpAllocateCash n p) s = map_sum id snd (AllocateCash env n p s)"
| "perform env (OpSendCash n rcp i req rep) s = map_sum id snd (SendCash env n rcp i req rep s)"
| "perform env (OpReceiveCash n p m) s = map_sum id snd (ReceiveCash env n p m s)"

lemma map_sum_snd_Inr: "map_sum id snd r = Inr s' \<longleftrightarrow> (\<exists>b. r = Inr (b, s'))"
  by (cases r) auto

text \<open>A sequence of calls, each with the environment it runs in.\<close>

fun perform_all :: "(wf_env \<times> operation) list \<Rightarrow> engine \<Rightarrow> engine outcome" where
  "perform_all [] s = Inr s"
| "perform_all ((env, op) # ops) s = bind_outcome (perform env op s) (perform_all ops)"

inductive engine_step :: "engine \<Rightarrow> engine \<Rightarrow> bool" where
  call: "perform env op s = Inr s' \<Longrightarrow> fresh_id (env_random env) s \<Longrightarrow> engine_step s s'"

inductive_cases engine_stepE: "engine_step s s'"

lemma perform_step:
  assumes inv: "engine_inv s" and fresh: "fresh_id (env_random env) s"
    and op: "perform env op s = Inr s'"
  shows "engine_ok s s'"
proof (cases op)
  case (OpExportCheque c)
  with op inv show ?thesis by (simp add: ExportCheque_eq)
qed (use op in \<open>auto simp: map_sum_snd_Inr ImportCheque_def ReceiveCheque_def
      intro: WriteCheque_step [OF inv fresh] SendCheque_step [OF inv] CancelCheque_step [OF inv]
        ClearCheque_step [OF inv] FinishCheque_step [OF inv] ExpireCheque_step [OF inv]
        receive_cheque_step [OF inv fresh] DepositCheque_step [OF inv]
        CreateTransfer_step [OF inv fresh] AcknowledgeTransfer_step [OF inv] AbortTransfer_step [OF inv]
        AcceptTransfer_step [OF inv] ClearTransfer_step [OF inv] CompleteTransfer_step [OF inv]
        ConveyTransfer_step [OF inv fresh] AllocateCash_step [OF inv fresh] SendCash_step [OF inv]
        ReceiveCash_step [OF inv fresh]\<close>)

lemma engine_step_ok: "engine_inv s \<Longrightarrow> engine_step s s' \<Longrightarrow> engine_ok s s'"
  by (auto elim!: engine_stepE intro: perform_step)

interpretation payment: object_history engine_get engine_inv born evolves engine_step
  by unfold_locales (use engine_step_ok in \<open>auto simp: engine_ok_def\<close>)

subsection \<open>Sequences of moves\<close>

text \<open>
  What a workflow may have become after any number of calls: the identity, the source, the units and
  the events already recorded stay; the state follows the moves of the type.
\<close>

definition state_path :: "workflow_type \<Rightarrow> workflow_state \<Rightarrow> workflow_state \<Rightarrow> bool" where
  "state_path t = (\<lambda>a b. (a, b) \<in> set (moves t))\<^sup>*\<^sup>*"

definition later :: "workflow \<Rightarrow> workflow \<Rightarrow> bool" where
  "later w w' \<longleftrightarrow>
     wf_version w' = wf_version w \<and> wf_id w' = wf_id w \<and> wf_type w' = wf_type w
     \<and> wf_source w' = wf_source w \<and> wf_unit w' = wf_unit w
     \<and> state_path (wf_type w) (wf_state w) (wf_state w')
     \<and> (\<exists>es. wf_event w' = wf_event w @ es)
     \<and> (\<exists>ps. wf_party w' = wf_party w @ ps) \<and> (\<exists>as. wf_account w' = wf_account w @ as)"

lemma later_refl: "later w w"
  by (simp add: later_def state_path_def)

lemma evolves_later: "evolves w w' \<Longrightarrow> later w w'"
  by (auto simp: evolves_def later_def state_path_def)

lemma later_trans: "later a b \<Longrightarrow> later b c \<Longrightarrow> later a c"
  by (auto simp: later_def state_path_def intro: rtranclp_trans)

lemma evolves_rtranclp_later: "evolves\<^sup>*\<^sup>* w w' \<Longrightarrow> later w w'"
  by (induction rule: rtranclp_induct) (auto intro: later_refl later_trans evolves_later)

lemma born_rtranclp:
  assumes "evolves\<^sup>*\<^sup>* w w'" "born w"
  shows "check_workflow w' \<and> seasoned w'"
  using assms by (induction rule: rtranclp_induct) (auto simp: born_def evolves_def)

text \<open>States without a move out of them.\<close>

definition terminal :: "workflow_type \<Rightarrow> workflow_state \<Rightarrow> bool" where
  "terminal t st \<longleftrightarrow> st \<notin> fst ` set (moves t)"

lemma terminal_path: "terminal t a \<Longrightarrow> state_path t a b \<Longrightarrow> b = a"
  unfolding state_path_def terminal_def
  by (erule converse_rtranclpE) force+

end
