(* ===== verification/Workflow_Examples.thy ===== *)
theory Workflow_Examples
  imports Workflow_History
begin

text \<open>
  One small concrete setting: two nyms with empty stores, a cheque, a transfer between two accounts
  of one nym and one to another owner, and the environment of a call. The witnesses of the
  properties are evaluated in it.
\<close>

definition ex_id :: "char \<Rightarrow> ident" where
  "ex_id c = replicate 20 c"

lemma plausible_ex_id [simp]: "plausible (ex_id c)" "ex_id c \<noteq> []"
  by (simp_all add: ex_id_def plausible_def)

lemma ex_id_eq [simp]: "ex_id c = ex_id d \<longleftrightarrow> c = d"
  by (simp add: ex_id_def)

definition alice :: ident where "alice = ex_id CHR ''a''"
definition bob :: ident where "bob = ex_id CHR ''b''"

lemma ex_nyms [simp]: "plausible alice" "plausible bob" "alice \<noteq> []" "bob \<noteq> []" "alice \<noteq> bob" "bob \<noteq> alice"
  by (simp_all add: alice_def bob_def)

definition ex_cheque :: cheque where
  "ex_cheque = \<lparr>ch_id = ex_id CHR ''c'', ch_text = ''cheque'', ch_has_remitter = False, ch_amount = 5,
     ch_sender_nym = alice, ch_sender_account = ex_id CHR ''s'', ch_remitter_account = [],
     ch_has_recipient = True, ch_recipient_nym = bob, ch_unit = ex_id CHR ''u'', ch_valid_to = 50,
     ch_memo = ''memo''\<rparr>"

definition ex_item :: "char \<Rightarrow> item" where
  "ex_item dest = \<lparr>it_type = ItemTransfer, it_id = ex_id CHR ''i'', it_text = ''transfer'', it_nym = alice,
     it_real_account = ex_id CHR ''s'', it_purported_account = ex_id CHR ''s'',
     it_destination = ex_id dest, it_amount = 7, it_note = ''note'', it_attachment = []\<rparr>"

definition ex_accept_item :: item where
  "ex_accept_item = (ex_item CHR ''t'')\<lparr>it_type := ItemAcceptPending, it_text := ''accept'', it_nym := bob,
     it_attachment := ''pending''\<rparr>"

definition ex_pending :: transaction where
  "ex_pending = \<lparr>tx_type = TxPending, tx_text = ''pending'', tx_reference = ''transfer'', tx_nym = alice,
     tx_purported_account = ex_id CHR ''t'', tx_real_account = ex_id CHR ''t'',
     tx_real_notary = ex_id CHR ''n''\<rparr>"

definition ex_receipt :: transaction where
  "ex_receipt = ex_pending\<lparr>tx_type := TxTransferReceipt, tx_text := ''receipt'', tx_reference := ''accept''\<rparr>"

definition ex_env :: "char \<Rightarrow> wf_env" where
  "ex_env dest = \<lparr>env_now = 100, env_random = ex_id CHR ''w'',
     env_account_owner = (\<lambda>a. if a = ex_id CHR ''s'' \<or> a = ex_id CHR ''t'' then alice else []),
     env_account_server = (\<lambda>_. ex_id CHR ''n''), env_account_contract = (\<lambda>_. ex_id CHR ''u''),
     env_contact_id = (\<lambda>_. ex_id CHR ''k''), env_nym_to_contact = (\<lambda>_. ex_id CHR ''k''),
     env_add_payment_event = True, env_plugin_ok = True,
     env_item = (\<lambda>text. if text = ''accept'' then Some ex_accept_item else Some (ex_item dest)),
     env_transaction = (\<lambda>_. Some ex_pending),
     env_receipt_cheque = (\<lambda>_. Some ex_cheque)\<rparr>"

definition ex_message :: "bool \<Rightarrow> message" where
  "ex_message ok = \<lparr>msg_text = ''message'', msg_nym_id = alice, msg_nym_id2 = bob,
     msg_notary_id = ex_id CHR ''n'', msg_success = ok, msg_time = 90\<rparr>"

definition ex_purse :: purse where
  "ex_purse = \<lparr>pu_text = ''purse'', pu_notary = ex_id CHR ''n'', pu_unit = ex_id CHR ''u''\<rparr>"

definition ex_engine :: engine where
  "ex_engine = \<lparr>en_nyms = (\<lambda>n. if n = alice \<or> n = bob then Some pw_empty else None), en_log = []\<rparr>"

lemmas ex_defs = ex_cheque_def ex_item_def ex_accept_item_def ex_pending_def ex_receipt_def ex_env_def
  ex_message_def ex_purse_def

lemma ex_engine_facts [simp]:
  "engine_inv ex_engine" "fresh_id i ex_engine" "PaymentWorkflowLookup n src ex_engine = []"
  "engine_get ex_engine k = None" "en_nyms ex_engine alice = Some pw_empty" "en_nyms ex_engine bob = Some pw_empty"
  using node_inv_empty
  by (auto simp: ex_engine_def engine_inv_def fresh_id_def pw_empty_def PaymentWorkflowLookup_def
      pw_LookupBySource_def engine_get_def pw_get_def)

end
