(* ===== verification/Workflow_Lifecycles.thy ===== *)
theory Workflow_Lifecycles
  imports Workflow_Transfer_Runs Workflow_Reachable Workflow_Examples
begin

text \<open>
  The documented sequences of calls (\<open>include/opentxs/api/session/Workflow.hpp\<close>) as runs of
  \<open>perform_all\<close>, with the repetitions the documentation allows: "may be repeated as necessary
  until successful".
\<close>

type_synonym attempt = "wf_env \<times> message \<times> message option"




definition calls :: "(message \<Rightarrow> message option \<Rightarrow> operation) \<Rightarrow> attempt list \<Rightarrow> (wf_env \<times> operation) list" where
  "calls op = map (\<lambda>(env, req, rep). (env, op req rep))"

definition event_types :: "workflow \<Rightarrow> event_type list" where
  "event_types w = map ev_type (wf_event w)"

lemma perform_all_append:
  "perform_all (xs @ ys) s = bind_outcome (perform_all xs s) (perform_all ys)"
proof (induction xs arbitrary: s)
  case (Cons x xs)
  then show ?case by (cases x; cases "perform (fst x) (snd x) s") auto
qed simp

lemma calls_simps [simp]:
  "calls op [] = []" "calls op ((env, req, rep) # as) = (env, op req rep) # calls op as"
  "calls op (as @ bs) = calls op as @ calls op bs"
  by (simp_all add: calls_def)

lemma event_types_with [simp]:
  "event_types (with_cheque_event env w st t v req rep acct) = event_types w @ [t]"
  "event_types (with_transfer_event w nym st t v txt tr tm ok) = event_types w @ [t]"
  by (simp_all add: event_types_def with_cheque_event_def with_transfer_event_def)

lemma with_cheque_event_state [simp]:
  "wf_type (with_cheque_event env w st t v req rep acct) = wf_type w"
  "wf_state (with_cheque_event env w st t v req rep acct) =
     (if cheque_deposit_success rep then st else wf_state w)"
  by (simp_all add: with_cheque_event_def)

lemma with_transfer_event_state [simp]:
  "wf_type (with_transfer_event w nym st t v txt tr tm ok) = wf_type w"
  "wf_state (with_transfer_event w nym st t v txt tr tm ok) = (if ok then st else wf_state w)"
  "wf_event (with_transfer_event w nym st t v txt tr tm ok) = wf_event w @ [the_transfer_event t v txt tr tm ok]"
  by (simp_all add: with_transfer_event_def)

subsection \<open>Repeated attempts\<close>





subsection \<open>Whole sequences\<close>

lemma perform_one: "perform env op s = Inr s' \<Longrightarrow> perform_all ((env, op) # ops) s = perform_all ops s'"
  by simp





subsection \<open>Transfers\<close>

definition transfer_env :: "bool \<Rightarrow> item \<Rightarrow> wf_env \<Rightarrow> bool" where
  "transfer_env internal x env \<longleftrightarrow>
     isInternalTransfer env (it_real_account x) (it_destination x) = Inr internal
     \<and> isInternalTransfer env (it_purported_account x) (it_destination x) = Inr internal
     \<and> env_plugin_ok env"

definition good_transfer :: "item \<Rightarrow> bool" where
  "good_transfer x \<longleftrightarrow> isTransfer x \<and> plausible (it_id x) \<and> plausible (it_real_account x)
     \<and> it_purported_account x \<noteq> [] \<and> plausible (it_destination x)"

text \<open>
  C33. A transfer between two accounts of one nym: created, then acknowledged and conveyed in either order, cleared and
  completed. From a valid state of the engine, in which the transfer has no workflow yet and the random identifier is new, the
  calls end in the state Completed with one event each, the two calls whose order is documented to be open lead to the same
  state, and none of the calls aborts. The identifiers are plausible, the storage accepts the writes, and the
  pending transfer and the receipt carry the same item.
\<close>

theorem internal_transfer_sequence:
  assumes inv: "engine_inv s" and fresh: "fresh_id (env_random e1) s" and x: "good_transfer x"
    and none: "PaymentWorkflowLookup n (it_id x) s = []" and nym: "en_nyms s n \<noteq> None" "plausible n"
    and req: "msg_nym_id req = n" "plausible (msg_notary_id req)" "plausible (env_random e1)"
      "plausible (env_account_contract e1 (it_real_account x))"
    and envs: "list_all (transfer_env True x) [e1, e2, e4, e5]" "env_plugin_ok e3"
    and ack: "plausible (msg_notary_id reply)"
    and pending: "extract_transfer_from_pending e3 p = Some x" "tx_nym p = n" "it_nym x = n"
    and receipt: "extract_transfer_from_receipt e4 r = (Some x, d)" "plausible d"
      "rpc_ok e4 n d (it_purported_account x) AccountOutgoingTransfer"
      "extract_transfer_from_receipt e5 r = (Some x, d)" and notary: "plausible notary"
  shows "\<exists>s' w. perform_all ((e1, OpCreateTransfer x req)
       # (if ack_first then [(e2, OpAcknowledgeTransfer n x reply), (e3, OpConveyTransfer n notary p)]
          else [(e3, OpConveyTransfer n notary p), (e2, OpAcknowledgeTransfer n x reply)])
       @ [(e4, OpClearTransfer n notary r), (e5, OpCompleteTransfer n notary r reply2)]) s = Inr s'
     \<and> engine_get s' (n, env_random e1) = Some w \<and> wf_state w = Completed
     \<and> event_types w = [EventCreate]
          @ (if ack_first then [EventAcknowledge, EventConvey] else [EventConvey, EventAcknowledge])
          @ [EventAccept, EventComplete]"
proof -
  let ?i = "env_random e1"
  have good: "isTransfer x" "plausible (it_id x)" "plausible (it_real_account x)"
      "it_purported_account x \<noteq> []" "it_destination x \<noteq> []" "plausible (it_destination x)"
    using x by (auto simp: good_transfer_def)
  have int: "isInternalTransfer e (it_real_account x) (it_destination x) = Inr True"
      "isInternalTransfer e (it_purported_account x) (it_destination x) = Inr True" "env_plugin_ok e"
    if "e \<in> {e1, e2, e4, e5}" for e
    using that envs by (auto simp: transfer_env_def)
  let ?w1 = "first_transfer e1 x InternalTransfer Initiated 2 1 2 [] (it_real_account x)
       (msg_notary_id req) (it_destination x)"
  obtain s1 where s1: "CreateTransfer e1 x req s = Inr (?i, s1)" "engine_inv s1" "tracked s1 n (it_id x) ?i ?w1"
    using CreateTransfer_run [OF inv fresh good(1,2) int(1), of req] int(3) [of e1] none nym req good
    by auto
  have w1: "wf_type ?w1 = InternalTransfer" "wf_state ?w1 = Initiated" "event_types ?w1 = [EventCreate]"
    by (simp_all add: event_types_def first_transfer_def)
  have mid: "\<exists>s3 w3. perform_all (if ack_first then [(e2, OpAcknowledgeTransfer n x reply), (e3, OpConveyTransfer n notary p)]
          else [(e3, OpConveyTransfer n notary p), (e2, OpAcknowledgeTransfer n x reply)]) s1 = Inr s3
      \<and> engine_inv s3 \<and> tracked s3 n (it_id x) ?i w3 \<and> wf_type w3 = InternalTransfer \<and> wf_state w3 = Conveyed
      \<and> event_count (wf_event w3) EventAcknowledge = 1
      \<and> event_types w3 = EventCreate # (if ack_first then [EventAcknowledge, EventConvey] else [EventConvey, EventAcknowledge])"
  proof (cases ack_first)
    case True
    let ?w2 = "with_transfer_event ?w1 [] Acknowledged EventAcknowledge 2 (msg_text reply)
       (msg_notary_id reply) (msg_time reply) True"
    obtain s2 where s2: "AcknowledgeTransfer e2 n x reply s1 = Inr (True, s2)" "engine_inv s2"
        "tracked s2 n (it_id x) ?i ?w2"
      using AcknowledgeTransfer_run [OF s1(2) good(1) int(1) s1(3), of e2 reply] w1 ack int(3) [of e2] by auto
    obtain s3 where "ConveyTransfer e3 n notary p s2 = Inr (?i, s3)" "engine_inv s3"
        "tracked s3 n (it_id x) ?i (with_transfer_event ?w2 [] Conveyed EventConvey 2 (tx_text p) notary
           (env_now e3) True)"
      using ConveyTransfer_internal_run [OF s2(2) pending s2(3)] w1 notary envs(2) by auto
    with True s2(1) w1 show ?thesis by (auto simp: first_transfer_def)
  next
    case False
    let ?w2 = "with_transfer_event ?w1 [] Conveyed EventConvey 2 (tx_text p) notary (env_now e3) True"
    obtain s2 where s2: "ConveyTransfer e3 n notary p s1 = Inr (?i, s2)" "engine_inv s2"
        "tracked s2 n (it_id x) ?i ?w2"
      using ConveyTransfer_internal_run [OF s1(2) pending s1(3)] w1 notary envs(2) by auto
    have "event_count (wf_event ?w2) EventAcknowledge = 0"
      by (simp add: first_transfer_def)
    then obtain s3 where "AcknowledgeTransfer e2 n x reply s2 = Inr (True, s3)" "engine_inv s3"
        "tracked s3 n (it_id x) ?i (with_transfer_event ?w2 [] Conveyed EventAcknowledge 2 (msg_text reply)
           (msg_notary_id reply) (msg_time reply) True)"
      using AcknowledgeTransfer_run [OF s2(2) good(1) int(1) s2(3), of e2 reply] w1 ack int(3) [of e2] by auto
    with False s2(1) w1 show ?thesis by (auto simp: first_transfer_def)
  qed
  then obtain s3 w3 where s3: "perform_all (if ack_first then [(e2, OpAcknowledgeTransfer n x reply), (e3, OpConveyTransfer n notary p)]
          else [(e3, OpConveyTransfer n notary p), (e2, OpAcknowledgeTransfer n x reply)]) s1 = Inr s3"
      "engine_inv s3" "tracked s3 n (it_id x) ?i w3" "wf_type w3 = InternalTransfer" "wf_state w3 = Conveyed"
      "event_count (wf_event w3) EventAcknowledge = 1"
      "event_types w3 = EventCreate # (if ack_first then [EventAcknowledge, EventConvey] else [EventConvey, EventAcknowledge])"
    by auto
  let ?w4 = "with_transfer_event w3 [] Accepted EventAccept 2 (tx_text r) notary (env_now e4) True"
  obtain s4 where s4: "ClearTransfer e4 n notary r s3 = Inr (True, s4)" "engine_inv s4"
      "tracked s4 n (it_id x) ?i ?w4"
    using ClearTransfer_run [OF s3(2) receipt(1,2) good(4,5) int(2) s3(3)] s3(4-6) notary receipt(3) int(3) [of e4]
    by auto
  obtain s5 where s5: "CompleteTransfer e5 n notary r reply2 s4 = Inr (True, s5)"
      "tracked s5 n (it_id x) ?i (with_transfer_event ?w4 [] Completed EventComplete 2 (tx_text r) notary
         (env_now e5) True)"
    using CompleteTransfer_run [OF s4(2) receipt(4) _ good(4,5) int(2) s4(3), where reply = reply2] s3(4) notary receipt(2) int(3) [of e5]
    by auto
  have "perform_all ((e1, OpCreateTransfer x req)
       # (if ack_first then [(e2, OpAcknowledgeTransfer n x reply), (e3, OpConveyTransfer n notary p)]
          else [(e3, OpConveyTransfer n notary p), (e2, OpAcknowledgeTransfer n x reply)])
       @ [(e4, OpClearTransfer n notary r), (e5, OpCompleteTransfer n notary r reply2)]) s = Inr s5"
    unfolding append_Cons [symmetric] perform_all_append by (simp add: s1(1) s3(1) s4(1) s5(1))
  then show ?thesis using s5(2) s3(7) by (auto simp: tracked_def)
qed

theorem internal_transfer_sequence_witness:
  "\<exists>s' w. perform_all ((ex_env CHR ''t'', OpCreateTransfer (ex_item CHR ''t'') (ex_message True))
       # (if False then [(ex_env CHR ''t'', OpAcknowledgeTransfer alice (ex_item CHR ''t'') (ex_message True)),
            (ex_env CHR ''t'', OpConveyTransfer alice (ex_id CHR ''n'') ex_pending)]
          else [(ex_env CHR ''t'', OpConveyTransfer alice (ex_id CHR ''n'') ex_pending),
            (ex_env CHR ''t'', OpAcknowledgeTransfer alice (ex_item CHR ''t'') (ex_message True))])
       @ [(ex_env CHR ''t'', OpClearTransfer alice (ex_id CHR ''n'') ex_receipt),
          (ex_env CHR ''t'', OpCompleteTransfer alice (ex_id CHR ''n'') ex_receipt (ex_message True))]) ex_engine = Inr s'
     \<and> engine_get s' (alice, env_random (ex_env CHR ''t'')) = Some w \<and> wf_state w = Completed
     \<and> event_types w = [EventCreate]
          @ (if False then [EventAcknowledge, EventConvey] else [EventConvey, EventAcknowledge])
          @ [EventAccept, EventComplete]"
  by (rule internal_transfer_sequence [where d = bob])
    (simp_all add: ex_defs good_transfer_def isTransfer_def transfer_env_def isInternalTransfer_def Let_def
      extract_transfer_from_pending_def extract_transfer_from_receipt_def rpc_ok_def)

text \<open>
  C24. A transfer to another nym, on the side of the sender: created, acknowledged by the notary,
  cleared by the receipt and completed; the recipient of the receipt is recorded as the party.
\<close>

theorem outgoing_transfer_sequence:
  assumes inv: "engine_inv s" and fresh: "fresh_id (env_random e1) s" and x: "good_transfer x"
    and none: "PaymentWorkflowLookup n (it_id x) s = []" and nym: "en_nyms s n \<noteq> None" "plausible n"
    and req: "msg_nym_id req = n" "plausible (msg_notary_id req)" "plausible (env_random e1)"
      "plausible (env_account_contract e1 (it_real_account x))"
    and envs: "list_all (transfer_env False x) [e1, e2, e3, e4]"
    and ack: "plausible (msg_notary_id reply)"
    and receipt: "extract_transfer_from_receipt e3 r = (Some x, d)" "plausible d"
      "rpc_ok e3 n d (it_purported_account x) AccountOutgoingTransfer"
      "extract_transfer_from_receipt e4 r = (Some x, d)" and notary: "plausible notary"
  shows "\<exists>s' w. perform_all [(e1, OpCreateTransfer x req), (e2, OpAcknowledgeTransfer n x reply),
         (e3, OpClearTransfer n notary r), (e4, OpCompleteTransfer n notary r reply2)] s = Inr s'
     \<and> engine_get s' (n, env_random e1) = Some w \<and> wf_state w = Completed \<and> wf_party w = [d]
     \<and> event_types w = [EventCreate, EventAcknowledge, EventAccept, EventComplete]"
proof -
  let ?i = "env_random e1"
  have good: "isTransfer x" "plausible (it_id x)" "plausible (it_real_account x)"
      "it_purported_account x \<noteq> []" "it_destination x \<noteq> []" "d \<noteq> []"
    using x receipt(2) by (auto simp: good_transfer_def)
  have int: "isInternalTransfer e (it_real_account x) (it_destination x) = Inr False"
      "isInternalTransfer e (it_purported_account x) (it_destination x) = Inr False" "env_plugin_ok e"
    if "e \<in> {e1, e2, e3, e4}" for e
    using that envs by (auto simp: transfer_env_def)
  let ?w1 = "first_transfer e1 x OutgoingTransfer Initiated 2 1 2 [] (it_real_account x) (msg_notary_id req) []"
  obtain s1 where s1: "CreateTransfer e1 x req s = Inr (?i, s1)" "engine_inv s1" "tracked s1 n (it_id x) ?i ?w1"
    using CreateTransfer_run [OF inv fresh good(1,2) int(1), of req] int(3) [of e1] none nym req good by auto
  have w1: "wf_type ?w1 = OutgoingTransfer" "wf_state ?w1 = Initiated" "event_types ?w1 = [EventCreate]"
      "wf_party ?w1 = []"
    by (simp_all add: event_types_def first_transfer_def)
  let ?w2 = "with_transfer_event ?w1 [] Acknowledged EventAcknowledge 2 (msg_text reply)
       (msg_notary_id reply) (msg_time reply) True"
  obtain s2 where s2: "AcknowledgeTransfer e2 n x reply s1 = Inr (True, s2)" "engine_inv s2"
      "tracked s2 n (it_id x) ?i ?w2"
    using AcknowledgeTransfer_run [OF s1(2) good(1) int(1) s1(3), of e2 reply] w1 ack int(3) [of e2] by auto
  let ?w3 = "with_transfer_event ?w2 d Accepted EventAccept 2 (tx_text r) notary (env_now e3) True"
  obtain s3 where s3: "ClearTransfer e3 n notary r s2 = Inr (True, s3)" "engine_inv s3"
      "tracked s3 n (it_id x) ?i ?w3"
    using ClearTransfer_run [OF s2(2) receipt(1,2) good(4,5) int(2) s2(3)] w1 notary receipt(3) int(3) [of e3] by auto
  obtain s4 where s4: "CompleteTransfer e4 n notary r reply2 s3 = Inr (True, s4)"
      "tracked s4 n (it_id x) ?i (with_transfer_event ?w3 d Completed EventComplete 2 (tx_text r) notary
         (env_now e4) True)"
    using CompleteTransfer_run [OF s3(2) receipt(4) _ good(4,5) int(2) s3(3), where reply = reply2] w1 notary receipt(2) int(3) [of e4]
    by auto
  show ?thesis
    using s1(1) s2(1) s3(1) s4 w1 good(6) by (auto simp: tracked_def with_transfer_event_def event_types_def)
qed

theorem outgoing_transfer_sequence_witness:
  "\<exists>s' w. perform_all [(ex_env CHR ''x'', OpCreateTransfer (ex_item CHR ''x'') (ex_message True)),
         (ex_env CHR ''x'', OpAcknowledgeTransfer alice (ex_item CHR ''x'') (ex_message True)),
         (ex_env CHR ''x'', OpClearTransfer alice (ex_id CHR ''n'') ex_receipt),
         (ex_env CHR ''x'', OpCompleteTransfer alice (ex_id CHR ''n'') ex_receipt (ex_message True))] ex_engine = Inr s'
     \<and> engine_get s' (alice, env_random (ex_env CHR ''x'')) = Some w \<and> wf_state w = Completed \<and> wf_party w = [bob]
     \<and> event_types w = [EventCreate, EventAcknowledge, EventAccept, EventComplete]"
  by (rule outgoing_transfer_sequence)
    (simp_all add: ex_defs good_transfer_def isTransfer_def transfer_env_def isInternalTransfer_def Let_def
      extract_transfer_from_receipt_def rpc_ok_def)

end
