(* ===== verification/Workflow_Queries.thy ===== *)
theory Workflow_Queries
  imports Workflow_Engine
begin

text \<open>
  The read-only half of \<open>src/api/session/Workflow.cpp\<close>: which instrument a workflow carries
  (\<open>Contains*\<close>, \<open>Extract*\<close>, \<open>Instantiate*\<close>) and the lookups of \<open>Workflow\<close> by
  identifier, source, account and state. The deserializers of \<open>src/otx/common/\<close> and
  \<open>src/otx/blind/\<close> are arguments (\<open>parse\<close>), as in \<open>api.Factory()\<close>.
\<close>

definition ContainsCash :: "workflow \<Rightarrow> bool" where
  "ContainsCash w = (case wf_type w of OutgoingCash \<Rightarrow> True | IncomingCash \<Rightarrow> True | _ \<Rightarrow> False)"

definition ContainsCheque :: "workflow \<Rightarrow> bool" where
  "ContainsCheque w = (case wf_type w of
     OutgoingCheque \<Rightarrow> True | IncomingCheque \<Rightarrow> True | OutgoingInvoice \<Rightarrow> True
   | IncomingInvoice \<Rightarrow> True | _ \<Rightarrow> False)"

definition ContainsTransfer :: "workflow \<Rightarrow> bool" where
  "ContainsTransfer w = (case wf_type w of
     OutgoingTransfer \<Rightarrow> True | IncomingTransfer \<Rightarrow> True | InternalTransfer \<Rightarrow> True | _ \<Rightarrow> False)"

definition ExtractCheque :: "workflow \<Rightarrow> string" where
  "ExtractCheque w =
     (if \<not> ContainsCheque w then []
      else if 1 \<noteq> length (wf_source w) then []
      else text_of (ir_item (hd (wf_source w))))"

definition ExtractPurse :: "workflow \<Rightarrow> string option" where
  "ExtractPurse w =
     (if \<not> ContainsCash w then None
      else if 1 \<noteq> length (wf_source w) then None
      else Some (text_of (ir_item (hd (wf_source w)))))"

definition ExtractTransfer :: "workflow \<Rightarrow> string" where
  "ExtractTransfer w =
     (if \<not> ContainsTransfer w then []
      else if 1 \<noteq> length (wf_source w) then []
      else text_of (ir_item (hd (wf_source w))))"

text \<open>
  \<open>InstantiateCheque\<close> makes a blank cheque first; when the workflow has no serialized cheque the
  blank one is returned, with the error state.
\<close>

definition InstantiateCheque ::
  "'c \<Rightarrow> (string \<Rightarrow> 'c option) \<Rightarrow> workflow \<Rightarrow> workflow_state \<times> 'c option" where
  "InstantiateCheque blank parse w =
     (if ContainsCheque w then
        (let serialized = ExtractCheque w
         in if serialized = [] then (StateError, Some blank)
            else case parse serialized of
              None \<Rightarrow> (StateError, None)
            | Some c \<Rightarrow> (wf_state w, Some c))
      else (StateError, None))"

definition InstantiatePurse ::
  "(string \<Rightarrow> 'p option) \<Rightarrow> workflow \<Rightarrow> workflow_state \<times> 'p option" where
  "InstantiatePurse parse w =
     (if ContainsCash w then
        (case ExtractPurse w of
           None \<Rightarrow> (StateError, None)
         | Some serialized \<Rightarrow>
             (case parse serialized of
                None \<Rightarrow> (StateError, None)
              | Some p \<Rightarrow> (wf_state w, Some p)))
      else (StateError, None))"

definition InstantiateTransfer ::
  "(string \<Rightarrow> 't option) \<Rightarrow> workflow \<Rightarrow> workflow_state \<times> 't option" where
  "InstantiateTransfer parse w =
     (if ContainsTransfer w then
        (let serialized = ExtractTransfer w
         in if serialized = [] then (StateError, None)
            else case parse serialized of
              None \<Rightarrow> (StateError, None)
            | Some t \<Rightarrow> (wf_state w, Some t))
      else (StateError, None))"

subsection \<open>Lookups\<close>

definition LoadWorkflow :: "ident \<Rightarrow> ident \<Rightarrow> engine \<Rightarrow> workflow option outcome" where
  "LoadWorkflow nymID workflowID s = get_workflow_by_id nymID workflowID s"

definition LoadCheque ::
  "'c \<Rightarrow> (string \<Rightarrow> 'c option) \<Rightarrow> ident \<Rightarrow> ident \<Rightarrow> engine \<Rightarrow> (workflow_state \<times> 'c option) outcome" where
  "LoadCheque blank parse nymID chequeID s =
     bind_outcome (get_workflow_by_source [OutgoingCheque, IncomingCheque] nymID chequeID s)
       (\<lambda>workflow. case workflow of
          None \<Rightarrow> Inr (StateError, None)
        | Some w \<Rightarrow> Inr (InstantiateCheque blank parse w))"

definition LoadChequeByWorkflow ::
  "'c \<Rightarrow> (string \<Rightarrow> 'c option) \<Rightarrow> ident \<Rightarrow> ident \<Rightarrow> engine \<Rightarrow> (workflow_state \<times> 'c option) outcome" where
  "LoadChequeByWorkflow blank parse nymID workflowID s =
     bind_outcome (get_workflow_by_id_typed [OutgoingCheque, IncomingCheque] nymID workflowID s)
       (\<lambda>workflow. case workflow of
          None \<Rightarrow> Inr (StateError, None)
        | Some w \<Rightarrow> Inr (InstantiateCheque blank parse w))"

definition LoadTransfer ::
  "(string \<Rightarrow> 't option) \<Rightarrow> ident \<Rightarrow> ident \<Rightarrow> engine \<Rightarrow> (workflow_state \<times> 't option) outcome" where
  "LoadTransfer parse nymID transferID s =
     bind_outcome
       (get_workflow_by_source [OutgoingTransfer, IncomingTransfer, InternalTransfer] nymID transferID s)
       (\<lambda>workflow. case workflow of
          None \<Rightarrow> Inr (StateError, None)
        | Some w \<Rightarrow> Inr (InstantiateTransfer parse w))"

definition LoadTransferByWorkflow ::
  "(string \<Rightarrow> 't option) \<Rightarrow> ident \<Rightarrow> ident \<Rightarrow> engine \<Rightarrow> (workflow_state \<times> 't option) outcome" where
  "LoadTransferByWorkflow parse nymID workflowID s =
     bind_outcome
       (get_workflow_by_id_typed [OutgoingTransfer, IncomingTransfer, InternalTransfer] nymID workflowID s)
       (\<lambda>workflow. case workflow of
          None \<Rightarrow> Inr (StateError, None)
        | Some w \<Rightarrow> Inr (InstantiateTransfer parse w))"

definition WorkflowParty :: "ident \<Rightarrow> ident \<Rightarrow> nat \<Rightarrow> engine \<Rightarrow> string outcome" where
  "WorkflowParty nymID workflowID index s =
     bind_outcome (get_workflow_by_id nymID workflowID s)
       (\<lambda>workflow. case workflow of
          None \<Rightarrow> Inr []
        | Some w \<Rightarrow> if index < length (wf_party w) then Inr (wf_party w ! index) else Inl OutOfRange)"

definition WorkflowPartySize :: "ident \<Rightarrow> ident \<Rightarrow> engine \<Rightarrow> nat option outcome" where
  "WorkflowPartySize nymID workflowID s =
     bind_outcome (get_workflow_by_id nymID workflowID s)
       (\<lambda>workflow. Inr (case workflow of None \<Rightarrow> None | Some w \<Rightarrow> Some (length (wf_party w))))"

definition WorkflowState :: "ident \<Rightarrow> ident \<Rightarrow> engine \<Rightarrow> workflow_state outcome" where
  "WorkflowState nymID workflowID s =
     bind_outcome (get_workflow_by_id nymID workflowID s)
       (\<lambda>workflow. Inr (case workflow of None \<Rightarrow> StateError | Some w \<Rightarrow> wf_state w))"

definition WorkflowType :: "ident \<Rightarrow> ident \<Rightarrow> engine \<Rightarrow> workflow_type outcome" where
  "WorkflowType nymID workflowID s =
     bind_outcome (get_workflow_by_id nymID workflowID s)
       (\<lambda>workflow. Inr (case workflow of None \<Rightarrow> TypeError | Some w \<Rightarrow> wf_type w))"

definition List_workflows :: "ident \<Rightarrow> workflow_type \<Rightarrow> workflow_state \<Rightarrow> engine \<Rightarrow> ident set" where
  "List_workflows nymID type state s = PaymentWorkflowsByState nymID type state s"

definition WorkflowsByAccount :: "ident \<Rightarrow> ident \<Rightarrow> engine \<Rightarrow> ident set" where
  "WorkflowsByAccount nymID accountID s = PaymentWorkflowsByAccount nymID accountID s"

end
