(* ===== verification/Workflow_Properties.thy ===== *)
theory Workflow_Properties
  imports Workflow_Lifecycles Workflow_Queries
begin

text \<open>
  The properties of the payment workflow engine: what holds of every state it reaches, which calls
  fail where the documentation of \<open>include/opentxs/api/session/Workflow.hpp\<close> admits them, and
  what the queries return.
\<close>

definition empty_engine :: "engine \<Rightarrow> bool" where
  "empty_engine s \<longleftrightarrow> (\<forall>nym node. en_nyms s nym = Some node \<longrightarrow> node = pw_empty)"

definition reachable :: "engine \<Rightarrow> bool" where
  "reachable s \<longleftrightarrow> (\<exists>s0. empty_engine s0 \<and> engine_step\<^sup>*\<^sup>* s0 s)"

lemma empty_engine_inv: "empty_engine s \<Longrightarrow> engine_inv s"
  using node_inv_empty by (auto simp: empty_engine_def engine_inv_def)

lemma empty_engine_get: "empty_engine s \<Longrightarrow> engine_get s k = None"
  unfolding empty_engine_def engine_get_def by (metis option.case_eq_if option.collapse pw_get_empty)

lemma reachable_inv: "reachable s \<Longrightarrow> engine_inv s"
  using payment.run_inv empty_engine_inv by (auto simp: reachable_def)

lemma engine_get_listed:
  assumes "engine_inv s" "engine_get s (nym, i) = Some w"
  shows "i \<in> List_workflows nym (wf_type w) (wf_state w) s"
proof -
  obtain node where node: "en_nyms s nym = Some node" "pw_get i node = Some w"
    using assms(2) by (auto simp: engine_get_def split: option.splits)
  with assms(1) have inv: "pw_invar node" by (auto simp: engine_inv_def node_inv_def)
  with pw_invar_get [OF inv node(2)] node show ?thesis
    by (simp add: List_workflows_def PaymentWorkflowsByState_def pw_invar_def)
qed

lemma WorkflowState_eq:
  "engine_inv s \<Longrightarrow> engine_get s (nym, i) = Some w \<Longrightarrow> WorkflowState nym i s = Inr (wf_state w)"
  by (simp add: WorkflowState_def get_workflow_by_id_eq)

lemma WorkflowType_eq:
  "engine_inv s \<Longrightarrow> engine_get s (nym, i) = Some w \<Longrightarrow> WorkflowType nym i s = Inr (wf_type w)"
  by (simp add: WorkflowType_def get_workflow_by_id_eq)

text \<open>Saving a workflow uses up its identifier only.\<close>

lemma save_workflow_fresh:
  assumes inv: "engine_inv s" and st: "may_store s nym w" and seas: "seasoned w"
    and save: "save_workflow env nym acct w s = Inr (b, s')"
    and fresh: "fresh_id j s" "wf_id w \<noteq> Some j"
  shows "fresh_id j s'"
proof -
  from st obtain node i where node: "en_nyms s nym = Some node" and i: "wf_id w = Some i"
    and t: "indexed_type i w node = wf_type w"
    by (auto simp: may_store_def split: option.splits)
  from save have valid: "check_workflow w" and plugin: "env_plugin_ok env"
    using pw_Store_aborts_or_saves [of "env_plugin_ok env" w node]
    by (auto simp: save_workflow_def Let_def outcome_rules storage_Store_def node)
  from engine_invD [OF inv node] valid seas i t obtain node' where
      n: "pw_Store True w node = Inr (True, node')"
      "pw_states node' = (pw_states node)(i := Some (wf_type w, wf_state w))"
    by (rule pw_Store_node) blast
  have "en_nyms s' = (en_nyms s)(nym := Some node')"
    using save n(1) plugin node valid
    by (auto simp: save_workflow_def Let_def outcome_rules storage_Store_def split: if_splits)
  then show ?thesis using fresh n(2) node i by (auto simp: fresh_id_def)
qed

lemma WriteCheque_fresh:
  assumes inv: "engine_inv s" and fresh: "fresh_id (env_random env) s" and op: "WriteCheque env c s = Inr (r, s')"
    and j: "fresh_id j s" "j \<noteq> env_random env"
  shows "fresh_id j s'"
  using inv op
proof (cases rule: WriteCheque_cases)
  case (new i w s1)
  let ?w = "first_cheque env c OutgoingCheque Unsent 1 1 1
    (if ch_has_recipient c then ch_recipient_nym c else []) (ch_sender_account c) None"
  from new(2) obtain b where save: "save_workflow env (ch_sender_nym c) (ch_sender_account c) ?w s = Inr (b, s1)"
    unfolding create_cheque_def new_cheque_eq
    by (auto elim!: outcome_elims save_workflow_pair_cases split: if_splits)
  obtain node where "en_nyms s (ch_sender_nym c) = Some node"
    using save by (auto simp: save_workflow_def Let_def outcome_rules storage_Store_def split: option.splits)
  from may_store_fresh [OF fresh first_cheque_fields(1) this inv]
  have "fresh_id j s1"
    by (rule save_workflow_fresh [OF inv _ _ save j(1)])
      (use j(2) in \<open>auto simp: seasoned_def initial_state_def workflow_version_def\<close>)
  with new(3) show ?thesis by (simp add: fresh_id_def)
qed (use j in auto)

subsection \<open>The example cheque, written\<close>

definition ex_written :: workflow where
  "ex_written = first_cheque (ex_env CHR ''t'') ex_cheque OutgoingCheque Unsent 1 1 1 bob (ex_id CHR ''s'') None"

lemma ex_empty [simp]: "empty_engine ex_engine"
  by (auto simp: empty_engine_def ex_engine_def)

lemma ex_write:
  obtains s where "engine_step ex_engine s" "engine_inv s" "reachable s"
    "tracked s alice (ex_id CHR ''c'') (ex_id CHR ''w'') ex_written" "fresh_id (ex_id CHR ''v'') s"
    "WriteCheque (ex_env CHR ''t'') ex_cheque ex_engine = Inr (ex_id CHR ''w'', s)"
proof -
  have "\<exists>s'. WriteCheque (ex_env CHR ''t'') ex_cheque ex_engine = Inr (env_random (ex_env CHR ''t''), s')
    \<and> engine_inv s' \<and> tracked s' (ch_sender_nym ex_cheque) (ch_id ex_cheque) (env_random (ex_env CHR ''t''))
       (first_cheque (ex_env CHR ''t'') ex_cheque OutgoingCheque Unsent 1 1 1 (ch_recipient_nym ex_cheque)
          (ch_sender_account ex_cheque) None)
    \<and> engine_get s' = (engine_get ex_engine)((ch_sender_nym ex_cheque, env_random (ex_env CHR ''t'')) :=
       Some (first_cheque (ex_env CHR ''t'') ex_cheque OutgoingCheque Unsent 1 1 1 (ch_recipient_nym ex_cheque)
          (ch_sender_account ex_cheque) None))"
    by (rule WriteCheque_run)
      (simp_all add: ex_defs good_cheque_def isCheque_def rpc_ok_def SourceAccountID_def)
  then obtain s where s: "WriteCheque (ex_env CHR ''t'') ex_cheque ex_engine = Inr (ex_id CHR ''w'', s)"
      "engine_inv s" "tracked s alice (ex_id CHR ''c'') (ex_id CHR ''w'') ex_written"
    by (auto simp: ex_env_def ex_cheque_def ex_written_def)
  have "perform (ex_env CHR ''t'') (OpWriteCheque ex_cheque) ex_engine = Inr s" using s(1) by simp
  then have step: "engine_step ex_engine s" by (rule engine_step.call) simp
  then have "reachable s" unfolding reachable_def using ex_empty by blast
  moreover have "fresh_id (ex_id CHR ''v'') s"
    by (rule WriteCheque_fresh [OF _ _ s(1)]) (simp_all add: ex_env_def)
  ultimately show thesis using step s that by blast
qed

lemma ex_written_facts [simp]: "wf_type ex_written = OutgoingCheque" "wf_state ex_written = Unsent"
  by (simp_all add: ex_written_def)

subsection \<open>Every reachable state\<close>

text \<open>
  C2. In every state that any sequence of returning calls reaches from empty stores, every stored
  workflow passes the check of its version, carries the identifier it is stored under, is in a state
  that the moves of its type lead to from the initial state, and is what the queries by identifier
  and by state report.
\<close>

theorem reachable_workflows_valid:
  assumes "reachable s" "engine_get s (nym, i) = Some w"
  shows "check_workflow w \<and> wf_id w = Some i
    \<and> (\<exists>st. initial_state (wf_type w) = Some st \<and> state_path (wf_type w) st (wf_state w))
    \<and> WorkflowType nym i s = Inr (wf_type w) \<and> WorkflowState nym i s = Inr (wf_state w)
    \<and> i \<in> List_workflows nym (wf_type w) (wf_state w) s"
proof -
  from assms(1) obtain s0 where s0: "empty_engine s0" "engine_step\<^sup>*\<^sup>* s0 s" by (auto simp: reachable_def)
  note inv0 = empty_engine_inv [OF s0(1)] and inv = reachable_inv [OF assms(1)]
  from payment.run_origin [OF s0(2) inv0 assms(2)] empty_engine_get [OF s0(1)]
  obtain x where x: "born x" "evolves\<^sup>*\<^sup>* x w" by auto
  have "later x w" using x(2) by (rule evolves_rtranclp_later)
  then have "initial_state (wf_type w) = Some (wf_state x)" "state_path (wf_type w) (wf_state x) (wf_state w)"
    using x(1) by (simp_all add: later_def born_def)
  with engine_get_inv [OF inv assms(2)] WorkflowType_eq [OF inv assms(2)] WorkflowState_eq [OF inv assms(2)]
    engine_get_listed [OF inv assms(2)] show ?thesis by blast
qed

theorem reachable_workflows_valid_witness:
  "\<exists>s. check_workflow ex_written \<and> wf_id ex_written = Some (ex_id CHR ''w'')
    \<and> (\<exists>st. initial_state (wf_type ex_written) = Some st
         \<and> state_path (wf_type ex_written) st (wf_state ex_written))
    \<and> WorkflowType alice (ex_id CHR ''w'') s = Inr (wf_type ex_written)
    \<and> WorkflowState alice (ex_id CHR ''w'') s = Inr (wf_state ex_written)
    \<and> ex_id CHR ''w'' \<in> List_workflows alice (wf_type ex_written) (wf_state ex_written) s"
proof -
  obtain s where s: "reachable s" "tracked s alice (ex_id CHR ''c'') (ex_id CHR ''w'') ex_written"
    by (rule ex_write)
  from s(2) have "engine_get s (alice, ex_id CHR ''w'') = Some ex_written" by (simp add: tracked_def)
  from reachable_workflows_valid [OF s(1) this] show ?thesis by blast
qed

text \<open>
  C5. What any further calls do to a workflow: it stays stored; its version, identifier, type,
  source and units stay; its recorded events, parties and accounts stay as a prefix; its state
  follows the moves of the type.
\<close>

theorem workflow_history:
  assumes "reachable s" "engine_step\<^sup>*\<^sup>* s s'" "engine_get s k = Some w"
  shows "\<exists>w'. engine_get s' k = Some w' \<and> later w w'"
  using payment.run_present [OF assms(2) reachable_inv [OF assms(1)] assms(3)] evolves_rtranclp_later
  by blast

text \<open>The environment of a later call.\<close>

definition ex_env2 :: wf_env where
  "ex_env2 = (ex_env CHR ''t'')\<lparr>env_random := ex_id CHR ''v'', env_now := 200\<rparr>"

lemma ex_send:
  assumes "engine_inv s" "tracked s alice (ex_id CHR ''c'') (ex_id CHR ''w'') ex_written"
    "fresh_id (ex_id CHR ''v'') s"
  obtains s' where
    "SendCheque ex_env2 ex_cheque (ex_message True) (Some (ex_message True)) s = Inr (True, s')"
    "engine_step s s'"
proof -
  have "\<exists>s'. SendCheque ex_env2 ex_cheque (ex_message True) (Some (ex_message True)) s = Inr (True, s')"
    using SendCheque_run [OF assms(1), of ex_cheque "ex_id CHR ''w''" ex_written "ex_message True" ex_env2
        "Some (ex_message True)"] assms(2)
    by (auto simp: ex_defs ex_env2_def isCheque_def good_message_def)
  then obtain s' where s': "SendCheque ex_env2 ex_cheque (ex_message True) (Some (ex_message True)) s
      = Inr (True, s')" by blast
  then have "perform ex_env2 (OpSendCheque ex_cheque (ex_message True) (Some (ex_message True))) s = Inr s'"
    by simp
  then have "engine_step s s'" by (rule engine_step.call) (use assms(3) in \<open>simp add: ex_env2_def\<close>)
  with s' that show thesis by blast
qed

theorem workflow_history_witness:
  "\<exists>s s' w'. SendCheque ex_env2 ex_cheque (ex_message True) (Some (ex_message True)) s = Inr (True, s')
    \<and> engine_get s' (alice, ex_id CHR ''w'') = Some w' \<and> later ex_written w'"
proof -
  obtain s where s: "reachable s" "engine_inv s"
      "tracked s alice (ex_id CHR ''c'') (ex_id CHR ''w'') ex_written" "fresh_id (ex_id CHR ''v'') s"
    by (rule ex_write)
  obtain s' where s': "SendCheque ex_env2 ex_cheque (ex_message True) (Some (ex_message True)) s = Inr (True, s')"
      "engine_step s s'" by (rule ex_send [OF s(2-4)])
  have "engine_get s (alice, ex_id CHR ''w'') = Some ex_written" using s(3) by (simp add: tracked_def)
  have "engine_step\<^sup>*\<^sup>* s s'" using s'(2) by (rule r_into_rtranclp)
  from workflow_history [OF s(1) this \<open>engine_get s _ = _\<close>] s'(1) show ?thesis by blast
qed

text \<open>
  C27. Final states: whatever is called afterwards, a workflow that is completed, cancelled, aborted or
  rejected stays in that state.
\<close>

theorem final_states_stay:
  assumes "reachable s" "engine_step\<^sup>*\<^sup>* s s'" "engine_get s (nym, i) = Some w"
    and "wf_state w \<in> {Completed, Cancelled, Aborted, Rejected}"
  shows "WorkflowState nym i s' = Inr (wf_state w)"
proof -
  have inv: "engine_inv s'" using payment.run_inv [OF assms(2)] reachable_inv [OF assms(1)] .
  obtain w' where w': "engine_get s' (nym, i) = Some w'" "later w w'"
    using payment.run_present [OF assms(2) reachable_inv [OF assms(1)] assms(3)] evolves_rtranclp_later by blast
  have "terminal (wf_type w) (wf_state w)"
    using assms(4) by (cases "wf_type w") (auto simp: terminal_def moves_def)
  with w'(2) have "wf_state w' = wf_state w" by (auto simp: later_def dest: terminal_path)
  with WorkflowState_eq [OF inv w'(1)] show ?thesis by simp
qed

lemma ex_cancel:
  assumes "engine_inv s" "tracked s alice (ex_id CHR ''c'') (ex_id CHR ''w'') ex_written"
    "fresh_id (ex_id CHR ''v'') s"
  obtains s' w where "engine_step s s'" "engine_get s' (alice, ex_id CHR ''w'') = Some w" "wf_state w = Cancelled"
proof -
  have "\<exists>s'. CancelCheque ex_env2 ex_cheque (ex_message True) (Some (ex_message True)) s = Inr (True, s') \<and>
      engine_get s' (alice, ex_id CHR ''w'') = Some (with_cheque_event ex_env2 ex_written Cancelled EventCancel 1
        (ex_message True) (Some (ex_message True)) [])"
    using CancelCheque_run [OF assms(1), of ex_cheque "ex_id CHR ''w''" ex_written "Some (ex_message True)"
        "ex_message True" ex_env2] assms(2)
    by (auto simp: ex_defs ex_env2_def isCheque_def good_message_def cheque_deposit_success_def)
  then obtain s' where s': "CancelCheque ex_env2 ex_cheque (ex_message True) (Some (ex_message True)) s = Inr (True, s')"
      "engine_get s' (alice, ex_id CHR ''w'') = Some (with_cheque_event ex_env2 ex_written Cancelled EventCancel 1
        (ex_message True) (Some (ex_message True)) [])" by blast
  then have "perform ex_env2 (OpCancelCheque ex_cheque (ex_message True) (Some (ex_message True))) s = Inr s'"
    by simp
  then have "engine_step s s'" by (rule engine_step.call) (use assms(3) in \<open>simp add: ex_env2_def\<close>)
  moreover have "wf_state (with_cheque_event ex_env2 ex_written Cancelled EventCancel 1
        (ex_message True) (Some (ex_message True)) []) = Cancelled"
    by (simp add: cheque_deposit_success_def ex_message_def)
  ultimately show thesis using s'(2) that by blast
qed

theorem final_states_stay_witness:
  "\<exists>s w. wf_state w = Cancelled \<and> engine_get s (alice, ex_id CHR ''w'') = Some w
     \<and> WorkflowState alice (ex_id CHR ''w'') s = Inr (wf_state w)"
proof -
  obtain s0 where s0: "engine_step ex_engine s0" "reachable s0" "engine_inv s0"
      "tracked s0 alice (ex_id CHR ''c'') (ex_id CHR ''w'') ex_written" "fresh_id (ex_id CHR ''v'') s0"
    by (rule ex_write)
  obtain s w where s: "engine_step s0 s" "engine_get s (alice, ex_id CHR ''w'') = Some w" "wf_state w = Cancelled"
    by (rule ex_cancel [OF s0(3-5)])
  have "reachable s" using s0(2) s(1) unfolding reachable_def by (meson rtranclp.rtrancl_into_rtrancl)
  moreover have "engine_step\<^sup>*\<^sup>* s s" by simp
  ultimately show ?thesis
    using final_states_stay [of s s alice "ex_id CHR ''w''" w] s(2,3) by (intro exI [of _ s] exI [of _ w]) simp
qed

subsection \<open>Calls that end the process\<close>

lemma event_count_absent: "event_count (wf_event w) t = 0 \<longleftrightarrow> t \<notin> set (event_types w)"
proof -
  have "event_count es t = 0 \<longleftrightarrow> t \<notin> set (map ev_type es)" for es by (induction es) auto
  then show ?thesis by (simp add: event_types_def)
qed

text \<open>
  A cancellation attempt. After the cheque was sent an attempt is recorded whatever the reply
  says; before it was sent, the process ends unless the reply reports success, because the check
  refuses an unsent cheque with a cancel event.
\<close>

theorem cancel_attempt:
  assumes "engine_inv s" "isCheque c" "tracked s (ch_sender_nym c) (ch_id c) i w"
    and "wf_type w = OutgoingCheque" "wf_state w = Unsent \<or> wf_state w = Conveyed"
    and "good_message req" "env_plugin_ok env"
  shows "aborts (CancelCheque env c req rep s) \<longleftrightarrow> wf_state w = Unsent \<and> \<not> cheque_deposit_success rep"
proof (cases "wf_state w = Conveyed \<or> wf_state w = Unsent \<and> cheque_deposit_success rep")
  case True
  from CancelCheque_run [OF assms(1-4) this assms(6,7)] True show ?thesis by auto
next
  case False
  with CancelCheque_aborts [OF assms(1-4) _ _ assms(6)] assms(5) show ?thesis by auto
qed

theorem cancel_attempt_witness:
  "\<exists>s. tracked s alice (ex_id CHR ''c'') (ex_id CHR ''w'') ex_written
     \<and> (aborts (CancelCheque (ex_env CHR ''t'') ex_cheque (ex_message True) None s) \<longleftrightarrow>
        wf_state ex_written = Unsent \<and> \<not> cheque_deposit_success None)"
proof -
  obtain s where s: "engine_inv s" "tracked s alice (ex_id CHR ''c'') (ex_id CHR ''w'') ex_written"
    by (rule ex_write)
  have "aborts (CancelCheque (ex_env CHR ''t'') ex_cheque (ex_message True) None s) \<longleftrightarrow>
        wf_state ex_written = Unsent \<and> \<not> cheque_deposit_success None"
    by (rule cancel_attempt [OF s(1)]) (use s(2) in \<open>simp_all add: ex_defs isCheque_def good_message_def\<close>)
  with s(2) show ?thesis by blast
qed

text \<open>
  A cheque without a recipient, which \<open>src/internal/otx/common/Cheque.hpp\<close> and the guard in
  \<open>WriteCheque\<close> provide for, can not be written: the check asks for exactly one party.
\<close>

theorem blank_cheque_aborts:
  assumes "isCheque c" "\<not> ch_has_recipient c" "PaymentWorkflowLookup (ch_sender_nym c) (ch_id c) s = []"
  shows "aborts (WriteCheque env c s)"
  using assms by (rule WriteCheque_blank_aborts)

theorem blank_cheque_aborts_witness:
  "aborts (WriteCheque (ex_env CHR ''t'') (ex_cheque\<lparr>ch_has_recipient := False\<rparr>) ex_engine)"
  by (rule blank_cheque_aborts) (simp_all add: ex_cheque_def isCheque_def)

text \<open>
  The receipt of a cheque that expired here before it was recorded as sent ends the process; for
  one that was sent it is recorded.
\<close>

theorem receipt_of_expired_cheque:
  assumes "engine_inv s" "env_receipt_cheque env receipt = Some c" "isCheque c"
    and "tracked s (ch_sender_nym c) (ch_id c) i w" "wf_type w = OutgoingCheque" "wf_state w = Expired"
    and "plausible r" "plausible (tx_real_notary receipt)" "env_plugin_ok env"
    and "rpc_ok env (ch_sender_nym c) (ch_recipient_nym c) (SourceAccountID c) AccountOutgoingCheque"
  shows "aborts (ClearCheque env r receipt s) \<longleftrightarrow> EventConvey \<notin> set (event_types w)"
proof -
  note count = event_count_absent [of w EventConvey]
  show ?thesis
  proof (cases "event_count (wf_event w) EventConvey = 0")
    case True
    with ClearCheque_aborts [OF assms(1-6) _ assms(7,8)] count show ?thesis by simp
  next
    case False
    with ClearCheque_run [OF assms(1-5) _ assms(7-10)] assms(6) count show ?thesis by auto
  qed
qed

lemma ex_expire:
  assumes "engine_inv s" "tracked s alice (ex_id CHR ''c'') (ex_id CHR ''w'') ex_written"
  obtains s' where "engine_inv s'"
    "tracked s' alice (ex_id CHR ''c'') (ex_id CHR ''w'') (ex_written\<lparr>wf_state := Expired\<rparr>)"
  using ExpireCheque_run [OF assms(1), of ex_cheque "ex_env CHR ''t''" alice "ex_id CHR ''w''" ex_written] assms(2)
  by (auto simp: ex_defs isCheque_def)

theorem receipt_of_expired_cheque_witness:
  "\<exists>s. tracked s alice (ex_id CHR ''c'') (ex_id CHR ''w'') (ex_written\<lparr>wf_state := Expired\<rparr>)
     \<and> (aborts (ClearCheque (ex_env CHR ''t'') bob ex_receipt s) \<longleftrightarrow>
        EventConvey \<notin> set (event_types (ex_written\<lparr>wf_state := Expired\<rparr>)))"
proof -
  obtain s0 where "engine_inv s0" "tracked s0 alice (ex_id CHR ''c'') (ex_id CHR ''w'') ex_written"
    by (rule ex_write)
  then obtain s where s: "engine_inv s"
      "tracked s alice (ex_id CHR ''c'') (ex_id CHR ''w'') (ex_written\<lparr>wf_state := Expired\<rparr>)"
    by (rule ex_expire)
  have "aborts (ClearCheque (ex_env CHR ''t'') bob ex_receipt s) \<longleftrightarrow>
        EventConvey \<notin> set (event_types (ex_written\<lparr>wf_state := Expired\<rparr>))"
    by (rule receipt_of_expired_cheque [OF s(1), where c = ex_cheque and i = "ex_id CHR ''w''"])
      (use s(2) in \<open>simp_all add: ex_defs isCheque_def rpc_ok_def SourceAccountID_def\<close>)
  with s(2) show ?thesis by blast
qed

text \<open>
  The order of events of an internal transfer that was conveyed: it can be cleared exactly when
  the acknowledgement is recorded once, and acknowledged exactly when none is recorded; the other
  calls end the process.
\<close>

theorem conveyed_internal_transfer:
  assumes "engine_inv s" "isTransfer x" "transfer_env True x env" "it_purported_account x \<noteq> []"
    and "it_destination x \<noteq> []" "extract_transfer_from_receipt env receipt = (Some x, d)" "plausible d"
    and "tracked s n (it_id x) i w" "wf_type w = InternalTransfer" "wf_state w = Conveyed"
    and "plausible notary" "plausible (msg_notary_id reply)"
    and "rpc_ok env n d (it_purported_account x) AccountOutgoingTransfer"
  shows "(aborts (AcknowledgeTransfer env n x reply s) \<longleftrightarrow> EventAcknowledge \<in> set (event_types w))
    \<and> (aborts (ClearTransfer env n notary receipt s) \<longleftrightarrow> EventAcknowledge \<notin> set (event_types w))"
proof -
  have env: "isInternalTransfer env (it_real_account x) (it_destination x) = Inr True"
      "isInternalTransfer env (it_purported_account x) (it_destination x) = Inr True" "env_plugin_ok env"
    using assms(3) by (simp_all add: transfer_env_def)
  note f = tracked_inv [OF assms(1,8)]
  have le: "event_count (wf_event w) EventAcknowledge \<le> 1"
    using internal_transfer_check [of w] f assms(9,10) by simp
  note count = event_count_absent [of w EventAcknowledge]
  have "aborts (AcknowledgeTransfer env n x reply s) \<longleftrightarrow> EventAcknowledge \<in> set (event_types w)"
  proof (cases "event_count (wf_event w) EventAcknowledge = 0")
    case True
    with AcknowledgeTransfer_run [OF assms(1,2) env(1) assms(8) _ _ assms(12) env(3)] assms(9,10) count
    show ?thesis by auto
  next
    case False
    with AcknowledgeTransfer_twice_aborts [OF assms(1,2) env(1) assms(8-10) _ assms(12)] count show ?thesis by auto
  qed
  moreover have "aborts (ClearTransfer env n notary receipt s) \<longleftrightarrow> EventAcknowledge \<notin> set (event_types w)"
  proof (cases "event_count (wf_event w) EventAcknowledge = 0")
    case True
    with ClearTransfer_unacknowledged_aborts [OF assms(1,6,7,4,5) env(2) assms(8-10) _ assms(11)] count
    show ?thesis by auto
  next
    case False
    with le have "event_count (wf_event w) EventAcknowledge = 1" by simp
    with ClearTransfer_run [OF assms(1,6,7,4,5) env(2) assms(8) _ _ assms(11) env(3) assms(13)] assms(9,10) count
    show ?thesis by auto
  qed
  ultimately show ?thesis by blast
qed

text \<open>The example transfer between two accounts of one nym, created and conveyed.\<close>

definition ex_conveyed :: workflow where
  "ex_conveyed = with_transfer_event
     (first_transfer (ex_env CHR ''t'') (ex_item CHR ''t'') InternalTransfer Initiated 2 1 2 [] (ex_id CHR ''s'')
        (ex_id CHR ''n'') (ex_id CHR ''t''))
     [] Conveyed EventConvey 2 ''pending'' (ex_id CHR ''n'') 100 True"

lemma ex_convey:
  obtains s where "engine_inv s" "tracked s alice (ex_id CHR ''i'') (ex_id CHR ''w'') ex_conveyed"
proof -
  have "\<exists>s. CreateTransfer (ex_env CHR ''t'') (ex_item CHR ''t'') (ex_message True) ex_engine
        = Inr (env_random (ex_env CHR ''t''), s) \<and> engine_inv s \<and>
      tracked s (msg_nym_id (ex_message True)) (it_id (ex_item CHR ''t'')) (env_random (ex_env CHR ''t''))
        (first_transfer (ex_env CHR ''t'') (ex_item CHR ''t'') (transfer_type True) Initiated 2 1 2 []
           (it_real_account (ex_item CHR ''t'')) (msg_notary_id (ex_message True))
           (if True then it_destination (ex_item CHR ''t'') else []))"
    by (rule CreateTransfer_run) (simp_all add: ex_defs isTransfer_def isInternalTransfer_def Let_def)
  then obtain s where s: "engine_inv s" "tracked s alice (ex_id CHR ''i'') (ex_id CHR ''w'')
      (first_transfer (ex_env CHR ''t'') (ex_item CHR ''t'') InternalTransfer Initiated 2 1 2 [] (ex_id CHR ''s'')
        (ex_id CHR ''n'') (ex_id CHR ''t''))"
    by (auto simp: ex_message_def ex_item_def ex_env_def)
  have "\<exists>s'. ConveyTransfer (ex_env CHR ''t'') alice (ex_id CHR ''n'') ex_pending s = Inr (ex_id CHR ''w'', s')
      \<and> engine_inv s' \<and> tracked s' alice (it_id (ex_item CHR ''t'')) (ex_id CHR ''w'')
        (with_transfer_event (first_transfer (ex_env CHR ''t'') (ex_item CHR ''t'') InternalTransfer Initiated
           2 1 2 [] (ex_id CHR ''s'') (ex_id CHR ''n'') (ex_id CHR ''t''))
          [] Conveyed EventConvey 2 (tx_text ex_pending) (ex_id CHR ''n'') (env_now (ex_env CHR ''t'')) True)"
    by (rule ConveyTransfer_internal_run [OF s(1)])
      (use s(2) in \<open>simp_all add: ex_defs extract_transfer_from_pending_def\<close>)
  then show thesis using that by (auto simp: ex_conveyed_def ex_item_def ex_pending_def ex_env_def)
qed

theorem conveyed_internal_transfer_witness:
  "\<exists>s. tracked s alice (ex_id CHR ''i'') (ex_id CHR ''w'') ex_conveyed
     \<and> (aborts (AcknowledgeTransfer (ex_env CHR ''t'') alice (ex_item CHR ''t'') (ex_message True) s) \<longleftrightarrow>
          EventAcknowledge \<in> set (event_types ex_conveyed))
     \<and> (aborts (ClearTransfer (ex_env CHR ''t'') alice (ex_id CHR ''n'') ex_receipt s) \<longleftrightarrow>
          EventAcknowledge \<notin> set (event_types ex_conveyed))"
proof -
  obtain s where s: "engine_inv s" "tracked s alice (ex_id CHR ''i'') (ex_id CHR ''w'') ex_conveyed"
    by (rule ex_convey)
  have w: "wf_type ex_conveyed = InternalTransfer" "wf_state ex_conveyed = Conveyed"
    by (simp_all add: ex_conveyed_def)
  have "(aborts (AcknowledgeTransfer (ex_env CHR ''t'') alice (ex_item CHR ''t'') (ex_message True) s) \<longleftrightarrow>
          EventAcknowledge \<in> set (event_types ex_conveyed))
     \<and> (aborts (ClearTransfer (ex_env CHR ''t'') alice (ex_id CHR ''n'') ex_receipt s) \<longleftrightarrow>
          EventAcknowledge \<notin> set (event_types ex_conveyed))"
    by (rule conveyed_internal_transfer [OF s(1), where d = bob and i = "ex_id CHR ''w''"])
      (use s(2) w in \<open>simp_all add: ex_defs isTransfer_def transfer_env_def isInternalTransfer_def Let_def
        extract_transfer_from_receipt_def rpc_ok_def\<close>)
  with s(2) show ?thesis by blast
qed

text \<open>
  \<open>LoadChequeByWorkflow\<close> and \<open>LoadTransferByWorkflow\<close> of an identifier that is not
  stored use a null pointer; \<open>LoadWorkflow\<close> and \<open>LoadCheque\<close> of an unknown one report that
  there is none.
\<close>

theorem load_by_unknown_workflow:
  assumes "reachable s" "engine_get s (nym, i) = None"
  shows "LoadChequeByWorkflow blank parse nym i s = Inl NullDereference
    \<and> LoadTransferByWorkflow parse' nym i s = Inl NullDereference
    \<and> LoadWorkflow nym i s = Inr None"
  using assms(2) get_workflow_by_id_eq [OF reachable_inv [OF assms(1)], of nym i]
  by (simp add: LoadChequeByWorkflow_def LoadTransferByWorkflow_def LoadWorkflow_def get_workflow_by_id_typed_def)

theorem load_by_unknown_workflow_witness:
  "LoadChequeByWorkflow ex_cheque (\<lambda>_. Some ex_cheque) alice (ex_id CHR ''z'') ex_engine = Inl NullDereference
    \<and> LoadTransferByWorkflow (\<lambda>_. Some (ex_item CHR ''t'')) alice (ex_id CHR ''z'') ex_engine = Inl NullDereference
    \<and> LoadWorkflow alice (ex_id CHR ''z'') ex_engine = Inr None"
proof (rule load_by_unknown_workflow)
  show "reachable ex_engine" unfolding reachable_def using ex_empty by blast
qed simp

subsection \<open>Calls without the documented effect\<close>

text \<open>
  \<open>ExportCheque\<close>, the documented alternative to sending, never exports anything: it asks for
  a workflow of no type, so in every reachable state it returns false and changes nothing.
\<close>

theorem export_never_succeeds:
  assumes "reachable s"
  shows "ExportCheque env c s = Inr (False, s)"
  using ExportCheque_eq [OF reachable_inv [OF assms]] .

theorem export_never_succeeds_witness:
  "\<exists>s. reachable s \<and> engine_get s (alice, ex_id CHR ''w'') = Some ex_written
     \<and> ExportCheque (ex_env CHR ''t'') ex_cheque s = Inr (False, s)"
proof -
  obtain s where s: "reachable s" "tracked s alice (ex_id CHR ''c'') (ex_id CHR ''w'') ex_written"
    by (rule ex_write)
  with export_never_succeeds [OF s(1), of "ex_env CHR ''t''" ex_cheque] show ?thesis
    by (auto simp: tracked_def)
qed

text \<open>
  A nym that receives a cheque it wrote itself: the new incoming workflow is stored, but the
  source of the cheque still leads to the outgoing one, so no deposit finds it, and receiving the
  cheque again makes one more workflow.
\<close>

theorem own_cheque_can_not_be_deposited:
  assumes "engine_inv s" "fresh_id (env_random env) s" "good_cheque c" "validate_recipient n c"
    and "tracked s n (ch_id c) i w" "wf_type w = OutgoingCheque"
    and "plausible (msg_notary_id m)" "plausible (env_random env)" "env_plugin_ok env"
    and "rpc_ok env n (ch_sender_nym c) [] AccountIncomingCheque"
  shows "\<exists>s'. ReceiveCheque env n c m s = Inr (env_random env, s')
    \<and> engine_get s' (n, env_random env) \<noteq> None
    \<and> get_workflow_by_source [IncomingCheque] n (ch_id c) s' = Inr None
    \<and> DepositCheque env2 n acct c req rep s' = Inr (False, s')"
proof -
  have none: "get_workflow_by_source [IncomingCheque] n (ch_id c) s = Inr None"
    using tracked_source [OF assms(1,5)] assms(6) by simp
  have nym: "en_nyms s n \<noteq> None"
    using assms(5) by (auto simp: tracked_def engine_get_def split: option.splits)
  have msg: "case Some m of None \<Rightarrow> True | Some m \<Rightarrow> plausible (msg_notary_id m)" using assms(7) by simp
  obtain s' where s': "receive_cheque env n c (Some m) s = Inr (env_random env, s')" "engine_inv s'"
      "tracked s' n (ch_id c) i w" "engine_get s' (n, env_random env) \<noteq> None"
    using receive_cheque_run [OF assms(1-4) none msg assms(8-10) nym] assms(5) by auto
  show ?thesis
    using s' DepositCheque_hidden [OF s'(2,3) assms(6)] tracked_source [OF s'(2,3)] assms(6)
    by (auto simp: ReceiveCheque_def)
qed

definition ex_own_cheque :: cheque where
  "ex_own_cheque = ex_cheque\<lparr>ch_recipient_nym := alice\<rparr>"

theorem own_cheque_can_not_be_deposited_witness:
  "\<exists>s s'. ReceiveCheque ex_env2 alice ex_own_cheque (ex_message True) s = Inr (env_random ex_env2, s')
    \<and> engine_get s' (alice, env_random ex_env2) \<noteq> None
    \<and> get_workflow_by_source [IncomingCheque] alice (ch_id ex_own_cheque) s' = Inr None
    \<and> DepositCheque ex_env2 alice (ex_id CHR ''d'') ex_own_cheque (ex_message True) (Some (ex_message True)) s'
      = Inr (False, s')"
proof -
  obtain s where s: "engine_inv s" "tracked s alice (ex_id CHR ''c'') (ex_id CHR ''w'') ex_written"
      "fresh_id (ex_id CHR ''v'') s" by (rule ex_write)
  have "\<exists>s'. ReceiveCheque ex_env2 alice ex_own_cheque (ex_message True) s = Inr (env_random ex_env2, s')
    \<and> engine_get s' (alice, env_random ex_env2) \<noteq> None
    \<and> get_workflow_by_source [IncomingCheque] alice (ch_id ex_own_cheque) s' = Inr None
    \<and> DepositCheque ex_env2 alice (ex_id CHR ''d'') ex_own_cheque (ex_message True) (Some (ex_message True)) s'
      = Inr (False, s')"
    by (rule own_cheque_can_not_be_deposited [OF s(1), where i = "ex_id CHR ''w''" and w = ex_written])
      (use s(2,3) in \<open>simp_all add: ex_defs ex_own_cheque_def ex_env2_def good_cheque_def isCheque_def
        validate_recipient_def rpc_ok_def\<close>)
  then show ?thesis by blast
qed

text \<open>
  \<open>AcceptTransfer\<close>, documented as "a transfer accept, or accept attempt" that may be repeated
  until successful, completes the workflow at the first call, also when the reply reports failure;
  the workflow is final afterwards and no later call changes it.
\<close>

theorem failed_accept_completes:
  assumes "engine_inv s" "extract_transfer_from_pending env p = Some x" "tx_nym p = n" "it_nym x \<noteq> n"
    and "tracked s n (it_id x) i w" "wf_type w = IncomingTransfer" "wf_state w = Conveyed"
    and "plausible (msg_notary_id reply)" "env_plugin_ok env"
    and failed: "\<not> msg_success reply"
  shows "\<exists>s' w'. AcceptTransfer env n notary p reply s = Inr (True, s')
    \<and> engine_get s' (n, i) = Some w' \<and> wf_state w' = Completed
    \<and> ev_success (last (wf_event w'))
    \<and> (\<forall>reply2. AcceptTransfer env n notary p reply2 s' = Inr (False, s'))"
proof -
  let ?w' = "with_transfer_event w (it_nym x) Completed EventAccept 2 (msg_text reply) (msg_notary_id reply)
     (msg_time reply) True"
  obtain s' where s': "AcceptTransfer env n notary p reply s = Inr (True, s')" "engine_inv s'"
      "tracked s' n (it_id x) i ?w'"
    using AcceptTransfer_run [OF assms(1-9)] by blast
  have "AcceptTransfer env n notary p reply2 s' = Inr (False, s')" for reply2
    using assms(2-4,6) by (simp add: AcceptTransfer_def Let_def tracked_source [OF s'(2,3)])
  with s' show ?thesis by (auto simp: tracked_def the_transfer_event_def)
qed

definition ex_env3 :: wf_env where
  "ex_env3 = (ex_env CHR ''t'')\<lparr>env_item := (\<lambda>_. Some ((ex_item CHR ''t'')\<lparr>it_nym := bob\<rparr>))\<rparr>"

theorem failed_accept_completes_witness:
  "\<exists>s s' w'. AcceptTransfer ex_env3 alice (ex_id CHR ''n'') ex_pending (ex_message False) s = Inr (True, s')
    \<and> engine_get s' (alice, ex_id CHR ''w'') = Some w' \<and> wf_state w' = Completed
    \<and> ev_success (last (wf_event w'))
    \<and> (\<forall>reply2. AcceptTransfer ex_env3 alice (ex_id CHR ''n'') ex_pending reply2 s' = Inr (False, s'))"
proof -
  let ?x = "(ex_item CHR ''t'')\<lparr>it_nym := bob\<rparr>"
  let ?w = "first_transfer ex_env3 ?x IncomingTransfer Conveyed 2 1 2 (it_nym ?x)
      (tx_purported_account ex_pending) (ex_id CHR ''n'') []"
  have x: "extract_transfer_from_pending ex_env3 ex_pending = Some ?x"
    by (simp add: ex_env3_def ex_defs extract_transfer_from_pending_def)
  have "\<exists>s. ConveyTransfer ex_env3 alice (ex_id CHR ''n'') ex_pending ex_engine = Inr (env_random ex_env3, s)
     \<and> engine_inv s \<and> tracked s alice (it_id ?x) (env_random ex_env3) ?w"
    by (rule ConveyTransfer_incoming_run [OF _ _ x]) (simp_all add: ex_env3_def ex_defs rpc_ok_def)
  then obtain s where s: "engine_inv s" "tracked s alice (it_id ?x) (ex_id CHR ''w'') ?w"
    by (auto simp: ex_env3_def ex_env_def)
  have "\<exists>s' w'. AcceptTransfer ex_env3 alice (ex_id CHR ''n'') ex_pending (ex_message False) s = Inr (True, s')
    \<and> engine_get s' (alice, ex_id CHR ''w'') = Some w' \<and> wf_state w' = Completed
    \<and> ev_success (last (wf_event w'))
    \<and> (\<forall>reply2. AcceptTransfer ex_env3 alice (ex_id CHR ''n'') ex_pending reply2 s' = Inr (False, s'))"
    by (rule failed_accept_completes [OF s(1) x _ _ s(2)]) (simp_all add: ex_defs ex_env3_def)
  then show ?thesis by blast
qed

text \<open>
  A notary reply that reports failure moves an outgoing cash workflow to \<open>Conveyed\<close> all the
  same; only the recorded event says that the attempt failed.
\<close>

theorem failed_cash_send_conveys:
  assumes "engine_inv s" "engine_get s (n, i) = Some w" "wf_type w = OutgoingCash" "wf_state w \<noteq> Expired"
    and "good_message req" "plausible rcp" "env_plugin_ok env" and failed: "\<not> msg_success reply"
  shows "\<exists>s' w'. SendCash env n rcp i req (Some reply) s = Inr (True, s')
    \<and> engine_get s' (n, i) = Some w' \<and> wf_state w' = Conveyed
    \<and> event_types w' = event_types w @ [EventConvey] \<and> \<not> ev_success (last (wf_event w'))"
proof -
  obtain s' where "SendCash env n rcp i req (Some reply) s = Inr (True, s')"
      "engine_get s' = (engine_get s)((n, i) := Some (send_cash_event w rcp req (Some reply)))"
    using SendCash_run [OF assms(1-7)] by blast
  with failed show ?thesis by (simp add: send_cash_event_eq the_cash_event_def event_types_def)
qed

theorem failed_cash_send_conveys_witness:
  "\<exists>s s' w'. SendCash (ex_env CHR ''t'') alice bob (ex_id CHR ''w'') (ex_message True) (Some (ex_message False)) s
      = Inr (True, s')
    \<and> engine_get s' (alice, ex_id CHR ''w'') = Some w' \<and> wf_state w' = Conveyed
    \<and> event_types w' = event_types (new_outgoing_cash (ex_env CHR ''t'') ex_purse) @ [EventConvey]
    \<and> \<not> ev_success (last (wf_event w'))"
proof -
  let ?w = "new_outgoing_cash (ex_env CHR ''t'') ex_purse"
  have "\<exists>s. AllocateCash (ex_env CHR ''t'') alice ex_purse ex_engine = Inr (env_random (ex_env CHR ''t''), s)
     \<and> engine_inv s \<and> engine_get s = (engine_get ex_engine)((alice, env_random (ex_env CHR ''t'')) := Some ?w)"
    by (rule AllocateCash_run) (simp_all add: ex_defs)
  then obtain s where s: "engine_inv s" "engine_get s (alice, ex_id CHR ''w'') = Some ?w"
    by (auto simp: ex_env_def)
  have "\<exists>s' w'. SendCash (ex_env CHR ''t'') alice bob (ex_id CHR ''w'') (ex_message True) (Some (ex_message False)) s
      = Inr (True, s')
    \<and> engine_get s' (alice, ex_id CHR ''w'') = Some w' \<and> wf_state w' = Conveyed
    \<and> event_types w' = event_types ?w @ [EventConvey] \<and> \<not> ev_success (last (wf_event w'))"
    by (rule failed_cash_send_conveys [OF s])
      (simp_all add: ex_defs good_message_def new_outgoing_cash_def Let_def)
  then show ?thesis by blast
qed

text \<open>
  Reading back: after \<open>WriteCheque\<close> returns an identifier, \<open>LoadCheque\<close> by the cheque,
  \<open>LoadChequeByWorkflow\<close> by the identifier and \<open>LoadWorkflow\<close> give the cheque that was written,
  in state \<open>Unsent\<close>, for any deserializer that reads the text of the cheque.
\<close>

theorem written_cheque_is_loaded:
  assumes "engine_inv s" "fresh_id (env_random env) s" "good_cheque c"
    and "PaymentWorkflowLookup (ch_sender_nym c) (ch_id c) s = []"
    and "ch_has_recipient c" "plausible (ch_recipient_nym c)" "env_contact_id env (ch_recipient_nym c) \<noteq> []"
    and "plausible (env_random env)" "plausible (ch_sender_account c)"
    and "plausible (env_account_server env (ch_sender_account c))" "env_plugin_ok env"
    and "rpc_ok env (ch_sender_nym c) (ch_recipient_nym c) (SourceAccountID c) AccountOutgoingCheque"
    and "en_nyms s (ch_sender_nym c) \<noteq> None"
    and content: "ch_text c \<noteq> []" "parse (ch_text c) = Some x"
  shows "\<exists>i s'. WriteCheque env c s = Inr (i, s')
    \<and> LoadCheque blank parse (ch_sender_nym c) (ch_id c) s' = Inr (Unsent, Some x)
    \<and> LoadChequeByWorkflow blank parse (ch_sender_nym c) i s' = Inr (Unsent, Some x)
    \<and> WorkflowPartySize (ch_sender_nym c) i s' = Inr (Some 1)
    \<and> WorkflowParty (ch_sender_nym c) i 0 s' = Inr (ch_recipient_nym c)"
proof -
  let ?w = "first_cheque env c OutgoingCheque Unsent 1 1 1 (ch_recipient_nym c) (ch_sender_account c) None"
  obtain s' where s': "WriteCheque env c s = Inr (env_random env, s')" "engine_inv s'"
      "tracked s' (ch_sender_nym c) (ch_id c) (env_random env) ?w"
    using WriteCheque_run [OF assms(1-13)] by blast
  have get: "engine_get s' (ch_sender_nym c, env_random env) = Some ?w" using s'(3) by (simp add: tracked_def)
  have "ch_recipient_nym c \<noteq> []" using assms(6) by auto
  then have "InstantiateCheque blank parse ?w = (Unsent, Some x)" "wf_party ?w = [ch_recipient_nym c]"
    using content by (simp_all add: InstantiateCheque_def ContainsCheque_def ExtractCheque_def first_cheque_def)
  with s' show ?thesis
    by (simp add: LoadCheque_def LoadChequeByWorkflow_def tracked_source [OF s'(2,3)]
        get_workflow_by_id_typed_def get_workflow_by_id_eq [OF s'(2)] get WorkflowParty_def WorkflowPartySize_def)
qed

theorem written_cheque_is_loaded_witness:
  "\<exists>i s'. WriteCheque (ex_env CHR ''t'') ex_cheque ex_engine = Inr (i, s')
    \<and> LoadCheque ''blank'' Some (ch_sender_nym ex_cheque) (ch_id ex_cheque) s' = Inr (Unsent, Some ''cheque'')
    \<and> LoadChequeByWorkflow ''blank'' Some (ch_sender_nym ex_cheque) i s' = Inr (Unsent, Some ''cheque'')
    \<and> WorkflowPartySize (ch_sender_nym ex_cheque) i s' = Inr (Some 1)
    \<and> WorkflowParty (ch_sender_nym ex_cheque) i 0 s' = Inr (ch_recipient_nym ex_cheque)"
  by (rule written_cheque_is_loaded)
    (simp_all add: ex_defs good_cheque_def isCheque_def rpc_ok_def SourceAccountID_def)

end
