(* ===== verification/Workflow_Node_Properties.thy ===== *)
theory Workflow_Node_Properties
  imports Workflow_Lifecycles
begin

text \<open>
  Properties of the storage node of one nym and of the versions of the workflow check.
\<close>

subsection \<open>The storage node\<close>

text \<open>
  C25. Storing a workflow that passes its check and is \<open>seasoned\<close> (its type is one the engine makes, in the version the engine gives
  it; a conveyed cheque has no deposit yet, an acknowledged transfer no conveyance), under a new identifier, or again with its type
  unchanged, when the storage accepts the write: the load
  gives it back, other workflows load as before, the state index lists it under its state and no
  other, the account and unit indexes list it, and each of its sources that led nowhere or to it
  leads to it. A source that leads to another workflow keeps leading there.
\<close>

theorem stored_workflow_is_found:
  assumes "node_inv node" "check_workflow w" "seasoned w" "wf_id w = Some i" "indexed_type i w node = wf_type w"
  shows "\<exists>node'. pw_Store True w node = Inr (True, node') \<and> node_inv node'
    \<and> pw_Load i node' = Inr (Some w)
    \<and> (\<forall>j. j \<noteq> i \<longrightarrow> pw_Load j node' = pw_Load j node)
    \<and> (\<forall>t st. i \<in> pw_ListByState t st node' \<longleftrightarrow> t = wf_type w \<and> st = wf_state w)
    \<and> (\<forall>a \<in> set (wf_account w). i \<in> pw_ListByAccount a node')
    \<and> (\<forall>u \<in> set (wf_unit w). i \<in> pw_ListByUnit u node')
    \<and> (\<forall>src \<in> set (source_ids w). pw_LookupBySource src node \<in> {[], i} \<longrightarrow> pw_LookupBySource src node' = i)"
proof -
  obtain node' where n: "pw_Store True w node = Inr (True, node')" "node_inv node'"
    "\<And>j. pw_get j node' = (if j = i then Some w else pw_get j node)"
    "pw_states node' = (pw_states node)(i := Some (wf_type w, wf_state w))"
    "\<And>src. pw_sources node' src =
     (case pw_sources node src of
        Some v \<Rightarrow> if v = i then if src \<in> set (source_ids w) then Some i else None else Some v
      | None \<Rightarrow> if src \<in> set (source_ids w) then Some i else None)"
    using pw_Store_node [OF assms] by blast
  have inv: "pw_invar node" "pw_invar node'" using assms(1) n(2) by (simp_all add: node_inv_def)
  have i: "i \<noteq> []" using check_workflow_id [OF assms(2)] assms(4) by auto
  have st: "wf_state w \<noteq> StateError" "indexed_type i w node \<noteq> TypeError"
    using check_workflow_type_state [OF assms(2)] assms(5) by auto
  have lists: "pw_accounts node' = fold (\<lambda>a. bucket_emplace a i) (wf_account w) (pw_accounts node)"
    "pw_units node' = fold (\<lambda>u. bucket_emplace u i) (wf_unit w) (pw_units node)"
    using n(1) unfolding pw_Store_closed [OF assms(4) i st]
    by (auto dest!: arg_cong [where f = snd])
  have "pw_ListByAccount a node' = bucket (pw_accounts node') a" "pw_ListByUnit a node' = bucket (pw_units node') a" for a
    by (simp_all add: pw_ListByAccount_def pw_ListByUnit_def bucket_def)
  then have idx: "a \<in> set (wf_account w) \<Longrightarrow> i \<in> pw_ListByAccount a node'"
    "a \<in> set (wf_unit w) \<Longrightarrow> i \<in> pw_ListByUnit a node'" for a
    by (simp_all add: lists fold_bucket_emplace)
  have state: "i \<in> pw_ListByState t st' node' \<longleftrightarrow> t = wf_type w \<and> st' = wf_state w" for t st'
    using inv(2) n(4) by (auto simp: pw_invar_def)
  have src: "pw_LookupBySource src node' = i"
    if "src \<in> set (source_ids w)" "pw_LookupBySource src node \<in> {[], i}" for src
  proof (cases "pw_sources node src")
    case (Some v)
    then have "v \<noteq> []"
      using assms(1) pw_get_plausible [OF inv(1), of v] unfolding node_inv_def plausible_def by fastforce
    with that Some n(5) [of src] show ?thesis by (simp add: pw_LookupBySource_def)
  qed (use that n(5) [of src] in \<open>simp add: pw_LookupBySource_def\<close>)
  have "pw_Load j node' = pw_Load j node" if "j \<noteq> i" for j
    using that by (simp add: pw_Load_eq [OF inv(1)] pw_Load_eq [OF inv(2)] n(3))
  moreover have "pw_Load i node' = Inr (Some w)" using i by (simp add: pw_Load_eq [OF inv(2)] n(3))
  ultimately show ?thesis using n(1,2) state idx src by blast
qed

definition ex_written2 :: workflow where
  "ex_written2 = first_cheque (ex_env CHR ''t'') ex_cheque OutgoingCheque Unsent 1 1 1 bob (ex_id CHR ''s'') None"

lemma ex_written2_ok:
  "check_workflow ex_written2" "seasoned ex_written2" "wf_id ex_written2 = Some (ex_id CHR ''w'')"
proof -
  have "check_workflow (first_cheque (ex_env CHR ''t'') ex_cheque OutgoingCheque Unsent 1 1 1 bob (ex_id CHR ''s'') None)
      \<longleftrightarrow> plausible bob"
    by (rule write_check) (simp_all add: ex_defs good_cheque_def isCheque_def)
  then show "check_workflow ex_written2" by (simp add: ex_written2_def)
  show "seasoned ex_written2" "wf_id ex_written2 = Some (ex_id CHR ''w'')"
    by (simp_all add: ex_written2_def seasoned_def initial_state_def workflow_version_def ex_env_def)
qed

theorem stored_workflow_is_found_witness:
  "\<exists>node'. pw_Store True ex_written2 pw_empty = Inr (True, node')
    \<and> pw_Load (ex_id CHR ''w'') node' = Inr (Some ex_written2)
    \<and> ex_id CHR ''w'' \<in> pw_ListByState OutgoingCheque Unsent node'
    \<and> ex_id CHR ''w'' \<in> pw_ListByAccount (ex_id CHR ''s'') node'
    \<and> pw_LookupBySource (ex_id CHR ''c'') node' = ex_id CHR ''w''"
proof -
  have t: "indexed_type (ex_id CHR ''w'') ex_written2 pw_empty = wf_type ex_written2"
    by (simp add: indexed_type_def pw_empty_def)
  have f: "wf_type ex_written2 = OutgoingCheque" "wf_state ex_written2 = Unsent"
    "wf_account ex_written2 = [ex_id CHR ''s'']" "source_ids ex_written2 = [ex_id CHR ''c'']"
    by (simp_all add: ex_written2_def first_cheque_def source_ids_def ex_cheque_def)
  have e: "pw_LookupBySource (ex_id CHR ''c'') pw_empty = []" by (simp add: pw_LookupBySource_def pw_empty_def)
  from stored_workflow_is_found [OF node_inv_empty ex_written2_ok t] f e show ?thesis by auto
qed

text \<open>
  \<open>Delete\<close> removes the object and the sources that lead to it; the indexes by state and by
  account keep the identifier, so the lists report a workflow that can not be loaded.
\<close>

theorem deleted_workflow_stays_listed:
  assumes "pw_invar node" "pw_get i node = Some w" "plugin_ok"
  shows "\<exists>node'. pw_Delete plugin_ok i node = (True, node')
    \<and> pw_Load i node' = Inr None
    \<and> (\<forall>src. pw_LookupBySource src node' \<noteq> i)
    \<and> i \<in> pw_ListByState (wf_type w) (wf_state w) node'
    \<and> (\<forall>a. pw_ListByAccount a node' = pw_ListByAccount a node)"
proof -
  have i: "i \<noteq> []" using pw_get_plausible [OF assms(1,2)] by auto
  obtain x where x: "pw_items node i = Some x" using assms(2) by (auto simp: pw_get_def split: option.splits)
  have "pw_states node i = Some (wf_type w, wf_state w)" using pw_invar_get [OF assms(1,2)] by simp
  then have "i \<in> pw_ListByState (wf_type w) (wf_state w) node" using assms(1) by (simp add: pw_invar_def)
  with x i assms(3) show ?thesis
    by (auto simp: pw_Delete_def delete_by_value_def Let_def pw_Load_def pw_LookupBySource_def
        pw_ListByState_def pw_ListByAccount_def split: option.splits if_splits)
qed

theorem deleted_workflow_stays_listed_witness:
  "\<exists>node node'. pw_Store True ex_written2 pw_empty = Inr (True, node)
    \<and> pw_Delete True (ex_id CHR ''w'') node = (True, node')
    \<and> pw_Load (ex_id CHR ''w'') node' = Inr None
    \<and> ex_id CHR ''w'' \<in> pw_ListByState (wf_type ex_written2) (wf_state ex_written2) node'"
proof -
  have t: "indexed_type (ex_id CHR ''w'') ex_written2 pw_empty = wf_type ex_written2"
    by (simp add: indexed_type_def pw_empty_def)
  obtain node where n: "pw_Store True ex_written2 pw_empty = Inr (True, node)" "node_inv node"
      "pw_get (ex_id CHR ''w'') node = Some ex_written2"
    by (rule pw_Store_node [OF node_inv_empty ex_written2_ok t]) auto
  then have "pw_invar node" by (simp add: node_inv_def)
  from deleted_workflow_stays_listed [OF this n(3), of True] n(1) show ?thesis by blast
qed

subsection \<open>Versions of the check\<close>

text \<open>A version 1 object with the version field of the workflow raised.\<close>

definition raise_version :: "workflow \<Rightarrow> workflow" where
  "raise_version w = w\<lparr>wf_version := Some 2\<rparr>"

lemma event_ok_raise:
  assumes "t = OutgoingCheque \<or> t = IncomingCheque \<or> t = OutgoingInvoice \<or> t = IncomingInvoice"
    and "ev_version e = Some 1"
  shows "event_ok 2 t e \<longleftrightarrow> event_ok (Suc 0) t e"
  using assms by (cases "ev_type e") (auto simp: event_ok_1 event_ok_2 event_type_allowed_def
      PaymentWorkflowAllowedEventTypes_def)

lemma events_without:
  assumes "list_all (event_ok (Suc 0) t) es"
  shows "event_count es EventAbort = 0" "event_count es EventAcknowledge = 0"
  using assms by (auto intro!: event_count_0 [of "event_ok (Suc 0) t"] simp: event_ok_1)

text \<open>
  For cheques and invoices version 2 of the check is version 1 with more events forbidden: an
  object whose events are of version 1 passes the one exactly when it passes the other.
\<close>

theorem version_2_extends_version_1:
  assumes "wf_version w = Some 1" "\<forall>e \<in> set (wf_event w). ev_version e = Some 1"
    and "wf_type w \<in> {OutgoingCheque, IncomingCheque, OutgoingInvoice, IncomingInvoice}"
  shows "check_workflow (raise_version w) \<longleftrightarrow> check_workflow w"
proof -
  have ev: "list_all (event_ok 2 (wf_type w)) (wf_event w) \<longleftrightarrow> list_all (event_ok (Suc 0) (wf_type w)) (wf_event w)"
    using assms(2,3) event_ok_raise [of "wf_type w"] by (auto simp: list_all_iff)
  show ?thesis
  proof (cases "list_all (event_ok (Suc 0) (wf_type w)) (wf_event w)")
    case False
    with ev assms(1) show ?thesis
      by (simp add: raise_version_def check_defs)
  next
    case True
    note n = events_without [OF True]
    have st: "outgoing_cheque_2 (wf_state w) (event_count (wf_event w)) \<longleftrightarrow>
        outgoing_cheque_1 (wf_state w) (event_count (wf_event w))"
      "incoming_cheque_2 (wf_state w) x k (event_count (wf_event w)) \<longleftrightarrow>
        incoming_cheque_1 (wf_state w) x k (event_count (wf_event w))" for x k
      using n by (cases "wf_state w"; simp)+
    have "sources_ok (raise_version w) \<longleftrightarrow> sources_ok w"
      using assms(1) by (simp add: sources_ok_iff raise_version_def)
    with True ev st assms(1,3) show ?thesis
      by (auto simp: raise_version_def check_workflow_def payment_workflow_version_def payment_workflow_1_def
        payment_workflow_2_def check_payment_events_eq state_allowed_def PaymentWorkflowAllowedState_def
        one_source_one_party_def)
  qed
qed

theorem version_2_extends_version_1_witness:
  "check_workflow (raise_version ex_written2) \<longleftrightarrow> check_workflow ex_written2"
  by (rule version_2_extends_version_1) (simp_all add: ex_written2_def first_cheque_def)

text \<open>A version 3 object written as one of version 2.\<close>

definition lower_event :: "payment_event \<Rightarrow> payment_event" where
  "lower_event e = e\<lparr>ev_version := (if ev_version e = Some 3 then Some 2 else None)\<rparr>"

definition lower_version :: "workflow \<Rightarrow> workflow" where
  "lower_version w = w\<lparr>wf_version := Some 2, wf_event := map lower_event (wf_event w)\<rparr>"

lemma lower_event_fields [simp]:
  "ev_type (lower_event e) = ev_type e" "ev_method (lower_event e) = ev_method e"
  "ev_transport (lower_event e) = ev_transport e" "ev_nym (lower_event e) = ev_nym e"
  by (simp_all add: lower_event_def)

lemma lower_event_checks:
  "event_transport_present (lower_event e) = event_transport_present e"
  "event_nym_ok (lower_event e) = event_nym_ok e"
  by (cases "ev_method e"; simp add: event_transport_present_def)
    (cases "ev_type e"; simp add: event_nym_ok_def)

lemma event_type_allowed_noncash:
  assumes "t \<noteq> OutgoingCash" "t \<noteq> IncomingCash"
  shows "event_type_allowed 3 t ty \<longleftrightarrow> event_type_allowed 2 t ty"
    "event_type_allowed 2 t ty \<Longrightarrow> ty \<noteq> EventExpire \<and> ty \<noteq> EventReject"
  using assms by (cases t; auto simp: event_type_allowed_def PaymentWorkflowAllowedEventTypes_def)+

lemma lower_event_transport_allowed:
  assumes "ev_version e = Some 3" "ev_type e \<noteq> EventExpire" "ev_type e \<noteq> EventReject"
  shows "event_transport_allowed (lower_event e) = event_transport_allowed e"
  using assms by (cases "ev_type e")
    (simp_all add: event_transport_allowed_def PaymentEventAllowedTransportMethod_def lower_event_def)

lemma event_ok_lower:
  assumes "t \<noteq> OutgoingCash" "t \<noteq> IncomingCash"
  shows "event_ok 2 t (lower_event e) \<longleftrightarrow> event_ok 3 t e"
proof (cases "ev_version e = Some 3")
  case True
  with event_type_allowed_noncash [OF assms, of "ev_type e"] lower_event_transport_allowed [OF True]
  show ?thesis by (auto simp: event_ok_2 event_ok_3 lower_event_checks) (simp_all add: lower_event_def)
next
  case False
  then show ?thesis by (simp add: event_ok_2 event_ok_3 lower_event_def)
qed

lemma event_count_lower [simp]: "event_count (map lower_event es) t = event_count es t"
  by (induction es) auto

lemma state_checks_3:
  "outgoing_cheque_3 st n = outgoing_cheque_2 st n" "incoming_cheque_3 st x k n = incoming_cheque_2 st x k n"
  "outgoing_transfer_3 st n = outgoing_transfer_2 st n" "incoming_transfer_3 st n = incoming_transfer_2 st n"
  "internal_transfer_3 st n = internal_transfer_2 st n"
  by (cases st; simp)+

text \<open>
  Outside cash, version 3 of the check accepts what version 2 accepts: the two differ in the
  version number of the events only.
\<close>

theorem version_3_agrees_with_version_2:
  assumes "wf_version w = Some 3" "wf_type w \<noteq> OutgoingCash" "wf_type w \<noteq> IncomingCash"
  shows "check_workflow w \<longleftrightarrow> check_workflow (lower_version w)"
proof -
  have ev: "list_all (event_ok 2 t) (map lower_event es) \<longleftrightarrow> list_all (event_ok 3 t) es"
    if "t \<noteq> OutgoingCash" "t \<noteq> IncomingCash" for t es
    using event_ok_lower [OF that] by (simp add: list_all_iff)
  have n: "(\<lambda>k. event_count (map lower_event (wf_event w)) k) = event_count (wf_event w)"
    by (simp add: fun_eq_iff)
  have src: "sources_ok (lower_version w) \<longleftrightarrow> sources_ok w"
    using assms(1) by (simp add: sources_ok_iff lower_version_def)
  have st: "state_allowed (lower_version w) \<longleftrightarrow> state_allowed w"
    using assms by (cases "wf_type w") (simp_all add: lower_version_def state_allowed_def PaymentWorkflowAllowedState_def)
  have parties: "outgoing_transfer_parties (lower_version w) = outgoing_transfer_parties w"
    "one_source_one_party (lower_version w) = one_source_one_party w"
    by (cases "wf_state w"; simp add: lower_version_def outgoing_transfer_parties_def one_source_one_party_def)+
  have fields: "wf_version (lower_version w) = Some 2" "wf_type (lower_version w) = wf_type w"
    "wf_state (lower_version w) = wf_state w" "wf_party (lower_version w) = wf_party w"
    "wf_unit (lower_version w) = wf_unit w" "wf_account (lower_version w) = wf_account w"
    "wf_notary (lower_version w) = wf_notary w" "wf_id (lower_version w) = wf_id w"
    "wf_source (lower_version w) = wf_source w" "wf_event (lower_version w) = map lower_event (wf_event w)"
    by (simp_all add: lower_version_def)
  show ?thesis
    using assms
    by (cases "wf_type w")
      (simp_all add: check_workflow_def payment_workflow_version_def payment_workflow_2_def payment_workflow_3_def
        check_payment_events_eq ev src st parties fields state_checks_3)
qed

theorem version_3_agrees_with_version_2_witness:
  "check_workflow (ex_written2\<lparr>wf_version := Some 3\<rparr>) \<longleftrightarrow>
     check_workflow (lower_version (ex_written2\<lparr>wf_version := Some 3\<rparr>))"
  by (rule version_3_agrees_with_version_2) (simp_all add: ex_written2_def)

end
