(* ===== verification/Ordered_Containers.thy ===== *)
theory Ordered_Containers
  imports OT_Prelude "HOL-Library.Product_Lexorder"
begin

text \<open>
  The ordered containers of the C++ standard library and the ordered tables of LMDB: a
  \<open>std::set\<close> is the sorted list of its elements, a \<open>std::map\<close> the list of its entries
  sorted by key, so that iteration, first and last element are those of the list. A
  \<open>std::multimap\<close> is the list of its entries in order of insertion, which is the order
  in which \<open>equal_range\<close> yields the entries of one key.
\<close>

subsection \<open>Sets\<close>

definition oset_put :: "'a::linorder \<Rightarrow> 'a list \<Rightarrow> 'a list" where
  "oset_put x xs = (if x \<in> set xs then xs else insort x xs)"

definition oset_del :: "'a \<Rightarrow> 'a list \<Rightarrow> 'a list" where
  "oset_del x xs = removeAll x xs"

lemma set_oset_put [simp]: "set (oset_put x xs) = insert x (set xs)"
  by (auto simp: oset_put_def set_insort_key)

lemma set_oset_del [simp]: "set (oset_del x xs) = set xs - {x}"
  by (simp add: oset_del_def)

lemma oset_put_present [simp]: "x \<in> set xs \<Longrightarrow> oset_put x xs = xs"
  by (simp add: oset_put_def)

lemma oset_del_absent [simp]: "x \<notin> set xs \<Longrightarrow> oset_del x xs = xs"
  by (simp add: oset_del_def)

lemma oset_del_Nil [simp]: "oset_del x [] = []"
  by (simp add: oset_del_def)

lemma distinct_oset_put [simp]: "distinct xs \<Longrightarrow> distinct (oset_put x xs)"
  by (simp add: oset_put_def distinct_insort)

lemma distinct_fold_oset_put [simp]: "distinct ys \<Longrightarrow> distinct (fold oset_put xs ys)"
  by (induction xs arbitrary: ys) simp_all

lemma sorted_oset_put [simp]: "sorted xs \<Longrightarrow> sorted (oset_put x xs)"
  by (simp add: oset_put_def sorted_insort)

lemma sorted_fold_oset_put [simp]: "sorted ys \<Longrightarrow> sorted (fold oset_put xs ys)"
  by (induction xs arbitrary: ys) simp_all

lemma distinct_oset_del [simp]: "distinct xs \<Longrightarrow> distinct (oset_del x xs)"
  by (simp add: oset_del_def distinct_removeAll)

lemma set_fold_oset_put [simp]: "set (fold oset_put xs ys) = set xs \<union> set ys"
  by (induction xs arbitrary: ys) auto

lemma set_fold_oset_del [simp]: "set (fold oset_del xs ys) = set ys - set xs"
  by (induction xs arbitrary: ys) auto

subsection \<open>Maps\<close>

fun omap_put :: "'k::linorder \<Rightarrow> 'v \<Rightarrow> ('k \<times> 'v) list \<Rightarrow> ('k \<times> 'v) list" where
  "omap_put k v [] = [(k, v)]"
| "omap_put k v ((k', v') # m) =
     (if k < k' then (k, v) # (k', v') # m
      else if k = k' then (k, v) # m
      else (k', v') # omap_put k v m)"

definition omap_emplace :: "'k::linorder \<Rightarrow> 'v \<Rightarrow> ('k \<times> 'v) list \<Rightarrow> ('k \<times> 'v) list" where
  "omap_emplace k v m = (if map_of m k = None then omap_put k v m else m)"

definition omap_del :: "'k \<Rightarrow> ('k \<times> 'v) list \<Rightarrow> ('k \<times> 'v) list" where
  "omap_del k m = filter (\<lambda>(k', _). k' \<noteq> k) m"

definition ordered :: "('k::linorder \<times> 'v) list \<Rightarrow> bool" where
  "ordered m \<longleftrightarrow> sorted_wrt (<) (map fst m)"

lemma ordered_Nil [simp]: "ordered []"
  by (simp add: ordered_def)

lemma ordered_Cons [simp]:
  "ordered ((k, v) # m) \<longleftrightarrow> (\<forall>k' \<in> fst ` set m. k < k') \<and> ordered m"
  by (simp add: ordered_def)

lemma omap_put_keys [simp]: "fst ` set (omap_put k v m) = insert k (fst ` set m)"
  by (induction k v m rule: omap_put.induct) auto

lemma ordered_omap_put [simp]: "ordered m \<Longrightarrow> ordered (omap_put k v m)"
proof (induction k v m rule: omap_put.induct)
  case (2 k v k' v' m)
  then show ?case by (auto simp: not_less le_less)
qed simp

lemma map_of_omap_put [simp]:
  "ordered m \<Longrightarrow> map_of (omap_put k v m) = (map_of m)(k \<mapsto> v)"
proof (induction k v m rule: omap_put.induct)
  case (2 k v k' v' m)
  then show ?case by (auto simp: fun_eq_iff)
qed (simp add: fun_eq_iff)

lemma ordered_omap_emplace [simp]: "ordered m \<Longrightarrow> ordered (omap_emplace k v m)"
  by (simp add: omap_emplace_def)

lemma ordered_filter [simp]: "ordered m \<Longrightarrow> ordered (filter P m)"
  by (induction m) auto

lemma ordered_omap_del [simp]: "ordered m \<Longrightarrow> ordered (omap_del k m)"
  by (simp add: omap_del_def)

lemma map_of_omap_del [simp]: "map_of (omap_del k m) = (map_of m)(k := None)"
  by (induction m) (auto simp: omap_del_def fun_eq_iff)

lemma map_of_omap_emplace:
  "ordered m \<Longrightarrow> map_of (omap_emplace k v m) = (if map_of m k = None then (map_of m)(k \<mapsto> v) else map_of m)"
  by (simp add: omap_emplace_def)

lemma omap_put_last: "\<forall>k' \<in> fst ` set m. k' < k \<Longrightarrow> omap_put k v m = m @ [(k, v)]"
  by (induction k v m rule: omap_put.induct) auto

lemma omap_emplace_last:
  assumes "\<forall>k' \<in> fst ` set m. k' < k"
  shows "omap_emplace k v m = m @ [(k, v)]"
proof -
  have "map_of m k = None"
    using assms by (force simp: map_of_eq_None_iff)
  then show ?thesis
    using assms by (simp add: omap_emplace_def omap_put_last)
qed

end
