(* ===== verification/Block_Header.thy ===== *)
theory Block_Header
  imports Complex_Main Ordered_Containers
begin

text \<open>
  Block headers as the header oracle sees them: \<open>block::implementation::Header\<close>
  (\<open>src/blockchain/block/header/Imp.cpp\<close>) and \<open>block::Position\<close>.

  A hash is its 32 bytes read as a big-endian number, so that the order of hashes is the order of
  their bytes and the null hash is 0. Heights are 64 bit integers in the code; no operation modelled
  here comes near their bounds.

  Work is \<open>boost::multiprecision::cpp_bin_float_double\<close>, a binary floating point number
  with 53 significant bits. Its values are rationals here, and its addition, which rounds, is a
  parameter \<open>add\<close> of the definitions that use it. \<open>Serialize\<close> stores a work value
  as the integer \<open>boost::multiprecision::cpp_int\<close> it truncates to (\<open>WorkPrivate::asHex\<close>
  in \<open>src/blockchain/work/WorkPrivate.cpp\<close>).
\<close>

type_synonym hash = nat
type_synonym height = int
type_synonym position = "height \<times> hash"
type_synonym work = rat

abbreviation null_hash :: hash where "null_hash \<equiv> 0"

abbreviation blank_position :: position where "blank_position \<equiv> (- 1, null_hash)"

datatype header_status = StatusError | StatusNormal | StatusDisconnected | StatusCheckpointBanned | StatusCheckpoint

record header =
  hd_hash :: hash
  hd_parent :: hash
  hd_work :: work
  hd_height :: height
  hd_status :: header_status
  hd_inherit_status :: header_status
  hd_inherit_work :: work

definition Position :: "header \<Rightarrow> position" where
  "Position h = (hd_height h, hd_hash h)"

definition EffectiveState :: "header \<Rightarrow> header_status" where
  "EffectiveState h =
     (if StatusCheckpointBanned = hd_inherit_status h then hd_inherit_status h
      else if StatusDisconnected = hd_inherit_status h then hd_inherit_status h
      else if StatusCheckpoint = hd_status h then StatusNormal
      else hd_status h)"

definition CompareToCheckpoint :: "position \<Rightarrow> header \<Rightarrow> header" where
  "CompareToCheckpoint checkpoint h =
     (let (height, hash) = checkpoint
      in if height = hd_height h
         then (if hash = hd_hash h then h\<lparr>hd_status := StatusCheckpoint\<rparr>
               else h\<lparr>hd_status := StatusCheckpointBanned\<rparr>)
         else h\<lparr>hd_status := StatusNormal\<rparr>)"

text \<open>\<open>InheritHeight\<close> and \<open>InheritState\<close> throw when the parent is not the parent.\<close>

definition InheritHeight :: "header \<Rightarrow> header \<Rightarrow> header option" where
  "InheritHeight parent h =
     (if hd_hash parent \<noteq> hd_parent h then None else Some (h\<lparr>hd_height := hd_height parent + 1\<rparr>))"

definition InheritState :: "header \<Rightarrow> header \<Rightarrow> header option" where
  "InheritState parent h =
     (if hd_hash parent \<noteq> hd_parent h then None
      else Some (h\<lparr>hd_inherit_status := EffectiveState parent\<rparr>))"

definition InheritWork :: "work \<Rightarrow> header \<Rightarrow> header" where
  "InheritWork w h = h\<lparr>hd_inherit_work := w\<rparr>"

definition IsDisconnected :: "header \<Rightarrow> bool" where
  "IsDisconnected h \<longleftrightarrow> StatusDisconnected = EffectiveState h"

definition IsBlacklisted :: "header \<Rightarrow> bool" where
  "IsBlacklisted h \<longleftrightarrow> StatusCheckpointBanned = EffectiveState h"

definition SetDisconnectedState :: "header \<Rightarrow> header" where
  "SetDisconnectedState h = h\<lparr>hd_status := StatusDisconnected, hd_inherit_status := StatusError\<rparr>"

definition Work :: "(work \<Rightarrow> work \<Rightarrow> work) \<Rightarrow> header \<Rightarrow> work" where
  "Work add h = (if hd_parent h = null_hash then hd_work h else add (hd_work h) (hd_inherit_work h))"

text \<open>What is read back after a header was stored (\<open>Header::Serialize\<close>).\<close>

definition stored_work :: "work \<Rightarrow> work" where
  "stored_work w = of_int \<lfloor>w\<rfloor>"

definition serialize_header :: "header \<Rightarrow> header" where
  "serialize_header h = h\<lparr>hd_work := stored_work (hd_work h), hd_inherit_work := stored_work (hd_inherit_work h)\<rparr>"

lemma stored_work_Ints [simp]: "w \<in> \<int> \<Longrightarrow> stored_work w = w"
  by (auto simp: stored_work_def Ints_def)

lemma serialize_header_Ints [simp]:
  "hd_work h \<in> \<int> \<Longrightarrow> hd_inherit_work h \<in> \<int> \<Longrightarrow> serialize_header h = h"
  by (simp add: serialize_header_def)

lemma serialize_header_fields [simp]:
  "hd_hash (serialize_header h) = hd_hash h" "hd_parent (serialize_header h) = hd_parent h"
  "hd_height (serialize_header h) = hd_height h" "hd_status (serialize_header h) = hd_status h"
  "hd_inherit_status (serialize_header h) = hd_inherit_status h"
  by (simp_all add: serialize_header_def)

lemma SetDisconnectedState_simps [simp]:
  "hd_hash (SetDisconnectedState h) = hd_hash h" "hd_parent (SetDisconnectedState h) = hd_parent h"
  "hd_work (SetDisconnectedState h) = hd_work h" "IsDisconnected (SetDisconnectedState h)"
  by (simp_all add: SetDisconnectedState_def IsDisconnected_def EffectiveState_def)

text \<open>The status a checkpoint gives a header, and what a header becomes under its parent.\<close>

definition checkpoint_status :: "position \<Rightarrow> height \<Rightarrow> hash \<Rightarrow> header_status" where
  "checkpoint_status cp n h =
     (if fst cp = n then (if snd cp = h then StatusCheckpoint else StatusCheckpointBanned)
      else StatusNormal)"

definition under_parent :: "(work \<Rightarrow> work \<Rightarrow> work) \<Rightarrow> position \<Rightarrow> header \<Rightarrow> header \<Rightarrow> header" where
  "under_parent add cp parent h =
     h\<lparr>hd_inherit_work := Work add parent, hd_inherit_status := EffectiveState parent,
       hd_height := hd_height parent + 1,
       hd_status := checkpoint_status cp (hd_height parent + 1) (hd_hash h)\<rparr>"

lemma CompareToCheckpoint_eq:
  "CompareToCheckpoint cp h = h\<lparr>hd_status := checkpoint_status cp (hd_height h) (hd_hash h)\<rparr>"
  by (cases cp) (simp add: CompareToCheckpoint_def checkpoint_status_def)

lemma under_parent_simps [simp]:
  "hd_hash (under_parent add cp p h) = hd_hash h"
  "hd_parent (under_parent add cp p h) = hd_parent h"
  "hd_work (under_parent add cp p h) = hd_work h"
  "hd_height (under_parent add cp p h) = hd_height p + 1"
  "hd_status (under_parent add cp p h) = checkpoint_status cp (hd_height p + 1) (hd_hash h)"
  "hd_inherit_status (under_parent add cp p h) = EffectiveState p"
  "hd_inherit_work (under_parent add cp p h) = Work add p"
  by (simp_all add: under_parent_def)

text \<open>The states a connected header can be in.\<close>

lemma EffectiveState_under_parent:
  "EffectiveState p \<in> {StatusNormal, StatusCheckpointBanned} \<Longrightarrow>
   EffectiveState (under_parent add cp p h) =
     (if EffectiveState p = StatusCheckpointBanned
         \<or> checkpoint_status cp (hd_height p + 1) (hd_hash h) = StatusCheckpointBanned
      then StatusCheckpointBanned else StatusNormal)"
  by (auto simp: EffectiveState_def [of "under_parent add cp p h"] checkpoint_status_def)

end
