(* ===== verification/Header_Database.thy ===== *)
theory Header_Database
  imports Block_Header
begin

text \<open>
  The database of block headers (\<open>src/blockchain/database/Headers.cpp\<close>) and the
  transaction an update is collected in (\<open>src/blockchain/node/UpdateTransaction.cpp\<close>).

  The state is the LMDB tables the class uses. A header can be loaded when both its static part (in
  the database common to all chains) and its metadata are present; the first is written before the
  second and never alone visible, so one map holds both. A reference to a staged header is the hash
  it is staged under.
\<close>

subsection \<open>The tables\<close>

datatype last_update = NoUpdate | TipUpdate position | ReorgUpdate position position

datatype signal =
    NewHeaderSignal position \<comment> \<open>to the publish socket and the blockchain api\<close>
  | ReorgSignal position position
  | StateMachineSignal \<comment> \<open>to the parent and the actor of the oracle\<close>
  | JobReadySignal \<comment> \<open>a header job can be taken\<close>

record header_db =
  db_headers :: "hash \<Rightarrow> header option"
  db_best :: "(height \<times> hash) list"
  db_tip :: "height option"
  db_checkpoint :: "position option"
  db_siblings :: "hash list"
  db_disconnected :: "(hash \<times> hash) list"
  db_last_update :: last_update

definition BestBlock :: "height \<Rightarrow> header_db \<Rightarrow> hash" where
  "BestBlock position db =
     (if 0 > position then null_hash
      else (case map_of (db_best db) position of None \<Rightarrow> null_hash | Some h \<Rightarrow> h))"

definition best_position :: "header_db \<Rightarrow> position" where
  "best_position db =
     (case db_tip db of
        None \<Rightarrow> blank_position
      | Some height \<Rightarrow>
          (case map_of (db_best db) height of None \<Rightarrow> blank_position | Some h \<Rightarrow> (height, h)))"

definition CurrentCheckpoint :: "header_db \<Rightarrow> position" where
  "CurrentCheckpoint db = (case db_checkpoint db of None \<Rightarrow> blank_position | Some p \<Rightarrow> p)"

definition HaveCheckpoint :: "header_db \<Rightarrow> bool" where
  "HaveCheckpoint db \<longleftrightarrow> 0 < fst (CurrentCheckpoint db)"

definition HeaderExists :: "hash \<Rightarrow> header_db \<Rightarrow> bool" where
  "HeaderExists hash db \<longleftrightarrow> db_headers db hash \<noteq> None"

text \<open>\<open>LoadHeader\<close> throws where \<open>TryLoadHeader\<close> returns a blank header.\<close>

definition LoadHeader :: "hash \<Rightarrow> header_db \<Rightarrow> header option" where
  "LoadHeader hash db = db_headers db hash"

definition CurrentBest :: "header_db \<Rightarrow> header outcome" where
  "CurrentBest db =
     (case LoadHeader (snd (best_position db)) db of None \<Rightarrow> Inl Unreachable | Some h \<Rightarrow> Inr h)"

definition RecentHashes :: "header_db \<Rightarrow> hash list" where
  "RecentHashes db = take 100 (map snd (rev (db_best db)))"

subsection \<open>Update transactions\<close>

record update =
  ut_db :: header_db
  ut_have_reorg :: bool
  ut_have_checkpoint :: bool
  ut_reorg_from :: position
  ut_checkpoint :: position
  ut_headers :: "hash \<Rightarrow> (header \<times> bool) option"
  ut_best :: "(height \<times> hash) list"
  ut_add_sib :: "hash list"
  ut_delete_sib :: "hash list"
  ut_connect :: "(hash \<times> hash) list"
  ut_disconnected :: "(hash \<times> hash) list"
  ut_cached_disconnected :: "(hash \<times> hash) list option"
  ut_cached_siblings :: "hash list option"

definition UpdateTransaction :: "header_db \<Rightarrow> update" where
  "UpdateTransaction db =
     \<lparr>ut_db = db, ut_have_reorg = False, ut_have_checkpoint = False,
      ut_reorg_from = blank_position, ut_checkpoint = blank_position,
      ut_headers = (\<lambda>_. None), ut_best = [], ut_add_sib = [], ut_delete_sib = [],
      ut_connect = [], ut_disconnected = [], ut_cached_disconnected = None,
      ut_cached_siblings = None\<rparr>"

definition disconnected :: "update \<Rightarrow> (hash \<times> hash) list" where
  "disconnected u = (case ut_cached_disconnected u of None \<Rightarrow> db_disconnected (ut_db u) | Some d \<Rightarrow> d)"

definition siblings :: "update \<Rightarrow> hash list" where
  "siblings u = (case ut_cached_siblings u of None \<Rightarrow> db_siblings (ut_db u) | Some s \<Rightarrow> s)"

definition AddSibling :: "position \<Rightarrow> update \<Rightarrow> update" where
  "AddSibling position u =
     u\<lparr>ut_cached_siblings := Some (oset_put (snd position) (siblings u)),
       ut_add_sib := oset_put (snd position) (ut_add_sib u),
       ut_delete_sib := oset_del (snd position) (ut_delete_sib u)\<rparr>"

definition RemoveSibling :: "hash \<Rightarrow> update \<Rightarrow> update" where
  "RemoveSibling hash u =
     u\<lparr>ut_cached_siblings := Some (oset_del hash (siblings u)),
       ut_delete_sib := oset_put hash (ut_delete_sib u),
       ut_add_sib := oset_del hash (ut_add_sib u)\<rparr>"

definition AddToBestChain :: "position \<Rightarrow> update \<Rightarrow> update" where
  "AddToBestChain position u =
     (let u1 = RemoveSibling (snd position) u
      in u1\<lparr>ut_best := omap_emplace (fst position) (snd position) (ut_best u1)\<rparr>)"

definition Checkpoint :: "update \<Rightarrow> position" where
  "Checkpoint u = (if ut_have_checkpoint u then ut_checkpoint u else CurrentCheckpoint (ut_db u))"

definition ClearCheckpoint :: "update \<Rightarrow> update" where
  "ClearCheckpoint u = u\<lparr>ut_have_checkpoint := True, ut_checkpoint := blank_position\<rparr>"

definition SetCheckpoint :: "position \<Rightarrow> update \<Rightarrow> update" where
  "SetCheckpoint checkpoint u = u\<lparr>ut_have_checkpoint := True, ut_checkpoint := checkpoint\<rparr>"

definition ConnectBlock :: "hash \<times> hash \<Rightarrow> update \<Rightarrow> update" where
  "ConnectBlock segment u =
     (let u1 = u\<lparr>ut_cached_disconnected := Some (filter (\<lambda>p. p \<noteq> segment) (disconnected u))\<rparr>
      in if segment \<in> set (ut_disconnected u1)
         then u1\<lparr>ut_disconnected := oset_del segment (ut_disconnected u1)\<rparr>
         else u1\<lparr>ut_connect := oset_put segment (ut_connect u1)\<rparr>)"

definition DisconnectBlock :: "header \<Rightarrow> update \<Rightarrow> update" where
  "DisconnectBlock header u =
     (let item = (hd_parent header, hd_hash header)
      in u\<lparr>ut_cached_disconnected := Some (disconnected u @ [item]),
           ut_connect := oset_del item (ut_connect u),
           ut_disconnected := oset_put item (ut_disconnected u)\<rparr>)"

definition EffectiveBestBlock :: "height \<Rightarrow> update \<Rightarrow> hash" where
  "EffectiveBestBlock height u =
     (case map_of (ut_best u) height of Some h \<Rightarrow> h | None \<Rightarrow> BestBlock height (ut_db u))"

definition EffectiveCheckpoint :: "update \<Rightarrow> bool" where
  "EffectiveCheckpoint u =
     (if ut_have_checkpoint u then fst blank_position \<noteq> fst (ut_checkpoint u)
      else HaveCheckpoint (ut_db u))"

definition disconnected_children :: "hash \<Rightarrow> update \<Rightarrow> (hash \<times> hash) list" where
  "disconnected_children hash u = filter (\<lambda>(parent, _). parent = hash) (disconnected u)"

definition EffectiveHasDisconnectedChildren :: "hash \<Rightarrow> update \<Rightarrow> bool" where
  "EffectiveHasDisconnectedChildren hash u \<longleftrightarrow> 0 < length (disconnected_children hash u)"

definition EffectiveHeaderExists :: "hash \<Rightarrow> update \<Rightarrow> bool" where
  "EffectiveHeaderExists hash u \<longleftrightarrow> ut_headers u hash \<noteq> None \<or> HeaderExists hash (ut_db u)"

definition EffectiveIsSibling :: "hash \<Rightarrow> update \<Rightarrow> bool" where
  "EffectiveIsSibling hash u \<longleftrightarrow> hash \<in> set (siblings u)"

definition SetReorgParent :: "position \<Rightarrow> update \<Rightarrow> update" where
  "SetReorgParent pos u =
     (let u1 = u\<lparr>ut_best := filter (\<lambda>(height, _). \<not> height > fst pos) (ut_best u),
                 ut_have_reorg := True\<rparr>;
          reset = (fst blank_position = fst (ut_reorg_from u1) \<or> fst pos \<le> fst (ut_reorg_from u1))
      in if reset then u1\<lparr>ut_reorg_from := pos\<rparr> else u1)"

text \<open>
  \<open>Header(hash)\<close> dereferences a staged header and throws when there is none; a header that is
  staged is valid, which its assertion asks for.
\<close>

definition Header :: "hash \<Rightarrow> update \<Rightarrow> header option" where
  "Header hash u = (case ut_headers u hash of None \<Rightarrow> None | Some (h, _) \<Rightarrow> Some h)"

definition modify_header :: "hash \<Rightarrow> (header \<Rightarrow> header) \<Rightarrow> update \<Rightarrow> update" where
  "modify_header hash f u =
     u\<lparr>ut_headers := (\<lambda>k. if k = hash then (case ut_headers u k of None \<Rightarrow> None
                                             | Some (h, new) \<Rightarrow> Some (f h, new))
                          else ut_headers u k)\<rparr>"

definition stage :: "bool \<Rightarrow> header \<Rightarrow> update \<Rightarrow> (hash \<times> update) outcome" where
  "stage newHeader header u =
     assert_that ''added'' (ut_headers u (hd_hash header) = None)
       (Inr (hd_hash header, u\<lparr>ut_headers := (ut_headers u)(hd_hash header \<mapsto> (header, newHeader))\<rparr>))"

definition Stage_header :: "header \<Rightarrow> update \<Rightarrow> (hash \<times> update) outcome" where
  "Stage_header header u = stage True header u"

text \<open>\<open>Stage(hash)\<close>: \<open>None\<close> is the exception of \<open>LoadHeader\<close>.\<close>

definition Stage_hash :: "hash \<Rightarrow> update \<Rightarrow> (hash option \<times> update) outcome" where
  "Stage_hash hash u =
     (if ut_headers u hash \<noteq> None then Inr (Some hash, u)
      else case LoadHeader hash (ut_db u) of
             None \<Rightarrow> Inr (None, u)
           | Some h \<Rightarrow> bind_outcome (stage False h u) (\<lambda>(r, u'). Inr (Some r, u')))"

definition Stage_height :: "height \<Rightarrow> update \<Rightarrow> (hash option \<times> update) outcome" where
  "Stage_height height u = Stage_hash (EffectiveBestBlock height u) u"

definition Stage_best :: "update \<Rightarrow> (hash \<times> update) outcome" where
  "Stage_best u =
     (if ut_best u = []
      then bind_outcome (CurrentBest (ut_db u))
             (\<lambda>h. if ut_headers u (hd_hash h) \<noteq> None then Inr (hd_hash h, u) else stage False h u)
      else bind_outcome (Stage_hash (snd (last (ut_best u))) u)
             (\<lambda>(r, u'). case r of None \<Rightarrow> Inl Terminated | Some h \<Rightarrow> Inr (h, u')))"

subsection \<open>Applying an update\<close>

definition push_best :: "height \<times> hash \<Rightarrow> (height \<times> hash) list \<Rightarrow> (height \<times> hash) list" where
  "push_best next m = omap_put (fst next) (snd next) m"

text \<open>\<open>pop_best\<close> fails when there is no entry (\<open>MDB_NOTFOUND\<close>).\<close>

definition pop_best :: "height \<Rightarrow> (height \<times> hash) list \<Rightarrow> (height \<times> hash) list option" where
  "pop_best i m = (if map_of m i = None then None else Some (omap_del i m))"

fun pop_down :: "height list \<Rightarrow> (height \<times> hash) list \<Rightarrow> (height \<times> hash) list option" where
  "pop_down [] m = Some m"
| "pop_down (i # is) m = (case pop_best i m of None \<Rightarrow> None | Some m' \<Rightarrow> pop_down is m')"

fun delete_connected :: "(hash \<times> hash) list \<Rightarrow> (hash \<times> hash) list \<Rightarrow> (hash \<times> hash) list option" where
  "delete_connected [] d = Some d"
| "delete_connected (p # ps) d =
     (if p \<in> set d then delete_connected ps (oset_del p d) else None)"

definition store_headers ::
  "(hash \<Rightarrow> (header \<times> bool) option) \<Rightarrow> (hash \<Rightarrow> header option) \<Rightarrow> (hash \<Rightarrow> header option)" where
  "store_headers staged m =
     (\<lambda>h. case staged h of None \<Rightarrow> m h | Some (x, _) \<Rightarrow> Some (serialize_header x))"

definition updated_tables :: "update \<Rightarrow> header_db \<Rightarrow> header_db option" where
  "updated_tables u db =
     (let db1 = (if ut_have_checkpoint u then db\<lparr>db_checkpoint := Some (Checkpoint u)\<rparr> else db);
          d = fold oset_put (ut_disconnected u) (db_disconnected db1)
      in case delete_connected (ut_connect u) d of
           None \<Rightarrow> None
         | Some d' \<Rightarrow>
             (let sib = fold oset_del (ut_delete_sib u) (fold oset_put (ut_add_sib u) (db_siblings db1));
                  db2 = db1\<lparr>db_disconnected := d', db_siblings := sib,
                            db_headers := store_headers (ut_headers u) (db_headers db1)\<rparr>
              in case (if ut_have_reorg u
                       then pop_down (rev [fst (ut_reorg_from u) + 1..fst (best_position db)]) (db_best db2)
                       else Some (db_best db2)) of
                   None \<Rightarrow> None
                 | Some m \<Rightarrow>
                     (let db3 = db2\<lparr>db_best := fold push_best (ut_best u) m\<rparr>
                      in Some (if ut_best u = [] then db3
                               else db3\<lparr>db_tip := Some (fst (last (ut_best u)))\<rparr>))))"

definition publish :: "update \<Rightarrow> header_db \<Rightarrow> header_db \<times> signal list" where
  "publish u db =
     (let tip = best_position db
      in if ut_have_reorg u
         then (let parent = ut_reorg_from u
               in if db_last_update db = ReorgUpdate parent tip then (db, [])
                  else (db\<lparr>db_last_update := ReorgUpdate parent tip\<rparr>, [ReorgSignal parent tip]))
         else if db_last_update db = TipUpdate tip then (db, [])
         else (db, [NewHeaderSignal tip]))"

text \<open>
  \<open>store_ok\<close> is the success of the write to the common database, \<open>txn_ok\<close> that of the
  LMDB transaction (every \<open>mdb_put\<close> and the commit); a transaction that fails leaves the
  tables as they were.
\<close>

definition ApplyUpdate :: "bool \<Rightarrow> bool \<Rightarrow> update \<Rightarrow> header_db \<Rightarrow> bool \<times> header_db \<times> signal list" where
  "ApplyUpdate store_ok txn_ok u db =
     (if \<not> store_ok then (False, db, [])
      else case updated_tables u db of
             None \<Rightarrow> (False, db, [])
           | Some db' \<Rightarrow>
               if \<not> txn_ok then (False, db, [])
               else (let (db'', signals) = publish u db' in (True, db'', signals)))"

end
