(* ===== verification/Header_Oracle.thy ===== *)
theory Header_Oracle
  imports Header_Database
begin

text \<open>
  The header oracle (\<open>src/blockchain/node/headeroracle/Shared.cpp\<close> and
  \<open>HeaderOraclePrivate.cpp\<close>): adding headers, choosing the best chain, checkpoints.

  Candidates are kept in a \<open>std::vector\<close> and referred to by reference while the vector grows.
  The vector is a list here, with its capacity and the number of times it was reallocated; a
  reference is the index of an element and the number of reallocations at the time it was taken,
  and its use after a later reallocation is a \<open>DanglingReference\<close>. How the capacity grows is left
  to the implementation of the standard library and a field of the environment. A loop that
  follows parent hashes ends only when the hashes do: it has fuel.
\<close>

record oracle_env =
  env_add :: "work \<Rightarrow> work \<Rightarrow> work" \<comment> \<open>addition of work values, with its rounding\<close>
  env_genesis :: hash \<comment> \<open>\<open>params::get(chain).GenesisHash()\<close>\<close>
  env_default_checkpoint :: position \<comment> \<open>\<open>params::get(chain).CheckpointPosition()\<close>\<close>
  env_grow :: "nat \<Rightarrow> nat" \<comment> \<open>the capacity of a vector after a reallocation\<close>
  env_store_ok :: bool
  env_txn_ok :: bool
  env_fuel :: nat

record header_oracle =
  ho_db :: header_db
  ho_tip :: position \<comment> \<open>\<open>best_\<close>\<close>
  ho_have_job :: bool
  ho_unknown :: "(height \<times> hash list) list"
  ho_index :: "(hash \<times> height) list"
  ho_peer_height :: height
  ho_remote :: height
  ho_signals :: "signal list"

subsection \<open>Candidates\<close>

record candidate =
  cd_blacklisted :: bool
  cd_chain :: "position list"

record candidates =
  cds_list :: "candidate list"
  cds_capacity :: nat
  cds_epoch :: nat

type_synonym candidate_ref = "nat \<times> nat" \<comment> \<open>reallocations, index\<close>

definition no_candidates :: candidates where
  "no_candidates = \<lparr>cds_list = [], cds_capacity = 0, cds_epoch = 0\<rparr>"

definition emplace_back :: "(nat \<Rightarrow> nat) \<Rightarrow> candidate \<Rightarrow> candidates \<Rightarrow> candidate_ref \<times> candidates" where
  "emplace_back grow c cs =
     (let n = length (cds_list cs);
          cs' = (if n < cds_capacity cs then cs
                 else cs\<lparr>cds_capacity := grow (cds_capacity cs), cds_epoch := Suc (cds_epoch cs)\<rparr>)
      in ((cds_epoch cs', n), cs'\<lparr>cds_list := cds_list cs' @ [c]\<rparr>))"

definition candidate_at :: "candidate_ref \<Rightarrow> candidates \<Rightarrow> candidate outcome" where
  "candidate_at r cs =
     (if fst r \<noteq> cds_epoch cs then Inl DanglingReference
      else if snd r < length (cds_list cs) then Inr (cds_list cs ! snd r) else Inl UndefinedBehaviour)"

definition set_candidate :: "candidate_ref \<Rightarrow> candidate \<Rightarrow> candidates \<Rightarrow> candidates outcome" where
  "set_candidate r c cs =
     bind_outcome (candidate_at r cs) (\<lambda>_. Inr (cs\<lparr>cds_list := (cds_list cs)[snd r := c]\<rparr>))"

subsection \<open>Connecting headers\<close>

text \<open>A \<open>noexcept\<close> function: the exceptions of the two calls that throw end the process.\<close>

definition connect_to_parent :: "oracle_env \<Rightarrow> hash \<Rightarrow> hash \<Rightarrow> update \<Rightarrow> (bool \<times> update) outcome" where
  "connect_to_parent env parent child u =
     (case (Header parent u, Header child u) of
        (Some p, Some c) \<Rightarrow>
          (case InheritState p (InheritWork (Work (env_add env) p) c) of
             None \<Rightarrow> Inl Terminated
           | Some c1 \<Rightarrow>
               (case InheritHeight p c1 of
                  None \<Rightarrow> Inl Terminated
                | Some c2 \<Rightarrow>
                    (let c3 = CompareToCheckpoint (Checkpoint u) c2
                     in Inr (IsBlacklisted c3, modify_header child (\<lambda>_. c3) u))))
      | _ \<Rightarrow> Inl UndefinedBehaviour)"

definition is_disconnected :: "hash \<Rightarrow> update \<Rightarrow> (hash option \<times> update) outcome" where
  "is_disconnected parent u =
     bind_outcome (Stage_hash parent u)
       (\<lambda>(r, u'). case r of
          None \<Rightarrow> Inr (None, u')
        | Some h \<Rightarrow>
            (case Header h u' of
               None \<Rightarrow> Inl UndefinedBehaviour
             | Some p \<Rightarrow> Inr (if IsDisconnected p then None else Some h, u')))"

definition evaluate_candidate :: "oracle_env \<Rightarrow> header \<Rightarrow> header \<Rightarrow> bool" where
  "evaluate_candidate env current candidate \<longleftrightarrow>
     Work (env_add env) candidate > Work (env_add env) current"

text \<open>
  The loop of \<open>initialize_candidate\<close>: \<open>stopHash\<close> null means to stop at the best chain. The
  result is \<open>None\<close> when staging the next header throws.
\<close>

definition keep_walking :: "hash \<Rightarrow> update \<Rightarrow> position \<Rightarrow> bool" where
  "keep_walking stopHash u position =
     (if stopHash = null_hash then EffectiveBestBlock (fst position) u \<noteq> snd position
      else stopHash \<noteq> snd position)"

fun walk_back ::
  "nat \<Rightarrow> hash \<Rightarrow> hash \<Rightarrow> position \<Rightarrow> position list \<Rightarrow> update \<Rightarrow> ((position list \<times> position) option \<times> update) outcome" where
  "walk_back 0 stopHash grandparent position chain u = Inl OutOfFuel"
| "walk_back (Suc n) stopHash grandparent position chain u =
     (if \<not> keep_walking stopHash u position then Inr (Some (chain, position), u)
      else assert_that ''0 <= position.height_'' (0 \<le> fst position)
        (case Header grandparent u of
           None \<Rightarrow> Inl UndefinedBehaviour
         | Some g \<Rightarrow>
             bind_outcome (Stage_hash (hd_parent g) u)
               (\<lambda>(r, u'). case r of
                  None \<Rightarrow> Inr (None, u')
                | Some g' \<Rightarrow>
                    (case Header g' u' of
                       None \<Rightarrow> Inl UndefinedBehaviour
                     | Some gp \<Rightarrow> walk_back n stopHash g' (Position gp) (position # chain) u'))))"

definition initialize_candidate ::
  "oracle_env \<Rightarrow> hash \<Rightarrow> candidates \<Rightarrow> hash \<Rightarrow> hash \<Rightarrow> update
     \<Rightarrow> (candidate_ref option \<times> candidates \<times> update) outcome" where
  "initialize_candidate env parent cs child stopHash u =
     (case Header parent u of
        None \<Rightarrow> Inl UndefinedBehaviour
      | Some p \<Rightarrow>
          let (output, cs1) = emplace_back (env_grow env) \<lparr>cd_blacklisted = False, cd_chain = []\<rparr> cs
          in bind_outcome (connect_to_parent env parent child u)
               (\<lambda>(banned, u1). bind_outcome (walk_back (env_fuel env) stopHash parent (Position p) [] u1)
                 (\<lambda>(r, u2). case r of
                    None \<Rightarrow> Inr (None, cs1, u2)
                  | Some (chain, position) \<Rightarrow>
                      bind_outcome
                        (set_candidate output
                           \<lparr>cd_blacklisted = banned, cd_chain = (if chain = [] then [position] else chain)\<rparr> cs1)
                        (\<lambda>cs2. Inr (Some output, cs2, u2)))))"

text \<open>
  \<open>connect_children\<close> and the loop over the disconnected children of a header. \<open>False\<close> is an
  exception. The blacklist state of each child is assigned to \<open>candidate\<close>, the candidate the
  function was called with, whichever candidate the child extends.
\<close>

fun connect_children ::
    "nat \<Rightarrow> oracle_env \<Rightarrow> hash \<Rightarrow> candidate_ref \<Rightarrow> candidates \<times> update \<Rightarrow> (bool \<times> candidates \<times> update) outcome"
  and connect_each ::
    "nat \<Rightarrow> oracle_env \<Rightarrow> hash \<Rightarrow> candidate_ref \<Rightarrow> candidate \<Rightarrow> bool \<Rightarrow> (hash \<times> hash) list
       \<Rightarrow> candidates \<times> update \<Rightarrow> (bool \<times> candidates \<times> update) outcome" where
  "connect_children 0 env parent candidate (cs, u) = Inl OutOfFuel"
| "connect_children (Suc n) env parent candidate (cs, u) =
     bind_outcome (candidate_at candidate cs)
       (\<lambda>c. case (cd_chain c, Header parent u) of
          ([], _) \<Rightarrow> Inl UndefinedBehaviour
        | (_, None) \<Rightarrow> Inl UndefinedBehaviour
        | (chain, Some p) \<Rightarrow>
            assert_that ''end.height_ + 1 == parent.Position().height_''
              (fst (last chain) + 1 = hd_height p)
              (bind_outcome (set_candidate candidate (c\<lparr>cd_chain := chain @ [Position p]\<rparr>) cs)
                (\<lambda>cs1.
                  if \<not> EffectiveHasDisconnectedChildren (hd_hash p) u then Inr (True, cs1, u)
                  else connect_each n env parent candidate (c\<lparr>cd_chain := chain @ [Position p]\<rparr>) True
                         (disconnected_children (hd_hash p) u) (cs1, u))))"
| "connect_each n env parent candidate original firstChild [] (cs, u) = Inr (True, cs, u)"
| "connect_each n env parent candidate original firstChild (segment # rest) (cs, u) =
     bind_outcome (Stage_hash (snd segment) (ConnectBlock segment u))
       (\<lambda>(r, u1). case r of
          None \<Rightarrow> Inr (False, cs, u1)
        | Some child \<Rightarrow>
            bind_outcome (connect_to_parent env parent child u1)
              (\<lambda>(banned, u2). bind_outcome (candidate_at candidate cs)
                (\<lambda>c. bind_outcome (set_candidate candidate (c\<lparr>cd_blacklisted := banned\<rparr>) cs)
                  (\<lambda>cs1.
                    let (chainToExtend, cs2) =
                          (if firstChild then (candidate, cs1)
                           else emplace_back (env_grow env) original cs1)
                    in bind_outcome (connect_children n env child chainToExtend (cs2, u2))
                         (\<lambda>(ok, cs3, u3).
                           if \<not> ok then Inr (False, cs3, u3)
                           else connect_each n env parent candidate original False rest (cs3, u3))))))"

subsection \<open>Choosing the best candidate\<close>

text \<open>
  \<open>choose_candidate\<close> catches the exceptions of \<open>update.Header\<close>; its two loops return
  \<open>None\<close> for one.
\<close>

fun best_candidate :: "oracle_env \<Rightarrow> header \<Rightarrow> candidate list \<Rightarrow> update \<Rightarrow> header option outcome" where
  "best_candidate env pBest [] u = Inr (Some pBest)"
| "best_candidate env pBest (c # cs) u =
     (if cd_blacklisted c then best_candidate env pBest cs u
      else assert_that ''0 < candidate.chain_.size()'' (cd_chain c \<noteq> [])
        (case Header (snd (last (cd_chain c))) u of
           None \<Rightarrow> Inr None
         | Some tip \<Rightarrow> best_candidate env (if evaluate_candidate env pBest tip then tip else pBest) cs u))"

fun adopt_chain :: "header \<Rightarrow> bool \<Rightarrow> position list \<Rightarrow> update \<Rightarrow> update" where
  "adopt_chain current reorg [] u = u"
| "adopt_chain current reorg (segment # rest) u =
     (if fst segment \<le> hd_height current \<and> \<not> reorg
      then (if snd segment = EffectiveBestBlock (fst segment) u
            then adopt_chain current reorg rest u
            else adopt_chain current True rest
                   (AddSibling (Position current)
                     (AddToBestChain segment
                       (SetReorgParent (fst segment - 1, EffectiveBestBlock (fst segment - 1) u) u))))
      else adopt_chain current reorg rest (AddToBestChain segment u))"

fun place_candidates ::
  "header \<Rightarrow> header \<Rightarrow> bool \<Rightarrow> candidate list \<Rightarrow> update \<Rightarrow> ((bool \<times> bool) \<times> update) outcome" where
  "place_candidates current best found [] u = Inr ((True, found), u)"
| "place_candidates current best found (c # cs) u =
     assert_that ''0 < candidate.chain_.size()'' (cd_chain c \<noteq> [])
       (case Header (snd (last (cd_chain c))) u of
          None \<Rightarrow> Inr ((False, found), u)
        | Some tip \<Rightarrow>
            if hd_hash tip = hd_hash best
            then place_candidates current best True cs (adopt_chain current False (cd_chain c) u)
            else place_candidates current best found cs (AddSibling (Position tip) u))"

definition choose_candidate ::
  "oracle_env \<Rightarrow> hash \<Rightarrow> candidate list \<Rightarrow> update \<Rightarrow> ((bool \<times> bool) \<times> update) outcome" where
  "choose_candidate env current cs u =
     (case Header current u of
        None \<Rightarrow> Inl UndefinedBehaviour
      | Some cur \<Rightarrow>
          bind_outcome (best_candidate env cur cs u)
            (\<lambda>r. case r of
               None \<Rightarrow> Inr ((False, False), u)
             | Some best \<Rightarrow> place_candidates cur best False cs u))"

subsection \<open>Adding headers\<close>

definition add_header :: "oracle_env \<Rightarrow> header \<Rightarrow> update \<Rightarrow> (bool \<times> update) outcome" where
  "add_header env pHeader u =
     (if EffectiveHeaderExists (hd_hash pHeader) u then Inr (True, u)
      else bind_outcome (Stage_header pHeader u) (\<lambda>(header, u1).
           bind_outcome (Stage_best u1) (\<lambda>(current, u2).
           bind_outcome (is_disconnected (hd_parent pHeader) u2) (\<lambda>(pParent, u3).
             case pParent of
               None \<Rightarrow>
                 Inr (True, DisconnectBlock pHeader (modify_header header SetDisconnectedState u3))
             | Some parent \<Rightarrow>
                 (let u4 = (if EffectiveIsSibling (hd_parent pHeader) u3
                            then RemoveSibling (hd_parent pHeader) u3 else u3)
                  in bind_outcome (initialize_candidate env parent no_candidates header null_hash u4)
                       (\<lambda>(r, cs, u5). case r of
                          None \<Rightarrow> Inr (False, u5)
                        | Some candidate \<Rightarrow>
                            bind_outcome (connect_children (env_fuel env) env header candidate (cs, u5))
                              (\<lambda>(ok, cs', u6).
                                if \<not> ok then Inr (False, u6)
                                else bind_outcome (choose_candidate env current (cds_list cs') u6)
                                       (\<lambda>((success, _), u7). Inr (success, u7)))))))))"

subsection \<open>Unknown hashes and the height of the network\<close>

definition max_height :: height where
  "max_height = 2 ^ 63 - 1"

definition AddUnknownHash :: "hash \<Rightarrow> header_oracle \<Rightarrow> header_oracle" where
  "AddUnknownHash hash s =
     (let b = fst (ho_tip s);
          old = (case map_of (ho_unknown s) b of None \<Rightarrow> [] | Some s \<Rightarrow> s)
      in s\<lparr>ho_unknown := omap_put b (oset_put hash old) (ho_unknown s),
           ho_index := omap_put hash b (ho_index s),
           ho_remote := max_height\<rparr>)"

fun prune_known ::
  "header_db \<Rightarrow> (hash \<times> height) list \<Rightarrow> (hash \<times> height) list \<times> (height \<times> hash list) list
     \<Rightarrow> ((hash \<times> height) list \<times> (height \<times> hash list) list) outcome" where
  "prune_known db [] (index, m) = Inr (index, m)"
| "prune_known db ((hash, slot) # rest) (index, m) =
     (if HeaderExists hash db
      then (case map_of m slot of
              None \<Rightarrow> Inl Unreachable
            | Some s \<Rightarrow>
                (let s' = oset_del hash s;
                     m' = (if s' = [] then omap_del slot m else omap_put slot s' m)
                 in prune_known db rest (omap_del hash index, m')))
      else prune_known db rest (index, m))"

definition prune_unknown :: "header_oracle \<Rightarrow> header_oracle" where
  "prune_unknown s =
     (let target = fst (ho_tip s) + 2;
          gone = concat (map snd (filter (\<lambda>(k, _). k \<le> target) (ho_unknown s)))
      in s\<lparr>ho_index := fold omap_del gone (ho_index s),
           ho_unknown := filter (\<lambda>(k, _). \<not> k \<le> target) (ho_unknown s)\<rparr>)"

definition PruneKnownHashes :: "oracle_env \<Rightarrow> header_oracle \<Rightarrow> header_oracle outcome" where
  "PruneKnownHashes env s =
     bind_outcome (prune_known (ho_db s) (ho_index s) (ho_index s, ho_unknown s))
       (\<lambda>(index, m).
         let o1 = prune_unknown (s\<lparr>ho_index := index, ho_unknown := m\<rparr>)
         in Inr (if ho_index o1 = [] \<and> max_height = ho_remote o1
                 then o1\<lparr>ho_remote := fst (env_default_checkpoint env)\<rparr> else o1))"

definition UpdateRemoteHeight :: "height \<Rightarrow> header_oracle \<Rightarrow> bool \<times> header_oracle" where
  "UpdateRemoteHeight value s =
     (let previous = ho_remote s;
          peer = max (ho_peer_height s) value;
          effective = (if max_height = previous then - 1 else previous)
      in (value \<noteq> previous, s\<lparr>ho_peer_height := peer, ho_remote := max effective peer\<rparr>))"

definition IsSynchronized :: "header_oracle \<Rightarrow> bool" where
  "IsSynchronized s \<longleftrightarrow> fst (ho_tip s) \<ge> ho_remote s"

definition JobIsAvailable :: "header_oracle \<Rightarrow> bool" where
  "JobIsAvailable s = (if ho_have_job s \<or> IsSynchronized s then False else True)"

definition Target :: "header_oracle \<Rightarrow> height" where
  "Target s =
     (let best = fst (ho_tip s); peer = ho_peer_height s; value = ho_remote s;
          remote = (if max_height = value then max (best + 1) peer else value)
      in max best remote)"

text \<open>\<open>GetJob\<close>: the hashes the job starts from, when there is a job.\<close>

definition GetJob :: "header_oracle \<Rightarrow> hash list option \<times> header_oracle" where
  "GetJob s =
     (if JobIsAvailable s then (Some (RecentHashes (ho_db s)), s\<lparr>ho_have_job := True\<rparr>)
      else (None, s))"

definition process_job_finished :: "header_oracle \<Rightarrow> header_oracle" where
  "process_job_finished s = s\<lparr>ho_have_job := False\<rparr>"

subsection \<open>The operations\<close>

definition apply_update :: "oracle_env \<Rightarrow> update \<Rightarrow> header_oracle \<Rightarrow> (bool \<times> header_oracle) outcome" where
  "apply_update env u s =
     (let previous = ho_tip s;
          (out, db, signals) = ApplyUpdate (env_store_ok env) (env_txn_ok env) u (ho_db s)
      in bind_outcome (CurrentBest db)
           (\<lambda>h. let o1 = s\<lparr>ho_db := db, ho_signals := ho_signals s @ signals, ho_tip := Position h\<rparr>
            in bind_outcome (PruneKnownHashes env o1)
                 (\<lambda>o2. Inr (out, if previous \<noteq> ho_tip o2
                                 then o2\<lparr>ho_signals := ho_signals o2 @ [StateMachineSignal]\<rparr> else o2))))"

text \<open>A blank header is \<open>None\<close>.\<close>

fun add_headers :: "oracle_env \<Rightarrow> header option list \<Rightarrow> update \<Rightarrow> (bool \<times> update) outcome" where
  "add_headers env [] u = Inr (True, u)"
| "add_headers env (None # hs) u = Inr (False, u)"
| "add_headers env (Some h # hs) u =
     bind_outcome (add_header env h u) (\<lambda>(ok, u'). if \<not> ok then Inr (False, u') else add_headers env hs u')"

definition AddHeaders :: "oracle_env \<Rightarrow> header option list \<Rightarrow> header_oracle \<Rightarrow> (bool \<times> header_oracle) outcome" where
  "AddHeaders env headers s =
     (if headers = [] then Inr (False, s)
      else bind_outcome (add_headers env headers (UpdateTransaction (ho_db s)))
             (\<lambda>(ok, u). if \<not> ok then Inr (False, s) else apply_update env u s))"

definition AddHeader :: "oracle_env \<Rightarrow> header option \<Rightarrow> header_oracle \<Rightarrow> (bool \<times> header_oracle) outcome" where
  "AddHeader env header s = AddHeaders env [header] s"

subsection \<open>Checkpoints\<close>

text \<open>\<open>stage_candidate\<close>: \<open>False\<close> is an exception.\<close>

definition stage_candidate ::
  "oracle_env \<Rightarrow> hash \<Rightarrow> hash \<Rightarrow> candidates \<times> update \<Rightarrow> (bool \<times> candidates \<times> update) outcome" where
  "stage_candidate env best child = (\<lambda>(cs, u).
     (case (Header best u, Header child u) of
        (Some b, Some c) \<Rightarrow>
          (let position = hd_height b + 1
           in if hd_height c < position then Inr (True, cs, u)
              else if hd_height c = position
              then Inr (True, snd (emplace_back (env_grow env)
                                     \<lparr>cd_blacklisted = False, cd_chain = [Position c]\<rparr> cs), u)
              else bind_outcome (Stage_hash (hd_parent c) u)
                     (\<lambda>(r, u1). case r of
                        None \<Rightarrow> Inr (False, cs, u1)
                      | Some parent \<Rightarrow>
                          bind_outcome (initialize_candidate env parent cs child (hd_hash b) u1)
                            (\<lambda>(r, cs1, u2). case r of
                               None \<Rightarrow> Inr (False, cs1, u2)
                             | Some candidate \<Rightarrow>
                                 bind_outcome (candidate_at candidate cs1)
                                   (\<lambda>cd. case Header child u2 of
                                      None \<Rightarrow> Inl UndefinedBehaviour
                                    | Some c2 \<Rightarrow>
                                        let chain = cd_chain cd @ [Position c2]
                                        in bind_outcome
                                             (set_candidate candidate (cd\<lparr>cd_chain := chain\<rparr>) cs1)
                                             (\<lambda>cs2. assert_that ''position == first''
                                                      (position = fst (hd chain))
                                                      (Inr (True, cs2, u2)))))))
      | _ \<Rightarrow> Inl UndefinedBehaviour))"

fun stage_siblings ::
  "oracle_env \<Rightarrow> hash \<Rightarrow> hash list \<Rightarrow> candidates \<times> update \<Rightarrow> (bool \<times> candidates \<times> update) outcome" where
  "stage_siblings env ancestor [] (cs, u) = Inr (True, cs, u)"
| "stage_siblings env ancestor (hash # hashes) (cs, u) =
     bind_outcome (Stage_hash hash u)
       (\<lambda>(r, u1). case r of
          None \<Rightarrow> Inr (False, cs, u1)
        | Some child \<Rightarrow>
            bind_outcome (stage_candidate env ancestor child (cs, u1))
              (\<lambda>(ok, cs1, u2). if \<not> ok then Inr (False, cs1, u2)
                               else stage_siblings env ancestor hashes (cs1, u2)))"

text \<open>The state of each chain is computed again, from the ancestor up.\<close>

fun reconnect :: "oracle_env \<Rightarrow> hash \<Rightarrow> bool \<Rightarrow> position list \<Rightarrow> update \<Rightarrow> (bool option \<times> update) outcome" where
  "reconnect env pParent invalid [] u = Inr (Some invalid, u)"
| "reconnect env pParent invalid (p # ps) u =
     (case Header (snd p) u of
        None \<Rightarrow> Inr (None, u)
      | Some _ \<Rightarrow>
          bind_outcome (connect_to_parent env pParent (snd p) u)
            (\<lambda>(banned, u'). reconnect env (snd p) banned ps u'))"

fun reconnect_all ::
  "oracle_env \<Rightarrow> hash \<Rightarrow> candidate list \<Rightarrow> update \<Rightarrow> (candidate list option \<times> update) outcome" where
  "reconnect_all env ancestor [] u = Inr (Some [], u)"
| "reconnect_all env ancestor (c # cs) u =
     bind_outcome (reconnect env ancestor (cd_blacklisted c) (cd_chain c) u)
       (\<lambda>(r, u1). case r of
          None \<Rightarrow> Inr (None, u1)
        | Some invalid \<Rightarrow>
            bind_outcome (reconnect_all env ancestor cs u1)
              (\<lambda>(r, u2). Inr (map_option (\<lambda>cs'. c\<lparr>cd_blacklisted := invalid\<rparr> # cs') r, u2)))"

definition apply_checkpoint :: "oracle_env \<Rightarrow> height \<Rightarrow> update \<Rightarrow> (bool \<times> update) outcome" where
  "apply_checkpoint env position u =
     bind_outcome (Stage_best u) (\<lambda>(best, u1).
     case Header best u1 of
       None \<Rightarrow> Inl UndefinedBehaviour
     | Some b \<Rightarrow>
         if position > hd_height b then Inr (True, u1)
         else
           let sibs = siblings u1;
               cs0 = no_candidates\<lparr>cds_capacity := length sibs + 1\<rparr>
           in bind_outcome (Stage_height (position - 1) u1) (\<lambda>(r, u2).
              case r of
                None \<Rightarrow> Inr (False, u2)
              | Some ancestor \<Rightarrow>
                  bind_outcome (stage_candidate env ancestor best (cs0, u2)) (\<lambda>(ok, cs1, u3).
                  if \<not> ok then Inr (False, u3)
                  else bind_outcome (stage_siblings env ancestor sibs (cs1, u3)) (\<lambda>(ok, cs2, u4).
                  if \<not> ok then Inr (False, u4)
                  else bind_outcome (reconnect_all env ancestor (cds_list cs2) u4) (\<lambda>(r, u5).
                  case r of
                    None \<Rightarrow> Inr (False, u5)
                  | Some cs3 \<Rightarrow>
                      bind_outcome (choose_candidate env ancestor cs3 u5) (\<lambda>((success, found), u6).
                      if \<not> success then Inr (False, u6)
                      else if \<not> found
                      then (case Header ancestor u6 of
                              None \<Rightarrow> Inl UndefinedBehaviour
                            | Some a \<Rightarrow>
                                Inr (True, AddToBestChain (Position a) (SetReorgParent (Position a) u6)))
                      else Inr (True, u6)))))))"

definition AddCheckpoint :: "oracle_env \<Rightarrow> height \<Rightarrow> hash \<Rightarrow> header_oracle \<Rightarrow> (bool \<times> header_oracle) outcome" where
  "AddCheckpoint env position requiredHash s =
     (let u = UpdateTransaction (ho_db s)
      in if EffectiveCheckpoint u then Inr (False, s)
         else if 2 > position then Inr (False, s)
         else bind_outcome (apply_checkpoint env position (SetCheckpoint (position, requiredHash) u))
                (\<lambda>(ok, u'). if ok then apply_update env u' s else Inr (False, s)))"

definition DeleteCheckpoint :: "oracle_env \<Rightarrow> header_oracle \<Rightarrow> (bool \<times> header_oracle) outcome" where
  "DeleteCheckpoint env s =
     (let u = UpdateTransaction (ho_db s)
      in if \<not> EffectiveCheckpoint u then Inr (False, s)
         else let position = fst (Checkpoint u)
              in bind_outcome (apply_checkpoint env position (ClearCheckpoint u))
                   (\<lambda>(ok, u'). if ok then apply_update env u' s else Inr (False, s)))"

definition GetCheckpoint :: "header_oracle \<Rightarrow> position" where
  "GetCheckpoint s = CurrentCheckpoint (ho_db s)"

definition Init :: "oracle_env \<Rightarrow> header_oracle \<Rightarrow> header_oracle outcome" where
  "Init env s =
     (let (existingHeight, existingBlockHash) = GetCheckpoint s;
          (defaultHeight, defaultBlockhash) = env_default_checkpoint env
      in if existingHeight > defaultHeight then Inr s
         else if existingHeight = defaultHeight \<and> existingBlockHash = defaultBlockhash then Inr s
         else bind_outcome
                (if existingHeight \<noteq> fst blank_position
                 then bind_outcome (DeleteCheckpoint env s)
                        (\<lambda>(deleted, o1). assert_that ''deleted'' deleted (Inr o1))
                 else Inr s)
                (\<lambda>o1. if 1 < defaultHeight
                      then bind_outcome (AddCheckpoint env defaultHeight defaultBlockhash o1)
                             (\<lambda>(added, o2). assert_that ''added'' added (Inr o2))
                      else Inr o1))"

end
