(* ===== verification/Header_Chain.thy ===== *)
theory Header_Chain
  imports Header_Oracle
begin

text \<open>
  What the header database promises: the connected headers form a tree under the genesis header,
  each with the height, the work and the checkpoint state its parent gives it; the others wait for
  a parent that is missing; the best chain is a path of the tree from the genesis header to a header
  of greatest work; the siblings are the other leaves.
\<close>

type_synonym header_map = "hash \<Rightarrow> header option"

definition connected_in :: "header_map \<Rightarrow> hash \<Rightarrow> bool" where
  "connected_in m h \<longleftrightarrow> (\<exists>x. m h = Some x \<and> \<not> IsDisconnected x)"

definition keyed :: "header_map \<Rightarrow> bool" where
  "keyed m \<longleftrightarrow> finite (dom m) \<and>
     (\<forall>h x. m h = Some x \<longrightarrow> hd_hash x = h \<and> h \<noteq> null_hash \<and> 0 < hd_work x \<and>
        hd_work x \<in> \<int> \<and> hd_inherit_work x \<in> \<int>)"

definition rooted :: "hash \<Rightarrow> header_map \<Rightarrow> bool" where
  "rooted g m \<longleftrightarrow>
     (\<exists>x. m g = Some x \<and> hd_height x = 0 \<and> hd_parent x = null_hash \<and> EffectiveState x = StatusNormal)"

definition tree :: "(work \<Rightarrow> work \<Rightarrow> work) \<Rightarrow> position \<Rightarrow> hash \<Rightarrow> header_map \<Rightarrow> bool" where
  "tree add cp g m \<longleftrightarrow>
     (\<forall>h x. m h = Some x \<longrightarrow> \<not> IsDisconnected x \<longrightarrow> h \<noteq> g \<longrightarrow>
        (\<exists>p. m (hd_parent x) = Some p \<and> \<not> IsDisconnected p \<and> x = under_parent add cp p x \<and>
             Work add x = hd_work x + Work add p))"

definition waiting :: "header_map \<Rightarrow> (hash \<times> hash) list \<Rightarrow> bool" where
  "waiting m d \<longleftrightarrow>
     distinct d \<and> set d = {(hd_parent x, h) | h x. m h = Some x \<and> IsDisconnected x} \<and>
     (\<forall>p h. (p, h) \<in> set d \<longrightarrow> \<not> connected_in m p)"

definition best_path :: "hash \<Rightarrow> header_map \<Rightarrow> (height \<times> hash) list \<Rightarrow> height \<Rightarrow> bool" where
  "best_path g m b t \<longleftrightarrow>
     ordered b \<and> 0 \<le> t \<and> (\<forall>k. map_of b k \<noteq> None \<longleftrightarrow> 0 \<le> k \<and> k \<le> t) \<and> map_of b 0 = Some g \<and>
     (\<forall>k h. map_of b k = Some h \<longrightarrow>
        (\<exists>x. m h = Some x \<and> \<not> IsDisconnected x \<and> hd_height x = k \<and>
             (0 < k \<longrightarrow> map_of b (k - 1) = Some (hd_parent x))))"

definition leaf :: "header_map \<Rightarrow> hash \<Rightarrow> bool" where
  "leaf m h \<longleftrightarrow> connected_in m h \<and> \<not> (\<exists>c y. m c = Some y \<and> \<not> IsDisconnected y \<and> hd_parent y = h)"

definition heaviest :: "(work \<Rightarrow> work \<Rightarrow> work) \<Rightarrow> header_map \<Rightarrow> header \<Rightarrow> bool" where
  "heaviest add m tip \<longleftrightarrow>
     \<not> IsBlacklisted tip \<and>
     (\<forall>h x. m h = Some x \<longrightarrow> leaf m h \<longrightarrow> \<not> IsBlacklisted x \<longrightarrow> Work add x \<le> Work add tip)"

text \<open>
  The siblings include all leaves other than the tip. They are no more than that unless a checkpoint
  keeps the best chain from following a branch to its end.
\<close>

definition siblings_ok :: "position \<Rightarrow> header_map \<Rightarrow> hash \<Rightarrow> hash set \<Rightarrow> bool" where
  "siblings_ok cp m tip s \<longleftrightarrow>
     {h. leaf m h \<and> h \<noteq> tip} \<subseteq> s \<and> s \<subseteq> {h. connected_in m h \<and> h \<noteq> tip} \<and>
     (cp = blank_position \<longrightarrow> s \<subseteq> {h. leaf m h})"

definition chain_inv :: "oracle_env \<Rightarrow> header_db \<Rightarrow> bool" where
  "chain_inv env db \<longleftrightarrow>
     keyed (db_headers db) \<and> env_genesis env \<noteq> null_hash \<and> rooted (env_genesis env) (db_headers db) \<and>
     tree (env_add env) (CurrentCheckpoint db) (env_genesis env) (db_headers db) \<and>
     waiting (db_headers db) (db_disconnected db) \<and>
     (\<exists>t tip. db_tip db = Some t \<and> best_path (env_genesis env) (db_headers db) (db_best db) t \<and>
        (\<exists>h. map_of (db_best db) t = Some h \<and> db_headers db h = Some tip \<and>
             heaviest (env_add env) (db_headers db) tip \<and>
             siblings_ok (CurrentCheckpoint db) (db_headers db) h (set (db_siblings db))))"

subsection \<open>The tree\<close>

lemma keyedD:
  assumes "keyed m" "m h = Some x"
  shows "hd_hash x = h" "h \<noteq> null_hash" "0 < hd_work x" "hd_work x \<in> \<int>" "hd_inherit_work x \<in> \<int>"
  using assms by (auto simp: keyed_def)

lemma keyed_null [simp]: "keyed m \<Longrightarrow> m null_hash = None"
  by (cases "m null_hash") (auto simp: keyed_def)

lemma treeE:
  assumes "tree add cp g m" "m h = Some x" "\<not> IsDisconnected x" "h \<noteq> g"
  obtains p where "m (hd_parent x) = Some p" "\<not> IsDisconnected p" "x = under_parent add cp p x"
    "Work add x = hd_work x + Work add p" "hd_height x = hd_height p + 1"
    "hd_inherit_status x = EffectiveState p"
proof -
  obtain p where p: "m (hd_parent x) = Some p" "\<not> IsDisconnected p" "x = under_parent add cp p x"
    "Work add x = hd_work x + Work add p"
    using assms unfolding tree_def by blast
  have "hd_height x = hd_height p + 1" "hd_inherit_status x = EffectiveState p"
    using arg_cong [OF p(3), of hd_height] arg_cong [OF p(3), of hd_inherit_status] by simp_all
  with p show ?thesis by (rule that)
qed

lemma height_nonneg:
  assumes "keyed m" "rooted g m" "tree add cp g m" "m h = Some x" "\<not> IsDisconnected x"
  shows "0 \<le> hd_height x"
proof -
  let ?C = "{h. connected_in m h}" and ?ht = "\<lambda>h. hd_height (the (m h))"
  have fin: "finite ?C"
    by (rule finite_subset [of _ "dom m"]) (use assms(1) in \<open>auto simp: keyed_def connected_in_def\<close>)
  have ne: "h \<in> ?C" using assms(4,5) by (auto simp: connected_in_def)
  define k where "k = arg_min_on ?ht ?C"
  have nonempty: "?C \<noteq> {}" using ne by blast
  have k: "k \<in> ?C" unfolding k_def by (rule arg_min_if_finite(1) [OF fin nonempty])
  have least: "?ht k \<le> ?ht j" if "j \<in> ?C" for j
    unfolding k_def by (rule arg_min_least [OF fin nonempty that])
  have "k = g"
  proof (rule ccontr)
    assume "k \<noteq> g"
    obtain y where y: "m k = Some y" "\<not> IsDisconnected y" using k by (auto simp: connected_in_def)
    from assms(3) y \<open>k \<noteq> g\<close> obtain p where "m (hd_parent y) = Some p" "\<not> IsDisconnected p"
      "hd_height y = hd_height p + 1" by (rule treeE)
    with least [of "hd_parent y"] y show False by (auto simp: connected_in_def)
  qed
  with least [OF ne] assms(2,4) show ?thesis by (auto simp: rooted_def)
qed

text \<open>Induction along the tree.\<close>

lemma tree_induct [consumes 5, case_names genesis child]:
  assumes "keyed m" "rooted g m" "tree add cp g m" "m h = Some x" "\<not> IsDisconnected x"
    and g: "\<And>x. m g = Some x \<Longrightarrow> P g x"
    and c: "\<And>h x p. m h = Some x \<Longrightarrow> \<not> IsDisconnected x \<Longrightarrow> h \<noteq> g \<Longrightarrow> m (hd_parent x) = Some p \<Longrightarrow>
              \<not> IsDisconnected p \<Longrightarrow> x = under_parent add cp p x \<Longrightarrow> hd_height x = hd_height p + 1 \<Longrightarrow>
              Work add x = hd_work x + Work add p \<Longrightarrow> P (hd_parent x) p \<Longrightarrow> P h x"
  shows "P h x"
  using assms(4,5)
proof (induction "nat (hd_height x)" arbitrary: h x rule: less_induct)
  case less
  show ?case
  proof (cases "h = g")
    case True
    with less.prems g show ?thesis by simp
  next
    case False
    with assms(3) less.prems obtain p where p: "m (hd_parent x) = Some p" "\<not> IsDisconnected p"
      "x = under_parent add cp p x" "hd_height x = hd_height p + 1" "Work add x = hd_work x + Work add p"
      by (metis treeE)
    have "0 \<le> hd_height p" using height_nonneg [OF assms(1-3) p(1,2)] .
    then have "P (hd_parent x) p" using less.hyps p(1,2,4) by simp
    with c [OF less.prems False p(1,2,3,4,5)] show ?thesis .
  qed
qed

lemma connected_state:
  assumes "keyed m" "rooted g m" "tree add cp g m" "m h = Some x" "\<not> IsDisconnected x"
  shows "EffectiveState x \<in> {StatusNormal, StatusCheckpointBanned}"
  using assms
proof (induction rule: tree_induct)
  case (genesis x)
  with assms(2) show ?case by (auto simp: rooted_def)
next
  case (child h x p)
  then have "EffectiveState p \<in> {StatusNormal, StatusCheckpointBanned}" by blast
  from EffectiveState_under_parent [OF this, of add cp x] arg_cong [OF child.hyps(6), of EffectiveState]
  show ?case by (simp split: if_splits)
qed

text \<open>The work of a header is the sum of the work of the headers on its path.\<close>

lemma path_work:
  assumes "keyed m" "rooted g m" "tree add cp g m" "m h = Some x" "\<not> IsDisconnected x"
  shows "\<exists>a. a \<subseteq> {h. connected_in m h} \<and> finite a \<and> h \<in> a \<and>
           (\<forall>j \<in> a. hd_height (the (m j)) \<le> hd_height x) \<and> Work add x = (\<Sum>j \<in> a. hd_work (the (m j)))"
  using assms
proof (induction rule: tree_induct)
  case (genesis x)
  then show ?case
    using assms(2)
    by (intro exI [of _ "{g}"]) (auto simp: rooted_def connected_in_def IsDisconnected_def Work_def)
next
  case (child h x p)
  then obtain a where a: "a \<subseteq> {h. connected_in m h}" "finite a"
    "\<forall>j \<in> a. hd_height (the (m j)) \<le> hd_height p" "Work add p = (\<Sum>j \<in> a. hd_work (the (m j)))"
    by blast
  have "h \<notin> a" using a(3) child.hyps by auto
  with a child.hyps show ?case
    by (intro exI [of _ "insert h a"]) (auto simp: connected_in_def)
qed

definition total_work :: "header_map \<Rightarrow> work" where
  "total_work m = (\<Sum>h \<in> dom m. hd_work (the (m h)))"

lemma work_nonneg: "keyed m \<Longrightarrow> h \<in> dom m \<Longrightarrow> 0 \<le> hd_work (the (m h))"
  by (auto simp: keyed_def less_imp_le)

lemma work_bound:
  assumes "keyed m" "rooted g m" "tree add cp g m" "m h = Some x" "\<not> IsDisconnected x"
    and "finite b" "b \<subseteq> dom m" "\<forall>j \<in> b. \<not> connected_in m j"
  shows "Work add x + (\<Sum>j \<in> b. hd_work (the (m j))) \<le> total_work m"
proof -
  obtain a where a: "a \<subseteq> {h. connected_in m h}" "finite a" "Work add x = (\<Sum>j \<in> a. hd_work (the (m j)))"
    using path_work [OF assms(1-5)] by blast
  have "a \<inter> b = {}" using a(1) assms(8) by auto
  then have "Work add x + (\<Sum>j \<in> b. hd_work (the (m j))) = (\<Sum>j \<in> a \<union> b. hd_work (the (m j)))"
    using a assms(6) by (simp add: sum.union_disjoint)
  also have "\<dots> \<le> total_work m"
    unfolding total_work_def
    by (rule sum_mono2) (use a assms in \<open>auto simp: keyed_def connected_in_def less_imp_le\<close>)
  finally show ?thesis .
qed

lemma work_positive:
  assumes "keyed m" "rooted g m" "tree add cp g m" "m h = Some x" "\<not> IsDisconnected x"
  shows "0 < Work add x" "Work add x \<in> \<int>"
proof -
  have "0 < Work add x \<and> Work add x \<in> \<int>"
    using assms
  proof (induction rule: tree_induct)
    case (genesis x)
    with assms(1,2) show ?case by (auto simp: rooted_def Work_def keyed_def)
  next
    case (child h x p)
    with keyedD [OF assms(1) child.hyps(1)] show ?case by (simp add: add_pos_pos)
  qed
  then show "0 < Work add x" "Work add x \<in> \<int>" by simp_all
qed

text \<open>Every connected header has a leaf above it, with at least its work.\<close>

lemma leaf_above:
  assumes "keyed m" "rooted g m" "tree add cp g m" "m h = Some x" "\<not> IsDisconnected x"
  shows "\<exists>l y. m l = Some y \<and> leaf m l \<and> Work add x \<le> Work add y"
proof -
  let ?S = "{j. connected_in m j \<and> Work add x \<le> Work add (the (m j))}"
    and ?w = "\<lambda>j. - Work add (the (m j))"
  have fin: "finite ?S"
    by (rule finite_subset [of _ "dom m"]) (use assms(1) in \<open>auto simp: keyed_def connected_in_def\<close>)
  have ne: "?S \<noteq> {}" using assms(4,5) by (auto simp: connected_in_def)
  define l where "l = arg_min_on ?w ?S"
  have l: "l \<in> ?S" unfolding l_def by (rule arg_min_if_finite(1) [OF fin ne])
  then obtain y where y: "m l = Some y" "\<not> IsDisconnected y" "Work add x \<le> Work add y"
    by (auto simp: connected_in_def)
  have "leaf m l"
    unfolding leaf_def
  proof (intro conjI notI)
    show "connected_in m l" using y by (auto simp: connected_in_def)
    assume "\<exists>c z. m c = Some z \<and> \<not> IsDisconnected z \<and> hd_parent z = l"
    then obtain c z where z: "m c = Some z" "\<not> IsDisconnected z" "hd_parent z = l" by blast
    have "c \<noteq> g"
      using z(1,3) y(1) assms(1,2) by (auto simp: rooted_def)
    with assms(3) z(1,2) obtain p where p: "m (hd_parent z) = Some p" "Work add z = hd_work z + Work add p"
      by (rule treeE)
    with z y have "Work add y < Work add z" using keyedD(3) [OF assms(1) z(1)] by simp
    moreover from this y(3) z have "c \<in> ?S" by (auto simp: connected_in_def)
    then have "?w l \<le> ?w c" unfolding l_def by (rule arg_min_least [OF fin ne])
    ultimately show False using y(1) z(1) by simp
  qed
  with y show ?thesis by blast
qed

lemma no_checkpoint_state:
  assumes "keyed m" "rooted g m" "tree add blank_position g m" "m h = Some x" "\<not> IsDisconnected x"
  shows "EffectiveState x = StatusNormal"
  using assms
proof (induction rule: tree_induct)
  case (genesis x)
  with assms(2) show ?case by (auto simp: rooted_def)
next
  case (child h x p)
  have "0 \<le> hd_height p" using height_nonneg [OF assms(1-3) child.hyps(4,5)] .
  with EffectiveState_under_parent [of p add blank_position x] child.IH
    arg_cong [OF child.hyps(6), of EffectiveState]
  show ?case by (simp add: checkpoint_status_def)
qed

text \<open>Without a checkpoint the tip has the greatest work of all connected headers.\<close>

lemma heaviest_all:
  assumes "keyed m" "rooted g m" "tree add blank_position g m" "heaviest add m tip"
    "m h = Some x" "\<not> IsDisconnected x"
  shows "Work add x \<le> Work add tip"
proof -
  obtain l y where l: "m l = Some y" "leaf m l" "Work add x \<le> Work add y"
    using leaf_above [OF assms(1-3,5,6)] by blast
  then have "\<not> IsDisconnected y" by (auto simp: leaf_def connected_in_def)
  with no_checkpoint_state [OF assms(1-3) l(1)] have "\<not> IsBlacklisted y"
    by (simp add: IsBlacklisted_def)
  with assms(4) l have "Work add y \<le> Work add tip" by (auto simp: heaviest_def)
  with l(3) show ?thesis by simp
qed

end
