(* ===== verification/Header_Staging.thy ===== *)
theory Header_Staging
  imports Header_Chain
begin

text \<open>
  An update transaction seen as the header map it stands for: what is staged, and the database
  where nothing is. Staging a header that exists changes the transaction and not this map.
\<close>

definition view :: "update \<Rightarrow> header_map" where
  "view u h = (case ut_headers u h of Some (x, _) \<Rightarrow> Some x | None \<Rightarrow> db_headers (ut_db u) h)"

definition hash_keyed :: "header_map \<Rightarrow> bool" where
  "hash_keyed m \<longleftrightarrow> (\<forall>h x. m h = Some x \<longrightarrow> hd_hash x = h)"

definition staged :: "update \<Rightarrow> update \<Rightarrow> bool" where
  "staged u u' \<longleftrightarrow>
     (\<exists>m. u' = u\<lparr>ut_headers := m\<rparr>) \<and> view u' = view u \<and>
     (\<forall>h. ut_headers u h \<noteq> None \<longrightarrow> ut_headers u' h = ut_headers u h)"

lemma staged_refl [simp]: "staged u u"
  unfolding staged_def by (auto intro: exI [of _ "ut_headers u"])

lemma staged_trans: "staged u u' \<Longrightarrow> staged u' u'' \<Longrightarrow> staged u u''"
  unfolding staged_def by auto

lemma staged_simps:
  assumes "staged u u'"
  shows "ut_db u' = ut_db u" "ut_have_reorg u' = ut_have_reorg u"
    "ut_have_checkpoint u' = ut_have_checkpoint u" "ut_reorg_from u' = ut_reorg_from u"
    "ut_checkpoint u' = ut_checkpoint u" "ut_best u' = ut_best u" "ut_add_sib u' = ut_add_sib u"
    "ut_delete_sib u' = ut_delete_sib u" "ut_connect u' = ut_connect u"
    "ut_disconnected u' = ut_disconnected u" "disconnected u' = disconnected u"
    "siblings u' = siblings u" "Checkpoint u' = Checkpoint u"
    "EffectiveBestBlock k u' = EffectiveBestBlock k u" "view u' = view u"
  using assms
  by (auto simp: staged_def disconnected_def siblings_def Checkpoint_def EffectiveBestBlock_def
      cong: option.case_cong)

lemma staged_Header: "staged u u' \<Longrightarrow> Header h u = Some x \<Longrightarrow> Header h u' = Some x"
  by (fastforce simp: staged_def Header_def split: option.splits)

lemma Header_view: "Header h u = Some x \<Longrightarrow> view u h = Some x"
  by (auto simp: Header_def view_def split: option.splits)

lemma view_UpdateTransaction [simp]: "view (UpdateTransaction db) = db_headers db"
  by (simp add: view_def UpdateTransaction_def fun_eq_iff)

lemma stage_old:
  assumes "ut_headers u (hd_hash x) = None" "db_headers (ut_db u) (hd_hash x) = Some x"
  obtains u' where "stage False x u = Inr (hd_hash x, u')" "staged u u'" "Header (hd_hash x) u' = Some x"
proof -
  let ?u = "u\<lparr>ut_headers := (ut_headers u)(hd_hash x \<mapsto> (x, False))\<rparr>"
  have "view ?u = view u"
    using assms by (auto simp: view_def fun_eq_iff cong: option.case_cong)
  then have "staged u ?u"
    using assms(1) by (auto simp: staged_def)
  moreover have "stage False x u = Inr (hd_hash x, ?u)"
    using assms(1) by (simp add: stage_def)
  moreover have "Header (hd_hash x) ?u = Some x"
    by (simp add: Header_def)
  ultimately show ?thesis using that by blast
qed

lemma Stage_hash_Some:
  assumes "view u h = Some x" "hash_keyed (view u)"
  obtains u' where "Stage_hash h u = Inr (Some h, u')" "staged u u'" "Header h u' = Some x"
proof (cases "ut_headers u h")
  case None
  with assms have db: "db_headers (ut_db u) h = Some x" "hd_hash x = h"
    by (auto simp: view_def hash_keyed_def)
  with None obtain u' where "stage False x u = Inr (h, u')" "staged u u'" "Header h u' = Some x"
    using stage_old [of u x] by auto
  with None db that show ?thesis by (simp add: Stage_hash_def LoadHeader_def)
next
  case (Some p)
  with assms(1) have "Header h u = Some x" by (auto simp: view_def Header_def)
  with Some that show ?thesis by (simp add: Stage_hash_def)
qed

lemma Stage_hash_None: "view u h = None \<Longrightarrow> Stage_hash h u = Inr (None, u)"
  by (auto simp: view_def Stage_hash_def LoadHeader_def split: option.splits)

lemma Stage_best_db:
  assumes "ut_best u = []" "db_headers (ut_db u) (snd (best_position (ut_db u))) = Some x"
    "hd_hash x = snd (best_position (ut_db u))" "ut_headers u (hd_hash x) = None"
  obtains u' where "Stage_best u = Inr (hd_hash x, u')" "staged u u'" "Header (hd_hash x) u' = Some x"
  using stage_old [of u x] assms by (auto simp: Stage_best_def CurrentBest_def LoadHeader_def)

lemma Header_modify_header:
  "Header h (modify_header k f u) = (if h = k then map_option f (Header h u) else Header h u)"
  by (auto simp: Header_def modify_header_def split: option.splits)

lemma view_modify_header:
  "Header k u = Some x \<Longrightarrow> view (modify_header k f u) = (view u)(k \<mapsto> f x)"
  by (auto simp: Header_def modify_header_def view_def fun_eq_iff split: option.splits)

lemma modify_header_simps [simp]:
  "ut_db (modify_header k f u) = ut_db u" "ut_have_reorg (modify_header k f u) = ut_have_reorg u"
  "ut_have_checkpoint (modify_header k f u) = ut_have_checkpoint u"
  "ut_reorg_from (modify_header k f u) = ut_reorg_from u"
  "ut_checkpoint (modify_header k f u) = ut_checkpoint u" "ut_best (modify_header k f u) = ut_best u"
  "ut_add_sib (modify_header k f u) = ut_add_sib u" "ut_delete_sib (modify_header k f u) = ut_delete_sib u"
  "ut_connect (modify_header k f u) = ut_connect u" "ut_disconnected (modify_header k f u) = ut_disconnected u"
  "disconnected (modify_header k f u) = disconnected u" "siblings (modify_header k f u) = siblings u"
  "Checkpoint (modify_header k f u) = Checkpoint u"
  "EffectiveBestBlock n (modify_header k f u) = EffectiveBestBlock n u"
  by (simp_all add: modify_header_def disconnected_def siblings_def Checkpoint_def EffectiveBestBlock_def
      cong: option.case_cong)

lemma connect_to_parent_eq:
  assumes "Header p u = Some x" "Header c u = Some y" "hd_parent y = hd_hash x"
  shows "connect_to_parent env p c u =
    Inr (IsBlacklisted (under_parent (env_add env) (Checkpoint u) x y),
         modify_header c (\<lambda>_. under_parent (env_add env) (Checkpoint u) x y) u)"
  using assms
  by (simp add: connect_to_parent_def InheritState_def InheritHeight_def InheritWork_def
      CompareToCheckpoint_eq Let_def under_parent_def)

lemma ConnectBlock_simps [simp]:
  "ut_db (ConnectBlock p u) = ut_db u" "ut_have_reorg (ConnectBlock p u) = ut_have_reorg u"
  "ut_have_checkpoint (ConnectBlock p u) = ut_have_checkpoint u"
  "ut_reorg_from (ConnectBlock p u) = ut_reorg_from u"
  "ut_checkpoint (ConnectBlock p u) = ut_checkpoint u" "ut_best (ConnectBlock p u) = ut_best u"
  "ut_add_sib (ConnectBlock p u) = ut_add_sib u" "ut_delete_sib (ConnectBlock p u) = ut_delete_sib u"
  "ut_headers (ConnectBlock p u) = ut_headers u" "siblings (ConnectBlock p u) = siblings u"
  "disconnected (ConnectBlock p u) = filter (\<lambda>q. q \<noteq> p) (disconnected u)"
  "Checkpoint (ConnectBlock p u) = Checkpoint u" "view (ConnectBlock p u) = view u"
  "EffectiveBestBlock n (ConnectBlock p u) = EffectiveBestBlock n u"
  "Header h (ConnectBlock p u) = Header h u"
  by (simp_all add: ConnectBlock_def Let_def disconnected_def siblings_def Checkpoint_def view_def
      EffectiveBestBlock_def Header_def fun_eq_iff cong: option.case_cong)

lemma ConnectBlock_fresh [simp]:
  "ut_disconnected u = [] \<Longrightarrow> ut_disconnected (ConnectBlock p u) = []"
  "ut_disconnected u = [] \<Longrightarrow> ut_connect (ConnectBlock p u) = oset_put p (ut_connect u)"
  by (simp_all add: ConnectBlock_def Let_def)

end
