(* ===== verification/Header_Line.thy ===== *)
theory Header_Line
  imports Header_Staging
begin

text \<open>
  Connecting a header: the walk back to the best chain, and the disconnected headers it connects
  when no two of them have the same parent, so that they form a line.
\<close>

subsection \<open>The line of descendants\<close>

definition only_children :: "(hash \<times> hash) set \<Rightarrow> bool" where
  "only_children d \<longleftrightarrow> (\<forall>a b c. (a, b) \<in> d \<longrightarrow> (a, c) \<in> d \<longrightarrow> b = c)"

lemma only_children_Diff [simp]: "only_children d \<Longrightarrow> only_children (d - e)"
  by (auto simp: only_children_def)

inductive line ::
  "(work \<Rightarrow> work \<Rightarrow> work) \<Rightarrow> position \<Rightarrow> header_map \<Rightarrow> (hash \<times> hash) set \<Rightarrow> header \<Rightarrow> header list
     \<Rightarrow> (hash \<times> hash) set \<Rightarrow> bool"
  for add cp where
  line_stop: "\<forall>b. (hd_hash p, b) \<notin> d \<Longrightarrow> line add cp m d p [] d"
| line_step: "(hd_hash p, b) \<in> d \<Longrightarrow> m b = Some y \<Longrightarrow>
    line add cp m (d - {(hd_hash p, b)}) (under_parent add cp p y) ys d' \<Longrightarrow>
    line add cp m d p (under_parent add cp p y # ys) d'"

definition targets_keyed :: "header_map \<Rightarrow> (hash \<times> hash) set \<Rightarrow> bool" where
  "targets_keyed m d \<longleftrightarrow> (\<forall>(a, b) \<in> d. \<exists>y. m b = Some y \<and> hd_parent y = a)"

lemma targets_keyed_Diff [simp]: "targets_keyed m d \<Longrightarrow> targets_keyed m (d - e)"
  by (auto simp: targets_keyed_def)

lemma line_cong:
  assumes "line add cp m d p ys d'" "\<forall>(a, b) \<in> d. m b = m' b"
  shows "line add cp m' d p ys d'"
  using assms
proof (induction rule: line.induct)
  case (line_step p b d m y ys d')
  then show ?case by (intro line.line_step) auto
qed (auto intro: line.line_stop)

lemma line_subset: "line add cp m d p ys d' \<Longrightarrow> d' \<subseteq> d"
  by (induction rule: line.induct) auto

text \<open>What the transaction keeps while headers are connected.\<close>

definition same_frame :: "update \<Rightarrow> update \<Rightarrow> bool" where
  "same_frame u u' \<longleftrightarrow>
     ut_db u' = ut_db u \<and> ut_have_reorg u' = ut_have_reorg u \<and>
     ut_have_checkpoint u' = ut_have_checkpoint u \<and> ut_reorg_from u' = ut_reorg_from u \<and>
     ut_checkpoint u' = ut_checkpoint u \<and> ut_best u' = ut_best u \<and> ut_add_sib u' = ut_add_sib u \<and>
     ut_delete_sib u' = ut_delete_sib u \<and> siblings u' = siblings u \<and>
     ut_disconnected u' = ut_disconnected u"

lemma same_frame_refl [simp]: "same_frame u u"
  by (simp add: same_frame_def)

lemma same_frame_trans: "same_frame u v \<Longrightarrow> same_frame v w \<Longrightarrow> same_frame u w"
  by (simp add: same_frame_def)

lemma same_frame_Checkpoint: "same_frame u u' \<Longrightarrow> Checkpoint u' = Checkpoint u"
  by (simp add: same_frame_def Checkpoint_def)

lemma same_frame_staged: "staged u u' \<Longrightarrow> same_frame u u'"
  by (simp add: same_frame_def staged_simps)

lemma same_frame_modify_header [simp]: "same_frame u (modify_header k f u)"
  by (simp add: same_frame_def)

lemma same_frame_ConnectBlock: "ut_disconnected u = [] \<Longrightarrow> same_frame u (ConnectBlock p u)"
  by (simp add: same_frame_def)

lemma disconnected_children_line:
  assumes "distinct (disconnected u)" "only_children (set (disconnected u))"
  shows "disconnected_children h u = [] \<and> (\<forall>b. (h, b) \<notin> set (disconnected u))
    \<or> (\<exists>b. disconnected_children h u = [(h, b)] \<and> (h, b) \<in> set (disconnected u))"
proof -
  let ?l = "disconnected_children h u"
  have l: "distinct ?l" "\<forall>q \<in> set ?l. fst q = h \<and> q \<in> set (disconnected u)"
    using assms(1) by (auto simp: disconnected_children_def)
  show ?thesis
  proof (cases ?l)
    case Nil
    then have "\<forall>b. (h, b) \<notin> set (disconnected u)"
      by (auto simp: disconnected_children_def filter_empty_conv)
    with Nil show ?thesis by simp
  next
    case (Cons q qs)
    have "qs = []"
    proof (rule ccontr)
      assume "qs \<noteq> []"
      then obtain q' qs' where "qs = q' # qs'" by (cases qs) auto
      with Cons l have "q \<noteq> q'" "fst q = h" "fst q' = h" "q \<in> set (disconnected u)"
        "q' \<in> set (disconnected u)" by auto
      with assms(2) show False unfolding only_children_def by (metis prod.collapse)
    qed
    with Cons l show ?thesis by (cases q) auto
  qed
qed

definition connect_result ::
  "oracle_env \<Rightarrow> update \<Rightarrow> candidate_ref \<Rightarrow> candidate \<Rightarrow> candidates \<Rightarrow> header \<Rightarrow> header list \<Rightarrow> candidates \<Rightarrow> update \<Rightarrow> bool" where
  "connect_result env u r c cs p ys cs' u' \<longleftrightarrow>
     line (env_add env) (Checkpoint u) (view u) (set (disconnected u)) p ys (set (disconnected u')) \<and>
     cs' = cs\<lparr>cds_list := (cds_list cs)[snd r :=
       \<lparr>cd_blacklisted = (if ys = [] then cd_blacklisted c else IsBlacklisted (last ys)),
        cd_chain = cd_chain c @ map Position (p # ys)\<rparr>]\<rparr> \<and>
     view u' = view u ++ map_of (map (\<lambda>y. (hd_hash y, y)) (rev ys)) \<and>
     (\<forall>y \<in> set ys. Header (hd_hash y) u' \<noteq> None) \<and>
     (\<forall>j. Header j u \<noteq> None \<longrightarrow> Header j u' \<noteq> None) \<and>
     set (ut_connect u') = set (ut_connect u) \<union> (set (disconnected u) - set (disconnected u')) \<and>
     (distinct (ut_connect u) \<longrightarrow> distinct (ut_connect u')) \<and>
     (distinct (disconnected u) \<longrightarrow> distinct (disconnected u')) \<and> same_frame u u'"

lemma candidate_at_Inr:
  "candidate_at r cs = Inr c \<longleftrightarrow>
     fst r = cds_epoch cs \<and> snd r < length (cds_list cs) \<and> c = cds_list cs ! snd r"
  by (auto simp: candidate_at_def)

lemma set_candidate_eq:
  "candidate_at r cs = Inr c \<Longrightarrow> set_candidate r d cs = Inr (cs\<lparr>cds_list := (cds_list cs)[snd r := d]\<rparr>)"
  by (simp add: set_candidate_def)

lemma candidate_at_upd [simp]:
  "candidate_at r cs = Inr c \<Longrightarrow> candidate_at r (cs\<lparr>cds_list := (cds_list cs)[snd r := d]\<rparr>) = Inr d"
  by (simp add: candidate_at_Inr)

lemma candidate_chain_update:
  "c\<lparr>cd_chain := ch\<rparr> = \<lparr>cd_blacklisted = cd_blacklisted c, cd_chain = ch\<rparr>"
  by (cases c) simp

lemma connect_children_line:
  assumes "distinct (disconnected u)" "only_children (set (disconnected u))"
    "length (disconnected u) < n" "hash_keyed (view u)" "targets_keyed (view u) (set (disconnected u))"
    "ut_disconnected u = []" "candidate_at r cs = Inr c" "cd_chain c \<noteq> []" "Header h u = Some p"
    "fst (last (cd_chain c)) + 1 = hd_height p"
  shows "\<exists>ys cs' u'. connect_children n env h r (cs, u) = Inr (True, cs', u') \<and>
           connect_result env u r c cs p ys cs' u'"
  using assms
proof (induction n arbitrary: u h r cs c p)
  case 0
  then show ?case by simp
next
  case (Suc n)
  note keyed = Suc.prems(4)
  have hash: "hd_hash p = h"
    using keyed Header_view [OF Suc.prems(9)] by (auto simp: hash_keyed_def)
  let ?cs1 = "cs\<lparr>cds_list := (cds_list cs)[snd r := c\<lparr>cd_chain := cd_chain c @ [Position p]\<rparr>]\<rparr>"
  have start: "connect_children (Suc n) env h r (cs, u) =
      (if \<not> EffectiveHasDisconnectedChildren h u then Inr (True, ?cs1, u)
       else connect_each n env h r (c\<lparr>cd_chain := cd_chain c @ [Position p]\<rparr>) True
              (disconnected_children h u) (?cs1, u))"
    using Suc.prems(7-10) hash by (auto simp: set_candidate_eq split: list.splits)
  from disconnected_children_line [OF Suc.prems(1,2), of h] show ?case
  proof (elim disjE conjE exE)
    assume none: "disconnected_children h u = []" "\<forall>b. (h, b) \<notin> set (disconnected u)"
    then have "connect_children (Suc n) env h r (cs, u) = Inr (True, ?cs1, u)"
      unfolding start by (simp add: EffectiveHasDisconnectedChildren_def)
    moreover have "connect_result env u r c cs p [] ?cs1 u"
      using none hash by (auto simp: connect_result_def candidate_chain_update intro: line_stop)
    ultimately show ?thesis by blast
  next
    fix b
    assume one: "disconnected_children h u = [(h, b)]" "(h, b) \<in> set (disconnected u)"
    then obtain y where y: "view u b = Some y" "hd_parent y = h"
      using Suc.prems(5) by (auto simp: targets_keyed_def)
    let ?u1 = "ConnectBlock (h, b) u"
    obtain u2 where u2: "Stage_hash b ?u1 = Inr (Some b, u2)" "staged ?u1 u2" "Header b u2 = Some y"
      using Stage_hash_Some [of ?u1 b y] y(1) keyed by auto
    have p2: "Header h u2 = Some p"
      using staged_Header [OF u2(2), of h p] Suc.prems(9) by simp
    define y' where "y' = under_parent (env_add env) (Checkpoint u) p y"
    let ?u3 = "modify_header b (\<lambda>_. y') u2"
    have con: "connect_to_parent env h b u2 = Inr (IsBlacklisted y', ?u3)"
      using connect_to_parent_eq [OF p2 u2(3), of env] y(2) hash
      by (simp add: y'_def staged_simps [OF u2(2)])
    have y'h: "hd_hash y' = b"
      using keyed y(1) by (auto simp: y'_def hash_keyed_def)
    let ?c1 = "c\<lparr>cd_chain := cd_chain c @ [Position p], cd_blacklisted := IsBlacklisted y'\<rparr>"
    let ?cs2 = "cs\<lparr>cds_list := (cds_list cs)[snd r := ?c1]\<rparr>"
    have at2: "candidate_at r ?cs2 = Inr ?c1"
      using Suc.prems(7) by simp
    have v3: "view ?u3 = (view u)(b \<mapsto> y')"
      using view_modify_header [OF u2(3)] by (simp add: staged_simps [OF u2(2)])
    have d3: "disconnected ?u3 = filter (\<lambda>q. q \<noteq> (h, b)) (disconnected u)"
      by (simp add: staged_simps [OF u2(2)])
    have set3: "set (disconnected ?u3) = set (disconnected u) - {(h, b)}"
      unfolding d3 by auto
    have other: "\<forall>(a, b') \<in> set (disconnected u) - {(h, b)}. b' \<noteq> b"
      using Suc.prems(5) y by (auto simp: targets_keyed_def)
    have len: "length (disconnected ?u3) < n"
    proof -
      have "length (filter (\<lambda>q. q \<noteq> (h, b)) (disconnected u)) < length (disconnected u)"
        by (rule length_filter_less [of "(h, b)"]) (use one(2) in auto)
      with Suc.prems(3) show ?thesis unfolding d3 by simp
    qed
    have "\<exists>ys cs' u'. connect_children n env b r (?cs2, ?u3) = Inr (True, cs', u') \<and>
           connect_result env ?u3 r ?c1 ?cs2 y' ys cs' u'"
    proof (rule Suc.IH [OF _ _ len])
      show "distinct (disconnected ?u3)" unfolding d3 using Suc.prems(1) by simp
      show "only_children (set (disconnected ?u3))" unfolding set3 using Suc.prems(2) by simp
      show "hash_keyed (view ?u3)" unfolding v3 using keyed y'h by (auto simp: hash_keyed_def)
      show "targets_keyed (view ?u3) (set (disconnected ?u3))"
        unfolding set3 v3 using Suc.prems(5) other by (fastforce simp: targets_keyed_def)
      show "ut_disconnected ?u3 = []" using Suc.prems(6) by (simp add: staged_simps [OF u2(2)])
      show "candidate_at r ?cs2 = Inr ?c1" by (rule at2)
      show "cd_chain ?c1 \<noteq> []" by simp
      show "Header b ?u3 = Some y'" using u2(3) by (simp add: Header_modify_header)
      show "fst (last (cd_chain ?c1)) + 1 = hd_height y'" by (simp add: y'_def Position_def)
    qed
    then obtain ys cs' u' where rec: "connect_children n env b r (?cs2, ?u3) = Inr (True, cs', u')"
      and res: "connect_result env ?u3 r ?c1 ?cs2 y' ys cs' u'" by blast
    have each: "connect_each n env h r (c\<lparr>cd_chain := cd_chain c @ [Position p]\<rparr>) True [(h, b)] (?cs1, u) =
        Inr (True, cs', u')"
      using u2(1) con rec Suc.prems(7) by (simp add: set_candidate_eq)
    have "connect_children (Suc n) env h r (cs, u) = Inr (True, cs', u')"
      unfolding start using one each by (simp add: EffectiveHasDisconnectedChildren_def)
    moreover have "connect_result env u r c cs p (y' # ys) cs' u'"
      unfolding connect_result_def
    proof (intro conjI)
      have cp: "Checkpoint ?u3 = Checkpoint u" by (simp add: staged_simps [OF u2(2)])
      have "line (env_add env) (Checkpoint u) (view ?u3) (set (disconnected u) - {(h, b)}) y' ys
              (set (disconnected u'))"
        using res unfolding connect_result_def cp set3 by blast
      then have "line (env_add env) (Checkpoint u) (view u) (set (disconnected u) - {(h, b)}) y' ys
              (set (disconnected u'))"
        by (rule line_cong) (use other in \<open>auto simp: v3\<close>)
      then show "line (env_add env) (Checkpoint u) (view u) (set (disconnected u)) p (y' # ys)
              (set (disconnected u'))"
        unfolding y'_def using one(2) y(1) hash by (intro line_step) auto
      show "view u' = view u ++ map_of (map (\<lambda>y. (hd_hash y, y)) (rev (y' # ys)))"
        using res y'h unfolding connect_result_def v3 by (simp add: map_add_def fun_eq_iff split: option.splits)
      show "\<forall>j. Header j u \<noteq> None \<longrightarrow> Header j u' \<noteq> None"
      proof (intro allI impI)
        fix j assume "Header j u \<noteq> None"
        then have "Header j ?u3 \<noteq> None"
          using staged_Header [OF u2(2), of j] by (auto simp: Header_modify_header)
        with res show "Header j u' \<noteq> None" unfolding connect_result_def by blast
      qed
      show "\<forall>y \<in> set (y' # ys). Header (hd_hash y) u' \<noteq> None"
        using res u2(3) y'h unfolding connect_result_def by (auto simp: Header_modify_header)
      have sub: "set (disconnected u') \<subseteq> set (disconnected u) - {(h, b)}"
        using res unfolding connect_result_def set3 by (blast dest: line_subset)
      show "set (ut_connect u') = set (ut_connect u) \<union> (set (disconnected u) - set (disconnected u'))"
        using res sub one(2) Suc.prems(6) unfolding connect_result_def set3
        by (auto simp: staged_simps [OF u2(2)])
      show "distinct (ut_connect u) \<longrightarrow> distinct (ut_connect u')"
        using res Suc.prems(6) unfolding connect_result_def by (simp add: staged_simps [OF u2(2)])
      show "distinct (disconnected u) \<longrightarrow> distinct (disconnected u')"
        using res unfolding connect_result_def d3 by (meson distinct_filter)
      have "same_frame u ?u3"
        using same_frame_ConnectBlock [OF Suc.prems(6)] same_frame_staged [OF u2(2)]
          same_frame_modify_header same_frame_trans by blast
      with res show "same_frame u u'" unfolding connect_result_def using same_frame_trans by blast
      show "cs' = cs\<lparr>cds_list := (cds_list cs)[snd r :=
         \<lparr>cd_blacklisted = (if y' # ys = [] then cd_blacklisted c else IsBlacklisted (last (y' # ys))),
          cd_chain = cd_chain c @ map Position (p # y' # ys)\<rparr>]\<rparr>"
        using res unfolding connect_result_def by simp
    qed
    ultimately show ?thesis by blast
  qed
qed

end
