(* ===== verification/Header_Walk.thy ===== *)
theory Header_Walk
  imports Header_Line
begin

text \<open>
  The walk from the parent of a new header back to the best chain, the candidate it starts and the
  changes to the transaction when the candidate becomes the best chain.
\<close>

subsection \<open>Paths\<close>

fun linked :: "header_map \<Rightarrow> hash \<Rightarrow> position list \<Rightarrow> bool" where
  "linked m a [] = True"
| "linked m a (q # ps) =
     ((\<exists>y. m (snd q) = Some y \<and> \<not> IsDisconnected y \<and> Position y = q \<and> hd_parent y = a \<and>
           (\<forall>p. m a = Some p \<longrightarrow> hd_height y = hd_height p + 1)) \<and> linked m (snd q) ps)"

lemma linked_append:
  "linked m a (ps @ qs) \<longleftrightarrow> linked m a ps \<and> linked m (if ps = [] then a else snd (last ps)) qs"
  by (induction ps arbitrary: a) auto

lemma linked_heights:
  assumes "linked m (hd_hash p) ps" "m (hd_hash p) = Some p"
  shows "map fst ps = map (\<lambda>i. hd_height p + 1 + int i) [0..<length ps]"
  using assms
proof (induction ps arbitrary: p)
  case Nil
  then show ?case by simp
next
  case (Cons q ps)
  then obtain y where y: "m (snd q) = Some y" "Position y = q" "hd_height y = hd_height p + 1"
    by auto
  have [simp]: "hd_hash y = snd q" "fst q = hd_height y"
    using y(2) by (auto simp: Position_def)
  have "linked m (hd_hash y) ps" "m (hd_hash y) = Some y"
    using Cons.prems y(1) by auto
  from Cons.IH [OF this] y(3) show ?case
    by (simp add: map_upt_Suc del: upt_Suc)
qed

lemma linked_sorted:
  assumes "linked m (hd_hash p) ps" "m (hd_hash p) = Some p"
  shows "sorted_wrt (<) (map fst ps)" "\<forall>q \<in> set ps. hd_height p < fst q"
    "ps \<noteq> [] \<Longrightarrow> fst (last ps) = hd_height p + int (length ps)"
    "ps \<noteq> [] \<Longrightarrow> fst (hd ps) = hd_height p + 1"
    "\<And>k. hd_height p < k \<Longrightarrow> k \<le> hd_height p + int (length ps) \<Longrightarrow> k \<in> fst ` set ps"
proof -
  note h = linked_heights [OF assms]
  show "sorted_wrt (<) (map fst ps)"
    unfolding h by (simp add: sorted_wrt_map sorted_wrt_upt)
  have "set (map fst ps) = (\<lambda>i. hd_height p + 1 + int i) ` {0..<length ps}"
    unfolding h by simp
  then have s: "fst ` set ps = (\<lambda>i. hd_height p + 1 + int i) ` {0..<length ps}"
    by simp
  show "\<forall>q \<in> set ps. hd_height p < fst q"
  proof
    fix q assume "q \<in> set ps"
    then have "fst q \<in> fst ` set ps" by simp
    then show "hd_height p < fst q" unfolding s by auto
  qed
  show "fst (last ps) = hd_height p + int (length ps)" if "ps \<noteq> []"
  proof -
    have "fst (last ps) = last (map fst ps)" using that by (simp add: last_map)
    also have "\<dots> = hd_height p + int (length ps)"
      unfolding h using that by (cases "length ps") (simp_all add: last_map)
    finally show ?thesis .
  qed
  show "fst (hd ps) = hd_height p + 1" if "ps \<noteq> []"
    using that assms by (cases ps) (auto simp: Position_def)
  show "k \<in> fst ` set ps" if "hd_height p < k" "k \<le> hd_height p + int (length ps)" for k
    unfolding s using that by (intro image_eqI [of _ _ "nat (k - hd_height p - 1)"]) auto
qed

definition on_best :: "header_db \<Rightarrow> position \<Rightarrow> bool" where
  "on_best db q \<longleftrightarrow> 0 \<le> fst q \<and> map_of (db_best db) (fst q) = Some (snd q)"

lemma on_best_BestBlock:
  assumes "0 \<le> fst q" "snd q \<noteq> null_hash"
  shows "BestBlock (fst q) db = snd q \<longleftrightarrow> on_best db q"
  using assms by (auto simp: on_best_def BestBlock_def split: option.splits)

subsection \<open>The walk\<close>

lemma walk_back_spec:
  assumes inv: "keyed m" "rooted g m" "tree add cp g m" "best_path g m (db_best db) t"
    and "ut_db u = db" "ut_best u = []" "\<forall>k y. m k = Some y \<longrightarrow> view u k = Some y"
      "hash_keyed (view u)" "Header j u = Some y" "m j = Some y" "\<not> IsDisconnected y"
      "nat (hd_height y) < n"
  shows "\<exists>path pos u'. walk_back n null_hash j (Position y) chain u = Inr (Some (path @ chain, pos), u') \<and>
           staged u u' \<and> on_best db pos \<and> (\<exists>b. m (snd pos) = Some b \<and> Position b = pos \<and> \<not> IsDisconnected b) \<and>
           linked m (snd pos) path \<and> (\<forall>q \<in> set path. \<not> on_best db q) \<and>
           (if path = [] then pos else last path) = Position y"
  using assms(5-)
proof (induction n arbitrary: j y chain u)
  case 0
  then show ?case by simp
next
  case (Suc n)
  have y: "0 \<le> hd_height y" "hd_hash y = j" "j \<noteq> null_hash"
    using height_nonneg [OF inv(1-3)] keyedD [OF inv(1)] Suc.prems by auto
  have keep: "keep_walking null_hash u (Position y) \<longleftrightarrow> \<not> on_best db (Position y)"
    using on_best_BestBlock [of "Position y" db] y Suc.prems(1,2)
    by (simp add: keep_walking_def EffectiveBestBlock_def Position_def)
  show ?case
  proof (cases "on_best db (Position y)")
    case True
    then have "walk_back (Suc n) null_hash j (Position y) chain u = Inr (Some (chain, Position y), u)"
      using keep by simp
    with True show ?thesis
      using Suc.prems(6,7) y
      by (intro exI [of _ "[]"] exI [of _ "Position y"] exI [of _ u]) (auto simp: Position_def)
  next
    case False
    have "j \<noteq> g"
      using False inv(2,4) Suc.prems(6) y
      by (auto simp: on_best_def Position_def rooted_def best_path_def)
    with inv(3) Suc.prems(6,7) obtain p where p: "m (hd_parent y) = Some p" "\<not> IsDisconnected p"
      "hd_height y = hd_height p + 1" by (rule treeE)
    obtain u1 where u1: "Stage_hash (hd_parent y) u = Inr (Some (hd_parent y), u1)" "staged u u1"
      "Header (hd_parent y) u1 = Some p"
      using Stage_hash_Some [of u "hd_parent y" p] Suc.prems(3,4) p(1) by blast
    have step: "walk_back (Suc n) null_hash j (Position y) chain u =
        walk_back n null_hash (hd_parent y) (Position p) (Position y # chain) u1"
      using False keep y(1) Suc.prems(5) u1 by (simp add: Position_def)
    have hp: "0 \<le> hd_height p" using height_nonneg [OF inv(1-3) p(1,2)] .
    have "\<exists>path pos u'. walk_back n null_hash (hd_parent y) (Position p) (Position y # chain) u1 =
             Inr (Some (path @ Position y # chain, pos), u') \<and>
           staged u1 u' \<and> on_best db pos \<and> (\<exists>b. m (snd pos) = Some b \<and> Position b = pos \<and> \<not> IsDisconnected b) \<and>
           linked m (snd pos) path \<and> (\<forall>q \<in> set path. \<not> on_best db q) \<and>
           (if path = [] then pos else last path) = Position p"
      by (rule Suc.IH)
        (use Suc.prems u1(2,3) p hp in \<open>auto simp: staged_simps [OF u1(2)]\<close>)
    then obtain path pos u' where r: "walk_back n null_hash (hd_parent y) (Position p) (Position y # chain) u1 =
             Inr (Some (path @ Position y # chain, pos), u')"
      "staged u1 u'" "on_best db pos" "\<exists>b. m (snd pos) = Some b \<and> Position b = pos \<and> \<not> IsDisconnected b"
      "linked m (snd pos) path" "\<forall>q \<in> set path. \<not> on_best db q"
      "(if path = [] then pos else last path) = Position p" by blast
    have "snd (Position p) = hd_parent y"
      using keyedD(1) [OF inv(1) p(1)] by (simp add: Position_def)
    then have "snd (if path = [] then pos else last path) = hd_parent y"
      using r(7) by simp
    then have "(if path = [] then snd pos else snd (last path)) = hd_parent y"
      by (simp split: if_splits)
    moreover have "linked m (hd_parent y) [Position y]"
      using Suc.prems(6,7) y p by (simp add: Position_def)
    ultimately have "linked m (snd pos) (path @ [Position y])"
      unfolding linked_append using r(5) by simp
    with r False step staged_trans [OF u1(2) r(2)] show ?thesis
      by (intro exI [of _ "path @ [Position y]"] exI [of _ pos] exI [of _ u']) simp
  qed
qed

subsection \<open>Choosing the best of one candidate\<close>

text \<open>
  What choosing the best of one candidate does to the transaction.
\<close>

definition same_base :: "update \<Rightarrow> update \<Rightarrow> bool" where
  "same_base u u' \<longleftrightarrow>
     ut_db u' = ut_db u \<and> ut_have_checkpoint u' = ut_have_checkpoint u \<and>
     ut_checkpoint u' = ut_checkpoint u \<and> ut_headers u' = ut_headers u \<and>
     ut_connect u' = ut_connect u \<and> ut_disconnected u' = ut_disconnected u"

lemma AddToBestChain_simps [simp]:
  "ut_best (AddToBestChain q u) = omap_emplace (fst q) (snd q) (ut_best u)"
  "set (ut_delete_sib (AddToBestChain q u)) = insert (snd q) (set (ut_delete_sib u))"
  "set (ut_add_sib (AddToBestChain q u)) = set (ut_add_sib u) - {snd q}"
  "ut_have_reorg (AddToBestChain q u) = ut_have_reorg u"
  "ut_reorg_from (AddToBestChain q u) = ut_reorg_from u"
  "same_base u (AddToBestChain q u)"
  by (simp_all add: AddToBestChain_def RemoveSibling_def Let_def same_base_def)

lemma AddSibling_simps [simp]:
  "ut_best (AddSibling q u) = ut_best u"
  "set (ut_delete_sib (AddSibling q u)) = set (ut_delete_sib u) - {snd q}"
  "set (ut_add_sib (AddSibling q u)) = insert (snd q) (set (ut_add_sib u))"
  "ut_have_reorg (AddSibling q u) = ut_have_reorg u"
  "ut_reorg_from (AddSibling q u) = ut_reorg_from u"
  "same_base u (AddSibling q u)"
  by (simp_all add: AddSibling_def same_base_def)

lemma RemoveSibling_simps [simp]:
  "ut_best (RemoveSibling h u) = ut_best u"
  "set (ut_delete_sib (RemoveSibling h u)) = insert h (set (ut_delete_sib u))"
  "set (ut_add_sib (RemoveSibling h u)) = set (ut_add_sib u) - {h}"
  "ut_have_reorg (RemoveSibling h u) = ut_have_reorg u"
  "ut_reorg_from (RemoveSibling h u) = ut_reorg_from u"
  "same_base u (RemoveSibling h u)" "disconnected (RemoveSibling h u) = disconnected u"
  by (simp_all add: RemoveSibling_def same_base_def disconnected_def cong: option.case_cong)

lemma SetReorgParent_simps [simp]:
  "ut_best (SetReorgParent q u) = filter (\<lambda>(height, _). \<not> height > fst q) (ut_best u)"
  "ut_delete_sib (SetReorgParent q u) = ut_delete_sib u"
  "ut_add_sib (SetReorgParent q u) = ut_add_sib u"
  "ut_have_reorg (SetReorgParent q u)"
  "ut_reorg_from u = blank_position \<Longrightarrow> ut_reorg_from (SetReorgParent q u) = q"
  "same_base u (SetReorgParent q u)"
  by (simp_all add: SetReorgParent_def Let_def same_base_def)

lemma same_base_refl [simp]: "same_base u u"
  by (simp add: same_base_def)

lemma same_base_trans: "same_base u v \<Longrightarrow> same_base v w \<Longrightarrow> same_base u w"
  by (simp add: same_base_def)

lemma same_base_view: "same_base u v \<Longrightarrow> view v = view u"
  by (simp add: same_base_def view_def fun_eq_iff cong: option.case_cong)

lemma same_base_Header: "same_base u v \<Longrightarrow> Header h v = Header h u"
  by (simp add: same_base_def Header_def)

lemma fold_AddToBestChain:
  assumes "sorted_wrt (<) (map fst ps)" "\<forall>q \<in> set ps. \<forall>k \<in> fst ` set (ut_best u). k < fst q"
  defines "u' \<equiv> fold AddToBestChain ps u"
  shows "ut_best u' = ut_best u @ ps" "set (ut_delete_sib u') = set (ut_delete_sib u) \<union> snd ` set ps"
    "set (ut_add_sib u') = set (ut_add_sib u) - snd ` set ps" "ut_have_reorg u' = ut_have_reorg u"
    "ut_reorg_from u' = ut_reorg_from u" "same_base u u'"
proof -
  have "ut_best u' = ut_best u @ ps \<and> set (ut_delete_sib u') = set (ut_delete_sib u) \<union> snd ` set ps \<and>
    set (ut_add_sib u') = set (ut_add_sib u) - snd ` set ps \<and> ut_have_reorg u' = ut_have_reorg u \<and>
    ut_reorg_from u' = ut_reorg_from u \<and> same_base u u'"
    unfolding u'_def using assms(1,2)
  proof (induction ps arbitrary: u)
    case Nil
    then show ?case by simp
  next
    case (Cons q ps)
    have best: "ut_best (AddToBestChain q u) = ut_best u @ [q]"
      using Cons.prems(2) by (simp add: omap_emplace_last)
    have "\<forall>q' \<in> set ps. \<forall>k \<in> fst ` set (ut_best (AddToBestChain q u)). k < fst q'"
      unfolding best using Cons.prems by auto
    with Cons.IH [of "AddToBestChain q u"] Cons.prems(1)
      same_base_trans [of u "AddToBestChain q u" "fold AddToBestChain ps (AddToBestChain q u)"] best
    show ?case by auto
  qed
  then show "ut_best u' = ut_best u @ ps" "set (ut_delete_sib u') = set (ut_delete_sib u) \<union> snd ` set ps"
    "set (ut_add_sib u') = set (ut_add_sib u) - snd ` set ps" "ut_have_reorg u' = ut_have_reorg u"
    "ut_reorg_from u' = ut_reorg_from u" "same_base u u'" by simp_all
qed

lemma adopt_chain_tail:
  "r \<or> (\<forall>q \<in> set ps. hd_height current < fst q) \<Longrightarrow>
   adopt_chain current r ps u = fold AddToBestChain ps u"
  by (induction current r ps u rule: adopt_chain.induct) auto

text \<open>The transaction after a chain was adopted that leaves the best chain at \<open>pos\<close>.\<close>

definition adopted :: "update \<Rightarrow> header \<Rightarrow> position \<Rightarrow> position list \<Rightarrow> update \<Rightarrow> bool" where
  "adopted u current pos ps u' \<longleftrightarrow>
     ut_best u' = ps \<and> (ut_have_reorg u' \<longleftrightarrow> fst pos < hd_height current) \<and>
     (fst pos < hd_height current \<longrightarrow> ut_reorg_from u' = pos) \<and>
     set (ut_delete_sib u') = set (ut_delete_sib u) \<union> snd ` set ps
        - (if fst pos < hd_height current then {hd_hash current} else {}) \<and>
     set (ut_add_sib u') = set (ut_add_sib u) - snd ` set ps
        \<union> (if fst pos < hd_height current then {hd_hash current} else {}) \<and>
     same_base u u'"

lemma adopt_chain_spec:
  assumes "ut_best u = []" "\<not> ut_have_reorg u" "ut_reorg_from u = blank_position"
    "sorted_wrt (<) (map fst ps)" "ps \<noteq> []" "fst (hd ps) = fst pos + 1"
    "\<forall>q \<in> set ps. 0 \<le> fst q \<and> snd q \<noteq> null_hash \<and> \<not> on_best (ut_db u) q" "on_best (ut_db u) pos"
    "fst pos \<le> hd_height current" "hd_hash current \<notin> snd ` set ps"
  shows "adopted u current pos ps (adopt_chain current False ps u)"
    "adopted u current pos ps (adopt_chain current False (pos # ps) u)"
proof -
  have bestpos: "EffectiveBestBlock (fst pos) u = snd pos"
    using assms(1,8) by (simp add: EffectiveBestBlock_def on_best_def BestBlock_def)
  obtain q qs where ps: "ps = q # qs" using assms(5) by (cases ps) auto
  have sorted: "sorted_wrt (<) (map fst qs)" "\<forall>q' \<in> set qs. fst q < fst q'"
    using assms(4) unfolding ps by auto
  show *: "adopted u current pos ps (adopt_chain current False ps u)"
  proof (cases "fst pos < hd_height current")
    case True
    have "snd q \<noteq> EffectiveBestBlock (fst q) u"
      using on_best_BestBlock [of q "ut_db u"] assms(1,7) unfolding ps
      by (auto simp: EffectiveBestBlock_def)
    then have eq: "adopt_chain current False ps u =
        fold AddToBestChain qs (AddSibling (Position current) (AddToBestChain q (SetReorgParent pos u)))"
      (is "_ = fold _ _ ?u")
      using True assms(6) bestpos unfolding ps by (simp add: adopt_chain_tail)
    have best: "ut_best ?u = [q]"
      using assms(1) by (simp add: omap_emplace_def)
    have "\<forall>q' \<in> set qs. \<forall>k \<in> fst ` set (ut_best ?u). k < fst q'"
      using sorted(2) unfolding best by simp
    note f = fold_AddToBestChain [OF sorted(1) this]
    have "same_base u ?u"
      using same_base_trans SetReorgParent_simps(6) AddToBestChain_simps(6) AddSibling_simps(6) by blast
    with f True assms(2,3,10) best show ?thesis
      unfolding adopted_def eq by (auto simp: ps Position_def intro: same_base_trans)
  next
    case False
    then have high: "\<forall>q \<in> set ps. hd_height current < fst q"
      using assms(6) sorted(2) unfolding ps by auto
    have eq: "adopt_chain current False ps u = fold AddToBestChain ps u"
      using high by (simp add: adopt_chain_tail)
    have "\<forall>q \<in> set ps. \<forall>k \<in> fst ` set (ut_best u). k < fst q"
      using assms(1) by simp
    note f = fold_AddToBestChain [OF assms(4) this]
    from f False assms(1,2) show ?thesis
      unfolding adopted_def eq by auto
  qed
  have "adopt_chain current False (pos # ps) u = adopt_chain current False ps u"
    using assms(9) bestpos by simp
  with * show "adopted u current pos ps (adopt_chain current False (pos # ps) u)" by simp
qed

text \<open>The choice between the current chain and one candidate.\<close>

lemma choose_one_candidate:
  assumes "Header current u = Some cur" "cd_chain c \<noteq> []" "Header (snd (last (cd_chain c))) u = Some tip"
    "hd_hash tip \<noteq> hd_hash cur"
  shows "choose_candidate env current [c] u =
    (if \<not> cd_blacklisted c \<and> Work (env_add env) cur < Work (env_add env) tip
     then Inr ((True, True), adopt_chain cur False (cd_chain c) u)
     else Inr ((True, False), AddSibling (Position tip) u))"
  using assms by (simp add: choose_candidate_def evaluate_candidate_def)

end
