(* ===== verification/Header_Extend.thy ===== *)
theory Header_Extend
  imports Header_Walk
begin

text \<open>
  \<open>add_header\<close> on a database that satisfies its invariant: the transaction it leaves.
\<close>

subsection \<open>The headers a line of descendants becomes\<close>

fun stack :: "(work \<Rightarrow> work \<Rightarrow> work) \<Rightarrow> position \<Rightarrow> header_map \<Rightarrow> header \<Rightarrow> header list \<Rightarrow> bool" where
  "stack add cp m p [] = True"
| "stack add cp m p (y # ys) =
     ((\<exists>z. m (hd_hash y) = Some z \<and> IsDisconnected z \<and> hd_parent z = hd_hash p \<and> y = under_parent add cp p z)
      \<and> stack add cp m y ys)"

definition disconnected_targets :: "header_map \<Rightarrow> (hash \<times> hash) set \<Rightarrow> bool" where
  "disconnected_targets m d \<longleftrightarrow> (\<forall>(a, b) \<in> d. \<exists>y. m b = Some y \<and> hd_parent y = a \<and> IsDisconnected y)"

lemma disconnected_targets_keyed: "disconnected_targets m d \<Longrightarrow> targets_keyed m d"
  by (fastforce simp: disconnected_targets_def targets_keyed_def)

lemma line_props:
  assumes "line add cp m d p ys d'" "disconnected_targets m d" "hash_keyed m"
    "EffectiveState p \<in> {StatusNormal, StatusCheckpointBanned}"
  shows "stack add cp m p ys \<and> d - d' = (\<lambda>y. (hd_parent y, hd_hash y)) ` set ys \<and> d' \<subseteq> d \<and>
    (\<forall>b. (hd_hash (last (p # ys)), b) \<notin> d') \<and> distinct (map hd_hash ys) \<and>
    (\<forall>y \<in> set ys. EffectiveState y \<in> {StatusNormal, StatusCheckpointBanned})"
  using assms
proof (induction rule: line.induct)
  case (line_stop p d m)
  then show ?case by simp
next
  case (line_step p b d m y ys d')
  let ?y = "under_parent add cp p y"
  have y: "hd_parent y = hd_hash p" "IsDisconnected y" "hd_hash y = b"
    using line_step.hyps(1,2) line_step.prems(1,2) by (auto simp: disconnected_targets_def hash_keyed_def)
  have state: "EffectiveState ?y \<in> {StatusNormal, StatusCheckpointBanned}"
    using EffectiveState_under_parent [OF line_step.prems(3), of add cp y] by simp
  have "disconnected_targets m (d - {(hd_hash p, b)})"
    using line_step.prems(1) by (auto simp: disconnected_targets_def)
  from line_step.IH [OF this line_step.prems(2) state]
  have ih: "stack add cp m ?y ys" "d - {(hd_hash p, b)} - d' = (\<lambda>y. (hd_parent y, hd_hash y)) ` set ys"
    "d' \<subseteq> d - {(hd_hash p, b)}" "\<forall>b. (hd_hash (last (?y # ys)), b) \<notin> d'" "distinct (map hd_hash ys)"
    "\<forall>y \<in> set ys. EffectiveState y \<in> {StatusNormal, StatusCheckpointBanned}" by blast+
  have fresh: "b \<notin> hd_hash ` set ys"
  proof
    assume "b \<in> hd_hash ` set ys"
    then obtain w where "w \<in> set ys" "hd_hash w = b" by auto
    then have "(hd_parent w, b) \<in> d - {(hd_hash p, b)}" using ih(2) by force
    then have "hd_parent w = hd_hash p"
      using line_step.hyps(2) line_step.prems(1) y(1) by (auto simp: disconnected_targets_def)
    with \<open>(hd_parent w, b) \<in> d - {(hd_hash p, b)}\<close> show False by simp
  qed
  have diff: "d - d' = (\<lambda>y. (hd_parent y, hd_hash y)) ` set (?y # ys)"
    using ih(2,3) line_step.hyps(1) y by auto
  show ?case
    using ih diff fresh state y line_step.hyps(2) by auto
qed

lemma stack_linked:
  assumes "stack add cp m p ys" "m' (hd_hash p) = Some p"
    "\<forall>y \<in> set ys. m' (hd_hash y) = Some y \<and> \<not> IsDisconnected y"
  shows "linked m' (hd_hash p) (map Position ys)"
  using assms
proof (induction ys arbitrary: p)
  case (Cons y ys)
  then show ?case by (auto simp: Position_def)
qed simp

lemma stack_ints:
  assumes "stack add cp m p ys" "keyed m"
  shows "\<forall>y \<in> set ys. 0 < hd_work y \<and> hd_work y \<in> \<int> \<and> hd_hash y \<noteq> null_hash \<and> hd_hash y \<in> dom m \<and>
    \<not> connected_in m (hd_hash y) \<and> hd_work y = hd_work (the (m (hd_hash y)))"
  using assms(1)
proof (induction ys arbitrary: p)
  case (Cons y ys)
  then obtain z where z: "m (hd_hash y) = Some z" "IsDisconnected z" "y = under_parent add cp p z"
    by auto
  have "hd_work y = hd_work z" using arg_cong [OF z(3), of hd_work] by simp
  moreover have "\<not> connected_in m (hd_hash y)" "hd_hash y \<in> dom m"
    using z(1,2) by (auto simp: connected_in_def)
  moreover have "stack add cp m y ys" using Cons.prems by simp
  ultimately show ?case using Cons.IH [of y] keyedD [OF assms(2) z(1)] z(1) by auto
qed simp

text \<open>Work adds up exactly as long as the sums stay within the precision of the floating point type.\<close>

definition exact_sums :: "(work \<Rightarrow> work \<Rightarrow> work) \<Rightarrow> bool" where
  "exact_sums add \<longleftrightarrow>
     (\<forall>a b. a \<in> \<int> \<longrightarrow> b \<in> \<int> \<longrightarrow> 0 \<le> a \<longrightarrow> 0 \<le> b \<longrightarrow> a + b \<le> 2 ^ 53 \<longrightarrow> add a b = a + b)"

lemma under_parent_work:
  assumes "exact_sums add" "hd_parent z = hd_hash p" "hd_hash p \<noteq> null_hash"
    "0 < hd_work z" "hd_work z \<in> \<int>" "0 < Work add p" "Work add p \<in> \<int>" "hd_work z + Work add p \<le> 2 ^ 53"
  shows "Work add (under_parent add cp p z) = hd_work z + Work add p"
  using assms by (simp add: Work_def [of add "under_parent add cp p z"] exact_sums_def)

fun adds_up :: "(work \<Rightarrow> work \<Rightarrow> work) \<Rightarrow> header \<Rightarrow> header list \<Rightarrow> bool" where
  "adds_up add p [] = True"
| "adds_up add p (y # ys) =
     (Work add y = hd_work y + Work add p \<and> hd_inherit_work y = Work add p \<and> Work add y \<in> \<int>
      \<and> adds_up add y ys)"

lemma stack_sums:
  assumes "stack add cp m p ys" "keyed m" "exact_sums add" "hd_hash p \<noteq> null_hash"
    "0 < Work add p" "Work add p \<in> \<int>" "Work add p + (\<Sum>y \<leftarrow> ys. hd_work y) \<le> 2 ^ 53"
  shows "adds_up add p ys"
  using assms(1,4-)
proof (induction ys arbitrary: p)
  case (Cons y ys)
  then obtain z where z: "m (hd_hash y) = Some z" "hd_parent z = hd_hash p" "y = under_parent add cp p z"
    by auto
  have w: "hd_work y = hd_work z" "hd_inherit_work y = Work add p"
    using arg_cong [OF z(3), of hd_work] arg_cong [OF z(3), of hd_inherit_work] by simp_all
  note zk = keyedD [OF assms(2) z(1)]
  have pos: "0 \<le> (\<Sum>y \<leftarrow> ys. hd_work y)"
    using stack_ints [of add cp m y ys] Cons.prems(1) assms(2)
    by (intro sum_list_nonneg) (auto simp: less_imp_le)
  have "Work add y = hd_work z + Work add p"
    unfolding z(3)
    by (rule under_parent_work [OF assms(3) z(2) Cons.prems(2) zk(3,4) Cons.prems(3,4)])
      (use Cons.prems(5) w pos in simp)
  with Cons.IH [of y] Cons.prems w zk show ?case by (simp add: add_pos_pos algebra_simps)
qed simp

lemma sums_increasing:
  assumes "adds_up add p ys" "\<forall>y \<in> set ys. 0 < hd_work y"
  shows "\<forall>y \<in> set (p # ys). Work add y \<le> Work add (last (p # ys))"
  using assms
proof (induction ys arbitrary: p)
  case (Cons y ys)
  then have ih: "\<forall>w \<in> set (y # ys). Work add w \<le> Work add (last (y # ys))"
    by (intro Cons.IH) simp_all
  have "Work add p \<le> Work add y" using Cons.prems by simp
  also have "\<dots> \<le> Work add (last (y # ys))" using ih by simp
  finally have "Work add p \<le> Work add (last (p # y # ys))" by simp
  with ih show ?case by simp
qed simp

subsection \<open>The map after a header and a line of descendants were connected\<close>

definition extend_map :: "header_map \<Rightarrow> header \<Rightarrow> header list \<Rightarrow> header_map" where
  "extend_map m x ys = m(hd_hash x \<mapsto> x) ++ map_of (map (\<lambda>y. (hd_hash y, y)) (rev ys))"

lemma map_of_by_hash:
  assumes "distinct (map hd_hash ys)"
  shows "map_of (map (\<lambda>y. (hd_hash y, y)) (rev ys)) k = Some y \<longleftrightarrow> y \<in> set ys \<and> hd_hash y = k"
proof -
  have "distinct (map fst (map (\<lambda>y. (hd_hash y, y)) (rev ys)))"
    using assms by (simp add: rev_map [symmetric] comp_def)
  then show ?thesis by (subst map_of_eq_Some_iff) auto
qed

lemma extend_map_eq:
  assumes "distinct (map hd_hash ys)" "hd_hash x \<notin> hd_hash ` set ys"
  shows "extend_map m x ys k = Some y \<longleftrightarrow>
    (y \<in> set (x # ys) \<and> hd_hash y = k) \<or> (k \<notin> hd_hash ` set (x # ys) \<and> m k = Some y)"
proof (cases "k \<in> hd_hash ` set ys")
  case True
  then obtain w where w: "w \<in> set ys" "hd_hash w = k" by auto
  then have "map_of (map (\<lambda>y. (hd_hash y, y)) (rev ys)) k = Some w"
    unfolding map_of_by_hash [OF assms(1)] by blast
  then have e: "extend_map m x ys k = Some w"
    by (simp add: extend_map_def)
  have uniq: "v = w" if "v \<in> set ys" "hd_hash v = k" for v
    using assms(1) that w unfolding distinct_map inj_on_def by blast
  have x: "hd_hash x \<noteq> k" using w assms(2) by auto
  show ?thesis
  proof
    assume "extend_map m x ys k = Some y"
    with e w show "(y \<in> set (x # ys) \<and> hd_hash y = k) \<or> (k \<notin> hd_hash ` set (x # ys) \<and> m k = Some y)"
      by simp
  next
    assume "(y \<in> set (x # ys) \<and> hd_hash y = k) \<or> (k \<notin> hd_hash ` set (x # ys) \<and> m k = Some y)"
    then have "y = w" using uniq [of y] x w True by auto
    with e show "extend_map m x ys k = Some y" by simp
  qed
next
  case False
  then have "map_of (map (\<lambda>y. (hd_hash y, y)) (rev ys)) k = None"
    by (auto simp: map_of_eq_None_iff)
  moreover have "y \<notin> set ys" if "hd_hash y = k" using False that by auto
  ultimately show ?thesis using False by (auto simp: extend_map_def map_add_def)
qed

lemma chain_invE:
  assumes "chain_inv env db"
  obtains t tip where "keyed (db_headers db)" "env_genesis env \<noteq> null_hash"
    "rooted (env_genesis env) (db_headers db)"
    "tree (env_add env) (CurrentCheckpoint db) (env_genesis env) (db_headers db)"
    "waiting (db_headers db) (db_disconnected db)" "db_tip db = Some t"
    "best_path (env_genesis env) (db_headers db) (db_best db) t"
    "map_of (db_best db) t = Some (hd_hash tip)" "db_headers db (hd_hash tip) = Some tip"
    "\<not> IsDisconnected tip" "hd_height tip = t" "heaviest (env_add env) (db_headers db) tip"
    "siblings_ok (CurrentCheckpoint db) (db_headers db) (hd_hash tip) (set (db_siblings db))"
    "best_position db = (t, hd_hash tip)"
proof -
  obtain t tip h where inv: "keyed (db_headers db)" "env_genesis env \<noteq> null_hash"
    "rooted (env_genesis env) (db_headers db)"
    "tree (env_add env) (CurrentCheckpoint db) (env_genesis env) (db_headers db)"
    "waiting (db_headers db) (db_disconnected db)" "db_tip db = Some t"
    "best_path (env_genesis env) (db_headers db) (db_best db) t"
    "map_of (db_best db) t = Some h" "db_headers db h = Some tip"
    "heaviest (env_add env) (db_headers db) tip"
    "siblings_ok (CurrentCheckpoint db) (db_headers db) h (set (db_siblings db))"
    using assms unfolding chain_inv_def by blast
  have h: "h = hd_hash tip" using keyedD(1) [OF inv(1,9)] by simp
  have "\<exists>x. db_headers db h = Some x \<and> \<not> IsDisconnected x \<and> hd_height x = t"
    using inv(7,8) unfolding best_path_def by blast
  with inv(9) have "\<not> IsDisconnected tip" "hd_height tip = t" by auto
  with inv h that show ?thesis by (simp add: best_position_def)
qed

lemma waiting_targets: "waiting m d \<Longrightarrow> disconnected_targets m (set d)"
  by (auto simp: waiting_def disconnected_targets_def)

end
