(* ===== verification/Header_Add.thy ===== *)
theory Header_Add
  imports Header_Extend
begin

text \<open>
  \<open>add_header\<close> on a fresh transaction over a database that satisfies its invariant, when no
  two disconnected headers have the same parent.
\<close>

lemma UpdateTransaction_simps [simp]:
  "ut_db (UpdateTransaction db) = db" "ut_best (UpdateTransaction db) = []"
  "ut_headers (UpdateTransaction db) h = None" "ut_disconnected (UpdateTransaction db) = []"
  "ut_connect (UpdateTransaction db) = []" "ut_add_sib (UpdateTransaction db) = []"
  "ut_delete_sib (UpdateTransaction db) = []" "\<not> ut_have_reorg (UpdateTransaction db)"
  "\<not> ut_have_checkpoint (UpdateTransaction db)"
  "ut_reorg_from (UpdateTransaction db) = blank_position"
  "disconnected (UpdateTransaction db) = db_disconnected db"
  "siblings (UpdateTransaction db) = db_siblings db"
  "Checkpoint (UpdateTransaction db) = CurrentCheckpoint db"
  by (simp_all add: UpdateTransaction_def disconnected_def siblings_def Checkpoint_def)

text \<open>A new header and the current best, staged.\<close>

lemma stage_new:
  assumes "db_headers db (hd_hash x) = None"
  defines "u \<equiv> (UpdateTransaction db)\<lparr>ut_headers := [hd_hash x \<mapsto> (x, True)]\<rparr>"
  shows "Stage_header x (UpdateTransaction db) = Inr (hd_hash x, u)" "view u = (db_headers db)(hd_hash x \<mapsto> x)"
    "Header (hd_hash x) u = Some x" "same_frame (UpdateTransaction db) u" "ut_connect u = []"
    "ut_headers u k = None \<longleftrightarrow> k \<noteq> hd_hash x" "disconnected u = db_disconnected db"
proof -
  have m: "ut_headers (UpdateTransaction db) = Map.empty" by (simp add: UpdateTransaction_def)
  show "Stage_header x (UpdateTransaction db) = Inr (hd_hash x, u)"
    by (simp add: Stage_header_def stage_def u_def m)
  show "view u = (db_headers db)(hd_hash x \<mapsto> x)" by (auto simp: view_def u_def fun_eq_iff)
  show "Header (hd_hash x) u = Some x" by (simp add: Header_def u_def)
  show "same_frame (UpdateTransaction db) u"
    by (simp add: same_frame_def u_def siblings_def cong: option.case_cong)
  show "ut_connect u = []" by (simp add: u_def)
  show "ut_headers u k = None \<longleftrightarrow> k \<noteq> hd_hash x" by (simp add: u_def)
  show "disconnected u = db_disconnected db" by (simp add: u_def disconnected_def UpdateTransaction_def)
qed

lemma keyed_hash: "keyed m \<Longrightarrow> hash_keyed m"
  by (auto simp: keyed_def hash_keyed_def)

lemma hash_keyed_upd: "hash_keyed m \<Longrightarrow> hd_hash x = h \<Longrightarrow> hash_keyed (m(h \<mapsto> x))"
  by (auto simp: hash_keyed_def)

subsection \<open>A header whose parent is connected\<close>

text \<open>
  The transaction \<open>u'\<close>: the header \<open>x\<close> under its parent \<open>p\<close>, the line \<open>ys\<close> of
  its descendants, the path from the best chain at \<open>pos\<close> to the parent.
\<close>

definition connects ::
  "oracle_env \<Rightarrow> header_db \<Rightarrow> header \<Rightarrow> header \<Rightarrow> header list \<Rightarrow> position \<Rightarrow> position list \<Rightarrow> (hash \<times> hash) set
     \<Rightarrow> update \<Rightarrow> bool" where
  "connects env db p x ys pos path d' u \<longleftrightarrow>
     line (env_add env) (CurrentCheckpoint db) (db_headers db) (set (db_disconnected db)) x ys d' \<and>
     on_best db pos \<and> (\<exists>b. db_headers db (snd pos) = Some b \<and> Position b = pos \<and> \<not> IsDisconnected b) \<and>
     linked (db_headers db) (snd pos) path \<and> (\<forall>q \<in> set path. \<not> on_best db q) \<and>
     (if path = [] then pos else last path) = Position p \<and>
     view u = extend_map (db_headers db) x ys \<and> ut_db u = db \<and>
     set (ut_connect u) = set (db_disconnected db) - d' \<and> distinct (ut_connect u) \<and> ut_disconnected u = [] \<and> \<not> ut_have_checkpoint u"

definition removed_sibling :: "header_db \<Rightarrow> hash \<Rightarrow> hash set" where
  "removed_sibling db h = (if h \<in> set (db_siblings db) then {h} else {})"

definition outcome_of ::
  "oracle_env \<Rightarrow> header_db \<Rightarrow> header \<Rightarrow> header \<Rightarrow> header list \<Rightarrow> position \<Rightarrow> position list \<Rightarrow> update \<Rightarrow> bool" where
  "outcome_of env db tip x ys pos path u \<longleftrightarrow>
     (let new = last (x # ys); qs = path @ map Position (x # ys)
      in if \<not> IsBlacklisted new \<and> Work (env_add env) tip < Work (env_add env) new
         then ut_best u = qs \<and> (ut_have_reorg u \<longleftrightarrow> fst pos < hd_height tip) \<and>
              (fst pos < hd_height tip \<longrightarrow> ut_reorg_from u = pos) \<and>
              set (ut_delete_sib u) = removed_sibling db (hd_parent x) \<union> snd ` set qs
                - (if fst pos < hd_height tip then {hd_hash tip} else {}) \<and>
              set (ut_add_sib u) = (if fst pos < hd_height tip then {hd_hash tip} else {})
         else ut_best u = [] \<and> \<not> ut_have_reorg u \<and>
              set (ut_delete_sib u) = removed_sibling db (hd_parent x) - {hd_hash new} \<and>
              set (ut_add_sib u) = {hd_hash new})"

lemma initialize_first_candidate:
  assumes "Header parent u = Some p" "connect_to_parent env parent child u = Inr (banned, u1)"
    "walk_back (env_fuel env) stopHash parent (Position p) [] u1 = Inr (Some (chain, position), u2)"
  shows "initialize_candidate env parent no_candidates child stopHash u =
    Inr (Some (1, 0), \<lparr>cds_list = [\<lparr>cd_blacklisted = banned,
        cd_chain = (if chain = [] then [position] else chain)\<rparr>], cds_capacity = env_grow env 0, cds_epoch = 1\<rparr>, u2)"
  using assms
  by (simp add: initialize_candidate_def emplace_back_def no_candidates_def set_candidate_def candidate_at_def
      Let_def)

subsection \<open>The new path\<close>

lemma linked_mono:
  assumes "linked m a ps" "m a = Some b" "\<not> IsDisconnected b"
    "\<And>k y. m k = Some y \<Longrightarrow> \<not> IsDisconnected y \<Longrightarrow> m' k = Some y"
  shows "linked m' a ps"
  using assms(1-3)
proof (induction ps arbitrary: a b)
  case (Cons q ps)
  then obtain y where y: "m (snd q) = Some y" "\<not> IsDisconnected y" "Position y = q" "hd_parent y = a"
    "hd_height y = hd_height b + 1" "linked m (snd q) ps" by auto
  from Cons.IH [OF y(6,1,2)] y assms(4) Cons.prems(2,3) show ?case by auto
qed simp

lemma linked_member:
  "linked m a ps \<Longrightarrow> q \<in> set ps \<Longrightarrow> \<exists>y. m (snd q) = Some y \<and> \<not> IsDisconnected y \<and> Position y = q"
  by (induction ps arbitrary: a) auto

text \<open>What is known of the new headers and the path to them.\<close>

lemma new_headers:
  assumes inv: "chain_inv env db" and new: "db_headers db (hd_hash x) = None"
    and parent: "db_headers db (hd_parent x) = Some p" "\<not> IsDisconnected p"
    and x': "x' = under_parent (env_add env) (CurrentCheckpoint db) p x"
    and L: "line (env_add env) (CurrentCheckpoint db) (db_headers db) (set (db_disconnected db)) x' ys d'"
  shows "stack (env_add env) (CurrentCheckpoint db) (db_headers db) x' ys"
    "set (db_disconnected db) - d' = (\<lambda>y. (hd_parent y, hd_hash y)) ` set ys"
    "d' \<subseteq> set (db_disconnected db)" "\<And>b. (hd_hash (last (x' # ys)), b) \<notin> d'"
    "distinct (map hd_hash ys)" "hd_hash x' \<notin> hd_hash ` set ys"
    "\<And>y. y \<in> set (x' # ys) \<Longrightarrow> EffectiveState y \<in> {StatusNormal, StatusCheckpointBanned}"
    "\<And>y. y \<in> set (x' # ys) \<Longrightarrow> \<not> IsDisconnected y"
    "\<And>y. y \<in> set (x' # ys) \<Longrightarrow> \<not> connected_in (db_headers db) (hd_hash y)"
    "\<And>k y. db_headers db k = Some y \<Longrightarrow> \<not> IsDisconnected y \<Longrightarrow>
       extend_map (db_headers db) x' ys k = Some y"
    "\<And>y. y \<in> set (x' # ys) \<Longrightarrow> extend_map (db_headers db) x' ys (hd_hash y) = Some y"
proof -
  from inv obtain I: "keyed (db_headers db)" "rooted (env_genesis env) (db_headers db)"
    "tree (env_add env) (CurrentCheckpoint db) (env_genesis env) (db_headers db)"
    "waiting (db_headers db) (db_disconnected db)" by (rule chain_invE)
  have st: "EffectiveState p \<in> {StatusNormal, StatusCheckpointBanned}"
    using connected_state [OF I(1-3) parent] .
  have stx: "EffectiveState x' \<in> {StatusNormal, StatusCheckpointBanned}"
    unfolding x' EffectiveState_under_parent [OF st] by simp
  note lp = line_props [OF L waiting_targets [OF I(4)] keyed_hash [OF I(1)] stx]
  show "stack (env_add env) (CurrentCheckpoint db) (db_headers db) x' ys"
    "set (db_disconnected db) - d' = (\<lambda>y. (hd_parent y, hd_hash y)) ` set ys"
    "d' \<subseteq> set (db_disconnected db)" "\<And>b. (hd_hash (last (x' # ys)), b) \<notin> d'"
    "distinct (map hd_hash ys)"
    using lp by blast+
  have ysdom: "\<forall>y \<in> set ys. hd_hash y \<in> dom (db_headers db) \<and> \<not> connected_in (db_headers db) (hd_hash y)"
    using stack_ints [OF _ I(1)] lp by blast
  show hys: "hd_hash x' \<notin> hd_hash ` set ys" using ysdom new by (auto simp: x')
  show state: "EffectiveState y \<in> {StatusNormal, StatusCheckpointBanned}" if "y \<in> set (x' # ys)" for y
    using that lp stx by auto
  show "\<not> IsDisconnected y" if "y \<in> set (x' # ys)" for y
    using state [OF that] by (auto simp: IsDisconnected_def)
  show nc: "\<not> connected_in (db_headers db) (hd_hash y)" if "y \<in> set (x' # ys)" for y
    using that ysdom new by (auto simp: x' connected_in_def)
  have dys: "distinct (map hd_hash ys)" using lp by blast
  show "extend_map (db_headers db) x' ys (hd_hash y) = Some y" if "y \<in> set (x' # ys)" for y
    unfolding extend_map_eq [OF dys hys] using that by blast
  show "extend_map (db_headers db) x' ys k = Some y"
    if "db_headers db k = Some y" "\<not> IsDisconnected y" for k y
  proof -
    have "k \<notin> hd_hash ` set (x' # ys)" using nc that unfolding connected_in_def by blast
    with that(1) show ?thesis unfolding extend_map_eq [OF dys hys] by blast
  qed
qed

lemma new_path:
  assumes inv: "chain_inv env db" and new: "db_headers db (hd_hash x) = None" "hd_hash x \<noteq> null_hash"
    and parent: "db_headers db (hd_parent x) = Some p" "\<not> IsDisconnected p"
    and x': "x' = under_parent (env_add env) (CurrentCheckpoint db) p x"
    and C: "connects env db p x' ys pos path d' u"
  defines "qs \<equiv> path @ map Position (x' # ys)"
  shows "linked (extend_map (db_headers db) x' ys) (snd pos) qs" "sorted_wrt (<) (map fst qs)"
    "fst (hd qs) = fst pos + 1" "\<And>q. q \<in> set qs \<Longrightarrow> 0 \<le> fst q \<and> snd q \<noteq> null_hash \<and> \<not> on_best db q"
    "\<And>k. fst pos < k \<Longrightarrow> k \<le> fst (last qs) \<Longrightarrow> k \<in> fst ` set qs" "0 \<le> fst pos"
    "\<And>q. q \<in> set qs \<Longrightarrow> fst pos < fst q"
proof -
  let ?m = "db_headers db" and ?m' = "extend_map (db_headers db) x' ys"
  from inv obtain t where I: "keyed ?m" "rooted (env_genesis env) ?m"
    "tree (env_add env) (CurrentCheckpoint db) (env_genesis env) ?m"
    "best_path (env_genesis env) ?m (db_best db) t" by (rule chain_invE)
  from C obtain b where L: "line (env_add env) (CurrentCheckpoint db) ?m (set (db_disconnected db)) x' ys d'"
    and on: "on_best db pos" and b: "?m (snd pos) = Some b" "Position b = pos" "\<not> IsDisconnected b"
    and path: "linked ?m (snd pos) path" "\<forall>q \<in> set path. \<not> on_best db q"
      "(if path = [] then pos else last path) = Position p"
    by (auto simp: connects_def)
  note N = new_headers [OF inv new(1) parent x' L]
  have bh: "hd_hash b = snd pos" "hd_height b = fst pos" using b(2) by (auto simp: Position_def)
  have pk: "hd_hash p = hd_parent x" using keyedD(1) [OF I(1) parent(1)] .
  have "linked ?m' (hd_hash x') (map Position ys)"
    by (rule stack_linked [OF N(1)]) (use N(8,11) in simp_all)
  then have "linked ?m' (hd_parent x) (map Position (x' # ys))"
    using N(8,11) [of x'] N(10) [OF parent] pk by (auto simp: Position_def x')
  moreover have "(if path = [] then snd pos else snd (last path)) = hd_parent x"
    using arg_cong [OF path(3), of snd] pk by (simp add: Position_def split: if_splits)
  moreover have "linked ?m' (snd pos) path"
    by (rule linked_mono [OF path(1) b(1,3) N(10)])
  ultimately show linked: "linked ?m' (snd pos) qs"
    unfolding qs_def linked_append by simp
  have ne: "qs \<noteq> []" by (simp add: qs_def)
  note S = linked_sorted [OF linked [folded bh(1)], unfolded bh(1), OF N(10) [OF b(1,3)]]
  show "sorted_wrt (<) (map fst qs)" by (rule S(1))
  show "fst (hd qs) = fst pos + 1" using S(4) [OF ne] bh by simp
  show "k \<in> fst ` set qs" if "fst pos < k" "k \<le> fst (last qs)" for k
    using S(3) [OF ne] S(5) [of k] that bh by simp
  show pos0: "0 \<le> fst pos" using on by (simp add: on_best_def)
  show high: "fst pos < fst q" if "q \<in> set qs" for q using S(2) that bh by simp
  show "0 \<le> fst q \<and> snd q \<noteq> null_hash \<and> \<not> on_best db q" if q: "q \<in> set qs" for q
  proof (intro conjI)
    show "0 \<le> fst q" using high [OF q] pos0 by simp
    from q consider "q \<in> set path" | y where "y \<in> set (x' # ys)" "q = Position y"
      unfolding qs_def by auto
    then have "snd q \<noteq> null_hash \<and> \<not> on_best db q"
    proof cases
      case 1
      have "\<exists>y. ?m (snd q) = Some y" using linked_member [OF path(1) 1] by blast
      with I(1) 1 path(2) show ?thesis by (auto simp: keyed_def)
    next
      case 2
      have "hd_hash y \<noteq> null_hash"
        using 2(1) new(2) stack_ints [OF N(1) I(1)] by (auto simp: x')
      moreover have "\<not> on_best db q"
      proof
        assume "on_best db q"
        then have "map_of (db_best db) (fst q) = Some (hd_hash y)"
          using 2(2) by (simp add: on_best_def Position_def)
        then have "connected_in ?m (hd_hash y)"
          using I(4) unfolding best_path_def connected_in_def by blast
        with N(9) [OF 2(1)] show False by simp
      qed
      ultimately show ?thesis using 2(2) by (simp add: Position_def)
    qed
    then show "snd q \<noteq> null_hash" "\<not> on_best db q" by auto
  qed
qed

lemma add_header_connected:
  assumes inv: "chain_inv env db" and new: "db_headers db (hd_hash x) = None"
    and parent: "db_headers db (hd_parent x) = Some p" "\<not> IsDisconnected p"
    and only: "only_children (set (db_disconnected db))"
    and fuel: "nat (hd_height p) < env_fuel env" "length (db_disconnected db) < env_fuel env"
    and hash: "hd_hash x \<noteq> null_hash"
    and tip: "db_headers db (snd (best_position db)) = Some tip"
  defines "x' \<equiv> under_parent (env_add env) (CurrentCheckpoint db) p x"
  shows "\<exists>ys pos path d' u. add_header env x (UpdateTransaction db) = Inr (True, u) \<and>
    connects env db p x' ys pos path d' u \<and> outcome_of env db tip x' ys pos path u"
proof -
  from inv obtain t tip' where I: "keyed (db_headers db)"
    "rooted (env_genesis env) (db_headers db)"
    "tree (env_add env) (CurrentCheckpoint db) (env_genesis env) (db_headers db)"
    "waiting (db_headers db) (db_disconnected db)"
    "best_path (env_genesis env) (db_headers db) (db_best db) t"
    "map_of (db_best db) t = Some (hd_hash tip')" "db_headers db (hd_hash tip') = Some tip'"
    "\<not> IsDisconnected tip'" "hd_height tip' = t" "best_position db = (t, hd_hash tip')"
    by (rule chain_invE)
  have T: "tip' = tip" "snd (best_position db) = hd_hash tip" using I(7,10) tip by auto
  let ?m = "db_headers db" and ?h = "hd_hash x"
  have ph: "hd_parent x \<noteq> ?h" "?h \<noteq> hd_hash tip" using new parent(1) I(7) T(1) by auto
  have pk: "hd_hash p = hd_parent x" using keyedD(1) [OF I(1) parent(1)] .
  define u1 where "u1 = (UpdateTransaction db)\<lparr>ut_headers := [?h \<mapsto> (x, True)]\<rparr>"
  note s1 = stage_new [OF new, folded u1_def]
  have k1: "hash_keyed (view u1)" unfolding s1(2) by (rule hash_keyed_upd [OF keyed_hash [OF I(1)]]) simp
  have f1: "ut_db u1 = db" "ut_best u1 = []" "siblings u1 = db_siblings db" "ut_have_checkpoint u1 = False"
    "ut_have_reorg u1 = False" "ut_reorg_from u1 = blank_position" "ut_add_sib u1 = []"
    "ut_delete_sib u1 = []" "ut_disconnected u1 = []"
    using s1(4) by (simp_all add: same_frame_def)
  obtain u2 where u2: "Stage_best u1 = Inr (hd_hash tip, u2)" "staged u1 u2" "Header (hd_hash tip) u2 = Some tip"
    by (rule Stage_best_db [of u1 tip]) (use f1 I(7) T ph(2) s1(6) in simp_all)
  have v2: "view u2 = ?m(?h \<mapsto> x)" by (simp add: staged_simps [OF u2(2)] s1(2))
  obtain u3 where u3: "Stage_hash (hd_parent x) u2 = Inr (Some (hd_parent x), u3)" "staged u2 u3"
    "Header (hd_parent x) u3 = Some p"
    by (rule Stage_hash_Some [of u2 "hd_parent x" p]) (use parent(1) ph(1) k1 v2 s1(2) in simp_all)
  have s13: "staged u1 u3" using u2(2) u3(2) by (rule staged_trans)
  note e3 = staged_simps [OF s13]
  have dis: "is_disconnected (hd_parent x) u2 = Inr (Some (hd_parent x), u3)"
    using u3 parent(2) by (simp add: is_disconnected_def)
  define u4 where "u4 = (if EffectiveIsSibling (hd_parent x) u3 then RemoveSibling (hd_parent x) u3 else u3)"
  have b4: "same_base u3 u4" "ut_best u4 = ut_best u3" "disconnected u4 = disconnected u3"
    "ut_have_reorg u4 = ut_have_reorg u3" "ut_reorg_from u4 = ut_reorg_from u3"
    "set (ut_delete_sib u4) = set (ut_delete_sib u3) \<union> removed_sibling db (hd_parent x)"
    "set (ut_add_sib u4) = {}"
    using f1 e3 by (simp_all add: u4_def EffectiveIsSibling_def removed_sibling_def del: set_empty)
  have H4: "Header (hd_parent x) u4 = Some p" "Header ?h u4 = Some x" "Header (hd_hash tip) u4 = Some tip"
    using u3(3) staged_Header [OF s13 s1(3)] staged_Header [OF u3(2) u2(3)]
    by (simp_all add: same_base_Header [OF b4(1)])
  have cp4: "Checkpoint u4 = CurrentCheckpoint db"
    using b4(1) f1 e3 by (simp add: same_base_def Checkpoint_def)
  have v4: "view u4 = ?m(?h \<mapsto> x)"
    using same_base_view [OF b4(1)] e3 s1(2) by simp
  define u5 where "u5 = modify_header ?h (\<lambda>_. x') u4"
  have con: "connect_to_parent env (hd_parent x) ?h u4 = Inr (IsBlacklisted x', u5)"
    using connect_to_parent_eq [OF H4(1,2), of env] pk by (simp add: x'_def cp4 u5_def)
  have v5: "view u5 = ?m(?h \<mapsto> x')"
    using view_modify_header [OF H4(2)] by (simp add: u5_def v4)
  have x'h: "hd_hash x' = ?h" "hd_parent x' = hd_parent x" by (simp_all add: x'_def)
  have k5: "hash_keyed (view u5)" unfolding v5 by (rule hash_keyed_upd [OF keyed_hash [OF I(1)] x'h(1)])
  have old5: "\<forall>k y. ?m k = Some y \<longrightarrow> view u5 k = Some y" using new by (auto simp: v5)
  have H5: "Header (hd_parent x) u5 = Some p" "Header ?h u5 = Some x'" "Header (hd_hash tip) u5 = Some tip"
    using H4 ph by (simp_all add: u5_def Header_modify_header)
  have fr5: "ut_db u5 = db" "ut_best u5 = []" "disconnected u5 = db_disconnected db"
    "ut_disconnected u5 = []" "ut_have_checkpoint u5 = False" "ut_connect u5 = []"
    using b4 f1 e3 s1(5,7) by (simp_all add: u5_def same_base_def)
  obtain path pos u6 where w: "walk_back (env_fuel env) null_hash (hd_parent x) (Position p) [] u5 =
      Inr (Some (path, pos), u6)" "staged u5 u6" "on_best db pos"
    "\<exists>b. ?m (snd pos) = Some b \<and> Position b = pos \<and> \<not> IsDisconnected b" "linked ?m (snd pos) path"
    "\<forall>q \<in> set path. \<not> on_best db q" "(if path = [] then pos else last path) = Position p"
    using walk_back_spec [OF I(1-3,5) fr5(1,2) old5 k5 H5(1) parent fuel(1), of "[]"] by auto
  define chain where "chain = (if path = [] then [pos] else path)"
  define c where "c = \<lparr>cd_blacklisted = IsBlacklisted x', cd_chain = chain\<rparr>"
  define cs where "cs = \<lparr>cds_list = [c], cds_capacity = env_grow env 0, cds_epoch = 1\<rparr>"
  have init: "initialize_candidate env (hd_parent x) no_candidates ?h null_hash u4 = Inr (Some (1, 0), cs, u6)"
    using initialize_first_candidate [OF H4(1) con w(1)] by (simp add: cs_def c_def chain_def)
  note e6 = staged_simps [OF w(2)]
  have lastchain: "last chain = Position p" "chain \<noteq> []" using w(7) by (auto simp: chain_def)
  have targets: "targets_keyed (view u6) (set (disconnected u6))"
    using disconnected_targets_keyed [OF waiting_targets [OF I(4)]] old5 e6(15) fr5(3) e6(11)
    by (fastforce simp: targets_keyed_def)
  have "\<exists>ys cs' u'. connect_children (env_fuel env) env ?h (1, 0) (cs, u6) = Inr (True, cs', u') \<and>
           connect_result env u6 (1, 0) c cs x' ys cs' u'"
  proof (rule connect_children_line)
    show "distinct (disconnected u6)" using I(4) e6(11) fr5(3) by (simp add: waiting_def)
    show "only_children (set (disconnected u6))" using only e6(11) fr5(3) by simp
    show "length (disconnected u6) < env_fuel env" using fuel(2) e6(11) fr5(3) by simp
    show "hash_keyed (view u6)" using k5 e6(15) by simp
    show "ut_disconnected u6 = []" using e6(10) fr5(4) by simp
    show "candidate_at (1, 0) cs = Inr c" by (simp add: candidate_at_def cs_def)
    show "cd_chain c \<noteq> []" using lastchain(2) by (simp add: c_def)
    show "Header ?h u6 = Some x'" using staged_Header [OF w(2) H5(2)] .
    show "fst (last (cd_chain c)) + 1 = hd_height x'"
      using lastchain(1) by (simp add: c_def Position_def x'_def)
  qed (rule targets)
  then obtain ys cs' u7 where cc: "connect_children (env_fuel env) env ?h (1, 0) (cs, u6) = Inr (True, cs', u7)"
    and res: "connect_result env u6 (1, 0) c cs x' ys cs' u7" by blast
  define d' where "d' = set (disconnected u7)"
  have L: "line (env_add env) (CurrentCheckpoint db) ?m (set (db_disconnected db)) x' ys d'"
  proof -
    have "Checkpoint u6 = CurrentCheckpoint db" using e6(13) cp4 by (simp add: u5_def)
    then have "line (env_add env) (CurrentCheckpoint db) (view u5) (set (db_disconnected db)) x' ys d'"
      using res e6(11,15) fr5(3) unfolding connect_result_def d'_def by simp
    then show ?thesis
      by (rule line_cong) (use waiting_targets [OF I(4)] new in \<open>auto simp: v5 disconnected_targets_def\<close>)
  qed
  have st: "EffectiveState p \<in> {StatusNormal, StatusCheckpointBanned}"
    using connected_state [OF I(1-3) parent] .
  have stx: "EffectiveState x' \<in> {StatusNormal, StatusCheckpointBanned}"
    unfolding x'_def EffectiveState_under_parent [OF st] by simp
  note lp = line_props [OF L waiting_targets [OF I(4)] keyed_hash [OF I(1)] stx]
  have dys: "distinct (map hd_hash ys)" using lp by blast
  have ysdom: "\<forall>y \<in> set ys. hd_hash y \<in> dom ?m \<and> \<not> connected_in ?m (hd_hash y)"
    using stack_ints [OF _ I(1)] lp by blast
  have hys: "hd_hash x' \<notin> hd_hash ` set ys" using ysdom new x'h by auto
  have v7: "view u7 = extend_map ?m x' ys"
    using res e6(15) v5 x'h unfolding connect_result_def extend_map_def by simp
  have tys: "hd_hash tip \<notin> hd_hash ` set (x' # ys)"
    using ysdom I(7,8) T ph(2) x'h by (auto simp: connected_in_def)
  have vtip: "view u7 (hd_hash tip) = Some tip"
    unfolding v7 extend_map_eq [OF dys hys] using tys I(7) T by auto
  have "Header (hd_hash tip) u6 \<noteq> None" using staged_Header [OF w(2) H5(3)] by simp
  then have "Header (hd_hash tip) u7 \<noteq> None" using res unfolding connect_result_def by blast
  then have tip7: "Header (hd_hash tip) u7 = Some tip" using Header_view vtip by fastforce
  let ?new = "last (x' # ys)"
  have vnew: "view u7 (hd_hash ?new) = Some ?new"
    unfolding v7 extend_map_eq [OF dys hys] by auto
  have "Header (hd_hash x') u7 \<noteq> None"
    using res staged_Header [OF w(2) H5(2)] x'h unfolding connect_result_def by (metis option.distinct(1))
  then have "Header (hd_hash ?new) u7 \<noteq> None"
    using res last_in_set [of ys] unfolding connect_result_def by (cases "ys = []") auto
  then have new7: "Header (hd_hash ?new) u7 = Some ?new" using Header_view vnew by fastforce
  have cs': "cds_list cs' = [\<lparr>cd_blacklisted = IsBlacklisted ?new, cd_chain = chain @ map Position (x' # ys)\<rparr>]"
    using res unfolding connect_result_def by (simp add: cs_def c_def)
  let ?c = "\<lparr>cd_blacklisted = IsBlacklisted ?new, cd_chain = chain @ map Position (x' # ys)\<rparr>"
  have lastc: "snd (last (cd_chain ?c)) = hd_hash ?new"
    by (cases "ys = []") (simp_all add: Position_def last_map)
  have "?new \<in> set (x' # ys)" by (metis last_in_set list.distinct(1))
  then have ne: "hd_hash ?new \<noteq> hd_hash tip" using tys by (metis image_eqI)
  have choose: "choose_candidate env (hd_hash tip) (cds_list cs') u7 =
    (if \<not> IsBlacklisted ?new \<and> Work (env_add env) tip < Work (env_add env) ?new
     then Inr ((True, True), adopt_chain tip False (cd_chain ?c) u7)
     else Inr ((True, False), AddSibling (Position ?new) u7))"
    unfolding cs' using choose_one_candidate [OF tip7, of ?c ?new env] lastc new7 ne by simp
  define u8 where "u8 = (if \<not> IsBlacklisted ?new \<and> Work (env_add env) tip < Work (env_add env) ?new
     then adopt_chain tip False (cd_chain ?c) u7 else AddSibling (Position ?new) u7)"
  have add: "add_header env x (UpdateTransaction db) = Inr (True, u8)"
  proof -
    have "\<not> EffectiveHeaderExists ?h (UpdateTransaction db)"
      using new by (simp add: EffectiveHeaderExists_def HeaderExists_def)
    then show ?thesis
      using s1(1) u2(1) dis init cc choose unfolding u4_def [symmetric] u8_def
      by (simp add: add_header_def u4_def [symmetric])
  qed
  have f7: "ut_db u7 = db" "ut_best u7 = []" "\<not> ut_have_reorg u7" "ut_reorg_from u7 = blank_position"
    "set (ut_delete_sib u7) = removed_sibling db (hd_parent x)" "set (ut_add_sib u7) = {}"
    "ut_disconnected u7 = []" "\<not> ut_have_checkpoint u7" "set (ut_connect u7) = set (db_disconnected db) - d'"
    "distinct (ut_connect u7)"
    using res e6 fr5 b4 f1 e3 unfolding connect_result_def same_frame_def d'_def by (auto simp: u5_def)
  have C7: "connects env db p x' ys pos path d' u7"
    unfolding connects_def using L w(3-7) v7 f7 by blast
  note N = new_path [OF inv new hash parent x'_def [THEN meta_eq_to_obj_eq] C7]
  let ?qs = "path @ map Position (x' # ys)"
  have qs: "?qs \<noteq> []" by simp
  have low: "fst pos \<le> hd_height tip"
  proof -
    have "map_of (db_best db) (fst pos) \<noteq> None" using w(3) by (simp add: on_best_def)
    then have "fst pos \<le> t" using I(5) unfolding best_path_def by blast
    with I(9) T(1) show ?thesis by simp
  qed
  have tipon: "on_best db (Position tip)"
    using I(5,6,9) T(1) by (simp add: on_best_def Position_def best_path_def)
  have tipq: "hd_hash tip \<notin> snd ` set ?qs"
  proof
    assume "hd_hash tip \<in> snd ` set ?qs"
    then consider q where "q \<in> set path" "snd q = hd_hash tip" | "hd_hash tip \<in> hd_hash ` set (x' # ys)"
      by (auto simp: Position_def)
    then show False
    proof cases
      case 1
      have "\<exists>y. ?m (snd q) = Some y \<and> Position y = q" using linked_member [OF w(5) 1(1)] by blast
      with 1(2) I(7) T(1) have "q = Position tip" by auto
      with 1(1) w(6) tipon show False by blast
    next
      case 2
      with tys show False by blast
    qed
  qed
  have A: "adopted u7 tip pos ?qs (adopt_chain tip False (cd_chain ?c) u7)"
  proof -
    have q: "\<forall>q \<in> set ?qs. 0 \<le> fst q \<and> snd q \<noteq> null_hash \<and> \<not> on_best (ut_db u7) q"
      using N(4) f7(1) by auto
    have on: "on_best (ut_db u7) pos" using w(3) f7(1) by simp
    note spec = adopt_chain_spec [OF f7(2,3,4) N(2) qs N(3) q on low tipq]
    show ?thesis
    proof (cases "path = []")
      case True
      then have "cd_chain ?c = pos # ?qs" by (simp add: chain_def)
      with spec(2) show ?thesis by simp
    next
      case False
      then have "cd_chain ?c = ?qs" by (simp add: chain_def)
      with spec(1) show ?thesis by simp
    qed
  qed
  have "same_base u7 u8"
    unfolding u8_def using A by (auto simp: adopted_def)
  then have "connects env db p x' ys pos path d' u8"
    using C7 same_base_view [of u7 u8] unfolding connects_def same_base_def by simp
  moreover have "outcome_of env db tip x' ys pos path u8"
  proof (cases "\<not> IsBlacklisted ?new \<and> Work (env_add env) tip < Work (env_add env) ?new")
    case True
    then have "u8 = adopt_chain tip False (cd_chain ?c) u7" unfolding u8_def by (rule if_P)
    with A have "adopted u7 tip pos ?qs u8" by (simp only:)
    then show ?thesis
      unfolding outcome_of_def Let_def adopted_def f7(5,6) x'h(2) if_P [OF True] by blast
  next
    case False
    then have u8: "u8 = AddSibling (Position ?new) u7" unfolding u8_def by (rule if_not_P)
    have "snd (Position ?new) = hd_hash ?new" by (simp add: Position_def)
    with f7 show ?thesis
      unfolding outcome_of_def Let_def x'h(2) if_not_P [OF False] u8 by (simp only: AddSibling_simps) simp
  qed
  ultimately show ?thesis using add by blast
qed

end
