(* ===== verification/Header_Apply.thy ===== *)
theory Header_Apply
  imports Header_Add
begin

text \<open>
  The database after the transaction of \<open>add_header\<close> was applied to it.
\<close>

subsection \<open>The tables\<close>

lemma delete_connected_ok:
  assumes "distinct ps" "set ps \<subseteq> set d" "distinct d"
  shows "\<exists>e. delete_connected ps d = Some e \<and> set e = set d - set ps \<and> distinct e"
  using assms
proof (induction ps arbitrary: d)
  case (Cons p ps)
  then have "set ps \<subseteq> set (oset_del p d)" "distinct (oset_del p d)" by auto
  with Cons.IH [of "oset_del p d"] Cons.prems show ?case by auto
qed simp

lemma pop_down_ok:
  assumes "distinct ks" "\<forall>k \<in> set ks. map_of b k \<noteq> None" "ordered b"
  shows "\<exists>b'. pop_down ks b = Some b' \<and> ordered b' \<and>
    (\<forall>k. map_of b' k = (if k \<in> set ks then None else map_of b k))"
  using assms
proof (induction ks arbitrary: b)
  case (Cons k ks)
  then have "\<forall>j \<in> set ks. map_of (omap_del k b) j \<noteq> None" "ordered (omap_del k b)" by auto
  with Cons.IH [of "omap_del k b"] Cons.prems obtain b' where
    "pop_down ks (omap_del k b) = Some b'" "ordered b'"
    "\<forall>j. map_of b' j = (if j \<in> set ks then None else map_of (omap_del k b) j)" by auto
  with Cons.prems show ?case by (auto simp: pop_best_def)
qed simp

lemma fold_push_best:
  assumes "ordered b"
  shows "ordered (fold push_best qs b)" "map_of (fold push_best qs b) = map_of b ++ map_of (rev qs)"
proof -
  have "ordered (fold push_best qs b) \<and> map_of (fold push_best qs b) = map_of b ++ map_of (rev qs)"
    using assms
  proof (induction qs arbitrary: b)
    case (Cons q qs)
    then show ?case by (cases q) (simp add: push_best_def map_add_def fun_eq_iff split: option.splits)
  qed simp
  then show "ordered (fold push_best qs b)" "map_of (fold push_best qs b) = map_of b ++ map_of (rev qs)"
    by simp_all
qed

lemma store_headers_view:
  assumes "\<And>h x. view u h = Some x \<Longrightarrow> hd_work x \<in> \<int> \<and> hd_inherit_work x \<in> \<int>"
  shows "store_headers (ut_headers u) (db_headers (ut_db u)) = view u"
proof
  fix h
  show "store_headers (ut_headers u) (db_headers (ut_db u)) h = view u h"
  proof (cases "ut_headers u h")
    case (Some p)
    then have "view u h = Some (fst p)" by (auto simp: view_def split: prod.splits)
    with assms [of h] Some show ?thesis by (auto simp: store_headers_def split: prod.splits)
  qed (simp add: store_headers_def view_def)
qed

text \<open>Publishing changes only the record of the last update.\<close>

lemma publish_db: "fst (publish u db) = db\<lparr>db_last_update := db_last_update (fst (publish u db))\<rparr>"
  by (cases db) (simp add: publish_def Let_def)

lemma ApplyUpdate_ok:
  assumes "updated_tables u db = Some db1"
  shows "\<exists>l signals. ApplyUpdate True True u db = (True, db1\<lparr>db_last_update := l\<rparr>, signals)"
proof -
  obtain d s where p: "publish u db1 = (d, s)" by (cases "publish u db1")
  then have d: "d = db1\<lparr>db_last_update := db_last_update d\<rparr>" using publish_db [of u db1] by simp
  have "ApplyUpdate True True u db = (True, d, s)" using assms p by (simp add: ApplyUpdate_def)
  with d show ?thesis by (intro exI [of _ "db_last_update d"] exI [of _ s]) (rule trans, assumption, simp)
qed

text \<open>
  The tables after an update that sets no checkpoint, when the connected pairs were waiting and
  the best chain has the entries that the reorganisation removes.
\<close>

lemma updated_tables_ok:
  assumes "\<not> ut_have_checkpoint u" "ut_db u = db" "distinct (ut_connect u)" "distinct (db_disconnected db)"
    "set (ut_connect u) \<subseteq> set (db_disconnected db)" "ordered (db_best db)"
    "\<And>h x. view u h = Some x \<Longrightarrow> hd_work x \<in> \<int> \<and> hd_inherit_work x \<in> \<int>"
    "ut_have_reorg u \<Longrightarrow> \<forall>k. fst (ut_reorg_from u) < k \<and> k \<le> fst (best_position db) \<longrightarrow> map_of (db_best db) k \<noteq> None"
  obtains db1 where "updated_tables u db = Some db1" "db_headers db1 = view u"
    "db_checkpoint db1 = db_checkpoint db" "distinct (db_disconnected db1)"
    "set (db_disconnected db1) = (set (db_disconnected db) \<union> set (ut_disconnected u)) - set (ut_connect u)"
    "set (db_siblings db1) = (set (db_siblings db) \<union> set (ut_add_sib u)) - set (ut_delete_sib u)"
    "db_tip db1 = (if ut_best u = [] then db_tip db else Some (fst (last (ut_best u))))"
    "ordered (db_best db1)"
    "\<And>k. map_of (db_best db1) k =
       (case map_of (rev (ut_best u)) k of Some h \<Rightarrow> Some h
        | None \<Rightarrow> if ut_have_reorg u \<and> fst (ut_reorg_from u) < k \<and> k \<le> fst (best_position db) then None
                  else map_of (db_best db) k)"
proof -
  let ?d = "fold oset_put (ut_disconnected u) (db_disconnected db)"
  have dist: "distinct ?d"
    by (rule distinct_fold_oset_put [OF assms(4)])
  obtain e where e: "delete_connected (ut_connect u) ?d = Some e"
    "set e = set ?d - set (ut_connect u)" "distinct e"
    using delete_connected_ok [OF assms(3) _ dist] assms(5) by auto
  let ?ks = "rev [fst (ut_reorg_from u) + 1..fst (best_position db)]"
  let ?pop = "if ut_have_reorg u then pop_down ?ks (db_best db) else Some (db_best db)"
  have "\<exists>b. ?pop = Some b \<and> ordered b \<and>
    (\<forall>k. map_of b k = (if ut_have_reorg u \<and> fst (ut_reorg_from u) < k \<and> k \<le> fst (best_position db) then None
                  else map_of (db_best db) k))"
  proof (cases "ut_have_reorg u")
    case True
    have "distinct ?ks" by simp
    moreover have "\<forall>k \<in> set ?ks. map_of (db_best db) k \<noteq> None" using assms(8) [OF True] by auto
    ultimately show ?thesis using pop_down_ok [of ?ks "db_best db"] assms(6) True by auto
  qed (use assms(6) in simp)
  then obtain b where b: "?pop = Some b" "ordered b"
    "\<And>k. map_of b k = (if ut_have_reorg u \<and> fst (ut_reorg_from u) < k \<and> k \<le> fst (best_position db) then None
                  else map_of (db_best db) k)" by blast
  let ?db3 = "db\<lparr>db_disconnected := e,
    db_siblings := fold oset_del (ut_delete_sib u) (fold oset_put (ut_add_sib u) (db_siblings db)),
    db_headers := view u, db_best := fold push_best (ut_best u) b\<rparr>"
  let ?db1 = "if ut_best u = [] then ?db3 else ?db3\<lparr>db_tip := Some (fst (last (ut_best u)))\<rparr>"
  have "store_headers (ut_headers u) (db_headers db) = view u"
    using store_headers_view [of u] assms(2,7) by simp
  then have "updated_tables u db = Some ?db1"
    using assms(1) e(1) b(1) by (simp add: updated_tables_def Let_def cong: option.case_cong if_cong)
  then show ?thesis
    by (rule that)
      (use e b fold_push_best [OF b(2), of "ut_best u"] in
        \<open>simp_all add: map_add_def Un_commute split: option.splits\<close>)
qed

end
