(* ===== verification/Header_Grow.thy ===== *)
theory Header_Grow
  imports Header_Apply
begin

text \<open>
  The header tree after a header and the line of its waiting descendants were connected: each part
  of the invariant for the extended map.
\<close>

subsection \<open>Lemmas on stacks\<close>

lemma stack_successor:
  "stack add cp m p ys \<Longrightarrow> w \<in> set (p # ys) \<Longrightarrow> w = last (p # ys) \<or> (\<exists>y \<in> set ys. hd_parent y = hd_hash w)"
proof (induction ys arbitrary: p)
  case (Cons y ys)
  then obtain z where "hd_parent z = hd_hash p" "y = under_parent add cp p z" by auto
  then have y: "hd_parent y = hd_hash p" by simp
  show ?case
  proof (cases "w = p")
    case True
    with y show ?thesis by auto
  next
    case False
    with Cons.prems have "w \<in> set (y # ys)" "stack add cp m y ys" by auto
    from Cons.IH [OF this(2,1)] show ?thesis by auto
  qed
qed simp

lemma stack_heights:
  "stack add cp m p ys \<Longrightarrow> \<forall>y \<in> set (p # ys). hd_height y \<le> hd_height (last (p # ys))"
proof (induction ys arbitrary: p)
  case (Cons y ys)
  then obtain z where "y = under_parent add cp p z" by auto
  then have "hd_height y = hd_height p + 1" by simp
  moreover have "\<forall>w \<in> set (y # ys). hd_height w \<le> hd_height (last (y # ys))"
    using Cons by simp
  ultimately show ?case by auto
qed simp

lemma under_parent_idem [simp]: "under_parent add cp p (under_parent add cp p x) = under_parent add cp p x"
  by (simp add: under_parent_def)

lemma stack_tree:
  assumes "stack add cp m p ys" "adds_up add p ys" "m' (hd_hash p) = Some p" "\<not> IsDisconnected p"
    "\<forall>y \<in> set ys. m' (hd_hash y) = Some y \<and> \<not> IsDisconnected y"
  shows "\<forall>y \<in> set ys. \<exists>q. m' (hd_parent y) = Some q \<and> \<not> IsDisconnected q \<and> y = under_parent add cp q y \<and>
     Work add y = hd_work y + Work add q"
  using assms
proof (induction ys arbitrary: p)
  case (Cons y ys)
  then obtain z where z: "hd_parent z = hd_hash p" "y = under_parent add cp p z" by auto
  then have y: "hd_parent y = hd_hash p" "y = under_parent add cp p y" by simp_all
  have "\<forall>w \<in> set ys. \<exists>q. m' (hd_parent w) = Some q \<and> \<not> IsDisconnected q \<and> w = under_parent add cp q w \<and>
     Work add w = hd_work w + Work add q"
    using Cons by (intro Cons.IH [of y]) simp_all
  moreover have "\<exists>q. m' (hd_parent y) = Some q \<and> \<not> IsDisconnected q \<and> y = under_parent add cp q y \<and>
     Work add y = hd_work y + Work add q"
    using y Cons.prems by (intro exI [of _ p]) simp_all
  ultimately show ?case by simp
qed simp

lemma adds_up_ints:
  "adds_up add p ys \<Longrightarrow> Work add p \<in> \<int> \<Longrightarrow> \<forall>y \<in> set ys. hd_inherit_work y \<in> \<int>"
  by (induction ys arbitrary: p) auto

lemma linked_previous:
  assumes "linked m (hd_hash p) ps" "m (hd_hash p) = Some p" "q \<in> set ps"
  shows "\<exists>y. m (snd q) = Some y \<and> \<not> IsDisconnected y \<and> Position y = q \<and>
    (hd_parent y = hd_hash p \<and> fst q = hd_height p + 1 \<or> (fst q - 1, hd_parent y) \<in> set ps)"
  using assms
proof (induction ps arbitrary: p)
  case (Cons r ps)
  then obtain y where y: "m (snd r) = Some y" "\<not> IsDisconnected y" "Position y = r" "hd_parent y = hd_hash p"
    "hd_height y = hd_height p + 1" "linked m (snd r) ps" by auto
  have r: "snd r = hd_hash y" "fst r = hd_height y" using y(3) by (auto simp: Position_def)
  show ?case
  proof (cases "q = r")
    case True
    with y r show ?thesis by auto
  next
    case False
    with Cons.prems(3) have "q \<in> set ps" by simp
    from Cons.IH [of y, OF _ _ this] y(1,6) r obtain z where z: "m (snd q) = Some z" "\<not> IsDisconnected z"
      "Position z = q" "hd_parent z = hd_hash y \<and> fst q = hd_height y + 1 \<or> (fst q - 1, hd_parent z) \<in> set ps"
      by auto
    have "(hd_height y, hd_hash y) = r" using r by (simp add: prod_eq_iff)
    with z show ?thesis by auto
  qed
qed simp

lemma linked_inner:
  "linked m a ps \<Longrightarrow> q \<in> set ps \<Longrightarrow> q \<noteq> last ps \<Longrightarrow> \<not> leaf m (snd q)"
proof (induction ps arbitrary: a)
  case (Cons r ps)
  show ?case
  proof (cases "q = r")
    case True
    with Cons.prems obtain s ss where "ps = s # ss" by (cases ps) auto
    with Cons.prems True show ?thesis by (auto simp: leaf_def)
  next
    case False
    with Cons show ?thesis by (auto split: if_splits)
  qed
qed simp

subsection \<open>The extended map\<close>

text \<open>A header connects to its parent, with the line of the headers that were waiting for it.\<close>

definition grows :: "oracle_env \<Rightarrow> header_db \<Rightarrow> header \<Rightarrow> header \<Rightarrow> header \<Rightarrow> header list \<Rightarrow> (hash \<times> hash) set \<Rightarrow> bool" where
  "grows env db x p x' ys d' \<longleftrightarrow>
     chain_inv env db \<and> db_headers db (hd_hash x) = None \<and> hd_hash x \<noteq> null_hash \<and>
     0 < hd_work x \<and> hd_work x \<in> \<int> \<and>
     db_headers db (hd_parent x) = Some p \<and> \<not> IsDisconnected p \<and>
     x' = under_parent (env_add env) (CurrentCheckpoint db) p x \<and>
     only_children (set (db_disconnected db)) \<and>
     line (env_add env) (CurrentCheckpoint db) (db_headers db) (set (db_disconnected db)) x' ys d' \<and>
     exact_sums (env_add env) \<and> total_work (db_headers db) + hd_work x \<le> 2 ^ 53"

lemma growsD:
  assumes "grows env db x p x' ys d'"
  shows "chain_inv env db" "db_headers db (hd_hash x) = None" "db_headers db (hd_parent x) = Some p"
    "\<not> IsDisconnected p" "x' = under_parent (env_add env) (CurrentCheckpoint db) p x"
    "line (env_add env) (CurrentCheckpoint db) (db_headers db) (set (db_disconnected db)) x' ys d'"
    "0 < hd_work x" "hd_work x \<in> \<int>" "hd_hash x \<noteq> null_hash" "only_children (set (db_disconnected db))"
    "exact_sums (env_add env)" "total_work (db_headers db) + hd_work x \<le> 2 ^ 53"
  using assms unfolding grows_def by blast+

lemma grows_sums:
  assumes "grows env db x p x' ys d'"
  shows "Work (env_add env) x' = hd_work x + Work (env_add env) p" "adds_up (env_add env) x' ys"
    "0 < Work (env_add env) p" "Work (env_add env) p \<in> \<int>"
proof -
  let ?m = "db_headers db" and ?add = "env_add env"
  note G = growsD [OF assms]
  from G(1) obtain I: "keyed ?m" "rooted (env_genesis env) ?m"
    "tree ?add (CurrentCheckpoint db) (env_genesis env) ?m" by (rule chain_invE)
  note N = new_headers [OF G(1-6)]
  note si = stack_ints [OF N(1) I(1)]
  show p: "0 < Work ?add p" "Work ?add p \<in> \<int>" using work_positive [OF I(1-3) G(3,4)] by auto
  have inj: "inj_on hd_hash (set ys)" "distinct ys" using N(5) by (simp_all add: distinct_map)
  have "(\<Sum>y \<leftarrow> ys. hd_work y) = (\<Sum>y \<in> set ys. hd_work y)"
    using inj(2) by (simp add: sum_list_distinct_conv_sum_set)
  also have "\<dots> = (\<Sum>y \<in> set ys. hd_work (the (?m (hd_hash y))))"
    using si by (intro sum.cong) simp_all
  also have "\<dots> = (\<Sum>j \<in> hd_hash ` set ys. hd_work (the (?m j)))"
    using inj(1) by (simp add: sum.reindex)
  finally have s: "(\<Sum>y \<leftarrow> ys. hd_work y) = (\<Sum>j \<in> hd_hash ` set ys. hd_work (the (?m j)))" .
  have "Work ?add p + (\<Sum>y \<leftarrow> ys. hd_work y) \<le> total_work ?m"
    unfolding s using work_bound [OF I(1-3) G(3,4), of "hd_hash ` set ys"] si by auto
  then have bound: "hd_work x + Work ?add p + (\<Sum>y \<leftarrow> ys. hd_work y) \<le> 2 ^ 53" using G(12) by simp
  have nonneg: "0 \<le> (\<Sum>y \<leftarrow> ys. hd_work y)" using si by (intro sum_list_nonneg) (auto simp: less_imp_le)
  have pk: "hd_hash p = hd_parent x" "hd_hash p \<noteq> null_hash" using keyedD(1,2) [OF I(1) G(3)] by auto
  show x': "Work ?add x' = hd_work x + Work ?add p"
    unfolding G(5) by (rule under_parent_work [OF G(11) _ pk(2) G(7,8) p]) (use pk bound nonneg in simp_all)
  show "adds_up ?add x' ys"
    by (rule stack_sums [OF N(1) I(1) G(11)])
      (use x' p G(5,7,8,9) bound in \<open>simp_all add: add_pos_pos\<close>)
qed

lemma grows_map:
  assumes "grows env db x p x' ys d'"
  defines "m' \<equiv> extend_map (db_headers db) x' ys"
  shows "keyed m'" "rooted (env_genesis env) m'"
    "tree (env_add env) (CurrentCheckpoint db) (env_genesis env) m'"
    "dom m' = insert (hd_hash x) (dom (db_headers db))"
proof -
  let ?m = "db_headers db" and ?add = "env_add env" and ?cp = "CurrentCheckpoint db" and ?g = "env_genesis env"
  note G = growsD [OF assms(1)]
  from G(1) obtain I: "keyed ?m" "?g \<noteq> null_hash" "rooted ?g ?m" "tree ?add ?cp ?g ?m" by (rule chain_invE)
  note N = new_headers [OF G(1-6)]
  note si = stack_ints [OF N(1) I(1)]
  note S = grows_sums [OF assms(1)]
  note eq = extend_map_eq [OF N(5,6), of ?m, folded m'_def]
  show dom: "dom m' = insert (hd_hash x) (dom ?m)"
  proof (intro set_eqI)
    fix k
    have "k \<in> dom m' \<longleftrightarrow> k \<in> hd_hash ` set (x' # ys) \<or> k \<in> dom ?m"
      using eq by (auto simp: dom_def; blast)
    then show "k \<in> dom m' \<longleftrightarrow> k \<in> insert (hd_hash x) (dom ?m)"
      using si G(5) by auto
  qed
  have x'int: "Work ?add x' \<in> \<int>" using S(1,4) G(8) by simp
  have new: "0 < hd_work y \<and> hd_work y \<in> \<int> \<and> hd_inherit_work y \<in> \<int> \<and> hd_hash y \<noteq> null_hash"
    if "y \<in> set (x' # ys)" for y
    using that si adds_up_ints [OF S(2) x'int] S(4) G(5,7,8,9) by auto
  show "keyed m'"
    unfolding keyed_def
  proof (intro conjI allI impI)
    show "finite (dom m')" using dom I(1) by (simp add: keyed_def)
  next
    fix k y assume "m' k = Some y"
    then have "(y \<in> set (x' # ys) \<and> hd_hash y = k) \<or> ?m k = Some y" using eq by blast
    with new keyedD [OF I(1)]
    show "hd_hash y = k" "k \<noteq> null_hash" "0 < hd_work y" "hd_work y \<in> \<int>" "hd_inherit_work y \<in> \<int>"
      by blast+
  qed
  show "rooted ?g m'"
  proof -
    obtain r where "?m ?g = Some r" "hd_height r = 0" "hd_parent r = null_hash" "EffectiveState r = StatusNormal"
      using I(3) by (auto simp: rooted_def)
    moreover from this have "\<not> IsDisconnected r" by (simp add: IsDisconnected_def)
    ultimately show ?thesis using N(10) unfolding rooted_def m'_def by blast
  qed
  show "tree ?add ?cp ?g m'"
    unfolding tree_def
  proof (intro allI impI)
    fix k y assume k: "m' k = Some y" "\<not> IsDisconnected y" "k \<noteq> ?g"
    from k(1) consider "y = x'" | "y \<in> set ys" | "?m k = Some y" using eq by auto
    then show "\<exists>q. m' (hd_parent y) = Some q \<and> \<not> IsDisconnected q \<and> y = under_parent ?add ?cp q y \<and>
        Work ?add y = hd_work y + Work ?add q"
    proof cases
      case 1
      have "m' (hd_parent x) = Some p" using N(10) [OF G(3,4)] by (simp add: m'_def)
      with 1 G(4,5) S(1) show ?thesis by (intro exI [of _ p]) simp
    next
      case 2
      have "\<forall>y \<in> set ys. \<exists>q. m' (hd_parent y) = Some q \<and> \<not> IsDisconnected q \<and> y = under_parent ?add ?cp q y \<and>
          Work ?add y = hd_work y + Work ?add q"
        by (rule stack_tree [OF N(1) S(2)]) (use N(8,11) in \<open>auto simp: m'_def\<close>)
      with 2 show ?thesis by blast
    next
      case 3
      from I(4) this k(2,3) obtain q where "?m (hd_parent y) = Some q" "\<not> IsDisconnected q"
        "y = under_parent ?add ?cp q y" "Work ?add y = hd_work y + Work ?add q" by (rule treeE)
      with N(10) show ?thesis unfolding m'_def by blast
    qed
  qed
qed

lemma grows_connected:
  assumes "grows env db x p x' ys d'"
  shows "connected_in (extend_map (db_headers db) x' ys) k \<longleftrightarrow>
    k \<in> hd_hash ` set (x' # ys) \<or> connected_in (db_headers db) k"
proof -
  note G = growsD [OF assms]
  note N = new_headers [OF G(1-6)]
  show ?thesis
  proof
    assume "connected_in (extend_map (db_headers db) x' ys) k"
    then show "k \<in> hd_hash ` set (x' # ys) \<or> connected_in (db_headers db) k"
      unfolding connected_in_def extend_map_eq [OF N(5,6)] by blast
  next
    assume "k \<in> hd_hash ` set (x' # ys) \<or> connected_in (db_headers db) k"
    then show "connected_in (extend_map (db_headers db) x' ys) k"
      unfolding connected_in_def using N(8,10,11) by blast
  qed
qed

lemma grows_waiting:
  assumes "grows env db x p x' ys d'" "set d = d'" "distinct d"
  shows "waiting (extend_map (db_headers db) x' ys) d"
proof -
  let ?m = "db_headers db" and ?m' = "extend_map (db_headers db) x' ys" and ?D = "set (db_disconnected db)"
  note G = growsD [OF assms(1)]
  note N = new_headers [OF G(1-6)]
  from G(1) have W: "waiting ?m (db_disconnected db)" by (rule chain_invE)
  then have D: "?D = {(hd_parent z, h) | h z. ?m h = Some z \<and> IsDisconnected z}"
    by (simp add: waiting_def)
  have d': "(a, b) \<in> d' \<longleftrightarrow> (a, b) \<in> ?D \<and> b \<notin> hd_hash ` set (x' # ys)" for a b
  proof
    assume ab: "(a, b) \<in> d'"
    then have "(a, b) \<in> ?D" using N(3) by blast
    then obtain z where z: "?m b = Some z" "a = hd_parent z" unfolding D by blast
    have "b \<noteq> hd_hash x'" using z(1) G(2,5) by auto
    moreover have "b \<noteq> hd_hash y" if "y \<in> set ys" for y
    proof
      assume b: "b = hd_hash y"
      have "(hd_parent y, hd_hash y) \<in> ?D - d'" using that N(2) by blast
      moreover from this obtain z' where "?m (hd_hash y) = Some z'" "hd_parent y = hd_parent z'" unfolding D by blast
      ultimately show False using ab b z by auto
    qed
    ultimately show "(a, b) \<in> ?D \<and> b \<notin> hd_hash ` set (x' # ys)" using \<open>(a, b) \<in> ?D\<close> by auto
  next
    assume "(a, b) \<in> ?D \<and> b \<notin> hd_hash ` set (x' # ys)"
    then show "(a, b) \<in> d'" using N(2) by auto
  qed
  have "d' = {(hd_parent z, h) | h z. ?m' h = Some z \<and> IsDisconnected z}"
  proof (intro set_eqI)
    fix q :: "hash \<times> hash"
    obtain a b where q: "q = (a, b)" by (cases q)
    have "q \<in> d' \<longleftrightarrow> (\<exists>z. ?m b = Some z \<and> a = hd_parent z \<and> IsDisconnected z) \<and> b \<notin> hd_hash ` set (x' # ys)"
      unfolding q d' D by blast
    also have "\<dots> \<longleftrightarrow> (\<exists>z. ?m' b = Some z \<and> a = hd_parent z \<and> IsDisconnected z)"
      unfolding extend_map_eq [OF N(5,6)] using N(8) by blast
    finally show "q \<in> d' \<longleftrightarrow> q \<in> {(hd_parent z, h) | h z. ?m' h = Some z \<and> IsDisconnected z}"
      unfolding q by blast
  qed
  moreover have "\<not> connected_in ?m' a" if ab: "(a, b) \<in> d'" for a b
  proof
    assume "connected_in ?m' a"
    moreover have "\<not> connected_in ?m a" using W ab N(3) unfolding waiting_def by blast
    ultimately obtain w where w: "w \<in> set (x' # ys)" "a = hd_hash w"
      unfolding grows_connected [OF assms(1)] by blast
    with ab N(4) have "w \<noteq> last (x' # ys)" by blast
    with stack_successor [OF N(1) w(1)] obtain y where y: "y \<in> set ys" "hd_parent y = a"
      using w(2) by blast
    then have "(a, hd_hash y) \<in> ?D" "(a, hd_hash y) \<notin> d'" using N(2) by blast+
    moreover have "(a, b) \<in> ?D" using ab N(3) by blast
    ultimately show False using G(10) ab unfolding only_children_def by metis
  qed
  ultimately show ?thesis using assms(2,3) by (auto simp: waiting_def)
qed

lemma grows_leaf:
  assumes "grows env db x p x' ys d'"
  shows "leaf (extend_map (db_headers db) x' ys) k \<longleftrightarrow>
    k = hd_hash (last (x' # ys)) \<or> (leaf (db_headers db) k \<and> k \<noteq> hd_parent x)"
proof -
  let ?m = "db_headers db" and ?m' = "extend_map (db_headers db) x' ys" and ?new = "last (x' # ys)"
  note G = growsD [OF assms]
  note N = new_headers [OF G(1-6)]
  note M = grows_map [OF assms]
  note con = grows_connected [OF assms]
  have last: "?new \<in> set (x' # ys)" by (metis last_in_set list.distinct(1))
  have x'p: "hd_parent x' = hd_parent x" by (simp add: G(5))
  have child: "\<exists>q. ?m' (hd_parent z) = Some q \<and> hd_height z = hd_height q + 1 \<and> connected_in ?m' (hd_parent z)"
    if "?m' c = Some z" "\<not> IsDisconnected z" "c \<noteq> env_genesis env" for c z
    using that by (rule treeE [OF M(3)]) (auto simp: connected_in_def)
  have gen: "c \<noteq> env_genesis env" if "?m' c = Some z" "hd_parent z \<noteq> null_hash" for c z
    using that M(2) by (auto simp: rooted_def)
  have new_leaf: "leaf ?m' (hd_hash ?new)"
    unfolding leaf_def
  proof (intro conjI notI)
    show "connected_in ?m' (hd_hash ?new)" unfolding con using last by blast
    assume "\<exists>c z. ?m' c = Some z \<and> \<not> IsDisconnected z \<and> hd_parent z = hd_hash ?new"
    then obtain c z where z: "?m' c = Some z" "\<not> IsDisconnected z" "hd_parent z = hd_hash ?new" by blast
    have mnew: "?m' (hd_hash ?new) = Some ?new" using N(11) [OF last] .
    then have "hd_parent z \<noteq> null_hash" using z(3) keyedD(2) [OF M(1) mnew] by simp
    with child [OF z(1,2) gen [OF z(1)]] z(3) mnew have h: "hd_height z = hd_height ?new + 1" by auto
    from z(1) consider "z \<in> set (x' # ys)" | "?m c = Some z" unfolding extend_map_eq [OF N(5,6)] by blast
    then show False
    proof cases
      case 1
      with stack_heights [OF N(1)] h show False by auto
    next
      case 2
      from G(1) have T: "tree (env_add env) (CurrentCheckpoint db) (env_genesis env) ?m" by (rule chain_invE)
      from T 2 z(2) gen [OF z(1)] \<open>hd_parent z \<noteq> null_hash\<close> obtain q where
        "?m (hd_parent z) = Some q" "\<not> IsDisconnected q" by (metis treeE)
      then have "connected_in ?m (hd_hash ?new)" using z(3) by (auto simp: connected_in_def)
      with N(9) [OF last] show False by simp
    qed
  qed
  show ?thesis
  proof
    assume l: "leaf ?m' k"
    show "k = hd_hash ?new \<or> (leaf ?m k \<and> k \<noteq> hd_parent x)"
    proof (cases "k \<in> hd_hash ` set (x' # ys)")
      case True
      then obtain w where w: "w \<in> set (x' # ys)" "k = hd_hash w" by blast
      from stack_successor [OF N(1) w(1)] show ?thesis
      proof
        assume "\<exists>y \<in> set ys. hd_parent y = hd_hash w"
        then obtain y where "y \<in> set (x' # ys)" "hd_parent y = k" using w by auto
        with N(8,11) l show ?thesis unfolding leaf_def by blast
      qed (use w in simp)
    next
      case False
      have "connected_in ?m k" using l False con unfolding leaf_def by blast
      moreover have "\<not> (\<exists>c y. ?m c = Some y \<and> \<not> IsDisconnected y \<and> hd_parent y = k)"
        using l N(10) unfolding leaf_def by blast
      moreover have "k \<noteq> hd_parent x" using l N(8,11) [of x'] x'p unfolding leaf_def by auto
      ultimately show ?thesis unfolding leaf_def by blast
    qed
  next
    assume "k = hd_hash ?new \<or> (leaf ?m k \<and> k \<noteq> hd_parent x)"
    then show "leaf ?m' k"
    proof
      assume k: "leaf ?m k \<and> k \<noteq> hd_parent x"
      have "hd_parent z \<noteq> k" if z: "?m' c = Some z" "\<not> IsDisconnected z" for c z
      proof
        assume zk: "hd_parent z = k"
        from z(1) consider "z = x'" | "z \<in> set ys" | "?m c = Some z" unfolding extend_map_eq [OF N(5,6)] by auto
        then show False
        proof cases
          case 1
          with zk k x'p show False by simp
        next
          case 2
          then have "(k, hd_hash z) \<in> set (db_disconnected db)" using N(2) zk by blast
          moreover from G(1) have "waiting ?m (db_disconnected db)" by (rule chain_invE)
          ultimately show False using k unfolding waiting_def leaf_def by blast
        next
          case 3
          with z(2) zk k show False unfolding leaf_def by blast
        qed
      qed
      moreover have "connected_in ?m' k" using k con unfolding leaf_def by blast
      ultimately show ?thesis unfolding leaf_def by blast
    qed (use new_leaf in simp)
  qed
qed

end
