(* ===== verification/Header_Connect.thy ===== *)
theory Header_Connect
  imports Header_Grow
begin

text \<open>
  The invariant of the header database holds again after the transaction of a header with a connected
  parent was applied, whether the new branch becomes the best chain or a sibling.
\<close>

subsection \<open>The best chain\<close>

lemma linked_keys:
  assumes "linked m (hd_hash p) ps" "m (hd_hash p) = Some p"
  shows "k \<in> fst ` set ps \<longleftrightarrow> hd_height p < k \<and> k \<le> hd_height p + int (length ps)"
proof -
  have "fst ` set ps = (\<lambda>i. hd_height p + 1 + int i) ` {0..<length ps}"
    using arg_cong [OF linked_heights [OF assms], of set] by simp
  then show ?thesis using linked_sorted(5) [OF assms, of k] by auto
qed

lemma sorted_distinct_keys: "sorted_wrt (<) (map fst (qs :: (int \<times> 'a) list)) \<Longrightarrow> distinct (map fst qs)"
  using strict_sorted_iff by blast

lemma best_path_mono:
  assumes "best_path g m b t" "ordered b'" "map_of b' = map_of b"
    "\<And>k y. m k = Some y \<and> \<not> IsDisconnected y \<Longrightarrow> m' k = Some y"
  shows "best_path g m' b' t"
  using assms(1) unfolding best_path_def assms(3)
  by (intro conjI; (intro allI impI)?) (use assms(2,4) in \<open>blast+\<close>)

lemma map_of_rev_distinct: "distinct (map fst qs) \<Longrightarrow> map_of (rev qs) = map_of qs"
  by (subst map_of_inject_set) (simp_all add: rev_map [symmetric])

lemma best_path_extend:
  assumes old: "best_path g m b t" "map_of b (fst pos) = Some (snd pos)" "0 \<le> fst pos"
    and mono: "\<And>k y. m k = Some y \<Longrightarrow> \<not> IsDisconnected y \<Longrightarrow> m' k = Some y"
    and path: "linked m' (hd_hash p) qs" "m' (hd_hash p) = Some p" "Position p = pos" "qs \<noteq> []"
    and new: "ordered b'" "\<And>k. map_of b' k = (if k \<le> fst pos then map_of b k else map_of qs k)"
  shows "best_path g m' b' (fst (last qs))"
proof -
  have pos: "fst pos = hd_height p" "snd pos = hd_hash p" using path(3) by (auto simp: Position_def)
  note S = linked_sorted [OF path(1,2)]
  have dist: "distinct (map fst qs)" by (rule sorted_distinct_keys [OF S(1)])
  have keys: "map_of qs k \<noteq> None \<longleftrightarrow> hd_height p < k \<and> k \<le> fst (last qs)" for k
    using linked_keys [OF path(1,2), of k] S(3) [OF path(4)] by (simp add: map_of_eq_None_iff)
  have b: "map_of b k \<noteq> None \<longleftrightarrow> 0 \<le> k \<and> k \<le> t" "map_of b 0 = Some g" for k
    using old(1) unfolding best_path_def by blast+
  have len: "hd_height p < fst (last qs)" using S(2) path(4) by simp
  have top: "fst pos \<le> t" using b(1) [of "fst pos"] old(2) by simp
  show ?thesis
    unfolding best_path_def
  proof (intro conjI allI)
    show "ordered b'" by (rule new(1))
    show "0 \<le> fst (last qs)" using len old(3) pos by simp
    show "map_of b' k \<noteq> None \<longleftrightarrow> 0 \<le> k \<and> k \<le> fst (last qs)" for k
      using b(1) [of k] keys [of k] top len old(3) pos unfolding new(2) by auto
    show "map_of b' 0 = Some g" using b(2) old(3) by (simp add: new(2))
  next
    fix k h
    show "map_of b' k = Some h \<longrightarrow> (\<exists>x. m' h = Some x \<and> \<not> IsDisconnected x \<and> hd_height x = k \<and>
             (0 < k \<longrightarrow> map_of b' (k - 1) = Some (hd_parent x)))"
    proof
      assume k: "map_of b' k = Some h"
      show "\<exists>x. m' h = Some x \<and> \<not> IsDisconnected x \<and> hd_height x = k \<and>
             (0 < k \<longrightarrow> map_of b' (k - 1) = Some (hd_parent x))"
      proof (cases "k \<le> fst pos")
        case True
        with k have "map_of b k = Some h" by (simp add: new(2))
        then obtain x where "m h = Some x" "\<not> IsDisconnected x" "hd_height x = k"
          "0 < k \<longrightarrow> map_of b (k - 1) = Some (hd_parent x)"
          using old(1) unfolding best_path_def by blast
        with mono True show ?thesis by (intro exI [of _ x]) (simp add: new(2))
      next
        case False
        with k have kh: "(k, h) \<in> set qs" by (auto simp: new(2) dest: map_of_SomeD)
        from linked_previous [OF path(1,2) kh] obtain y where y: "m' h = Some y" "\<not> IsDisconnected y"
          "Position y = (k, h)"
          "hd_parent y = hd_hash p \<and> k = hd_height p + 1 \<or> (k - 1, hd_parent y) \<in> set qs" by auto
        have "map_of b' (k - 1) = Some (hd_parent y)"
          using y(4)
        proof
          assume "hd_parent y = hd_hash p \<and> k = hd_height p + 1"
          with old(2) pos show ?thesis by (simp add: new(2))
        next
          assume q: "(k - 1, hd_parent y) \<in> set qs"
          then have "hd_height p < k - 1" using S(2) by auto
          with q pos dist show ?thesis by (simp add: new(2))
        qed
        with y show ?thesis by (intro exI [of _ y]) (simp add: Position_def)
      qed
    qed
  qed
qed

subsection \<open>The parts that do not depend on the choice of the best chain\<close>

lemma chain_inv_last_update [simp]: "chain_inv env (db\<lparr>db_last_update := l\<rparr>) = chain_inv env db"
  by (simp add: chain_inv_def CurrentCheckpoint_def)

lemma chain_invI:
  assumes "keyed (db_headers db)" "env_genesis env \<noteq> null_hash" "rooted (env_genesis env) (db_headers db)"
    "tree (env_add env) (CurrentCheckpoint db) (env_genesis env) (db_headers db)"
    "waiting (db_headers db) (db_disconnected db)" "db_tip db = Some t"
    "best_path (env_genesis env) (db_headers db) (db_best db) t"
    "map_of (db_best db) t = Some h" "db_headers db h = Some tip"
    "heaviest (env_add env) (db_headers db) tip"
    "siblings_ok (CurrentCheckpoint db) (db_headers db) h (set (db_siblings db))"
  shows "chain_inv env db"
  using assms unfolding chain_inv_def by blast

lemma grows_heavier:
  assumes "grows env db x p x' ys d'" "heaviest (env_add env) (db_headers db) tip"
    "\<not> IsBlacklisted best" "Work (env_add env) tip \<le> Work (env_add env) best"
    "IsBlacklisted (last (x' # ys)) \<or> Work (env_add env) (last (x' # ys)) \<le> Work (env_add env) best"
  shows "heaviest (env_add env) (extend_map (db_headers db) x' ys) best"
  unfolding heaviest_def
proof (intro conjI allI impI)
  let ?m = "db_headers db" and ?m' = "extend_map (db_headers db) x' ys" and ?new = "last (x' # ys)"
  note G = growsD [OF assms(1)]
  note N = new_headers [OF G(1-6)]
  show "\<not> IsBlacklisted best" by (rule assms(3))
  fix l y assume l: "?m' l = Some y" "leaf ?m' l" "\<not> IsBlacklisted y"
  from l(2) show "Work (env_add env) y \<le> Work (env_add env) best"
    unfolding grows_leaf [OF assms(1)]
  proof
    assume "l = hd_hash ?new"
    moreover have "?new \<in> set (x' # ys)" by (metis last_in_set list.distinct(1))
    ultimately have "y = ?new" using l(1) N(11) [of ?new] by simp
    with l(3) assms(5) show ?thesis by simp
  next
    assume old: "leaf ?m l \<and> l \<noteq> hd_parent x"
    then obtain z where z: "?m l = Some z" "\<not> IsDisconnected z" unfolding leaf_def connected_in_def by blast
    with N(10) [OF z] l(1) have "y = z" by simp
    with old z l(3) assms(2) have "Work (env_add env) y \<le> Work (env_add env) tip"
      unfolding heaviest_def by blast
    with assms(4) show ?thesis by simp
  qed
qed

subsection \<open>The siblings\<close>

lemma grows_siblings_keep:
  assumes gr: "grows env db x p x' ys d'"
    and S: "siblings_ok (CurrentCheckpoint db) (db_headers db) tip S" "connected_in (db_headers db) tip"
    and S': "S' = (S \<union> {hd_hash (last (x' # ys))}) - ((if hd_parent x \<in> S then {hd_parent x} else {}) - {hd_hash (last (x' # ys))})"
  shows "siblings_ok (CurrentCheckpoint db) (extend_map (db_headers db) x' ys) tip S'"
proof -
  let ?m = "db_headers db" and ?m' = "extend_map (db_headers db) x' ys" and ?new = "hd_hash (last (x' # ys))"
  note G = growsD [OF gr]
  note N = new_headers [OF G(1-6)]
  note leaf = grows_leaf [OF gr] and con = grows_connected [OF gr]
  have last: "last (x' # ys) \<in> set (x' # ys)" by (metis last_in_set list.distinct(1))
  have new: "\<not> connected_in ?m ?new" using N(9) [OF last] .
  have par: "connected_in ?m (hd_parent x)" using G(3,4) by (auto simp: connected_in_def)
  have ne: "hd_parent x \<noteq> ?new" "tip \<noteq> ?new" using new par S(2) by auto
  have eq: "S' = (S - {hd_parent x}) \<union> {?new}" unfolding S' using ne by auto
  have S1: "{h. leaf ?m h \<and> h \<noteq> tip} \<subseteq> S" "S \<subseteq> {h. connected_in ?m h \<and> h \<noteq> tip}"
    "CurrentCheckpoint db = blank_position \<Longrightarrow> S \<subseteq> {h. leaf ?m h}"
    using S(1) unfolding siblings_ok_def by blast+
  have cn: "connected_in ?m' ?new" unfolding con using last by blast
  show ?thesis
    unfolding siblings_ok_def
  proof (intro conjI impI)
    show "{h. leaf ?m' h \<and> h \<noteq> tip} \<subseteq> S'" unfolding leaf eq using S1(1) by blast
    show "S' \<subseteq> {h. connected_in ?m' h \<and> h \<noteq> tip}" unfolding eq using S1(2) con cn ne(2) by blast
    assume "CurrentCheckpoint db = blank_position"
    with S1(3) show "S' \<subseteq> {h. leaf ?m' h}" unfolding eq leaf by blast
  qed
qed

lemma grows_siblings_adopt:
  assumes gr: "grows env db x p x' ys d'"
    and S: "siblings_ok (CurrentCheckpoint db) (db_headers db) tip S" "connected_in (db_headers db) tip"
      "leaf (db_headers db) tip \<or> CurrentCheckpoint db \<noteq> blank_position"
    and qs: "\<And>q. q \<in> snd ` set qs \<Longrightarrow> q = hd_hash (last (x' # ys)) \<or> \<not> leaf (extend_map (db_headers db) x' ys) q"
      "hd_hash (last (x' # ys)) \<in> snd ` set qs"
    and split: "split \<Longrightarrow> tip \<noteq> hd_parent x" "\<not> split \<Longrightarrow> \<not> leaf (extend_map (db_headers db) x' ys) tip"
      "tip \<notin> snd ` set qs"
    and S': "S' = (S \<union> (if split then {tip} else {})) -
      ((if hd_parent x \<in> S then {hd_parent x} else {}) \<union> snd ` set qs - (if split then {tip} else {}))"
  shows "siblings_ok (CurrentCheckpoint db) (extend_map (db_headers db) x' ys) (hd_hash (last (x' # ys))) S'"
proof -
  let ?m = "db_headers db" and ?m' = "extend_map (db_headers db) x' ys" and ?new = "hd_hash (last (x' # ys))"
  note G = growsD [OF gr]
  note N = new_headers [OF G(1-6)]
  note leaf = grows_leaf [OF gr] and con = grows_connected [OF gr]
  have last: "last (x' # ys) \<in> set (x' # ys)" by (metis last_in_set list.distinct(1))
  have new: "\<not> connected_in ?m ?new" using N(9) [OF last] .
  have S1: "{h. leaf ?m h \<and> h \<noteq> tip} \<subseteq> S" "S \<subseteq> {h. connected_in ?m h \<and> h \<noteq> tip}"
    "CurrentCheckpoint db = blank_position \<Longrightarrow> S \<subseteq> {h. leaf ?m h}"
    using S(1) unfolding siblings_ok_def by blast+
  have eq: "S' = (S - {hd_parent x} - snd ` set qs) \<union> (if split then {tip} else {})"
    unfolding S' using split(3) S1(2) by auto
  show ?thesis
    unfolding siblings_ok_def
  proof (intro conjI impI)
    show "{h. leaf ?m' h \<and> h \<noteq> ?new} \<subseteq> S'"
    proof
      fix h assume h: "h \<in> {h. leaf ?m' h \<and> h \<noteq> ?new}"
      then have "leaf ?m h" "h \<noteq> hd_parent x" "h \<notin> snd ` set qs" using leaf qs(1) by blast+
      with S1(1) split(2) h show "h \<in> S'" unfolding eq by (cases "h = tip") auto
    qed
    show "S' \<subseteq> {h. connected_in ?m' h \<and> h \<noteq> ?new}"
      unfolding eq con using S1(2) S(2) new qs(2) by auto
    assume "CurrentCheckpoint db = blank_position"
    with S1(3) S(3) split(1) show "S' \<subseteq> {h. leaf ?m' h}" unfolding eq leaf by (auto split: if_splits)
  qed
qed

subsection \<open>The invariant\<close>

text \<open>The best chain of the database after the transaction was applied.\<close>

definition grown ::
  "oracle_env \<Rightarrow> header_db \<Rightarrow> header \<Rightarrow> header \<Rightarrow> header list \<Rightarrow> header_db \<Rightarrow> bool" where
  "grown env db tip x ys db1 \<longleftrightarrow>
     chain_inv env db1 \<and> db_headers db1 = extend_map (db_headers db) x ys \<and>
     db_checkpoint db1 = db_checkpoint db \<and>
     set (db_disconnected db1) \<subseteq> set (db_disconnected db) \<and>
     best_position db1 =
       (let new = last (x # ys)
        in if \<not> IsBlacklisted new \<and> Work (env_add env) tip < Work (env_add env) new
           then Position new else best_position db)"

lemma updated_connected:
  assumes gr: "grows env db x p x' ys d'"
    and C: "connects env db p x' ys pos path d' u" and O: "outcome_of env db tip x' ys pos path u"
    and tip: "db_headers db (snd (best_position db)) = Some tip"
  shows "\<exists>db1. updated_tables u db = Some db1 \<and> grown env db tip x' ys db1"
proof -
  let ?m = "db_headers db" and ?m' = "extend_map (db_headers db) x' ys" and ?add = "env_add env"
    and ?cp = "CurrentCheckpoint db" and ?g = "env_genesis env" and ?new = "last (x' # ys)"
  define qs where "qs = path @ map Position (x' # ys)"
  note G = growsD [OF gr]
  note N = new_headers [OF G(1-6)]
  note M = grows_map [OF gr]
  from G(1) obtain t tip' where I: "keyed ?m" "?g \<noteq> null_hash" "rooted ?g ?m" "tree ?add ?cp ?g ?m"
    "waiting ?m (db_disconnected db)" "db_tip db = Some t" "best_path ?g ?m (db_best db) t"
    "map_of (db_best db) t = Some (hd_hash tip')" "?m (hd_hash tip') = Some tip'" "\<not> IsDisconnected tip'"
    "hd_height tip' = t" "heaviest ?add ?m tip'" "siblings_ok ?cp ?m (hd_hash tip') (set (db_siblings db))"
    "best_position db = (t, hd_hash tip')" by (rule chain_invE)
  have T: "tip' = tip" using I(9,14) tip by simp
  note I = I [unfolded T]
  note P = new_path [OF G(1,2,9,3,4,5) C, folded qs_def]
  from C obtain b where on: "on_best db pos" and b: "?m (snd pos) = Some b" "Position b = pos" "\<not> IsDisconnected b"
    and lp: "(if path = [] then pos else last path) = Position p" "\<forall>q \<in> set path. \<not> on_best db q"
    and u: "view u = ?m'" "ut_db u = db" "set (ut_connect u) = set (db_disconnected db) - d'"
      "distinct (ut_connect u)" "ut_disconnected u = []" "\<not> ut_have_checkpoint u"
    by (auto simp: connects_def)
  have bh: "hd_hash b = snd pos" "hd_height b = fst pos" using b(2) by (auto simp: Position_def)
  have bestdom: "map_of (db_best db) k \<noteq> None \<longleftrightarrow> 0 \<le> k \<and> k \<le> t" for k
    using I(7) unfolding best_path_def by blast
  have on': "map_of (db_best db) (fst pos) = Some (snd pos)" "0 \<le> fst pos"
    using on by (auto simp: on_best_def)
  have pt: "fst pos \<le> t" using bestdom [of "fst pos"] on' by simp
  have tipC: "connected_in ?m (hd_hash tip)" using I(9,10) by (auto simp: connected_in_def)
  have lastin: "?new \<in> set (x' # ys)" by (metis last_in_set list.distinct(1))
  have m'new: "?m' (hd_hash ?new) = Some ?new" using N(11) [OF lastin] .
  have lastq: "last qs = Position ?new" by (simp add: qs_def last_map)
  have ne: "qs \<noteq> []" by (simp add: qs_def)
  have inherits: "hd_work y \<in> \<int> \<and> hd_inherit_work y \<in> \<int>" if "?m' h = Some y" for h y
    using keyedD [OF M(1) that] by blast
  define add where "add = (\<not> IsBlacklisted ?new \<and> Work ?add tip < Work ?add ?new)"
  have O': "if add
      then ut_best u = qs \<and> (ut_have_reorg u \<longleftrightarrow> fst pos < hd_height tip) \<and>
           (fst pos < hd_height tip \<longrightarrow> ut_reorg_from u = pos) \<and>
           set (ut_delete_sib u) = removed_sibling db (hd_parent x') \<union> snd ` set qs
             - (if fst pos < hd_height tip then {hd_hash tip} else {}) \<and>
           set (ut_add_sib u) = (if fst pos < hd_height tip then {hd_hash tip} else {})
      else ut_best u = [] \<and> \<not> ut_have_reorg u \<and>
           set (ut_delete_sib u) = removed_sibling db (hd_parent x') - {hd_hash ?new} \<and>
           set (ut_add_sib u) = {hd_hash ?new}"
    using O unfolding outcome_of_def Let_def add_def qs_def by blast
  have x'p: "hd_parent x' = hd_parent x" by (simp add: G(5))
  have reorg: "ut_have_reorg u \<Longrightarrow> fst (ut_reorg_from u) = fst pos"
    using O' by (auto split: if_splits)
  obtain db1 where D: "updated_tables u db = Some db1" "db_headers db1 = view u"
    "db_checkpoint db1 = db_checkpoint db" "distinct (db_disconnected db1)"
    "set (db_disconnected db1) = (set (db_disconnected db) \<union> set (ut_disconnected u)) - set (ut_connect u)"
    "set (db_siblings db1) = (set (db_siblings db) \<union> set (ut_add_sib u)) - set (ut_delete_sib u)"
    "db_tip db1 = (if ut_best u = [] then db_tip db else Some (fst (last (ut_best u))))"
    "ordered (db_best db1)"
    "\<And>k. map_of (db_best db1) k =
       (case map_of (rev (ut_best u)) k of Some h \<Rightarrow> Some h
        | None \<Rightarrow> if ut_have_reorg u \<and> fst (ut_reorg_from u) < k \<and> k \<le> fst (best_position db) then None
                  else map_of (db_best db) k)"
  proof (rule updated_tables_ok [of u db])
    show "distinct (db_disconnected db)" using I(5) by (simp add: waiting_def)
    show "ordered (db_best db)" using I(7) by (simp add: best_path_def)
    show "hd_work x \<in> \<int> \<and> hd_inherit_work x \<in> \<int>" if "view u h = Some x" for h x
      using that inherits unfolding u(1) by blast
    show "\<forall>k. fst (ut_reorg_from u) < k \<and> k \<le> fst (best_position db) \<longrightarrow> map_of (db_best db) k \<noteq> None"
      if "ut_have_reorg u"
      unfolding reorg [OF that] I(14) bestdom using on'(2) by auto
  qed (use u in auto)
  have cp1: "CurrentCheckpoint db1 = ?cp" using D(3) by (simp add: CurrentCheckpoint_def)
  have W1: "waiting (db_headers db1) (db_disconnected db1)"
    unfolding D(2) u(1) by (rule grows_waiting [OF gr _ D(4)]) (use D(5) u(3,5) N(3) in auto)
  have base: "keyed (db_headers db1)" "rooted ?g (db_headers db1)"
    "tree ?add (CurrentCheckpoint db1) ?g (db_headers db1)"
    unfolding D(2) u(1) cp1 by (rule M)+
  have sub: "set (db_disconnected db1) \<subseteq> set (db_disconnected db)" using D(5) u(5) by auto
  show ?thesis
  proof (cases add)
    case True
    note O1 = O' [simplified True if_True]
    have hv: "heaviest ?add ?m' ?new"
      by (rule grows_heavier [OF gr I(12)]) (use True add_def in auto)
    have keys: "fst q > fst pos" if "q \<in> set qs" for q using P(7) [OF that] .
    have rest: "k \<in> fst ` set qs" if "fst pos < k" "k \<le> fst (last qs)" for k using P(5) [OF that] .
    have dist: "distinct (map fst qs)" by (rule sorted_distinct_keys [OF P(2)])
    have rv: "map_of (rev qs) = map_of qs" by (rule map_of_rev_distinct [OF dist])
    have m1: "map_of (db_best db1) k = (if k \<le> fst pos then map_of (db_best db) k else map_of qs k)" for k
    proof (cases "k \<le> fst pos")
      case le: True
      have "k \<notin> fst ` set qs"
      proof
        assume "k \<in> fst ` set qs"
        then obtain q where "q \<in> set qs" "k = fst q" by (rule imageE)
        from keys [OF this(1)] this(2) le show False by simp
      qed
      then have "map_of qs k = None" unfolding map_of_eq_None_iff .
      with le show ?thesis unfolding D(9) using O1 rv reorg by auto
    next
      case gt: False
      show ?thesis
      proof (cases "map_of qs k")
        case None
        have "map_of (db_best db) k = None \<or> k \<le> t" using bestdom [of k] by auto
        moreover have "fst pos < hd_height tip" if "k \<le> t" using gt that I(11) by simp
        ultimately show ?thesis using gt None O1 rv I(11,14) unfolding D(9) by auto
      next
        case (Some h)
        with gt O1 rv show ?thesis unfolding D(9) by simp
      qed
    qed
    have bp: "best_path ?g (db_headers db1) (db_best db1) (fst (last qs))"
      unfolding D(2) u(1)
      by (rule best_path_extend [OF I(7) on' N(10) _ _ b(2) _ D(8) m1])
        (use P(1) bh N(10) [OF b(1,3)] ne in simp_all)
    have tip1: "db_tip db1 = Some (fst (last qs))" using D(7) O1 ne by simp
    have at: "map_of (db_best db1) (fst (last qs)) = Some (hd_hash ?new)"
    proof -
      have "last qs \<in> set qs" by (rule last_in_set [OF ne])
      then have "fst pos < fst (last qs)" "map_of qs (fst (last qs)) = Some (snd (last qs))"
        using keys dist by (auto intro: map_of_is_SomeI)
      then show ?thesis unfolding m1 lastq by (simp add: Position_def)
    qed
    have so: "siblings_ok (CurrentCheckpoint db1) (db_headers db1) (hd_hash ?new) (set (db_siblings db1))"
      unfolding D(2) u(1) cp1
    proof (rule grows_siblings_adopt [OF gr I(13) tipC, where qs = qs and split = "fst pos < hd_height tip"])
      show "leaf ?m (hd_hash tip) \<or> ?cp \<noteq> blank_position"
      proof (rule ccontr)
        assume no: "\<not> ?thesis"
        with tipC obtain c y where y: "?m c = Some y" "\<not> IsDisconnected y" "hd_parent y = hd_hash tip"
          unfolding leaf_def by blast
        have "c \<noteq> ?g" using I(3) y keyedD(2) [OF I(1,9)] by (auto simp: rooted_def)
        with I(4) y(1,2) obtain q where q: "?m (hd_parent y) = Some q" "Work ?add y = hd_work y + Work ?add q"
          by (rule treeE)
        have "Work ?add y \<le> Work ?add tip"
          using heaviest_all [OF I(1,3) _ I(12) y(1,2)] I(4) no by simp
        with q y(3) I(9) keyedD(3) [OF I(1) y(1)] show False by simp
      qed
    next
      fix q assume "q \<in> snd ` set qs"
      then obtain r where r: "r \<in> set qs" "q = snd r" by blast
      show "q = hd_hash ?new \<or> \<not> leaf ?m' q"
      proof (cases "r = last qs")
        case True
        with r(2) lastq show ?thesis by (simp add: Position_def)
      next
        case False
        with linked_inner [OF P(1) r(1)] r(2) show ?thesis by simp
      qed
    next
      show "hd_hash ?new \<in> snd ` set qs"
        using last_in_set [OF ne] lastq by (auto simp: Position_def intro!: image_eqI [of _ _ "last qs"])
    next
      assume lt: "fst pos < hd_height tip"
      show "hd_hash tip \<noteq> hd_parent x"
      proof
        assume e: "hd_hash tip = hd_parent x"
        then have "p = tip" using G(3) I(9) by simp
        then have onp: "on_best db (Position p)"
          using I(8,11) bestdom [of t] by (auto simp: on_best_def Position_def)
        have "path = []"
        proof (rule ccontr)
          assume "path \<noteq> []"
          with lp onp show False using last_in_set [of path] by auto
        qed
        with lp(1) \<open>p = tip\<close> lt show False by (simp add: Position_def)
      qed
    next
      assume nlt: "\<not> fst pos < hd_height tip"
      then have "fst pos = t" using pt I(11) by simp
      then have e: "snd pos = hd_hash tip" using on'(1) I(8) by simp
      obtain q rs where qs: "qs = q # rs" using ne by (cases qs) auto
      then have "linked ?m' (snd pos) (q # rs)" using P(1) by simp
      then obtain y where "?m' (snd q) = Some y" "\<not> IsDisconnected y" "hd_parent y = snd pos" by auto
      with e show "\<not> leaf ?m' (hd_hash tip)" unfolding leaf_def by metis
    next
      show "hd_hash tip \<notin> snd ` set qs"
      proof
        assume "hd_hash tip \<in> snd ` set qs"
        then obtain q where q: "q \<in> set qs" "snd q = hd_hash tip" by auto
        from linked_member [OF P(1) q(1)] obtain y where y: "?m' (snd q) = Some y" "Position y = q" by blast
        with q N(10) [OF I(9,10)] have "q = Position tip" by auto
        then have "on_best db q" using I(8,11) bestdom [of t] by (auto simp: on_best_def Position_def)
        with P(4) [OF q(1)] show False by simp
      qed
    next
      show "set (db_siblings db1) = (set (db_siblings db) \<union> (if fst pos < hd_height tip then {hd_hash tip} else {})) -
        ((if hd_parent x \<in> set (db_siblings db) then {hd_parent x} else {}) \<union> snd ` set qs -
         (if fst pos < hd_height tip then {hd_hash tip} else {}))"
        unfolding D(6) using O1 x'p by (simp add: removed_sibling_def)
    qed
    have "chain_inv env db1"
      by (rule chain_invI [OF base(1) I(2) base(2,3) W1 tip1 bp at _ _ so])
        (use m'new hv D(2) u(1) in simp_all)
    moreover have "best_position db1 = Position ?new"
      using tip1 at lastq by (simp add: best_position_def Position_def)
    ultimately show ?thesis
      using D(1,2,3) u(1) True add_def sub by (intro exI [of _ db1]) (simp add: grown_def Let_def)
  next
    case False
    note O1 = O' [simplified False if_False]
    have hv: "heaviest ?add ?m' tip"
      by (rule grows_heavier [OF gr I(12)]) (use False add_def I(12) in \<open>auto simp: heaviest_def\<close>)
    have m1: "map_of (db_best db1) = map_of (db_best db)"
      using D(9) O1 by (simp add: fun_eq_iff)
    have bp: "best_path ?g (db_headers db1) (db_best db1) t"
      unfolding D(2) u(1) by (rule best_path_mono [OF I(7) D(8) m1]) (use N(10) in blast)
    have tip1: "db_tip db1 = Some t" using D(7) O1 I(6) by simp
    have at: "map_of (db_best db1) t = Some (hd_hash tip)" using m1 I(8) by simp
    have so: "siblings_ok (CurrentCheckpoint db1) (db_headers db1) (hd_hash tip) (set (db_siblings db1))"
      unfolding D(2) u(1) cp1
      by (rule grows_siblings_keep [OF gr I(13) tipC]) (use O1 D(6) x'p in \<open>simp add: removed_sibling_def\<close>)
    have "chain_inv env db1"
      by (rule chain_invI [OF base(1) I(2) base(2,3) W1 tip1 bp at _ _ so])
        (use N(10) [OF I(9,10)] hv D(2) u(1) in simp_all)
    moreover have "best_position db1 = best_position db"
      using tip1 at I(14) by (simp add: best_position_def)
    ultimately show ?thesis
      using D(1,2,3) u(1) False add_def sub by (intro exI [of _ db1]) (auto simp: grown_def Let_def)
  qed
qed

end
