(* ===== verification/Header_Invariant.thy ===== *)
theory Header_Invariant
  imports Header_Connect
begin

text \<open>
  The invariant of the header oracle: that of its database, its copy of the best position, and its
  two tables of hashes that peers announced. \<open>AddHeader\<close> keeps it.
\<close>

subsection \<open>Headers that wait\<close>

text \<open>
  \<open>add_header\<close> for a header whose parent is unknown or itself disconnected: it is stored and waits
  for its parent, and nothing else changes. A header that is known changes nothing.
\<close>

lemma add_header_known: "db_headers db (hd_hash x) \<noteq> None \<Longrightarrow>
  add_header env x (UpdateTransaction db) = Inr (True, UpdateTransaction db)"
  by (simp add: add_header_def EffectiveHeaderExists_def HeaderExists_def)

lemma DisconnectBlock_simps [simp]:
  "ut_db (DisconnectBlock x u) = ut_db u" "ut_best (DisconnectBlock x u) = ut_best u"
  "ut_headers (DisconnectBlock x u) = ut_headers u" "view (DisconnectBlock x u) = view u"
  "ut_have_reorg (DisconnectBlock x u) = ut_have_reorg u"
  "ut_have_checkpoint (DisconnectBlock x u) = ut_have_checkpoint u"
  "ut_add_sib (DisconnectBlock x u) = ut_add_sib u" "ut_delete_sib (DisconnectBlock x u) = ut_delete_sib u"
  "ut_connect (DisconnectBlock x u) = oset_del (hd_parent x, hd_hash x) (ut_connect u)"
  "ut_disconnected (DisconnectBlock x u) = oset_put (hd_parent x, hd_hash x) (ut_disconnected u)"
  by (simp_all add: DisconnectBlock_def Let_def view_def fun_eq_iff cong: option.case_cong)

text \<open>The transaction a waiting header leaves.\<close>

definition waits :: "header_db \<Rightarrow> header \<Rightarrow> update \<Rightarrow> bool" where
  "waits db x u \<longleftrightarrow>
     view u = (db_headers db)(hd_hash x \<mapsto> SetDisconnectedState x) \<and> ut_db u = db \<and>
     ut_disconnected u = [(hd_parent x, hd_hash x)] \<and> ut_connect u = [] \<and> ut_best u = [] \<and>
     \<not> ut_have_reorg u \<and> \<not> ut_have_checkpoint u \<and> ut_add_sib u = [] \<and> ut_delete_sib u = []"

lemma add_header_waits:
  assumes inv: "chain_inv env db" and new: "db_headers db (hd_hash x) = None"
    and parent: "\<not> connected_in (db_headers db) (hd_parent x)" "hd_parent x \<noteq> hd_hash x"
  shows "\<exists>u. add_header env x (UpdateTransaction db) = Inr (True, u) \<and> waits db x u"
proof -
  let ?m = "db_headers db" and ?h = "hd_hash x"
  from inv obtain t tip where I: "keyed ?m" "?m (hd_hash tip) = Some tip" "best_position db = (t, hd_hash tip)"
    by (rule chain_invE)
  have ne: "?h \<noteq> hd_hash tip" using new I(2) by auto
  define u1 where "u1 = (UpdateTransaction db)\<lparr>ut_headers := [?h \<mapsto> (x, True)]\<rparr>"
  note s1 = stage_new [OF new, folded u1_def]
  have f1: "ut_db u1 = db" "ut_best u1 = []" "ut_have_checkpoint u1 = False" "ut_have_reorg u1 = False"
    "ut_add_sib u1 = []" "ut_delete_sib u1 = []" "ut_disconnected u1 = []"
    using s1(4) by (simp_all add: same_frame_def)
  have k1: "hash_keyed (view u1)" unfolding s1(2) by (rule hash_keyed_upd [OF keyed_hash [OF I(1)]]) simp
  obtain u2 where u2: "Stage_best u1 = Inr (hd_hash tip, u2)" "staged u1 u2"
    by (rule Stage_best_db [of u1 tip]) (use f1 I ne s1(6) in simp_all)
  note e2 = staged_simps [OF u2(2)]
  have "\<exists>u3. is_disconnected (hd_parent x) u2 = Inr (None, u3) \<and> staged u2 u3"
  proof (cases "?m (hd_parent x)")
    case None
    then have "Stage_hash (hd_parent x) u2 = Inr (None, u2)"
      by (intro Stage_hash_None) (simp add: e2 s1(2) parent(2))
    then show ?thesis by (simp add: is_disconnected_def)
  next
    case (Some p)
    then have p: "IsDisconnected p" using parent(1) by (auto simp: connected_in_def)
    obtain u3 where "Stage_hash (hd_parent x) u2 = Inr (Some (hd_parent x), u3)" "staged u2 u3"
      "Header (hd_parent x) u3 = Some p"
      by (rule Stage_hash_Some [of u2 "hd_parent x" p]) (use Some parent(2) k1 e2 s1(2) in simp_all)
    with p show ?thesis by (intro exI [of _ u3]) (simp add: is_disconnected_def)
  qed
  then obtain u3 where u3: "is_disconnected (hd_parent x) u2 = Inr (None, u3)" "staged u2 u3" by blast
  have s13: "staged u1 u3" using u2(2) u3(2) by (rule staged_trans)
  note e3 = staged_simps [OF s13]
  have H3: "Header ?h u3 = Some x" by (rule staged_Header [OF s13 s1(3)])
  let ?u = "DisconnectBlock x (modify_header ?h SetDisconnectedState u3)"
  have "add_header env x (UpdateTransaction db) = Inr (True, ?u)"
    using new s1(1) u2(1) u3(1) by (simp add: add_header_def EffectiveHeaderExists_def HeaderExists_def)
  moreover have "waits db x ?u"
    unfolding waits_def
    using view_modify_header [OF H3, of SetDisconnectedState] f1 e3 s1(2,5)
    by (simp add: oset_put_def)
  ultimately show ?thesis by blast
qed

lemma waiting_connected:
  assumes "m (hd_hash x) = None"
  defines "m' \<equiv> m(hd_hash x \<mapsto> SetDisconnectedState x)"
  shows "connected_in m' k = connected_in m k" "leaf m' k = leaf m k"
    "m' j = Some y \<and> \<not> IsDisconnected y \<longleftrightarrow> m j = Some y \<and> \<not> IsDisconnected y"
proof -
  have c: "m' j = Some y \<and> \<not> IsDisconnected y \<longleftrightarrow> m j = Some y \<and> \<not> IsDisconnected y" for j y
    using assms(1) by (auto simp: m'_def)
  show "m' j = Some y \<and> \<not> IsDisconnected y \<longleftrightarrow> m j = Some y \<and> \<not> IsDisconnected y" by (rule c)
  show con: "connected_in m' k = connected_in m k" for k unfolding connected_in_def c ..
  show "leaf m' k = leaf m k" unfolding leaf_def con by (metis c)
qed

lemma updated_waits:
  assumes inv: "chain_inv env db" and new: "db_headers db (hd_hash x) = None"
    and parent: "\<not> connected_in (db_headers db) (hd_parent x)"
    and x: "hd_hash x \<noteq> null_hash" "0 < hd_work x" "hd_work x \<in> \<int>" "hd_inherit_work x \<in> \<int>"
    and u: "waits db x u"
  shows "\<exists>db1. updated_tables u db = Some db1 \<and> chain_inv env db1 \<and>
    db_headers db1 = (db_headers db)(hd_hash x \<mapsto> SetDisconnectedState x) \<and>
    db_checkpoint db1 = db_checkpoint db \<and> best_position db1 = best_position db \<and>
    set (db_disconnected db1) = insert (hd_parent x, hd_hash x) (set (db_disconnected db))"
proof -
  let ?m = "db_headers db" and ?x = "SetDisconnectedState x" and ?cp = "CurrentCheckpoint db"
  let ?m' = "?m(hd_hash x \<mapsto> ?x)"
  from inv obtain t tip where I: "keyed ?m" "env_genesis env \<noteq> null_hash" "rooted (env_genesis env) ?m"
    "tree (env_add env) ?cp (env_genesis env) ?m" "waiting ?m (db_disconnected db)" "db_tip db = Some t"
    "best_path (env_genesis env) ?m (db_best db) t" "map_of (db_best db) t = Some (hd_hash tip)"
    "?m (hd_hash tip) = Some tip" "\<not> IsDisconnected tip" "hd_height tip = t" "heaviest (env_add env) ?m tip"
    "siblings_ok ?cp ?m (hd_hash tip) (set (db_siblings db))" "best_position db = (t, hd_hash tip)"
    by (rule chain_invE)
  note W = u [unfolded waits_def]
  have iw: "hd_inherit_work ?x \<in> \<int>" using x(4) by (simp add: SetDisconnectedState_def)
  have K: "keyed ?m'" using I(1) x iw by (auto simp: keyed_def)
  note C = waiting_connected [of ?m x, OF new]
  obtain db1 where D: "updated_tables u db = Some db1" "db_headers db1 = view u"
    "db_checkpoint db1 = db_checkpoint db" "distinct (db_disconnected db1)"
    "set (db_disconnected db1) = (set (db_disconnected db) \<union> set (ut_disconnected u)) - set (ut_connect u)"
    "set (db_siblings db1) = (set (db_siblings db) \<union> set (ut_add_sib u)) - set (ut_delete_sib u)"
    "db_tip db1 = (if ut_best u = [] then db_tip db else Some (fst (last (ut_best u))))"
    "ordered (db_best db1)"
    "\<And>k. map_of (db_best db1) k =
       (case map_of (rev (ut_best u)) k of Some h \<Rightarrow> Some h
        | None \<Rightarrow> if ut_have_reorg u \<and> fst (ut_reorg_from u) < k \<and> k \<le> fst (best_position db) then None
                  else map_of (db_best db) k)"
  proof (rule updated_tables_ok [of u db])
    show "distinct (db_disconnected db)" using I(5) by (simp add: waiting_def)
    show "ordered (db_best db)" using I(7) by (simp add: best_path_def)
    show "hd_work y \<in> \<int> \<and> hd_inherit_work y \<in> \<int>" if "view u h = Some y" for h y
      using that W keyedD [OF K, of h y] by simp
  qed (use W in auto)
  have dm: "db_headers db1 = ?m'" using D(2) W by simp
  have cp: "CurrentCheckpoint db1 = ?cp" using D(3) by (simp add: CurrentCheckpoint_def)
  have ds: "set (db_disconnected db1) = insert (hd_parent x, hd_hash x) (set (db_disconnected db))"
    using D(5) W by auto
  have rooted: "rooted (env_genesis env) ?m'" using I(3) new by (auto simp: rooted_def)
  have tree: "tree (env_add env) ?cp (env_genesis env) ?m'"
    using I(4) unfolding tree_def by (metis C(3))
  have wait: "waiting ?m' (db_disconnected db1)"
    unfolding waiting_def ds C(1)
  proof (intro conjI allI impI)
    show "insert (hd_parent x, hd_hash x) (set (db_disconnected db)) =
      {(hd_parent z, h) | h z. ?m' h = Some z \<and> IsDisconnected z}"
    proof (intro set_eqI)
      fix q :: "hash \<times> hash"
      obtain a b where q: "q = (a, b)" by (cases q)
      have "(a, b) \<in> set (db_disconnected db) \<longleftrightarrow> (\<exists>z. ?m b = Some z \<and> a = hd_parent z \<and> IsDisconnected z)"
        using I(5) unfolding waiting_def by auto
      then show "q \<in> insert (hd_parent x, hd_hash x) (set (db_disconnected db)) \<longleftrightarrow>
          q \<in> {(hd_parent z, h) | h z. ?m' h = Some z \<and> IsDisconnected z}"
        unfolding q using new by auto
    qed
  next
    fix p h assume "(p, h) \<in> insert (hd_parent x, hd_hash x) (set (db_disconnected db))"
    then show "\<not> connected_in ?m p" using parent I(5) unfolding waiting_def by blast
  qed (rule D(4))
  have best: "map_of (db_best db1) = map_of (db_best db)" using D(9) W by (auto simp: fun_eq_iff)
  have bp: "best_path (env_genesis env) ?m' (db_best db1) t"
    by (rule best_path_mono [OF I(7) D(8) best]) (use C(3) in blast)
  have hv: "heaviest (env_add env) ?m' tip"
    using I(12) new unfolding heaviest_def C(2)
    by (auto simp: leaf_def connected_in_def split: if_splits)
  have so: "siblings_ok ?cp ?m' (hd_hash tip) (set (db_siblings db1))"
    using I(13) D(6) W unfolding siblings_ok_def C(1,2) by simp
  have tip1: "db_tip db1 = Some t" using D(7) I(6) W by simp
  have at: "map_of (db_best db1) t = Some (hd_hash tip)" "?m' (hd_hash tip) = Some tip"
    using best I(8,9) new by auto
  have "chain_inv env db1"
    by (rule chain_invI [where tip = tip, OF _ I(2) _ _ _ tip1 _ at(1)])
      (simp_all only: dm cp K rooted tree wait bp hv so at)
  moreover have "best_position db1 = best_position db"
    using I(14) tip1 at by (simp add: best_position_def)
  ultimately show ?thesis using D(1,3) dm ds by blast
qed

subsection \<open>Unknown hashes\<close>

definition unknown_ok :: "(hash \<times> height) list \<Rightarrow> (height \<times> hash list) list \<Rightarrow> bool" where
  "unknown_ok index m \<longleftrightarrow>
     ordered index \<and> ordered m \<and>
     (\<forall>h k. map_of index h = Some k \<longrightarrow> (\<exists>s. map_of m k = Some s \<and> h \<in> set s))"

lemma ordered_member: "ordered m \<Longrightarrow> (k, v) \<in> set m \<longleftrightarrow> map_of m k = Some v"
  by (simp add: ordered_def strict_sorted_iff)

lemma unknown_ok_AddUnknownHash:
  assumes "unknown_ok (ho_index s) (ho_unknown s)"
  shows "unknown_ok (ho_index (AddUnknownHash h s)) (ho_unknown (AddUnknownHash h s))"
proof -
  let ?b = "fst (ho_tip s)"
  have o: "ordered (ho_index s)" "ordered (ho_unknown s)"
    "\<And>h k. map_of (ho_index s) h = Some k \<Longrightarrow> \<exists>b. map_of (ho_unknown s) k = Some b \<and> h \<in> set b"
    using assms by (auto simp: unknown_ok_def)
  have "\<exists>b. map_of (ho_unknown (AddUnknownHash h s)) k = Some b \<and> i \<in> set b"
    if "map_of (ho_index (AddUnknownHash h s)) i = Some k" for i k
  proof (cases "i = h")
    case True
    with that o(1,2) show ?thesis by (simp add: AddUnknownHash_def Let_def)
  next
    case False
    with that o(1) have "map_of (ho_index s) i = Some k" by (simp add: AddUnknownHash_def Let_def)
    from o(3) [OF this] o(2) show ?thesis by (auto simp: AddUnknownHash_def Let_def)
  qed
  with o show ?thesis by (simp add: unknown_ok_def AddUnknownHash_def Let_def)
qed

lemma prune_known_ok:
  assumes "distinct (map fst ps)" "ordered index" "ordered m"
    "\<forall>(h, k) \<in> set ps. \<exists>s. map_of m k = Some s \<and> h \<in> set s"
    "\<forall>h k. map_of index h = Some k \<longrightarrow> (\<exists>s. map_of m k = Some s \<and> h \<in> set s)"
  shows "\<exists>index' m'. prune_known db ps (index, m) = Inr (index', m') \<and> unknown_ok index' m'"
  using assms
proof (induction ps arbitrary: index m)
  case Nil
  then show ?case by (simp add: unknown_ok_def)
next
  case (Cons q ps)
  obtain h k where q: "q = (h, k)" by (cases q)
  show ?case
  proof (cases "HeaderExists h db")
    case False
    with Cons q show ?thesis by simp
  next
    case True
    from Cons.prems(4) q obtain s where s: "map_of m k = Some s" "h \<in> set s" by auto
    let ?s = "oset_del h s"
    let ?m = "if ?s = [] then omap_del k m else omap_put k ?s m"
    have bucket: "\<exists>s'. map_of ?m j = Some s' \<and> i \<in> set s'"
      if "\<exists>s'. map_of m j = Some s' \<and> i \<in> set s'" "i \<noteq> h" for i j
    proof -
      from that(1) obtain s' where s': "map_of m j = Some s'" "i \<in> set s'" by blast
      show ?thesis
      proof (cases "j = k")
        case True
        with s s' that(2) have "i \<in> set ?s" by simp
        moreover from this have "?s \<noteq> []" by (metis empty_iff empty_set)
        ultimately show ?thesis using True Cons.prems(3) by simp
      qed (use s' Cons.prems(3) in auto)
    qed
    have "\<exists>index' m'. prune_known db ps (omap_del h index, ?m) = Inr (index', m') \<and> unknown_ok index' m'"
    proof (rule Cons.IH)
      show "\<forall>(i, j) \<in> set ps. \<exists>s. map_of ?m j = Some s \<and> i \<in> set s"
      proof (intro ballI, clarify)
        fix i j assume ij: "(i, j) \<in> set ps"
        then have "i \<noteq> h" using Cons.prems(1) q by force
        with bucket [of j i] Cons.prems(4) ij show "\<exists>s. map_of ?m j = Some s \<and> i \<in> set s" by auto
      qed
      show "\<forall>i j. map_of (omap_del h index) i = Some j \<longrightarrow> (\<exists>s. map_of ?m j = Some s \<and> i \<in> set s)"
      proof (intro allI impI)
        fix i j assume "map_of (omap_del h index) i = Some j"
        then have "i \<noteq> h" "map_of index i = Some j" by (simp_all split: if_splits)
        with Cons.prems(5) show "\<exists>s. map_of ?m j = Some s \<and> i \<in> set s" by (intro bucket) blast+
      qed
    qed (use Cons.prems in auto)
    with True q s show ?thesis by (simp add: Let_def)
  qed
qed

lemma prune_known_all:
  assumes "unknown_ok index m"
  shows "\<exists>index' m'. prune_known db index (index, m) = Inr (index', m') \<and> unknown_ok index' m'"
proof -
  have o: "ordered index" "ordered m"
    "\<forall>h k. map_of index h = Some k \<longrightarrow> (\<exists>b. map_of m k = Some b \<and> h \<in> set b)"
    using assms by (auto simp: unknown_ok_def)
  have "distinct (map fst index)" using o(1) by (simp add: ordered_def strict_sorted_iff)
  moreover have "\<forall>(h, k) \<in> set index. \<exists>b. map_of m k = Some b \<and> h \<in> set b"
    using o(3) ordered_member [OF o(1)] by auto
  ultimately show ?thesis by (rule prune_known_ok [OF _ o(1,2) _ o(3)])
qed

lemma map_of_fold_omap_del: "map_of (fold omap_del gone m) k = (if k \<in> set gone then None else map_of m k)"
  by (induction gone arbitrary: m) auto

lemma ordered_fold_omap_del: "ordered m \<Longrightarrow> ordered (fold omap_del gone m)"
  by (induction gone arbitrary: m) auto

lemma map_of_filter_keys: "map_of (filter (\<lambda>(k, _). P k) m) k = (if P k then map_of m k else None)"
  by (induction m) auto

lemma prune_unknown_ok:
  assumes "unknown_ok (ho_index s) (ho_unknown s)"
  shows "unknown_ok (ho_index (prune_unknown s)) (ho_unknown (prune_unknown s))"
proof -
  define target where "target = fst (ho_tip s) + 2"
  define gone where "gone = concat (map snd (filter (\<lambda>(k, _). k \<le> target) (ho_unknown s)))"
  have eq: "ho_index (prune_unknown s) = fold omap_del gone (ho_index s)"
    "ho_unknown (prune_unknown s) = filter (\<lambda>(k, _). \<not> k \<le> target) (ho_unknown s)"
    by (simp_all add: prune_unknown_def Let_def gone_def target_def)
  have "\<exists>b. map_of (ho_unknown (prune_unknown s)) k = Some b \<and> h \<in> set b"
    if "map_of (ho_index (prune_unknown s)) h = Some k" for h k
  proof -
    have h: "h \<notin> set gone" "map_of (ho_index s) h = Some k"
      using that unfolding eq map_of_fold_omap_del by (auto split: if_splits)
    then obtain b where b: "map_of (ho_unknown s) k = Some b" "h \<in> set b"
      using assms by (auto simp: unknown_ok_def)
    have "\<not> k \<le> target"
    proof
      assume "k \<le> target"
      with b have "h \<in> set gone" by (force simp: gone_def dest: map_of_SomeD)
      with h(1) show False by simp
    qed
    with b show ?thesis unfolding eq map_of_filter_keys by simp
  qed
  with assms show ?thesis
    by (simp add: unknown_ok_def eq ordered_fold_omap_del)
qed

lemma prune_unknown_simps [simp]:
  "ho_db (prune_unknown s) = ho_db s" "ho_tip (prune_unknown s) = ho_tip s"
  "ho_have_job (prune_unknown s) = ho_have_job s" "ho_signals (prune_unknown s) = ho_signals s"
  "ho_peer_height (prune_unknown s) = ho_peer_height s" "ho_remote (prune_unknown s) = ho_remote s"
  by (simp_all add: prune_unknown_def Let_def)

lemma PruneKnownHashes_ok:
  assumes "unknown_ok (ho_index s) (ho_unknown s)"
  shows "\<exists>s'. PruneKnownHashes env s = Inr s' \<and> unknown_ok (ho_index s') (ho_unknown s') \<and>
    ho_db s' = ho_db s \<and> ho_tip s' = ho_tip s \<and> ho_have_job s' = ho_have_job s \<and>
    ho_signals s' = ho_signals s \<and> ho_peer_height s' = ho_peer_height s"
proof -
  obtain index m where p: "prune_known (ho_db s) (ho_index s) (ho_index s, ho_unknown s) = Inr (index, m)"
    "unknown_ok index m" using prune_known_all [OF assms] by blast
  let ?s = "s\<lparr>ho_index := index, ho_unknown := m\<rparr>"
  have "unknown_ok (ho_index (prune_unknown ?s)) (ho_unknown (prune_unknown ?s))"
    by (rule prune_unknown_ok) (use p(2) in simp)
  moreover from this have "unknown_ok [] (ho_unknown (prune_unknown ?s))"
    by (simp add: unknown_ok_def)
  ultimately show ?thesis using p(1) by (simp add: PruneKnownHashes_def Let_def)
qed

subsection \<open>Applying an update\<close>

definition oracle_inv :: "oracle_env \<Rightarrow> header_oracle \<Rightarrow> bool" where
  "oracle_inv env s \<longleftrightarrow>
     chain_inv env (ho_db s) \<and> ho_tip s = best_position (ho_db s) \<and> unknown_ok (ho_index s) (ho_unknown s)"

text \<open>Writes to the two databases succeed.\<close>

definition storage_works :: "oracle_env \<Rightarrow> bool" where
  "storage_works env \<longleftrightarrow> env_store_ok env \<and> env_txn_ok env"

lemma best_position_last_update [simp]: "best_position (db\<lparr>db_last_update := l\<rparr>) = best_position db"
  by (simp add: best_position_def cong: option.case_cong)

lemma apply_update_ok:
  assumes "oracle_inv env s" "storage_works env" "updated_tables u (ho_db s) = Some db1" "chain_inv env db1"
  shows "\<exists>s' l. apply_update env u s = Inr (True, s') \<and> oracle_inv env s' \<and>
    ho_db s' = db1\<lparr>db_last_update := l\<rparr> \<and> ho_tip s' = best_position db1"
proof -
  obtain l signals where A: "ApplyUpdate True True u (ho_db s) = (True, db1\<lparr>db_last_update := l\<rparr>, signals)"
    using ApplyUpdate_ok [OF assms(3)] by blast
  let ?db = "db1\<lparr>db_last_update := l\<rparr>"
  from assms(4) obtain t tip where tip: "db_headers db1 (hd_hash tip) = Some tip" "hd_height tip = t"
    "best_position db1 = (t, hd_hash tip)" by (rule chain_invE)
  have best: "CurrentBest ?db = Inr tip"
    using tip by (simp add: CurrentBest_def LoadHeader_def)
  let ?s = "s\<lparr>ho_db := ?db, ho_signals := ho_signals s @ signals, ho_tip := Position tip\<rparr>"
  have "unknown_ok (ho_index ?s) (ho_unknown ?s)" using assms(1) by (simp add: oracle_inv_def)
  then obtain s' where s': "PruneKnownHashes env ?s = Inr s'" "unknown_ok (ho_index s') (ho_unknown s')"
    "ho_db s' = ?db" "ho_tip s' = Position tip" using PruneKnownHashes_ok [of ?s env] by auto
  have A': "ApplyUpdate (env_store_ok env) (env_txn_ok env) u (ho_db s) = (True, ?db, signals)"
    using A assms(2) by (simp add: storage_works_def)
  let ?s' = "if ho_tip s \<noteq> ho_tip s' then s'\<lparr>ho_signals := ho_signals s' @ [StateMachineSignal]\<rparr> else s'"
  have "apply_update env u s = Inr (True, ?s')"
    using best s'(1) by (simp add: apply_update_def A')
  moreover have "oracle_inv env ?s'" "ho_db ?s' = ?db" "ho_tip ?s' = best_position db1"
    using s' assms(4) tip by (auto simp: oracle_inv_def Position_def)
  ultimately show ?thesis by blast
qed

end
