(* ===== verification/Header_Receive.thy ===== *)
theory Header_Receive
  imports Header_Invariant
begin

text \<open>
  \<open>AddHeader\<close> on a state that satisfies the invariant of the oracle: it returns, keeps the
  invariant, stores the header and never replaces the tip by one of less work.
\<close>

subsection \<open>What is known of a header before it is connected\<close>

definition facts :: "header_map \<Rightarrow> hash \<Rightarrow> (hash \<times> work) option" where
  "facts m h = map_option (\<lambda>x. (hd_parent x, hd_work x)) (m h)"

lemma facts_None [simp]: "facts m h = None \<longleftrightarrow> m h = None"
  by (simp add: facts_def)

lemma dom_facts [simp]: "dom (facts m) = dom m"
  by (auto simp: dom_def)

lemma facts_Some: "facts m h = Some (p, w) \<longleftrightarrow> (\<exists>x. m h = Some x \<and> hd_parent x = p \<and> hd_work x = w)"
  by (auto simp: facts_def)

lemma total_work_facts: "total_work m = (\<Sum>h \<in> dom m. snd (the (facts m h)))"
  unfolding total_work_def by (rule sum.cong) (auto simp: facts_def)

lemma total_work_insert:
  assumes "facts m' = (facts m)(h \<mapsto> (p, w))" "m h = None" "finite (dom m)"
  shows "total_work m' = total_work m + w"
proof -
  have d: "dom m' = insert h (dom m)" using arg_cong [OF assms(1), of dom] by simp
  have "h \<notin> dom m" using assms(2) by auto
  moreover have "(\<Sum>k \<in> dom m. snd (the (facts m' k))) = (\<Sum>k \<in> dom m. snd (the (facts m k)))"
    by (rule sum.cong) (use assms(1,2) in auto)
  ultimately show ?thesis using assms(1,3) by (simp add: total_work_facts d add.commute)
qed

lemma facts_waiting: "facts (m(hd_hash x \<mapsto> SetDisconnectedState x)) = (facts m)(hd_hash x \<mapsto> (hd_parent x, hd_work x))"
  by (auto simp: facts_def fun_eq_iff)

lemma stack_facts:
  "stack add cp m p ys \<Longrightarrow> y \<in> set ys \<Longrightarrow> facts m (hd_hash y) = Some (hd_parent y, hd_work y)"
proof (induction ys arbitrary: p)
  case (Cons z ys)
  show ?case
  proof (cases "y \<in> set ys")
    case True
    moreover have "stack add cp m z ys" using Cons.prems by simp
    ultimately show ?thesis by (metis Cons.IH)
  next
    case False
    with Cons.prems obtain v where v: "m (hd_hash y) = Some v" "y = under_parent add cp p v" by auto
    have "hd_parent y = hd_parent v" "hd_work y = hd_work v"
      using arg_cong [OF v(2), of hd_parent] arg_cong [OF v(2), of hd_work] by simp_all
    with v(1) show ?thesis by (simp add: facts_def)
  qed
qed simp

lemma facts_extend:
  assumes "grows env db x p x' ys d'"
  shows "facts (extend_map (db_headers db) x' ys) = (facts (db_headers db))(hd_hash x \<mapsto> (hd_parent x, hd_work x))"
proof
  fix k
  note G = growsD [OF assms]
  note N = new_headers [OF G(1-6)]
  let ?m = "db_headers db" and ?m' = "extend_map (db_headers db) x' ys"
  note eq = extend_map_eq [OF N(5,6), of ?m]
  have x': "hd_hash x' = hd_hash x" "hd_parent x' = hd_parent x" "hd_work x' = hd_work x"
    by (simp_all add: G(5))
  consider "k = hd_hash x" | y where "y \<in> set ys" "k = hd_hash y" | "k \<notin> hd_hash ` set (x' # ys)"
    using x' by auto
  then show "facts ?m' k = ((facts ?m)(hd_hash x \<mapsto> (hd_parent x, hd_work x))) k"
  proof cases
    case 1
    then have "?m' k = Some x'" using N(11) [of x'] x' by simp
    with 1 x' show ?thesis by (simp add: facts_def)
  next
    case 2
    then have "?m' k = Some y" using N(11) [of y] by simp
    moreover have "k \<noteq> hd_hash x" using 2 N(6) x' by (metis imageI)
    ultimately show ?thesis using stack_facts [OF N(1) 2(1)] 2(2) by (auto simp: facts_def)
  next
    case 3
    then have "\<forall>y. ?m' k = Some y \<longleftrightarrow> ?m k = Some y" unfolding eq by blast
    then have "?m' k = ?m k" by (metis not_Some_eq)
    with 3 x' show ?thesis by (auto simp: facts_def)
  qed
qed

subsection \<open>Bounds for the loops\<close>

lemma height_path:
  assumes "keyed m" "rooted g m" "tree add cp g m" "m h = Some x" "\<not> IsDisconnected x"
  shows "\<exists>a. a \<subseteq> dom m \<and> finite a \<and> (\<forall>j \<in> a. hd_height (the (m j)) \<le> hd_height x) \<and>
           int (card a) = hd_height x + 1"
  using assms
proof (induction rule: tree_induct)
  case (genesis x)
  then show ?case using assms(2) by (intro exI [of _ "{g}"]) (auto simp: rooted_def)
next
  case (child h x p)
  then obtain a where a: "a \<subseteq> dom m" "finite a" "\<forall>j \<in> a. hd_height (the (m j)) \<le> hd_height p"
    "int (card a) = hd_height p + 1" by blast
  have "h \<notin> a" using a(3) child.hyps by auto
  with a child.hyps show ?case by (intro exI [of _ "insert h a"]) auto
qed

lemma height_bound:
  assumes "keyed m" "rooted g m" "tree add cp g m" "m h = Some x" "\<not> IsDisconnected x"
  shows "nat (hd_height x) < card (dom m)"
proof -
  obtain a where a: "a \<subseteq> dom m" "int (card a) = hd_height x + 1" using height_path [OF assms] by blast
  have "finite (dom m)" using assms(1) by (simp add: keyed_def)
  from card_mono [OF this a(1)] a(2) height_nonneg [OF assms] show ?thesis by linarith
qed

lemma waiting_bound:
  assumes "keyed m" "rooted g m" "waiting m d"
  shows "length d < card (dom m)"
proof -
  have d: "distinct d" "set d = {(hd_parent x, h) | h x. m h = Some x \<and> IsDisconnected x}"
    using assms(3) by (auto simp: waiting_def)
  have inj: "inj_on snd (set d)" unfolding d by (auto simp: inj_on_def)
  obtain r where r: "m g = Some r" "\<not> IsDisconnected r"
    using assms(2) by (auto simp: rooted_def IsDisconnected_def)
  then have "snd ` set d \<subseteq> dom m - {g}" unfolding d by auto
  moreover have fin: "finite (dom m)" using assms(1) by (simp add: keyed_def)
  ultimately have "card (set d) \<le> card (dom m - {g})"
    using card_inj_on_le [OF inj] by blast
  also have "\<dots> < card (dom m)" using r fin by (intro psubset_card_mono) auto
  finally show ?thesis using distinct_card [OF d(1)] by simp
qed

subsection \<open>Receiving a header\<close>

text \<open>
  What the theorems ask of a header that is not known yet: its hash is not that of its parent, it has
  positive integral work, the work of all headers together stays within the precision of the work
  type, and the loops have fuel for the number of headers. No two of the waiting headers have the same parent.
\<close>

definition acceptable :: "oracle_env \<Rightarrow> header_oracle \<Rightarrow> header \<Rightarrow> bool" where
  "acceptable env s x \<longleftrightarrow>
     hd_hash x \<noteq> null_hash \<and> hd_parent x \<noteq> hd_hash x \<and> 0 < hd_work x \<and> hd_work x \<in> \<int> \<and>
     hd_inherit_work x \<in> \<int> \<and>
     total_work (db_headers (ho_db s)) + hd_work x \<le> 2 ^ 53 \<and>
     only_children (set (db_disconnected (ho_db s))) \<and>
     card (dom (db_headers (ho_db s))) \<le> env_fuel env"

definition tip_of :: "header_oracle \<Rightarrow> header" where
  "tip_of s = the (db_headers (ho_db s) (snd (ho_tip s)))"

text \<open>The state after a header was received.\<close>

definition received :: "oracle_env \<Rightarrow> header_oracle \<Rightarrow> header \<Rightarrow> header_oracle \<Rightarrow> bool" where
  "received env s x s' \<longleftrightarrow>
     oracle_inv env s' \<and> CurrentCheckpoint (ho_db s') = CurrentCheckpoint (ho_db s) \<and>
     facts (db_headers (ho_db s')) =
       (if db_headers (ho_db s) (hd_hash x) = None
        then (facts (db_headers (ho_db s)))(hd_hash x \<mapsto> (hd_parent x, hd_work x))
        else facts (db_headers (ho_db s))) \<and>
     set (db_disconnected (ho_db s')) \<subseteq> insert (hd_parent x, hd_hash x) (set (db_disconnected (ho_db s))) \<and>
     (ho_tip s' = ho_tip s \<or> Work (env_add env) (tip_of s) < Work (env_add env) (tip_of s'))"

lemma received_known:
  assumes "oracle_inv env s" "storage_works env" "db_headers (ho_db s) (hd_hash x) \<noteq> None"
  shows "\<exists>s'. AddHeader env (Some x) s = Inr (True, s') \<and> received env s x s'"
proof -
  let ?db = "ho_db s" and ?u = "UpdateTransaction (ho_db s)"
  have inv: "chain_inv env ?db" using assms(1) by (simp add: oracle_inv_def)
  then obtain t where I: "keyed (db_headers ?db)" "waiting (db_headers ?db) (db_disconnected ?db)"
    "best_path (env_genesis env) (db_headers ?db) (db_best ?db) t" by (rule chain_invE)
  have v: "store_headers (ut_headers ?u) (db_headers ?db) = db_headers ?db"
    by (simp add: store_headers_def fun_eq_iff)
  have "updated_tables ?u ?db = Some ?db" using v by (simp add: updated_tables_def Let_def)
  from apply_update_ok [OF assms(1,2) this inv] obtain s' l where s': "apply_update env ?u s = Inr (True, s')"
    "oracle_inv env s'" "ho_db s' = ?db\<lparr>db_last_update := l\<rparr>" "ho_tip s' = best_position ?db" by blast
  have "AddHeader env (Some x) s = Inr (True, s')"
    using add_header_known [OF assms(3)] s'(1) by (simp add: AddHeader_def AddHeaders_def)
  moreover have "ho_tip s' = ho_tip s" using s'(4) assms(1) by (simp add: oracle_inv_def)
  then have "received env s x s'"
    using s' assms(3) by (auto simp: received_def CurrentCheckpoint_def)
  ultimately show ?thesis by blast
qed

lemma received_waiting:
  assumes "oracle_inv env s" "storage_works env" "acceptable env s x" "db_headers (ho_db s) (hd_hash x) = None"
    "\<not> connected_in (db_headers (ho_db s)) (hd_parent x)"
  shows "\<exists>s'. AddHeader env (Some x) s = Inr (True, s') \<and> received env s x s'"
proof -
  let ?db = "ho_db s"
  have inv: "chain_inv env ?db" using assms(1) by (simp add: oracle_inv_def)
  note A = assms(3) [unfolded acceptable_def]
  obtain u where u: "add_header env x (UpdateTransaction ?db) = Inr (True, u)" "waits ?db x u"
    using add_header_waits [OF inv assms(4,5)] A by blast
  obtain db1 where db1: "updated_tables u ?db = Some db1" "chain_inv env db1"
    "db_headers db1 = (db_headers ?db)(hd_hash x \<mapsto> SetDisconnectedState x)"
    "db_checkpoint db1 = db_checkpoint ?db" "best_position db1 = best_position ?db"
    "set (db_disconnected db1) = insert (hd_parent x, hd_hash x) (set (db_disconnected ?db))"
    using updated_waits [OF inv assms(4,5) _ _ _ _ u(2)] A by blast
  from apply_update_ok [OF assms(1,2) db1(1,2)] obtain s' l where s': "apply_update env u s = Inr (True, s')"
    "oracle_inv env s'" "ho_db s' = db1\<lparr>db_last_update := l\<rparr>" "ho_tip s' = best_position db1" by blast
  have "AddHeader env (Some x) s = Inr (True, s')"
    using u(1) s'(1) by (simp add: AddHeader_def AddHeaders_def)
  moreover have "ho_tip s' = ho_tip s" using s'(4) db1(5) assms(1) by (simp add: oracle_inv_def)
  then have "received env s x s'"
    using s' db1 assms(4) by (auto simp: received_def CurrentCheckpoint_def facts_waiting)
  ultimately show ?thesis by blast
qed

lemma received_connected:
  assumes "oracle_inv env s" "storage_works env" "acceptable env s x" "db_headers (ho_db s) (hd_hash x) = None"
    "connected_in (db_headers (ho_db s)) (hd_parent x)" "exact_sums (env_add env)"
  shows "\<exists>s'. AddHeader env (Some x) s = Inr (True, s') \<and> received env s x s'"
proof -
  let ?db = "ho_db s"
  have inv: "chain_inv env ?db" using assms(1) by (simp add: oracle_inv_def)
  note A = assms(3) [unfolded acceptable_def]
  from assms(5) obtain p where p: "db_headers ?db (hd_parent x) = Some p" "\<not> IsDisconnected p"
    by (auto simp: connected_in_def)
  from inv obtain t tip where I: "keyed (db_headers ?db)" "rooted (env_genesis env) (db_headers ?db)"
    "tree (env_add env) (CurrentCheckpoint ?db) (env_genesis env) (db_headers ?db)"
    "waiting (db_headers ?db) (db_disconnected ?db)"
    "db_headers ?db (hd_hash tip) = Some tip" "best_position ?db = (t, hd_hash tip)" "\<not> IsDisconnected tip"
    by (rule chain_invE)
  have tip: "db_headers ?db (snd (best_position ?db)) = Some tip" using I by simp
  have fuel: "nat (hd_height p) < env_fuel env" "length (db_disconnected ?db) < env_fuel env"
    using height_bound [OF I(1-3) p] waiting_bound [OF I(1,2,4)] A by auto
  define x' where "x' = under_parent (env_add env) (CurrentCheckpoint ?db) p x"
  obtain ys pos path d' u where u: "add_header env x (UpdateTransaction ?db) = Inr (True, u)"
    "connects env ?db p x' ys pos path d' u" "outcome_of env ?db tip x' ys pos path u"
    using add_header_connected [OF inv assms(4) p _ fuel _ tip] A unfolding x'_def by blast
  have gr: "grows env ?db x p x' ys d'"
    using u(2) inv assms(4,6) A p by (simp add: grows_def connects_def x'_def)
  obtain db1 where db1: "updated_tables u ?db = Some db1" "grown env ?db tip x' ys db1"
    using updated_connected [OF gr u(2,3) tip] by blast
  define new where "new = last (x' # ys)"
  from db1(2) have g: "chain_inv env db1" "db_headers db1 = extend_map (db_headers ?db) x' ys"
    "db_checkpoint db1 = db_checkpoint ?db" "set (db_disconnected db1) \<subseteq> set (db_disconnected ?db)"
    "best_position db1 = (if \<not> IsBlacklisted new \<and> Work (env_add env) tip < Work (env_add env) new
           then Position new else best_position ?db)"
    unfolding grown_def Let_def new_def by blast+
  from apply_update_ok [OF assms(1,2) db1(1) g(1)] obtain s' l where s': "apply_update env u s = Inr (True, s')"
    "oracle_inv env s'" "ho_db s' = db1\<lparr>db_last_update := l\<rparr>" "ho_tip s' = best_position db1" by blast
  have "AddHeader env (Some x) s = Inr (True, s')"
    using u(1) s'(1) by (simp add: AddHeader_def AddHeaders_def)
  moreover have t: "ho_tip s = best_position ?db" using assms(1) by (simp add: oracle_inv_def)
  have "ho_tip s' = ho_tip s \<or> Work (env_add env) (tip_of s) < Work (env_add env) (tip_of s')"
  proof (cases "\<not> IsBlacklisted new \<and> Work (env_add env) tip < Work (env_add env) new")
    case True
    have "new \<in> set (x' # ys)" unfolding new_def by (metis last_in_set list.distinct(1))
    then have "db_headers db1 (hd_hash new) = Some new"
      using new_headers(11) [OF growsD(1-6) [OF gr]] g(2) by simp
    moreover have "snd (ho_tip s') = hd_hash new"
      using True s'(4) g(5) by (simp add: Position_def)
    ultimately show ?thesis using True s'(3) t tip by (simp add: tip_of_def)
  next
    case False
    with s'(4) g(5) t show ?thesis by simp
  qed
  then have "received env s x s'"
    using s' g assms(4) facts_extend [OF gr] by (auto simp: received_def CurrentCheckpoint_def)
  ultimately show ?thesis by blast
qed

text \<open>The three cases together.\<close>

lemma AddHeader_received:
  assumes "oracle_inv env s" "storage_works env" "exact_sums (env_add env)"
    "db_headers (ho_db s) (hd_hash x) = None \<Longrightarrow> acceptable env s x"
  shows "\<exists>s'. AddHeader env (Some x) s = Inr (True, s') \<and> received env s x s'"
proof (cases "db_headers (ho_db s) (hd_hash x) = None")
  case True
  note A = assms(4) [OF True]
  show ?thesis
    using received_waiting [OF assms(1,2) A True] received_connected [OF assms(1,2) A True _ assms(3)] by blast
qed (rule received_known [OF assms(1,2)])

end
