(* ===== verification/Header_Convergence.thy ===== *)
theory Header_Convergence
  imports Header_Receive "HOL-Library.Multiset"
begin

text \<open>
  Two oracles that know the same headers agree: on what is connected, on heights, work and
  checkpoint states, and, where one header has the most work, on the best chain, in whatever order the headers arrived.
\<close>

lemma same_tree:
  assumes m1: "keyed m1" "rooted g m1" "tree add cp g m1" "m1 h = Some x" "\<not> IsDisconnected x"
    and m2: "keyed m2" "rooted g m2" "tree add cp g m2" "waiting m2 d2"
    and facts: "\<And>h v. facts m1 h = Some v \<Longrightarrow> facts m2 h = Some v"
  shows "\<exists>y. m2 h = Some y \<and> \<not> IsDisconnected y \<and> hd_parent y = hd_parent x \<and> hd_height y = hd_height x \<and>
    Work add y = Work add x \<and> EffectiveState y = EffectiveState x"
  using m1
proof (induction rule: tree_induct)
  case (genesis x)
  obtain y where y: "m2 g = Some y" "hd_height y = 0" "hd_parent y = null_hash" "EffectiveState y = StatusNormal"
    using m2(2) by (auto simp: rooted_def)
  have x: "hd_height x = 0" "hd_parent x = null_hash" "EffectiveState x = StatusNormal"
    using m1(2) genesis by (auto simp: rooted_def)
  have "hd_work y = hd_work x" using facts [of g] y(1) genesis by (simp add: facts_def)
  with x y show ?case by (simp add: IsDisconnected_def Work_def)
next
  case (child h x p)
  then obtain q where q: "m2 (hd_parent x) = Some q" "\<not> IsDisconnected q" "hd_height q = hd_height p"
    "Work add q = Work add p" "EffectiveState q = EffectiveState p" by blast
  obtain y where y: "m2 h = Some y" "hd_parent y = hd_parent x" "hd_work y = hd_work x"
    using facts child.hyps(1) by (metis facts_Some)
  have con: "\<not> IsDisconnected y"
  proof
    assume "IsDisconnected y"
    with y(1) have "(hd_parent y, h) \<in> set d2" using m2(4) unfolding waiting_def by blast
    then have "\<not> connected_in m2 (hd_parent y)" using m2(4) unfolding waiting_def by blast
    then have "\<not> connected_in m2 (hd_parent x)" unfolding y(2) .
    with q show False by (simp add: connected_in_def)
  qed
  from m2(3) y(1) con child.hyps(3) obtain q' where q': "m2 (hd_parent y) = Some q'"
    "y = under_parent add cp q' y" "Work add y = hd_work y + Work add q'" by (rule treeE)
  have e: "q' = q" using q' q y(2) by simp
  have hash: "hd_hash y = h" "hd_hash x = h"
    using keyedD(1) [OF m2(1) y(1)] keyedD(1) [OF m1(1) child.hyps(1)] by simp_all
  have sp: "EffectiveState p \<in> {StatusNormal, StatusCheckpointBanned}"
    by (rule connected_state [OF m1(1-3) child.hyps(4,5)])
  have "hd_height y = hd_height x"
    using arg_cong [OF q'(2), of hd_height] e q(3) child.hyps(7) by simp
  moreover have "EffectiveState y = EffectiveState x"
    using arg_cong [OF q'(2), of EffectiveState] arg_cong [OF child.hyps(6), of EffectiveState]
      EffectiveState_under_parent [of q add cp y] EffectiveState_under_parent [of p add cp x] sp q(3,5) e hash
    by simp
  moreover have "Work add y = Work add x" using q' e q(4) y(3) child.hyps(8) by simp
  ultimately show ?case using y con by blast
qed

text \<open>
  An oracle that knows more headers, and the same checkpoint, has what the other one has connected in the same place.
\<close>

definition knows_more :: "header_oracle \<Rightarrow> header_oracle \<Rightarrow> bool" where
  "knows_more s1 s2 \<longleftrightarrow>
     (\<forall>h v. facts (db_headers (ho_db s1)) h = Some v \<longrightarrow> facts (db_headers (ho_db s2)) h = Some v) \<and>
     CurrentCheckpoint (ho_db s1) = CurrentCheckpoint (ho_db s2)"

text \<open>Two oracles with the same headers.\<close>

definition same_headers :: "header_oracle \<Rightarrow> header_oracle \<Rightarrow> bool" where
  "same_headers s1 s2 \<longleftrightarrow>
     facts (db_headers (ho_db s1)) = facts (db_headers (ho_db s2)) \<and>
     CurrentCheckpoint (ho_db s1) = CurrentCheckpoint (ho_db s2)"

lemma same_headers_sym: "same_headers s1 s2 \<Longrightarrow> same_headers s2 s1"
  by (simp add: same_headers_def)

lemma same_headers_more: "same_headers s1 s2 \<Longrightarrow> knows_more s1 s2"
  by (simp add: same_headers_def knows_more_def)

lemma knows_more_tree:
  assumes "oracle_inv env s1" "oracle_inv env s2" "knows_more s1 s2"
    "db_headers (ho_db s1) h = Some x" "\<not> IsDisconnected x"
  shows "\<exists>y. db_headers (ho_db s2) h = Some y \<and> \<not> IsDisconnected y \<and> hd_parent y = hd_parent x \<and>
    hd_height y = hd_height x \<and> Work (env_add env) y = Work (env_add env) x \<and> EffectiveState y = EffectiveState x"
proof -
  have inv: "chain_inv env (ho_db s1)" "chain_inv env (ho_db s2)" using assms(1,2) by (simp_all add: oracle_inv_def)
  have e: "\<And>h v. facts (db_headers (ho_db s1)) h = Some v \<Longrightarrow> facts (db_headers (ho_db s2)) h = Some v"
    "CurrentCheckpoint (ho_db s1) = CurrentCheckpoint (ho_db s2)"
    using assms(3) unfolding knows_more_def by blast+
  from inv(1) obtain K: "keyed (db_headers (ho_db s1))" "rooted (env_genesis env) (db_headers (ho_db s1))"
    "tree (env_add env) (CurrentCheckpoint (ho_db s1)) (env_genesis env) (db_headers (ho_db s1))"
    by (rule chain_invE)
  from inv(2) obtain L: "keyed (db_headers (ho_db s2))" "rooted (env_genesis env) (db_headers (ho_db s2))"
    "tree (env_add env) (CurrentCheckpoint (ho_db s2)) (env_genesis env) (db_headers (ho_db s2))"
    "waiting (db_headers (ho_db s2)) (db_disconnected (ho_db s2))"
    by (rule chain_invE)
  show ?thesis by (rule same_tree [OF K assms(4,5) L(1,2) L(3) [folded e(2)] L(4) e(1)])
qed

lemmas same_headers_tree = knows_more_tree [OF _ _ same_headers_more]

lemma same_headers_connected:
  assumes "oracle_inv env s1" "oracle_inv env s2" "same_headers s1 s2"
  shows "connected_in (db_headers (ho_db s1)) h \<longleftrightarrow> connected_in (db_headers (ho_db s2)) h"
  unfolding connected_in_def
  using same_headers_tree [OF assms, of h] same_headers_tree [OF assms(2,1) same_headers_sym [OF assms(3)], of h]
  by blast

lemma same_headers_leaf:
  assumes "oracle_inv env s1" "oracle_inv env s2" "same_headers s1 s2" "leaf (db_headers (ho_db s1)) h"
  shows "leaf (db_headers (ho_db s2)) h"
  unfolding leaf_def
proof (intro conjI notI)
  show "connected_in (db_headers (ho_db s2)) h"
    using assms(4) same_headers_connected [OF assms(1-3)] by (simp add: leaf_def)
  assume "\<exists>c y. db_headers (ho_db s2) c = Some y \<and> \<not> IsDisconnected y \<and> hd_parent y = h"
  then obtain c y where y: "db_headers (ho_db s2) c = Some y" "\<not> IsDisconnected y" "hd_parent y = h" by blast
  from same_headers_tree [OF assms(2,1) same_headers_sym [OF assms(3)] y(1,2)] y(3) assms(4)
  show False unfolding leaf_def by metis
qed

text \<open>The header with the most work of all that are connected and not banned.\<close>

definition unique_best :: "oracle_env \<Rightarrow> header_oracle \<Rightarrow> bool" where
  "unique_best env s \<longleftrightarrow>
     leaf (db_headers (ho_db s)) (snd (ho_tip s)) \<and>
     (\<forall>h x. db_headers (ho_db s) h = Some x \<longrightarrow> \<not> IsDisconnected x \<longrightarrow> \<not> IsBlacklisted x \<longrightarrow>
        h \<noteq> snd (ho_tip s) \<longrightarrow> Work (env_add env) x < Work (env_add env) (tip_of s))"

lemma same_headers_tip:
  assumes "oracle_inv env s1" "oracle_inv env s2" "same_headers s1 s2" "unique_best env s1"
  shows "ho_tip s1 = ho_tip s2"
proof -
  let ?m1 = "db_headers (ho_db s1)" and ?m2 = "db_headers (ho_db s2)" and ?add = "env_add env"
  have inv: "chain_inv env (ho_db s1)" "chain_inv env (ho_db s2)"
    "ho_tip s1 = best_position (ho_db s1)" "ho_tip s2 = best_position (ho_db s2)"
    using assms(1,2) by (simp_all add: oracle_inv_def)
  from inv(1) obtain t1 tip1 where T1: "?m1 (hd_hash tip1) = Some tip1" "\<not> IsDisconnected tip1" "hd_height tip1 = t1"
    "heaviest ?add ?m1 tip1" "best_position (ho_db s1) = (t1, hd_hash tip1)" by (rule chain_invE)
  from inv(2) obtain t2 tip2 where T2: "?m2 (hd_hash tip2) = Some tip2" "\<not> IsDisconnected tip2" "hd_height tip2 = t2"
    "heaviest ?add ?m2 tip2" "best_position (ho_db s2) = (t2, hd_hash tip2)" by (rule chain_invE)
  have tip1: "tip_of s1 = tip1" "snd (ho_tip s1) = hd_hash tip1" using inv(3) T1 by (simp_all add: tip_of_def)
  obtain y1 where y1: "?m2 (hd_hash tip1) = Some y1" "Work ?add y1 = Work ?add tip1"
    "EffectiveState y1 = EffectiveState tip1" "hd_height y1 = hd_height tip1"
    using same_headers_tree [OF assms(1-3) T1(1,2)] by blast
  obtain y2 where y2: "?m1 (hd_hash tip2) = Some y2" "\<not> IsDisconnected y2" "Work ?add y2 = Work ?add tip2"
    "EffectiveState y2 = EffectiveState tip2"
    using same_headers_tree [OF assms(2,1) same_headers_sym [OF assms(3)] T2(1,2)] by blast
  have "leaf ?m2 (hd_hash tip1)"
    by (rule same_headers_leaf [OF assms(1-3)]) (use assms(4) tip1 in \<open>simp add: unique_best_def\<close>)
  moreover have "\<not> IsBlacklisted y1" using y1(3) T1(4) by (simp add: IsBlacklisted_def heaviest_def)
  ultimately have le: "Work ?add tip1 \<le> Work ?add tip2"
    using T2(4) y1(1,2) unfolding heaviest_def by metis
  have "\<not> IsBlacklisted y2" using y2(4) T2(4) by (simp add: IsBlacklisted_def heaviest_def)
  then have "hd_hash tip2 = hd_hash tip1"
    using assms(4) y2 le tip1 unfolding unique_best_def by (metis leD)
  moreover have "tip2 = y1" using calculation y1(1) T2(1) by simp
  ultimately show ?thesis using inv(3,4) T1(3,5) T2(3,5) y1(4) by simp
qed

lemma best_paths_agree:
  assumes "best_path g m1 b1 t" "best_path g m2 b2 t" "map_of b1 t = map_of b2 t"
    "\<And>h x. m1 h = Some x \<Longrightarrow> \<not> IsDisconnected x \<Longrightarrow> \<exists>y. m2 h = Some y \<and> hd_parent y = hd_parent x"
  shows "map_of b1 k = map_of b2 k"
proof -
  have dom: "map_of b1 k \<noteq> None \<longleftrightarrow> 0 \<le> k \<and> k \<le> t" "map_of b2 k \<noteq> None \<longleftrightarrow> 0 \<le> k \<and> k \<le> t" for k
    using assms(1,2) unfolding best_path_def by blast+
  have down: "map_of b1 (t - int n) = map_of b2 (t - int n)" if "int n \<le> t" for n
    using that
  proof (induction n)
    case 0
    then show ?case using assms(3) by simp
  next
    case (Suc n)
    let ?k = "t - int n"
    have k: "0 < ?k" "?k \<le> t" using Suc.prems by auto
    then obtain h where h: "map_of b1 ?k = Some h" using dom(1) [of ?k] by auto
    moreover have h2: "map_of b2 ?k = Some h" using Suc h by simp
    obtain x where x: "m1 h = Some x" "\<not> IsDisconnected x" "map_of b1 (?k - 1) = Some (hd_parent x)"
      using assms(1) h k unfolding best_path_def by blast
    obtain y where y: "m2 h = Some y" "map_of b2 (?k - 1) = Some (hd_parent y)"
      using assms(2) h2 k unfolding best_path_def by blast
    have "hd_parent y = hd_parent x" using assms(4) [OF x(1,2)] y(1) by auto
    then have "map_of b1 (?k - 1) = map_of b2 (?k - 1)" using x(3) y(2) by simp
    then show ?case by (simp add: algebra_simps)
  qed
  show ?thesis
  proof (cases "0 \<le> k \<and> k \<le> t")
    case True
    then have "t - int (nat (t - k)) = k" "int (nat (t - k)) \<le> t" by simp_all
    then show ?thesis using down [of "nat (t - k)"] by simp
  next
    case False
    then show ?thesis using dom [of k] by (metis not_None_eq)
  qed
qed

lemma same_headers_best:
  assumes "oracle_inv env s1" "oracle_inv env s2" "same_headers s1 s2" "unique_best env s1"
  shows "BestBlock k (ho_db s1) = BestBlock k (ho_db s2)"
proof -
  have inv: "chain_inv env (ho_db s1)" "chain_inv env (ho_db s2)"
    "ho_tip s1 = best_position (ho_db s1)" "ho_tip s2 = best_position (ho_db s2)"
    using assms(1,2) by (simp_all add: oracle_inv_def)
  note tip = same_headers_tip [OF assms]
  from inv(1) obtain t1 and tip1 :: header where T1: "best_path (env_genesis env) (db_headers (ho_db s1)) (db_best (ho_db s1)) t1"
    "map_of (db_best (ho_db s1)) t1 = Some (hd_hash tip1)" "best_position (ho_db s1) = (t1, hd_hash tip1)"
    by (rule chain_invE)
  from inv(2) obtain t2 and tip2 :: header where T2: "best_path (env_genesis env) (db_headers (ho_db s2)) (db_best (ho_db s2)) t2"
    "map_of (db_best (ho_db s2)) t2 = Some (hd_hash tip2)" "best_position (ho_db s2) = (t2, hd_hash tip2)"
    by (rule chain_invE)
  have t: "t2 = t1" "hd_hash tip2 = hd_hash tip1" using tip inv(3,4) T1(3) T2(3) by simp_all
  have "map_of (db_best (ho_db s1)) k = map_of (db_best (ho_db s2)) k"
    by (rule best_paths_agree [OF T1(1) T2(1) [unfolded t(1)]])
      (use T1(2) T2(2) t same_headers_tree [OF assms(1-3)] in auto)
  then show ?thesis by (simp add: BestBlock_def)
qed

subsection \<open>Sequences of headers\<close>

fun receive_all :: "oracle_env \<Rightarrow> header list \<Rightarrow> header_oracle \<Rightarrow> header_oracle outcome" where
  "receive_all env [] s = Inr s"
| "receive_all env (x # xs) s =
     bind_outcome (AddHeader env (Some x) s) (\<lambda>(_, s'). receive_all env xs s')"

definition parents :: "header list \<Rightarrow> (hash \<times> hash) set" where
  "parents xs = (\<lambda>x. (hd_parent x, hd_hash x)) ` set xs"

text \<open>
  Headers that can arrive in any order: no two of them, or of those that wait already, have the
  same parent. Each of them may fork from the chain the oracle has.
\<close>

definition deliverable :: "oracle_env \<Rightarrow> header_oracle \<Rightarrow> header list \<Rightarrow> bool" where
  "deliverable env s xs \<longleftrightarrow>
     (\<forall>x \<in> set xs. hd_hash x \<noteq> null_hash \<and> hd_parent x \<noteq> hd_hash x \<and> 0 < hd_work x \<and> hd_work x \<in> \<int> \<and>
        hd_inherit_work x \<in> \<int>) \<and>
     total_work (db_headers (ho_db s)) + (\<Sum>x \<leftarrow> xs. hd_work x) \<le> 2 ^ 53 \<and>
     only_children (set (db_disconnected (ho_db s)) \<union> parents xs) \<and>
     card (dom (db_headers (ho_db s))) + length xs \<le> env_fuel env"

definition facts_of :: "header list \<Rightarrow> hash \<Rightarrow> (hash \<times> work) option" where
  "facts_of xs = map_of (map (\<lambda>x. (hd_hash x, hd_parent x, hd_work x)) xs)"

lemma facts_of_Cons: "facts_of xs ++ facts_of [x] = facts_of (x # xs)"
  by (simp add: facts_of_def)

lemma only_children_mono: "only_children d \<Longrightarrow> d' \<subseteq> d \<Longrightarrow> only_children d'"
  unfolding only_children_def by blast

lemma received_more:
  assumes "received env s x s'"
  shows "knows_more s s'"
proof -
  let ?f = "facts (db_headers (ho_db s))" and ?f' = "facts (db_headers (ho_db s'))"
  have R: "?f' = (if db_headers (ho_db s) (hd_hash x) = None then ?f(hd_hash x \<mapsto> (hd_parent x, hd_work x)) else ?f)"
    "CurrentCheckpoint (ho_db s') = CurrentCheckpoint (ho_db s)"
    using assms unfolding received_def by blast+
  have "?f' h = Some v" if v: "?f h = Some v" for h v
  proof -
    have "h \<noteq> hd_hash x" if "db_headers (ho_db s) (hd_hash x) = None"
    proof
      assume "h = hd_hash x"
      with v that show False by (simp add: facts_def)
    qed
    with v show ?thesis unfolding R(1) by simp
  qed
  with R(2) show ?thesis by (simp add: knows_more_def)
qed

lemma received_work:
  assumes "oracle_inv env s" "received env s x s'"
  shows "Work (env_add env) (tip_of s) \<le> Work (env_add env) (tip_of s')"
proof (cases "ho_tip s' = ho_tip s")
  case False
  with assms(2) show ?thesis by (auto simp: received_def)
next
  case True
  have inv: "chain_inv env (ho_db s)" "ho_tip s = best_position (ho_db s)" "oracle_inv env s'"
    using assms by (simp_all add: oracle_inv_def received_def)
  from inv(1) obtain t and tip :: header where T: "db_headers (ho_db s) (hd_hash tip) = Some tip"
    "\<not> IsDisconnected tip" "best_position (ho_db s) = (t, hd_hash tip)" by (rule chain_invE)
  from knows_more_tree [OF assms(1) inv(3) received_more [OF assms(2)] T(1,2)] True T inv(2)
  show ?thesis by (auto simp: tip_of_def)
qed

lemma received_facts:
  assumes "received env s x s'"
  shows "facts (db_headers (ho_db s')) = facts_of [x] ++ facts (db_headers (ho_db s))"
proof (cases "db_headers (ho_db s) (hd_hash x)")
  case None
  then have n: "facts (db_headers (ho_db s)) (hd_hash x) = None" by simp
  have "facts (db_headers (ho_db s')) = (facts (db_headers (ho_db s)))(hd_hash x \<mapsto> (hd_parent x, hd_work x))"
    using None assms by (simp add: received_def)
  moreover have "facts_of [x] = [hd_hash x \<mapsto> (hd_parent x, hd_work x)]" by (simp add: facts_of_def fun_eq_iff)
  ultimately show ?thesis
  proof (intro ext)
    fix k
    assume "facts (db_headers (ho_db s')) = (facts (db_headers (ho_db s)))(hd_hash x \<mapsto> (hd_parent x, hd_work x))"
      "facts_of [x] = [hd_hash x \<mapsto> (hd_parent x, hd_work x)]"
    then show "facts (db_headers (ho_db s')) k = (facts_of [x] ++ facts (db_headers (ho_db s))) k"
      by (cases "k = hd_hash x"; cases "facts (db_headers (ho_db s)) k") (simp_all add: map_add_def n del: facts_None)
  qed
next
  case (Some y)
  then have e: "facts (db_headers (ho_db s')) = facts (db_headers (ho_db s))"
    "facts (db_headers (ho_db s)) (hd_hash x) \<noteq> None" using assms by (simp_all add: received_def)
  then obtain v where "facts (db_headers (ho_db s)) (hd_hash x) = Some v" by blast
  moreover have "facts_of [x] = [hd_hash x \<mapsto> (hd_parent x, hd_work x)]" by (simp add: facts_of_def fun_eq_iff)
  ultimately show ?thesis using e(1)
    by (simp add: map_add_def fun_eq_iff del: facts_None split: option.split)
qed

lemma deliverable_step:
  assumes "oracle_inv env s" "deliverable env s (x # xs)"
  shows "acceptable env s x" "received env s x s1 \<Longrightarrow> deliverable env s1 xs"
proof -
  note D = assms(2) [unfolded deliverable_def]
  let ?m = "db_headers (ho_db s)"
  have x: "hd_hash x \<noteq> null_hash" "hd_parent x \<noteq> hd_hash x" "0 < hd_work x" "hd_work x \<in> \<int>"
    "hd_inherit_work x \<in> \<int>" using D by auto
  have pos: "0 \<le> (\<Sum>y \<leftarrow> xs. hd_work y)" using D by (intro sum_list_nonneg) (auto simp: less_imp_le)
  have fin: "finite (dom ?m)"
    using assms(1) by (auto simp: oracle_inv_def chain_inv_def keyed_def)
  have only: "only_children (set (db_disconnected (ho_db s)))"
    using D by (auto intro: only_children_mono)
  show "acceptable env s x" using x D pos only by (auto simp: acceptable_def)
  assume s1: "received env s x s1"
  note R = s1 [unfolded received_def]
  let ?m1 = "db_headers (ho_db s1)"
  have f1: "facts ?m1 = facts_of [x] ++ facts ?m" by (rule received_facts [OF s1])
  have dom1: "dom ?m1 = insert (hd_hash x) (dom ?m)"
    using arg_cong [OF f1, of dom] by (auto simp: facts_of_def)
  have w1: "total_work ?m1 \<le> total_work ?m + hd_work x"
  proof (cases "?m (hd_hash x)")
    case None
    with R total_work_insert [of ?m1 ?m "hd_hash x" "hd_parent x" "hd_work x"] fin show ?thesis by simp
  next
    case (Some y)
    then have "facts ?m1 = facts ?m" using R by simp
    moreover have "dom ?m1 = dom ?m" using arg_cong [OF \<open>facts ?m1 = facts ?m\<close>, of dom] by simp
    ultimately have "total_work ?m1 = total_work ?m" by (simp add: total_work_facts)
    with x(3) show ?thesis by simp
  qed
  have sub: "set (db_disconnected (ho_db s1)) \<union> parents xs \<subseteq> set (db_disconnected (ho_db s)) \<union> parents (x # xs)"
    using R by (auto simp: parents_def)
  have card1: "card (dom ?m1) \<le> Suc (card (dom ?m))" unfolding dom1 by (rule card_insert_le_m1) simp_all
  show "deliverable env s1 xs"
    unfolding deliverable_def
    using D w1 card1 only_children_mono [OF _ sub] by auto
qed

lemma receive_all_ok:
  assumes "oracle_inv env s" "storage_works env" "exact_sums (env_add env)" "deliverable env s xs"
  shows "\<exists>s'. receive_all env xs s = Inr s' \<and> oracle_inv env s' \<and>
    CurrentCheckpoint (ho_db s') = CurrentCheckpoint (ho_db s) \<and>
    facts (db_headers (ho_db s')) = facts_of xs ++ facts (db_headers (ho_db s)) \<and>
    Work (env_add env) (tip_of s) \<le> Work (env_add env) (tip_of s')"
  using assms(1,4)
proof (induction xs arbitrary: s)
  case Nil
  then show ?case by (simp add: facts_of_def)
next
  case (Cons x xs)
  let ?m = "db_headers (ho_db s)"
  obtain s1 where s1: "AddHeader env (Some x) s = Inr (True, s1)" "received env s x s1"
    using AddHeader_received [OF Cons.prems(1) assms(2,3) deliverable_step(1) [OF Cons.prems]] by blast
  have f1: "facts (db_headers (ho_db s1)) = facts_of [x] ++ facts ?m" by (rule received_facts [OF s1(2)])
  have R: "oracle_inv env s1" "CurrentCheckpoint (ho_db s1) = CurrentCheckpoint (ho_db s)"
    using s1(2) unfolding received_def by blast+
  from Cons.IH [OF R(1) deliverable_step(2) [OF Cons.prems s1(2)]] obtain s' where
    s': "receive_all env xs s1 = Inr s'" "oracle_inv env s'"
    "CurrentCheckpoint (ho_db s') = CurrentCheckpoint (ho_db s1)"
    "facts (db_headers (ho_db s')) = facts_of xs ++ facts (db_headers (ho_db s1))"
    "Work (env_add env) (tip_of s1) \<le> Work (env_add env) (tip_of s')" by blast
  have "facts_of xs ++ facts (db_headers (ho_db s1)) = facts_of (x # xs) ++ facts ?m"
    unfolding f1 map_add_assoc facts_of_Cons ..
  moreover have "Work (env_add env) (tip_of s) \<le> Work (env_add env) (tip_of s')"
    using received_work [OF Cons.prems(1) s1(2)] s'(5) by simp
  ultimately show ?case using s' s1(1) R(2) by (intro exI [of _ s']) auto
qed

text \<open>Two orders of the same headers.\<close>

lemma deliverable_mset: "deliverable env s xs \<Longrightarrow> mset ys = mset xs \<Longrightarrow> deliverable env s ys"
proof -
  assume d: "deliverable env s xs" and m: "mset ys = mset xs"
  have "set ys = set xs" "length ys = length xs" using m by (metis set_mset_mset, metis size_mset)
  moreover have "sum_list (map hd_work ys) = sum_list (map hd_work xs)"
    using m by (metis mset_map sum_mset_sum_list)
  ultimately show ?thesis using d by (simp add: deliverable_def parents_def)
qed

lemma facts_of_mset:
  assumes "distinct (map hd_hash xs)" "mset ys = mset xs"
  shows "facts_of ys = facts_of xs"
proof -
  have "set ys = set xs" using assms(2) by (metis set_mset_mset)
  moreover have "distinct (map hd_hash ys)"
    using assms by (metis distinct_count_atmost_1 mset_map mset_eq_imp_distinct_iff)
  ultimately show ?thesis
    unfolding facts_of_def using assms(1)
    by (subst map_of_inject_set) (simp_all add: comp_def)
qed

lemma orders_agree:
  assumes "oracle_inv env s" "storage_works env" "exact_sums (env_add env)" "deliverable env s xs"
    "distinct (map hd_hash xs)" "mset ys = mset xs"
  shows "\<exists>s1 s2. receive_all env xs s = Inr s1 \<and> receive_all env ys s = Inr s2 \<and> same_headers s1 s2 \<and>
    (unique_best env s1 \<longrightarrow>
      ho_tip s1 = ho_tip s2 \<and> (\<forall>k. BestBlock k (ho_db s1) = BestBlock k (ho_db s2)))"
proof -
  obtain s1 where s1: "receive_all env xs s = Inr s1" "oracle_inv env s1"
    "CurrentCheckpoint (ho_db s1) = CurrentCheckpoint (ho_db s)"
    "facts (db_headers (ho_db s1)) = facts_of xs ++ facts (db_headers (ho_db s))"
    using receive_all_ok [OF assms(1-4)] by blast
  obtain s2 where s2: "receive_all env ys s = Inr s2" "oracle_inv env s2"
    "CurrentCheckpoint (ho_db s2) = CurrentCheckpoint (ho_db s)"
    "facts (db_headers (ho_db s2)) = facts_of ys ++ facts (db_headers (ho_db s))"
    using receive_all_ok [OF assms(1-3) deliverable_mset [OF assms(4,6)]] by blast
  have same: "same_headers s1 s2"
    using s1(3,4) s2(3,4) facts_of_mset [OF assms(5,6)] by (simp add: same_headers_def)
  with same_headers_tip [OF s1(2) s2(2) same] same_headers_best [OF s1(2) s2(2) same] s1(1) s2(1)
  show ?thesis by blast
qed

end
