(* ===== verification/Header_Queries.thy ===== *)
theory Header_Queries
  imports Header_Oracle
begin

text \<open>
  The header oracle at start and its queries (\<open>src/blockchain/node/headeroracle/Shared.cpp\<close>,
  \<open>HeaderOraclePrivate.cpp\<close>, the constructor of \<open>src/blockchain/database/Headers.cpp\<close>).

  \<open>TryLoadHeader\<close> returns \<open>None\<close> for a blank header. A loop that follows parent hashes has fuel;
  a loop that counts heights ends by itself.
\<close>

subsection \<open>Start\<close>

definition empty_db :: header_db where
  "empty_db =
     \<lparr>db_headers = Map.empty, db_best = [], db_tip = None, db_checkpoint = None, db_siblings = [],
      db_disconnected = [], db_last_update = NoUpdate\<rparr>"

text \<open>Writes succeed where the code asserts that they did.\<close>

definition import_genesis :: "bool \<Rightarrow> header \<Rightarrow> header_db \<Rightarrow> header_db outcome" where
  "import_genesis success genesis db =
     (let hash = hd_hash genesis in
      bind_outcome
        (if HeaderExists hash db then Inr db
         else assert_that ''success'' success
                (Inr (db\<lparr>db_headers := (db_headers db)(hash \<mapsto> serialize_header genesis)\<rparr>)))
        (\<lambda>db1. if 0 > fst (best_position db1)
               then assert_that ''success'' success
                      (let db2 = db1\<lparr>db_best := push_best (0, hash) (db_best db1), db_tip := Some 0\<rparr>
                       in assert_that ''0 == best.height_'' (0 = fst (best_position db2))
                            (assert_that ''hash == best.hash_'' (hash = snd (best_position db2)) (Inr db2)))
               else Inr db1))"

definition Headers :: "bool \<Rightarrow> header \<Rightarrow> header_db \<Rightarrow> header_db outcome" where
  "Headers success genesis db =
     bind_outcome (import_genesis success genesis (db\<lparr>db_last_update := NoUpdate\<rparr>))
       (\<lambda>db1. assert_that ''HeaderExists(best.hash_)'' (HeaderExists (snd (best_position db1)) db1)
         (assert_that ''0 <= best.height_'' (0 \<le> fst (best_position db1))
           (bind_outcome (CurrentBest db1)
             (\<lambda>h. assert_that ''0 <= header.Position().height_'' (0 \<le> hd_height h) (Inr db1)))))"

definition HeaderOraclePrivate :: "oracle_env \<Rightarrow> header_db \<Rightarrow> header_oracle outcome" where
  "HeaderOraclePrivate env db =
     bind_outcome (CurrentBest db)
       (\<lambda>h. Inr \<lparr>ho_db = db, ho_tip = Position h, ho_have_job = False, ho_unknown = [], ho_index = [],
                ho_peer_height = fst (env_default_checkpoint env),
                ho_remote = fst (env_default_checkpoint env), ho_signals = []\<rparr>)"

text \<open>The database is opened, the oracle is made on it and then initialised.\<close>

definition start_oracle :: "oracle_env \<Rightarrow> bool \<Rightarrow> header \<Rightarrow> header_db \<Rightarrow> header_oracle outcome" where
  "start_oracle env success genesis db =
     bind_outcome (Headers success genesis db)
       (\<lambda>db1. bind_outcome (HeaderOraclePrivate env db1) (\<lambda>s. Init env s))"

subsection \<open>The best chain\<close>

definition TryLoadHeader :: "hash \<Rightarrow> header_db \<Rightarrow> header option" where
  "TryLoadHeader hash db = LoadHeader hash db"

definition best_chain :: "header_oracle \<Rightarrow> position" where
  "best_chain s = ho_tip s"

definition best_hash :: "header_oracle \<Rightarrow> height \<Rightarrow> hash" where
  "best_hash s height = BestBlock height (ho_db s)"

definition get_position :: "header_oracle \<Rightarrow> height \<Rightarrow> position" where
  "get_position s height =
     (let hash = best_hash s height in if hash = null_hash then blank_position else (height, hash))"

definition at_height :: "header_oracle \<Rightarrow> height \<Rightarrow> hash \<Rightarrow> bool" where
  "at_height s height hash \<longleftrightarrow> hash = BestBlock height (ho_db s)"

definition hash_in_best_chain :: "header_oracle \<Rightarrow> hash \<Rightarrow> bool \<times> height" where
  "hash_in_best_chain s hash =
     (case TryLoadHeader hash (ho_db s) of
        None \<Rightarrow> (False, - 1)
      | Some header \<Rightarrow> (at_height s (hd_height header) hash, hd_height header))"

definition position_in_best_chain :: "header_oracle \<Rightarrow> position \<Rightarrow> bool" where
  "position_in_best_chain s position = at_height s (fst position) (snd position)"

definition BestHash :: "header_oracle \<Rightarrow> height \<Rightarrow> position \<Rightarrow> hash" where
  "BestHash s height check =
     (if position_in_best_chain s check then BestBlock height (ho_db s) else null_hash)"

function hashes_between :: "header_db \<Rightarrow> hash \<Rightarrow> height \<Rightarrow> height \<Rightarrow> hash list" where
  "hashes_between db stop current final =
     (if current \<le> final
      then (let hash = BestBlock current db
            in if hash = null_hash then []
               else if stop \<noteq> null_hash \<and> stop = hash then [hash]
               else hash # hashes_between db stop (current + 1) final)
      else [])"
  by pat_completeness auto
termination by (relation "measure (\<lambda>(db, stop, current, final). nat (final + 1 - current))") auto

declare hashes_between.simps [simp del]

definition best_hashes :: "header_oracle \<Rightarrow> height \<Rightarrow> hash \<Rightarrow> nat \<Rightarrow> hash list" where
  "best_hashes s start stop limit =
     (let tip = best_chain s;
          final = (if limit = 0 then fst tip else min (start + int limit - 1) (fst tip))
      in hashes_between (ho_db s) stop start final)"

fun first_known :: "header_oracle \<Rightarrow> hash list \<Rightarrow> height" where
  "first_known s [] = 0"
| "first_known s (hash # previous) =
     (let (best, height) = hash_in_best_chain s hash in if best then height else first_known s previous)"

definition BestHashes :: "header_oracle \<Rightarrow> hash list \<Rightarrow> hash \<Rightarrow> nat \<Rightarrow> hash list" where
  "BestHashes s previous stop limit = best_hashes s (first_known s previous) stop limit"

subsection \<open>Branches\<close>

fun parent_on_best :: "nat \<Rightarrow> header_oracle \<Rightarrow> position \<Rightarrow> position \<Rightarrow> header \<Rightarrow> position outcome" where
  "parent_on_best 0 s genesis test header = Inl OutOfFuel"
| "parent_on_best (Suc n) s genesis test header =
     (if 0 < fst test
      then (if fst (hash_in_best_chain s (snd test)) then Inr test
            else (case TryLoadHeader (hd_parent header) (ho_db s) of
                    None \<Rightarrow> Inr genesis
                  | Some h \<Rightarrow> parent_on_best n s genesis (Position h) h))
      else Inr genesis)"

definition common_parent :: "oracle_env \<Rightarrow> header_oracle \<Rightarrow> position \<Rightarrow> (position \<times> position) outcome" where
  "common_parent env s position =
     (let genesis = (0, env_genesis env)
      in bind_outcome
           (case TryLoadHeader (snd position) (ho_db s) of
              None \<Rightarrow> Inr genesis
            | Some h \<Rightarrow> parent_on_best (env_fuel env) s genesis position h)
           (\<lambda>parent. Inr (parent, best_chain s)))"

definition BestChain :: "oracle_env \<Rightarrow> header_oracle \<Rightarrow> position \<Rightarrow> nat \<Rightarrow> position list outcome" where
  "BestChain env s tip limit =
     bind_outcome (common_parent env s tip)
       (\<lambda>(youngest, best).
         let height = max (fst youngest) 0;
             hashes = best_hashes s height null_hash 0;
             positions = zip (map (\<lambda>i. height + int i) [0..<length hashes]) hashes;
             output = (if 0 < limit then take limit positions else positions)
         in assert_that ''0 < output.size()'' (output \<noteq> []) (Inr output))"

text \<open>\<open>None\<close>: the function throws.\<close>

fun reorg_walk :: "header_oracle \<Rightarrow> nat \<Rightarrow> position \<Rightarrow> position list option" where
  "reorg_walk s 0 child = None"
| "reorg_walk s (Suc n) child =
     (case TryLoadHeader (snd child) (ho_db s) of
        None \<Rightarrow> None
      | Some header \<Rightarrow>
          if int (Suc n) \<noteq> hd_height header then None
          else (let parent = (int n, hd_parent header)
                in if position_in_best_chain s parent then Some [child]
                   else map_option ((#) child) (reorg_walk s n parent)))"

definition calculate_reorg :: "header_oracle \<Rightarrow> position \<Rightarrow> position list option" where
  "calculate_reorg s tip =
     (if position_in_best_chain s tip then Some []
      else if 0 \<le> fst tip then reorg_walk s (nat (fst tip)) tip else Some [tip])"

text \<open>
  \<open>ancestors\<close>: the loop down from \<open>start\<close> to the height of the target, then the two chains
  in step. \<open>Inr None\<close> is the exception of \<open>LoadHeader\<close>.
\<close>

fun lower_sibling :: "nat \<Rightarrow> oracle_env \<Rightarrow> header_oracle \<Rightarrow> header \<Rightarrow> height \<Rightarrow> header outcome" where
  "lower_sibling 0 env s sibling height = Inl OutOfFuel"
| "lower_sibling (Suc n) env s sibling height =
     (if hd_height sibling > height
      then (case TryLoadHeader (hd_parent sibling) (ho_db s) of
              Some h \<Rightarrow> lower_sibling n env s h height
            | None \<Rightarrow> (case TryLoadHeader (env_genesis env) (ho_db s) of
                         None \<Rightarrow> Inl (AssertFailed ''sibling.IsValid()'')
                       | Some g \<Rightarrow> Inr g))
      else Inr sibling)"

fun step_down ::
  "nat \<Rightarrow> oracle_env \<Rightarrow> header_oracle \<Rightarrow> header \<Rightarrow> header \<Rightarrow> position list \<Rightarrow> position list outcome" where
  "step_down 0 env s current sibling cache = Inl OutOfFuel"
| "step_down (Suc n) env s current sibling cache =
     (if hd_height current \<ge> 0
      then (let cache1 = Position current # cache
            in if Position current = Position sibling then Inr cache1
               else bind_outcome
                      (if hd_height current = hd_height sibling
                       then (case TryLoadHeader (hd_parent sibling) (ho_db s) of
                               Some h \<Rightarrow> Inr h
                             | None \<Rightarrow> (case TryLoadHeader (env_genesis env) (ho_db s) of
                                          None \<Rightarrow> Inl (AssertFailed ''sibling.IsValid()'')
                                        | Some g \<Rightarrow> Inr g))
                       else Inr sibling)
                      (\<lambda>sibling1. case TryLoadHeader (hd_parent current) (ho_db s) of
                         None \<Rightarrow> Inr cache1
                       | Some c \<Rightarrow> step_down n env s c sibling1 cache1))
      else Inr cache)"

fun pop_above :: "height \<Rightarrow> position list \<Rightarrow> position list" where
  "pop_above height [] = []"
| "pop_above height (p # ps) = (if ps \<noteq> [] \<and> fst p > height then pop_above height ps else p # ps)"

definition Ancestors ::
  "oracle_env \<Rightarrow> header_oracle \<Rightarrow> position \<Rightarrow> position \<Rightarrow> nat \<Rightarrow> position list option outcome" where
  "Ancestors env s start target limit =
     (let check = max (min (fst start) (fst target)) 0;
          fast = (fst (hash_in_best_chain s (snd target)) \<and> fst (hash_in_best_chain s (snd start)) \<and>
                  fst start < fst target)
      in if fast
         then bind_outcome (BestChain env s start limit)
                (\<lambda>positions.
                  let output = rev (pop_above (fst target) (rev positions))
                  in assert_that ''0 < output.size()'' (output \<noteq> [])
                       (assert_that ''output.front().height_ <= check'' (fst (hd output) \<le> check)
                         (Inr (Some output))))
         else (case (LoadHeader (snd target) (ho_db s), LoadHeader (snd start) (ho_db s)) of
                 (Some current, Some sibling) \<Rightarrow>
                   bind_outcome (lower_sibling (env_fuel env) env s sibling (hd_height current))
                     (\<lambda>sibling1.
                       assert_that ''sibling.Height() <= current.Height()''
                         (hd_height sibling1 \<le> hd_height current)
                         (bind_outcome (step_down (env_fuel env) env s current sibling1 [])
                           (\<lambda>cache. assert_that ''0 < cache.size()'' (cache \<noteq> [])
                             (assert_that ''output.front().height_ <= check'' (fst (hd cache) \<le> check)
                               (Inr (Some cache))))))
               | _ \<Rightarrow> Inr None))"

subsection \<open>Blocks of a peer\<close>

text \<open>
  A block is its height and the header made of its bytes, \<open>None\<close> when it is not valid. The loop
  stops at the first block that makes it throw; the blocks before it count. The result of the loop
  is the number of blocks, their hashes and the transaction.
\<close>

fun sync_blocks ::
  "oracle_env \<Rightarrow> header_oracle \<Rightarrow> hash \<Rightarrow> (height \<times> header option) list \<Rightarrow> update \<Rightarrow> (hash list \<times> update) outcome" where
  "sync_blocks env s previous [] u = Inr ([], u)"
| "sync_blocks env s previous ((_, None) # blocks) u = Inr ([], u)"
| "sync_blocks env s previous ((_, Some header) # blocks) u =
     (if hd_parent header \<noteq> previous then Inr ([], u)
      else bind_outcome
             (if \<not> fst (hash_in_best_chain s (hd_hash header)) then add_header env header u else Inr (True, u))
             (\<lambda>(ok, u1). if \<not> ok then Inr ([], u1)
                         else bind_outcome (sync_blocks env s (hd_hash header) blocks u1)
                                (\<lambda>(hashes, u2). Inr (hd_hash header # hashes, u2))))"

text \<open>The result: the number of blocks, \<open>prior\<close>, \<open>hashes\<close> and the state.\<close>

definition ProcessSyncData ::
  "oracle_env \<Rightarrow> hash \<Rightarrow> hash list \<Rightarrow> height \<Rightarrow> (height \<times> header option) list \<Rightarrow> header_oracle
     \<Rightarrow> (nat \<times> hash \<times> hash list \<times> header_oracle) outcome" where
  "ProcessSyncData env prior hashes remote blocks s =
     (let s1 = snd (UpdateRemoteHeight remote s);
          u = UpdateTransaction (ho_db s)
      in case blocks of
           [] \<Rightarrow> Inl UndefinedBehaviour
         | (height, _) # _ \<Rightarrow>
             (let prior1 = (if 0 \<ge> height then prior else BestBlock (height - 1) (ho_db s1));
                  previous = (if 0 \<ge> height then null_hash else prior1)
              in bind_outcome (sync_blocks env s1 previous blocks u)
                   (\<lambda>(new, u1).
                     if new = [] then Inr (0, prior1, hashes @ new, s1)
                     else bind_outcome (apply_update env u1 s1)
                            (\<lambda>(ok, s2). if ok
                               then assert_that ''output == hashes.size()''
                                      (length new = length (hashes @ new))
                                      (Inr (length new, prior1, hashes @ new, s2))
                               else Inr (0, prior1, hashes @ new, s2)))))"

end
