(* ===== verification/Header_Start.thy ===== *)
theory Header_Start
  imports Header_Convergence Header_Queries
begin

text \<open>
  The oracle after its start: the invariant holds, with the default checkpoint of the chain. A checkpoint
  that lies above every header can always be added.
\<close>

subsection \<open>A checkpoint above the headers\<close>

lemma checkpoint_update:
  assumes "chain_inv env db" "CurrentCheckpoint db = blank_position" "2 \<le> n"
    "\<forall>h x. db_headers db h = Some x \<longrightarrow> \<not> IsDisconnected x \<longrightarrow> hd_height x < n"
    "view u = db_headers db" "ut_db u = db" "ut_have_checkpoint u" "ut_checkpoint u = (n, k)"
    "ut_best u = []" "ut_disconnected u = []" "ut_connect u = []" "ut_add_sib u = []" "ut_delete_sib u = []"
    "\<not> ut_have_reorg u"
  shows "\<exists>db1. updated_tables u db = Some db1 \<and> chain_inv env db1 \<and> CurrentCheckpoint db1 = (n, k) \<and>
    db_headers db1 = db_headers db \<and> best_position db1 = best_position db \<and>
    db_disconnected db1 = db_disconnected db"
proof -
  let ?m = "db_headers db" and ?db1 = "db\<lparr>db_checkpoint := Some (n, k)\<rparr>"
  from assms(1) obtain t and tip :: header where I: "keyed ?m" "env_genesis env \<noteq> null_hash"
    "rooted (env_genesis env) ?m" "tree (env_add env) (CurrentCheckpoint db) (env_genesis env) ?m"
    "waiting ?m (db_disconnected db)" "db_tip db = Some t" "best_path (env_genesis env) ?m (db_best db) t"
    "map_of (db_best db) t = Some (hd_hash tip)" "?m (hd_hash tip) = Some tip"
    "heaviest (env_add env) ?m tip"
    "siblings_ok (CurrentCheckpoint db) ?m (hd_hash tip) (set (db_siblings db))" by (rule chain_invE)
  have "store_headers (ut_headers u) ?m = view u"
    using store_headers_view [of u] assms(5,6) keyedD [OF I(1)] by simp
  then have ut: "updated_tables u db = Some ?db1"
    using assms(5-) by (cases db) (simp add: updated_tables_def Let_def Checkpoint_def cong: option.case_cong if_cong)
  have cp: "CurrentCheckpoint ?db1 = (n, k)" by (simp add: CurrentCheckpoint_def)
  have "tree (env_add env) (n, k) (env_genesis env) ?m"
    unfolding tree_def
  proof (intro allI impI)
    fix h x assume x: "?m h = Some x" "\<not> IsDisconnected x" "h \<noteq> env_genesis env"
    from I(4) x obtain p where p: "?m (hd_parent x) = Some p" "\<not> IsDisconnected p"
      "x = under_parent (env_add env) (CurrentCheckpoint db) p x"
      "Work (env_add env) x = hd_work x + Work (env_add env) p" "hd_height x = hd_height p + 1" by (rule treeE)
    have "0 \<le> hd_height p" using height_nonneg [OF I(1,3,4) p(1,2)] .
    moreover have "hd_height p + 1 < n" using assms(4) x p(5) by force
    ultimately have "checkpoint_status (CurrentCheckpoint db) (hd_height p + 1) (hd_hash x) =
        checkpoint_status (n, k) (hd_height p + 1) (hd_hash x)"
      using assms(2) by (simp add: checkpoint_status_def)
    then have "under_parent (env_add env) (CurrentCheckpoint db) p x = under_parent (env_add env) (n, k) p x"
      unfolding under_parent_def by simp
    then have "x = under_parent (env_add env) (n, k) p x" using p(3) by (rule subst)
    with p show "\<exists>p. ?m (hd_parent x) = Some p \<and> \<not> IsDisconnected p \<and>
        x = under_parent (env_add env) (n, k) p x \<and> Work (env_add env) x = hd_work x + Work (env_add env) p"
      by blast
  qed
  moreover have "siblings_ok (n, k) ?m (hd_hash tip) (set (db_siblings db))"
    using I(11) assms(3) by (auto simp: siblings_ok_def)
  ultimately have "chain_inv env ?db1"
    by (intro chain_invI [where tip = tip]) (use I cp in simp_all)
  moreover have "best_position ?db1 = best_position db" by (simp add: best_position_def cong: option.case_cong)
  ultimately show ?thesis using ut cp by (intro exI [of _ ?db1]) simp
qed

lemma AddCheckpoint_above:
  assumes "oracle_inv env s" "storage_works env" "CurrentCheckpoint (ho_db s) = blank_position" "2 \<le> n"
    "\<forall>h x. db_headers (ho_db s) h = Some x \<longrightarrow> \<not> IsDisconnected x \<longrightarrow> hd_height x < n"
  shows "\<exists>s'. AddCheckpoint env n k s = Inr (True, s') \<and> oracle_inv env s' \<and> GetCheckpoint s' = (n, k) \<and>
    db_headers (ho_db s') = db_headers (ho_db s) \<and> ho_tip s' = ho_tip s \<and>
    db_disconnected (ho_db s') = db_disconnected (ho_db s)"
proof -
  let ?db = "ho_db s" and ?u = "SetCheckpoint (n, k) (UpdateTransaction (ho_db s))"
  have inv: "chain_inv env ?db" "ho_tip s = best_position ?db" using assms(1) by (simp_all add: oracle_inv_def)
  from inv(1) obtain t and tip :: header where I: "keyed (db_headers ?db)" "db_headers ?db (hd_hash tip) = Some tip"
    "\<not> IsDisconnected tip" "hd_height tip = t" "best_position ?db = (t, hd_hash tip)" by (rule chain_invE)
  have fields: "ut_db ?u = ?db" "ut_best ?u = []" "ut_headers ?u h = None" "ut_checkpoint ?u = (n, k)"
    "ut_have_checkpoint ?u" "view ?u = db_headers ?db" "ut_disconnected ?u = []" "ut_connect ?u = []"
    "ut_add_sib ?u = []" "ut_delete_sib ?u = []" "\<not> ut_have_reorg ?u" for h
    by (simp_all add: SetCheckpoint_def view_def fun_eq_iff)
  obtain u1 where u1: "Stage_best ?u = Inr (hd_hash tip, u1)" "staged ?u u1" "Header (hd_hash tip) u1 = Some tip"
    by (rule Stage_best_db [of ?u tip]) (use fields I in simp_all)
  note e = staged_simps [OF u1(2)]
  have above: "n > hd_height tip" using assms(5) I(2,3) by blast
  have "apply_checkpoint env n ?u = Inr (True, u1)"
    using u1(1,3) above by (simp add: apply_checkpoint_def)
  moreover have "\<not> EffectiveCheckpoint (UpdateTransaction ?db)"
    using assms(3) by (simp add: EffectiveCheckpoint_def HaveCheckpoint_def)
  ultimately have add: "AddCheckpoint env n k s = apply_update env u1 s"
    using assms(4) by (simp add: AddCheckpoint_def Let_def)
  obtain db1 where db1: "updated_tables u1 ?db = Some db1" "chain_inv env db1" "CurrentCheckpoint db1 = (n, k)"
    "db_headers db1 = db_headers ?db" "best_position db1 = best_position ?db"
    "db_disconnected db1 = db_disconnected ?db"
    using checkpoint_update [OF inv(1) assms(3-5), of u1 k] e fields by auto
  from apply_update_ok [OF assms(1,2) db1(1,2)] obtain s' l where s': "apply_update env u1 s = Inr (True, s')"
    "oracle_inv env s'" "ho_db s' = db1\<lparr>db_last_update := l\<rparr>" "ho_tip s' = best_position db1" by blast
  with add db1 inv(2) show ?thesis
    by (intro exI [of _ s']) (simp add: GetCheckpoint_def CurrentCheckpoint_def)
qed

subsection \<open>The genesis block\<close>

definition genesis_header :: "oracle_env \<Rightarrow> header \<Rightarrow> bool" where
  "genesis_header env x \<longleftrightarrow>
     hd_hash x = env_genesis env \<and> hd_hash x \<noteq> null_hash \<and> hd_parent x = null_hash \<and> hd_height x = 0 \<and>
     hd_status x = StatusNormal \<and> hd_inherit_status x = StatusNormal \<and> 0 < hd_work x \<and>
     hd_work x \<in> \<int> \<and> hd_inherit_work x \<in> \<int>"

lemma Headers_empty:
  assumes "genesis_header env x"
  defines "db \<equiv> empty_db\<lparr>db_headers := [hd_hash x \<mapsto> x], db_best := [(0, hd_hash x)], db_tip := Some 0\<rparr>"
  shows "Headers True x empty_db = Inr db" "chain_inv env db"
proof -
  note G = assms(1) [unfolded genesis_header_def]
  have b: "best_position db = (0, hd_hash x)" by (simp add: best_position_def db_def)
  have ser: "serialize_header x = x" using G by simp
  have "import_genesis True x (empty_db\<lparr>db_last_update := NoUpdate\<rparr>) = Inr db"
    using G ser by (simp add: import_genesis_def empty_db_def HeaderExists_def best_position_def push_best_def
        db_def Let_def)
  then show "Headers True x empty_db = Inr db"
    using G b by (simp add: Headers_def HeaderExists_def db_def CurrentBest_def LoadHeader_def)
  have st: "EffectiveState x = StatusNormal" using G by (simp add: EffectiveState_def)
  then have con: "\<not> IsDisconnected x" "\<not> IsBlacklisted x" by (simp_all add: IsDisconnected_def IsBlacklisted_def)
  show "chain_inv env db"
  proof (rule chain_invI)
    show "keyed (db_headers db)" using G by (auto simp: keyed_def db_def)
    show "env_genesis env \<noteq> null_hash" using G by auto
    show "rooted (env_genesis env) (db_headers db)" using G st by (auto simp: rooted_def db_def)
    show "tree (env_add env) (CurrentCheckpoint db) (env_genesis env) (db_headers db)"
      using G by (auto simp: tree_def db_def split: if_splits)
    show "waiting (db_headers db) (db_disconnected db)"
      using con by (auto simp: waiting_def db_def empty_db_def split: if_splits)
    show "db_tip db = Some 0" by (simp add: db_def)
    show "best_path (env_genesis env) (db_headers db) (db_best db) 0"
      using G con by (auto simp: best_path_def db_def)
    show "map_of (db_best db) 0 = Some (hd_hash x)" "db_headers db (hd_hash x) = Some x"
      by (simp_all add: db_def)
    show "heaviest (env_add env) (db_headers db) x" using con by (auto simp: heaviest_def db_def split: if_splits)
    show "siblings_ok (CurrentCheckpoint db) (db_headers db) (hd_hash x) (set (db_siblings db))"
      by (auto simp: siblings_ok_def db_def empty_db_def leaf_def connected_in_def split: if_splits)
  qed
qed

text \<open>A start on an empty database ends in a state with the invariant.\<close>

lemma start_oracle_ok:
  assumes "genesis_header env x" "storage_works env"
  shows "\<exists>s. start_oracle env True x empty_db = Inr s \<and> oracle_inv env s \<and>
    db_headers (ho_db s) = [hd_hash x \<mapsto> x] \<and> ho_tip s = (0, hd_hash x) \<and> db_disconnected (ho_db s) = [] \<and>
    GetCheckpoint s = (if 1 < fst (env_default_checkpoint env) then env_default_checkpoint env else blank_position)"
proof -
  define db where "db = empty_db\<lparr>db_headers := [hd_hash x \<mapsto> x], db_best := [(0, hd_hash x)], db_tip := Some 0\<rparr>"
  note H = Headers_empty [OF assms(1), folded db_def]
  note G = assms(1) [unfolded genesis_header_def]
  define s where "s = \<lparr>ho_db = db, ho_tip = (0, hd_hash x), ho_have_job = False, ho_unknown = [], ho_index = [],
                ho_peer_height = fst (env_default_checkpoint env),
                ho_remote = fst (env_default_checkpoint env), ho_signals = []\<rparr>"
  have b: "best_position db = (0, hd_hash x)" by (simp add: best_position_def db_def)
  have "CurrentBest db = Inr x" using b by (simp add: CurrentBest_def LoadHeader_def db_def)
  then have o: "HeaderOraclePrivate env db = Inr s"
    using G by (simp add: HeaderOraclePrivate_def s_def Position_def)
  have inv: "oracle_inv env s" using H(2) b by (simp add: oracle_inv_def s_def unknown_ok_def)
  have cp: "CurrentCheckpoint db = blank_position" by (simp add: CurrentCheckpoint_def db_def empty_db_def)
  have start: "start_oracle env True x empty_db = Init env s"
    using H(1) o by (simp add: start_oracle_def)
  obtain n k where d: "env_default_checkpoint env = (n, k)" by (cases "env_default_checkpoint env")
  show ?thesis
  proof (cases "1 < n")
    case True
    have "\<exists>s'. AddCheckpoint env n k s = Inr (True, s') \<and> oracle_inv env s' \<and> GetCheckpoint s' = (n, k) \<and>
        db_headers (ho_db s') = db_headers (ho_db s) \<and> ho_tip s' = ho_tip s \<and>
        db_disconnected (ho_db s') = db_disconnected (ho_db s)"
      by (rule AddCheckpoint_above [OF inv assms(2)]) (use True G cp in \<open>auto simp: s_def db_def split: if_splits\<close>)
    then obtain s' where s': "AddCheckpoint env n k s = Inr (True, s')" "oracle_inv env s'" "GetCheckpoint s' = (n, k)"
      "db_headers (ho_db s') = db_headers (ho_db s)" "ho_tip s' = ho_tip s"
      "db_disconnected (ho_db s') = db_disconnected (ho_db s)" by blast
    have "Init env s = Inr s'"
      using True s'(1) cp d by (simp add: Init_def GetCheckpoint_def s_def)
    with start s' d True show ?thesis by (intro exI [of _ s']) (simp add: s_def db_def empty_db_def)
  next
    case False
    have "Init env s = Inr s"
      using False cp d by (simp add: Init_def GetCheckpoint_def s_def)
    with start inv d False cp show ?thesis
      by (intro exI [of _ s]) (simp add: s_def db_def empty_db_def GetCheckpoint_def)
  qed
qed

text \<open>Headers of which no two have the same parent can arrive in any order.\<close>

lemma start_deliverable:
  assumes "db_headers (ho_db s) = [hd_hash g \<mapsto> g]" "db_disconnected (ho_db s) = []"
    "\<forall>x \<in> set xs. hd_hash x \<noteq> null_hash \<and> hd_parent x \<noteq> hd_hash x \<and> 0 < hd_work x \<and> hd_work x \<in> \<int> \<and>
       hd_inherit_work x \<in> \<int>"
    "distinct (map hd_parent xs)" "hd_work g + (\<Sum>x \<leftarrow> xs. hd_work x) \<le> 2 ^ 53" "length xs < env_fuel env"
  shows "deliverable env s xs"
proof -
  have "total_work (db_headers (ho_db s)) = hd_work g" using assms(1) by (simp add: total_work_def)
  moreover have "only_children (parents xs)"
    unfolding only_children_def parents_def
  proof (intro allI impI)
    fix a b c assume "(a, b) \<in> (\<lambda>x. (hd_parent x, hd_hash x)) ` set xs" "(a, c) \<in> (\<lambda>x. (hd_parent x, hd_hash x)) ` set xs"
    then obtain x y where "x \<in> set xs" "y \<in> set xs" "hd_parent x = hd_parent y" "b = hd_hash x" "c = hd_hash y" by auto
    with assms(4) show "b = c" by (auto simp: distinct_map dest: inj_onD)
  qed
  ultimately show ?thesis using assms by (simp add: deliverable_def)
qed

lemma start_and_receive:
  assumes "genesis_header env g" "storage_works env" "exact_sums (env_add env)"
    "\<forall>x \<in> set xs. hd_hash x \<noteq> null_hash \<and> hd_parent x \<noteq> hd_hash x \<and> 0 < hd_work x \<and> hd_work x \<in> \<int> \<and>
       hd_inherit_work x \<in> \<int>"
    "distinct (map hd_parent xs)" "hd_work g + (\<Sum>x \<leftarrow> xs. hd_work x) \<le> 2 ^ 53" "length xs < env_fuel env"
  shows "\<exists>s s'. start_oracle env True g empty_db = Inr s \<and> receive_all env xs s = Inr s' \<and>
    oracle_inv env s' \<and> (\<forall>x \<in> set xs. HeaderExists (hd_hash x) (ho_db s'))"
proof -
  obtain s where s: "start_oracle env True g empty_db = Inr s" "oracle_inv env s"
    "db_headers (ho_db s) = [hd_hash g \<mapsto> g]" "db_disconnected (ho_db s) = []"
    using start_oracle_ok [OF assms(1,2)] by blast
  obtain s' where s': "receive_all env xs s = Inr s'" "oracle_inv env s'"
    "facts (db_headers (ho_db s')) = facts_of xs ++ facts (db_headers (ho_db s))"
    using receive_all_ok [OF s(2) assms(2,3) start_deliverable [OF s(3,4) assms(4-7)]] by blast
  have "HeaderExists (hd_hash x) (ho_db s')" if "x \<in> set xs" for x
  proof -
    have "facts_of xs (hd_hash x) \<noteq> None"
      using that by (simp add: facts_of_def map_of_eq_None_iff image_image)
    then have "facts (db_headers (ho_db s')) (hd_hash x) \<noteq> None"
      unfolding s'(3) map_add_None by blast
    then show ?thesis by (simp add: HeaderExists_def)
  qed
  with s(1) s' show ?thesis by blast
qed

end
