(* ===== verification/Header_Branches.thy ===== *)
theory Header_Branches
  imports Header_Start
begin

text \<open>
  The queries on a state with the invariant: the hashes of the best chain, and the way from any
  connected header back to the best chain and up to its tip.
\<close>

subsection \<open>Hashes of the best chain\<close>

lemma hashes_between_cases:
  obtains "hashes_between db stop c f = []" "f < c \<or> BestBlock c db = null_hash"
  | "c \<le> f" "BestBlock c db \<noteq> null_hash" "stop = BestBlock c db" "hashes_between db stop c f = [stop]"
  | "c \<le> f" "BestBlock c db \<noteq> null_hash" "stop \<noteq> BestBlock c db"
    "hashes_between db stop c f = BestBlock c db # hashes_between db stop (c + 1) f"
  using hashes_between.simps [of db stop c f]
  by (cases "c \<le> f"; cases "BestBlock c db = null_hash"; cases "stop = BestBlock c db") (auto simp: Let_def)

lemma hashes_between_map:
  "hashes_between db stop c f =
     map (\<lambda>i. BestBlock (c + int i) db) [0..<length (hashes_between db stop c f)] \<and>
   int (length (hashes_between db stop c f)) \<le> max 0 (f + 1 - c)"
proof (induction "nat (f + 1 - c)" arbitrary: c)
  case 0
  then show ?case by (cases rule: hashes_between_cases [of db stop c f]) auto
next
  case (Suc n)
  show ?case
  proof (cases rule: hashes_between_cases [of db stop c f])
    case 3
    have ih: "hashes_between db stop (c + 1) f =
        map (\<lambda>i. BestBlock (c + 1 + int i) db) [0..<length (hashes_between db stop (c + 1) f)] \<and>
      int (length (hashes_between db stop (c + 1) f)) \<le> max 0 (f + 1 - (c + 1))"
      by (rule Suc.hyps(1)) (use Suc.hyps(2) in simp)
    define r where "r = hashes_between db stop (c + 1) f"
    have "r = map (\<lambda>i. BestBlock (c + int (Suc i)) db) [0..<length r]" "int (length r) \<le> max 0 (f - c)"
      using ih by (simp_all add: r_def algebra_simps)
    then have "BestBlock c db # r = map (\<lambda>i. BestBlock (c + int i) db) [0..<Suc (length r)]"
      by (simp only: map_upt_Suc) simp
    with 3 \<open>int (length r) \<le> max 0 (f - c)\<close> show ?thesis by (simp add: r_def del: upt_Suc)
  qed (use Suc.hyps in auto)
qed

lemma hashes_between_stop:
  assumes "stop \<in> set (butlast (hashes_between db stop c f))"
  shows False
  using assms
proof (induction "nat (f + 1 - c)" arbitrary: c)
  case 0
  then show ?case by (cases rule: hashes_between_cases [of db stop c f]) auto
next
  case (Suc n)
  have "n = nat (f + 1 - (c + 1))" using Suc.hyps(2) by simp
  from Suc.hyps(1) [OF this] Suc.prems show ?case
    by (cases rule: hashes_between_cases [of db stop c f]) (auto split: if_splits)
qed

lemma hashes_between_all:
  assumes "\<forall>k. c \<le> k \<and> k \<le> f \<longrightarrow> BestBlock k db \<noteq> null_hash \<and> BestBlock k db \<noteq> stop"
  shows "hashes_between db stop c f = map (\<lambda>k. BestBlock k db) [c..f]"
  using assms
proof (induction "nat (f + 1 - c)" arbitrary: c)
  case 0
  then show ?case by (simp add: hashes_between.simps)
next
  case (Suc n)
  have n: "n = nat (f + 1 - (c + 1))" and cf: "c \<le> f" using Suc.hyps(2) by simp_all
  have "hashes_between db stop (c + 1) f = map (\<lambda>k. BestBlock k db) [c + 1..f]"
    by (rule Suc.hyps(1) [OF n]) (use Suc.prems in auto)
  moreover have "[c..f] = c # [c + 1..f]" using cf by (rule upto_rec1)
  ultimately show ?case
    using Suc.prems cf by (cases rule: hashes_between_cases [of db stop c f]) auto
qed

lemma best_chain_facts:
  assumes "oracle_inv env s"
  shows "0 \<le> k \<and> k \<le> fst (ho_tip s) \<longleftrightarrow> BestBlock k (ho_db s) \<noteq> null_hash"
    "0 \<le> fst (ho_tip s)" "BestBlock (fst (ho_tip s)) (ho_db s) = snd (ho_tip s)"
    "BestBlock 0 (ho_db s) = env_genesis env"
    "BestBlock k (ho_db s) \<noteq> null_hash \<Longrightarrow> \<exists>x. db_headers (ho_db s) (BestBlock k (ho_db s)) = Some x \<and>
       \<not> IsDisconnected x \<and> hd_height x = k \<and> (0 < k \<longrightarrow> hd_parent x = BestBlock (k - 1) (ho_db s))"
proof -
  have inv: "chain_inv env (ho_db s)" "ho_tip s = best_position (ho_db s)"
    using assms by (simp_all add: oracle_inv_def)
  from inv(1) obtain t and tip :: header where I: "keyed (db_headers (ho_db s))"
    "best_path (env_genesis env) (db_headers (ho_db s)) (db_best (ho_db s)) t"
    "map_of (db_best (ho_db s)) t = Some (hd_hash tip)" "best_position (ho_db s) = (t, hd_hash tip)"
    by (rule chain_invE)
  have t: "ho_tip s = (t, hd_hash tip)" using inv(2) I(4) by simp
  have dom: "map_of (db_best (ho_db s)) k \<noteq> None \<longleftrightarrow> 0 \<le> k \<and> k \<le> t" for k
    using I(2) unfolding best_path_def by blast
  have t0: "0 \<le> t" "map_of (db_best (ho_db s)) 0 = Some (env_genesis env)"
    using I(2) unfolding best_path_def by blast+
  have entry: "\<exists>x. db_headers (ho_db s) h = Some x \<and> \<not> IsDisconnected x \<and> hd_height x = k \<and>
      (0 < k \<longrightarrow> map_of (db_best (ho_db s)) (k - 1) = Some (hd_parent x))"
    if "map_of (db_best (ho_db s)) k = Some h" for k h
    using I(2) that unfolding best_path_def by blast
  have nn: "h \<noteq> null_hash" if "map_of (db_best (ho_db s)) k = Some h" for k h
    using entry [OF that] I(1) by (auto simp: keyed_def)
  show null: "0 \<le> k \<and> k \<le> fst (ho_tip s) \<longleftrightarrow> BestBlock k (ho_db s) \<noteq> null_hash" for k
    using dom [of k] nn [of k] by (auto simp: t BestBlock_def split: option.splits)
  show "0 \<le> fst (ho_tip s)" "BestBlock (fst (ho_tip s)) (ho_db s) = snd (ho_tip s)"
    "BestBlock 0 (ho_db s) = env_genesis env"
    using t0 I(3) by (simp_all add: t BestBlock_def)
  show "\<exists>x. db_headers (ho_db s) (BestBlock k (ho_db s)) = Some x \<and>
       \<not> IsDisconnected x \<and> hd_height x = k \<and> (0 < k \<longrightarrow> hd_parent x = BestBlock (k - 1) (ho_db s))"
    if ne: "BestBlock k (ho_db s) \<noteq> null_hash" for k
  proof -
    from ne null have k: "0 \<le> k" by blast
    then obtain h where h: "map_of (db_best (ho_db s)) k = Some h" "BestBlock k (ho_db s) = h"
      using ne by (auto simp: BestBlock_def split: option.splits)
    from entry [OF h(1)] obtain x where "db_headers (ho_db s) h = Some x" "\<not> IsDisconnected x" "hd_height x = k"
      "0 < k \<longrightarrow> map_of (db_best (ho_db s)) (k - 1) = Some (hd_parent x)" by blast
    with h(2) show ?thesis by (intro exI [of _ x]) (auto simp: BestBlock_def)
  qed
qed

lemma best_hashes_all:
  assumes "oracle_inv env s" "0 \<le> start"
  shows "best_hashes s start null_hash 0 = map (best_hash s) [start..fst (ho_tip s)]"
proof -
  have "hashes_between (ho_db s) null_hash start (fst (ho_tip s)) =
      map (\<lambda>k. BestBlock k (ho_db s)) [start..fst (ho_tip s)]"
  proof (rule hashes_between_all, intro allI impI)
    fix k assume "start \<le> k \<and> k \<le> fst (ho_tip s)"
    with assms(2) have "0 \<le> k \<and> k \<le> fst (ho_tip s)" by simp
    then have "BestBlock k (ho_db s) \<noteq> null_hash" unfolding best_chain_facts(1) [OF assms(1)] .
    then show "BestBlock k (ho_db s) \<noteq> null_hash \<and> BestBlock k (ho_db s) \<noteq> null_hash" by blast
  qed
  then show ?thesis by (simp add: best_hashes_def best_chain_def best_hash_def [abs_def])
qed

subsection \<open>Branches\<close>

lemma in_best_chain_on_best:
  assumes "0 \<le> fst q" "snd q \<noteq> null_hash"
  shows "position_in_best_chain s q \<longleftrightarrow> on_best (ho_db s) q"
  unfolding position_in_best_chain_def at_height_def on_best_BestBlock [OF assms, symmetric] by (rule eq_commute)

lemma hash_in_best_chain_eq:
  assumes "db_headers (ho_db s) h = Some x" "hd_hash x = h"
  shows "hash_in_best_chain s h = (position_in_best_chain s (Position x), hd_height x)"
  using assms
  by (simp add: hash_in_best_chain_def TryLoadHeader_def LoadHeader_def position_in_best_chain_def Position_def)

text \<open>The branch of a connected header: the positions back to the best chain, and where it leaves it.\<close>

definition branch :: "header_oracle \<Rightarrow> header \<Rightarrow> position list \<Rightarrow> position \<Rightarrow> bool" where
  "branch s x qs pos \<longleftrightarrow>
     position_in_best_chain s pos \<and> 0 \<le> fst pos \<and> HeaderExists (snd pos) (ho_db s) \<and>
     linked (db_headers (ho_db s)) (snd pos) (rev qs) \<and> (\<forall>q \<in> set qs. \<not> position_in_best_chain s q) \<and>
     (if qs = [] then pos else hd qs) = Position x"

lemma branch_spec:
  assumes "oracle_inv env s" "db_headers (ho_db s) h = Some x" "\<not> IsDisconnected x"
  shows "\<exists>qs pos. calculate_reorg s (Position x) = Some qs \<and> branch s x qs pos \<and>
    (\<forall>f > nat (hd_height x). parent_on_best f s (0, env_genesis env) (Position x) x = Inr pos)"
proof -
  have inv: "chain_inv env (ho_db s)" using assms(1) by (simp add: oracle_inv_def)
  then obtain t where I: "keyed (db_headers (ho_db s))" "rooted (env_genesis env) (db_headers (ho_db s))"
    "tree (env_add env) (CurrentCheckpoint (ho_db s)) (env_genesis env) (db_headers (ho_db s))"
    by (rule chain_invE)
  let ?m = "db_headers (ho_db s)" and ?P = "position_in_best_chain s"
  note B = best_chain_facts [OF assms(1)]
  have pob: "parent_on_best f s g (Position x) x = Inr (Position x)"
    if "?P (Position x)" "0 < hd_height x" "?m h = Some x" "hd_hash x = h" "0 < f" for f g x h
    using that hash_in_best_chain_eq [OF that(3,4)] by (cases f) (simp_all add: Position_def)
  from I assms(2,3) show ?thesis
  proof (induction rule: tree_induct)
    case (genesis x)
    have x: "hd_height x = 0" "hd_hash x = env_genesis env"
      using I(2) genesis keyedD(1) [OF I(1) genesis] by (auto simp: rooted_def)
    then have p: "Position x = (0, env_genesis env)" by (simp add: Position_def)
    have "HeaderExists (snd (Position x)) (ho_db s)" using p genesis x(2) by (simp add: HeaderExists_def)
    moreover have "?P (Position x)" using B(4) p by (simp add: position_in_best_chain_def at_height_def)
    moreover have "parent_on_best f s (0, env_genesis env) (Position x) x = Inr (Position x)" if "0 < f" for f
      using that p by (cases f) simp_all
    ultimately show ?case
      using x(1) p by (intro exI [of _ "[]"] exI [of _ "Position x"]) (simp add: calculate_reorg_def branch_def)
  next
    case (child h x p)
    have hash: "hd_hash x = h" "hd_hash p = hd_parent x"
      using keyedD(1) [OF I(1) child.hyps(1)] keyedD(1) [OF I(1) child.hyps(4)] by simp_all
    have p0: "0 \<le> hd_height p" by (rule height_nonneg [OF I(1-3) child.hyps(4,5)])
    have xh: "hd_height x = hd_height p + 1" by (rule child.hyps(7))
    show ?case
    proof (cases "?P (Position x)")
      case True
      moreover have "HeaderExists (hd_hash x) (ho_db s)" using child.hyps(1) hash(1) by (simp add: HeaderExists_def)
      ultimately show ?thesis using pob [OF True _ child.hyps(1) hash(1)] xh p0
        by (intro exI [of _ "[]"] exI [of _ "Position x"]) (simp add: calculate_reorg_def branch_def Position_def)
    next
      case False
      from child.IH obtain qs pos where ih: "calculate_reorg s (Position p) = Some qs" "branch s p qs pos"
        "\<forall>f > nat (hd_height p). parent_on_best f s (0, env_genesis env) (Position p) p = Inr pos" by blast
      define n where "n = nat (hd_height p)"
      have n: "hd_height p = int n" using p0 by (simp add: n_def)
      have load: "TryLoadHeader (hd_hash x) (ho_db s) = Some x" "TryLoadHeader (hd_parent x) (ho_db s) = Some p"
        using child.hyps(1,4) hash(1) by (simp_all add: TryLoadHeader_def LoadHeader_def)
      have pp: "(int n, hd_parent x) = Position p" using n hash(2) by (simp add: Position_def)
      have walk: "calculate_reorg s (Position x) = reorg_walk s (Suc n) (Position x)"
        using False xh n by (simp add: calculate_reorg_def Position_def nat_add_distrib)
      have "reorg_walk s (Suc n) (Position x) = Some (Position x # qs)"
      proof (cases "?P (Position p)")
        case True
        with ih(1) have "qs = []" by (simp add: calculate_reorg_def)
        with True load(1) xh n pp show ?thesis by (simp add: Position_def)
      next
        case no: False
        with ih(1) n have "reorg_walk s n (Position p) = Some qs"
          by (simp add: calculate_reorg_def Position_def)
        with no load(1) xh n pp show ?thesis by (simp add: Position_def)
      qed
      moreover have "branch s x (Position x # qs) pos"
      proof -
        have "snd (if qs = [] then pos else hd qs) = hd_parent x"
          using ih(2) hash(2) by (auto simp: branch_def Position_def)
        moreover have "linked ?m (hd_parent x) [Position x]"
          using child.hyps(1,2,4) hash(1) xh by (simp add: Position_def)
        ultimately have "linked ?m (snd pos) (rev qs @ [Position x])"
          unfolding linked_append using ih(2) by (auto simp: branch_def last_rev split: if_splits)
        with ih(2) False show ?thesis by (simp add: branch_def)
      qed
      moreover have "parent_on_best f s (0, env_genesis env) (Position x) x = Inr pos"
        if "f > nat (hd_height x)" for f
      proof -
        from that obtain f' where f': "f = Suc f'" by (cases f) auto
        have "\<not> fst (hash_in_best_chain s (snd (Position x)))"
          using False hash_in_best_chain_eq [OF child.hyps(1) hash(1)] hash(1) by (simp add: Position_def)
        moreover have "nat (hd_height p) < f'" using that f' xh p0 by simp
        ultimately show ?thesis using ih(3) load(2) xh p0 f' by (simp add: Position_def)
      qed
      ultimately show ?thesis using walk by (intro exI [of _ "Position x # qs"] exI [of _ pos]) simp
    qed
  qed
qed

end
