(* ===== verification/Header_Actor.thy ===== *)
theory Header_Actor
  imports Header_Branches
begin

text \<open>
  The actor of the header oracle (\<open>src/blockchain/node/headeroracle/Actor.cpp\<close>): the messages
  it handles one after the other, and the states a sequence of them reaches.

  A message is its payload after the frame with the type. Timers are not modelled: a timer that
  fires is a \<open>StateMachine\<close> message, which may come at any time.
\<close>

datatype message =
    UpdateRemote "height list"
  | JobFinished
  | SubmitHeaders "header option list" \<comment> \<open>a frame that is not a header is \<open>None\<close>\<close>
  | SubmitHash "hash list"
  | Report
  | StateMachine

definition send :: "signal \<Rightarrow> header_oracle \<Rightarrow> header_oracle" where
  "send x s = s\<lparr>ho_signals := ho_signals s @ [x]\<rparr>"

definition do_work :: "header_oracle \<Rightarrow> header_oracle" where
  "do_work s = (if JobIsAvailable s then send JobReadySignal s else s)"

definition process_update_remote_height :: "height list \<Rightarrow> header_oracle \<Rightarrow> header_oracle outcome" where
  "process_update_remote_height body s =
     assert_that ''1_uz < body.size()'' (body \<noteq> [])
       (let (changed, s1) = UpdateRemoteHeight (hd body) s
        in Inr (do_work (if changed then send StateMachineSignal s1 else s1)))"

definition process_submit_block_hash :: "hash list \<Rightarrow> header_oracle \<Rightarrow> header_oracle outcome" where
  "process_submit_block_hash body s =
     (case body of
        [] \<Rightarrow> Inl UndefinedBehaviour
      | hash # _ \<Rightarrow> Inr (do_work (if HeaderExists hash (ho_db s) then s else AddUnknownHash hash s)))"

definition process_submit_block_header ::
  "oracle_env \<Rightarrow> header option list \<Rightarrow> header_oracle \<Rightarrow> header_oracle outcome" where
  "process_submit_block_header env headers s =
     (if headers = [] then Inl Unreachable
      else bind_outcome (AddHeaders env headers s) (\<lambda>(_, s'). Inr s'))"

definition process_report :: "header_oracle \<Rightarrow> header_oracle" where
  "process_report s = send (NewHeaderSignal (best_position (ho_db s))) s"

fun pipeline :: "oracle_env \<Rightarrow> message \<Rightarrow> header_oracle \<Rightarrow> header_oracle outcome" where
  "pipeline env (UpdateRemote body) s = process_update_remote_height body s"
| "pipeline env JobFinished s = Inr (process_job_finished s)"
| "pipeline env (SubmitHeaders headers) s = process_submit_block_header env headers s"
| "pipeline env (SubmitHash body) s = process_submit_block_hash body s"
| "pipeline env Report s = Inr (process_report s)"
| "pipeline env StateMachine s = Inr (do_work s)"

subsection \<open>Invariants\<close>

lemma send_simps [simp]:
  "ho_db (send x s) = ho_db s" "ho_tip (send x s) = ho_tip s" "ho_have_job (send x s) = ho_have_job s"
  "ho_unknown (send x s) = ho_unknown s" "ho_index (send x s) = ho_index s" "ho_remote (send x s) = ho_remote s"
  by (simp_all add: send_def)

lemma do_work_simps [simp]:
  "ho_db (do_work s) = ho_db s" "ho_tip (do_work s) = ho_tip s" "ho_have_job (do_work s) = ho_have_job s"
  "ho_unknown (do_work s) = ho_unknown s" "ho_index (do_work s) = ho_index s" "ho_remote (do_work s) = ho_remote s"
  by (simp_all add: do_work_def)

lemma oracle_inv_cong:
  "ho_db s' = ho_db s \<Longrightarrow> ho_tip s' = ho_tip s \<Longrightarrow> ho_unknown s' = ho_unknown s \<Longrightarrow> ho_index s' = ho_index s \<Longrightarrow>
   oracle_inv env s' = oracle_inv env s"
  by (simp add: oracle_inv_def)

lemma oracle_inv_AddUnknownHash: "oracle_inv env s \<Longrightarrow> oracle_inv env (AddUnknownHash h s)"
  using unknown_ok_AddUnknownHash [of s h] by (simp add: oracle_inv_def) (simp add: AddUnknownHash_def Let_def)

lemma UpdateRemoteHeight_simps [simp]:
  "ho_db (snd (UpdateRemoteHeight v s)) = ho_db s" "ho_tip (snd (UpdateRemoteHeight v s)) = ho_tip s"
  "ho_unknown (snd (UpdateRemoteHeight v s)) = ho_unknown s" "ho_index (snd (UpdateRemoteHeight v s)) = ho_index s"
  "ho_have_job (snd (UpdateRemoteHeight v s)) = ho_have_job s"
  by (simp_all add: UpdateRemoteHeight_def Let_def)

text \<open>
  What a message may hold for the theorems to apply: a payload, and one header that is known or
  that \<open>acceptable\<close> admits.
\<close>

fun admissible :: "oracle_env \<Rightarrow> header_oracle \<Rightarrow> message \<Rightarrow> bool" where
  "admissible env s (UpdateRemote body) = (body \<noteq> [])"
| "admissible env s (SubmitHash body) = (body \<noteq> [])"
| "admissible env s (SubmitHeaders headers) =
     (\<exists>x. headers = [Some x] \<and> (db_headers (ho_db s) (hd_hash x) = None \<longrightarrow> acceptable env s x))"
| "admissible env s _ = True"

lemma pipeline_inv:
  assumes "oracle_inv env s" "storage_works env" "exact_sums (env_add env)" "admissible env s msg"
  shows "\<exists>s'. pipeline env msg s = Inr s' \<and> oracle_inv env s' \<and> knows_more s s' \<and>
    Work (env_add env) (tip_of s) \<le> Work (env_add env) (tip_of s')"
proof (cases msg)
  case (UpdateRemote body)
  obtain changed s1 where u: "UpdateRemoteHeight (hd body) s = (changed, s1)" by (cases "UpdateRemoteHeight (hd body) s")
  then have s1: "ho_db s1 = ho_db s" "ho_tip s1 = ho_tip s" "ho_unknown s1 = ho_unknown s" "ho_index s1 = ho_index s"
    using UpdateRemoteHeight_simps [of "hd body" s] by simp_all
  then have "oracle_inv env (do_work (if changed then send StateMachineSignal s1 else s1))"
    using assms(1) by (subst oracle_inv_cong [of _ s]) simp_all
  with UpdateRemote assms(4) u s1 show ?thesis
    by (simp add: process_update_remote_height_def knows_more_def tip_of_def)
next
  case JobFinished
  then show ?thesis
    using assms(1) by (simp add: process_job_finished_def oracle_inv_def knows_more_def tip_of_def)
next
  case (SubmitHeaders headers)
  then obtain x where x: "headers = [Some x]" "db_headers (ho_db s) (hd_hash x) = None \<Longrightarrow> acceptable env s x"
    using assms(4) by auto
  from AddHeader_received [OF assms(1-3) x(2)] obtain s' where s': "AddHeader env (Some x) s = Inr (True, s')"
    "received env s x s'" by blast
  have "pipeline env msg s = Inr s'"
    using s'(1) SubmitHeaders x(1) by (simp add: process_submit_block_header_def AddHeader_def)
  with received_work [OF assms(1) s'(2)] received_more [OF s'(2)] s'(2) show ?thesis
    by (auto simp: received_def)
next
  case (SubmitHash body)
  then obtain h rest where body: "body = h # rest" using assms(4) by (cases body) auto
  have a: "ho_db (AddUnknownHash h s) = ho_db s" "ho_tip (AddUnknownHash h s) = ho_tip s"
    by (simp_all add: AddUnknownHash_def Let_def)
  have "oracle_inv env (do_work (AddUnknownHash h s))" "oracle_inv env (do_work s)"
    using oracle_inv_AddUnknownHash [OF assms(1)] assms(1) by (simp_all add: oracle_inv_cong [of "do_work _"])
  with SubmitHash body a show ?thesis
    by (simp add: process_submit_block_hash_def knows_more_def tip_of_def)
next
  case Report
  then show ?thesis
    using assms(1) by (simp add: process_report_def knows_more_def tip_of_def oracle_inv_cong [of "send _ s" s])
next
  case StateMachine
  then show ?thesis
    using assms(1) by (simp add: knows_more_def tip_of_def oracle_inv_cong [of "do_work s" s])
qed

subsection \<open>Reachable states\<close>

inductive oracle_reachable :: "oracle_env \<Rightarrow> header_oracle \<Rightarrow> bool" for env where
  started: "genesis_header env x \<Longrightarrow> start_oracle env True x empty_db = Inr s \<Longrightarrow> oracle_reachable env s"
| message: "oracle_reachable env s \<Longrightarrow> admissible env s msg \<Longrightarrow> pipeline env msg s = Inr s' \<Longrightarrow>
    oracle_reachable env s'"
| job: "oracle_reachable env s \<Longrightarrow> oracle_reachable env (snd (GetJob s))"

lemma oracle_reachable_inv:
  assumes "oracle_reachable env s" "storage_works env" "exact_sums (env_add env)"
  shows "oracle_inv env s"
  using assms(1)
proof induction
  case (started x s)
  with start_oracle_ok [OF started(1) assms(2)] show ?case by auto
next
  case (message s msg s')
  with pipeline_inv [OF message.IH assms(2,3) message.hyps(2)] show ?case by auto
next
  case (job s)
  then show ?case by (simp add: GetJob_def oracle_inv_def)
qed

lemma receive_all_reachable:
  assumes "oracle_reachable env s" "storage_works env" "exact_sums (env_add env)" "deliverable env s xs"
    "receive_all env xs s = Inr s'"
  shows "oracle_reachable env s'"
  using assms(1,4,5)
proof (induction xs arbitrary: s)
  case (Cons x xs)
  have inv: "oracle_inv env s" by (rule oracle_reachable_inv [OF Cons.prems(1) assms(2,3)])
  note acc = deliverable_step(1) [OF inv Cons.prems(2)]
  obtain s1 where s1: "AddHeader env (Some x) s = Inr (True, s1)" "received env s x s1"
    using AddHeader_received [OF inv assms(2,3) acc] by blast
  have "oracle_reachable env s1"
    by (rule oracle_reachable.message [OF Cons.prems(1), of "SubmitHeaders [Some x]"])
      (use acc s1(1) in \<open>simp_all add: process_submit_block_header_def AddHeader_def\<close>)
  then show ?case
    by (rule Cons.IH [OF _ deliverable_step(2) [OF inv Cons.prems(2) s1(2)]]) (use Cons.prems(3) s1(1) in simp)
qed simp

end
