(* ===== verification/Header_Safety.thy ===== *)
theory Header_Safety
  imports Header_Actor
begin

text \<open>
  What the invariant gives a user of the oracle: the best chain passes through the checkpoint; the
  queries describe the way to it; hashes that peers announced; header jobs.
\<close>

subsection \<open>Checkpoints\<close>

lemma not_banned_parent:
  assumes "oracle_inv env s" "db_headers (ho_db s) h = Some x" "\<not> IsDisconnected x" "\<not> IsBlacklisted x" "h \<noteq> env_genesis env"
  obtains p where "db_headers (ho_db s) (hd_parent x) = Some p" "\<not> IsDisconnected p" "\<not> IsBlacklisted p"
    "hd_height x = hd_height p + 1"
    "checkpoint_status (GetCheckpoint s) (hd_height x) h \<noteq> StatusCheckpointBanned"
proof -
  have "chain_inv env (ho_db s)" using assms(1) by (simp add: oracle_inv_def)
  then have I: "keyed (db_headers (ho_db s))" "rooted (env_genesis env) (db_headers (ho_db s))"
    "tree (env_add env) (GetCheckpoint s) (env_genesis env) (db_headers (ho_db s))"
    unfolding chain_inv_def GetCheckpoint_def by blast+
  from I(3) assms(2,3,5) obtain p where p: "db_headers (ho_db s) (hd_parent x) = Some p" "\<not> IsDisconnected p"
    "x = under_parent (env_add env) (GetCheckpoint s) p x" "hd_height x = hd_height p + 1" by (rule treeE)
  have st: "EffectiveState p \<in> {StatusNormal, StatusCheckpointBanned}" by (rule connected_state [OF I p(1,2)])
  have hash: "hd_hash x = h" by (rule keyedD(1) [OF I(1) assms(2)])
  have "EffectiveState x \<noteq> StatusCheckpointBanned" using assms(4) by (simp add: IsBlacklisted_def)
  then have "EffectiveState p \<noteq> StatusCheckpointBanned"
    "checkpoint_status (GetCheckpoint s) (hd_height p + 1) h \<noteq> StatusCheckpointBanned"
    using EffectiveState_under_parent [OF st, of "env_add env" "GetCheckpoint s" x] hash
      arg_cong [OF p(3), of EffectiveState] by (auto split: if_splits)
  with p that show ?thesis by (simp add: IsBlacklisted_def)
qed

lemma best_chain_not_banned:
  assumes "oracle_inv env s" "0 \<le> k" "k \<le> fst (ho_tip s)"
  shows "\<exists>x. db_headers (ho_db s) (BestBlock k (ho_db s)) = Some x \<and> \<not> IsDisconnected x \<and> hd_height x = k \<and>
    \<not> IsBlacklisted x"
proof -
  note B = best_chain_facts [OF assms(1)]
  have "\<exists>x. db_headers (ho_db s) (BestBlock (fst (ho_tip s) - int n) (ho_db s)) = Some x \<and> \<not> IsDisconnected x \<and>
      hd_height x = fst (ho_tip s) - int n \<and> \<not> IsBlacklisted x" if "int n \<le> fst (ho_tip s)" for n
    using that
  proof (induction n)
    case 0
    have "chain_inv env (ho_db s)" "ho_tip s = best_position (ho_db s)" using assms(1) by (simp_all add: oracle_inv_def)
    then obtain t and tip :: header where "db_headers (ho_db s) (hd_hash tip) = Some tip" "\<not> IsDisconnected tip"
      "hd_height tip = t" "heaviest (env_add env) (db_headers (ho_db s)) tip" "ho_tip s = (t, hd_hash tip)"
      by (auto elim: chain_invE)
    with B(3) show ?case by (simp add: heaviest_def)
  next
    case (Suc n)
    let ?k = "fst (ho_tip s) - int n"
    from Suc obtain x where x: "db_headers (ho_db s) (BestBlock ?k (ho_db s)) = Some x" "\<not> IsDisconnected x"
      "hd_height x = ?k" "\<not> IsBlacklisted x" by auto
    have k: "0 < ?k" using Suc.prems by simp
    have "BestBlock ?k (ho_db s) \<noteq> null_hash" using B(1) [of ?k] k by auto
    from B(5) [OF this] x k have parent: "hd_parent x = BestBlock (?k - 1) (ho_db s)" by auto
    have "BestBlock ?k (ho_db s) \<noteq> env_genesis env"
    proof
      assume "BestBlock ?k (ho_db s) = env_genesis env"
      moreover have "BestBlock 0 (ho_db s) \<noteq> null_hash" using B(1) [of 0] B(2) by auto
      from B(5) [OF this] obtain y where "db_headers (ho_db s) (env_genesis env) = Some y" "hd_height y = 0"
        unfolding B(4) by blast
      ultimately show False using x k by simp
    qed
    from not_banned_parent [OF assms(1) x(1,2,4) this] obtain p where
      "db_headers (ho_db s) (hd_parent x) = Some p" "\<not> IsDisconnected p" "\<not> IsBlacklisted p"
      "hd_height x = hd_height p + 1" by blast
    with parent x(3) show ?case by (intro exI [of _ p]) (simp add: algebra_simps)
  qed
  from this [of "nat (fst (ho_tip s) - k)"] assms(2,3) show ?thesis by simp
qed

lemma checkpoint_on_best_chain:
  assumes "oracle_inv env s" "GetCheckpoint s = (n, k)" "0 < n" "n \<le> fst (ho_tip s)"
  shows "BestBlock n (ho_db s) = k"
proof -
  note B = best_chain_facts [OF assms(1)]
  obtain x where x: "db_headers (ho_db s) (BestBlock n (ho_db s)) = Some x" "\<not> IsDisconnected x" "hd_height x = n"
    "\<not> IsBlacklisted x" using best_chain_not_banned [OF assms(1), of n] assms(3,4) by auto
  have "BestBlock n (ho_db s) \<noteq> env_genesis env"
  proof
    assume "BestBlock n (ho_db s) = env_genesis env"
    moreover have "BestBlock 0 (ho_db s) \<noteq> null_hash" using B(1) [of 0] B(2) by auto
    from B(5) [OF this] obtain y where "db_headers (ho_db s) (env_genesis env) = Some y" "hd_height y = 0"
      unfolding B(4) by blast
    ultimately show False using x assms(3) by simp
  qed
  from not_banned_parent [OF assms(1) x(1,2,4) this] have
    "checkpoint_status (n, k) n (BestBlock n (ho_db s)) \<noteq> StatusCheckpointBanned"
    using x(3) assms(2) by metis
  then show ?thesis by (simp add: checkpoint_status_def split: if_splits)
qed

subsection \<open>Work\<close>

lemma tip_has_most_work:
  assumes "oracle_inv env s" "GetCheckpoint s = blank_position" "db_headers (ho_db s) h = Some x" "\<not> IsDisconnected x"
  shows "Work (env_add env) x \<le> Work (env_add env) (tip_of s)"
proof -
  have inv: "chain_inv env (ho_db s)" "ho_tip s = best_position (ho_db s)"
    using assms(1) by (simp_all add: oracle_inv_def)
  from inv(1) obtain t and tip :: header where I: "keyed (db_headers (ho_db s))"
    "rooted (env_genesis env) (db_headers (ho_db s))"
    "tree (env_add env) (CurrentCheckpoint (ho_db s)) (env_genesis env) (db_headers (ho_db s))"
    "db_headers (ho_db s) (hd_hash tip) = Some tip" "heaviest (env_add env) (db_headers (ho_db s)) tip"
    "best_position (ho_db s) = (t, hd_hash tip)" by (rule chain_invE)
  have "tip_of s = tip" using I inv(2) by (simp add: tip_of_def)
  with heaviest_all [OF I(1,2) _ I(5) assms(3,4)] I(3) assms(2) show ?thesis by (simp add: GetCheckpoint_def)
qed

subsection \<open>From a branch to the tip\<close>

lemma common_parent_branch:
  assumes "oracle_inv env s" "db_headers (ho_db s) h = Some x" "\<not> IsDisconnected x"
    "card (dom (db_headers (ho_db s))) \<le> env_fuel env"
  shows "\<exists>qs pos. calculate_reorg s (Position x) = Some qs \<and> branch s x qs pos \<and>
    common_parent env s (Position x) = Inr (pos, ho_tip s)"
proof -
  have "chain_inv env (ho_db s)" using assms(1) by (simp add: oracle_inv_def)
  then have I: "keyed (db_headers (ho_db s))" "rooted (env_genesis env) (db_headers (ho_db s))"
    "tree (env_add env) (CurrentCheckpoint (ho_db s)) (env_genesis env) (db_headers (ho_db s))"
    unfolding chain_inv_def by blast+
  from branch_spec [OF assms(1-3)] obtain qs pos where b: "calculate_reorg s (Position x) = Some qs" "branch s x qs pos"
    "\<forall>f > nat (hd_height x). parent_on_best f s (0, env_genesis env) (Position x) x = Inr pos" by blast
  have "nat (hd_height x) < env_fuel env" using height_bound [OF I assms(2,3)] assms(4) by simp
  moreover have "TryLoadHeader (snd (Position x)) (ho_db s) = Some x"
    using assms(2) keyedD(1) [OF I(1) assms(2)] by (simp add: TryLoadHeader_def LoadHeader_def Position_def)
  ultimately have "common_parent env s (Position x) = Inr (pos, ho_tip s)"
    using b(3) by (simp add: common_parent_def best_chain_def)
  with b show ?thesis by blast
qed

lemma zip_positions:
  "zip (map (\<lambda>i. c + int i) [0..<length [c..f]]) (map g [c..f]) = map (\<lambda>k. (k, g k)) [c..f]"
  by (rule nth_equalityI) (auto simp: nth_upto)

lemma BestChain_branch:
  assumes "oracle_inv env s" "common_parent env s q = Inr (pos, tip)" "position_in_best_chain s pos" "0 \<le> fst pos"
    "snd pos \<noteq> null_hash"
  shows "BestChain env s q limit =
    Inr ((if limit = 0 then id else take limit) (map (get_position s) [fst pos..fst (ho_tip s)]))"
proof -
  note B = best_chain_facts [OF assms(1)]
  have "BestBlock (fst pos) (ho_db s) \<noteq> null_hash"
    using assms(3,5) by (simp add: position_in_best_chain_def at_height_def)
  then have le: "fst pos \<le> fst (ho_tip s)" using B(1) [of "fst pos"] by blast
  have get: "get_position s k = (k, best_hash s k)" if "0 \<le> k" "k \<le> fst (ho_tip s)" for k
    using B(1) [of k] that by (simp add: get_position_def best_hash_def Let_def)
  have m: "map (\<lambda>k. (k, best_hash s k)) [fst pos..fst (ho_tip s)] = map (get_position s) [fst pos..fst (ho_tip s)]"
    by (rule map_cong [OF refl]) (use get assms(4) in auto)
  have z: "zip (map (\<lambda>i. fst pos + int i) [0..<length [fst pos..fst (ho_tip s)]])
      (map (best_hash s) [fst pos..fst (ho_tip s)]) = map (get_position s) [fst pos..fst (ho_tip s)]"
    unfolding zip_positions by (rule m)
  have ne: "[fst pos..fst (ho_tip s)] \<noteq> []" using le by simp
  show ?thesis
    using assms(2,4) z ne
    by (simp add: BestChain_def Let_def max_def best_hashes_all [OF assms(1,4)] del: length_upto)
qed

subsection \<open>Announced hashes\<close>

lemma PruneKnownHashes_forgets:
  assumes "PruneKnownHashes env s = Inr s'" "unknown_ok (ho_index s) (ho_unknown s)" "(h, k) \<in> set (ho_index s')"
  shows "fst (ho_tip s) + 2 < k"
proof -
  obtain index m where p: "prune_known (ho_db s) (ho_index s) (ho_index s, ho_unknown s) = Inr (index, m)"
    using assms(1) by (auto simp: PruneKnownHashes_def outcome_rules)
  have u: "unknown_ok index m" using prune_known_all [OF assms(2), of "ho_db s"] p by auto
  define s1 where "s1 = s\<lparr>ho_index := index, ho_unknown := m\<rparr>"
  have e: "ho_index s' = ho_index (prune_unknown s1)" "ho_unknown s' = ho_unknown (prune_unknown s1)"
    using assms(1) p by (auto simp: PruneKnownHashes_def Let_def s1_def split: if_splits)
  have "unknown_ok (ho_index s') (ho_unknown s')"
    unfolding e by (rule prune_unknown_ok) (use u in \<open>simp add: s1_def\<close>)
  then obtain b where "map_of (ho_unknown s') k = Some b"
    using assms(3) ordered_member [of "ho_index s'" h k] by (auto simp: unknown_ok_def)
  then have "(k, b) \<in> set (ho_unknown (prune_unknown s1))" unfolding e by (rule map_of_SomeD)
  then show ?thesis by (auto simp: prune_unknown_def Let_def s1_def)
qed

lemma apply_update_forgets:
  assumes "apply_update env u s = Inr (ok, s')" "unknown_ok (ho_index s) (ho_unknown s)" "(h, k) \<in> set (ho_index s')"
  shows "fst (ho_tip s') + 2 < k"
proof -
  obtain out db signals where A: "ApplyUpdate (env_store_ok env) (env_txn_ok env) u (ho_db s) = (out, db, signals)"
    by (cases "ApplyUpdate (env_store_ok env) (env_txn_ok env) u (ho_db s)")
  obtain x where x: "CurrentBest db = Inr x" using assms(1) A by (auto simp: apply_update_def outcome_rules)
  define s1 where "s1 = s\<lparr>ho_db := db, ho_signals := ho_signals s @ signals, ho_tip := Position x\<rparr>"
  obtain s2 where s2: "PruneKnownHashes env s1 = Inr s2"
    "s' = (if ho_tip s \<noteq> ho_tip s2 then s2\<lparr>ho_signals := ho_signals s2 @ [StateMachineSignal]\<rparr> else s2)"
    using assms(1) A x by (auto simp: apply_update_def outcome_rules s1_def)
  have u: "unknown_ok (ho_index s1) (ho_unknown s1)" using assms(2) by (simp add: s1_def)
  have "ho_tip s2 = ho_tip s1" using PruneKnownHashes_ok [OF u, of env] s2(1) by auto
  moreover have "(h, k) \<in> set (ho_index s2)" using assms(3) s2(2) by (simp split: if_splits)
  ultimately show ?thesis using PruneKnownHashes_forgets [OF s2(1) u] s2(2) by (simp split: if_splits)
qed

subsection \<open>Header jobs\<close>

lemma PruneKnownHashes_job: "PruneKnownHashes env s = Inr s' \<Longrightarrow> ho_have_job s' = ho_have_job s"
  unfolding PruneKnownHashes_def
  by (elim bind_outcome_InrE) (auto simp: Let_def split: prod.splits if_splits)

lemma apply_update_job:
  assumes "apply_update env u s = Inr (ok, s')"
  shows "ho_have_job s' = ho_have_job s"
proof -
  obtain out db signals where A: "ApplyUpdate (env_store_ok env) (env_txn_ok env) u (ho_db s) = (out, db, signals)"
    by (cases "ApplyUpdate (env_store_ok env) (env_txn_ok env) u (ho_db s)")
  obtain x where x: "CurrentBest db = Inr x" using assms A by (auto simp: apply_update_def outcome_rules)
  obtain s2 where s2: "PruneKnownHashes env (s\<lparr>ho_db := db, ho_signals := ho_signals s @ signals, ho_tip := Position x\<rparr>) = Inr s2"
    "s' = (if ho_tip s \<noteq> ho_tip s2 then s2\<lparr>ho_signals := ho_signals s2 @ [StateMachineSignal]\<rparr> else s2)"
    using assms A x by (auto simp: apply_update_def outcome_rules)
  from PruneKnownHashes_job [OF s2(1)] s2(2) show ?thesis by simp
qed

lemma AddHeaders_job: "AddHeaders env headers s = Inr (ok, s') \<Longrightarrow> ho_have_job s' = ho_have_job s"
  using apply_update_job by (fastforce simp: AddHeaders_def outcome_rules split: if_splits)

lemma pipeline_job:
  assumes "pipeline env msg s = Inr s'" "msg \<noteq> JobFinished"
  shows "ho_have_job s' = ho_have_job s"
proof (cases msg)
  case (UpdateRemote body)
  obtain changed s1 where u: "UpdateRemoteHeight (hd body) s = (changed, s1)" by (cases "UpdateRemoteHeight (hd body) s")
  then have "ho_have_job s1 = ho_have_job s" using UpdateRemoteHeight_simps(5) [of "hd body" s] by simp
  with UpdateRemote assms(1) u show ?thesis
    by (cases changed) (auto simp: process_update_remote_height_def outcome_rules)
next
  case (SubmitHeaders headers)
  with assms(1) AddHeaders_job show ?thesis
    by (auto simp: process_submit_block_header_def outcome_rules split: if_splits)
next
  case (SubmitHash body)
  with assms(1) show ?thesis
    by (auto simp: process_submit_block_hash_def AddUnknownHash_def Let_def split: list.splits if_splits)
qed (use assms in \<open>auto simp: process_report_def\<close>)

fun run_messages :: "oracle_env \<Rightarrow> message list \<Rightarrow> header_oracle \<Rightarrow> header_oracle outcome" where
  "run_messages env [] s = Inr s"
| "run_messages env (msg # msgs) s = bind_outcome (pipeline env msg s) (run_messages env msgs)"

lemma run_messages_job:
  "run_messages env msgs s = Inr s' \<Longrightarrow> JobFinished \<notin> set msgs \<Longrightarrow> ho_have_job s' = ho_have_job s"
proof (induction msgs arbitrary: s)
  case (Cons msg msgs)
  then obtain s1 where "pipeline env msg s = Inr s1" "run_messages env msgs s1 = Inr s'"
    by (auto simp: outcome_rules simp del: pipeline.simps)
  with Cons pipeline_job [of env msg s s1] show ?case by auto
qed simp

lemma one_job:
  assumes "GetJob s = (Some hashes, s0)" "JobFinished \<notin> set msgs" "run_messages env msgs s0 = Inr s'"
  shows "fst (GetJob s') = None \<and> length hashes \<le> 100"
proof -
  have "ho_have_job s0" "hashes = RecentHashes (ho_db s)"
    using assms(1) by (auto simp: GetJob_def split: if_splits)
  moreover from run_messages_job [OF assms(3,2)] this have "ho_have_job s'" by simp
  ultimately show ?thesis by (simp add: GetJob_def JobIsAvailable_def RecentHashes_def)
qed

lemma added_headers_forget:
  assumes "oracle_inv env s" "headers \<noteq> []" "AddHeaders env headers s = Inr (True, s')"
  shows "list_all (\<lambda>(h, k). fst (ho_tip s') + 2 < k) (ho_index s')"
proof -
  obtain u where u: "apply_update env u s = Inr (True, s')"
    using assms(2,3) by (auto simp: AddHeaders_def outcome_rules split: if_splits)
  have "unknown_ok (ho_index s) (ho_unknown s)" using assms(1) by (simp add: oracle_inv_def)
  with apply_update_forgets [OF u] show ?thesis by (auto simp: list_all_iff)
qed

subsection \<open>Lists of hashes and positions\<close>

lemma best_hashes_spec:
  fixes s start stop limit
  defines "hashes \<equiv> best_hashes s start stop limit"
  shows "hashes = map (\<lambda>i. best_hash s (start + int i)) [0..<length hashes] \<and>
    (limit = 0 \<or> length hashes \<le> limit) \<and> int (length hashes) \<le> max 0 (fst (ho_tip s) + 1 - start) \<and>
    stop \<notin> set (butlast hashes)"
proof -
  define final where "final = (if limit = 0 then fst (ho_tip s) else min (start + int limit - 1) (fst (ho_tip s)))"
  have h: "hashes = hashes_between (ho_db s) stop start final"
    by (simp add: hashes_def best_hashes_def best_chain_def final_def Let_def)
  note m = hashes_between_map [of "ho_db s" stop start final, folded h]
  have "stop \<notin> set (butlast hashes)" using hashes_between_stop [of stop "ho_db s" start final] h by blast
  moreover have "int (length hashes) \<le> max 0 (final + 1 - start)" using m by blast
  then have "limit = 0 \<or> length hashes \<le> limit" "int (length hashes) \<le> max 0 (fst (ho_tip s) + 1 - start)"
    by (auto simp: final_def split: if_splits)
  moreover have "hashes = map (\<lambda>i. best_hash s (start + int i)) [0..<length hashes]"
    using m by (simp add: best_hash_def)
  ultimately show ?thesis by blast
qed

lemma way_to_tip:
  assumes "oracle_inv env s" "db_headers (ho_db s) h = Some x" "\<not> IsDisconnected x"
    "card (dom (db_headers (ho_db s))) \<le> env_fuel env"
  shows "\<exists>qs pos. calculate_reorg s (Position x) = Some qs \<and> branch s x qs pos \<and>
    common_parent env s (Position x) = Inr (pos, ho_tip s) \<and>
    BestChain env s (Position x) 0 = Inr (map (get_position s) [fst pos..fst (ho_tip s)])"
proof -
  obtain qs pos where q: "calculate_reorg s (Position x) = Some qs" "branch s x qs pos"
    "common_parent env s (Position x) = Inr (pos, ho_tip s)"
    using common_parent_branch [OF assms] by blast
  have pos: "position_in_best_chain s pos" "0 \<le> fst pos" using q(2) by (simp_all add: branch_def)
  have "keyed (db_headers (ho_db s))" using assms(1) by (simp add: oracle_inv_def chain_inv_def)
  then have "snd pos \<noteq> null_hash" using q(2) keyed_null [of "db_headers (ho_db s)"]
    by (intro notI) (simp add: branch_def HeaderExists_def)
  from BestChain_branch [OF assms(1) q(3) pos this, of 0] q show ?thesis
    by (intro exI [of _ qs] exI [of _ pos]) simp
qed

lemma unknown_branch:
  assumes "oracle_inv env s" "\<not> HeaderExists h (ho_db s)" "h \<noteq> null_hash" "0 \<le> n"
  shows "calculate_reorg s (n, h) = None \<and> common_parent env s (n, h) = Inr ((0, env_genesis env), ho_tip s) \<and>
    BestChain env s (n, h) 0 = Inr (map (get_position s) [0..fst (ho_tip s)])"
proof -
  note B = best_chain_facts [OF assms(1)]
  have load: "TryLoadHeader h (ho_db s) = None" using assms(2) by (simp add: HeaderExists_def TryLoadHeader_def LoadHeader_def)
  have "h \<noteq> BestBlock n (ho_db s)"
  proof
    assume e: "h = BestBlock n (ho_db s)"
    with B(5) [of n] assms(2,3) show False by (auto simp: HeaderExists_def)
  qed
  then have no: "\<not> position_in_best_chain s (n, h)" by (simp add: position_in_best_chain_def at_height_def)
  have "reorg_walk s k (n, h) = None" for k using load by (cases k) simp_all
  then have "calculate_reorg s (n, h) = None" using no assms(4) by (simp add: calculate_reorg_def)
  moreover have cp: "common_parent env s (n, h) = Inr ((0, env_genesis env), ho_tip s)"
    using load by (simp add: common_parent_def best_chain_def)
  moreover have "position_in_best_chain s (0, env_genesis env)" "env_genesis env \<noteq> null_hash"
    using B(4) assms(1) by (simp_all add: position_in_best_chain_def at_height_def oracle_inv_def chain_inv_def)
  from BestChain_branch [OF assms(1) cp this(1) _ ] this(2)
  have "BestChain env s (n, h) 0 = Inr (map (get_position s) [0..fst (ho_tip s)])" by simp
  ultimately show ?thesis by blast
qed

end
