(* ===== verification/Header_Examples.thy ===== *)
theory Header_Examples
  imports Header_Safety
begin

text \<open>
  Concrete headers and a concrete environment, for the witnesses and for what one run shows:
  hashes are small numbers, the genesis header has hash 1, every header has work 1, work adds up exactly,
  the capacity of a vector doubles.
\<close>

definition example_env :: "position \<Rightarrow> oracle_env" where
  "example_env cp =
     \<lparr>env_add = (+), env_genesis = 1, env_default_checkpoint = cp,
      env_grow = (\<lambda>n. if n = 0 then 1 else 2 * n), env_store_ok = True, env_txn_ok = True, env_fuel = 20\<rparr>"

definition example_genesis :: header where
  "example_genesis =
     \<lparr>hd_hash = 1, hd_parent = null_hash, hd_work = 1, hd_height = 0, hd_status = StatusNormal,
      hd_inherit_status = StatusNormal, hd_inherit_work = 0\<rparr>"

definition example_header :: "hash \<times> hash \<Rightarrow> header" where
  "example_header = (\<lambda>(h, p).
     \<lparr>hd_hash = h, hd_parent = p, hd_work = 1, hd_height = - 1, hd_status = StatusNormal,
      hd_inherit_status = StatusNormal, hd_inherit_work = 0\<rparr>)"

text \<open>The headers arrive one after the other at an oracle that was started on an empty database.\<close>

definition example_run :: "position \<Rightarrow> (hash \<times> hash) list \<Rightarrow> header_oracle outcome" where
  "example_run cp hs =
     bind_outcome (start_oracle (example_env cp) True example_genesis empty_db)
       (receive_all (example_env cp) (map example_header hs))"

lemma example_env_simps [simp]:
  "storage_works (example_env cp)" "exact_sums (env_add (example_env cp))" "exact_sums (+)"
  "genesis_header (example_env cp) example_genesis"
  "env_fuel (example_env cp) = 20" "env_default_checkpoint (example_env cp) = cp" "env_genesis (example_env cp) = 1"
  "env_add (example_env cp) = (+)"
  by (simp_all add: example_env_def example_genesis_def storage_works_def exact_sums_def genesis_header_def)

lemma example_header_simps [simp]:
  "hd_hash (example_header hp) = fst hp" "hd_parent (example_header hp) = snd hp" "hd_work (example_header hp) = 1"
  "hd_inherit_work (example_header hp) = 0"
  by (simp_all add: example_header_def split: prod.splits)

lemma example_genesis_simps [simp]:
  "hd_hash example_genesis = 1" "hd_parent example_genesis = 0" "hd_work example_genesis = 1"
  "\<not> IsDisconnected example_genesis"
  by (simp_all add: example_genesis_def IsDisconnected_def EffectiveState_def)

lemma example_start:
  obtains s where "start_oracle (example_env cp) True example_genesis empty_db = Inr s"
    "oracle_reachable (example_env cp) s" "oracle_inv (example_env cp) s"
    "db_headers (ho_db s) = [1 \<mapsto> example_genesis]" "ho_tip s = (0, 1)" "db_disconnected (ho_db s) = []"
    "GetCheckpoint s = (if 1 < fst cp then cp else blank_position)" "total_work (db_headers (ho_db s)) = 1"
    "facts (db_headers (ho_db s)) = [1 \<mapsto> (0, 1)]"
proof -
  from start_oracle_ok [of "example_env cp" example_genesis] obtain s where
    s: "start_oracle (example_env cp) True example_genesis empty_db = Inr s" "oracle_inv (example_env cp) s"
    "db_headers (ho_db s) = [1 \<mapsto> example_genesis]" "ho_tip s = (0, 1)" "db_disconnected (ho_db s) = []"
    "GetCheckpoint s = (if 1 < fst cp then cp else blank_position)" by auto
  have "oracle_reachable (example_env cp) s" by (rule oracle_reachable.started [OF _ s(1)]) simp
  moreover have "total_work (db_headers (ho_db s)) = 1" using s(3) by (simp add: total_work_def)
  moreover have "facts (db_headers (ho_db s)) = [1 \<mapsto> (0, 1)]" using s(3) by (auto simp: facts_def fun_eq_iff)
  ultimately show ?thesis using s that by blast
qed

lemma example_deliverable:
  assumes "db_headers (ho_db s) = [1 \<mapsto> example_genesis]" "db_disconnected (ho_db s) = []"
    "list_all (\<lambda>(h, p). h \<noteq> 0 \<and> p \<noteq> h) hs" "distinct (map snd hs)" "length hs < 20"
  shows "deliverable (example_env cp) s (map example_header hs)"
proof (rule start_deliverable [of s example_genesis])
  have "(\<Sum>x \<leftarrow> map example_header hs. hd_work x) = of_nat (length hs)"
    by (induction hs) auto
  moreover have "(of_nat (length hs) :: rat) \<le> of_nat 20" using assms(5) by (subst of_nat_le_iff) simp
  ultimately show "hd_work example_genesis + (\<Sum>x \<leftarrow> map example_header hs. hd_work x) \<le> 2 ^ 53" by simp
qed (use assms in \<open>auto simp: list_all_iff comp_def\<close>)

lemma example_run_ok:
  assumes "list_all (\<lambda>(h, p). h \<noteq> 0 \<and> p \<noteq> h) hs" "distinct (map snd hs)" "length hs < 20"
  obtains s where "example_run cp hs = Inr s" "oracle_reachable (example_env cp) s" "oracle_inv (example_env cp) s"
    "facts (db_headers (ho_db s)) = facts_of (map example_header hs) ++ [1 \<mapsto> (0, 1)]"
    "GetCheckpoint s = (if 1 < fst cp then cp else blank_position)"
proof -
  obtain s0 where s0: "start_oracle (example_env cp) True example_genesis empty_db = Inr s0"
    "oracle_reachable (example_env cp) s0" "oracle_inv (example_env cp) s0"
    "db_headers (ho_db s0) = [1 \<mapsto> example_genesis]" "db_disconnected (ho_db s0) = []"
    "GetCheckpoint s0 = (if 1 < fst cp then cp else blank_position)" "facts (db_headers (ho_db s0)) = [1 \<mapsto> (0, 1)]"
    by (rule example_start)
  note d = example_deliverable [OF s0(4,5) assms]
  from receive_all_ok [OF s0(3) _ _ d] obtain s where s: "receive_all (example_env cp) (map example_header hs) s0 = Inr s"
    "oracle_inv (example_env cp) s" "CurrentCheckpoint (ho_db s) = CurrentCheckpoint (ho_db s0)"
    "facts (db_headers (ho_db s)) = facts_of (map example_header hs) ++ facts (db_headers (ho_db s0))" by auto
  have "oracle_reachable (example_env cp) s"
    by (rule receive_all_reachable [OF s0(2) _ _ d s(1)]) simp_all
  with s s0 that show ?thesis by (simp add: example_run_def GetCheckpoint_def)
qed

end
