(* ===== verification/Header_Properties.thy ===== *)
theory Header_Properties
  imports Header_Examples
begin

text \<open>The properties of the header oracle.\<close>

text \<open>An outcome that can not be compared by evaluation is compared without its value.\<close>

lemma outcome_InlI: "bind_outcome r (\<lambda>_. Inr ()) = Inl e \<Longrightarrow> r = Inl e"
  by (cases r) simp_all

subsection \<open>Receiving headers\<close>

text \<open>
  C1. Let the actor start on an empty database and receive \<open>admissible\<close> messages: each has a payload, and one that
  submits headers has exactly one, which is known already or is \<open>acceptable\<close>: it has a hash and is not its own parent, its
  work is a positive integer and the total of all headers at most \<open>2 ^ 53\<close> (where the sums are exact), no two of
  the headers that wait have the same parent, and the loops have fuel for the headers there are. Writes to the storage
  succeed. In every state that is reached then the invariant of the oracle holds: the connected headers form a tree under the
  genesis header, with the height, the work and the checkpoint state their parents give them; the others wait for a
  missing parent; the best chain is a path of that tree to a header of greatest work that is not banned; the siblings are
  the other leaves. No further admissible message ends the process, removes or moves a header, or replaces the tip by one
  of less work. Without the condition on the waiting headers this is false: \<open>checkpoint_bypassed\<close>,
  \<open>three_waiting_children\<close>.
\<close>

theorem reachable_oracle:
  assumes "oracle_reachable env s" "storage_works env" "exact_sums (env_add env)" "admissible env s msg"
  shows "oracle_inv env s \<and>
    (\<exists>s'. pipeline env msg s = Inr s' \<and> oracle_inv env s' \<and> knows_more s s' \<and>
      Work (env_add env) (tip_of s) \<le> Work (env_add env) (tip_of s'))"
  using oracle_reachable_inv [OF assms(1-3)] pipeline_inv [OF oracle_reachable_inv [OF assms(1-3)] assms(2-4)]
  by blast

lemma reachable_oracle_witness:
  "\<exists>s s'. oracle_reachable (example_env (5, 7)) s \<and>
     pipeline (example_env (5, 7)) (SubmitHeaders [Some (example_header (2, 1))]) s = Inr s' \<and>
     oracle_inv (example_env (5, 7)) s'"
proof -
  obtain s where s: "oracle_reachable (example_env (5, 7)) s" "db_headers (ho_db s) = [1 \<mapsto> example_genesis]"
    "db_disconnected (ho_db s) = []" "total_work (db_headers (ho_db s)) = 1" by (rule example_start)
  have "admissible (example_env (5, 7)) s (SubmitHeaders [Some (example_header (2, 1))])"
    using s by (simp add: acceptable_def only_children_def)
  from reachable_oracle [OF s(1) _ _ this] s(1) show ?thesis by auto
qed

text \<open>
  C4. The order in which headers arrive does not matter if they are \<open>deliverable\<close>: no two of them, or of those that
  wait already, have the same parent, their work is a positive integer and the total of all headers at most
  \<open>2 ^ 53\<close>, and the loops have fuel for all of them. An oracle in a state that admissible messages lead to, with a storage
  that works, receives such headers, all of them different, one by one in two orders: both runs return, both end with the same
  headers and, when one connected header has more work than every other one that is not banned, with the same tip and
  the same best chain.
\<close>

theorem order_of_arrival:
  assumes "oracle_reachable env s" "storage_works env" "exact_sums (env_add env)" "deliverable env s xs"
    "distinct (map hd_hash xs)" "mset ys = mset xs"
  shows "\<exists>s1 s2. receive_all env xs s = Inr s1 \<and> receive_all env ys s = Inr s2 \<and> same_headers s1 s2 \<and>
    (unique_best env s1 \<longrightarrow>
      ho_tip s1 = ho_tip s2 \<and> (\<forall>k. BestBlock k (ho_db s1) = BestBlock k (ho_db s2)))"
  by (rule orders_agree [OF oracle_reachable_inv [OF assms(1-3)] assms(2-6)])

lemma example_headers_loaded:
  "bind_outcome (example_run blank_position [(2, 1), (3, 2)])
     (\<lambda>s. Inr (ho_tip s, map (\<lambda>h. map_option (\<lambda>x. (Work (+) x, IsDisconnected x)) (db_headers (ho_db s) h)) [1, 2, 3])) =
   Inr ((2, 3), [Some (1, False), Some (2, False), Some (3, False)])"
  by code_simp

lemma example_unique_best:
  assumes "example_run blank_position [(2, 1), (3, 2)] = Inr s"
  shows "unique_best (example_env blank_position) s"
proof -
  obtain s' where "example_run blank_position [(2, 1), (3, 2)] = Inr s'"
    "facts (db_headers (ho_db s')) = facts_of (map example_header [(2, 1), (3, 2)]) ++ [1 \<mapsto> (0, 1)]"
    by (rule example_run_ok [of "[(2, 1), (3, 2)]" blank_position]) auto
  with assms have f: "facts (db_headers (ho_db s)) = [2 \<mapsto> (1, 1), 3 \<mapsto> (2, 1), 1 \<mapsto> (0, 1)]"
    by (auto simp: facts_of_def fun_eq_iff)
  have l: "ho_tip s = (2, 3)"
    "map_option (\<lambda>x. (Work (+) x, IsDisconnected x)) (db_headers (ho_db s) 1) = Some (1, False)"
    "map_option (\<lambda>x. (Work (+) x, IsDisconnected x)) (db_headers (ho_db s) 2) = Some (2, False)"
    "map_option (\<lambda>x. (Work (+) x, IsDisconnected x)) (db_headers (ho_db s) 3) = Some (3, False)"
    using example_headers_loaded assms by simp_all
  have dom: "h = 1 \<or> h = 2 \<or> h = 3" if "db_headers (ho_db s) h = Some x" for h x
    using fun_cong [OF f, of h] that by (auto simp: facts_def split: if_splits)
  have parent: "hd_parent x \<noteq> 3" if "db_headers (ho_db s) h = Some x" for h x
    using fun_cong [OF f, of h] that by (auto simp: facts_def split: if_splits)
  have "leaf (db_headers (ho_db s)) 3"
    unfolding leaf_def connected_in_def using l(4) parent by auto
  moreover have "Work (+) x < Work (+) (tip_of s)" if "db_headers (ho_db s) h = Some x" "h \<noteq> 3" for h x
    using dom [OF that(1)] that l by (auto simp: tip_of_def)
  ultimately show ?thesis using l(1) by (simp add: unique_best_def example_env_def)
qed

lemma order_of_arrival_witness:
  "\<exists>s1 s2. example_run blank_position [(2, 1), (3, 2)] = Inr s1 \<and>
     example_run blank_position [(3, 2), (2, 1)] = Inr s2 \<and> ho_tip s1 = ho_tip s2"
proof -
  let ?e = "example_env blank_position"
  obtain s where s: "start_oracle ?e True example_genesis empty_db = Inr s" "oracle_reachable ?e s"
    "db_headers (ho_db s) = [1 \<mapsto> example_genesis]" "db_disconnected (ho_db s) = []" by (rule example_start)
  have d: "deliverable ?e s (map example_header [(2, 1), (3, 2)])"
    by (rule example_deliverable [OF s(3,4)]) simp_all
  from order_of_arrival [OF s(2) _ _ d, of "map example_header [(3, 2), (2, 1)]"] obtain s1 s2 where
    "receive_all ?e (map example_header [(2, 1), (3, 2)]) s = Inr s1"
    "receive_all ?e (map example_header [(3, 2), (2, 1)]) s = Inr s2"
    "unique_best ?e s1 \<longrightarrow> ho_tip s1 = ho_tip s2" by auto
  with s(1) example_unique_best [of s1] show ?thesis by (simp add: example_run_def)
qed

text \<open>
  C23. Receiving headers ends: from the start of the oracle, any sequence of headers of which no two share a parent, of positive
  integer work with a total up to \<open>2 ^ 53\<close>, is received without ending the process, in whatever order it comes, when the
  storage works and the loops have fuel for the number of headers, and all of the headers are stored.
\<close>

theorem headers_are_received:
  assumes "genesis_header env g" "storage_works env" "exact_sums (env_add env)"
    "\<forall>x \<in> set xs. hd_hash x \<noteq> null_hash \<and> hd_parent x \<noteq> hd_hash x \<and> 0 < hd_work x \<and> hd_work x \<in> \<int> \<and>
       hd_inherit_work x \<in> \<int>"
    "distinct (map hd_parent xs)" "hd_work g + (\<Sum>x \<leftarrow> xs. hd_work x) \<le> 2 ^ 53" "length xs < env_fuel env"
  shows "\<exists>s s'. start_oracle env True g empty_db = Inr s \<and> receive_all env xs s = Inr s' \<and>
    oracle_inv env s' \<and> (\<forall>x \<in> set xs. HeaderExists (hd_hash x) (ho_db s'))"
  by (rule start_and_receive [OF assms])

lemma headers_are_received_witness:
  "\<exists>s'. example_run blank_position [(4, 3), (2, 1), (3, 2)] = Inr s' \<and> HeaderExists 4 (ho_db s')"
  using headers_are_received [of "example_env blank_position" example_genesis
      "map example_header [(4, 3), (2, 1), (3, 2)]"]
  by (auto simp: example_run_def)

subsection \<open>The best chain\<close>

text \<open>
  C9. In a state that is reached from an empty database by admissible messages (one header each, of integer work with a total up to
  \<open>2 ^ 53\<close>, no two waiting headers with the same parent, fuel for all of them, and a storage that works), and that has no checkpoint, no connected
  header has more work than the tip of the best chain.
\<close>

theorem most_work:
  assumes "oracle_reachable env s" "storage_works env" "exact_sums (env_add env)"
    "GetCheckpoint s = blank_position" "db_headers (ho_db s) h = Some x" "\<not> IsDisconnected x"
  shows "Work (env_add env) x \<le> Work (env_add env) (tip_of s)"
  by (rule tip_has_most_work [OF oracle_reachable_inv [OF assms(1-3)] assms(4-6)])

lemma most_work_witness:
  "\<exists>s x. example_run blank_position [(2, 1), (3, 2)] = Inr s \<and> db_headers (ho_db s) 2 = Some x \<and>
     Work (env_add (example_env blank_position)) x \<le> Work (env_add (example_env blank_position)) (tip_of s)"
proof -
  obtain s where s: "example_run blank_position [(2, 1), (3, 2)] = Inr s"
    "oracle_reachable (example_env blank_position) s" "GetCheckpoint s = blank_position"
    by (rule example_run_ok [of "[(2, 1), (3, 2)]" blank_position]) auto
  with example_headers_loaded obtain x where "db_headers (ho_db s) 2 = Some x" "\<not> IsDisconnected x" by auto
  with most_work [OF s(2) _ _ s(3), of 2 x] s(1) show ?thesis by auto
qed

text \<open>
  C7. In a state that is reached from an empty database by admissible messages (one header each, of integer work with a total up to
  \<open>2 ^ 53\<close>, no two waiting headers with the same parent, fuel for all of them, and a storage that works), a best chain that reaches the height of
  the checkpoint passes through it, and none of its headers is banned. Two headers that wait for the same parent defeat
  this: \<open>checkpoint_bypassed\<close>.
\<close>

theorem checkpoint_respected:
  assumes "oracle_reachable env s" "storage_works env" "exact_sums (env_add env)"
    "GetCheckpoint s = (n, k)" "0 < n" "n \<le> fst (ho_tip s)" "0 \<le> i" "i \<le> fst (ho_tip s)"
  shows "BestBlock n (ho_db s) = k \<and>
    (\<exists>x. db_headers (ho_db s) (BestBlock i (ho_db s)) = Some x \<and> hd_height x = i \<and> \<not> IsBlacklisted x)"
  using checkpoint_on_best_chain [OF oracle_reachable_inv [OF assms(1-3)] assms(4-6)]
    best_chain_not_banned [OF oracle_reachable_inv [OF assms(1-3)] assms(7,8)] by blast

lemma checkpoint_respected_witness:
  "\<exists>s. example_run (2, 3) [(2, 1), (3, 2), (4, 3)] = Inr s \<and> ho_tip s = (3, 4) \<and> BestBlock 2 (ho_db s) = 3"
proof -
  obtain s where s: "example_run (2, 3) [(2, 1), (3, 2), (4, 3)] = Inr s"
    "oracle_reachable (example_env (2, 3)) s" "GetCheckpoint s = (2, 3)"
    by (rule example_run_ok [of "[(2, 1), (3, 2), (4, 3)]" "(2, 3)"]) auto
  have "bind_outcome (example_run (2, 3) [(2, 1), (3, 2), (4, 3)]) (\<lambda>s. Inr (ho_tip s)) = Inr (3, 4)"
    by code_simp
  with s(1) have "ho_tip s = (3, 4)" by simp
  with checkpoint_respected [OF s(2) _ _ s(3), of 0] s(1) show ?thesis by auto
qed

text \<open>
  C22. In a state that is reached by admissible messages, and with fuel for all headers: from any connected header,
  \<open>calculate_reorg\<close> lists the positions back to the best chain,
  newest first, each the child of the next and none on the best chain; \<open>common_parent\<close> gives the position where they
  leave the best chain, and \<open>BestChain\<close> the positions from there to the tip.
\<close>

theorem way_to_the_tip:
  assumes "oracle_reachable env s" "storage_works env" "exact_sums (env_add env)"
    "db_headers (ho_db s) h = Some x" "\<not> IsDisconnected x" "card (dom (db_headers (ho_db s))) \<le> env_fuel env"
  shows "\<exists>qs pos. calculate_reorg s (Position x) = Some qs \<and> branch s x qs pos \<and>
    common_parent env s (Position x) = Inr (pos, ho_tip s) \<and>
    BestChain env s (Position x) 0 = Inr (map (get_position s) [fst pos..fst (ho_tip s)])"
  by (rule way_to_tip [OF oracle_reachable_inv [OF assms(1-3)] assms(4-6)])

lemma way_to_the_tip_witness:
  "\<exists>s x qs pos. example_run blank_position [(2, 1), (3, 2)] = Inr s \<and> db_headers (ho_db s) 2 = Some x \<and>
     calculate_reorg s (Position x) = Some qs \<and>
     common_parent (example_env blank_position) s (Position x) = Inr (pos, ho_tip s)"
proof -
  obtain s where s: "example_run blank_position [(2, 1), (3, 2)] = Inr s"
    "oracle_reachable (example_env blank_position) s"
    "facts (db_headers (ho_db s)) = facts_of (map example_header [(2, 1), (3, 2)]) ++ [1 \<mapsto> (0, 1)]"
    by (rule example_run_ok [of "[(2, 1), (3, 2)]" blank_position]) auto
  with example_headers_loaded obtain x where x: "db_headers (ho_db s) 2 = Some x" "\<not> IsDisconnected x" by auto
  have "dom (db_headers (ho_db s)) = {1, 2, 3}"
    using arg_cong [OF s(3), of dom] by (auto simp: facts_of_def)
  with way_to_the_tip [OF s(2) _ _ x] s(1) x show ?thesis by auto
qed

text \<open>C26. \<open>best_hashes\<close> returns consecutive hashes of the best chain from the first height on, at
  most as many as the limit allows and none above the tip, and ends with the stop hash when it meets it; without limit and stop
  hash it returns all of them up to the tip.\<close>

theorem best_hashes_result:
  assumes "oracle_reachable env s" "storage_works env" "exact_sums (env_add env)" "0 \<le> start"
  shows "(let hashes = best_hashes s start stop limit
      in hashes = map (\<lambda>i. best_hash s (start + int i)) [0..<length hashes] \<and>
         (limit = 0 \<or> length hashes \<le> limit) \<and> int (length hashes) \<le> max 0 (fst (best_chain s) + 1 - start) \<and>
         stop \<notin> set (butlast hashes)) \<and>
    best_hashes s start null_hash 0 = map (best_hash s) [start..fst (best_chain s)]"
  unfolding Let_def best_chain_def
  using best_hashes_spec [of s start stop limit] best_hashes_all [OF oracle_reachable_inv [OF assms(1-3)] assms(4)]
  by (rule conjI)

lemma best_hashes_result_witness:
  "\<exists>s. example_run blank_position [(2, 1), (3, 2)] = Inr s \<and>
     best_hashes s 0 null_hash 0 = map (best_hash s) [0..fst (best_chain s)] \<and> length (best_hashes s 1 null_hash 1) \<le> 1"
proof -
  obtain s where s: "example_run blank_position [(2, 1), (3, 2)] = Inr s"
    "oracle_reachable (example_env blank_position) s"
    by (rule example_run_ok [of "[(2, 1), (3, 2)]" blank_position]) auto
  from best_hashes_result [OF s(2), of 0 null_hash 0] best_hashes_result [OF s(2), of 1 null_hash 1] s(1)
  show ?thesis by (auto simp: Let_def)
qed

text \<open>A position with an unknown hash has no branch: \<open>calculate_reorg\<close> throws, \<open>common_parent\<close> is the
  genesis position and \<open>BestChain\<close> the whole best chain.\<close>

theorem unknown_position:
  assumes "oracle_reachable env s" "storage_works env" "exact_sums (env_add env)"
    "\<not> HeaderExists h (ho_db s)" "h \<noteq> null_hash" "0 \<le> n"
  shows "calculate_reorg s (n, h) = None \<and> common_parent env s (n, h) = Inr ((0, env_genesis env), ho_tip s) \<and>
    BestChain env s (n, h) 0 = Inr (map (get_position s) [0..fst (ho_tip s)])"
  by (rule unknown_branch [OF oracle_reachable_inv [OF assms(1-3)] assms(4-6)])

lemma unknown_position_witness:
  "\<exists>s. oracle_reachable (example_env blank_position) s \<and> calculate_reorg s (1, 9) = None"
proof -
  obtain s where s: "oracle_reachable (example_env blank_position) s" "db_headers (ho_db s) = [1 \<mapsto> example_genesis]"
    by (rule example_start)
  with unknown_position [OF s(1), of 9 1] show ?thesis by (auto simp: HeaderExists_def)
qed

subsection \<open>Jobs and announcements\<close>

text \<open>At most one header job is outstanding: after a job was given out none is given again until a message
  reports that it is finished, whatever other messages come. A job starts from at most 100 hashes.\<close>

theorem one_job_at_a_time:
  assumes "GetJob s = (Some hashes, s0)" "JobFinished \<notin> set msgs" "run_messages env msgs s0 = Inr s'"
  shows "fst (GetJob s') = None \<and> length hashes \<le> 100"
  by (rule one_job [OF assms])

lemma one_job_at_a_time_witness:
  "\<exists>s s0 s' hashes. GetJob s = (Some hashes, s0) \<and>
     run_messages (example_env (2, 3)) [SubmitHash [9], UpdateRemote [4]] s0 = Inr s' \<and> fst (GetJob s') = None"
proof -
  obtain s where s: "start_oracle (example_env (2, 3)) True example_genesis empty_db = Inr s" by (rule example_start)
  have "bind_outcome (start_oracle (example_env (2, 3)) True example_genesis empty_db)
      (\<lambda>s. bind_outcome (run_messages (example_env (2, 3)) [SubmitHash [9], UpdateRemote [4]] (snd (GetJob s)))
         (\<lambda>_. Inr (fst (GetJob s) \<noteq> None))) = Inr True"
    by code_simp
  with s obtain s' hashes where r: "run_messages (example_env (2, 3)) [SubmitHash [9], UpdateRemote [4]] (snd (GetJob s)) = Inr s'"
    and g: "GetJob s = (Some hashes, snd (GetJob s))"
    by (cases "run_messages (example_env (2, 3)) [SubmitHash [9], UpdateRemote [4]] (snd (GetJob s))";
        cases "GetJob s") auto
  have "fst (GetJob s') = None" using one_job_at_a_time [OF g _ r] by simp
  with g r show ?thesis by blast
qed

text \<open>A hash that a peer announces is recorded under the height of the tip at that time. After
  headers were added, no hash is remembered that was announced at a height up to two above the new tip: each announcement is
  forgotten by the next update, unless the chain became shorter by more than two.\<close>

theorem announcements_are_forgotten:
  assumes "oracle_reachable env s" "storage_works env" "exact_sums (env_add env)" "headers \<noteq> []"
    "AddHeaders env headers s = Inr (True, s')"
  shows "list_all (\<lambda>(h, k). fst (ho_tip s') + 2 < k) (ho_index s')"
  using added_headers_forget [OF oracle_reachable_inv [OF assms(1-3)] assms(4,5)] .

lemma announcements_are_forgotten_witness:
  "\<exists>s s1 s2. oracle_reachable (example_env blank_position) s \<and>
     pipeline (example_env blank_position) (SubmitHash [9]) s = Inr s1 \<and> ho_index s1 = [(9, 0)] \<and>
     AddHeaders (example_env blank_position) [Some (example_header (2, 1))] s1 = Inr (True, s2) \<and>
     list_all (\<lambda>(h, k). fst (ho_tip s2) + 2 < k) (ho_index s2)"
proof -
  let ?e = "example_env blank_position"
  obtain s where s: "start_oracle ?e True example_genesis empty_db = Inr s" "oracle_reachable ?e s" by (rule example_start)
  have "bind_outcome (start_oracle ?e True example_genesis empty_db)
      (\<lambda>s. bind_outcome (pipeline ?e (SubmitHash [9]) s)
         (\<lambda>s1. bind_outcome (AddHeaders ?e [Some (example_header (2, 1))] s1) (\<lambda>(ok, _). Inr (ho_index s1, ok)))) =
      Inr ([(9, 0)], True)"
    by code_simp
  with s(1) obtain s1 s2 where r: "pipeline ?e (SubmitHash [9]) s = Inr s1" "ho_index s1 = [(9, 0)]"
    "AddHeaders ?e [Some (example_header (2, 1))] s1 = Inr (True, s2)"
    by (auto simp: outcome_rules simp del: pipeline.simps)
  have "oracle_reachable ?e s1" by (rule oracle_reachable.message [OF s(2) _ r(1)]) simp
  from announcements_are_forgotten [OF this _ _ _ r(3)] r s(2) show ?thesis by auto
qed

subsection \<open>Checkpoints\<close>

text \<open>A checkpoint above all connected headers can be added when there is none: the call
  succeeds, keeps the headers and the tip, and the invariant holds for the new checkpoint.\<close>

theorem checkpoint_above_headers:
  assumes "oracle_reachable env s" "storage_works env" "exact_sums (env_add env)"
    "GetCheckpoint s = blank_position" "2 \<le> n"
    "\<forall>h x. db_headers (ho_db s) h = Some x \<longrightarrow> \<not> IsDisconnected x \<longrightarrow> hd_height x < n"
  shows "\<exists>s'. AddCheckpoint env n k s = Inr (True, s') \<and> oracle_inv env s' \<and> GetCheckpoint s' = (n, k) \<and>
    db_headers (ho_db s') = db_headers (ho_db s) \<and> ho_tip s' = ho_tip s \<and>
    db_disconnected (ho_db s') = db_disconnected (ho_db s)"
  by (rule AddCheckpoint_above [OF oracle_reachable_inv [OF assms(1-3)] assms(2) assms(4) [unfolded GetCheckpoint_def] assms(5,6)])

lemma checkpoint_above_headers_witness:
  "\<exists>s s'. oracle_reachable (example_env blank_position) s \<and>
     AddCheckpoint (example_env blank_position) 2 3 s = Inr (True, s') \<and> GetCheckpoint s' = (2, 3)"
proof -
  let ?e = "example_env blank_position"
  obtain s where s: "oracle_reachable ?e s" "db_headers (ho_db s) = [1 \<mapsto> example_genesis]"
    "GetCheckpoint s = blank_position" by (rule example_start [of blank_position]) auto
  have "\<forall>h x. db_headers (ho_db s) h = Some x \<longrightarrow> \<not> IsDisconnected x \<longrightarrow> hd_height x < 2"
    using s(2) by (auto simp: example_genesis_def split: if_splits)
  from checkpoint_above_headers [OF s(1) _ _ s(3) _ this, of 3] s(1) show ?thesis by auto
qed

text \<open>
  An example of what the condition on waiting headers excludes. With a checkpoint at height 2 on
  hash 3, the headers 3 and 4, both children of the missing header 2, arrive first; when 2 arrives, the banned header 4
  becomes the tip.
\<close>

theorem checkpoint_bypassed:
  "bind_outcome (example_run (2, 3) [(3, 2), (4, 2), (2, 1)])
     (\<lambda>s. Inr (GetCheckpoint s, ho_tip s, map_option IsBlacklisted (db_headers (ho_db s) 4))) =
   Inr ((2, 3), (2, 4), Some True)"
  by code_simp

text \<open>Three headers that wait for the same parent make the arrival of the parent use a reference into a
  vector that has been reallocated; two do not.\<close>

theorem three_waiting_children:
  "example_run blank_position [(3, 2), (4, 2), (5, 2), (2, 1)] = Inl DanglingReference \<and>
   bind_outcome (example_run blank_position [(3, 2), (4, 2), (2, 1)]) (\<lambda>s. Inr (ho_tip s)) = Inr (2, 3)"
  proof
  show "example_run blank_position [(3, 2), (4, 2), (5, 2), (2, 1)] = Inl DanglingReference"
    by (rule outcome_InlI) code_simp
  show "bind_outcome (example_run blank_position [(3, 2), (4, 2), (2, 1)]) (\<lambda>s. Inr (ho_tip s)) = Inr (2, 3)"
    by code_simp
qed

text \<open>A checkpoint the best chain satisfies already can not be set when there is a branch that leaves the
  best chain below it: with the best chain 1, 2, 3, 4 and the branch 1, 5, 6, 7, the checkpoint 4 at height 3 ends the
  process, and the checkpoint 3 at height 2 is refused, which ends the process when the oracle starts with it.\<close>

theorem checkpoint_and_branches:
  "bind_outcome (example_run blank_position [(2, 1), (3, 2), (4, 3), (5, 1), (6, 5), (7, 6)])
     (\<lambda>s. Inr (bind_outcome (AddCheckpoint (example_env (3, 4)) 3 4 s) (\<lambda>_. Inr ()),
              bind_outcome (AddCheckpoint (example_env (2, 3)) 2 3 s) (\<lambda>(ok, _). Inr ok),
              bind_outcome (Init (example_env (2, 3)) s) (\<lambda>_. Inr ()))) =
   Inr (Inl Terminated, Inr False, Inl (AssertFailed ''added''))"
  by code_simp

text \<open>A checkpoint on a shorter branch leaves an entry of the best chain above its tip and reports the
  change as a new header and not as a reorganisation; deleting a checkpoint does not bring back the chain it
  banned.\<close>

theorem checkpoint_leftovers:
  "bind_outcome (example_run blank_position [(2, 1), (3, 2), (4, 3), (5, 2)])
     (\<lambda>s. bind_outcome (AddCheckpoint (example_env (2, 5)) 2 5 s)
        (\<lambda>(ok, s'). Inr (ok, ho_tip s', BestBlock 3 (ho_db s'), drop (length (ho_signals s)) (ho_signals s')))) =
     Inr (True, (2, 5), 4, [NewHeaderSignal (2, 5), StateMachineSignal]) \<and>
   bind_outcome (example_run (2, 9) [(2, 1), (3, 2), (4, 3)])
     (\<lambda>s. bind_outcome (DeleteCheckpoint (example_env (2, 9)) s)
        (\<lambda>(ok, s'). Inr (ok, GetCheckpoint s', ho_tip s', map_option IsBlacklisted (db_headers (ho_db s') 4)))) =
     Inr (True, blank_position, (1, 2), Some True)"
  by (intro conjI; code_simp)

end
