(* ===== verification/Bit_Stream.thy ===== *)
theory Bit_Stream
  imports OT_Prelude
begin

text \<open>
  \<open>BitReader\<close> and \<open>BitWriter\<close> (\<open>src/blockchain/Blockchain.cpp\<close>,
  \<open>src/internal/blockchain/Blockchain.hpp\<close>): streams of bits over vectors of bytes, with a
  64-bit accumulator. The lemmas show that a writer is a list of bits which \<open>write\<close> extends
  on the right, and that a reader is a list of bits from which \<open>read\<close> takes a prefix, most
  significant bit first.
\<close>

unbundle bit_operations_syntax

section \<open>Bits of words\<close>

text \<open>The low \<open>n\<close> bits of a word, the most significant one first.\<close>

primrec bits :: "nat \<Rightarrow> 'a::len word \<Rightarrow> bool list" where
  "bits 0 w = []"
| "bits (Suc n) w = bit w n # bits n w"

definition of_bits :: "bool list \<Rightarrow> 'a::len word" where
  "of_bits bs = foldl (\<lambda>w b. 2 * w + of_bool b) 0 bs"

lemma length_bits [simp]: "length (bits n w) = n"
  by (induction n) simp_all

lemma nth_bits: "i < n \<Longrightarrow> bits n w ! i = bit w (n - Suc i)"
  by (induction n arbitrary: i) (auto simp: nth_Cons' not_less_eq less_Suc_eq)

lemma bits_eqI:
  assumes "length bs = n" and "\<And>i. i < n \<Longrightarrow> bit w i = bs ! (n - Suc i)"
  shows "bits n w = bs"
  using assms by (intro nth_equalityI) (auto simp: nth_bits)

lemma bits_split: "bits (n + m) w = bits n (drop_bit m w) @ bits m w"
  by (rule bits_eqI) (auto simp: nth_append nth_bits bit_drop_bit_eq algebra_simps)

lemma bits_Suc_end: "bits (Suc n) w = bits n (drop_bit 1 w) @ [bit w 0]"
  using bits_split [of n 1 w] by simp

lemma bits_take_bit: "n \<le> m \<Longrightarrow> bits n (take_bit m w) = bits n w"
  by (rule bits_eqI) (auto simp: nth_bits bit_take_bit_iff)

lemma bits_cong_take: "take_bit n v = take_bit n w \<Longrightarrow> bits n v = bits n w"
  by (metis bits_take_bit order_refl)

lemma bits_zero: "bits n 0 = replicate n False"
  by (induction n) simp_all

lemma bits_1: "bits (Suc 0) w = [bit w 0]"
  by simp

lemma of_bits_Nil [simp]: "of_bits [] = 0"
  by (simp add: of_bits_def)

lemma of_bits_snoc: "of_bits (bs @ [b]) = 2 * of_bits bs + of_bool b"
  by (simp add: of_bits_def)

lemma of_bits_bits [simp]: "of_bits (bits n w) = take_bit n w"
proof (induction n arbitrary: w)
  case (Suc n)
  have "of_bits (bits (Suc n) w) = 2 * take_bit n (drop_bit 1 w) + of_bool (bit w 0)"
    by (simp only: bits_Suc_end of_bits_snoc Suc.IH)
  also have "\<dots> = take_bit (Suc n) w"
    by (simp add: take_bit_Suc drop_bit_Suc bit_0 mod_2_eq_odd)
  finally show ?case .
qed simp

lemma of_bits_zeros [simp]: "of_bits (replicate n False) = (0 :: 'a::len word)"
  using of_bits_bits [of n "0 :: 'a word"] by (simp add: bits_zero)

lemma take_bit_drop_bit_fit:
  "take_bit n w = w \<Longrightarrow> t \<le> n \<Longrightarrow> take_bit t (drop_bit (n - t) w) = drop_bit (n - t) w"
  for w :: "'a::len word"
  by (metis drop_bit_take_bit le_add_diff_inverse2 diff_diff_cancel)

lemma bits_push_or:
  assumes "take_bit m v = (v :: 'a::len word)" and "n + m \<le> LENGTH('a)"
  shows "bits (n + m) (push_bit m w OR v) = bits n w @ bits m v"
proof (rule bits_eqI)
  fix i assume i: "i < n + m"
  have v: "\<not> bit v i" if "m \<le> i"
    using that assms(1) by (metis bit_take_bit_iff not_less)
  show "bit (push_bit m w OR v) i = (bits n w @ bits m v) ! (n + m - Suc i)"
    using i assms(2) v
    by (auto simp: nth_append nth_bits bit_or_iff bit_push_bit_iff)
qed simp

lemma take_bit_push_or:
  assumes "take_bit m v = (v :: 'a::len word)" and "take_bit n w = w"
  shows "take_bit (n + m) (push_bit m w OR v) = push_bit m w OR v"
proof -
  have "take_bit (n + m) v = v"
    using assms(1) by (metis le_add2 min.absorb2 take_bit_take_bit)
  moreover have "take_bit (n + m) (push_bit m w) = push_bit m w"
    using assms(2) by (simp add: take_bit_push_bit)
  ultimately show ?thesis by simp
qed

lemma take_bit_of_bits: "take_bit n w = w \<Longrightarrow> of_bits (bits n w) = w"
  by simp

text \<open>\<open>BITMASK\<close>, for shifts the language defines.\<close>

definition BITMASK :: "nat \<Rightarrow> 64 word" where
  "BITMASK n = push_bit n 1 - 1"

lemma BITMASK_mask: "n < 64 \<Longrightarrow> BITMASK n = mask n"
  by (simp add: BITMASK_def mask_eq_exp_minus_1 push_bit_eq_mult)

lemma and_BITMASK [simp]: "n < 64 \<Longrightarrow> w AND BITMASK n = take_bit n w"
  by (simp add: BITMASK_mask take_bit_eq_mask)

section \<open>The writer\<close>

text \<open>
  \<open>output_\<close>, \<open>accum_\<close> and \<open>n_\<close> of the code. In the outer loop of \<open>write\<close> the
  source shifts by up to \<open>nbits\<close>, which the language defines below 64 only.
\<close>

record bit_writer =
  writer_output :: "8 word list"
  writer_accum :: "64 word"
  writer_n :: nat

definition BitWriter :: bit_writer where
  "BitWriter = \<lparr>writer_output = [], writer_accum = 0, writer_n = 0\<rparr>"

definition emit_byte :: "bit_writer \<Rightarrow> bit_writer" where
  "emit_byte w = (let n = writer_n w; accum = writer_accum w in
    w\<lparr>writer_output := writer_output w @ [ucast (drop_bit (n - 8) accum AND BITMASK 8)],
      writer_n := n - 8,
      writer_accum := accum AND BITMASK (n - 8)\<rparr>)"

lemma emit_byte_simps [simp]:
  "writer_output (emit_byte w) =
    writer_output w @ [ucast (drop_bit (writer_n w - 8) (writer_accum w) AND BITMASK 8)]"
  "writer_n (emit_byte w) = writer_n w - 8"
  "writer_accum (emit_byte w) = writer_accum w AND BITMASK (writer_n w - 8)"
  by (simp_all add: emit_byte_def Let_def)

function emit_bytes :: "bit_writer \<Rightarrow> bit_writer" where
  "emit_bytes w = (if writer_n w \<ge> 8 then emit_bytes (emit_byte w) else w)"
  by pat_completeness auto

termination emit_bytes
  by (relation "measure writer_n") auto

declare emit_bytes.simps [simp del]

lemma writer_n_emit_bytes: "writer_n (emit_bytes w) < 8"
  by (induction w rule: emit_bytes.induct) (subst emit_bytes.simps, simp)

definition write_bits :: "nat \<Rightarrow> nat \<Rightarrow> 64 word \<Rightarrow> bit_writer \<Rightarrow> bit_writer" where
  "write_bits nb nbits v w = emit_bytes
    (w\<lparr>writer_accum := push_bit nb (writer_accum w) OR drop_bit (nbits - nb) v,
       writer_n := writer_n w + nb\<rparr>)"

function write_loop :: "nat \<Rightarrow> 64 word \<Rightarrow> bit_writer \<Rightarrow> bit_writer" where
  "write_loop nbits v w =
    (if nbits = 0 then w
     else
       let nb = min (64 - writer_n w) nbits;
           masked = v AND BITMASK nbits
       in write_loop (nbits - nb) masked (write_bits nb nbits masked w))"
  by pat_completeness auto

termination write_loop
  by (relation "measures [\<lambda>(nbits, v, w). nbits, \<lambda>(nbits, v, w). writer_n w]")
     (auto simp: write_bits_def intro: order_less_le_trans [OF writer_n_emit_bytes])

declare write_loop.simps [simp del]

definition BitWriter_write :: "nat \<Rightarrow> 64 word \<Rightarrow> bit_writer \<Rightarrow> bit_writer outcome" where
  "BitWriter_write nbits v w =
    (if nbits < 64 then Inr (write_loop nbits v w) else Inl UndefinedBehaviour)"

definition BitWriter_flush :: "bit_writer \<Rightarrow> bit_writer outcome" where
  "BitWriter_flush w =
    (if writer_n w > 0 then
       assert_that ''n_ < 8u'' (writer_n w < 8)
         (let result = push_bit (8 - writer_n w)
                (ucast (writer_accum w AND BITMASK (writer_n w)) :: 8 word)
          in Inr (w\<lparr>writer_output := writer_output w @ [result],
                    writer_n := 0, writer_accum := 0\<rparr>))
     else Inr w)"

subsection \<open>A writer is a list of bits\<close>

definition byte_bits :: "8 word list \<Rightarrow> bool list" where
  "byte_bits bs = concat (map (bits 8) bs)"

lemma byte_bits_simps [simp]:
  "byte_bits [] = []"
  "byte_bits (b # bs) = bits 8 b @ byte_bits bs"
  "byte_bits (bs @ cs) = byte_bits bs @ byte_bits cs"
  by (simp_all add: byte_bits_def)

definition writer_bits :: "bit_writer \<Rightarrow> bool list" where
  "writer_bits w = byte_bits (writer_output w) @ bits (writer_n w) (writer_accum w)"

definition writer_inv :: "bit_writer \<Rightarrow> bool" where
  "writer_inv w \<longleftrightarrow> writer_n w < 8"

lemma bits_ucast: "n \<le> LENGTH('b) \<Longrightarrow> bits n (ucast w :: 'b::len word) = bits n (w :: 'a::len word)"
  by (rule bits_eqI) (auto simp: nth_bits bit_simps dest: bit_imp_le_length)

lemma emit_byte_bits:
  assumes "8 \<le> writer_n w" "writer_n w \<le> 64"
  shows "writer_bits (emit_byte w) = writer_bits w"
proof -
  have n: "writer_n w = 8 + (writer_n w - 8)" and m: "writer_n w - 8 < 64"
    using assms by simp_all
  have "bits (writer_n w) (writer_accum w)
    = bits 8 (drop_bit (writer_n w - 8) (writer_accum w)) @ bits (writer_n w - 8) (writer_accum w)"
    by (subst n, rule bits_split)
  then show ?thesis
    using m by (simp add: writer_bits_def bits_ucast bits_take_bit)
qed

lemma emit_bytes_bits:
  "writer_n w \<le> 64 \<Longrightarrow> writer_bits (emit_bytes w) = writer_bits w"
proof (induction w rule: emit_bytes.induct)
  case (1 w)
  then show ?case
    by (subst emit_bytes.simps) (simp add: emit_byte_bits)
qed

lemma write_bits_bits:
  assumes "writer_n w + nb \<le> 64" "nb \<le> nbits" "take_bit nbits v = v"
  shows "writer_bits (write_bits nb nbits v w)
    = writer_bits w @ bits nb (drop_bit (nbits - nb) v)"
  using assms by (simp add: write_bits_def emit_bytes_bits)
    (simp add: writer_bits_def bits_push_or take_bit_drop_bit_fit)

lemma writer_inv_write_bits [simp]: "writer_inv (write_bits nb nbits v w)"
  by (simp add: write_bits_def writer_inv_def writer_n_emit_bytes)

lemma write_loop_spec:
  assumes "nbits < 64" "writer_inv w"
  shows "writer_inv (write_loop nbits v w)
    \<and> writer_bits (write_loop nbits v w) = writer_bits w @ bits nbits v"
  using assms
proof (induction nbits v w rule: write_loop.induct)
  case (1 nbits v w)
  show ?case
  proof (cases "nbits = 0")
    case True
    then show ?thesis
      using "1.prems" by (simp add: write_loop.simps [of 0])
  next
    case False
    let ?nb = "min (64 - writer_n w) nbits" and ?m = "take_bit nbits v"
    let ?w = "write_bits ?nb nbits ?m w"
    have masked: "v AND BITMASK nbits = ?m"
      using "1.prems"(1) by (rule and_BITMASK)
    have split: "bits nbits v
      = bits ?nb (drop_bit (nbits - ?nb) ?m) @ bits (nbits - ?nb) ?m"
      using bits_split [of ?nb "nbits - ?nb" ?m] by (simp add: bits_take_bit)
    have "writer_bits ?w = writer_bits w @ bits ?nb (drop_bit (nbits - ?nb) ?m)"
      using "1.prems"(2) by (intro write_bits_bits) (auto simp: writer_inv_def)
    moreover have "writer_inv (write_loop (nbits - ?nb) ?m ?w)
      \<and> writer_bits (write_loop (nbits - ?nb) ?m ?w)
        = writer_bits ?w @ bits (nbits - ?nb) ?m"
      using "1.IH" [OF False refl refl] "1.prems"(1) unfolding masked by simp
    moreover have "write_loop nbits v w = write_loop (nbits - ?nb) ?m ?w"
      using False by (subst write_loop.simps) (simp add: Let_def masked)
    ultimately show ?thesis
      by (simp add: split)
  qed
qed

lemma BitWriter_write_spec:
  assumes "nbits < 64" "writer_inv w"
  obtains w' where "BitWriter_write nbits v w = Inr w'" "writer_inv w'"
    "writer_bits w' = writer_bits w @ bits nbits v"
  using write_loop_spec [OF assms, of v] assms by (auto simp: BitWriter_write_def)

text \<open>\<open>flush\<close> fills the last byte with zeros.\<close>

definition padding :: "nat \<Rightarrow> nat" where
  "padding n = (if n mod 8 = 0 then 0 else 8 - n mod 8)"

lemma length_byte_bits [simp]: "length (byte_bits bs) = 8 * length bs"
  by (induction bs) simp_all

lemma BitWriter_flush_spec:
  assumes "writer_inv w"
  obtains w' where "BitWriter_flush w = Inr w'"
    "byte_bits (writer_output w')
      = writer_bits w @ replicate (padding (length (writer_bits w))) False"
proof (cases "writer_n w = 0")
  case True
  then show ?thesis
    using that [of w] by (simp add: BitWriter_flush_def writer_bits_def padding_def)
next
  case False
  let ?n = "writer_n w"
  have n: "?n < 8" using assms by (simp add: writer_inv_def)
  let ?b = "ucast (take_bit ?n (writer_accum w)) :: 8 word"
  have fit: "take_bit ?n ?b = ?b"
    by (rule bit_word_eqI) (auto simp: bit_simps)
  have "bits (?n + (8 - ?n)) (push_bit (8 - ?n) ?b OR 0) = bits ?n ?b @ bits (8 - ?n) (0 :: 8 word)"
    by (rule bits_push_or) (use n in simp_all)
  then have "bits 8 (push_bit (8 - ?n) ?b) = bits ?n (writer_accum w) @ replicate (8 - ?n) False"
    using n by (simp add: bits_ucast bits_take_bit bits_zero)
  moreover have "padding (length (writer_bits w)) = 8 - ?n"
    using n False by (simp add: padding_def writer_bits_def)
  ultimately show ?thesis
    using n False that by (simp add: BitWriter_flush_def Let_def writer_bits_def)
qed

section \<open>The reader\<close>

text \<open>
  \<open>data_\<close> with \<open>len_\<close> of the code are the bytes which are still unread.
\<close>

record bit_reader =
  reader_data :: "8 word list"
  reader_accum :: "64 word"
  reader_n :: nat

definition BitReader :: "8 word list \<Rightarrow> bit_reader" where
  "BitReader raw = \<lparr>reader_data = raw, reader_accum = 0, reader_n = 0\<rparr>"

definition BitReader_eof :: "bit_reader \<Rightarrow> bool" where
  "BitReader_eof r \<longleftrightarrow> length (reader_data r) = 0 \<and> reader_n r = 0"

definition four_bytes :: "8 word \<Rightarrow> 8 word \<Rightarrow> 8 word \<Rightarrow> 8 word \<Rightarrow> 64 word" where
  "four_bytes a b c d = ucast
    (push_bit 24 (ucast a) OR push_bit 16 (ucast b) OR push_bit 8 (ucast c) OR ucast d :: 32 word)"

definition refill :: "bit_reader \<Rightarrow> bit_reader option" where
  "refill r =
    (if reader_n r = 0 then
       case reader_data r of
         a # b # c # d # e # rest \<Rightarrow>
           Some (r\<lparr>reader_accum := four_bytes a b c d, reader_data := e # rest, reader_n := 32\<rparr>)
       | a # rest \<Rightarrow>
           Some (r\<lparr>reader_accum := ucast a, reader_data := rest, reader_n := 8\<rparr>)
       | [] \<Rightarrow> None
     else Some r)"

lemma refill_positive: "refill r = Some r' \<Longrightarrow> 0 < reader_n r'"
  by (auto simp: refill_def split: if_splits list.splits)

function read_loop :: "nat \<Rightarrow> 64 word \<Rightarrow> bit_reader \<Rightarrow> 64 word \<times> bit_reader" where
  "read_loop nbits ret r =
    (if nbits = 0 then (ret, r)
     else case refill r of
       None \<Rightarrow> (0, r)
     | Some r' \<Rightarrow>
         let toread = min (reader_n r') nbits;
             n = reader_n r' - toread
         in read_loop (nbits - toread)
              (push_bit toread ret OR drop_bit n (reader_accum r'))
              (r'\<lparr>reader_n := n, reader_accum := reader_accum r' AND BITMASK n\<rparr>))"
  by pat_completeness auto

termination read_loop
  by (relation "measure (\<lambda>(nbits, ret, r). nbits)") (auto dest: refill_positive)

declare read_loop.simps [simp del]

definition BitReader_read :: "nat \<Rightarrow> bit_reader \<Rightarrow> (64 word \<times> bit_reader) outcome" where
  "BitReader_read nbits r = assert_that ''nbits < 32u'' (nbits < 32) (Inr (read_loop nbits 0 r))"

subsection \<open>A reader is a list of bits\<close>

definition reader_bits :: "bit_reader \<Rightarrow> bool list" where
  "reader_bits r = bits (reader_n r) (reader_accum r) @ byte_bits (reader_data r)"

definition reader_inv :: "bit_reader \<Rightarrow> bool" where
  "reader_inv r \<longleftrightarrow> reader_n r \<le> 32 \<and> take_bit (reader_n r) (reader_accum r) = reader_accum r"

lemma reader_inv_BitReader [simp]: "reader_inv (BitReader raw)"
  by (simp add: reader_inv_def BitReader_def)

lemma reader_bits_BitReader [simp]: "reader_bits (BitReader raw) = byte_bits raw"
  by (simp add: reader_bits_def BitReader_def)

lemma take_bit_ucast_byte: "8 \<le> n \<Longrightarrow> take_bit n (ucast (a :: 8 word)) = (ucast a :: 'a::len word)"
  by (rule bit_word_eqI) (auto simp: bit_simps dest: bit_imp_le_length)

lemma push_or_byte:
  "n + 8 \<le> LENGTH('a) \<Longrightarrow>
    bits (n + 8) (push_bit 8 w OR ucast (a :: 8 word) :: 'a::len word) = bits n w @ bits 8 a"
  by (simp add: bits_push_or take_bit_ucast_byte bits_ucast)

lemma four_bytes_bits: "bits 32 (four_bytes a b c d) = bits 8 a @ bits 8 b @ bits 8 c @ bits 8 d"
proof -
  let ?u = "\<lambda>x :: 8 word. ucast x :: 32 word"
  have "push_bit 24 (?u a) OR push_bit 16 (?u b) OR push_bit 8 (?u c) OR ?u d
    = push_bit 8 (push_bit 8 (push_bit 8 (?u a) OR ?u b) OR ?u c) OR ?u d"
    by (simp add: push_bit_or or.assoc)
  moreover have "bits (((8 + 8) + 8) + 8)
      (push_bit 8 (push_bit 8 (push_bit 8 (?u a) OR ?u b) OR ?u c) OR ?u d)
    = ((bits 8 (?u a) @ bits 8 b) @ bits 8 c) @ bits 8 d"
    by (subst push_or_byte, simp)+ simp
  ultimately show ?thesis
    by (simp add: four_bytes_def bits_ucast)
qed

lemma refill_Some:
  assumes "refill r = Some r'" "reader_inv r"
  shows "reader_inv r' \<and> reader_bits r' = reader_bits r"
proof -
  have "take_bit 32 (four_bytes a b c d) = four_bytes a b c d" for a b c d
    unfolding four_bytes_def by (rule bit_word_eqI) (auto simp: bit_simps dest: bit_imp_le_length)
  with assms show ?thesis
    by (auto simp: refill_def reader_inv_def reader_bits_def four_bytes_bits bits_ucast
      take_bit_ucast_byte split: if_splits list.splits)
qed

lemma refill_None: "refill r = None \<Longrightarrow> reader_bits r = []"
  by (auto simp: refill_def reader_bits_def split: if_splits list.splits)

text \<open>
  Reading past the end gives 0, also when some of the bits were there, and leaves nothing to read.
\<close>

definition take_bits :: "nat \<Rightarrow> bool list \<Rightarrow> 64 word \<times> bool list" where
  "take_bits n bs = (if n \<le> length bs then (of_bits (take n bs), drop n bs) else (0, []))"

lemma take_drop_step:
  assumes "as = bs @ cs" "length bs = t" "t \<le> n"
  shows "n \<le> length as \<longleftrightarrow> n - t \<le> length cs" "take n as = bs @ take (n - t) cs"
    "drop n as = drop (n - t) cs"
  using assms by auto

lemma read_loop_spec:
  assumes "reader_inv r" "take_bit k ret = ret" "k + nbits \<le> 64"
  shows "case read_loop nbits ret r of (v, r') \<Rightarrow> reader_inv r' \<and>
    (if nbits \<le> length (reader_bits r)
     then take_bit (k + nbits) v = v \<and> bits (k + nbits) v = bits k ret @ take nbits (reader_bits r)
       \<and> reader_bits r' = drop nbits (reader_bits r)
     else v = 0 \<and> reader_bits r' = [])"
  using assms
proof (induction nbits ret r arbitrary: k rule: read_loop.induct)
  case (1 nbits ret r)
  show ?case
  proof (cases "nbits = 0")
    case True
    then show ?thesis using "1.prems" by (simp add: read_loop.simps [of 0])
  next
    case pos: False
    show ?thesis
    proof (cases "refill r")
      case None
      then show ?thesis
        using "1.prems" pos by (subst read_loop.simps) (simp add: refill_None)
    next
      case (Some r')
      let ?t = "min (reader_n r') nbits"
      let ?n = "reader_n r' - ?t"
      let ?c = "drop_bit ?n (reader_accum r')"
      let ?ret = "push_bit ?t ret OR ?c"
      let ?r = "r'\<lparr>reader_n := ?n, reader_accum := reader_accum r' AND BITMASK ?n\<rparr>"
      have r': "reader_inv r'" "reader_bits r' = reader_bits r"
        using refill_Some [OF Some "1.prems"(1)] by simp_all
      have n: "?n < 64" "reader_n r' = ?t + ?n"
        using r'(1) by (auto simp: reader_inv_def)
      have c: "take_bit ?t ?c = ?c"
        using take_bit_drop_bit_fit [of "reader_n r'" "reader_accum r'" ?t] r'(1)
        by (simp add: reader_inv_def)
      have all: "reader_bits r = bits ?t ?c @ reader_bits ?r"
        using bits_split [of ?t ?n "reader_accum r'"] n
        by (simp flip: r'(2)) (simp add: reader_bits_def bits_take_bit)
      have inv: "reader_inv ?r"
        using r'(1) and_BITMASK [OF n(1)] by (auto simp: reader_inv_def simp del: and_BITMASK)
      have ret: "take_bit (k + ?t) ?ret = ?ret" "bits (k + ?t) ?ret = bits k ret @ bits ?t ?c"
        using take_bit_push_or [OF c "1.prems"(2)] bits_push_or [OF c, of k ret] "1.prems"(3)
        by simp_all
      have IH: "case read_loop (nbits - ?t) ?ret ?r of (v, r') \<Rightarrow> reader_inv r' \<and>
        (if nbits - ?t \<le> length (reader_bits ?r)
         then take_bit (k + ?t + (nbits - ?t)) v = v
           \<and> bits (k + ?t + (nbits - ?t)) v = bits (k + ?t) ?ret @ take (nbits - ?t) (reader_bits ?r)
           \<and> reader_bits r' = drop (nbits - ?t) (reader_bits ?r)
         else v = 0 \<and> reader_bits r' = [])"
        using "1.IH" [OF pos Some refl refl inv ret(1)] "1.prems"(3) by simp
      have step: "read_loop nbits ret r = read_loop (nbits - ?t) ?ret ?r"
        using pos Some by (subst read_loop.simps) (simp add: Let_def)
      have le: "?t \<le> nbits" and k: "k + ?t + (nbits - ?t) = k + nbits"
        by simp_all
      show ?thesis
        unfolding step take_drop_step [OF all length_bits le]
        using IH unfolding k ret(2) append_assoc .
    qed
  qed
qed

lemma BitReader_read_spec:
  assumes "nbits < 32" "reader_inv r"
  obtains v r' where "BitReader_read nbits r = Inr (v, r')" "reader_inv r'"
    "(v, reader_bits r') = take_bits nbits (reader_bits r)"
proof -
  obtain v r' where read: "read_loop nbits 0 r = (v, r')" by fastforce
  have spec: "reader_inv r'"
    "if nbits \<le> length (reader_bits r)
     then take_bit nbits v = v \<and> bits nbits v = take nbits (reader_bits r)
       \<and> reader_bits r' = drop nbits (reader_bits r)
     else v = 0 \<and> reader_bits r' = []"
    using read_loop_spec [OF assms(2), of 0 0 nbits] assms(1) read by (auto split: if_splits)
  then have "(v, reader_bits r') = take_bits nbits (reader_bits r)"
    using of_bits_bits [of nbits v] by (auto simp: take_bits_def simp del: of_bits_bits split: if_splits)
  then show ?thesis
    using assms(1) read spec(1) that by (simp add: BitReader_read_def)
qed

end
