(* ===== verification/Prefix_Codes.thy ===== *)
theory Prefix_Codes
  imports OT_Prelude
begin

text \<open>
  The contract of the serializers of the network formats: what an encoder writes, the decoder
  takes off the front of any input. What follows from it for sequences of values is proved once,
  in the locale; the theories of the encodings interpret it on the model of the code.
\<close>

text \<open>The loop of the parsers: decode \<open>n\<close> values one after the other.\<close>

primrec decode_many :: "('b list \<Rightarrow> ('a \<times> 'b list) option) \<Rightarrow> nat \<Rightarrow> 'b list \<Rightarrow> ('a list \<times> 'b list) option" where
  "decode_many dec 0 bs = Some ([], bs)"
| "decode_many dec (Suc n) bs =
    (case dec bs of None \<Rightarrow> None
     | Some (x, bs') \<Rightarrow> (case decode_many dec n bs' of None \<Rightarrow> None
        | Some (xs, bs'') \<Rightarrow> Some (x # xs, bs'')))"

locale prefix_code =
  fixes enc :: "'a \<Rightarrow> 'b list"
    and dec :: "'b list \<Rightarrow> ('a \<times> 'b list) option"
    and ok :: "'a \<Rightarrow> bool"
  assumes dec_enc: "ok x \<Longrightarrow> dec (enc x @ rest) = Some (x, rest)"
begin

lemma prefix_free:
  assumes "ok x" "ok y" "enc x @ r = enc y @ s"
  shows "x = y \<and> r = s"
proof -
  have "dec (enc y @ s) = Some (x, r)"
    using dec_enc [OF assms(1), of r] unfolding assms(3) .
  moreover have "dec (enc y @ s) = Some (y, s)"
    by (rule dec_enc) (rule assms(2))
  ultimately show ?thesis by simp
qed

lemma dec_enc_end: "ok x \<Longrightarrow> dec (enc x) = Some (x, [])"
  using dec_enc [of x "[]"] by simp

lemma decode_many_enc:
  "list_all ok xs \<Longrightarrow>
    decode_many dec (length xs) (concat (map enc xs) @ rest) = Some (xs, rest)"
  by (induction xs) (simp_all add: dec_enc)

lemma enc_inj: "inj_on enc (Collect ok)"
proof (rule inj_onI)
  fix x y assume "x \<in> Collect ok" "y \<in> Collect ok" "enc x = enc y"
  then show "x = y"
    using prefix_free [of x y "[]" "[]"] by simp
qed

end

end
