(* ===== verification/Golomb_Code.thy ===== *)
theory Golomb_Code
  imports Bit_Stream Prefix_Codes
begin

text \<open>
  The Golomb-Rice coding of sets of hashes (\<open>golomb_encode\<close>, \<open>golomb_decode\<close>,
  \<open>GolombEncode\<close>, \<open>GolombDecode\<close> of \<open>src/blockchain/cfilter/GCSImp.cpp\<close>) over the bit
  streams. A value is its quotient in unary and its remainder in \<open>P\<close> bits; the elements of a
  set are coded as their differences.
\<close>

unbundle bit_operations_syntax

section \<open>One value\<close>

definition bitmask :: "nat \<Rightarrow> 64 word outcome" where
  "bitmask n =
    (if n < 32 then Inr (ucast (push_bit n (1 :: 32 word) - 1)) else Inl UndefinedBehaviour)"

primrec write_ones :: "nat \<Rightarrow> bit_writer \<Rightarrow> bit_writer outcome" where
  "write_ones 0 w = Inr w"
| "write_ones (Suc n) w = bind_outcome (BitWriter_write 1 1 w) (write_ones n)"

definition golomb_encode :: "nat \<Rightarrow> 64 word \<Rightarrow> bit_writer \<Rightarrow> bit_writer outcome" where
  "golomb_encode P v w =
    bind_outcome (bitmask P) (\<lambda>m.
      let remainder = v AND m;
          quot = drop_bit P v
      in bind_outcome (write_ones (unat quot) w) (\<lambda>w.
         bind_outcome (BitWriter_write 1 0 w) (BitWriter_write P remainder)))"

text \<open>The loop ends because every bit of value 1 was in the stream.\<close>

definition unread :: "bit_reader \<Rightarrow> nat" where
  "unread r = reader_n r + 8 * length (reader_data r)"

lemma read_one_unread:
  assumes "BitReader_read 1 r = Inr (v, r')" "v = 1"
  shows "unread r' < unread r"
proof (cases "refill r")
  case None
  then show ?thesis
    using assms by (simp add: BitReader_read_def read_loop.simps [of "Suc 0"])
next
  case (Some s)
  have "unread s = unread r"
    using Some by (auto simp: refill_def unread_def split: if_splits list.splits)
  moreover have "unread r' < unread s"
    using assms Some refill_positive [OF Some]
    by (auto simp: BitReader_read_def read_loop.simps [of "Suc 0"] read_loop.simps [of 0] Let_def unread_def)
  ultimately show ?thesis by simp
qed

function read_ones :: "64 word \<Rightarrow> bit_reader \<Rightarrow> (64 word \<times> bit_reader) outcome" where
  "read_ones quot r =
    (case BitReader_read 1 r of
       Inl e \<Rightarrow> Inl e
     | Inr (v, r') \<Rightarrow> if v = 1 then read_ones (quot + 1) r' else Inr (quot, r'))"
  by pat_completeness auto

termination read_ones
  by (relation "measure (\<lambda>(quot, r). unread r)") (auto intro: read_one_unread)

declare read_ones.simps [simp del]

definition golomb_decode :: "nat \<Rightarrow> bit_reader \<Rightarrow> (64 word \<times> bit_reader) outcome" where
  "golomb_decode P r =
    bind_outcome (read_ones 0 r) (\<lambda>(quot, r).
    bind_outcome (BitReader_read P r) (\<lambda>(remainder, r).
      Inr (push_bit P quot + remainder, r)))"

subsection \<open>The code word\<close>

definition golomb_bits :: "nat \<Rightarrow> 64 word \<Rightarrow> bool list" where
  "golomb_bits P v = replicate (unat (drop_bit P v)) True @ False # bits P v"

fun unary_bits :: "bool list \<Rightarrow> nat \<times> bool list" where
  "unary_bits (True # bs) = (case unary_bits bs of (q, rest) \<Rightarrow> (Suc q, rest))"
| "unary_bits (False # bs) = (0, bs)"
| "unary_bits [] = (0, [])"

definition golomb_parse :: "nat \<Rightarrow> bool list \<Rightarrow> 64 word \<times> bool list" where
  "golomb_parse P bs =
    (case unary_bits bs of (q, rest) \<Rightarrow>
     case take_bits P rest of (remainder, rest) \<Rightarrow> (push_bit P (of_nat q) + remainder, rest))"

lemma unary_bits_replicate [simp]: "unary_bits (replicate n True @ False # bs) = (n, bs)"
  by (induction n) simp_all

lemma take_bits_bits [simp]: "take_bits n (bits n v @ rest) = (take_bit n v, rest)"
  by (simp add: take_bits_def)

lemma golomb_parse_bits: "golomb_parse P (golomb_bits P v @ rest) = (v, rest)"
  by (simp add: golomb_parse_def golomb_bits_def bits_ident)

interpretation golomb: prefix_code "golomb_bits P" "\<lambda>bs. Some (golomb_parse P bs)" "\<lambda>_. True"
  by unfold_locales (simp add: golomb_parse_bits)

lemma bitmask_and: "P < 32 \<Longrightarrow> bitmask P = Inr (mask P)"
  by (simp add: bitmask_def mask_eq_exp_minus_1 [symmetric] push_bit_eq_mult)
     (rule bit_word_eqI, auto simp: bit_simps)

lemma write_ones_spec:
  assumes "writer_inv w"
  shows "\<exists>w'. write_ones n w = Inr w' \<and> writer_inv w'
    \<and> writer_bits w' = writer_bits w @ replicate n True"
  using assms
proof (induction n arbitrary: w)
  case (Suc n)
  obtain w1 where w1: "BitWriter_write 1 1 w = Inr w1" "writer_inv w1"
    "writer_bits w1 = writer_bits w @ bits 1 (1 :: 64 word)"
    by (rule BitWriter_write_spec [of 1 w 1]) (use Suc.prems in auto)
  then show ?case
    using Suc.IH [OF w1(2)] by auto
qed simp

lemma golomb_encode_spec:
  assumes "P < 32" "writer_inv w"
  shows "\<exists>w'. golomb_encode P v w = Inr w' \<and> writer_inv w'
    \<and> writer_bits w' = writer_bits w @ golomb_bits P v"
proof -
  obtain w1 where w1: "write_ones (unat (drop_bit P v)) w = Inr w1" "writer_inv w1"
    "writer_bits w1 = writer_bits w @ replicate (unat (drop_bit P v)) True"
    using write_ones_spec [OF assms(2)] by blast
  obtain w2 where w2: "BitWriter_write 1 0 w1 = Inr w2" "writer_inv w2"
    "writer_bits w2 = writer_bits w1 @ bits 1 (0 :: 64 word)"
    by (rule BitWriter_write_spec [of 1 w1 0]) (use w1 in auto)
  obtain w3 where w3: "BitWriter_write P (take_bit P v) w2 = Inr w3" "writer_inv w3"
    "writer_bits w3 = writer_bits w2 @ bits P (take_bit P v)"
    by (rule BitWriter_write_spec [of P w2 "take_bit P v"]) (use assms w2 in auto)
  then show ?thesis
    using assms(1) w1 w2
    by (simp add: golomb_encode_def bitmask_and flip: take_bit_eq_mask)
       (simp add: golomb_bits_def bits_take_bit)
qed

lemma read_ones_spec:
  assumes "reader_inv r"
  shows "\<exists>q r'. read_ones quot r = Inr (quot + of_nat q, r') \<and> reader_inv r'
    \<and> unary_bits (reader_bits r) = (q, reader_bits r')"
  using assms
proof (induction quot r rule: read_ones.induct)
  case (1 quot r)
  obtain v r' where r': "BitReader_read 1 r = Inr (v, r')" "reader_inv r'"
    "(v, reader_bits r') = take_bits 1 (reader_bits r)"
    by (rule BitReader_read_spec [of 1 r]) (use "1.prems" in auto)
  show ?case
  proof (cases "v = 1")
    case True
    then have "reader_bits r = True # reader_bits r'"
      using r'(3) by (cases "reader_bits r") (auto simp: take_bits_def of_bits_def split: if_splits)
    moreover obtain q s where "read_ones (quot + 1) r' = Inr (quot + 1 + of_nat q, s)"
      "reader_inv s" "unary_bits (reader_bits r') = (q, reader_bits s)"
      using "1.IH" [OF r'(1) refl True r'(2)] by blast
    ultimately show ?thesis
      using r'(1) True
      by (subst read_ones.simps) (intro exI [of _ "Suc q"] exI [of _ s], simp add: algebra_simps)
  next
    case False
    then have "unary_bits (reader_bits r) = (0, reader_bits r')"
      using r'(3) by (cases "reader_bits r") (auto simp: take_bits_def of_bits_def split: if_splits)
    then show ?thesis
      using r' False by (subst read_ones.simps) auto
  qed
qed

lemma golomb_decode_spec:
  assumes "P < 32" "reader_inv r"
  shows "\<exists>v r'. golomb_decode P r = Inr (v, r') \<and> reader_inv r'
    \<and> golomb_parse P (reader_bits r) = (v, reader_bits r')"
proof -
  obtain q r1 where r1: "read_ones 0 r = Inr (of_nat q, r1)" "reader_inv r1"
    "unary_bits (reader_bits r) = (q, reader_bits r1)"
    using read_ones_spec [OF assms(2), of 0] by auto
  obtain v r2 where "BitReader_read P r1 = Inr (v, r2)" "reader_inv r2"
    "(v, reader_bits r2) = take_bits P (reader_bits r1)"
    by (rule BitReader_read_spec [OF assms(1) r1(2)])
  then show ?thesis
    using r1 by (simp add: golomb_decode_def golomb_parse_def flip: \<open>(v, _) = _\<close>)
qed

section \<open>Sets of hashes\<close>

text \<open>
  \<open>GolombEncode\<close> skips an element which is equal to its predecessor, or to 0 when it is the
  first one. \<open>GolombDecode\<close> is told the number of elements.
\<close>

primrec encode_elements :: "nat \<Rightarrow> 64 word list \<Rightarrow> 64 word \<Rightarrow> bit_writer \<Rightarrow> bit_writer outcome" where
  "encode_elements P [] prior w = Inr w"
| "encode_elements P (item # rest) prior w =
    (let delta = item - prior in
     bind_outcome (if delta \<noteq> 0 then golomb_encode P delta w else Inr w)
       (encode_elements P rest item))"

definition GolombEncode :: "nat \<Rightarrow> 64 word list \<Rightarrow> 8 word list outcome" where
  "GolombEncode P hashedSet =
    bind_outcome (encode_elements P hashedSet 0 BitWriter) (\<lambda>stream.
    bind_outcome (BitWriter_flush stream) (\<lambda>stream. Inr (writer_output stream)))"

primrec decode_elements :: "nat \<Rightarrow> nat \<Rightarrow> 64 word \<Rightarrow> bit_reader \<Rightarrow> 64 word list outcome" where
  "decode_elements P 0 prior r = Inr []"
| "decode_elements P (Suc n) prior r =
    bind_outcome (golomb_decode P r) (\<lambda>(delta, r).
      let v = prior + delta in
      bind_outcome (decode_elements P n v r) (\<lambda>rest. Inr (v # rest)))"

definition GolombDecode :: "nat \<Rightarrow> nat \<Rightarrow> 8 word list \<Rightarrow> 64 word list outcome" where
  "GolombDecode N P encoded = decode_elements P N 0 (BitReader encoded)"

subsection \<open>The differences in the stream\<close>

primrec deltas :: "64 word \<Rightarrow> 64 word list \<Rightarrow> 64 word list" where
  "deltas prior [] = []"
| "deltas prior (x # xs) = (if x = prior then deltas x xs else (x - prior) # deltas x xs)"

primrec running :: "64 word \<Rightarrow> 64 word list \<Rightarrow> 64 word list" where
  "running prior [] = []"
| "running prior (d # ds) = (prior + d) # running (prior + d) ds"

text \<open>The elements which differ from the element before them, the first one from \<open>prior\<close>.\<close>

primrec fresh_elements :: "64 word \<Rightarrow> 64 word list \<Rightarrow> 64 word list" where
  "fresh_elements prior [] = []"
| "fresh_elements prior (x # xs) =
    (if x = prior then fresh_elements x xs else x # fresh_elements x xs)"

lemma running_deltas: "running prior (deltas prior xs) = fresh_elements prior xs"
  by (induction xs arbitrary: prior) simp_all

lemma length_deltas: "length (deltas prior xs) = length (fresh_elements prior xs)"
  by (induction xs arbitrary: prior) simp_all

lemma length_fresh: "length (fresh_elements prior xs) \<le> length xs"
  by (induction xs arbitrary: prior) (simp_all add: le_SucI)

lemma set_fresh: "insert prior (set (fresh_elements prior xs)) = insert prior (set xs)"
proof (induction xs arbitrary: prior)
  case (Cons x xs)
  then show ?case using Cons.IH [of x] by (cases "x = prior") simp_all
qed simp

lemma last_fresh: "last (prior # fresh_elements prior xs) = last (prior # xs)"
proof (induction xs arbitrary: prior)
  case (Cons x xs)
  then show ?case using Cons.IH [of x] by (cases "x = prior") simp_all
qed simp

lemma fresh_distinct: "sorted xs \<Longrightarrow> prior \<notin> set xs \<Longrightarrow> distinct xs \<Longrightarrow> fresh_elements prior xs = xs"
  by (induction xs arbitrary: prior) auto

lemma encode_elements_spec:
  assumes "P < 32" "writer_inv w"
  shows "\<exists>w'. encode_elements P xs prior w = Inr w' \<and> writer_inv w'
    \<and> writer_bits w' = writer_bits w @ concat (map (golomb_bits P) (deltas prior xs))"
  using assms(2)
proof (induction xs arbitrary: prior w)
  case (Cons x xs)
  show ?case
  proof (cases "x = prior")
    case True
    then show ?thesis using Cons.IH [OF Cons.prems, of x] by simp
  next
    case False
    obtain w1 where w1: "golomb_encode P (x - prior) w = Inr w1" "writer_inv w1"
      "writer_bits w1 = writer_bits w @ golomb_bits P (x - prior)"
      using golomb_encode_spec [OF assms(1) Cons.prems] by blast
    then show ?thesis
      using Cons.IH [OF w1(2), of x] False by simp
  qed
qed simp

lemma GolombEncode_spec:
  assumes "P < 32"
  obtains bytes k where "GolombEncode P xs = Inr bytes"
    "byte_bits bytes = concat (map (golomb_bits P) (deltas 0 xs)) @ replicate k False"
proof -
  have init: "writer_inv BitWriter" "writer_bits BitWriter = []"
    by (simp_all add: BitWriter_def writer_inv_def writer_bits_def)
  obtain w where w: "encode_elements P xs 0 BitWriter = Inr w" "writer_inv w"
    "writer_bits w = concat (map (golomb_bits P) (deltas 0 xs))"
    using encode_elements_spec [OF assms init(1)] init(2) by fastforce
  obtain w' where "BitWriter_flush w = Inr w'" "byte_bits (writer_output w')
      = writer_bits w @ replicate (padding (length (writer_bits w))) False"
    by (rule BitWriter_flush_spec [OF w(2)])
  then show ?thesis
    using w that by (simp add: GolombEncode_def)
qed

primrec golomb_values :: "nat \<Rightarrow> nat \<Rightarrow> bool list \<Rightarrow> 64 word list" where
  "golomb_values P 0 bs = []"
| "golomb_values P (Suc n) bs =
    (case golomb_parse P bs of (v, rest) \<Rightarrow> v # golomb_values P n rest)"

lemma decode_elements_spec:
  assumes "P < 32" "reader_inv r"
  shows "decode_elements P n prior r = Inr (running prior (golomb_values P n (reader_bits r)))"
  using assms(2)
proof (induction n arbitrary: prior r)
  case (Suc n)
  obtain v r' where "golomb_decode P r = Inr (v, r')" "reader_inv r'"
    "golomb_parse P (reader_bits r) = (v, reader_bits r')"
    using golomb_decode_spec [OF assms(1) Suc.prems] by blast
  then show ?case
    using Suc.IH [of r' "prior + v"] by (simp add: Let_def)
qed simp

lemma GolombDecode_spec:
  "P < 32 \<Longrightarrow> GolombDecode N P bytes = Inr (running 0 (golomb_values P N (byte_bits bytes)))"
  by (simp add: GolombDecode_def decode_elements_spec)

subsection \<open>Past the end of the stream\<close>

lemma unary_zeros: "unary_bits (replicate k False) = (0, replicate (k - 1) False)"
  by (cases k) simp_all

lemma take_bits_zeros: "\<exists>j. take_bits n (replicate k False) = (0, replicate j False)"
  by (auto simp: take_bits_def min_def intro: exI [of _ 0])

lemma golomb_zeros: "golomb_values P n (replicate k False) = replicate n 0"
proof (induction n arbitrary: k)
  case (Suc n)
  obtain j where "take_bits P (replicate (k - 1) False) = (0, replicate j False)"
    using take_bits_zeros by blast
  then show ?case
    using Suc.IH by (simp add: golomb_parse_def unary_zeros)
qed simp

lemma golomb_values_append:
  "golomb_values P (length vs + n) (concat (map (golomb_bits P) vs) @ rest)
    = vs @ golomb_values P n rest"
  by (induction vs) (simp_all add: golomb_parse_bits)

lemma running_append: "running prior (ds @ es) = running prior ds @ running (last (prior # running prior ds)) es"
  by (induction ds arbitrary: prior) auto

lemma running_zeros: "running prior (replicate n 0) = replicate n prior"
  by (induction n) simp_all

lemma golomb_decode_encode:
  assumes "P < 32" "length (fresh_elements 0 xs) \<le> N"
  obtains bytes where "GolombEncode P xs = Inr bytes"
    "GolombDecode N P bytes =
      Inr (fresh_elements 0 xs
        @ replicate (N - length (fresh_elements 0 xs)) (last (0 # xs)))"
proof -
  let ?ds = "deltas 0 xs" and ?n = "N - length (fresh_elements 0 xs)"
  obtain bytes k where b: "GolombEncode P xs = Inr bytes"
    "byte_bits bytes = concat (map (golomb_bits P) ?ds) @ replicate k False"
    by (rule GolombEncode_spec [OF assms(1)])
  have "N = length ?ds + ?n"
    using assms(2) by (simp add: length_deltas)
  then have "golomb_values P N (byte_bits bytes) = ?ds @ replicate ?n 0"
    by (metis b(2) golomb_values_append golomb_zeros)
  then have "GolombDecode N P bytes = Inr (running 0 (?ds @ replicate ?n 0))"
    using assms(1) by (simp add: GolombDecode_spec)
  then show ?thesis
    using that [OF b(1)]
    by (simp add: running_append running_deltas running_zeros last_fresh del: last.simps)
qed

end
