(* ===== verification/Compact_Size.thy ===== *)
theory Compact_Size
  imports Prefix_Codes
begin

text \<open>
  The variable-length integers of the bitcoin network protocol
  (\<open>src/network/blockchain/bitcoin/CompactSize.cpp\<close>): encoding, decoding of a field, and
  \<open>DecodeCompactSize\<close>, which takes an integer off the front of a view. \<open>std::size_t\<close> has 64
  bits, so that no conversion of a value to it fails.
\<close>

unbundle bit_operations_syntax

section \<open>Little-endian fields\<close>

primrec le_bytes :: "nat \<Rightarrow> 'a::len word \<Rightarrow> 8 word list" where
  "le_bytes 0 v = []"
| "le_bytes (Suc n) v = ucast v # le_bytes n (drop_bit 8 v)"

primrec le_value :: "8 word list \<Rightarrow> 'a::len word" where
  "le_value [] = 0"
| "le_value (b # bs) = ucast b OR push_bit 8 (le_value bs)"

lemma length_le_bytes [simp]: "length (le_bytes n v) = n"
  by (induction n arbitrary: v) simp_all

lemma le_value_bytes: "le_value (le_bytes n v) = take_bit (8 * n) (v :: 'a::len word)"
proof (induction n arbitrary: v)
  case (Suc n)
  have "ucast (ucast v :: 8 word) OR push_bit 8 (take_bit (8 * n) (drop_bit 8 v))
    = take_bit (8 * Suc n) v"
    by (rule bit_word_eqI) (auto simp: bit_simps not_less dest: bit_imp_le_length)
  then show ?case
    by (simp add: Suc.IH)
qed simp

lemma bit_le_value: "bit (le_value cs :: 'a::len word) j \<Longrightarrow> j < 8 * length cs"
proof (induction cs arbitrary: j)
  case (Cons c cs)
  then consider "bit c j" | "8 \<le> j" "bit (le_value cs :: 'a word) (j - 8)"
    by (auto simp: bit_simps)
  then show ?case
  proof cases
    case 1
    then show ?thesis using bit_imp_le_length by force
  next
    case 2
    then show ?thesis using Cons.IH [of "j - 8"] by simp
  qed
qed simp

lemma le_bytes_value: "length bs * 8 \<le> LENGTH('a) \<Longrightarrow> le_bytes (length bs) (le_value bs :: 'a::len word) = bs"
proof (induction bs)
  case (Cons b bs)
  let ?v = "le_value bs :: 'a word"
  have "ucast (ucast b OR push_bit 8 ?v) = b"
    using Cons.prems by (intro bit_word_eqI) (auto simp: bit_simps dest: bit_imp_le_length)
  moreover have "drop_bit 8 (ucast b OR push_bit 8 ?v) = take_bit (LENGTH('a) - 8) ?v"
    by (rule bit_word_eqI) (auto simp: bit_simps dest: bit_imp_le_length)
  moreover have "take_bit (LENGTH('a) - 8) ?v = ?v"
  proof (rule bit_word_eqI)
    fix i assume "i < LENGTH('a)"
    have "i < LENGTH('a) - 8" if "bit ?v i"
      using bit_le_value [OF that] Cons.prems by simp
    then show "bit (take_bit (LENGTH('a) - 8) ?v) i = bit ?v i"
      by (auto simp: bit_simps)
  qed
  ultimately show ?case
    using Cons by simp
qed simp

section \<open>CompactSize\<close>

text \<open>An object is its \<open>data_\<close>. The thresholds are those of \<open>CompactSize::Imp\<close>.\<close>

type_synonym CompactSize = "64 word"

definition threshold :: "(64 word \<times> 8 word) list" where
  "threshold = [(252, 0xfd), (65535, 0xfe), (4294967295, 0xff)]"

lemma threshold_simps [codec_rules]:
  "threshold ! 0 = (252, 0xfd)"
  "threshold ! Suc 0 = (65535, 0xfe)"
  "threshold ! 2 = (4294967295, 0xff)"
  by (simp_all add: threshold_def numeral_2_eq_2)

definition CalculateSize :: "8 word \<Rightarrow> nat" where
  "CalculateSize b =
    (if snd (threshold ! 2) = b then 8
     else if snd (threshold ! 1) = b then 4
     else if snd (threshold ! 0) = b then 2
     else 0)"

definition CompactSize_Size :: "CompactSize \<Rightarrow> nat" where
  "CompactSize_Size data =
    (if data \<le> fst (threshold ! 0) then 1
     else if data \<le> fst (threshold ! 1) then 3
     else if data \<le> fst (threshold ! 2) then 5
     else 9)"

definition CompactSize_Total :: "CompactSize \<Rightarrow> 64 word" where
  "CompactSize_Total data = of_nat (CompactSize_Size data) + data"

text \<open>\<open>convert_to_raw\<close> for a field of \<open>n\<close> bytes.\<close>

definition convert_to_raw :: "nat \<Rightarrow> CompactSize \<Rightarrow> 8 word list outcome" where
  "convert_to_raw n data =
    assert_that ''max >= data_'' (data \<le> mask (8 * n)) (Inr (le_bytes n data))"

definition CompactSize_Encode :: "CompactSize \<Rightarrow> 8 word list outcome" where
  "CompactSize_Encode data =
    (if data \<le> fst (threshold ! 0) then convert_to_raw 1 data
     else if data \<le> fst (threshold ! 1) then
       bind_outcome (convert_to_raw 2 data) (\<lambda>raw. Inr (snd (threshold ! 0) # raw))
     else if data \<le> fst (threshold ! 2) then
       bind_outcome (convert_to_raw 4 data) (\<lambda>raw. Inr (snd (threshold ! 1) # raw))
     else
       bind_outcome (convert_to_raw 8 data) (\<lambda>raw. Inr (snd (threshold ! 2) # raw)))"

definition convert_from_raw :: "8 word list \<Rightarrow> CompactSize" where
  "convert_from_raw bytes = le_value bytes"

definition CompactSize_Decode :: "8 word list \<Rightarrow> CompactSize option" where
  "CompactSize_Decode bytes =
    (if length bytes = 1 then Some (convert_from_raw bytes)
     else if length bytes = 2 then Some (convert_from_raw bytes)
     else if length bytes = 4 then Some (convert_from_raw bytes)
     else if length bytes = 8 then Some (convert_from_raw bytes)
     else None)"

text \<open>
  The result, the rest of \<open>in\<close>, \<open>parsed\<close>, and the value written to \<open>out\<close>, if any.
\<close>

record decoded_size =
  decoded_value :: "nat option"
  decoded_rest :: "8 word list"
  decoded_parsed :: "8 word list"
  decoded_out :: "CompactSize option"

definition DecodeCompactSize :: "8 word list \<Rightarrow> decoded_size" where
  "DecodeCompactSize input =
    (case input of
       [] \<Rightarrow> \<lparr>decoded_value = None, decoded_rest = [], decoded_parsed = [], decoded_out = None\<rparr>
     | it # _ \<Rightarrow>
         let extra = CalculateSize it;
             total = 1 + extra;
             safe = min total (length input);
             result = (\<lambda>v out. \<lparr>decoded_value = v, decoded_rest = drop safe input,
               decoded_parsed = take safe input, decoded_out = out\<rparr>)
         in if it = 0 then result (Some 0) (Some 0)
            else if extra = 0 then result (Some (unat it)) (Some (ucast it))
            else if total \<le> length input then
              (case CompactSize_Decode (take extra (drop 1 input)) of
                 None \<Rightarrow> result None None
               | Some cs \<Rightarrow> result (Some (unat cs)) (Some cs))
            else result None None)"

section \<open>What is written is what is read\<close>

lemma unat_lt2p: "unat (w :: 'a::len word) < 2 ^ LENGTH('a)"
  by (rule unsigned_less)

lemma CalculateSize_simps [codec_rules]:
  "CalculateSize 0xff = 8" "CalculateSize 0xfe = 4" "CalculateSize 0xfd = 2"
  by (simp_all add: CalculateSize_def codec_rules)

lemma CalculateSize_small: "b \<le> 0xfc \<Longrightarrow> CalculateSize b = 0"
  by (auto simp: CalculateSize_def codec_rules)

lemma CalculateSize_cases:
  obtains "b \<le> 0xfc" "CalculateSize b = 0" | "b = 0xfd" "CalculateSize b = 2"
    | "b = 0xfe" "CalculateSize b = 4" | "b = 0xff" "CalculateSize b = 8"
proof -
  have "unat b < 256"
    using unat_lt2p [of b] by simp
  then have "unat b \<le> 252 \<or> unat b = 253 \<or> unat b = 254 \<or> unat b = 255"
    by linarith
  then have "b \<le> 0xfc \<or> b = 0xfd \<or> b = 0xfe \<or> b = 0xff"
    by (simp add: word_le_nat_alt word_unat_eq_iff)
  then show ?thesis
    using that by (auto simp: CalculateSize_small codec_rules)
qed

text \<open>The assertions of \<open>Encode\<close> hold.\<close>

definition size_bytes :: "CompactSize \<Rightarrow> 8 word list" where
  "size_bytes v =
    (if v \<le> 252 then le_bytes 1 v
     else if v \<le> 65535 then 0xfd # le_bytes 2 v
     else if v \<le> 4294967295 then 0xfe # le_bytes 4 v
     else 0xff # le_bytes 8 v)"

lemma CompactSize_Encode_eq: "CompactSize_Encode v = Inr (size_bytes v)"
proof -
  have "v \<le> mask 64"
    using unat_lt2p [of v] by (simp add: mask_numeral word_le_nat_alt)
  moreover have "v \<le> mask 8" if "v \<le> 252"
    using that by (rule order_trans) (simp add: mask_numeral)
  ultimately show ?thesis
    by (simp add: CompactSize_Encode_def convert_to_raw_def codec_rules size_bytes_def mask_numeral)
qed

lemma length_size_bytes: "length (size_bytes v) = CompactSize_Size v"
  by (simp add: size_bytes_def CompactSize_Size_def codec_rules)

lemma convert_from_raw_field:
  assumes "unat v < 2 ^ (8 * n)"
  shows "convert_from_raw (le_bytes n v) = v"
proof -
  have "take_bit (8 * n) v = v"
    using assms by (simp add: word_unat_eq_iff unsigned_take_bit_eq take_bit_nat_eq_self)
  then show ?thesis
    by (simp add: convert_from_raw_def le_value_bytes)
qed

lemma decode_small:
  "b \<le> 0xfc \<Longrightarrow> DecodeCompactSize (b # rest)
    = \<lparr>decoded_value = Some (unat b), decoded_rest = rest, decoded_parsed = [b],
       decoded_out = Some (ucast b)\<rparr>"
  by (simp add: DecodeCompactSize_def CalculateSize_small)

lemma decode_field:
  assumes "CalculateSize b = n" "n \<noteq> 0" "length field = n"
  shows "DecodeCompactSize (b # field @ rest)
    = \<lparr>decoded_value = Some (unat (convert_from_raw field)), decoded_rest = rest,
       decoded_parsed = b # field, decoded_out = Some (convert_from_raw field)\<rparr>"
proof -
  have b: "b \<noteq> 0" using assms by (auto simp: CalculateSize_small)
  have "length field = 2 \<or> length field = 4 \<or> length field = 8"
    using assms by (cases b rule: CalculateSize_cases) auto
  then have "CompactSize_Decode field = Some (convert_from_raw field)"
    by (auto simp: CompactSize_Decode_def)
  then show ?thesis
    using assms b by (simp add: DecodeCompactSize_def Let_def)
qed

lemma decode_truncated:
  assumes "CalculateSize b = n" "length field < n"
  shows "DecodeCompactSize (b # field)
    = \<lparr>decoded_value = None, decoded_rest = [], decoded_parsed = b # field, decoded_out = None\<rparr>"
  using assms by (auto simp: DecodeCompactSize_def Let_def CalculateSize_small)

lemma decode_size_bytes:
  "DecodeCompactSize (size_bytes v @ rest)
    = \<lparr>decoded_value = Some (unat v), decoded_rest = rest, decoded_parsed = size_bytes v,
       decoded_out = Some v\<rparr>"
proof -
  consider (1) "v \<le> 252" | (2) "\<not> v \<le> 252" "v \<le> 65535"
    | (4) "\<not> v \<le> 65535" "\<not> v \<le> 252" "v \<le> 4294967295"
    | (8) "\<not> v \<le> 4294967295" "\<not> v \<le> 65535" "\<not> v \<le> 252"
    by force
  then show ?thesis
  proof cases
    case 1
    then have u: "unat v \<le> 252" by (simp add: word_le_nat_alt)
    then have "(ucast v :: 8 word) \<le> 252" "unat (ucast v :: 8 word) = unat v"
      "ucast (ucast v :: 8 word) = v"
      by (simp_all add: word_le_nat_alt word_unat_eq_iff unsigned_ucast_eq unsigned_take_bit_eq take_bit_nat_eq_self)
    with 1 show ?thesis
      by (simp add: size_bytes_def decode_small)
  next
    case 2
    then have "convert_from_raw (le_bytes 2 v) = v"
      by (intro convert_from_raw_field) (simp add: word_le_nat_alt)
    with 2 show ?thesis
      using decode_field [of "0xfd" 2 "le_bytes 2 v" rest] by (simp add: size_bytes_def codec_rules)
  next
    case 4
    then have "convert_from_raw (le_bytes 4 v) = v"
      by (intro convert_from_raw_field) (simp add: word_le_nat_alt)
    with 4 show ?thesis
      using decode_field [of "0xfe" 4 "le_bytes 4 v" rest] by (simp add: size_bytes_def codec_rules)
  next
    case 8
    then have "convert_from_raw (le_bytes 8 v) = v"
      using unat_lt2p [of v]
      by (intro convert_from_raw_field) simp
    with 8 show ?thesis
      using decode_field [of "0xff" 8 "le_bytes 8 v" rest] by (simp add: size_bytes_def codec_rules)
  qed
qed

text \<open>\<open>decode_compact_size\<close> of \<open>src/util/Size.cpp\<close>, which throws when there is no value.\<close>

definition decode_compact_size :: "8 word list \<Rightarrow> (nat \<times> 8 word list) option" where
  "decode_compact_size input =
    (case decoded_value (DecodeCompactSize input) of
       None \<Rightarrow> None
     | Some n \<Rightarrow> Some (n, decoded_rest (DecodeCompactSize input)))"

interpretation compact_size:
  prefix_code "\<lambda>n. size_bytes (of_nat n)" decode_compact_size "\<lambda>n. n < 2 ^ 64"
  by unfold_locales
    (simp add: decode_compact_size_def decode_size_bytes unat_of_nat)

text \<open>Every input is accounted for: what was parsed, and what is left.\<close>

lemma DecodeCompactSize_consumes:
  "decoded_parsed (DecodeCompactSize input) @ decoded_rest (DecodeCompactSize input) = input"
  by (auto simp: DecodeCompactSize_def Let_def split: list.splits option.splits)

text \<open>The encoding of a value is a shortest one.\<close>

lemma decode_shortest:
  assumes "decoded_out (DecodeCompactSize input) = Some v"
  shows "length (size_bytes v) \<le> length (decoded_parsed (DecodeCompactSize input))"
proof (cases input)
  case Nil
  then show ?thesis using assms by (simp add: DecodeCompactSize_def)
next
  case (Cons b rest)
  show ?thesis
  proof (cases "CalculateSize b = 0")
    case True
    then have b: "b \<le> 0xfc" by (cases b rule: CalculateSize_cases) auto
    then have "unat b \<le> 252" by (simp add: word_le_nat_alt)
    then have "(ucast b :: 64 word) \<le> 252" by (simp add: word_le_nat_alt unsigned_ucast_eq unsigned_take_bit_eq take_bit_nat_eq_self)
    then show ?thesis
      using assms b by (auto simp: Cons decode_small size_bytes_def)
  next
    case False
    let ?n = "CalculateSize b"
    have n: "?n \<le> length rest"
    proof (rule ccontr)
      assume "\<not> ?n \<le> length rest"
      then show False
        using assms decode_truncated [of b ?n rest] by (simp add: Cons)
    qed
    define field where "field = take ?n rest"
    have rest: "rest = field @ drop ?n rest" and len: "length field = ?n"
      using n by (simp_all add: field_def)
    have v: "v = convert_from_raw field" and parsed: "decoded_parsed (DecodeCompactSize input) = b # field"
      using assms decode_field [OF refl False len, of "drop ?n rest"]
      by (simp_all add: Cons rest [symmetric])
    have "unat v < 2 ^ (8 * ?n)"
    proof -
      have "take_bit (8 * ?n) v = v"
        unfolding v convert_from_raw_def len [symmetric]
        by (rule bit_word_eqI) (auto simp: bit_simps dest: bit_le_value)
      then show ?thesis
        by (metis take_bit_nat_less_exp unsigned_take_bit_eq)
    qed
    then have "v \<le> 65535 \<or> ?n \<noteq> 2" "v \<le> 4294967295 \<or> ?n \<noteq> 4"
      by (auto simp: word_le_nat_alt)
    moreover have "?n = 2 \<or> ?n = 4 \<or> ?n = 8"
      using False by (cases b rule: CalculateSize_cases) auto
    ultimately show ?thesis
      unfolding parsed by (auto simp: size_bytes_def len)
  qed
qed

end
