(* ===== verification/Compact_Filter.thy ===== *)
theory Compact_Filter
  imports Golomb_Code Compact_Size Protobuf_Syntax "HOL-Library.List_Lexorder"
begin

text \<open>
  Compact block filters (\<open>src/blockchain/cfilter/GCSImp.cpp\<close>, \<open>GCSImp.hpp\<close>, \<open>GCSPrivate.hpp\<close>,
  \<open>Factory.cpp\<close>): a set of byte strings, kept as the sorted list of their hashes in the range
  \<open>N * M\<close> and coded with the Golomb code. Parameters are SipHash-2-4
  (\<open>api.Crypto().Hash().HMAC\<close>), which may fail, and the hash of filters and filter headers.
  An exception is \<open>None\<close>; one that leaves a \<open>noexcept\<close> function ends the process.
\<close>

type_synonym view = "8 word list"
type_synonym siphash = "view \<Rightarrow> view \<Rightarrow> 64 word option"

section \<open>Helpers of the code\<close>

definition shorten :: "nat \<Rightarrow> 32 word option" where
  "shorten n = (if n < 2 ^ 32 then Some (of_nat n) else None)"

text \<open>\<open>dedup\<close> of \<open>src/util/Container.hpp\<close> and \<open>std::ranges::set_intersection\<close>.\<close>

definition dedup :: "'a::linorder list \<Rightarrow> 'a list" where
  "dedup xs = remdups_adj (sort xs)"

fun set_intersection :: "'a::linorder list \<Rightarrow> 'a list \<Rightarrow> 'a list" where
  "set_intersection (x # xs) (y # ys) =
    (if x < y then set_intersection xs (y # ys)
     else if y < x then set_intersection (x # xs) ys
     else x # set_intersection xs ys)"
| "set_intersection xs ys = []"

primrec map_option_list :: "('a \<Rightarrow> 'b option) \<Rightarrow> 'a list \<Rightarrow> 'b list option" where
  "map_option_list f [] = Some []"
| "map_option_list f (x # xs) =
    (case f x of None \<Rightarrow> None
     | Some y \<Rightarrow> (case map_option_list f xs of None \<Rightarrow> None | Some ys \<Rightarrow> Some (y # ys)))"

definition no_throw :: "'a option \<Rightarrow> 'a outcome" where
  "no_throw r = (case r of None \<Rightarrow> Inl Terminated | Some x \<Rightarrow> Inr x)"

section \<open>Hashes in a range\<close>

definition filter_range :: "32 word \<Rightarrow> 32 word \<Rightarrow> 64 word" where
  "filter_range N M = ucast N * ucast M"

definition HashToRange :: "64 word \<Rightarrow> 64 word \<Rightarrow> 64 word" where
  "HashToRange rng hash = ucast (drop_bit 64 (ucast hash * ucast rng :: 128 word))"

definition Siphash :: "siphash \<Rightarrow> siphash" where
  "Siphash hmac key item = (if 16 \<noteq> length key then None else hmac key item)"

definition HashToRange_item :: "siphash \<Rightarrow> view \<Rightarrow> 64 word \<Rightarrow> view \<Rightarrow> 64 word option" where
  "HashToRange_item hmac key rng item =
    (case Siphash hmac key item of None \<Rightarrow> None | Some h \<Rightarrow> Some (HashToRange rng h))"

definition HashedSetConstruct ::
  "siphash \<Rightarrow> view \<Rightarrow> 32 word \<Rightarrow> 32 word \<Rightarrow> view list \<Rightarrow> 64 word list option" where
  "HashedSetConstruct hmac key N M items =
    (case map_option_list (HashToRange_item hmac key (filter_range N M)) items of
       None \<Rightarrow> None
     | Some output \<Rightarrow> Some (sort output))"

section \<open>The filter\<close>

record gcs =
  gcs_version :: nat
  gcs_bits :: "8 word"
  gcs_rate :: "32 word"
  gcs_count :: "32 word"
  gcs_key :: view
  gcs_compressed :: view
  gcs_elements :: "64 word list option"

text \<open>\<open>GCSPrivate\<close> is the blank filter; its operations return default values.\<close>

datatype cfilter = BlankFilter | Filter gcs

text \<open>
  \<open>key_\<close> is an array of 16 zero bytes which a key of at most 16 bytes overwrites from the left.
\<close>

definition GCS_construct ::
  "8 word \<Rightarrow> 32 word \<Rightarrow> 32 word \<Rightarrow> 64 word list option \<Rightarrow> view \<Rightarrow> view \<Rightarrow> gcs option" where
  "GCS_construct P rate count elements compressed key =
    (if length key \<le> 16
     then Some \<lparr>gcs_version = 1, gcs_bits = P, gcs_rate = rate, gcs_count = count,
       gcs_key = key @ replicate (16 - length key) 0, gcs_compressed = compressed,
       gcs_elements = elements\<rparr>
     else None)"

definition filter_or_blank :: "gcs option \<Rightarrow> cfilter" where
  "filter_or_blank r = (case r of None \<Rightarrow> BlankFilter | Some f \<Rightarrow> Filter f)"

definition GCS_Range :: "gcs \<Rightarrow> 64 word" where
  "GCS_Range f = filter_range (gcs_count f) (gcs_rate f)"

definition GCS_size :: "gcs \<Rightarrow> nat" where
  "GCS_size f = length (gcs_compressed f)"

definition decompress :: "gcs \<Rightarrow> (64 word list \<times> gcs) outcome" where
  "decompress f =
    (case gcs_elements f of
       Some es \<Rightarrow> Inr (es, f)
     | None \<Rightarrow>
         bind_outcome (GolombDecode (unat (gcs_count f)) (unat (gcs_bits f)) (gcs_compressed f))
           (\<lambda>elems. Inr (sort elems, f\<lparr>gcs_elements := Some (sort elems)\<rparr>)))"

text \<open>
  \<open>Encode\<close>. The check that the size does not overflow \<open>std::size_t\<close> can not fail for a vector
  in memory; the writer is one that can be extended.
\<close>

definition GCS_Encode :: "gcs \<Rightarrow> view outcome" where
  "GCS_Encode f =
    bind_outcome (CompactSize_Encode (ucast (gcs_count f)))
      (\<lambda>bytes. Inr (bytes @ gcs_compressed f))"

text \<open>
  \<open>Hash\<close> and \<open>Header\<close>, with \<open>FilterToHash\<close>, \<open>FilterHashToHeader\<close> and \<open>FilterToHeader\<close> of
  \<open>src/blockchain/Blockchain.cpp\<close>; \<open>H\<close> is the filter hash.
\<close>

definition FilterToHash :: "(view \<Rightarrow> view) \<Rightarrow> view \<Rightarrow> view" where
  "FilterToHash H cf = H cf"

definition FilterHashToHeader :: "(view \<Rightarrow> view) \<Rightarrow> view \<Rightarrow> view \<Rightarrow> view" where
  "FilterHashToHeader H hash previous =
    H (hash @ (if length previous = 0 then replicate 32 0 else previous))"

definition FilterToHeader :: "(view \<Rightarrow> view) \<Rightarrow> view \<Rightarrow> view \<Rightarrow> view" where
  "FilterToHeader H cf previous = FilterHashToHeader H (FilterToHash H cf) previous"

definition GCS_Hash :: "(view \<Rightarrow> view) \<Rightarrow> gcs \<Rightarrow> view outcome" where
  "GCS_Hash H f = bind_outcome (GCS_Encode f) (\<lambda>preimage. Inr (FilterToHash H preimage))"

definition GCS_Header :: "(view \<Rightarrow> view) \<Rightarrow> view \<Rightarrow> gcs \<Rightarrow> view outcome" where
  "GCS_Header H previous f =
    bind_outcome (GCS_Encode f) (\<lambda>preimage. Inr (FilterToHeader H preimage previous))"

subsection \<open>Questions to a filter\<close>

definition hash_to_range :: "siphash \<Rightarrow> gcs \<Rightarrow> view \<Rightarrow> 64 word outcome" where
  "hash_to_range hmac f item = no_throw (HashToRange_item hmac (gcs_key f) (GCS_Range f) item)"

definition hashed_set_construct :: "siphash \<Rightarrow> gcs \<Rightarrow> view list \<Rightarrow> 64 word list outcome" where
  "hashed_set_construct hmac f items =
    no_throw (HashedSetConstruct hmac (gcs_key f) (gcs_count f) (gcs_rate f) items)"

definition hashed_set_construct_hashes :: "gcs \<Rightarrow> 64 word list \<Rightarrow> 64 word list" where
  "hashed_set_construct_hashes f targets = map (HashToRange (GCS_Range f)) targets"

primrec scan_elements :: "64 word \<Rightarrow> 64 word list \<Rightarrow> bool" where
  "scan_elements hash [] = False"
| "scan_elements hash (e # es) =
    (if e = hash then True else if e > hash then False else scan_elements hash es)"

definition GCS_Test :: "siphash \<Rightarrow> gcs \<Rightarrow> view \<Rightarrow> (bool \<times> gcs) outcome" where
  "GCS_Test hmac f target =
    bind_outcome (hashed_set_construct hmac f [target]) (\<lambda>hashes.
    assert_that ''1 == set.size()'' (length hashes = 1)
      (bind_outcome (decompress f) (\<lambda>(es, f). Inr (scan_elements (hd hashes) es, f))))"

definition GCS_test :: "gcs \<Rightarrow> 64 word list \<Rightarrow> (bool \<times> gcs) outcome" where
  "GCS_test f targets =
    bind_outcome (decompress f) (\<lambda>(elems, f). Inr (set_intersection targets elems \<noteq> [], f))"

definition GCS_Test_list :: "siphash \<Rightarrow> gcs \<Rightarrow> view list \<Rightarrow> (bool \<times> gcs) outcome" where
  "GCS_Test_list hmac f targets =
    bind_outcome (hashed_set_construct hmac f targets) (GCS_test f)"

definition GCS_Test_hashes :: "gcs \<Rightarrow> 64 word list \<Rightarrow> (bool \<times> gcs) outcome" where
  "GCS_Test_hashes f targets = GCS_test f (hashed_set_construct_hashes f targets)"

text \<open>
  \<open>Match\<close> returns iterators into its argument, which are indices here. \<open>map\<close> has for every hash
  the indices with this hash.
\<close>

primrec index_hashes ::
  "nat \<Rightarrow> 64 word list \<Rightarrow> (64 word \<Rightarrow> nat list option) \<Rightarrow> (64 word \<Rightarrow> nat list option)" where
  "index_hashes i [] m = m"
| "index_hashes i (h # hs) m = index_hashes (Suc i) hs
    (m(h := Some ((case m h of None \<Rightarrow> [] | Some is \<Rightarrow> is) @ [i])))"

primrec collect_matches ::
  "(64 word \<Rightarrow> nat list option) \<Rightarrow> 64 word list \<Rightarrow> nat list outcome" where
  "collect_matches m [] = Inr []"
| "collect_matches m (h # hs) =
    (case m h of
       None \<Rightarrow> Inl Terminated
     | Some is \<Rightarrow> bind_outcome (collect_matches m hs) (\<lambda>rest. Inr (is @ rest)))"

definition match_hashes :: "gcs \<Rightarrow> 64 word list \<Rightarrow> (nat list \<times> gcs) outcome" where
  "match_hashes f hashed =
    bind_outcome (decompress f) (\<lambda>(elems, f).
    bind_outcome
      (collect_matches (index_hashes 0 hashed (\<lambda>_. None)) (set_intersection (dedup hashed) elems))
      (\<lambda>output. Inr (output, f)))"

definition GCS_Match :: "siphash \<Rightarrow> gcs \<Rightarrow> view list \<Rightarrow> (nat list \<times> gcs) outcome" where
  "GCS_Match hmac f targets =
    bind_outcome
      (no_throw (map_option_list (HashToRange_item hmac (gcs_key f) (GCS_Range f)) targets))
      (match_hashes f)"

definition GCS_Match_hashes :: "gcs \<Rightarrow> 64 word list \<Rightarrow> (nat list \<times> gcs) outcome" where
  "GCS_Match_hashes f prehashed =
    match_hashes f (map (HashToRange (GCS_Range f)) prehashed)"

section \<open>Construction\<close>

datatype cfilter_type = UnknownCfilter | Basic_BIP158 | Basic_BCHVariant | ES

definition GetFilterParams :: "cfilter_type \<Rightarrow> (8 word \<times> 32 word) option" where
  "GetFilterParams t = (case t of
     Basic_BIP158 \<Rightarrow> Some (19, 784931)
   | Basic_BCHVariant \<Rightarrow> Some (19, 784931)
   | ES \<Rightarrow> Some (23, 12558895)
   | UnknownCfilter \<Rightarrow> None)"

definition BlockHashToFilterKey :: "view \<Rightarrow> view option" where
  "BlockHashToFilterKey hash = (if 16 > length hash then None else Some (take 16 hash))"

definition DecodeCfilterElementCount :: "view \<Rightarrow> (32 word \<times> view) option" where
  "DecodeCfilterElementCount bytes =
    (let d = DecodeCompactSize bytes in
     case decoded_value d of
       None \<Rightarrow> None
     | Some count \<Rightarrow> (case shorten count of None \<Rightarrow> None | Some n \<Rightarrow> Some (n, decoded_rest d)))"

text \<open>The steps the factories which are given elements share: hash, compress, construct.\<close>

definition build_filter ::
  "siphash \<Rightarrow> 8 word \<Rightarrow> 32 word \<Rightarrow> view \<Rightarrow> view list \<Rightarrow> cfilter outcome" where
  "build_filter hmac P rate key effective =
    (case shorten (length effective) of
       None \<Rightarrow> Inr BlankFilter
     | Some count \<Rightarrow>
         (case HashedSetConstruct hmac key count rate effective of
            None \<Rightarrow> Inr BlankFilter
          | Some hashed \<Rightarrow>
              bind_outcome (GolombEncode (unat P) hashed) (\<lambda>compressed.
                Inr (filter_or_blank
                  (GCS_construct P rate count (Some hashed) compressed key)))))"

definition GCS_from_elements ::
  "siphash \<Rightarrow> 8 word \<Rightarrow> 32 word \<Rightarrow> view \<Rightarrow> view list \<Rightarrow> cfilter outcome" where
  "GCS_from_elements hmac P rate key elements =
    build_filter hmac P rate key (dedup (filter (\<lambda>e. e \<noteq> []) elements))"

text \<open>\<open>elements\<close> is what \<open>ExtractElements\<close> returns, \<open>block\<close> the hash of the block.\<close>

definition GCS_from_block ::
  "siphash \<Rightarrow> cfilter_type \<Rightarrow> view \<Rightarrow> view list \<Rightarrow> cfilter outcome" where
  "GCS_from_block hmac t block elements =
    (if t = Basic_BIP158 then Inr BlankFilter
     else case GetFilterParams t of
       None \<Rightarrow> Inr BlankFilter
     | Some (P, rate) \<Rightarrow>
         (case BlockHashToFilterKey block of
            None \<Rightarrow> Inr BlankFilter
          | Some key \<Rightarrow> build_filter hmac P rate key elements))"

definition GCS_from_parts :: "8 word \<Rightarrow> 32 word \<Rightarrow> view \<Rightarrow> 32 word \<Rightarrow> view \<Rightarrow> cfilter" where
  "GCS_from_parts P rate key count encoded =
    filter_or_blank (GCS_construct P rate count None encoded key)"

definition GCS_from_encoded :: "cfilter_type \<Rightarrow> view \<Rightarrow> view \<Rightarrow> cfilter" where
  "GCS_from_encoded t key encoded =
    (case GetFilterParams t of
       None \<Rightarrow> BlankFilter
     | Some (P, rate) \<Rightarrow>
         (case DecodeCfilterElementCount encoded of
            None \<Rightarrow> BlankFilter
          | Some (count, rest) \<Rightarrow> GCS_from_parts P rate key count rest))"

text \<open>The serialized form; its \<open>bits\<close> are narrowed to 8 bits when it is read.\<close>

record gcs_proto =
  proto_version :: nat
  proto_bits :: "32 word"
  proto_fprate :: "32 word"
  proto_key :: view
  proto_count :: "32 word"
  proto_filter :: view

definition GCS_Serialize :: "gcs \<Rightarrow> gcs_proto" where
  "GCS_Serialize f = \<lparr>proto_version = gcs_version f, proto_bits = ucast (gcs_bits f),
     proto_fprate = gcs_rate f, proto_key = gcs_key f, proto_count = gcs_count f,
     proto_filter = gcs_compressed f\<rparr>"

definition GCS_from_proto :: "gcs_proto \<Rightarrow> cfilter" where
  "GCS_from_proto p =
    GCS_from_parts (ucast (proto_bits p)) (proto_fprate p) (proto_key p) (proto_count p)
      (proto_filter p)"

text \<open>
  The check of \<open>src/opentxs/protobuf/syntax/GCS.01.cpp\<close> which a serialized filter has to pass
  when it is read from bytes.
\<close>

definition check_GCS :: "gcs_proto \<Rightarrow> bool" where
  "check_GCS p = syntax_check (Some (proto_version p))
    (\<lambda>version. version = 1 \<and> length (proto_key p) = 16)"

definition GCS_from_bytes :: "gcs_proto \<Rightarrow> cfilter" where
  "GCS_from_bytes p = (if check_GCS p then GCS_from_proto p else BlankFilter)"

end
