(* ===== verification/Filter_Sets.thy ===== *)
theory Filter_Sets
  imports Compact_Filter
begin

text \<open>
  What a filter says about a target: the lemmas on hashes in a range, on the intersection of
  sorted lists, on the invariant of a filter, and the answers of \<open>Test\<close> and \<open>Match\<close> in terms of
  the set of its hashes.
\<close>

section \<open>Hashes in a range\<close>

lemma take_bit_unat: "LENGTH('a) \<le> n \<Longrightarrow> take_bit n (unat (w :: 'a::len word)) = unat w"
  by (rule take_bit_nat_eq_self) (meson order_less_le_trans unat_lt2p power_increasing one_le_numeral)

lemma unat_filter_range: "unat (filter_range N M) = unat N * unat M"
proof -
  have "unat N * unat M < 2 ^ 32 * 2 ^ 32"
    using unat_lt2p [of N] unat_lt2p [of M] by (intro mult_strict_mono) simp_all
  then show ?thesis
    by (simp add: filter_range_def unat_word_ariths unsigned_ucast_eq take_bit_unat)
qed

lemma unat_HashToRange: "unat (HashToRange r h) = unat h * unat r div 2 ^ 64"
proof -
  have prod: "unat h * unat r < 2 ^ 64 * 2 ^ 64"
    using unat_lt2p [of h] unat_lt2p [of r] by (intro mult_strict_mono) simp_all
  then have "unat (ucast h * ucast r :: 128 word) = unat h * unat r"
    by (simp add: unat_word_ariths unsigned_ucast_eq take_bit_unat)
  moreover have "unat h * unat r div 2 ^ 64 < 2 ^ 64"
    using prod by (intro less_mult_imp_div_less)
  then have "take_bit 64 (unat h * unat r div 2 ^ 64) = unat h * unat r div 2 ^ 64"
    by (rule take_bit_nat_eq_self)
  ultimately show ?thesis
    by (simp add: HashToRange_def unsigned_ucast_eq unat_drop_bit_eq flip: drop_bit_eq_div)
      (simp add: drop_bit_eq_div)
qed

lemma HashToRange_less: "0 < unat r \<Longrightarrow> unat (HashToRange r h) < unat r"
  using unat_lt2p [of h] by (simp add: unat_HashToRange div_less_iff_less_mult)

lemma HashToRange_mono: "h \<le> k \<Longrightarrow> HashToRange r h \<le> HashToRange r k"
  by (simp add: word_le_nat_alt unat_HashToRange div_le_mono)

section \<open>Intersections of sorted lists\<close>

lemma set_intersection_subset: "set (set_intersection xs ys) \<subseteq> set xs \<inter> set ys"
  by (induction xs ys rule: set_intersection.induct) auto

lemma set_intersection_sorted:
  "sorted xs \<Longrightarrow> sorted ys \<Longrightarrow> set (set_intersection xs ys) = set xs \<inter> set ys"
  by (induction xs ys rule: set_intersection.induct) (auto simp: not_less_iff_gr_or_eq dest: leD)

lemma set_intersection_distinct: "distinct xs \<Longrightarrow> distinct (set_intersection xs ys)"
  using set_intersection_subset
  by (induction xs ys rule: set_intersection.induct) (auto dest!: subsetD [OF set_intersection_subset])

lemma sorted_set_intersection: "sorted xs \<Longrightarrow> sorted (set_intersection xs ys)"
  by (induction xs ys rule: set_intersection.induct)
    (auto dest!: subsetD [OF set_intersection_subset])

lemma sorted_remdups: "sorted xs \<Longrightarrow> sorted (remdups_adj xs) \<and> distinct (remdups_adj xs)"
  by (induction xs rule: remdups_adj.induct) force+

lemma dedup_simps [simp]: "set (dedup xs) = set xs" "sorted (dedup xs)" "distinct (dedup xs)"
  using sorted_remdups [of "sort xs"] by (simp_all add: dedup_def)

lemma scan_elements_sorted: "sorted es \<Longrightarrow> scan_elements h es \<longleftrightarrow> h \<in> set es"
  by (induction es) auto

section \<open>The invariant of a filter\<close>

definition gcs_inv :: "gcs \<Rightarrow> bool" where
  "gcs_inv f \<longleftrightarrow> length (gcs_key f) = 16 \<and> unat (gcs_bits f) < 32
    \<and> (\<forall>es. gcs_elements f = Some es \<longrightarrow> sorted es)"

definition filter_elements :: "gcs \<Rightarrow> 64 word list" where
  "filter_elements f = (case gcs_elements f of Some es \<Rightarrow> es
    | None \<Rightarrow> sort (running 0 (golomb_values (unat (gcs_bits f)) (unat (gcs_count f))
        (byte_bits (gcs_compressed f)))))"

definition loaded :: "gcs \<Rightarrow> gcs" where
  "loaded f = f\<lparr>gcs_elements := Some (filter_elements f)\<rparr>"

lemma loaded_simps [simp]:
  "gcs_key (loaded f) = gcs_key f" "gcs_count (loaded f) = gcs_count f"
  "gcs_rate (loaded f) = gcs_rate f" "gcs_compressed (loaded f) = gcs_compressed f"
  "gcs_bits (loaded f) = gcs_bits f" "filter_elements (loaded f) = filter_elements f"
  "gcs_version (loaded f) = gcs_version f"
  by (simp_all add: loaded_def filter_elements_def)

lemma decompress_eq: "gcs_inv f \<Longrightarrow> decompress f = Inr (filter_elements f, loaded f)"
  by (simp add: decompress_def GolombDecode_spec filter_elements_def loaded_def gcs_inv_def
    split: option.splits)

lemma sorted_filter_elements: "gcs_inv f \<Longrightarrow> sorted (filter_elements f)"
  by (simp add: gcs_inv_def filter_elements_def split: option.splits)

lemma gcs_inv_loaded: "gcs_inv f \<Longrightarrow> gcs_inv (loaded f)"
  using sorted_filter_elements [of f] by (simp add: gcs_inv_def) (simp add: loaded_def)

section \<open>The answers\<close>

text \<open>The hash a filter gives to a target, for a hash function that does not fail.\<close>

definition filter_hash :: "(view \<Rightarrow> view \<Rightarrow> 64 word) \<Rightarrow> gcs \<Rightarrow> view \<Rightarrow> 64 word" where
  "filter_hash h f t = HashToRange (GCS_Range f) (h (gcs_key f) t)"

abbreviation working :: "(view \<Rightarrow> view \<Rightarrow> 64 word) \<Rightarrow> siphash" where
  "working h \<equiv> \<lambda>key item. Some (h key item)"

lemma filter_hash_fun [codec_rules]:
  "(\<lambda>t. HashToRange (GCS_Range f) (h (gcs_key f) t)) = filter_hash h f"
  "(\<lambda>t. HashToRange (filter_range (gcs_count f) (gcs_rate f)) (h (gcs_key f) t)) = filter_hash h f"
  by (simp_all add: fun_eq_iff filter_hash_def GCS_Range_def)

lemma filter_hash_loaded [simp]: "filter_hash h (loaded f) t = filter_hash h f t"
  by (simp add: filter_hash_def GCS_Range_def)

lemma map_option_list_Some: "(\<And>x. x \<in> set xs \<Longrightarrow> f x = Some (g x)) \<Longrightarrow> map_option_list f xs = Some (map g xs)"
  by (induction xs) simp_all

lemma map_option_list_all:
  assumes "map_option_list f xs = Some ys"
  shows "length ys = length xs \<and> (\<forall>i < length xs. f (xs ! i) = Some (ys ! i))"
  using assms
proof (induction xs arbitrary: ys)
  case (Cons x xs)
  then show ?case
    by (auto simp: nth_Cons' less_Suc_eq_0_disj split: option.splits)
qed simp

lemma HashedSetConstruct_working:
  "length key = 16 \<Longrightarrow> HashedSetConstruct (working h) key N M items
    = Some (sort (map (\<lambda>t. HashToRange (filter_range N M) (h key t)) items))"
  by (simp add: HashedSetConstruct_def HashToRange_item_def Siphash_def map_option_list_Some)

lemma hashed_set_working:
  "gcs_inv f \<Longrightarrow> hashed_set_construct (working h) f items = Inr (sort (map (filter_hash h f) items))"
  by (simp add: hashed_set_construct_def HashedSetConstruct_working no_throw_def gcs_inv_def
    codec_rules)

lemma GCS_Test_eq:
  assumes "gcs_inv f"
  shows "GCS_Test (working h) f t = Inr (filter_hash h f t \<in> set (filter_elements f), loaded f)"
  using assms
  by (simp add: GCS_Test_def hashed_set_working decompress_eq scan_elements_sorted
    sorted_filter_elements)

lemma GCS_Test_list_eq:
  assumes "gcs_inv f"
  shows "GCS_Test_list (working h) f ts
    = Inr (\<exists>t \<in> set ts. filter_hash h f t \<in> set (filter_elements f), loaded f)"
proof -
  have "set (set_intersection (sort (map (filter_hash h f) ts)) (filter_elements f))
    = filter_hash h f ` set ts \<inter> set (filter_elements f)"
    by (simp add: set_intersection_sorted sorted_filter_elements [OF assms])
  then have "set_intersection (sort (map (filter_hash h f) ts)) (filter_elements f) \<noteq> []
    \<longleftrightarrow> (\<exists>t \<in> set ts. filter_hash h f t \<in> set (filter_elements f))"
    by (subst set_empty [symmetric]) auto
  then show ?thesis
    using assms by (simp add: GCS_Test_list_def hashed_set_working GCS_test_def decompress_eq)
qed

subsection \<open>Match\<close>

lemma index_hashes_eq:
  "index_hashes i hs m h =
    (if h \<in> set hs
     then Some ((case m h of None \<Rightarrow> [] | Some is \<Rightarrow> is)
       @ map ((+) i) (filter (\<lambda>j. hs ! j = h) [0..<length hs]))
     else m h)"
proof (induction hs arbitrary: i m)
  case (Cons x hs)
  have "[0..<length (x # hs)] = 0 # map Suc [0..<length hs]"
    by (simp add: map_Suc_upt upt_conv_Cons del: upt_Suc)
  then have at: "filter (\<lambda>j. (x # hs) ! j = h) [0..<length (x # hs)]
    = (if x = h then [0] else []) @ map Suc (filter (\<lambda>j. hs ! j = h) [0..<length hs])"
    by (simp add: filter_map comp_def)
  have none: "h \<notin> set hs \<Longrightarrow> filter (\<lambda>j. hs ! j = h) [0..<length hs] = []"
    by (auto simp: filter_empty_conv in_set_conv_nth)
  show ?case
    unfolding at using none
    by (cases "x = h"; cases "h \<in> set hs"; cases "m h") (simp_all add: Cons.IH comp_def)
qed simp

lemma collect_matches_eq:
  "set ms \<subseteq> set hs \<Longrightarrow> collect_matches (index_hashes 0 hs (\<lambda>_. None)) ms
    = Inr (concat (map (\<lambda>h. filter (\<lambda>j. hs ! j = h) [0..<length hs]) ms))"
  by (induction ms) (simp_all add: index_hashes_eq map_idI)

lemma match_hashes_eq:
  assumes "gcs_inv f"
  obtains js where "match_hashes f hs = Inr (js, loaded f)" "distinct js"
    "set js = {j. j < length hs \<and> hs ! j \<in> set (filter_elements f)}"
    "sorted (map ((!) hs) js)"
proof -
  let ?ms = "set_intersection (dedup hs) (filter_elements f)"
  let ?at = "\<lambda>h. filter (\<lambda>j. hs ! j = h) [0..<length hs]"
  have set: "set ?ms = set hs \<inter> set (filter_elements f)"
    by (simp add: set_intersection_sorted sorted_filter_elements [OF assms])
  have "match_hashes f hs = Inr (concat (map ?at ?ms), loaded f)"
    using assms set by (simp add: match_hashes_def decompress_eq collect_matches_eq)
  moreover have "distinct (concat (map ?at ms))" if "distinct ms" for ms
    using that by (induction ms) auto
  then have "distinct (concat (map ?at ?ms))"
    by (simp add: set_intersection_distinct)
  moreover have "set (concat (map ?at ?ms)) = {j. j < length hs \<and> hs ! j \<in> set (filter_elements f)}"
    by (auto simp: set)
  moreover have "sorted (map ((!) hs) (concat (map ?at ms)))" if "sorted ms" for ms
    using that
  proof (induction ms)
    case (Cons m ms)
    have "map ((!) hs) (?at m) = replicate (length (?at m)) m"
      by (rule nth_equalityI) (auto simp: nth_mem dest!: nth_mem)
    then show ?case
      using Cons by (auto simp: sorted_append)
  qed simp
  then have "sorted (map ((!) hs) (concat (map ?at ?ms)))"
    by (simp add: sorted_set_intersection)
  ultimately show ?thesis
    using that by blast
qed

lemma GCS_Match_eq:
  assumes "gcs_inv f"
  shows "GCS_Match (working h) f ts = match_hashes f (map (filter_hash h f) ts)"
  using assms
  by (simp add: GCS_Match_def HashToRange_item_def Siphash_def gcs_inv_def map_option_list_Some
    no_throw_def codec_rules)

end
