(* ===== verification/Filter_Facts.thy ===== *)
theory Filter_Facts
  imports Filter_Sets
begin

text \<open>
  What the factories build: a filter of a set of elements satisfies the invariant and has the
  hashes of its elements; a filter which is read back from its encoding has the same hashes, but
  for a hash of 0 that stands beside others.
\<close>

section \<open>Building\<close>

lemma GolombEncode_total: "P < 32 \<Longrightarrow> \<exists>bytes. GolombEncode P xs = Inr bytes"
  by (rule golomb_decode_encode [of P xs "length xs"]) (auto simp: length_fresh)

lemma shorten_eq_Some: "shorten n = Some c \<longleftrightarrow> n < 2 ^ 32 \<and> c = of_nat n"
  by (auto simp: shorten_def)

lemma shorten_unat: "shorten n = Some c \<Longrightarrow> unat c = n"
  by (auto simp: shorten_eq_Some unat_of_nat)

lemma shorten_back: "shorten (unat (c :: 32 word)) = Some c"
  using unat_lt2p [of c] by (simp add: shorten_def)

lemma HashedSetConstruct_facts:
  assumes "HashedSetConstruct hmac key N M items = Some hs"
  shows "sorted hs" "length hs = length items"
    "items \<noteq> [] \<Longrightarrow> length key = 16"
    "x \<in> set hs \<Longrightarrow> \<exists>g. x = HashToRange (filter_range N M) g"
proof -
  obtain ys where ys: "map_option_list (HashToRange_item hmac key (filter_range N M)) items = Some ys"
    and hs: "hs = sort ys"
    using assms by (auto simp: HashedSetConstruct_def split: option.splits)
  note all = map_option_list_all [OF ys]
  show "sorted hs" "length hs = length items"
    using all by (simp_all add: hs)
  have item: "\<exists>g. HashToRange_item hmac key (filter_range N M) (items ! i) = Some (HashToRange (filter_range N M) g)
    \<and> length key = 16 \<and> ys ! i = HashToRange (filter_range N M) g" if "i < length items" for i
  proof -
    have "HashToRange_item hmac key (filter_range N M) (items ! i) = Some (ys ! i)"
      using all that by simp
    then show ?thesis
      by (auto simp: HashToRange_item_def Siphash_def intro: sym split: option.splits if_splits)
  qed
  show "length key = 16" if "items \<noteq> []"
    using item [of 0] that by auto
  show "\<exists>g. x = HashToRange (filter_range N M) g" if x: "x \<in> set hs"
  proof -
    obtain i where "i < length items" "ys ! i = x"
      using x all by (auto simp: hs in_set_conv_nth)
    then show ?thesis
      using item [of i] by auto
  qed
qed

text \<open>What a filter that was built from a list of views looks like.\<close>

lemma build_filter_facts:
  assumes "build_filter hmac P rate key effective = Inr (Filter f)"
  obtains hs where
    "HashedSetConstruct hmac (gcs_key f) (gcs_count f) rate effective = Some hs"
    "filter_elements f = hs" "gcs_elements f = Some hs" "unat (gcs_count f) = length effective"
    "gcs_bits f = P" "gcs_rate f = rate" "length (gcs_key f) = 16" "loaded f = f"
    "GolombEncode (unat P) hs = Inr (gcs_compressed f)"
    "effective \<noteq> [] \<Longrightarrow> gcs_key f = key" "gcs_version f = 1"
proof -
  obtain count hs compressed where parts: "shorten (length effective) = Some count"
    "HashedSetConstruct hmac key count rate effective = Some hs"
    "GolombEncode (unat P) hs = Inr compressed"
    "filter_or_blank (GCS_construct P rate count (Some hs) compressed key) = Filter f"
    using assms by (auto simp: build_filter_def outcome_rules split: option.splits)
  have key: "length key \<le> 16"
    and f: "f = \<lparr>gcs_version = 1, gcs_bits = P, gcs_rate = rate, gcs_count = count,
       gcs_key = key @ replicate (16 - length key) 0, gcs_compressed = compressed,
       gcs_elements = Some hs\<rparr>"
    using parts(4) by (simp_all add: filter_or_blank_def GCS_construct_def split: if_splits)
  have nonempty: "effective \<noteq> [] \<Longrightarrow> length key = 16"
    using HashedSetConstruct_facts(3) [OF parts(2)] .
  have "HashedSetConstruct hmac (gcs_key f) count rate effective = Some hs"
    using parts(2) nonempty f
    by (cases "effective = []") (simp_all add: HashedSetConstruct_def)
  then show ?thesis
    using that [of hs] parts nonempty key shorten_unat [OF parts(1)]
    by (simp add: f filter_elements_def loaded_def)
qed

lemma gcs_inv_build:
  assumes "build_filter hmac P rate key effective = Inr (Filter f)" "unat P < 32"
  shows "gcs_inv f"
  by (rule build_filter_facts [OF assms(1)])
    (use assms(2) in \<open>auto simp: gcs_inv_def dest: HashedSetConstruct_facts(1)\<close>)

lemma build_filter_working:
  assumes "unat P < 32" "length key = 16" "length effective < 2 ^ 32"
  obtains f where "build_filter (working h) P rate key effective = Inr (Filter f)"
    "gcs_inv f" "loaded f = f" "gcs_key f = key" "gcs_rate f = rate" "gcs_bits f = P"
    "unat (gcs_count f) = length effective"
    "filter_elements f = sort (map (filter_hash h f) effective)"
    "GolombEncode (unat P) (filter_elements f) = Inr (gcs_compressed f)"
proof -
  obtain count where count: "shorten (length effective) = Some count"
    using assms(3) by (simp add: shorten_def)
  let ?hs = "sort (map (\<lambda>t. HashToRange (filter_range count rate) (h key t)) effective)"
  obtain compressed where "GolombEncode (unat P) ?hs = Inr compressed"
    using GolombEncode_total [OF assms(1)] by blast
  then obtain f where f: "build_filter (working h) P rate key effective = Inr (Filter f)"
    and key: "gcs_key f = key"
    using assms(2) count
    by (auto simp: build_filter_def HashedSetConstruct_working filter_or_blank_def GCS_construct_def)
  show ?thesis
  proof (rule build_filter_facts [OF f], goal_cases)
    case (1 hs)
    then have "hs = sort (map (filter_hash h f) effective)"
      using assms(2) key
      by (simp add: HashedSetConstruct_working GCS_Range_def flip: filter_hash_fun)
    then show ?case
      using that [OF f gcs_inv_build [OF f assms(1)]] 1 key by simp
  qed
qed

section \<open>Reading back\<close>

lemma fresh_shorter: "length (fresh_elements p xs) < length xs \<or> fresh_elements p xs = xs"
proof (induction xs arbitrary: p)
  case (Cons x xs)
  show ?case
    using Cons.IH [of x] length_fresh [of x xs] by (cases "x = p") auto
qed simp

lemma golomb_filter_elements:
  assumes "unat (gcs_bits f) < 32" "GolombEncode (unat (gcs_bits f)) es = Inr (gcs_compressed f)"
    "unat (gcs_count f) = length es" "gcs_elements f = None"
  shows "set (filter_elements f) =
    set (fresh_elements 0 es) \<union> (if fresh_elements 0 es = es then {} else {last (0 # es)})"
proof -
  let ?fresh = "fresh_elements 0 es"
  obtain bytes where "GolombEncode (unat (gcs_bits f)) es = Inr bytes"
    and dec: "GolombDecode (length es) (unat (gcs_bits f)) bytes
      = Inr (?fresh @ replicate (length es - length ?fresh) (last (0 # es)))"
    by (rule golomb_decode_encode [OF assms(1) length_fresh])
  then have bytes: "bytes = gcs_compressed f"
    using assms(2) by simp
  have "filter_elements f = sort (?fresh @ replicate (length es - length ?fresh) (last (0 # es)))"
    using dec assms(1) by (simp add: filter_elements_def assms(3,4) bytes GolombDecode_spec)
  moreover have "length es - length ?fresh = 0 \<longleftrightarrow> ?fresh = es"
  proof
    assume "length es - length ?fresh = 0"
    then show "?fresh = es"
      using fresh_shorter [of 0 es] by auto
  qed simp
  ultimately show ?thesis by auto
qed

lemma fresh_members: "sorted (p # xs) \<Longrightarrow> set (fresh_elements p xs) = set xs - {p}"
proof (induction xs arbitrary: p)
  case (Cons x xs)
  then show ?case
    using Cons.IH [of x] by (cases "x = p") auto
qed simp

lemma reloaded_members:
  assumes "sorted es"
  shows "set (fresh_elements 0 es) \<union> (if fresh_elements 0 es = es then {} else {last (0 # es)})
    = {x \<in> set es. x \<noteq> 0 \<or> set es = {0}}"
proof (cases "set es \<subseteq> {0}")
  case True
  then have "fresh_elements 0 es = []"
    by (induction es) auto
  moreover have "last es = 0 \<and> set es = {0}" if "es \<noteq> []"
    using True that last_in_set [of es] by (cases es) auto
  ultimately show ?thesis
    by (cases "es = []") auto
next
  case False
  have members: "set (fresh_elements 0 es) = set es - {0}"
    by (rule fresh_members) (use assms in simp)
  have last: "last (0 # es) \<in> set es - {0}"
  proof -
    obtain x where x: "x \<in> set es" "x \<noteq> 0" using False by auto
    moreover have "\<forall>y \<in> set es. y \<le> last es"
      using assms by (induction es) auto
    ultimately have "last es \<noteq> 0" using x(2) by auto
    then show ?thesis using x(1) by (cases es) auto
  qed
  have "{x \<in> set es. x \<noteq> 0 \<or> set es = {0}} = set es - {0}"
    using False by auto
  moreover have "set es - {0} \<union> (if b then {} else {last (0 # es)}) = set es - {0}" for b
    using last by (cases b) (simp_all only: if_True if_False Un_empty_right Un_insert_right insert_absorb)
  ultimately show ?thesis
    unfolding members by (rule trans [OF _ sym, rotated])
qed

end
