(* ===== verification/Filter_Properties.thy ===== *)
theory Filter_Properties
  imports Filter_Facts
begin

text \<open>
  The properties of the bit streams, the variable-length integers, the Golomb code and the compact
  filters.
\<close>

section \<open>Streams of bits\<close>

text \<open>Fields of given widths, written one after the other, and read.\<close>

primrec write_fields :: "(nat \<times> 64 word) list \<Rightarrow> bit_writer \<Rightarrow> bit_writer outcome" where
  "write_fields [] w = Inr w"
| "write_fields (f # fs) w = bind_outcome (BitWriter_write (fst f) (snd f) w) (write_fields fs)"

primrec read_fields :: "nat list \<Rightarrow> bit_reader \<Rightarrow> 64 word list outcome" where
  "read_fields [] r = Inr []"
| "read_fields (n # ns) r =
    bind_outcome (BitReader_read n r) (\<lambda>(v, r).
    bind_outcome (read_fields ns r) (\<lambda>vs. Inr (v # vs)))"

definition field_bits :: "(nat \<times> 64 word) list \<Rightarrow> bool list" where
  "field_bits fs = concat (map (\<lambda>(n, v). bits n v) fs)"

lemma field_bits_simps [simp]:
  "field_bits [] = []" "field_bits (f # fs) = bits (fst f) (snd f) @ field_bits fs"
  by (simp_all add: field_bits_def split_beta)

lemma length_field_bits: "length (field_bits fs) = sum_list (map fst fs)"
  by (induction fs) simp_all

lemma write_fields_spec:
  assumes "list_all (\<lambda>f. fst f < 64) fs" "writer_inv w"
  shows "\<exists>w'. write_fields fs w = Inr w' \<and> writer_inv w'
    \<and> writer_bits w' = writer_bits w @ field_bits fs"
  using assms
proof (induction fs arbitrary: w)
  case (Cons f fs)
  obtain w1 where "BitWriter_write (fst f) (snd f) w = Inr w1" "writer_inv w1"
    "writer_bits w1 = writer_bits w @ bits (fst f) (snd f)"
    by (rule BitWriter_write_spec [of "fst f" w "snd f"]) (use Cons.prems in auto)
  then show ?case
    using Cons.IH [of w1] Cons.prems by auto
qed simp

lemma read_fields_spec:
  assumes "list_all (\<lambda>f. fst f < 32) fs" "reader_inv r" "reader_bits r = field_bits fs @ rest"
  shows "read_fields (map fst fs) r = Inr (map (\<lambda>f. take_bit (fst f) (snd f)) fs)"
  using assms
proof (induction fs arbitrary: r)
  case (Cons f fs)
  obtain v r1 where "BitReader_read (fst f) r = Inr (v, r1)" "reader_inv r1"
    "(v, reader_bits r1) = take_bits (fst f) (reader_bits r)"
    by (rule BitReader_read_spec [of "fst f" r]) (use Cons.prems in auto)
  then show ?case
    using Cons.IH [of r1] Cons.prems by simp
qed simp

lemma padded_length:
  assumes "8 * l = s + padding s"
  shows "l = (s + 7) div 8"
proof -
  define q r where "q = s div 8" and "r = s mod 8"
  have s: "s = 8 * q + r" "r < 8"
    by (simp_all add: q_def r_def)
  have "padding s = (if r = 0 then 0 else 8 - r)"
    by (simp add: padding_def r_def)
  then show ?thesis
    using assms s by (cases "r = 0") simp_all
qed

text \<open>
  C18. What is written to a bit stream is read from it: fields of fewer than 32 bits come back
  with the value of their low bits, in order, and the stream takes no more bytes than it needs.
\<close>

theorem bit_stream_roundtrip:
  assumes "list_all (\<lambda>f. fst f < 32) fs"
  shows "\<exists>w w'. write_fields fs BitWriter = Inr w \<and> BitWriter_flush w = Inr w'
    \<and> length (writer_output w') = (sum_list (map fst fs) + 7) div 8
    \<and> read_fields (map fst fs) (BitReader (writer_output w'))
      = Inr (map (\<lambda>f. take_bit (fst f) (snd f)) fs)"
proof -
  have init: "writer_inv BitWriter" "writer_bits BitWriter = []"
    by (simp_all add: BitWriter_def writer_inv_def writer_bits_def)
  have "list_all (\<lambda>f. fst f < 64) fs"
    using assms by (auto simp: list_all_iff)
  then obtain w where w: "write_fields fs BitWriter = Inr w" "writer_inv w"
    "writer_bits w = field_bits fs"
    using write_fields_spec [of fs BitWriter] init by auto
  obtain w' where w': "BitWriter_flush w = Inr w'" "byte_bits (writer_output w')
      = writer_bits w @ replicate (padding (length (writer_bits w))) False"
    by (rule BitWriter_flush_spec [OF w(2)])
  have "8 * length (writer_output w') = length (byte_bits (writer_output w'))"
    by simp
  also have "\<dots> = sum_list (map fst fs) + padding (sum_list (map fst fs))"
    unfolding w'(2) by (simp add: w(3) length_field_bits)
  finally have "length (writer_output w') = (sum_list (map fst fs) + 7) div 8"
    by (rule padded_length)
  moreover have "read_fields (map fst fs) (BitReader (writer_output w'))
    = Inr (map (\<lambda>f. take_bit (fst f) (snd f)) fs)"
    by (rule read_fields_spec [OF assms]) (simp_all add: w'(2) w(3))
  ultimately show ?thesis
    using w(1) w'(1) by blast
qed

lemma bit_stream_roundtrip_witness:
  "\<exists>w w'. write_fields [(3, 5), (19, 700000), (1, 1)] BitWriter = Inr w \<and> BitWriter_flush w = Inr w'
    \<and> length (writer_output w') = 3
    \<and> read_fields [3, 19, 1] (BitReader (writer_output w')) = Inr [5, 175712, 1]"
  using bit_stream_roundtrip [of "[(3, 5), (19, 700000), (1, 1)]"]
  by (simp add: take_bit_eq_mask mask_numeral)

section \<open>Variable-length integers\<close>

lemma size_bytes_truncated:
  assumes "k < length (size_bytes v)"
  shows "decoded_value (DecodeCompactSize (take k (size_bytes v))) = None"
proof (cases k)
  case 0
  then show ?thesis by (simp add: DecodeCompactSize_def)
next
  case (Suc j)
  have "v \<le> 252 \<Longrightarrow> False"
    using assms Suc by (simp add: size_bytes_def)
  then have "\<not> v \<le> 252" by blast
  then obtain b n where "size_bytes v = b # le_bytes n v" "CalculateSize b = n"
    by (cases "v \<le> 65535"; cases "v \<le> 4294967295") (auto simp: size_bytes_def codec_rules)
  then show ?thesis
    using assms Suc decode_truncated [of b n "take j (le_bytes n v)"] by simp
qed

text \<open>
  C19. A variable-length integer is written in as many bytes as \<open>Size\<close> says; whatever follows it,
  \<open>DecodeCompactSize\<close> returns the value and exactly these bytes, and leaves what follows; a part
  of the bytes is rejected; and no other input for the value is shorter.
\<close>

theorem compact_size_encoding:
  "\<exists>bytes. CompactSize_Encode v = Inr bytes \<and> length bytes = CompactSize_Size v
    \<and> DecodeCompactSize (bytes @ rest) = \<lparr>decoded_value = Some (unat v), decoded_rest = rest,
        decoded_parsed = bytes, decoded_out = Some v\<rparr>
    \<and> (\<forall>k < length bytes. decoded_value (DecodeCompactSize (take k bytes)) = None)
    \<and> (\<forall>input. decoded_out (DecodeCompactSize input) = Some v
        \<longrightarrow> length bytes \<le> length (decoded_parsed (DecodeCompactSize input)))"
proof (intro exI [of _ "size_bytes v"] conjI)
  show "CompactSize_Encode v = Inr (size_bytes v)"
    by (rule CompactSize_Encode_eq)
  show "length (size_bytes v) = CompactSize_Size v"
    by (rule length_size_bytes)
qed (use decode_size_bytes size_bytes_truncated decode_shortest in \<open>blast+\<close>)

lemma compact_size_encoding_witness:
  "CompactSize_Encode 65536 = Inr [0xfe, 0, 0, 1, 0]
    \<and> DecodeCompactSize [0xfe, 0, 0, 1, 0, 7] = \<lparr>decoded_value = Some 65536, decoded_rest = [7],
        decoded_parsed = [0xfe, 0, 0, 1, 0], decoded_out = Some 65536\<rparr>"
proof -
  have bytes: "CompactSize_Encode 65536 = Inr [0xfe, 0, 0, 1, 0]"
    by code_simp
  then show ?thesis
    using compact_size_encoding [of 65536 "[7]"] by auto
qed

section \<open>Hashes\<close>

text \<open>
  \<open>HashToRange\<close> computes the fixed-point product of a hash and the range without overflow:
  the result is below the range, and the order of the hashes is kept.
\<close>

theorem hash_to_range_bounds:
  assumes "0 < N" "0 < M"
  shows "unat (HashToRange (filter_range N M) h) = unat h * (unat N * unat M) div 2 ^ 64
    \<and> unat (HashToRange (filter_range N M) h) < unat N * unat M
    \<and> (h \<le> k \<longrightarrow> HashToRange (filter_range N M) h \<le> HashToRange (filter_range N M) k)"
proof -
  have "0 < unat N * unat M"
    using assms by (simp add: word_less_nat_alt)
  then show ?thesis
    using HashToRange_less [of "filter_range N M" h] HashToRange_mono [of h k "filter_range N M"]
    by (simp add: unat_HashToRange unat_filter_range)
qed

lemma hash_to_range_bounds_witness:
  "unat (HashToRange (filter_range 4294967295 4294967295) (- 1)) < 4294967295 * 4294967295"
  using hash_to_range_bounds [of 4294967295 4294967295 "- 1" "- 1"] by simp

text \<open>
  C17. The Golomb code of a list of hashes decodes, for a remainder of fewer than 32 bits, to the
  list without the elements that repeat their predecessor (or are 0 in front), filled up with the
  last element: an ascending list of positive hashes comes back as it was.
\<close>

theorem golomb_roundtrip:
  assumes "P < 32"
  shows "\<exists>bytes. GolombEncode P xs = Inr bytes
    \<and> GolombDecode (length xs) P bytes = Inr (fresh_elements 0 xs
        @ replicate (length xs - length (fresh_elements 0 xs)) (last (0 # xs)))
    \<and> (sorted_wrt (<) (0 # xs) \<longrightarrow> GolombDecode (length xs) P bytes = Inr xs)"
proof -
  obtain bytes where bytes: "GolombEncode P xs = Inr bytes"
    "GolombDecode (length xs) P bytes = Inr (fresh_elements 0 xs
        @ replicate (length xs - length (fresh_elements 0 xs)) (last (0 # xs)))"
    by (rule golomb_decode_encode [OF assms length_fresh])
  have "fresh_elements p ys = ys" if "sorted_wrt (<) (p # ys)" for p ys
    using that by (induction ys arbitrary: p) auto
  then show ?thesis
    using bytes by auto
qed

lemma golomb_roundtrip_witness:
  "\<exists>bytes. GolombEncode 2 [1, 3, 20] = Inr bytes \<and> GolombDecode (length [1, 3, 20 :: 64 word]) 2 bytes = Inr [1, 3, 20]"
  using golomb_roundtrip [of 2 "[1, 3, 20]"] by auto

section \<open>Filters\<close>

definition effective :: "view list \<Rightarrow> view list" where
  "effective elements = dedup (filter (\<lambda>e. e \<noteq> []) elements)"

lemma set_effective [simp]: "set (effective elements) = set elements - {[]}"
  by (auto simp: effective_def)

lemma length_effective: "length (effective elements) = card (set elements - {[]})"
  by (metis dedup_simps(3) distinct_card effective_def set_effective)

lemma effective_le: "length (effective elements) \<le> length elements"
  by (simp add: length_effective) (meson List.finite_set card_Diff1_le card_length order_trans)

lemma GCS_from_elements_build:
  assumes "GCS_from_elements hmac P rate key elements = Inr (Filter f)"
  obtains hs where
    "HashedSetConstruct hmac (gcs_key f) (gcs_count f) rate (effective elements) = Some hs"
    "filter_elements f = hs" "gcs_elements f = Some hs"
    "unat (gcs_count f) = card (set elements - {[]})" "gcs_bits f = P" "gcs_rate f = rate"
    "length (gcs_key f) = 16" "GolombEncode (unat P) hs = Inr (gcs_compressed f)"
proof -
  show ?thesis
    using assms that unfolding GCS_from_elements_def effective_def [symmetric]
    by (elim build_filter_facts) (simp add: length_effective)
qed

text \<open>
  C28. What the factory makes of a set of elements is a well-formed filter: it counts the distinct
  elements that are not empty, and has one hash for each of them, in ascending order and below the
  range of the filter.
\<close>

theorem filter_well_formed:
  assumes "GCS_from_elements hmac P rate key elements = Inr (Filter f)" "unat P < 32" "0 < rate"
  shows "gcs_inv f \<and> gcs_bits f = P \<and> gcs_rate f = rate
    \<and> unat (gcs_count f) = card (set elements - {[]})
    \<and> length (filter_elements f) = card (set elements - {[]})
    \<and> sorted (filter_elements f)
    \<and> (\<forall>e \<in> set (filter_elements f). unat e < unat (gcs_count f) * unat (gcs_rate f))"
proof (rule GCS_from_elements_build [OF assms(1)], goal_cases)
  case (1 hs)
  note facts = HashedSetConstruct_facts [OF 1(1)]
  have len: "length hs = card (set elements - {[]})"
    using facts(2) by (simp add: length_effective)
  have "unat e < unat (gcs_count f) * unat rate" if e: "e \<in> set hs" for e
  proof -
    obtain g where g: "e = HashToRange (filter_range (gcs_count f) rate) g"
      using facts(4) [OF e] by blast
    have "0 < unat (gcs_count f)"
      using e len 1(4) by (metis length_pos_if_in_set)
    then have "0 < unat (filter_range (gcs_count f) rate)"
      using assms(3) by (simp add: unat_filter_range word_less_nat_alt)
    then show ?thesis
      using HashToRange_less [of "filter_range (gcs_count f) rate" g] by (simp add: g unat_filter_range)
  qed
  then show ?case
    using 1 assms(2) facts(1) len by (auto simp: gcs_inv_def)
qed

text \<open>The examples: a hash function, a key and two elements, the first one with the hash 0.\<close>

definition example_hash :: "view \<Rightarrow> view \<Rightarrow> 64 word" where
  "example_hash key item = (if item = [1] then 0 else 2 ^ 63)"

definition example_key :: view where
  "example_key = replicate 16 7"

lemma length_example_key [simp]: "length example_key = 16"
  by (simp add: example_key_def)

lemma GCS_from_elements_working:
  assumes "unat P < 32" "length key = 16" "length elements < 2 ^ 32"
  obtains f where "GCS_from_elements (working h) P rate key elements = Inr (Filter f)"
    "gcs_inv f" "loaded f = f" "gcs_key f = key" "gcs_rate f = rate" "gcs_bits f = P"
    "unat (gcs_count f) = length (filter_elements f)"
    "filter_elements f = sort (map (filter_hash h f) (effective elements))"
    "GolombEncode (unat P) (filter_elements f) = Inr (gcs_compressed f)"
proof -
  have "length (effective elements) < 2 ^ 32"
    using effective_le [of elements] assms(3) by (rule order_le_less_trans)
  then show ?thesis
    using that unfolding GCS_from_elements_def effective_def [symmetric]
    by (rule build_filter_working [OF assms(1,2), where h = h and rate = rate]) auto
qed

lemma filter_well_formed_witness:
  "\<exists>f. GCS_from_elements (working example_hash) 23 12558895 example_key [[1], [2]] = Inr (Filter f)
    \<and> length (filter_elements f) = 2 \<and> (\<forall>e \<in> set (filter_elements f). unat e < 2 * 12558895)"
proof -
  obtain f where f: "GCS_from_elements (working example_hash) 23 12558895 example_key [[1], [2]]
    = Inr (Filter f)"
    by (rule GCS_from_elements_working [of 23 example_key "[[1], [2]]"]) simp_all
  have card: "card (set [[1 :: 8 word], [2]] - {[]}) = 2"
    by (simp add: insert_Diff_if)
  have params: "unat (23 :: 8 word) < 32" "0 < (12558895 :: 32 word)"
    by simp_all
  note wf = filter_well_formed [OF f params, unfolded card]
  then have range_eq: "unat (gcs_count f) * unat (gcs_rate f) = 2 * 12558895"
    by simp
  show ?thesis
    using wf f unfolding range_eq by (intro exI [of _ f]) blast
qed

text \<open>
  C6. A filter has no false negatives: it can be built from any elements, says yes to each of them
  that is not empty, and says yes to another target exactly if its hash is that of an element.
\<close>

theorem filter_contains_elements:
  assumes "unat P < 32" "length key = 16" "length elements < 2 ^ 32"
  shows "\<exists>f. GCS_from_elements (working h) P rate key elements = Inr (Filter f)
    \<and> (\<forall>e \<in> set elements. e \<noteq> [] \<longrightarrow> GCS_Test (working h) f e = Inr (True, f))
    \<and> (\<forall>t. GCS_Test (working h) f t
        = Inr (\<exists>e \<in> set elements. e \<noteq> [] \<and> filter_hash h f e = filter_hash h f t, f))"
proof (rule GCS_from_elements_working [OF assms, where h = h and rate = rate], goal_cases)
  case (1 f)
  have "GCS_Test (working h) f t
    = Inr (\<exists>e \<in> set elements. e \<noteq> [] \<and> filter_hash h f e = filter_hash h f t, f)" for t
    unfolding GCS_Test_eq [OF 1(2)] 1(3) by (subst 1(8)) (auto intro: rev_image_eqI)
  then show ?case
    using 1(1) by (intro exI [of _ f]) auto
qed

lemma filter_contains_elements_witness:
  "\<exists>f. GCS_from_elements (working example_hash) 23 12558895 example_key [[1], [2], []] = Inr (Filter f)
    \<and> GCS_Test (working example_hash) f [1] = Inr (True, f)
    \<and> GCS_Test (working example_hash) f [2] = Inr (True, f)"
  using filter_contains_elements [of 23 example_key "[[1], [2], []]" example_hash 12558895] by auto

section \<open>Filters that are read back\<close>

lemma GCS_Encode_eq: "GCS_Encode f = Inr (size_bytes (ucast (gcs_count f)) @ gcs_compressed f)"
  by (simp add: GCS_Encode_def CompactSize_Encode_eq)

lemma DecodeCfilterElementCount_bytes:
  "DecodeCfilterElementCount (size_bytes (ucast c) @ rest) = Some (c, rest)"
  by (simp add: DecodeCfilterElementCount_def decode_size_bytes unsigned_ucast_eq take_bit_unat
    shorten_back)

text \<open>The filter without its cached elements.\<close>

definition forgotten :: "gcs \<Rightarrow> gcs" where
  "forgotten f = f\<lparr>gcs_elements := None\<rparr>"

lemma forgotten_simps [simp]:
  "gcs_count (forgotten f) = gcs_count f" "gcs_compressed (forgotten f) = gcs_compressed f"
  "gcs_bits (forgotten f) = gcs_bits f" "gcs_elements (forgotten f) = None"
  "filter_hash h (forgotten f) t = filter_hash h f t" "gcs_key (forgotten f) = gcs_key f"
  by (simp_all add: forgotten_def filter_hash_def GCS_Range_def)

lemma forgotten_elements:
  assumes "gcs_inv f" "unat (gcs_count f) = length (filter_elements f)"
    "GolombEncode (unat (gcs_bits f)) (filter_elements f) = Inr (gcs_compressed f)"
  shows "set (filter_elements (forgotten f))
    = {x \<in> set (filter_elements f). x \<noteq> 0 \<or> set (filter_elements f) = {0}}"
  using assms golomb_filter_elements [of "forgotten f" "filter_elements f"]
    reloaded_members [OF sorted_filter_elements [OF assms(1)]]
  by (simp add: gcs_inv_def)

lemma gcs_inv_forgotten: "gcs_inv f \<Longrightarrow> gcs_inv (forgotten f)"
  by (simp add: gcs_inv_def)

lemma GCS_from_parts_forgotten:
  "length (gcs_key f) = 16 \<Longrightarrow> gcs_version f = 1 \<Longrightarrow>
    GCS_from_parts (gcs_bits f) (gcs_rate f) (gcs_key f) (gcs_count f) (gcs_compressed f)
      = Filter (forgotten f)"
  by (cases f) (simp add: GCS_from_parts_def GCS_construct_def filter_or_blank_def forgotten_def)

text \<open>
  C3. A filter that is sent or stored (\<open>Encode\<close>, \<open>Serialize\<close>) is read back with the same
  encoding, and answers as before about every target whose hash is not 0; about a target with the
  hash 0 it says yes only if all elements have this hash.
\<close>

theorem reloaded_filter:
  assumes "GetFilterParams t = Some (P, rate)" "length key = 16" "length elements < 2 ^ 32"
  shows "\<exists>f g encoded. GCS_from_elements (working h) P rate key elements = Inr (Filter f)
    \<and> GCS_Encode f = Inr encoded \<and> GCS_Encode g = Inr encoded
    \<and> GCS_from_encoded t key encoded = Filter g \<and> GCS_from_bytes (GCS_Serialize f) = Filter g
    \<and> (\<forall>v. GCS_Test (working h) g v = Inr
        ((\<exists>e \<in> set elements. e \<noteq> [] \<and> filter_hash h f e = filter_hash h f v)
          \<and> (filter_hash h f v \<noteq> 0 \<or> (\<forall>e \<in> set elements. e \<noteq> [] \<longrightarrow> filter_hash h f e = 0)), loaded g))"
proof -
  have P: "unat P < 32"
    using assms(1) by (auto simp: GetFilterParams_def split: cfilter_type.splits)
  show ?thesis
  proof (rule GCS_from_elements_working [OF P assms(2,3), where h = h and rate = rate], goal_cases)
    case (1 f)
    let ?g = "forgotten f"
    have version: "gcs_version f = 1"
      using 1(1) unfolding GCS_from_elements_def by (elim build_filter_facts) simp
    note parts = GCS_from_parts_forgotten [of f, unfolded 1(4,5,6), OF assms(2) version]
    have "GCS_from_encoded t key (size_bytes (ucast (gcs_count f)) @ gcs_compressed f) = Filter ?g"
      by (simp add: GCS_from_encoded_def assms(1) DecodeCfilterElementCount_bytes parts)
    moreover have "ucast (ucast P :: 32 word) = P"
      by (rule bit_word_eqI) (auto simp: bit_simps dest: bit_imp_le_length)
    then have "GCS_from_bytes (GCS_Serialize f) = Filter ?g"
      using parts version assms(2)
      by (simp add: GCS_from_bytes_def check_GCS_def GCS_Serialize_def GCS_from_proto_def 1(4,5,6))
    moreover have "GCS_Test (working h) ?g v = Inr
      ((\<exists>e \<in> set elements. e \<noteq> [] \<and> filter_hash h f e = filter_hash h f v)
        \<and> (filter_hash h f v \<noteq> 0 \<or> (\<forall>e \<in> set elements. e \<noteq> [] \<longrightarrow> filter_hash h f e = 0)), loaded ?g)" for v
    proof -
      have hashes: "set (filter_elements f) = filter_hash h f ` (set elements - {[]})"
        by (subst 1(8)) simp
      have "set (filter_elements ?g)
        = {x \<in> set (filter_elements f). x \<noteq> 0 \<or> set (filter_elements f) = {0}}"
        using 1 by (intro forgotten_elements) simp_all
      then show ?thesis
        unfolding GCS_Test_eq [OF gcs_inv_forgotten [OF 1(2)]] hashes
        by (auto intro: rev_image_eqI)
    qed
    ultimately show ?case
      using 1(1) by (intro exI [of _ f] exI [of _ ?g] exI conjI allI) (simp_all add: GCS_Encode_eq)
  qed
qed

lemma reloaded_filter_witness:
  "\<exists>f g encoded. GCS_from_elements (working (\<lambda>_ _. 2 ^ 63)) 19 784931 example_key [[1]] = Inr (Filter f)
    \<and> GCS_Encode f = Inr encoded \<and> GCS_from_encoded Basic_BIP158 example_key encoded = Filter g
    \<and> (\<exists>b. GCS_Test (working (\<lambda>_ _. 2 ^ 63)) g [2] = Inr (b, loaded g))"
  using reloaded_filter [of Basic_BIP158 19 784931 example_key "[[1]]" "\<lambda>_ _. 2 ^ 63"]
  by (simp add: GetFilterParams_def) blast

lemma example_hashes:
  assumes "gcs_key f = example_key" "GCS_Range f = filter_range 2 12558895"
  shows "filter_hash example_hash f [1] = 0" "filter_hash example_hash f [2] = 12558895"
  by (simp_all add: word_unat_eq_iff filter_hash_def assms unat_HashToRange unat_filter_range
    example_hash_def)

lemma only_zero_lost: "c \<noteq> 0 \<Longrightarrow> {x \<in> {0, c}. x \<noteq> 0 \<or> {0, c} = {0}} = {c}" for c :: "64 word"
  by auto

text \<open>
  An element with the hash 0 is lost when the filter is sent or stored: the filter of the two
  elements says yes to the first one, and no after it was read back.
\<close>

theorem element_with_hash_zero_is_lost:
  "\<exists>f g encoded. GCS_from_elements (working example_hash) 23 12558895 example_key [[1], [2]] = Inr (Filter f)
    \<and> GCS_Test (working example_hash) f [1] = Inr (True, f)
    \<and> GCS_Encode f = Inr encoded \<and> GCS_from_encoded ES example_key encoded = Filter g
    \<and> GCS_Test (working example_hash) g [1] = Inr (False, loaded g)
    \<and> GCS_Test (working example_hash) g [2] = Inr (True, loaded g)"
proof (rule GCS_from_elements_working [of 23 example_key "[[1], [2]]" example_hash 12558895],
    goal_cases)
  case (4 f)
  let ?g = "forgotten f"
  have count: "unat (gcs_count f) = 2"
    by (subst 4(7), subst 4(8)) (simp add: length_effective insert_Diff_if)
  then have "gcs_count f = 2"
    by (simp add: word_unat_eq_iff)
  then have h: "filter_hash example_hash f [1] = 0" "filter_hash example_hash f [2] = 12558895"
    using example_hashes [of f] 4(4,5) by (simp_all add: GCS_Range_def)
  have hashes: "set (filter_elements f) = {0, 12558895}"
    by (subst 4(8)) (simp add: h insert_Diff_if)
  have "set (filter_elements ?g)
    = {x \<in> set (filter_elements f). x \<noteq> 0 \<or> set (filter_elements f) = {0}}"
    by (rule forgotten_elements [OF 4(2,7)]) (use 4(6,9) in simp)
  then have reloaded: "set (filter_elements ?g) = {12558895}"
    unfolding hashes by (rule trans) (rule only_zero_lost, simp)
  have version: "gcs_version f = 1"
    using 4(1) unfolding GCS_from_elements_def by (elim build_filter_facts) simp
  have "GCS_from_encoded ES example_key (size_bytes (ucast (gcs_count f)) @ gcs_compressed f) = Filter ?g"
    using GCS_from_parts_forgotten [of f] 4(4,5,6) version
    by (simp add: GCS_from_encoded_def GetFilterParams_def DecodeCfilterElementCount_bytes)
  moreover have "GCS_Test (working example_hash) f [1] = Inr (True, f)"
    using GCS_Test_eq [OF 4(2), of example_hash "[1]"] by (simp add: hashes h 4(3))
  ultimately show ?case
    using 4(1) GCS_Test_eq [OF gcs_inv_forgotten [OF 4(2)], of example_hash]
    by (intro exI [of _ f] exI [of _ ?g] exI conjI) (simp_all add: GCS_Encode_eq reloaded h)
qed simp_all

section \<open>Matching many targets\<close>

text \<open>
  C8. \<open>Match\<close> finds, in the order of their hashes and each one once, exactly the targets for which
  \<open>Test\<close> says yes; and \<open>Test\<close> of a list of targets says yes exactly if \<open>Match\<close> finds one.
\<close>

theorem match_agrees_with_test:
  assumes "gcs_inv f"
  shows "\<exists>found. GCS_Match (working h) f targets = Inr (found, loaded f) \<and> distinct found
    \<and> sorted (map (\<lambda>i. filter_hash h f (targets ! i)) found)
    \<and> (\<forall>i. i \<in> set found \<longleftrightarrow>
        i < length targets \<and> GCS_Test (working h) f (targets ! i) = Inr (True, loaded f))
    \<and> GCS_Test_list (working h) f targets = Inr (found \<noteq> [], loaded f)"
proof (rule match_hashes_eq [OF assms, of "map (filter_hash h f) targets"])
  fix js
  assume js: "match_hashes f (map (filter_hash h f) targets) = Inr (js, loaded f)" "distinct js"
    "set js = {j. j < length (map (filter_hash h f) targets)
      \<and> map (filter_hash h f) targets ! j \<in> set (filter_elements f)}"
    "sorted (map ((!) (map (filter_hash h f) targets)) js)"
  have mem: "i \<in> set js \<longleftrightarrow>
      i < length targets \<and> filter_hash h f (targets ! i) \<in> set (filter_elements f)" for i
    unfolding js(3) by auto
  have order: "map (\<lambda>i. filter_hash h f (targets ! i)) js
      = map ((!) (map (filter_hash h f) targets)) js"
    by (rule map_cong) (simp_all add: mem)
  have some:  "(\<exists>t \<in> set targets. filter_hash h f t \<in> set (filter_elements f)) \<longleftrightarrow> js \<noteq> []"
    unfolding set_empty [of js, symmetric] js(3) by (force simp: in_set_conv_nth [of _ targets])
  show ?thesis
    by (intro exI [of _ js] conjI)
      (simp_all only: GCS_Match_eq [OF assms] GCS_Test_eq [OF assms] GCS_Test_list_eq [OF assms]
        js(1,2,4) order mem some sum.inject prod.inject eq_True simp_thms)
qed

lemma match_agrees_with_test_witness:
  "\<exists>f found. GCS_from_elements (working example_hash) 23 12558895 example_key [[1], [2]] = Inr (Filter f)
    \<and> GCS_Match (working example_hash) f [[3], [1]] = Inr (found, f)
    \<and> GCS_Test_list (working example_hash) f [[3], [1]] = Inr (found \<noteq> [], f)"
proof (rule GCS_from_elements_working [of 23 example_key "[[1], [2]]" example_hash 12558895],
    goal_cases)
  case (4 f)
  then show ?case
    using match_agrees_with_test [OF 4(2), of example_hash "[[3], [1]]"] by auto
qed simp_all

section \<open>Filters from elsewhere\<close>

text \<open>
  C34. The check of a serialized filter does not look at the size of the remainders: a filter that
  counts an element and asks for 32 to 255 bits is accepted, and the first question to it ends the
  process in the assertion of the bit reader.
\<close>

theorem wide_remainder_aborts:
  assumes "check_GCS p" "32 \<le> unat (ucast (proto_bits p) :: 8 word)" "0 < proto_count p"
  shows "\<exists>f. GCS_from_bytes p = Filter f
    \<and> GCS_Test (working h) f t = Inl (AssertFailed ''nbits < 32u'')"
proof -
  let ?P = "ucast (proto_bits p) :: 8 word"
  have key: "length (proto_key p) = 16"
    using assms(1) by (simp add: check_GCS_def)
  define f where "f = \<lparr>gcs_version = 1, gcs_bits = ?P, gcs_rate = proto_fprate p,
    gcs_count = proto_count p, gcs_key = proto_key p, gcs_compressed = proto_filter p,
    gcs_elements = None\<rparr>"
  have f: "GCS_from_bytes p = Filter f"
    using assms(1) key
    by (simp add: GCS_from_bytes_def GCS_from_proto_def GCS_from_parts_def GCS_construct_def
      filter_or_blank_def f_def)
  obtain n where n: "unat (proto_count p) = Suc n"
    using assms(3) by (metis gr0_implies_Suc unat_gt_0 word_neq_0_conv)
  obtain q r where "read_ones 0 (BitReader (proto_filter p)) = Inr (0 + of_nat q, r)"
    using read_ones_spec [of "BitReader (proto_filter p)" 0] by auto
  then have "GolombDecode (unat (proto_count p)) (unat ?P) (proto_filter p)
    = Inl (AssertFailed ''nbits < 32u'')"
    using assms(2) by (simp add: GolombDecode_def n golomb_decode_def BitReader_read_def assert_that_def)
  then have "GCS_Test (working h) f t = Inl (AssertFailed ''nbits < 32u'')"
    using key
    by (simp add: GCS_Test_def hashed_set_construct_def HashedSetConstruct_working f_def
      no_throw_def decompress_def)
  then show ?thesis
    using f by blast
qed

lemma wide_remainder_aborts_witness:
  "\<exists>f. GCS_from_bytes \<lparr>proto_version = 1, proto_bits = 40, proto_fprate = 1,
      proto_key = example_key, proto_count = 1, proto_filter = [0]\<rparr> = Filter f
    \<and> GCS_Test (working example_hash) f [1] = Inl (AssertFailed ''nbits < 32u'')"
  by (rule wide_remainder_aborts) (simp_all add: check_GCS_def)

end
