(* ===== verification/Wallet_Elements.thy ===== *)
theory Wallet_Elements
  imports Compact_Filter Ordered_Containers "HOL-Library.Multiset"
begin

text \<open>
  What a wallet looks for in the blocks of a chain, and what it knows about each block
  (\<open>Elements\<close>, \<open>ElementCache\<close>, \<open>Matches\<close>, \<open>MatchIndex\<close> and \<open>MatchCache\<close> of
  \<open>src/blockchain/node/wallet/subchain/statemachine/\<close>). An element is a pattern of 20, 32, 33, 64 or 65
  bytes with the index of its key, or an unspent output with its outpoint. The five vectors and the five
  sets which the code keeps side by side are functions of the size. The lemmas show that the lists
  of elements are those of the patterns that were added.
\<close>

section \<open>Positions and outpoints\<close>

text \<open>
  A position (\<open>src/blockchain/block/Position.cpp\<close>) is ordered by its height first and then by the bytes
  of its hash, an outpoint (\<open>src/blockchain/block/Outpoint.cpp\<close>) by the transaction and then by its index.
\<close>

type_synonym block_position = "int \<times> view"
type_synonym outpoint = "view \<times> 32 word"
type_synonym bip32_index = "32 word"

definition null_position :: block_position where
  "null_position = (-1, replicate 32 0)"

definition IsReplacedBy :: "block_position \<Rightarrow> block_position \<Rightarrow> bool" where
  "IsReplacedBy lhs rhs =
    (if fst lhs > fst rhs then True
     else if fst lhs < fst rhs then False
     else snd lhs \<noteq> snd rhs)"

definition outpoint_Bytes :: "outpoint \<Rightarrow> view" where
  "outpoint_Bytes op = fst op @ le_bytes 4 (snd op)"

datatype subchain =
    SubchainError | SubchainInternal | SubchainExternal | SubchainIncoming | SubchainOutgoing
  | NotificationV3 | NotificationV1 | NotificationV2 | NotificationV4 | SubchainNone

text \<open>An output, of which only the keys that can spend it are read here.\<close>

record txo =
  txo_keys :: "(string \<times> subchain \<times> bip32_index) list"

section \<open>Elements\<close>

datatype pattern_size = P20 | P32 | P33 | P64 | P65

definition pattern_sizes :: "pattern_size list" where
  "pattern_sizes = [P20, P32, P33, P64, P65]"

lemma set_pattern_sizes [simp]: "set pattern_sizes = UNIV"
  using pattern_size.exhaust by (auto simp: pattern_sizes_def)

record wallet_elements =
  el_key :: "pattern_size \<Rightarrow> (bip32_index \<times> view) list"
  el_txos :: "(outpoint \<times> txo) list"

definition no_elements :: wallet_elements where
  "no_elements = \<lparr>el_key = (\<lambda>_. []), el_txos = []\<rparr>"

definition elements_size :: "wallet_elements \<Rightarrow> nat" where
  "elements_size e =
    length (el_key e P20) + length (el_key e P32) + length (el_key e P33) +
    length (el_key e P64) + length (el_key e P65) + length (el_txos e)"

text \<open>The cases of the \<open>switch\<close> in \<open>ElementCache::index\<close>.\<close>

definition pattern_size_of :: "view \<Rightarrow> pattern_size option" where
  "pattern_size_of element =
    (if length element = 20 then Some P20
     else if length element = 33 then Some P33
     else if length element = 32 then Some P32
     else if length element = 65 then Some P65
     else if length element = 64 then Some P64
     else None)"

definition index_element :: "bip32_index \<Rightarrow> view \<Rightarrow> wallet_elements \<Rightarrow> wallet_elements outcome" where
  "index_element index element e =
    (case pattern_size_of element of
       None \<Rightarrow> Inl Unreachable
     | Some s \<Rightarrow> Inr (e\<lparr>el_key := (el_key e)(s := el_key e s @ [(index, element)])\<rparr>))"

section \<open>The cache of elements\<close>

record element_cache =
  ec_data :: "(bip32_index \<times> view list) list"
  ec_elements :: wallet_elements

definition index_entry :: "bip32_index \<Rightarrow> view list \<Rightarrow> wallet_elements \<Rightarrow> wallet_elements outcome" where
  "index_entry key values = fold_outcome (index_element key) values"

text \<open>The loop over the values of a key that is present.\<close>

definition add_value ::
  "bip32_index \<Rightarrow> view \<Rightarrow> view list \<times> wallet_elements \<Rightarrow> (view list \<times> wallet_elements) outcome" where
  "add_value key value = (\<lambda>(existing, e).
    if value \<in> set existing then Inr (existing, e)
    else bind_outcome (index_element key value e) (\<lambda>e. Inr (existing @ [value], e)))"

definition add_entry :: "bip32_index \<times> view list \<Rightarrow> element_cache \<Rightarrow> element_cache outcome" where
  "add_entry i c = (case map_of (ec_data c) (fst i) of
     None \<Rightarrow>
       bind_outcome (index_entry (fst i) (snd i) (ec_elements c)) (\<lambda>e.
         Inr \<lparr>ec_data = omap_emplace (fst i) (snd i) (ec_data c), ec_elements = e\<rparr>)
   | Some existing \<Rightarrow>
       bind_outcome (fold_outcome (add_value (fst i)) (snd i) (existing, ec_elements c)) (\<lambda>(existing, e).
         Inr \<lparr>ec_data = omap_put (fst i) existing (ec_data c), ec_elements = e\<rparr>))"

definition ElementCache_Add :: "(bip32_index \<times> view list) list \<Rightarrow> element_cache \<Rightarrow> element_cache outcome" where
  "ElementCache_Add data c = fold_outcome add_entry data c"

definition ElementCache_Add_txos :: "(outpoint \<times> txo) list \<Rightarrow> element_cache \<Rightarrow> element_cache" where
  "ElementCache_Add_txos created c =
    c\<lparr>ec_elements := (ec_elements c)\<lparr>el_txos :=
       fold (\<lambda>(op, output). omap_put op output) created (el_txos (ec_elements c))\<rparr>\<rparr>"

definition ElementCache_Add_consumed ::
  "outpoint list \<Rightarrow> (outpoint \<times> txo) list \<Rightarrow> element_cache \<Rightarrow> element_cache" where
  "ElementCache_Add_consumed consumed created c =
    (let c = ElementCache_Add_txos created c in
     c\<lparr>ec_elements := (ec_elements c)\<lparr>el_txos :=
       fold omap_del consumed (el_txos (ec_elements c))\<rparr>\<rparr>)"

text \<open>A pattern with the index of its key and the subchain the key belongs to.\<close>

type_synonym pattern = "(bip32_index \<times> subchain \<times> string) \<times> view"

definition convert_patterns :: "pattern list \<Rightarrow> (bip32_index \<times> view list) list" where
  "convert_patterns input =
    fold (\<lambda>((index, _), item) out.
      omap_put index ((case map_of out index of None \<Rightarrow> [] | Some items \<Rightarrow> items) @ [item]) out) input []"

definition ElementCache :: "pattern list \<Rightarrow> (outpoint \<times> txo) list \<Rightarrow> element_cache outcome" where
  "ElementCache data txos =
    bind_outcome (ElementCache_Add (convert_patterns data) \<lparr>ec_data = [], ec_elements = no_elements\<rparr>) (\<lambda>c.
      Inr (c\<lparr>ec_elements := (ec_elements c)\<lparr>el_txos :=
        fold (\<lambda>(op, output). omap_emplace op output) txos (el_txos (ec_elements c))\<rparr>\<rparr>))"

section \<open>Matches\<close>

record matches =
  match_key :: "pattern_size \<Rightarrow> bip32_index set"
  match_txo :: "outpoint set"

definition no_matches :: matches where
  "no_matches = \<lparr>match_key = (\<lambda>_. {}), match_txo = {}\<rparr>"

definition Matches_Merge :: "matches \<Rightarrow> matches \<Rightarrow> matches" where
  "Matches_Merge m rhs =
    \<lparr>match_key = (\<lambda>s. match_key m s \<union> match_key rhs s), match_txo = match_txo m \<union> match_txo rhs\<rparr>"

record match_index =
  confirmed_no_match :: matches
  confirmed_match :: matches

definition no_match_index :: match_index where
  "no_match_index = \<lparr>confirmed_no_match = no_matches, confirmed_match = no_matches\<rparr>"

definition MatchIndex_Merge :: "match_index \<Rightarrow> match_index \<Rightarrow> match_index" where
  "MatchIndex_Merge m rhs =
    \<lparr>confirmed_no_match = Matches_Merge (confirmed_no_match m) (confirmed_no_match rhs),
     confirmed_match = Matches_Merge (confirmed_match m) (confirmed_match rhs)\<rparr>"

text \<open>
  The cache is a map from positions, what a scan adds to it is a map that the scan iterates over.
\<close>

type_synonym match_cache = "block_position \<Rightarrow> match_index option"
type_synonym match_results = "(block_position \<times> match_index) list"

definition MatchCache_GetMatches :: "block_position \<Rightarrow> match_cache \<Rightarrow> match_index option" where
  "MatchCache_GetMatches block c = c block"

definition MatchCache_Add :: "match_results \<Rightarrow> match_cache \<Rightarrow> match_cache" where
  "MatchCache_Add results c =
    fold (\<lambda>(block, index) c.
      c(block := Some (MatchIndex_Merge (case c block of None \<Rightarrow> no_match_index | Some i \<Rightarrow> i) index))) results c"

definition MatchCache_Forget :: "block_position \<Rightarrow> match_cache \<Rightarrow> match_cache" where
  "MatchCache_Forget final c = (\<lambda>block. if block \<le> final then None else c block)"

definition MatchCache_Reset :: match_cache where
  "MatchCache_Reset = (\<lambda>_. None)"

section \<open>What the cache contains\<close>

definition cached :: "(bip32_index \<times> view list) list \<Rightarrow> (bip32_index \<times> view) set" where
  "cached data = {(k, v). \<exists>vs. map_of data k = Some vs \<and> v \<in> set vs}"

definition cache_inv :: "element_cache \<Rightarrow> bool" where
  "cache_inv c \<longleftrightarrow> ordered (ec_data c) \<and>
     (\<forall>(k, v) \<in> cached (ec_data c). pattern_size_of v \<noteq> None) \<and>
     (\<forall>s. set (el_key (ec_elements c) s) = {(k, v) \<in> cached (ec_data c). pattern_size_of v = Some s})"

lemma cached_Nil [simp]: "cached [] = {}"
  by (simp add: cached_def)

lemma cached_put:
  "ordered m \<Longrightarrow> cached (omap_put k vs m) = {(k', v) \<in> cached m. k' \<noteq> k} \<union> {k} \<times> set vs"
  by (auto simp: cached_def split: if_splits)

lemma index_element_Some:
  "pattern_size_of v = Some s \<Longrightarrow>
    index_element k v e = Inr (e\<lparr>el_key := (el_key e)(s := el_key e s @ [(k, v)])\<rparr>)"
  by (simp add: index_element_def)

lemma index_element_None: "pattern_size_of v = None \<Longrightarrow> index_element k v e = Inl Unreachable"
  by (simp add: index_element_def)

text \<open>Both loops over values index a list of new patterns, in order.\<close>

definition indexed :: "bip32_index \<Rightarrow> view list \<Rightarrow> wallet_elements \<Rightarrow> wallet_elements" where
  "indexed k vs e = e\<lparr>el_key := (\<lambda>s. el_key e s @ map (Pair k) (filter (\<lambda>v. pattern_size_of v = Some s) vs))\<rparr>"

fun fresh_values :: "view list \<Rightarrow> view list \<Rightarrow> view list" where
  "fresh_values existing [] = []"
| "fresh_values existing (v # vs) =
    (if v \<in> set existing then fresh_values existing vs
     else v # fresh_values (existing @ [v]) vs)"

lemma indexed_Nil [simp]: "indexed k [] e = e"
  by (simp add: indexed_def)

lemma indexed_Cons:
  "pattern_size_of v = Some s \<Longrightarrow>
    indexed k vs (e\<lparr>el_key := (el_key e)(s := el_key e s @ [(k, v)])\<rparr>) = indexed k (v # vs) e"
  by (rule wallet_elements.equality) (auto simp: indexed_def)

lemma el_txos_indexed [simp]: "el_txos (indexed k vs e) = el_txos e"
  by (simp add: indexed_def)

lemma set_el_key_indexed:
  "set (el_key (indexed k vs e) s) = set (el_key e s) \<union> {k} \<times> {v \<in> set vs. pattern_size_of v = Some s}"
  by (auto simp: indexed_def)

lemma index_entry_eq:
  "index_entry k vs e =
    (if \<forall>v \<in> set vs. pattern_size_of v \<noteq> None then Inr (indexed k vs e) else Inl Unreachable)"
proof (induction vs arbitrary: e)
  case (Cons v vs)
  then show ?case
    by (cases "pattern_size_of v") (simp_all add: index_entry_def index_element_Some index_element_None indexed_Cons)
qed (simp add: index_entry_def)

lemma set_fresh_values: "set existing \<union> set (fresh_values existing vs) = set existing \<union> set vs"
  by (induction existing vs rule: fresh_values.induct) auto

lemma add_values_eq:
  assumes "\<forall>v \<in> set existing. pattern_size_of v \<noteq> None"
  shows "fold_outcome (add_value k) vs (existing, e) =
    (if \<forall>v \<in> set vs. pattern_size_of v \<noteq> None
     then Inr (existing @ fresh_values existing vs, indexed k (fresh_values existing vs) e)
     else Inl Unreachable)"
  using assms
proof (induction vs arbitrary: existing e)
  case (Cons v vs)
  then show ?case
    by (cases "pattern_size_of v")
      (auto simp: add_value_def index_element_Some index_element_None indexed_Cons)
qed simp

text \<open>Adding one entry: what fails, and what the cache has afterwards.\<close>

lemma add_entry_fails:
  assumes "cache_inv c" "v \<in> set vs" "pattern_size_of v = None"
  shows "add_entry (k, vs) c = Inl Unreachable"
proof (cases "map_of (ec_data c) k")
  case (Some existing)
  then have "\<forall>v \<in> set existing. pattern_size_of v \<noteq> None"
    using assms(1) by (auto simp: cache_inv_def cached_def)
  then show ?thesis
    using assms(2,3) Some by (auto simp: add_entry_def add_values_eq)
qed (use assms in \<open>auto simp: add_entry_def index_entry_eq\<close>)

lemma add_entry_adds:
  assumes inv: "cache_inv c" and ok: "\<forall>v \<in> set vs. pattern_size_of v \<noteq> None"
  shows "\<exists>c'. add_entry (k, vs) c = Inr c' \<and> cache_inv c' \<and>
    cached (ec_data c') = cached (ec_data c) \<union> {k} \<times> set vs \<and>
    el_txos (ec_elements c') = el_txos (ec_elements c)"
proof (cases "map_of (ec_data c) k")
  case None
  define c' where "c' = \<lparr>ec_data = omap_emplace k vs (ec_data c), ec_elements = indexed k vs (ec_elements c)\<rparr>"
  have "cached (ec_data c') = cached (ec_data c) \<union> {k} \<times> set vs"
    using None inv by (auto simp: c'_def cached_def map_of_omap_emplace cache_inv_def split: if_splits)
  moreover have "cache_inv c'"
    unfolding cache_inv_def calculation
    using inv ok by (auto simp: c'_def cache_inv_def set_el_key_indexed)
  ultimately show ?thesis
    using None ok by (simp add: add_entry_def index_entry_eq c'_def)
next
  case (Some existing)
  then have sized: "\<forall>v \<in> set existing. pattern_size_of v \<noteq> None"
    using inv by (auto simp: cache_inv_def cached_def)
  define new where "new = fresh_values existing vs"
  define c' where "c' = \<lparr>ec_data = omap_put k (existing @ new) (ec_data c), ec_elements = indexed k new (ec_elements c)\<rparr>"
  have new: "set existing \<union> set new = set existing \<union> set vs"
    by (simp add: new_def set_fresh_values)
  have old: "{k} \<times> set existing \<subseteq> cached (ec_data c)"
    using Some by (auto simp: cached_def)
  have "cached (ec_data c') = {(k', v) \<in> cached (ec_data c). k' \<noteq> k} \<union> {k} \<times> (set existing \<union> set new)"
    using inv by (simp add: c'_def cached_put cache_inv_def)
  also have "\<dots> = cached (ec_data c) \<union> {k} \<times> set new"
    using Some by (auto simp: cached_def)
  finally have put: "cached (ec_data c') = cached (ec_data c) \<union> {k} \<times> set new" .
  moreover have "\<dots> = cached (ec_data c) \<union> {k} \<times> set vs"
    using new old by blast
  moreover have "cache_inv c'"
    unfolding cache_inv_def put
    using inv ok sized new by (auto simp: c'_def cache_inv_def set_el_key_indexed)
  ultimately show ?thesis
    using Some ok sized by (simp add: add_entry_def add_values_eq c'_def new_def)
qed

end
