(* ===== verification/Wallet_Cache.thy ===== *)
theory Wallet_Cache
  imports Wallet_Elements
begin

text \<open>
  The cache of elements: its invariant through all additions, and that it is complete.
\<close>

definition entries :: "(bip32_index \<times> view list) list \<Rightarrow> (bip32_index \<times> view) set" where
  "entries data = {(k, v). \<exists>vs. (k, vs) \<in> set data \<and> v \<in> set vs}"

lemma entries_simps [simp]: "entries [] = {}" "entries ((k, vs) # data) = {k} \<times> set vs \<union> entries data"
  by (auto simp: entries_def)

lemma cached_entries: "ordered m \<Longrightarrow> cached m = entries m"
  by (auto simp: cached_def entries_def ordered_def strict_sorted_iff dest: map_of_SomeD)

text \<open>What a step of the cache does to it when it is given these elements.\<close>

definition sized :: "(bip32_index \<times> view) set \<Rightarrow> bool" where
  "sized A \<longleftrightarrow> (\<forall>(k, v) \<in> A. pattern_size_of v \<noteq> None)"

definition adds :: "element_cache \<Rightarrow> (bip32_index \<times> view) set \<Rightarrow> element_cache outcome \<Rightarrow> bool" where
  "adds c A r \<longleftrightarrow>
    (if sized A then \<exists>c'. r = Inr c' \<and> cache_inv c' \<and> cached (ec_data c') = cached (ec_data c) \<union> A
     else r = Inl Unreachable)"

lemma sized_Un [simp]: "sized (A \<union> B) \<longleftrightarrow> sized A \<and> sized B"
  by (simp add: sized_def ball_Un)

lemma adds_bind:
  assumes "adds c A r" "\<And>c'. cache_inv c' \<Longrightarrow> adds c' B (f c')"
  shows "adds c (A \<union> B) (bind_outcome r f)"
proof (cases "sized A")
  case True
  then obtain c' where c': "r = Inr c'" "cache_inv c'" "cached (ec_data c') = cached (ec_data c) \<union> A"
    using assms(1) by (auto simp: adds_def)
  then show ?thesis
    using assms(2) [OF c'(2)] True by (cases "sized B") (auto simp: adds_def)
next
  case False
  then show ?thesis
    using assms(1) by (simp add: adds_def)
qed

lemma adds_fold:
  assumes "cache_inv c" "\<And>x c. x \<in> set xs \<Longrightarrow> cache_inv c \<Longrightarrow> adds c (A x) (f x c)"
  shows "adds c (\<Union>x \<in> set xs. A x) (fold_outcome f xs c)"
  using assms
proof (induction xs arbitrary: c)
  case (Cons x xs)
  have "adds c (A x \<union> (\<Union>x \<in> set xs. A x)) (bind_outcome (f x c) (fold_outcome f xs))"
    using Cons by (intro adds_bind) auto
  then show ?case
    by simp
qed (simp add: adds_def sized_def)

lemma add_entry_result:
  assumes "cache_inv c"
  shows "adds c ({fst x} \<times> set (snd x)) (add_entry x c)"
proof (cases "\<forall>v \<in> set (snd x). pattern_size_of v \<noteq> None")
  case True
  then show ?thesis
    using add_entry_adds [OF assms True, of "fst x"] by (auto simp: adds_def sized_def)
next
  case False
  then show ?thesis
    using add_entry_fails [OF assms, of _ "snd x" "fst x"] by (auto simp: adds_def sized_def)
qed

lemma ElementCache_Add_result:
  assumes "cache_inv c"
  shows "adds c (entries data) (ElementCache_Add data c)"
proof -
  have "entries data = (\<Union>x \<in> set data. {fst x} \<times> set (snd x))"
    by (force simp: entries_def)
  then show ?thesis
    using adds_fold [OF assms add_entry_result] by (simp add: ElementCache_Add_def)
qed

lemma convert_fold:
  assumes "ordered out"
  shows "let m = fold (\<lambda>((index, _), item) out.
      omap_put index ((case map_of out index of None \<Rightarrow> [] | Some items \<Rightarrow> items) @ [item]) out) input out
    in ordered m \<and> cached m = cached out \<union> {(k, v). \<exists>x. ((k, x), v) \<in> set input}"
  using assms
proof (induction input arbitrary: out)
  case (Cons p input)
  obtain k x v where p: "p = ((k, x), v)"
    by (metis surj_pair)
  let ?out = "omap_put k ((case map_of out k of None \<Rightarrow> [] | Some items \<Rightarrow> items) @ [v]) out"
  have "cached ?out = insert (k, v) (cached out)"
    using Cons.prems by (auto simp: cached_put) (auto simp: cached_def split: option.splits)
  then show ?case
    using Cons.IH [of ?out] Cons.prems by (auto simp: p Let_def)
qed simp

text \<open>A cache that was made from the patterns in the database and to which new elements were added.\<close>

definition cache_after ::
  "pattern list \<Rightarrow> (outpoint \<times> txo) list \<Rightarrow> (bip32_index \<times> view list) list list \<Rightarrow> element_cache outcome" where
  "cache_after patterns txos added = bind_outcome (ElementCache patterns txos) (fold_outcome ElementCache_Add added)"

text \<open>
  C16. The cache of elements is complete: whatever was loaded and added, the lists that a scan reads have exactly
  the elements that were given, each in the list of its size. A pattern of any other size ends the process.
\<close>

theorem element_cache_is_complete:
  assumes "given = {(k, v). \<exists>x. ((k, x), v) \<in> set patterns} \<union> (\<Union>data \<in> set added. entries data)"
  shows "if \<forall>(k, v) \<in> given. length v \<in> {20, 32, 33, 64, 65}
    then \<exists>c. cache_after patterns txos added = Inr c \<and>
      (\<forall>s. set (el_key (ec_elements c) s) = {(k, v) \<in> given. pattern_size_of v = Some s})
    else cache_after patterns txos added = Inl Unreachable"
proof -
  have sizes: "length v \<in> {20, 32, 33, 64, 65} \<longleftrightarrow> pattern_size_of v \<noteq> None" for v
    by (auto simp: pattern_size_of_def)
  let ?c = "\<lparr>ec_data = [], ec_elements = no_elements\<rparr>"
  have inv: "cache_inv ?c"
    by (simp add: cache_inv_def no_elements_def)
  have "ordered (convert_patterns patterns)" "cached (convert_patterns patterns) = {(k, v). \<exists>x. ((k, x), v) \<in> set patterns}"
    using convert_fold [of "[]" patterns] by (simp_all add: convert_patterns_def Let_def)
  then have "adds ?c {(k, v). \<exists>x. ((k, x), v) \<in> set patterns} (ElementCache_Add (convert_patterns patterns) ?c)"
    using ElementCache_Add_result [OF inv, of "convert_patterns patterns"] by (simp add: cached_entries)
  then have "adds ?c given (bind_outcome (ElementCache_Add (convert_patterns patterns) ?c) (\<lambda>c. fold_outcome ElementCache_Add added
      (c\<lparr>ec_elements := (ec_elements c)\<lparr>el_txos := fold (\<lambda>(op, coin). omap_emplace op coin) txos (el_txos (ec_elements c))\<rparr>\<rparr>)))"
    unfolding assms
  proof (rule adds_bind)
    fix c
    assume inv: "cache_inv c"
    define c' where "c' = c\<lparr>ec_elements := (ec_elements c)\<lparr>el_txos := fold (\<lambda>(op, coin). omap_emplace op coin) txos (el_txos (ec_elements c))\<rparr>\<rparr>"
    have inv': "cache_inv c'" and same: "ec_data c' = ec_data c"
      using inv by (simp_all add: c'_def cache_inv_def)
    have "adds c' (\<Union>data \<in> set added. entries data) (fold_outcome ElementCache_Add added c')"
      by (intro adds_fold ElementCache_Add_result inv')
    then have "adds c (\<Union>data \<in> set added. entries data) (fold_outcome ElementCache_Add added c')"
      unfolding adds_def same .
    then show "adds c (\<Union>data \<in> set added. entries data) (fold_outcome ElementCache_Add added
        (c\<lparr>ec_elements := (ec_elements c)\<lparr>el_txos := fold (\<lambda>(op, coin). omap_emplace op coin) txos (el_txos (ec_elements c))\<rparr>\<rparr>))"
      by (simp only: c'_def)
  qed
  then show ?thesis
    unfolding sizes cache_after_def ElementCache_def bind_outcome_assoc
    by (auto simp: adds_def sized_def cache_inv_def)
qed

lemma element_cache_is_complete_witness:
  "\<exists>c. cache_after [((7, SubchainExternal, ''account''), replicate 20 3)] [] [[(7, [replicate 33 4])]] = Inr c
    \<and> set (el_key (ec_elements c) P33) = {(7, replicate 33 4)}"
proof -
  let ?given = "{(k, v). \<exists>x. ((k, x), v) \<in> set [((7 :: bip32_index, SubchainExternal, ''account''), replicate 20 (3 :: 8 word))]} \<union>
    (\<Union>data \<in> set [[(7, [replicate 33 4])]]. entries data)"
  have given: "?given = {(7, replicate 20 3), (7, replicate 33 4)}"
    by auto
  have "{(k, v) \<in> ?given. pattern_size_of v = Some P33} = {(7, replicate 33 4)}"
    unfolding given by (auto simp: pattern_size_of_def)
  then show ?thesis
    using element_cache_is_complete [OF refl, of "[((7, SubchainExternal, ''account''), replicate 20 3)]" "[[(7, [replicate 33 4])]]" "[]"]
    unfolding given by auto
qed

end
