(* ===== verification/Wallet_Targets.thy ===== *)
theory Wallet_Targets
  imports Wallet_Elements
begin

text \<open>
  The targets of a scan and the comparison of their hashes with the filters of the blocks
  (\<open>select_targets\<close> of \<open>src/blockchain/node/wallet/subchain/SubchainStateData.cpp\<close> and \<open>PrehashData.cpp\<close>, with
  \<open>sequential.cpp\<close>; \<open>tbb.cpp\<close> and \<open>pstl.cpp\<close> run the same jobs in parallel). A target is an element whose
  presence in a block is not known yet. The hashes of the targets of a block are computed by jobs, each of which takes
  every \<open>job_count\<close>-th block.
\<close>

section \<open>Selecting targets\<close>

type_synonym 'i targets = "'i list \<times> view list"

record selected_elements =
  se_key :: "pattern_size \<Rightarrow> bip32_index targets"
  se_txo :: "outpoint targets"

type_synonym block_target = "view \<times> selected_elements"

definition untested :: "match_index option \<Rightarrow> (matches \<Rightarrow> 'i set) \<Rightarrow> 'i \<Rightarrow> bool" where
  "untested known sel index = (case known of
     Some m \<Rightarrow> index \<notin> sel (confirmed_no_match m) \<and> index \<notin> sel (confirmed_match m)
   | None \<Rightarrow> True)"

definition add_target :: "'i \<Rightarrow> view \<Rightarrow> 'i targets \<Rightarrow> 'i targets" where
  "add_target index data out = (fst out @ [index], snd out @ [data])"

definition select_keys :: "match_index option \<Rightarrow> pattern_size \<Rightarrow> (bip32_index \<times> view) list \<Rightarrow> bip32_index targets" where
  "select_keys known s all =
    fold (\<lambda>(index, data) out.
      if untested known (\<lambda>m. match_key m s) index then add_target index data out else out) all ([], [])"

definition select_txos :: "match_index option \<Rightarrow> (outpoint \<times> txo) list \<Rightarrow> outpoint targets" where
  "select_txos known all =
    fold (\<lambda>(op, output) out.
      if untested known match_txo op then add_target op (outpoint_Bytes op) out else out) all ([], [])"

definition select_targets_block ::
  "match_cache \<Rightarrow> block_position \<Rightarrow> wallet_elements \<Rightarrow> block_target list \<Rightarrow> block_target list" where
  "select_targets_block cache block e targets =
    (let known = MatchCache_GetMatches block cache in
     targets @ [(snd block,
       \<lparr>se_key = (\<lambda>s. select_keys known s (el_key e s)), se_txo = select_txos known (el_txos e)\<rparr>)])"

definition select_targets ::
  "match_cache \<Rightarrow> view list \<Rightarrow> wallet_elements \<Rightarrow> int \<Rightarrow> block_target list" where
  "select_targets cache hashes e height =
    snd (fold (\<lambda>hash (height, targets).
      (height + 1, select_targets_block cache (height, hash) e targets)) hashes (height, []))"

section \<open>Hashes of the targets\<close>

text \<open>
  For each group of targets the list of their hashes without repetitions, and a map from
  hashes to items.
\<close>

type_synonym 'i hashed = "64 word list \<times> (64 word \<Rightarrow> 'i list option)"

record block_data =
  bd_height :: int
  bd_key :: "pattern_size \<Rightarrow> bip32_index hashed"
  bd_txo :: "outpoint hashed"

definition no_hashes :: "'i hashed" where
  "no_hashes = ([], \<lambda>_. None)"

record prehash =
  pd_job_count :: nat
  pd_targets :: "block_target list"
  pd_data :: "block_data list"

definition PrehashData ::
  "block_target list \<Rightarrow> match_results \<Rightarrow> int \<Rightarrow> nat \<Rightarrow> (prehash \<times> match_results) outcome" where
  "PrehashData targets results start jobs =
    assert_that ''0 < job_count_'' (0 < jobs)
      (let (start, data, results) =
         fold (\<lambda>(block, elements) (start, data, results).
           (start + 1,
            data @ [\<lparr>bd_height = start, bd_key = (\<lambda>_. no_hashes), bd_txo = no_hashes\<rparr>],
            omap_emplace (start, block) no_match_index results)) targets (start, [], results)
       in assert_that ''targets_.size() == data_.size()'' (length targets = length data)
         (Inr (\<lparr>pd_job_count = jobs, pd_targets = targets, pd_data = data\<rparr>, results)))"

fun hash_loop :: "siphash \<Rightarrow> view \<Rightarrow> 'i list \<Rightarrow> view list \<Rightarrow> 'i hashed \<Rightarrow> 'i hashed outcome" where
  "hash_loop hmac key [] ts dest = Inr dest"
| "hash_loop hmac key (i # ixs) [] dest = Inl UndefinedBehaviour"
| "hash_loop hmac key (i # ixs) (t # ts) dest =
    (case Siphash hmac key t of
       None \<Rightarrow> Inl Terminated
     | Some hash \<Rightarrow> hash_loop hmac key ixs ts
         (fst dest @ [hash],
          (snd dest)(hash := Some ((case snd dest hash of None \<Rightarrow> [] | Some items \<Rightarrow> items) @ [i]))))"

definition hash_targets :: "siphash \<Rightarrow> view \<Rightarrow> 'i targets \<Rightarrow> 'i hashed \<Rightarrow> 'i hashed outcome" where
  "hash_targets hmac block targets dest =
    (case BlockHashToFilterKey block of
       None \<Rightarrow> Inl Terminated
     | Some key \<Rightarrow>
         bind_outcome (hash_loop hmac key (fst targets) (snd targets) dest) (\<lambda>dest.
           Inr (dedup (fst dest), snd dest)))"

definition hash_block :: "siphash \<Rightarrow> block_target \<Rightarrow> block_data \<Rightarrow> block_data outcome" where
  "hash_block hmac target row =
    bind_outcome
      (fold_outcome (\<lambda>s row.
         bind_outcome (hash_targets hmac (fst target) (se_key (snd target) s) (bd_key row s)) (\<lambda>data.
           Inr (row\<lparr>bd_key := (bd_key row)(s := data)\<rparr>))) pattern_sizes row) (\<lambda>row.
    bind_outcome (hash_targets hmac (fst target) (se_txo (snd target)) (bd_txo row)) (\<lambda>data.
      Inr (row\<lparr>bd_txo := data\<rparr>)))"

text \<open>The indices of the blocks of one job.\<close>

function stride :: "nat \<Rightarrow> nat \<Rightarrow> nat \<Rightarrow> nat list" where
  "stride i step stop = (if i < stop \<and> 0 < step then i # stride (i + step) step stop else [])"
  by pat_completeness auto
termination by (relation "measure (\<lambda>(i, step, stop). stop - i)") auto

declare stride.simps [simp del]

definition prepare_row :: "siphash \<Rightarrow> nat \<Rightarrow> prehash \<Rightarrow> prehash outcome" where
  "prepare_row hmac i pd =
    (if i < length (pd_targets pd) \<and> i < length (pd_data pd)
     then bind_outcome (hash_block hmac (pd_targets pd ! i) (pd_data pd ! i)) (\<lambda>row.
       Inr (pd\<lparr>pd_data := (pd_data pd)[i := row]\<rparr>))
     else Inl Terminated)"

definition prepare_job :: "siphash \<Rightarrow> nat \<Rightarrow> prehash \<Rightarrow> prehash outcome" where
  "prepare_job hmac job pd =
    fold_outcome (prepare_row hmac) (stride job (pd_job_count pd) (length (pd_targets pd))) pd"

text \<open>The jobs in the order in which they run; one thread runs them in ascending order.\<close>

definition prepare_jobs :: "siphash \<Rightarrow> nat list \<Rightarrow> prehash \<Rightarrow> prehash outcome" where
  "prepare_jobs hmac jobs pd = fold_outcome (prepare_job hmac) jobs pd"

definition Prepare :: "siphash \<Rightarrow> prehash \<Rightarrow> prehash outcome" where
  "Prepare hmac pd = prepare_jobs hmac [0..<pd_job_count pd] pd"

section \<open>Comparison with the filters\<close>

definition cfilter_Match :: "cfilter \<Rightarrow> 64 word list \<Rightarrow> (nat list \<times> cfilter) outcome" where
  "cfilter_Match f hashes = (case f of
     BlankFilter \<Rightarrow> Inr ([], f)
   | Filter g \<Rightarrow> bind_outcome (GCS_Match_hashes g hashes) (\<lambda>(ms, g). Inr (ms, Filter g)))"

definition cfilter_ElementCount :: "cfilter \<Rightarrow> 32 word" where
  "cfilter_ElementCount f = (case f of BlankFilter \<Rightarrow> 0 | Filter g \<Rightarrow> gcs_count g)"

text \<open>\<open>GetKeys\<close> and \<open>GetOutpoints\<close> are the same code; a set of items is an ordered list.\<close>

definition get_items :: "'i::linorder hashed \<Rightarrow> cfilter \<Rightarrow> ('i list \<times> cfilter) outcome" where
  "get_items data f =
    bind_outcome (cfilter_Match f (fst data)) (\<lambda>(ms, f).
    bind_outcome (fold_outcome (\<lambda>dist out.
        if dist < length (fst data) then
          (case snd data (fst data ! dist) of
             None \<Rightarrow> Inl Terminated
           | Some items \<Rightarrow> Inr (fold oset_put items out))
        else Inl Terminated) ms []) (\<lambda>out.
    Inr (out, f)))"

text \<open>
  \<open>GetResults\<close>: the targets among the matches are dirty, the others clean; \<open>output\<close> counts the matches and the
  targets.
\<close>

definition split_targets :: "'i list \<Rightarrow> 'i list \<Rightarrow> 'i set \<Rightarrow> 'i set \<Rightarrow> 'i set \<times> 'i set" where
  "split_targets found selected clean dirty =
    fold (\<lambda>index (clean, dirty).
      if index \<notin> set found then (insert index clean, dirty) else (clean, insert index dirty))
      selected (clean, dirty)"

type_synonym match_counters = "nat \<times> nat"

definition get_key_results ::
  "pattern_size \<Rightarrow> block_data \<Rightarrow> selected_elements \<Rightarrow> cfilter \<times> match_index \<times> match_counters \<Rightarrow>
    (cfilter \<times> match_index \<times> match_counters) outcome" where
  "get_key_results s pre selected = (\<lambda>(f, result, output).
    bind_outcome (get_items (bd_key pre s) f) (\<lambda>(found, f).
      let no = confirmed_no_match result; yes = confirmed_match result;
          (clean, dirty) = split_targets found (fst (se_key selected s)) (match_key no s) (match_key yes s)
      in Inr (f,
           \<lparr>confirmed_no_match = no\<lparr>match_key := (match_key no)(s := clean)\<rparr>,
            confirmed_match = yes\<lparr>match_key := (match_key yes)(s := dirty)\<rparr>\<rparr>,
           (fst output + length found, snd output + length (fst (se_key selected s))))))"

definition get_txo_results ::
  "block_data \<Rightarrow> selected_elements \<Rightarrow> cfilter \<times> match_index \<times> match_counters \<Rightarrow>
    (cfilter \<times> match_index \<times> match_counters) outcome" where
  "get_txo_results pre selected = (\<lambda>(f, result, output).
    bind_outcome (get_items (bd_txo pre) f) (\<lambda>(found, f).
      let no = confirmed_no_match result; yes = confirmed_match result;
          (clean, dirty) = split_targets found (fst (se_txo selected)) (match_txo no) (match_txo yes)
      in Inr (f,
           \<lparr>confirmed_no_match = no\<lparr>match_txo := clean\<rparr>, confirmed_match = yes\<lparr>match_txo := dirty\<rparr>\<rparr>,
           (fst output + length found, snd output + length (fst (se_txo selected))))))"

text \<open>What the jobs report: clean and dirty positions, and the number of elements of each filter.\<close>

record async_results =
  ar_clean :: "block_position list"
  ar_dirty :: "block_position list"
  ar_sizes :: "(int \<times> 32 word) list"

definition no_results :: async_results where
  "no_results = \<lparr>ar_clean = [], ar_dirty = [], ar_sizes = []\<rparr>"

definition match_block ::
  "block_position \<Rightarrow> cfilter \<Rightarrow> block_target \<Rightarrow> block_data \<Rightarrow> async_results \<Rightarrow> match_index \<Rightarrow>
    (cfilter \<times> async_results \<times> match_index) outcome" where
  "match_block position f targets prehashed cache result =
    bind_outcome (fold_outcome (\<lambda>s. get_key_results s prehashed (snd targets)) pattern_sizes (f, result, (0, 0)))
      (\<lambda>acc.
    bind_outcome (get_txo_results prehashed (snd targets) acc) (\<lambda>(f, result, count, total).
      let cache = (if count = 0 then cache\<lparr>ar_clean := oset_put position (ar_clean cache)\<rparr>
                   else cache\<lparr>ar_dirty := oset_put position (ar_dirty cache)\<rparr>)
      in Inr (f,
           cache\<lparr>ar_sizes := omap_emplace (fst position) (cfilter_ElementCount f) (ar_sizes cache)\<rparr>,
           result)))"

text \<open>
  The state of a scan that is matching: the filters, which decompress when they are asked first, whether a
  block was tested, the results of this scan, and what the jobs reported.
\<close>

record matching =
  mt_filters :: "cfilter list"
  mt_at_least_once :: bool
  mt_results :: match_results
  mt_matched :: async_results

definition match_row :: "prehash \<Rightarrow> nat \<Rightarrow> async_results \<times> matching \<Rightarrow> (async_results \<times> matching) outcome" where
  "match_row pd i = (\<lambda>(cache, m).
    let m = m\<lparr>mt_at_least_once := True\<rparr> in
    if \<not> (i < length (mt_filters m) \<and> i < length (pd_targets pd) \<and> i < length (pd_data pd))
    then Inl Terminated
    else let selected = pd_targets pd ! i; data = pd_data pd ! i; position = (bd_height data, fst selected) in
      case map_of (mt_results m) position of
        None \<Rightarrow> Inl Terminated
      | Some result \<Rightarrow>
          bind_outcome (match_block position (mt_filters m ! i) selected data cache result) (\<lambda>(f, cache, result).
            Inr (cache, m\<lparr>mt_filters := (mt_filters m)[i := f],
                          mt_results := omap_put position result (mt_results m)\<rparr>)))"

definition match_job :: "prehash \<Rightarrow> nat \<Rightarrow> matching \<Rightarrow> matching outcome" where
  "match_job pd job m =
    bind_outcome
      (fold_outcome (match_row pd)
        (stride job (pd_job_count pd) (min (length (pd_targets pd)) (length (mt_filters m)))) (no_results, m))
      (\<lambda>(cache, m).
        let out = mt_matched m in
        Inr (m\<lparr>mt_matched :=
          \<lparr>ar_clean = fold oset_put (ar_clean cache) (ar_clean out),
           ar_dirty = fold oset_put (ar_dirty cache) (ar_dirty out),
           ar_sizes = fold (\<lambda>(height, size). omap_emplace height size) (ar_sizes cache) (ar_sizes out)\<rparr>\<rparr>))"

definition match_jobs :: "prehash \<Rightarrow> nat list \<Rightarrow> matching \<Rightarrow> matching outcome" where
  "match_jobs pd jobs m = fold_outcome (match_job pd) jobs m"

definition Match_all :: "prehash \<Rightarrow> matching \<Rightarrow> matching outcome" where
  "Match_all pd m = match_jobs pd [0..<pd_job_count pd] m"

end
