(* ===== verification/Wallet_Scan.thy ===== *)
theory Wallet_Scan
  imports Wallet_Targets
begin

text \<open>
  The scan of the filters of a range of blocks for the elements of a subchain
  (\<open>src/blockchain/node/wallet/subchain/SubchainStateData.cpp\<close>): how many blocks are scanned at once and by how many
  threads, the scan itself, and the selection of the patterns with which a block is processed. Parameters
  are SipHash, the hashes the header oracle has for a range of heights, the filters the filter oracle has for hashes, the
  number of threads of the machine and the estimate of the size of a filter.
\<close>

section \<open>Threads and batches\<close>

function isqrt_loop :: "nat \<Rightarrow> nat \<Rightarrow> nat \<Rightarrow> nat" where
  "isqrt_loop x r i =
    (if i = 0 then r
     else isqrt_loop
       (if x \<ge> r + i then x - (r + i) else x)
       (if x \<ge> r + i then (r + 2 * i) div 2 else r div 2)
       (i div 4))"
  by pat_completeness auto
termination by (relation "measure (\<lambda>(x, r, i). i)") auto

function isqrt_i :: "nat \<Rightarrow> nat \<Rightarrow> nat" where
  "isqrt_i x i = (if i \<le> x then i else isqrt_i x (i div 4))"
  by pat_completeness auto
termination by (relation "measure (\<lambda>(x, i). i)") auto

declare isqrt_loop.simps [simp del] isqrt_i.simps [simp del]

definition isqrt :: "nat \<Rightarrow> nat" where
  "isqrt x = isqrt_loop x 0 (isqrt_i x (2 ^ 62))"

text \<open>\<open>calc\<close> of \<open>choose_thread_count\<close>.\<close>

definition thread_count :: "nat \<Rightarrow> nat \<Rightarrow> nat" where
  "thread_count num hardware = min (max (isqrt (num div 2 ^ 9)) 1) (max hardware 2 - 1)"

definition GetBatchSize :: "nat \<Rightarrow> nat \<Rightarrow> nat" where
  "GetBatchSize cf user = min (max ((425000 * (1 * 5)) div ((1 * cf) + (5 * user))) 1) 10000"

definition maximum_scan :: nat where
  "maximum_scan = 2000"

definition cfilter_size_window :: nat where
  "cfilter_size_window = 1000"

section \<open>The state of a subchain\<close>

datatype scan_state = ScanDirty | ScanClean | ScanProcessed | RescanClean

type_synonym scan_status = "scan_state \<times> block_position"

record scan_env =
  sn_hmac :: siphash
  sn_best_hashes :: "int \<Rightarrow> nat \<Rightarrow> view list"
  sn_load_filters :: "view list \<Rightarrow> cfilter list"
  sn_max_jobs :: nat
  sn_batch_estimate :: nat

record subchain_data =
  sd_id :: string
  sd_subchain :: subchain
  sd_elements :: element_cache
  sd_matches :: match_cache
  sd_filter_sizes :: "nat list"
  sd_elements_per_cfilter :: nat
  sd_requested :: "view list list" \<comment> \<open>what was asked of the block oracle\<close>

section \<open>Scanning\<close>

definition cfilter_IsValid :: "cfilter \<Rightarrow> bool" where
  "cfilter_IsValid f = (case f of BlankFilter \<Rightarrow> False | Filter _ \<Rightarrow> True)"

definition highest_clean ::
  "async_results \<Rightarrow> block_position \<Rightarrow> block_position option \<times> block_position" where
  "highest_clean results highestTested =
    (let clean = ar_clean results; dirty = ar_dirty results in
     if clean = [] \<and> dirty \<noteq> [] then (None, last dirty)
     else if dirty = [] \<and> clean \<noteq> [] then (Some (last clean), last clean)
     else if clean \<noteq> [] \<and> dirty \<noteq> [] then
       (let below = takeWhile (\<lambda>p. p \<le> hd dirty) clean in
        (if below = [] then None else Some (last below), max (last clean) (last dirty)))
     else (None, highestTested))"

text \<open>The moving average over the sizes of the last filters; the division is one of integers.\<close>

definition update_average :: "async_results \<Rightarrow> subchain_data \<Rightarrow> subchain_data outcome" where
  "update_average results sd =
    (let sizes = sd_filter_sizes sd @ map (\<lambda>(height, size). unat size) (ar_sizes results);
         sizes = drop (length sizes - cfilter_size_window) sizes
     in if length sizes = 0 then Inl UndefinedBehaviour
        else Inr (sd\<lparr>sd_filter_sizes := sizes,
                     sd_elements_per_cfilter := max 1 (sum_list sizes div length sizes)\<rparr>))"

text \<open>
  The inner \<open>scan\<close>. \<open>None\<close> is an exception, which leaves all of its arguments as they were.
\<close>

record scanned =
  sc_highest_clean :: "block_position option"
  sc_highest_tested :: block_position
  sc_at_least_once :: bool
  sc_results :: match_results
  sc_out :: "scan_status list"
  sc_data :: subchain_data

definition elements_per_filter :: "scan_env \<Rightarrow> subchain_data \<Rightarrow> nat" where
  "elements_per_filter env sd =
    (if sd_elements_per_cfilter sd = 0 then max 1 (sn_batch_estimate env) else sd_elements_per_cfilter sd)"

definition scan_threads :: "scan_env \<Rightarrow> subchain_data \<Rightarrow> nat" where
  "scan_threads env sd =
    thread_count (max (elements_size (ec_elements (sd_elements sd))) 1) (sn_max_jobs env)"

definition scan_batch :: "scan_env \<Rightarrow> subchain_data \<Rightarrow> nat" where
  "scan_batch env sd =
    min maximum_scan
      (GetBatchSize (elements_per_filter env sd) (max (elements_size (ec_elements (sd_elements sd))) 1) *
       scan_threads env sd)"

definition stop_height :: "scan_env \<Rightarrow> subchain_data \<Rightarrow> int \<Rightarrow> block_position \<Rightarrow> int \<Rightarrow> int" where
  "stop_height env sd startHeight best stop =
    min (min (startHeight + int (scan_batch env sd) - 1) (fst best)) stop"

text \<open>The blocks are known and there are some: select targets, hash, load the filters, match, report.\<close>

definition scan_blocks ::
  "scan_env \<Rightarrow> bool \<Rightarrow> int \<Rightarrow> view list \<Rightarrow> block_position \<Rightarrow> scan_status list \<Rightarrow> subchain_data \<Rightarrow> scanned outcome" where
  "scan_blocks env rescan startHeight blocks highestTested out sd =
    (let selected = select_targets (sd_matches sd) blocks (ec_elements (sd_elements sd)) startHeight in
     assert_that ''selected.empty()'' (selected \<noteq> [])
     (bind_outcome (PrehashData selected [] startHeight (min (scan_threads env sd) (length selected))) (\<lambda>(pd, results).
      bind_outcome (Prepare (sn_hmac env) pd) (\<lambda>pd.
      let cfilters = takeWhile cfilter_IsValid (sn_load_filters env blocks) in
      assert_that ''cfilterCount <= blocks.size()'' (length cfilters \<le> length blocks)
      (bind_outcome
        (Match_all pd \<lparr>mt_filters = cfilters, mt_at_least_once = False, mt_results = results, mt_matched = no_results\<rparr>) (\<lambda>m.
       let dirty = ar_dirty (mt_matched m);
           sd = (if dirty = [] then sd else sd\<lparr>sd_requested := sd_requested sd @ [map snd dirty]\<rparr>);
           out = out @ map (Pair ScanDirty) dirty;
           (highestClean, highestTested) = highest_clean (mt_matched m) highestTested
       in bind_outcome (if rescan then Inr sd else update_average (mt_matched m) sd) (\<lambda>sd.
          Inr \<lparr>sc_highest_clean = highestClean, sc_highest_tested = highestTested,
               sc_at_least_once = mt_at_least_once m, sc_results = mt_results m, sc_out = out, sc_data = sd\<rparr>)))))))"

definition scan_range ::
  "scan_env \<Rightarrow> bool \<Rightarrow> block_position \<Rightarrow> int \<Rightarrow> int \<Rightarrow> block_position \<Rightarrow> scan_status list \<Rightarrow> subchain_data \<Rightarrow>
    scanned option outcome" where
  "scan_range env rescan best stop startHeight highestTested out sd =
    assert_that ''0 < elementsPerFilter'' (0 < elements_per_filter env sd)
    (assert_that ''0 < threads'' (0 < scan_threads env sd)
    (let stopHeight = stop_height env sd startHeight best stop in
     if startHeight > stopHeight then Inr None
     else let blocks = sn_best_hashes env startHeight (nat (stopHeight - startHeight + 1)) in
       if blocks = [] then Inr None
       else bind_outcome (scan_blocks env rescan startHeight blocks highestTested out sd) (\<lambda>r. Inr (Some r))))"

text \<open>
  The outer \<open>scan\<close>, with \<open>Scan\<close> and \<open>Rescan\<close>: the highest clean position, and the arguments
  \<open>highestTested\<close> and \<open>out\<close> as they are at the end.
\<close>

definition scan ::
  "scan_env \<Rightarrow> bool \<Rightarrow> block_position \<Rightarrow> int \<Rightarrow> block_position \<Rightarrow> scan_status list \<Rightarrow> subchain_data \<Rightarrow>
    (block_position option \<times> block_position \<times> scan_status list \<times> subchain_data) outcome" where
  "scan env rescan best stop highestTested out sd =
    bind_outcome (scan_range env rescan best stop (fst highestTested + 1) highestTested out sd) (\<lambda>r.
      case r of
        None \<Rightarrow> Inr (None, highestTested, out, sd)
      | Some r \<Rightarrow>
          let sd = sc_data r in
          Inr (sc_highest_clean r, sc_highest_tested r, sc_out r,
            if sc_at_least_once r \<and> sc_results r \<noteq> []
            then sd\<lparr>sd_matches := MatchCache_Add (sc_results r) (sd_matches sd)\<rparr> else sd))"

definition Scan where
  "Scan env = scan env False"

definition Rescan where
  "Rescan env = scan env True"

section \<open>The patterns of a block that is processed\<close>

definition element_pattern :: "subchain_data \<Rightarrow> bip32_index \<Rightarrow> view \<Rightarrow> pattern" where
  "element_pattern sd index data = ((index, sd_subchain sd, sd_id sd), data)"

definition txo_patterns :: "subchain_data \<Rightarrow> outpoint \<Rightarrow> txo \<Rightarrow> pattern list" where
  "txo_patterns sd op output =
    map (\<lambda>(i, sub, index). element_pattern sd index (outpoint_Bytes op))
      (filter (\<lambda>(i, sub, index). i = sd_id sd \<and> sub = sd_subchain sd) (txo_keys output))"

text \<open>A pair of lists: patterns of outpoints and patterns of keys.\<close>

definition select_all :: "subchain_data \<Rightarrow> wallet_elements \<Rightarrow> pattern list \<times> pattern list \<Rightarrow> pattern list \<times> pattern list" where
  "select_all sd e = (\<lambda>(outpoint, key).
    (outpoint @ concat (map (\<lambda>(op, output). txo_patterns sd op output) (el_txos e)),
     key @ concat (map (\<lambda>s. map (\<lambda>(index, data). element_pattern sd index data) (el_key e s)) pattern_sizes)))"

definition select_matches ::
  "subchain_data \<Rightarrow> match_index option \<Rightarrow> wallet_elements \<Rightarrow> pattern list \<times> pattern list \<Rightarrow>
    bool \<times> pattern list \<times> pattern list" where
  "select_matches sd known e = (\<lambda>(outpoint, key).
    case known of
      Some m \<Rightarrow>
        (let items = confirmed_match m in
         (True,
          outpoint @ concat (map (\<lambda>(op, output). txo_patterns sd op output)
            (filter (\<lambda>(op, output). op \<in> match_txo items) (el_txos e))),
          key @ concat (map (\<lambda>s. map (\<lambda>(index, data). element_pattern sd index data)
            (filter (\<lambda>(index, data). index \<in> match_key items s) (el_key e s))) pattern_sizes)))
    | None \<Rightarrow> (False, outpoint, key))"

text \<open>The patterns with which \<open>ProcessBlock\<close> calls \<open>FindMatches\<close>.\<close>

definition block_patterns :: "subchain_data \<Rightarrow> block_position \<Rightarrow> pattern list \<times> pattern list" where
  "block_patterns sd position =
    (let known = MatchCache_GetMatches position (sd_matches sd);
         e = ec_elements (sd_elements sd);
         (found, patterns) = select_matches sd known e ([], [])
     in if found then patterns else select_all sd e patterns)"

end
