(* ===== verification/Wallet_Match.thy ===== *)
theory Wallet_Match
  imports Wallet_Scan Filter_Facts
begin

text \<open>
  What the comparison of targets with filters computes, for a hash function that does not fail: the result for one
  block in terms of the hashes of its filter, and the results of all jobs, in whatever order they run.
\<close>

section \<open>Hashes of targets\<close>

definition block_key :: "view \<Rightarrow> view" where
  "block_key block = take 16 block"

lemma BlockHashToFilterKey_eq: "16 \<le> length block \<Longrightarrow> BlockHashToFilterKey block = Some (block_key block)"
  by (simp add: BlockHashToFilterKey_def block_key_def)

lemma length_block_key: "16 \<le> length block \<Longrightarrow> length (block_key block) = 16"
  by (simp add: block_key_def)

definition hashes_of :: "(view \<Rightarrow> 64 word) \<Rightarrow> 'i targets \<Rightarrow> 'i hashed" where
  "hashes_of H ts =
    (dedup (map H (snd ts)),
     \<lambda>x. if x \<in> H ` set (snd ts)
         then Some (map fst (filter (\<lambda>(i, t). H t = x) (zip (fst ts) (snd ts)))) else None)"

lemma hash_loop_eq:
  assumes "length ixs = length ts" "length key = 16"
  shows "hash_loop (working h) key ixs ts (hs, m) =
    Inr (hs @ map (h key) ts,
         \<lambda>x. if x \<in> h key ` set ts
             then Some ((case m x of None \<Rightarrow> [] | Some l \<Rightarrow> l) @ map fst (filter (\<lambda>(i, t). h key t = x) (zip ixs ts)))
             else m x)"
  using assms
proof (induction ixs ts arbitrary: hs m rule: list_induct2)
  case (Cons i ixs t ts)
  have none: "x \<notin> h key ` set ts \<Longrightarrow> filter (\<lambda>(i, t). h key t = x) (zip ixs ts) = []" for x
    by (auto simp: filter_empty_conv dest: set_zip_rightD)
  show ?case
    using Cons none by (auto simp: Siphash_def fun_eq_iff split: option.splits)
qed (simp add: fun_eq_iff)

lemma hash_targets_eq:
  assumes "length (fst ts) = length (snd ts)" "16 \<le> length block"
  shows "hash_targets (working h) block ts no_hashes = Inr (hashes_of (h (block_key block)) ts)"
  using assms
  by (simp add: hash_targets_def no_hashes_def BlockHashToFilterKey_eq hash_loop_eq length_block_key hashes_of_def cong: if_cong)

definition even_targets :: "selected_elements \<Rightarrow> bool" where
  "even_targets sel \<longleftrightarrow> (\<forall>s. length (fst (se_key sel s)) = length (snd (se_key sel s))) \<and>
     length (fst (se_txo sel)) = length (snd (se_txo sel))"

definition empty_row :: "int \<Rightarrow> block_data" where
  "empty_row height = \<lparr>bd_height = height, bd_key = (\<lambda>_. no_hashes), bd_txo = no_hashes\<rparr>"

definition full_row :: "(view \<Rightarrow> view \<Rightarrow> 64 word) \<Rightarrow> block_target \<Rightarrow> int \<Rightarrow> block_data" where
  "full_row h target height =
    \<lparr>bd_height = height,
     bd_key = (\<lambda>s. hashes_of (h (block_key (fst target))) (se_key (snd target) s)),
     bd_txo = hashes_of (h (block_key (fst target))) (se_txo (snd target))\<rparr>"

lemma fun_upds_all_sizes:
  "f(P20 := a, P32 := b, P33 := c, P64 := d, P65 := e) = g \<longleftrightarrow>
    a = g P20 \<and> b = g P32 \<and> c = g P33 \<and> d = g P64 \<and> e = g P65"
proof (intro iffI ext)
  show "(f(P20 := a, P32 := b, P33 := c, P64 := d, P65 := e)) s = g s"
    if "a = g P20 \<and> b = g P32 \<and> c = g P33 \<and> d = g P64 \<and> e = g P65" for s
    using that by (cases s) simp_all
qed auto

lemma hash_block_eq:
  assumes "even_targets (snd target)" "16 \<le> length (fst target)"
  shows "hash_block (working h) target (empty_row height) = Inr (full_row h target height)"
  using assms
  by (simp add: hash_block_def pattern_sizes_def empty_row_def full_row_def even_targets_def hash_targets_eq fun_upds_all_sizes)

section \<open>One block\<close>

text \<open>Whether a filter claims to have a target, and the items of the targets it claims to have.\<close>

definition hit :: "(view \<Rightarrow> 64 word) \<Rightarrow> gcs \<Rightarrow> view \<Rightarrow> bool" where
  "hit H g t \<longleftrightarrow> HashToRange (GCS_Range g) (H t) \<in> set (filter_elements g)"

definition hit_items :: "(view \<Rightarrow> 64 word) \<Rightarrow> gcs \<Rightarrow> 'i targets \<Rightarrow> 'i set" where
  "hit_items H g ts = {i. \<exists>t. (i, t) \<in> set (zip (fst ts) (snd ts)) \<and> hit H g t}"

lemma hit_loaded [simp]: "hit H (loaded g) = hit H g" "hit_items H (loaded g) = hit_items H g"
  by (simp_all add: fun_eq_iff hit_def hit_items_def GCS_Range_def)

lemma hit_items_subset: "hit_items H g ts \<subseteq> set (fst ts)"
  by (auto simp: hit_items_def dest: set_zip_leftD)

lemma fold_oset_put_items:
  "set (fold (\<lambda>d. fold oset_put (f d)) ds out) = (\<Union>d \<in> set ds. set (f d)) \<union> set out"
  by (induction ds arbitrary: out) auto

lemma get_items_eq:
  assumes "gcs_inv g"
  shows "\<exists>found. get_items (hashes_of H ts) (Filter g) = Inr (found, Filter (loaded g)) \<and>
    set found = hit_items H g ts"
proof -
  define hs where "hs = dedup (map H (snd ts))"
  define items where "items x = map fst (filter (\<lambda>(i, t). H t = x) (zip (fst ts) (snd ts)))" for x
  have item: "i \<in> set (items x) \<longleftrightarrow> (\<exists>t. (i, t) \<in> set (zip (fst ts) (snd ts)) \<and> H t = x)" for i x
    unfolding items_def by force
  have hs: "set hs = H ` set (snd ts)"
    by (simp add: hs_def)
  have "\<exists>js. match_hashes g hs' = Inr (js, loaded g) \<and>
      set js = {j. j < length hs' \<and> hs' ! j \<in> set (filter_elements g)}" for hs'
    by (rule match_hashes_eq [OF assms, of hs']) blast
  then obtain js where js_eq: "match_hashes g (map (HashToRange (GCS_Range g)) hs) = Inr (js, loaded g)"
    and js_set: "set js = {j. j < length (map (HashToRange (GCS_Range g)) hs) \<and>
      map (HashToRange (GCS_Range g)) hs ! j \<in> set (filter_elements g)}"
    by blast
  have js: "j \<in> set js \<longleftrightarrow> j < length hs \<and> HashToRange (GCS_Range g) (hs ! j) \<in> set (filter_elements g)" for j
    unfolding js_set by auto
  have "fold_outcome (\<lambda>dist out.
        if dist < length hs then
          (case snd (hashes_of H ts) (hs ! dist) of
             None \<Rightarrow> Inl Terminated
           | Some items \<Rightarrow> Inr (fold oset_put items out))
        else Inl Terminated) js []
    = Inr (fold (\<lambda>dist. fold oset_put (items (hs ! dist))) js [])"
  proof (rule fold_outcome_pure, goal_cases)
    case (1 j out)
    then have "j < length hs" "hs ! j \<in> H ` set (snd ts)"
      using js [of j] hs nth_mem [of j hs] by auto
    then show ?case
      by (simp add: hashes_of_def items_def)
  qed
  moreover have "set (fold (\<lambda>dist. fold oset_put (items (hs ! dist))) js []) = hit_items H g ts"
  proof -
    have "(\<exists>j \<in> set js. hs ! j = H t) \<longleftrightarrow> hit H g t" if t: "t \<in> set (snd ts)" for t
    proof -
      have "H t \<in> set hs"
        using t by (simp add: hs)
      then obtain i where "i < length hs" "hs ! i = H t"
        by (auto simp: in_set_conv_nth)
      then have "hit H g t \<Longrightarrow> i \<in> set js \<and> hs ! i = H t"
        by (simp add: js hit_def)
      moreover have "hit H g t" if "j \<in> set js" "hs ! j = H t" for j
        using that(1) unfolding js that(2) hit_def by simp
      ultimately show ?thesis
        by blast
    qed
    then have "(i, t) \<in> set (zip (fst ts) (snd ts)) \<Longrightarrow> (\<exists>j \<in> set js. hs ! j = H t) \<longleftrightarrow> hit H g t" for i t
      by (blast dest: set_zip_rightD)
    moreover have "i \<in> (\<Union>d \<in> set js. set (items (hs ! d))) \<longleftrightarrow>
        (\<exists>t. (i, t) \<in> set (zip (fst ts) (snd ts)) \<and> (\<exists>j \<in> set js. hs ! j = H t))" for i
      unfolding UN_iff item by metis
    ultimately have "(\<Union>d \<in> set js. set (items (hs ! d))) = hit_items H g ts"
      unfolding hit_items_def by blast
    then show ?thesis
      by (simp add: fold_oset_put_items)
  qed
  moreover have fst_eq: "fst (hashes_of H ts) = hs"
    by (simp add: hashes_of_def hs_def)
  ultimately show ?thesis
    unfolding get_items_def fst_eq by (simp add: cfilter_Match_def GCS_Match_hashes_def js_eq)
qed

lemma split_targets_eq:
  "split_targets found sel clean dirty = (clean \<union> (set sel - set found), dirty \<union> (set sel \<inter> set found))"
  unfolding split_targets_def by (induction sel arbitrary: clean dirty) auto

definition found_items :: "(view \<Rightarrow> 64 word) \<Rightarrow> gcs \<Rightarrow> 'i::linorder targets \<Rightarrow> 'i list" where
  "found_items H g ts = (case get_items (hashes_of H ts) (Filter g) of Inl e \<Rightarrow> [] | Inr r \<Rightarrow> fst r)"

lemma get_items_found:
  assumes "gcs_inv g"
  shows "get_items (hashes_of H ts) (Filter g) = Inr (found_items H g ts, Filter (loaded g))"
    and set_found_items: "set (found_items H g ts) = hit_items H g ts"
proof -
  obtain found where "get_items (hashes_of H ts) (Filter g) = Inr (found, Filter (loaded g))"
    "set found = hit_items H g ts"
    using get_items_eq [OF assms] by blast
  then show "get_items (hashes_of H ts) (Filter g) = Inr (found_items H g ts, Filter (loaded g))"
    "set (found_items H g ts) = hit_items H g ts"
    by (simp_all add: found_items_def)
qed

lemma found_items_Nil: "gcs_inv g \<Longrightarrow> length (found_items H g ts) = 0 \<longleftrightarrow> hit_items H g ts = {}"
  by (metis set_found_items length_0_conv set_empty)

lemma split_found:
  assumes "gcs_inv g"
  shows "split_targets (found_items H g ts) (fst ts) clean dirty =
    (clean \<union> (set (fst ts) - hit_items H g ts), dirty \<union> hit_items H g ts)"
  using hit_items_subset [of H g ts] by (auto simp: split_targets_eq set_found_items [OF assms])

text \<open>The result for a block of which nothing was known in this scan.\<close>

definition block_result :: "(view \<Rightarrow> 64 word) \<Rightarrow> gcs \<Rightarrow> selected_elements \<Rightarrow> match_index" where
  "block_result H g sel =
    \<lparr>confirmed_no_match =
       \<lparr>match_key = (\<lambda>s. set (fst (se_key sel s)) - hit_items H g (se_key sel s)),
        match_txo = set (fst (se_txo sel)) - hit_items H g (se_txo sel)\<rparr>,
     confirmed_match =
       \<lparr>match_key = (\<lambda>s. hit_items H g (se_key sel s)),
        match_txo = hit_items H g (se_txo sel)\<rparr>\<rparr>"

definition block_dirty :: "(view \<Rightarrow> 64 word) \<Rightarrow> gcs \<Rightarrow> selected_elements \<Rightarrow> bool" where
  "block_dirty H g sel \<longleftrightarrow> (\<exists>s. hit_items H g (se_key sel s) \<noteq> {}) \<or> hit_items H g (se_txo sel) \<noteq> {}"

lemma block_result_loaded [simp]:
  "block_result H (loaded g) = block_result H g" "block_dirty H (loaded g) = block_dirty H g"
  by (simp_all add: fun_eq_iff block_result_def block_dirty_def)

definition note_block :: "bool \<Rightarrow> block_position \<Rightarrow> 32 word \<Rightarrow> async_results \<Rightarrow> async_results" where
  "note_block dirty position elems cache =
    (let cache = (if dirty then cache\<lparr>ar_dirty := oset_put position (ar_dirty cache)\<rparr>
                  else cache\<lparr>ar_clean := oset_put position (ar_clean cache)\<rparr>)
     in cache\<lparr>ar_sizes := omap_emplace (fst position) elems (ar_sizes cache)\<rparr>)"

text \<open>One group of targets: the result it leaves, and how many matches it counts.\<close>

definition add_keys :: "(view \<Rightarrow> 64 word) \<Rightarrow> gcs \<Rightarrow> selected_elements \<Rightarrow> pattern_size \<Rightarrow> match_index \<Rightarrow> match_index" where
  "add_keys H g sel s result =
    (let no = confirmed_no_match result; yes = confirmed_match result; hits = hit_items H g (se_key sel s) in
     \<lparr>confirmed_no_match = no\<lparr>match_key := (match_key no)(s := match_key no s \<union> (set (fst (se_key sel s)) - hits))\<rparr>,
      confirmed_match = yes\<lparr>match_key := (match_key yes)(s := match_key yes s \<union> hits)\<rparr>\<rparr>)"

definition add_txos :: "(view \<Rightarrow> 64 word) \<Rightarrow> gcs \<Rightarrow> selected_elements \<Rightarrow> match_index \<Rightarrow> match_index" where
  "add_txos H g sel result =
    (let no = confirmed_no_match result; yes = confirmed_match result; hits = hit_items H g (se_txo sel) in
     \<lparr>confirmed_no_match = no\<lparr>match_txo := match_txo no \<union> (set (fst (se_txo sel)) - hits)\<rparr>,
      confirmed_match = yes\<lparr>match_txo := match_txo yes \<union> hits\<rparr>\<rparr>)"

lemma get_key_results_eq:
  assumes "gcs_inv g"
  shows "get_key_results s (full_row h target height) (snd target) (Filter g, result, (c, n)) =
      Inr (Filter (loaded g), add_keys (h (block_key (fst target))) g (snd target) s result,
        (c + length (found_items (h (block_key (fst target))) g (se_key (snd target) s)),
         n + length (fst (se_key (snd target) s))))"
  using assms by (simp add: get_key_results_def full_row_def get_items_found split_found add_keys_def Let_def)

lemma get_txo_results_eq:
  assumes "gcs_inv g"
  shows "get_txo_results (full_row h target height) (snd target) (Filter g, result, (c, n)) =
      Inr (Filter (loaded g), add_txos (h (block_key (fst target))) g (snd target) result,
        (c + length (found_items (h (block_key (fst target))) g (se_txo (snd target))),
         n + length (fst (se_txo (snd target)))))"
  using assms by (simp add: get_txo_results_def full_row_def get_items_found split_found add_txos_def Let_def)

lemma add_keys_loaded [simp]: "add_keys H (loaded g) = add_keys H g" "add_txos H (loaded g) = add_txos H g"
  by (simp_all add: fun_eq_iff add_keys_def add_txos_def)

lemma add_groups_eq:
  "add_txos H g sel (add_keys H g sel P65 (add_keys H g sel P64 (add_keys H g sel P33
    (add_keys H g sel P32 (add_keys H g sel P20 no_match_index))))) = block_result H g sel"
  by (simp add: add_keys_def add_txos_def Let_def no_match_index_def no_matches_def block_result_def fun_upds_all_sizes)

lemma loaded_idem [simp]: "loaded (loaded g) = loaded g"
  by (simp add: loaded_def filter_elements_def)

lemma ex_sizes_iff: "(\<exists>s. P s) \<longleftrightarrow> P P20 \<or> P P32 \<or> P P33 \<or> P P64 \<or> P P65"
proof -
  have "(\<exists>s. P s) \<longleftrightarrow> (\<exists>s \<in> set pattern_sizes. P s)"
    by simp
  then show ?thesis
    by (simp add: pattern_sizes_def del: set_pattern_sizes)
qed

lemma match_block_eq:
  assumes "gcs_inv g"
  shows "match_block position (Filter g) target (full_row h target height) cache no_match_index =
    Inr (Filter (loaded g),
      note_block (block_dirty (h (block_key (fst target))) g (snd target)) position (gcs_count g) cache,
      block_result (h (block_key (fst target))) g (snd target))"
proof -
  note inv = gcs_inv_loaded [OF assms]
  have "block_dirty H g sel \<longleftrightarrow> \<not> (length (found_items H g (se_key sel P20)) + length (found_items H (loaded g) (se_key sel P32)) +
      length (found_items H (loaded g) (se_key sel P33)) + length (found_items H (loaded g) (se_key sel P64)) +
      length (found_items H (loaded g) (se_key sel P65)) + length (found_items H (loaded g) (se_txo sel)) = 0)" for H sel
    unfolding block_dirty_def add_is_0 found_items_Nil [OF assms] found_items_Nil [OF inv] hit_loaded ex_sizes_iff
    by blast
  then show ?thesis
    by (simp add: match_block_def pattern_sizes_def get_key_results_eq get_txo_results_eq assms inv add_groups_eq
      note_block_def Let_def cfilter_ElementCount_def)
qed

end
