(* ===== verification/Wallet_Jobs.thy ===== *)
theory Wallet_Jobs
  imports Wallet_Match
begin

text \<open>
  The jobs of a scan: what \<open>Prepare\<close> and \<open>Match\<close> leave when every job has run, in whatever order.
\<close>

section \<open>Ordered containers are determined by their contents\<close>

lemma ordered_keys: "ordered m \<Longrightarrow> map fst m = sorted_list_of_set (dom (map_of m))"
proof -
  assume "ordered m"
  then have "sorted (map fst m)" "distinct (map fst m)"
    by (simp_all add: ordered_def strict_sorted_iff)
  then have "sorted_list_of_set (set (map fst m)) = map fst m"
    by (rule sorted_list_of_set.idem_if_sorted_distinct)
  then show ?thesis
    by (simp add: dom_map_of_conv_image_fst)
qed

lemma entries_of_keys: "distinct (map fst m) \<Longrightarrow> m = map (\<lambda>k. (k, the (map_of m k))) (map fst m)"
proof (rule nth_equalityI)
  fix i
  assume "distinct (map fst m)" "i < length m"
  then have "map_of m (fst (m ! i)) = Some (snd (m ! i))"
    by (intro map_of_is_SomeI) simp_all
  then show "m ! i = map (\<lambda>k. (k, the (map_of m k))) (map fst m) ! i"
    using \<open>i < length m\<close> by simp
qed simp

lemma ordered_map_of_inject:
  assumes "ordered m" "ordered m'" "map_of m = map_of m'"
  shows "m = m'"
proof -
  have "distinct (map fst m)" "distinct (map fst m')" "map fst m = map fst m'"
    using assms by (simp_all add: ordered_def strict_sorted_iff ordered_keys)
  then show ?thesis
    using entries_of_keys [of m] entries_of_keys [of m'] assms(3) by simp
qed

section \<open>The rows of the jobs\<close>

lemma stride_simps:
  "i < n \<Longrightarrow> 0 < step \<Longrightarrow> stride i step n = i # stride (i + step) step n"
  "\<not> (i < n \<and> 0 < step) \<Longrightarrow> stride i step n = []"
  by (simp_all add: stride.simps [of i step n])

lemma set_stride: "0 < step \<Longrightarrow> set (stride i step n) = {j. i \<le> j \<and> j < n \<and> j mod step = i mod step}"
proof (induction i step n rule: stride.induct)
  case (1 i step n)
  show ?case
  proof (cases "i < n")
    case True
    have "{j. i \<le> j \<and> j < n \<and> j mod step = i mod step} =
      insert i {j. i + step \<le> j \<and> j < n \<and> j mod step = i mod step}"
    proof -
      have "i + step \<le> j" if "i \<le> j" "j mod step = i mod step" "j \<noteq> i" for j
      proof -
        have "step dvd j - i"
          using that by (simp add: mod_eq_dvd_iff_nat)
        then show ?thesis
          using that by (auto dest!: dvd_imp_le)
      qed
      then show ?thesis
        using True by auto
    qed
    then show ?thesis
      using 1 True by (simp add: stride_simps)
  next
    case False
    then show ?thesis
      by (auto simp: stride_simps)
  qed
qed

lemma distinct_stride: "distinct (stride i step n)"
proof (induction i step n rule: stride.induct)
  case (1 i step n)
  then show ?case
    by (cases "i < n \<and> 0 < step") (auto simp: stride_simps set_stride)
qed

lemma stride_job: "job < step \<Longrightarrow> set (stride job step n) = {j. j < n \<and> j mod step = job}"
  by (auto simp: set_stride)

definition job_rows :: "nat list \<Rightarrow> nat \<Rightarrow> nat \<Rightarrow> nat list" where
  "job_rows jobs step n = concat (map (\<lambda>job. stride job step n) jobs)"

lemma set_job_rows: "\<forall>job \<in> set jobs. job < step \<Longrightarrow> set (job_rows jobs step n) = {j. j < n \<and> j mod step \<in> set jobs}"
  by (auto simp: job_rows_def stride_job)

lemma distinct_job_rows:
  assumes "distinct jobs" "\<forall>job \<in> set jobs. job < step"
  shows "distinct (job_rows jobs step n)"
  using assms
proof (induction jobs)
  case (Cons job jobs)
  then have "set (stride job step n) \<inter> set (job_rows jobs step n) = {}"
    by (auto simp: set_job_rows stride_job)
  then show ?case
    using Cons by (simp add: job_rows_def distinct_stride)
qed (simp add: job_rows_def)

section \<open>Preparing\<close>

text \<open>What a scan starts from: hash function, first height, targets, and the filters of the blocks.\<close>

record scan_input =
  si_hash :: "view \<Rightarrow> view \<Rightarrow> 64 word"
  si_start :: int
  si_targets :: "block_target list"
  si_filters :: "gcs list"

definition si_position :: "scan_input \<Rightarrow> nat \<Rightarrow> block_position" where
  "si_position si i = (si_start si + int i, fst (si_targets si ! i))"

definition si_row :: "scan_input \<Rightarrow> nat \<Rightarrow> block_data" where
  "si_row si i = full_row (si_hash si) (si_targets si ! i) (si_start si + int i)"

definition si_ok :: "scan_input \<Rightarrow> bool" where
  "si_ok si \<longleftrightarrow> (\<forall>t \<in> set (si_targets si). even_targets (snd t) \<and> 16 \<le> length (fst t)) \<and>
     (\<forall>g \<in> set (si_filters si). gcs_inv g)"

definition prepared :: "scan_input \<Rightarrow> nat \<Rightarrow> nat set \<Rightarrow> prehash" where
  "prepared si jobs V = \<lparr>pd_job_count = jobs, pd_targets = si_targets si,
     pd_data = map (\<lambda>i. if i \<in> V then si_row si i else empty_row (si_start si + int i)) [0..<length (si_targets si)]\<rparr>"

lemma prepared_simps [simp]:
  "pd_job_count (prepared si jobs V) = jobs" "pd_targets (prepared si jobs V) = si_targets si"
  "length (pd_data (prepared si jobs V)) = length (si_targets si)"
  by (simp_all add: prepared_def)

lemma prepare_row_eq:
  assumes "si_ok si" "i < length (si_targets si)" "i \<notin> V"
  shows "prepare_row (working (si_hash si)) i (prepared si jobs V) = Inr (prepared si jobs (insert i V))"
proof -
  have "hash_block (working (si_hash si)) (si_targets si ! i) (empty_row (si_start si + int i)) = Inr (si_row si i)"
    using assms(1,2) by (simp add: si_ok_def hash_block_eq si_row_def)
  moreover have "pd_data (prepared si jobs V) ! i = empty_row (si_start si + int i)"
    using assms(2,3) by (simp add: prepared_def)
  moreover have "(pd_data (prepared si jobs V))[i := si_row si i] = pd_data (prepared si jobs (insert i V))"
    using assms(2) by (intro nth_equalityI) (auto simp: prepared_def nth_list_update)
  ultimately show ?thesis
    using assms(2) by (simp add: prepare_row_def prepared_def)
qed

lemma prepare_rows_eq:
  assumes "si_ok si" "distinct rows" "\<forall>i \<in> set rows. i < length (si_targets si) \<and> i \<notin> V"
  shows "fold_outcome (prepare_row (working (si_hash si))) rows (prepared si jobs V) =
    Inr (prepared si jobs (V \<union> set rows))"
  using assms(2,3)
proof (induction rows arbitrary: V)
  case (Cons i rows)
  then have "\<forall>x \<in> set rows. x < length (si_targets si) \<and> x \<notin> insert i V"
    by auto
  then show ?case
    using Cons by (simp add: prepare_row_eq assms(1))
qed simp

lemma prepare_jobs_eq:
  assumes "si_ok si" "distinct js" "\<forall>j \<in> set js. j < jobs" "V \<inter> set (job_rows js jobs (length (si_targets si))) = {}"
  shows "prepare_jobs (working (si_hash si)) js (prepared si jobs V) =
    Inr (prepared si jobs (V \<union> set (job_rows js jobs (length (si_targets si)))))"
  using assms(2-)
proof (induction js arbitrary: V)
  case Nil
  then show ?case
    by (simp add: prepare_jobs_def job_rows_def)
next
  case (Cons j js)
  let ?n = "length (si_targets si)"
  have rows: "set (job_rows (j # js) jobs ?n) = set (stride j jobs ?n) \<union> set (job_rows js jobs ?n)"
    by (simp add: job_rows_def)
  have "set (stride j jobs ?n) \<inter> set (job_rows js jobs ?n) = {}"
    using Cons.prems by (auto simp: set_job_rows stride_job)
  moreover have "prepare_job (working (si_hash si)) j (prepared si jobs V) = Inr (prepared si jobs (V \<union> set (stride j jobs ?n)))"
    unfolding prepare_job_def prepared_simps
    by (rule prepare_rows_eq [OF assms(1) distinct_stride])
      (use Cons.prems rows in \<open>auto simp: stride_job\<close>)
  ultimately show ?case
    using Cons.prems Cons.IH [of "V \<union> set (stride j jobs ?n)"] unfolding rows
    by (simp add: prepare_jobs_def Int_Un_distrib Un_assoc Int_commute Int_Un_distrib2)
qed

section \<open>Matching\<close>

text \<open>
  \<open>si_blocks\<close> is the number of blocks that are tested. What the jobs have noted when the blocks \<open>V\<close> are done, and
  the state of the filters and of the results.
\<close>

definition si_blocks :: "scan_input \<Rightarrow> nat" where
  "si_blocks si = min (length (si_targets si)) (length (si_filters si))"

definition si_key :: "scan_input \<Rightarrow> nat \<Rightarrow> view \<Rightarrow> 64 word" where
  "si_key si i = si_hash si (block_key (fst (si_targets si ! i)))"

definition si_dirty :: "scan_input \<Rightarrow> nat \<Rightarrow> bool" where
  "si_dirty si i = block_dirty (si_key si i) (si_filters si ! i) (snd (si_targets si ! i))"

definition si_result :: "scan_input \<Rightarrow> nat \<Rightarrow> match_index" where
  "si_result si i = block_result (si_key si i) (si_filters si ! i) (snd (si_targets si ! i))"

definition noted :: "scan_input \<Rightarrow> nat set \<Rightarrow> async_results \<Rightarrow> bool" where
  "noted si V c \<longleftrightarrow>
     sorted (ar_clean c) \<and> distinct (ar_clean c) \<and> set (ar_clean c) = si_position si ` {i \<in> V. \<not> si_dirty si i} \<and>
     sorted (ar_dirty c) \<and> distinct (ar_dirty c) \<and> set (ar_dirty c) = si_position si ` {i \<in> V. si_dirty si i} \<and>
     ordered (ar_sizes c) \<and>
     map_of (ar_sizes c) = (\<lambda>height. if height \<in> (\<lambda>i. si_start si + int i) ` V
        then Some (gcs_count (si_filters si ! nat (height - si_start si))) else None)"

definition matched :: "scan_input \<Rightarrow> nat set \<Rightarrow> matching \<Rightarrow> bool" where
  "matched si V m \<longleftrightarrow>
     mt_filters m = map (\<lambda>i. Filter (if i \<in> V then loaded (si_filters si ! i) else si_filters si ! i)) [0..<length (si_filters si)] \<and>
     mt_at_least_once m = (V \<noteq> {}) \<and>
     ordered (mt_results m) \<and>
     map_of (mt_results m) = (\<lambda>p. if p \<in> si_position si ` {..<length (si_targets si)}
        then Some (if nat (fst p - si_start si) \<in> V then si_result si (nat (fst p - si_start si)) else no_match_index) else None)"

lemma noted_unique: "noted si V c \<Longrightarrow> noted si V c' \<Longrightarrow> c = (c' :: async_results)"
  by (rule async_results.equality)
    (auto simp: noted_def intro: sorted_distinct_set_unique ordered_map_of_inject)

lemma matched_unique: "matched si V m \<Longrightarrow> matched si V m' \<Longrightarrow> mt_matched m = mt_matched m' \<Longrightarrow> m = (m' :: matching)"
  by (rule matching.equality) (auto simp: matched_def intro: ordered_map_of_inject)

lemma noted_empty: "noted si {} no_results"
  by (simp add: noted_def no_results_def fun_eq_iff)

lemma noted_insert:
  assumes "noted si V c"
  shows "noted si (insert i V) (note_block (si_dirty si i) (si_position si i) (gcs_count (si_filters si ! i)) c)"
  using assms
  by (auto simp: noted_def note_block_def Let_def map_of_omap_emplace si_position_def fun_eq_iff)

lemma omap_emplace_all:
  assumes "ordered m"
  shows "ordered (fold (\<lambda>(k, v). omap_emplace k v) xs m)"
    and "map_of (fold (\<lambda>(k, v). omap_emplace k v) xs m) = map_of (m @ xs)"
  using assms
proof (induction xs arbitrary: m)
  case (Cons x xs)
  {
    case 1
    then show ?case using Cons.IH(1) by (cases x) simp
  next
    case 2
    then have "map_of (omap_emplace (fst x) (snd x) m) = map_of (m @ [x])"
      by (cases x) (auto simp: map_of_omap_emplace fun_eq_iff map_add_def split: option.splits)
    then show ?case
      using Cons.IH(2) [of "omap_emplace (fst x) (snd x) m"] 2
      by (cases x) (simp add: map_add_def fun_eq_iff split: option.splits)
  }
qed simp_all

definition merge_results :: "async_results \<Rightarrow> async_results \<Rightarrow> async_results" where
  "merge_results cache out =
    \<lparr>ar_clean = fold oset_put (ar_clean cache) (ar_clean out),
     ar_dirty = fold oset_put (ar_dirty cache) (ar_dirty out),
     ar_sizes = fold (\<lambda>(height, size). omap_emplace height size) (ar_sizes cache) (ar_sizes out)\<rparr>"

lemma noted_merge: "noted si V out \<Longrightarrow> noted si W cache \<Longrightarrow> noted si (V \<union> W) (merge_results cache out)"
  by (auto simp: noted_def merge_results_def omap_emplace_all map_add_def fun_eq_iff split: option.splits)

lemma match_row_eq:
  assumes ok: "si_ok si" and i: "i < si_blocks si" "i \<notin> V"
    and m: "matched si V m"
  shows "\<exists>m'. match_row (prepared si jobs {..<length (si_targets si)}) i (cache, m) =
      Inr (note_block (si_dirty si i) (si_position si i) (gcs_count (si_filters si ! i)) cache, m') \<and>
    matched si (insert i V) m' \<and> mt_matched m' = mt_matched m"
proof -
  let ?pd = "prepared si jobs {..<length (si_targets si)}"
  have bounds: "i < length (si_targets si)" "i < length (si_filters si)"
    using i(1) by (simp_all add: si_blocks_def)
  have inv: "gcs_inv (si_filters si ! i)"
    using ok bounds by (simp add: si_ok_def)
  have data: "pd_data ?pd ! i = si_row si i"
    using bounds by (simp add: prepared_def)
  have pos: "(bd_height (si_row si i), fst (si_targets si ! i)) = si_position si i"
    by (simp add: si_row_def full_row_def si_position_def)
  have height: "fst (si_position si i) - si_start si = int i"
    by (simp add: si_position_def)
  have filt: "mt_filters m ! i = Filter (si_filters si ! i)" "length (mt_filters m) = length (si_filters si)"
    using m bounds i(2) by (simp_all add: matched_def)
  have known: "map_of (mt_results m) (si_position si i) = Some no_match_index"
    using m bounds i(2) by (simp add: matched_def height)
  have block: "match_block (si_position si i) (Filter (si_filters si ! i)) (si_targets si ! i) (si_row si i) cache no_match_index =
    Inr (Filter (loaded (si_filters si ! i)),
      note_block (si_dirty si i) (si_position si i) (gcs_count (si_filters si ! i)) cache, si_result si i)"
    unfolding si_row_def match_block_eq [OF inv] by (simp add: si_dirty_def si_result_def si_key_def)
  define m' where "m' = m\<lparr>mt_at_least_once := True,
    mt_filters := (mt_filters m)[i := Filter (loaded (si_filters si ! i))],
    mt_results := omap_put (si_position si i) (si_result si i) (mt_results m)\<rparr>"
  have "mt_filters m' = map (\<lambda>j. Filter (if j \<in> insert i V then loaded (si_filters si ! j) else si_filters si ! j)) [0..<length (si_filters si)]"
    using m bounds by (intro nth_equalityI) (auto simp: m'_def matched_def nth_list_update)
  moreover have "map_of (mt_results m') = (\<lambda>p. if p \<in> si_position si ` {..<length (si_targets si)}
        then Some (if nat (fst p - si_start si) \<in> insert i V then si_result si (nat (fst p - si_start si)) else no_match_index) else None)"
    using m bounds by (auto simp: m'_def matched_def fun_eq_iff si_position_def)
  ultimately have "matched si (insert i V) m'"
    using m by (simp add: matched_def) (simp add: m'_def)
  then show ?thesis
    using bounds filt known block unfolding match_row_def
    by (intro exI [of _ m']) (simp add: Let_def data pos m'_def)
qed

lemma match_rows_eq:
  assumes "si_ok si" "distinct rows" "\<forall>i \<in> set rows. i < si_blocks si \<and> i \<notin> V" "matched si V m" "noted si W cache"
  shows "\<exists>cache' m'. fold_outcome (match_row (prepared si jobs {..<length (si_targets si)})) rows (cache, m) = Inr (cache', m') \<and>
    noted si (W \<union> set rows) cache' \<and> matched si (V \<union> set rows) m' \<and> mt_matched m' = mt_matched m"
  using assms(2-)
proof (induction rows arbitrary: V W cache m)
  case (Cons i rows)
  obtain m' where m': "match_row (prepared si jobs {..<length (si_targets si)}) i (cache, m) =
      Inr (note_block (si_dirty si i) (si_position si i) (gcs_count (si_filters si ! i)) cache, m')"
    "matched si (insert i V) m'" "mt_matched m' = mt_matched m"
    using match_row_eq [OF assms(1), of i V m jobs cache] Cons.prems by auto
  have "\<forall>x \<in> set rows. x < si_blocks si \<and> x \<notin> insert i V"
    using Cons.prems by auto
  then show ?case
    using Cons.IH [OF _ _ m'(2) noted_insert [OF Cons.prems(4)]] Cons.prems(1) m' by auto
qed auto

definition done_blocks :: "scan_input \<Rightarrow> nat set \<Rightarrow> matching \<Rightarrow> bool" where
  "done_blocks si V m \<longleftrightarrow> matched si V m \<and> noted si V (mt_matched m)"

lemma done_blocks_unique: "done_blocks si V m \<Longrightarrow> done_blocks si V m' \<Longrightarrow> m = m'"
  by (auto simp: done_blocks_def intro: matched_unique noted_unique)

lemma match_job_eq:
  assumes "si_ok si" "done_blocks si V m" "V \<inter> set (stride j jobs (si_blocks si)) = {}" "j < jobs"
  shows "\<exists>m'. match_job (prepared si jobs {..<length (si_targets si)}) j m = Inr m' \<and>
    done_blocks si (V \<union> set (stride j jobs (si_blocks si))) m'"
proof -
  have m: "matched si V m"
    using assms(2) by (simp add: done_blocks_def)
  then have "length (mt_filters m) = length (si_filters si)"
    by (simp add: matched_def)
  moreover have rows: "\<forall>i \<in> set (stride j jobs (si_blocks si)). i < si_blocks si \<and> i \<notin> V"
    using assms(3,4) by (auto simp: stride_job)
  obtain cache m' where
    "fold_outcome (match_row (prepared si jobs {..<length (si_targets si)})) (stride j jobs (si_blocks si)) (no_results, m) = Inr (cache, m')"
    "noted si (set (stride j jobs (si_blocks si))) cache" "matched si (V \<union> set (stride j jobs (si_blocks si))) m'"
    "mt_matched m' = mt_matched m"
    using match_rows_eq [OF assms(1) distinct_stride rows m noted_empty, of jobs] by auto
  ultimately show ?thesis
    using noted_merge [of si V "mt_matched m" "set (stride j jobs (si_blocks si))" cache] assms(2)
    by (auto simp: match_job_def si_blocks_def done_blocks_def matched_def merge_results_def Let_def)
qed

lemma match_jobs_eq:
  assumes "si_ok si" "distinct js" "\<forall>j \<in> set js. j < jobs" "done_blocks si V m"
    "V \<inter> set (job_rows js jobs (si_blocks si)) = {}"
  shows "\<exists>m'. match_jobs (prepared si jobs {..<length (si_targets si)}) js m = Inr m' \<and>
    done_blocks si (V \<union> set (job_rows js jobs (si_blocks si))) m'"
  using assms(2-)
proof (induction js arbitrary: V m)
  case Nil
  then show ?case
    by (simp add: match_jobs_def job_rows_def)
next
  case (Cons j js)
  let ?n = "si_blocks si"
  have rows: "set (job_rows (j # js) jobs ?n) = set (stride j jobs ?n) \<union> set (job_rows js jobs ?n)"
    by (simp add: job_rows_def)
  have apart: "set (stride j jobs ?n) \<inter> set (job_rows js jobs ?n) = {}"
    using Cons.prems by (auto simp: set_job_rows stride_job)
  obtain m' where "match_job (prepared si jobs {..<length (si_targets si)}) j m = Inr m'"
    "done_blocks si (V \<union> set (stride j jobs ?n)) m'"
    using match_job_eq [OF assms(1) Cons.prems(3), of j jobs] Cons.prems rows by auto
  then show ?case
    using Cons.prems Cons.IH [of "V \<union> set (stride j jobs ?n)" m'] apart unfolding rows
    by (simp add: match_jobs_def Un_assoc Int_Un_distrib Int_Un_distrib2)
qed

end
