(* ===== verification/Wallet_Scan_Facts.thy ===== *)
theory Wallet_Scan_Facts
  imports Wallet_Jobs
begin

text \<open>
  The scan as a whole: the integer square root and the size of a batch, the selection of targets, and what the scan of a
  list of blocks returns.
\<close>

section \<open>The square root\<close>

lemma isqrt_loop_simps:
  "isqrt_loop x r 0 = r"
  "0 < i \<Longrightarrow> x \<ge> r + i \<Longrightarrow> isqrt_loop x r i = isqrt_loop (x - (r + i)) ((r + 2 * i) div 2) (i div 4)"
  "0 < i \<Longrightarrow> \<not> x \<ge> r + i \<Longrightarrow> isqrt_loop x r i = isqrt_loop x (r div 2) (i div 4)"
  by (subst isqrt_loop.simps, simp)+

text \<open>With \<open>a\<close> the root found so far, in steps of \<open>2 ^ (k + 1)\<close>.\<close>

definition next_root :: "nat \<Rightarrow> nat \<Rightarrow> nat \<Rightarrow> nat" where
  "next_root N a k = (if (a + 2 ^ k) ^ 2 \<le> N then a + 2 ^ k else a)"

lemma isqrt_loop_step:
  assumes "a ^ 2 \<le> N"
  shows "isqrt_loop (N - a ^ 2) (a * 2 ^ Suc k) (4 ^ k) =
    isqrt_loop (N - next_root N a k ^ 2) (next_root N a k * 2 ^ k) (4 ^ k div 4)"
proof -
  have four: "(4 :: nat) ^ k = 2 ^ k * 2 ^ k"
    by (simp flip: power_mult_distrib)
  have sq: "(a + 2 ^ k) ^ 2 = a ^ 2 + (a * 2 ^ Suc k + 4 ^ k)"
    by (simp add: four power2_eq_square algebra_simps)
  have half: "(a * 2 ^ Suc k + 2 * 4 ^ k) div 2 = (a + 2 ^ k) * 2 ^ k" "a * 2 ^ Suc k div 2 = a * 2 ^ k"
    by (simp_all add: four algebra_simps)
  have pos: "0 < (4 :: nat) ^ k"
    by simp
  show ?thesis
  proof (cases "(a + 2 ^ k) ^ 2 \<le> N")
    case True
    then have "N - a ^ 2 \<ge> a * 2 ^ Suc k + 4 ^ k"
      by (simp add: sq)
    then show ?thesis
      using True pos by (simp only: isqrt_loop_simps(2) half next_root_def if_True) (simp only: sq diff_diff_left)
  next
    case False
    then have "\<not> N - a ^ 2 \<ge> a * 2 ^ Suc k + 4 ^ k"
      using assms by (simp add: sq)
    from isqrt_loop_simps(3) [OF pos this] show ?thesis
      using False by (simp only: half next_root_def if_False)
  qed
qed

lemma next_root_bounds:
  assumes "a ^ 2 \<le> N" "N < (a + 2 ^ Suc k) ^ 2"
  shows "next_root N a k ^ 2 \<le> N" "N < (next_root N a k + 2 ^ k) ^ 2"
  using assms by (auto simp: next_root_def mult_2 add.assoc)

lemma isqrt_loop_root:
  assumes "a ^ 2 \<le> N" "N < (a + 2 ^ Suc k) ^ 2"
  shows "(isqrt_loop (N - a ^ 2) (a * 2 ^ Suc k) (4 ^ k)) ^ 2 \<le> N \<and>
    N < (isqrt_loop (N - a ^ 2) (a * 2 ^ Suc k) (4 ^ k) + 1) ^ 2"
  using assms
proof (induction k arbitrary: a)
  case 0
  then show ?case
    using next_root_bounds [of a N 0] by (simp only: isqrt_loop_step) (simp add: isqrt_loop_simps)
next
  case (Suc k)
  have "(4 :: nat) ^ Suc k div 4 = 4 ^ k"
    by simp
  then show ?case
    unfolding isqrt_loop_step [OF Suc.prems(1)]
    using Suc.IH [OF next_root_bounds [OF Suc.prems]] by simp
qed

lemma isqrt_i_power:
  assumes "0 < x" "x < 4 ^ Suc k"
  shows "\<exists>j. isqrt_i x (4 ^ k) = 4 ^ j \<and> x < 4 ^ Suc j"
  using assms
proof (induction k)
  case 0
  then show ?case
    by (intro exI [of _ 0]) (simp add: isqrt_i.simps [of x "Suc 0"])
next
  case (Suc k)
  show ?case
  proof (cases "4 ^ Suc k \<le> x")
    case True
    then have "isqrt_i x (4 ^ Suc k) = 4 ^ Suc k"
      by (subst isqrt_i.simps) simp
    then show ?thesis
      using Suc.prems by blast
  next
    case False
    then have "isqrt_i x (4 ^ Suc k) = isqrt_i x (4 ^ k)"
      by (subst isqrt_i.simps) simp
    then show ?thesis
      using Suc False by simp
  qed
qed

lemma isqrt_root:
  assumes "x < 2 ^ 64"
  shows "isqrt x ^ 2 \<le> x \<and> x < (isqrt x + 1) ^ 2"
proof (cases "x = 0")
  case True
  have "isqrt_i 0 i = 0" for i
    by (induction i rule: less_induct) (subst isqrt_i.simps, simp)
  then show ?thesis
    by (simp add: True isqrt_def isqrt_loop_simps)
next
  case False
  have start: "(2 :: nat) ^ 62 = 4 ^ 31" "(2 :: nat) ^ 64 = 4 ^ Suc 31"
    by simp_all
  obtain j where j: "isqrt_i x (4 ^ 31) = 4 ^ j" "x < 4 ^ Suc j"
    using isqrt_i_power [of x 31] False assms unfolding start by blast
  have "(0 + 2 ^ Suc j) ^ 2 = (4 :: nat) ^ Suc j"
    by (simp add: power2_eq_square flip: power_mult_distrib)
  then show ?thesis
    using isqrt_loop_root [of 0 x j] j unfolding isqrt_def start by simp
qed

lemma thread_count_bounds: "1 \<le> thread_count n hardware" "thread_count n hardware \<le> max hardware 2 - 1"
  by (auto simp: thread_count_def)

lemma GetBatchSize_bounds: "1 \<le> GetBatchSize cf user" "GetBatchSize cf user \<le> 10000"
  by (simp_all add: GetBatchSize_def)

lemma GetBatchSize_mono: "0 < user \<Longrightarrow> cf \<le> cf' \<Longrightarrow> user \<le> user' \<Longrightarrow> GetBatchSize cf' user' \<le> GetBatchSize cf user"
  unfolding GetBatchSize_def by (intro min.mono max.mono order_refl div_le_mono2) simp_all

lemma scan_batch_bounds: "1 \<le> scan_batch env sd" "scan_batch env sd \<le> 2000"
proof -
  have "1 \<le> scan_threads env sd"
    using thread_count_bounds(1) by (simp add: scan_threads_def)
  then have "1 * 1 \<le> GetBatchSize (elements_per_filter env sd) (max (elements_size (ec_elements (sd_elements sd))) 1) * scan_threads env sd"
    by (intro mult_le_mono GetBatchSize_bounds)
  then show "1 \<le> scan_batch env sd"
    by (simp add: scan_batch_def maximum_scan_def)
qed (simp add: scan_batch_def maximum_scan_def)

section \<open>Targets\<close>

lemma fold_targets:
  "fold (\<lambda>(i, x) out. if P i then add_target i (f i x) out else out) all out =
    (fst out @ map fst (filter (P \<circ> fst) all), snd out @ map (\<lambda>(i, x). f i x) (filter (P \<circ> fst) all))"
  by (induction all arbitrary: out) (auto simp: add_target_def)

lemma select_keys_eq:
  "select_keys known s all =
    (let sel = filter (untested known (\<lambda>m. match_key m s) \<circ> fst) all in (map fst sel, map snd sel))"
  using fold_targets [of "untested known (\<lambda>m. match_key m s)" "\<lambda>i x. x" all "([], [])"]
  by (simp add: select_keys_def case_prod_unfold Let_def)

lemma select_txos_eq:
  "select_txos known all =
    (let sel = filter (untested known match_txo) (map fst all) in (sel, map outpoint_Bytes sel))"
  using fold_targets [of "untested known match_txo" "\<lambda>i x. outpoint_Bytes i" all "([], [])"]
  by (simp add: select_txos_def case_prod_unfold filter_map comp_def Let_def)

definition block_targets :: "match_cache \<Rightarrow> wallet_elements \<Rightarrow> block_position \<Rightarrow> selected_elements" where
  "block_targets cache e p =
    \<lparr>se_key = (\<lambda>s. select_keys (cache p) s (el_key e s)), se_txo = select_txos (cache p) (el_txos e)\<rparr>"

lemma even_block_targets: "even_targets (block_targets cache e p)"
  by (simp add: even_targets_def block_targets_def select_keys_eq select_txos_eq Let_def)

lemma select_targets_fold:
  "fold (\<lambda>hash (height, targets). (height + 1, select_targets_block cache (height, hash) e targets)) hashes (height, targets) =
    (height + int (length hashes),
     targets @ map (\<lambda>i. (hashes ! i, block_targets cache e (height + int i, hashes ! i))) [0..<length hashes])"
proof (induction hashes arbitrary: height targets)
  case (Cons hash hashes)
  have "[0..<length (hash # hashes)] = 0 # map Suc [0..<length hashes]"
    by (simp add: map_Suc_upt upt_conv_Cons del: upt_Suc)
  then show ?case
    using Cons by (simp add: select_targets_block_def MatchCache_GetMatches_def block_targets_def add.assoc comp_def Let_def del: upt_Suc)
qed simp

lemma select_targets_eq:
  "select_targets cache hashes e height =
    map (\<lambda>i. (hashes ! i, block_targets cache e (height + int i, hashes ! i))) [0..<length hashes]"
  by (simp add: select_targets_def select_targets_fold)

lemma length_select_targets [simp]: "length (select_targets cache hashes e height) = length hashes"
  by (simp add: select_targets_eq)

section \<open>Prehashed data\<close>

lemma omap_emplace_snoc:
  "\<forall>k' \<in> set (map fst m). k' < k \<Longrightarrow> omap_emplace k v m = m @ [(k, v)]"
  by (simp add: omap_emplace_last)

lemma PrehashData_fold:
  assumes "\<forall>p \<in> set (map fst results). fst p < start"
  shows "fold (\<lambda>(block, elements) (start, data, results).
       (start + 1, data @ [empty_row start], omap_emplace (start, block) no_match_index results))
       targets (start, data, results) =
    (start + int (length targets), data @ map (\<lambda>i. empty_row (start + int i)) [0..<length targets],
     results @ map (\<lambda>i. ((start + int i, fst (targets ! i)), no_match_index)) [0..<length targets])"
  using assms
proof (induction targets arbitrary: start data results)
  case (Cons t targets)
  have upt: "[0..<length (t # targets)] = 0 # map Suc [0..<length targets]"
    by (simp add: map_Suc_upt upt_conv_Cons del: upt_Suc)
  have "omap_emplace (start, fst t) no_match_index results = results @ [((start, fst t), no_match_index)]"
    using Cons.prems by (intro omap_emplace_snoc) (auto simp: less_prod_def)
  moreover have "\<forall>p \<in> set (map fst (results @ [((start, fst t), no_match_index)])). fst p < start + 1"
    using Cons.prems by force
  ultimately show ?case
    unfolding upt using Cons.IH
    by (simp add: split_beta add.assoc comp_def del: upt_Suc)
qed simp

definition si_results :: "scan_input \<Rightarrow> match_results" where
  "si_results si = map (\<lambda>i. (si_position si i, no_match_index)) [0..<length (si_targets si)]"

lemma PrehashData_eq:
  assumes "0 < jobs"
  shows "PrehashData (si_targets si) [] (si_start si) jobs = Inr (prepared si jobs {}, si_results si)"
  using assms PrehashData_fold [of "[]" "si_start si" "si_targets si" "[]"]
  by (simp add: PrehashData_def Let_def prepared_def si_results_def si_position_def empty_row_def)

lemma matched_start:
  "matched si {} \<lparr>mt_filters = map Filter (si_filters si), mt_at_least_once = False, mt_results = si_results si, mt_matched = c\<rparr>"
proof -
  have "ordered (si_results si)"
    by (auto simp: ordered_def si_results_def sorted_wrt_iff_nth_less si_position_def less_prod_def)
  moreover have "map_of (si_results si) = (\<lambda>p. if p \<in> si_position si ` {..<length (si_targets si)} then Some no_match_index else None)"
  proof -
    have "si_results si = map (\<lambda>p. (p, no_match_index)) (map (si_position si) [0..<length (si_targets si)])"
      by (simp add: si_results_def)
    then show ?thesis
      by (simp only: map_of_map_restrict) (auto simp: restrict_map_def fun_eq_iff)
  qed
  moreover have "map Filter (si_filters si) = map (\<lambda>i. Filter (si_filters si ! i)) [0..<length (si_filters si)]"
    by (rule nth_equalityI) simp_all
  ultimately show ?thesis
    by (simp add: matched_def cong: if_cong)
qed

section \<open>The scan of a list of blocks\<close>

definition scan_of ::
  "(view \<Rightarrow> view \<Rightarrow> 64 word) \<Rightarrow> subchain_data \<Rightarrow> int \<Rightarrow> view list \<Rightarrow> gcs list \<Rightarrow> scan_input" where
  "scan_of h sd start blocks gs =
    \<lparr>si_hash = h, si_start = start,
     si_targets = select_targets (sd_matches sd) blocks (ec_elements (sd_elements sd)) start, si_filters = gs\<rparr>"

lemma scan_of_simps [simp]:
  "si_hash (scan_of h sd start blocks gs) = h" "si_start (scan_of h sd start blocks gs) = start"
  "si_filters (scan_of h sd start blocks gs) = gs"
  "si_targets (scan_of h sd start blocks gs) = select_targets (sd_matches sd) blocks (ec_elements (sd_elements sd)) start"
  "length (si_targets (scan_of h sd start blocks gs)) = length blocks"
  by (simp_all add: scan_of_def select_targets_eq)

lemma si_ok_scan_of:
  assumes "\<forall>b \<in> set blocks. 16 \<le> length b" "\<forall>g \<in> set gs. gcs_inv g"
  shows "si_ok (scan_of h sd start blocks gs)"
  using assms by (auto simp: si_ok_def select_targets_eq even_block_targets)

text \<open>The positions that a scan of these blocks finds clean or dirty, in ascending order.\<close>

definition positions_of :: "scan_input \<Rightarrow> (nat \<Rightarrow> bool) \<Rightarrow> block_position list" where
  "positions_of si P = map (si_position si) (filter P [0..<si_blocks si])"

definition final_results :: "scan_input \<Rightarrow> async_results" where
  "final_results si =
    \<lparr>ar_clean = positions_of si (\<lambda>i. \<not> si_dirty si i), ar_dirty = positions_of si (si_dirty si),
     ar_sizes = map (\<lambda>i. (si_start si + int i, gcs_count (si_filters si ! i))) [0..<si_blocks si]\<rparr>"

lemma si_position_less [simp]: "si_position si i < si_position si j \<longleftrightarrow> i < j"
  by (cases i j rule: linorder_cases) (auto simp: si_position_def less_prod_def)

lemma si_position_eq [simp]: "si_position si i = si_position si j \<longleftrightarrow> i = j"
  by (metis si_position_less less_irrefl linorder_neq_iff)

lemma strict_positions: "sorted_wrt (<) (positions_of si P)"
  by (simp add: positions_of_def sorted_wrt_map sorted_wrt_filter)

lemma noted_final: "noted si {..<si_blocks si} (final_results si)"
proof -
  have "ordered (ar_sizes (final_results si))"
    by (simp add: final_results_def ordered_def sorted_wrt_map)
  moreover have "map_of (ar_sizes (final_results si)) = (\<lambda>height. if height \<in> (\<lambda>i. si_start si + int i) ` {..<si_blocks si}
        then Some (gcs_count (si_filters si ! nat (height - si_start si))) else None)"
  proof -
    have "ar_sizes (final_results si) = map (\<lambda>height. (height, gcs_count (si_filters si ! nat (height - si_start si))))
        (map (\<lambda>i. si_start si + int i) [0..<si_blocks si])"
      by (simp add: final_results_def)
    then show ?thesis
      by (simp only: map_of_map_restrict) (auto simp: restrict_map_def fun_eq_iff)
  qed
  ultimately show ?thesis
    using strict_positions by (auto simp: noted_def final_results_def strict_sorted_iff positions_of_def)
qed

lemma all_job_rows: "0 < jobs \<Longrightarrow> set (job_rows [0..<jobs] jobs n) = {..<n}"
  by (auto simp: set_job_rows)

lemma scan_blocks_eq:
  assumes hmac: "sn_hmac env = working h" and blocks: "blocks \<noteq> []" "\<forall>b \<in> set blocks. 16 \<le> length b"
    and filters: "takeWhile cfilter_IsValid (sn_load_filters env blocks) = map Filter gs" "\<forall>g \<in> set gs. gcs_inv g"
      "length gs \<le> length blocks"
    and si: "si = scan_of h sd start blocks gs"
  shows "\<exists>results. ordered results \<and>
     map_of results = (\<lambda>p. if p \<in> si_position si ` {..<length blocks}
        then Some (if nat (fst p - start) < length gs then si_result si (nat (fst p - start)) else no_match_index) else None) \<and>
     scan_blocks env rescan start blocks tested out sd =
      (let r = final_results si;
           sd' = (if ar_dirty r = [] then sd else sd\<lparr>sd_requested := sd_requested sd @ [map snd (ar_dirty r)]\<rparr>)
       in bind_outcome (if rescan then Inr sd' else update_average r sd') (\<lambda>sd'.
          Inr \<lparr>sc_highest_clean = fst (highest_clean r tested), sc_highest_tested = snd (highest_clean r tested),
               sc_at_least_once = (gs \<noteq> []), sc_results = results, sc_out = out @ map (Pair ScanDirty) (ar_dirty r),
               sc_data = sd'\<rparr>))"
proof -
  define jobs where "jobs = min (scan_threads env sd) (length blocks)"
  have jobs: "0 < jobs"
    using blocks thread_count_bounds(1) [of "max (elements_size (ec_elements (sd_elements sd))) 1" "sn_max_jobs env"]
    by (simp add: jobs_def scan_threads_def)
  have ok: "si_ok si"
    using si_ok_scan_of [OF blocks(2) filters(2)] by (simp add: si)
  have start: "si_start si = start"
    by (simp add: si)
  have n: "si_blocks si = length gs" "length (si_targets si) = length blocks"
    using filters(3) by (simp_all add: si si_blocks_def)
  have prehash: "PrehashData (si_targets si) [] start jobs = Inr (prepared si jobs {}, si_results si)"
    using PrehashData_eq [OF jobs, of si] by (simp add: si)
  have prepare: "Prepare (working h) (prepared si jobs {}) = Inr (prepared si jobs {..<length (si_targets si)})"
    using prepare_jobs_eq [OF ok, of "[0..<jobs]" jobs "{}"] jobs
    by (simp add: Prepare_def all_job_rows si)
  have "done_blocks si {} \<lparr>mt_filters = map Filter gs, mt_at_least_once = False, mt_results = si_results si, mt_matched = no_results\<rparr>"
    using matched_start [of si] noted_empty [of si] by (simp add: done_blocks_def si)
  then obtain m where m: "Match_all (prepared si jobs {..<length (si_targets si)})
      \<lparr>mt_filters = map Filter gs, mt_at_least_once = False, mt_results = si_results si, mt_matched = no_results\<rparr> = Inr m"
    "done_blocks si {..<length gs} m"
    using match_jobs_eq [OF ok, of "[0..<jobs]" jobs "{}"] jobs n by (fastforce simp: Match_all_def all_job_rows)
  have "mt_matched m = final_results si"
    using m(2) noted_final [of si] n by (auto simp: done_blocks_def intro: noted_unique)
  moreover have "mt_at_least_once m = (gs \<noteq> [])"
    using m(2) by (auto simp: done_blocks_def matched_def)
  moreover have "select_targets (sd_matches sd) blocks (ec_elements (sd_elements sd)) start = si_targets si"
    by (simp add: si)
  moreover have "si_targets si \<noteq> []"
    using blocks n by auto
  ultimately have "scan_blocks env rescan start blocks tested out sd =
      (let r = final_results si;
           sd' = (if ar_dirty r = [] then sd else sd\<lparr>sd_requested := sd_requested sd @ [map snd (ar_dirty r)]\<rparr>)
       in bind_outcome (if rescan then Inr sd' else update_average r sd') (\<lambda>sd'.
          Inr \<lparr>sc_highest_clean = fst (highest_clean r tested), sc_highest_tested = snd (highest_clean r tested),
               sc_at_least_once = (gs \<noteq> []), sc_results = mt_results m, sc_out = out @ map (Pair ScanDirty) (ar_dirty r),
               sc_data = sd'\<rparr>))"
    using prehash prepare m(1) filters n
    by (simp add: scan_blocks_def hmac Let_def jobs_def [symmetric] split_beta)
  then show ?thesis
    using m(2) n start by (intro exI [of _ "mt_results m"]) (simp add: done_blocks_def matched_def cong: if_cong)
qed

end
