(* ===== verification/Wallet_Scan_Results.thy ===== *)
theory Wallet_Scan_Results
  imports Wallet_Scan_Facts Filter_Properties
begin

text \<open>
  The results of a scan for blocks whose filters the filter oracle has stored: the highest clean position, the
  new contents of the match cache, and what the scan returns.
\<close>

section \<open>The highest clean position\<close>

text \<open>The number of blocks before the first dirty one.\<close>

definition clean_prefix :: "scan_input \<Rightarrow> nat" where
  "clean_prefix si = length (takeWhile (\<lambda>i. \<not> si_dirty si i) [0..<si_blocks si])"

lemma clean_prefix_le: "clean_prefix si \<le> si_blocks si"
  unfolding clean_prefix_def by (metis length_takeWhile_le length_upt diff_zero)

lemma clean_prefix_clean:
  assumes "i < clean_prefix si"
  shows "\<not> si_dirty si i"
proof -
  have "takeWhile (\<lambda>i. \<not> si_dirty si i) [0..<si_blocks si] ! i = i"
    using assms clean_prefix_le [of si] by (simp add: takeWhile_nth clean_prefix_def)
  then show ?thesis
    using assms unfolding clean_prefix_def by (metis nth_mem set_takeWhileD)
qed

lemma clean_prefix_dirty:
  assumes "clean_prefix si < si_blocks si"
  shows "si_dirty si (clean_prefix si)"
proof -
  have "\<not> \<not> si_dirty si ([0..<si_blocks si] ! clean_prefix si)"
    unfolding clean_prefix_def by (rule nth_length_takeWhile) (use assms in \<open>simp add: clean_prefix_def\<close>)
  then show ?thesis
    using assms by simp
qed

lemma last_positions:
  assumes "0 < si_blocks si" "P (si_blocks si - 1)"
  shows "positions_of si P \<noteq> []" "last (positions_of si P) = si_position si (si_blocks si - 1)"
proof -
  have "[0..<si_blocks si] = [0..<si_blocks si - 1] @ [si_blocks si - 1]"
    using assms(1) by (metis Suc_pred' upt_Suc_append zero_le)
  then show "positions_of si P \<noteq> []" "last (positions_of si P) = si_position si (si_blocks si - 1)"
    using assms(2) by (simp_all add: positions_of_def)
qed

lemma last_position_le:
  assumes "positions_of si P \<noteq> []"
  shows "last (positions_of si P) \<le> si_position si (si_blocks si - 1)"
proof -
  have "last (positions_of si P) \<in> set (positions_of si P)"
    using assms by simp
  then obtain i where "i < si_blocks si" "last (positions_of si P) = si_position si i"
    by (auto simp: positions_of_def)
  then show ?thesis
    by (simp flip: not_less)
qed

lemma highest_clean_eq:
  "highest_clean (final_results si) tested =
    (if clean_prefix si = 0 then None else Some (si_position si (clean_prefix si - 1)),
     if si_blocks si = 0 then tested else si_position si (si_blocks si - 1))"
proof (cases "clean_prefix si < si_blocks si")
  case False
  then have all: "\<not> si_dirty si i" if "i < si_blocks si" for i
    using clean_prefix_clean [of i si] that by simp
  then have "ar_dirty (final_results si) = []"
    by (simp add: final_results_def positions_of_def filter_empty_conv)
  moreover have "clean_prefix si = si_blocks si"
    using False clean_prefix_le [of si] by simp
  moreover have "si_blocks si = 0 \<Longrightarrow> ar_clean (final_results si) = []"
    by (simp add: final_results_def positions_of_def)
  ultimately show ?thesis
    using last_positions [of si "\<lambda>i. \<not> si_dirty si i"] all
    by (auto simp: highest_clean_def final_results_def Let_def)
next
  case True
  let ?d = "clean_prefix si" and ?n = "si_blocks si"
  let ?clean = "positions_of si (\<lambda>i. \<not> si_dirty si i)" and ?dirty = "positions_of si (si_dirty si)"
  have upt: "[0..<?n] = [0..<?d] @ ?d # [Suc ?d..<?n]"
    using True upt_add_eq_append [of 0 ?d "?n - ?d"] by (simp add: upt_conv_Cons)
  have prefix: "filter (\<lambda>i. \<not> si_dirty si i) [0..<?d] = [0..<?d]" "filter (si_dirty si) [0..<?d] = []"
    using clean_prefix_clean [of _ si] by (simp_all add: filter_empty_conv filter_True)
  have dirty: "?dirty = si_position si ?d # map (si_position si) (filter (si_dirty si) [Suc ?d..<?n])"
    using clean_prefix_dirty [OF True] by (simp add: positions_of_def upt prefix)
  have clean: "?clean = map (si_position si) [0..<?d] @ map (si_position si) (filter (\<lambda>i. \<not> si_dirty si i) [Suc ?d..<?n])"
    using clean_prefix_dirty [OF True] by (simp add: positions_of_def upt prefix)
  have below: "takeWhile (\<lambda>p. p \<le> si_position si ?d) ?clean = map (si_position si) [0..<?d]"
  proof -
    define rest where "rest = map (si_position si) (filter (\<lambda>i. \<not> si_dirty si i) [Suc ?d..<?n])"
    have "\<forall>p \<in> set rest. \<not> p \<le> si_position si ?d"
      by (auto simp: rest_def not_le)
    then have "takeWhile (\<lambda>p. p \<le> si_position si ?d) rest = []"
      by (metis hd_in_set takeWhile_eq_Nil_iff)
    then show ?thesis
      unfolding clean rest_def [symmetric] by (subst takeWhile_append2) (auto simp flip: not_less)
  qed
  have tested: "max (last ?clean) (last ?dirty) = si_position si (?n - 1)" if "?clean \<noteq> []"
  proof (cases "si_dirty si (?n - 1)")
    case True
    then show ?thesis
      using last_position_le [OF that] last_positions [of si "si_dirty si"] \<open>?d < ?n\<close> by (simp add: max_absorb2)
  next
    case False
    moreover have "?dirty \<noteq> []"
      by (simp add: dirty)
    ultimately show ?thesis
      using last_position_le [of si "si_dirty si"] last_positions [of si "\<lambda>i. \<not> si_dirty si i"] \<open>?d < ?n\<close>
      by (simp add: max_absorb1)
  qed
  have "last ?dirty = si_position si (?n - 1)" if "?clean = []"
  proof -
    have "si_dirty si (?n - 1)"
      using that \<open>?d < ?n\<close> by (auto simp: positions_of_def filter_empty_conv)
    then show ?thesis
      using last_positions [of si "si_dirty si"] \<open>?d < ?n\<close> by simp
  qed
  moreover have "?clean = [] \<Longrightarrow> ?d = 0"
    by (simp add: clean)
  moreover have "last (map (si_position si) [0..<?d]) = si_position si (?d - 1)" if "?d \<noteq> 0"
    using that by (simp add: last_map)
  ultimately show ?thesis
    using below tested dirty True
    by (auto simp: highest_clean_def final_results_def Let_def)
qed

section \<open>The match cache\<close>

lemma MatchCache_Add_eq:
  assumes "ordered results"
  shows "MatchCache_Add results c p = (case map_of results p of
     None \<Rightarrow> c p
   | Some index \<Rightarrow> Some (MatchIndex_Merge (case c p of None \<Rightarrow> no_match_index | Some i \<Rightarrow> i) index))"
  using assms
proof (induction results arbitrary: c)
  case (Cons x results)
  obtain k v where x: "x = (k, v)"
    by (cases x)
  have "map_of results k = None"
    using Cons.prems by (auto simp: x map_of_eq_None_iff)
  then show ?case
    using Cons by (auto simp: MatchCache_Add_def x split: option.split)
qed (simp add: MatchCache_Add_def)

section \<open>Stored filters\<close>

text \<open>
  The filter oracle keeps the filters of blocks in serialized form
  (\<open>src/blockchain/database/common/BlockFilter.cpp\<close>) and reads them back for a scan. \<open>contents\<close> gives the elements of
  a block, \<open>available\<close> tells which blocks have a filter.
\<close>

definition stored_filter ::
  "(view \<Rightarrow> view \<Rightarrow> 64 word) \<Rightarrow> cfilter_type \<Rightarrow> (view \<Rightarrow> view list) \<Rightarrow> view \<Rightarrow> cfilter" where
  "stored_filter h t contents b =
    (case GCS_from_block (working h) t b (contents b) of
       Inr (Filter f) \<Rightarrow> GCS_from_bytes (GCS_Serialize f)
     | _ \<Rightarrow> BlankFilter)"

definition serves ::
  "scan_env \<Rightarrow> (view \<Rightarrow> view \<Rightarrow> 64 word) \<Rightarrow> cfilter_type \<Rightarrow> (view \<Rightarrow> view list) \<Rightarrow> (view \<Rightarrow> bool) \<Rightarrow> bool" where
  "serves env h t contents available \<longleftrightarrow> sn_hmac env = working h \<and> t \<noteq> Basic_BIP158 \<and> t \<noteq> UnknownCfilter \<and>
     (\<forall>hs. sn_load_filters env hs = map (\<lambda>b. if available b then stored_filter h t contents b else BlankFilter) hs)"

definition sane_block :: "(view \<Rightarrow> view list) \<Rightarrow> view \<Rightarrow> bool" where
  "sane_block contents b \<longleftrightarrow> 16 \<le> length b \<and> length (contents b) < 2 ^ 32"

text \<open>The hash of a target in the range of the filter of a block.\<close>

definition target_hash ::
  "(view \<Rightarrow> view \<Rightarrow> 64 word) \<Rightarrow> cfilter_type \<Rightarrow> (view \<Rightarrow> view list) \<Rightarrow> view \<Rightarrow> view \<Rightarrow> 64 word" where
  "target_hash h t contents b v =
    HashToRange (filter_range (of_nat (length (contents b)))
      (case GetFilterParams t of None \<Rightarrow> 0 | Some (P, rate) \<Rightarrow> rate)) (h (block_key b) v)"

lemma GCS_from_bytes_forgotten:
  assumes "gcs_version f = 1" "length (gcs_key f) = 16"
  shows "GCS_from_bytes (GCS_Serialize f) = Filter (forgotten f)"
proof -
  have "ucast (ucast (gcs_bits f) :: 32 word) = gcs_bits f"
    by (rule bit_word_eqI) (auto simp: bit_simps dest: bit_imp_le_length)
  then show ?thesis
    using GCS_from_parts_forgotten [of f] assms
    by (simp add: GCS_from_bytes_def check_GCS_def GCS_Serialize_def GCS_from_proto_def)
qed

text \<open>The set of hashes a stored filter keeps: a hash of 0 is lost beside others.\<close>

definition kept_hash ::
  "(view \<Rightarrow> view \<Rightarrow> 64 word) \<Rightarrow> cfilter_type \<Rightarrow> (view \<Rightarrow> view list) \<Rightarrow> view \<Rightarrow> view \<Rightarrow> bool" where
  "kept_hash h t contents b v \<longleftrightarrow>
     (\<exists>e \<in> set (contents b). target_hash h t contents b e = target_hash h t contents b v) \<and>
     (target_hash h t contents b v \<noteq> 0 \<or> (\<forall>e \<in> set (contents b). target_hash h t contents b e = 0))"

lemma stored_filter_eq:
  assumes "t \<noteq> Basic_BIP158" "t \<noteq> UnknownCfilter" "sane_block contents b"
  obtains g where "stored_filter h t contents b = Filter g" "gcs_inv g"
    "\<And>v. hit (h (block_key b)) g v \<longleftrightarrow> kept_hash h t contents b v"
proof -
  obtain P rate where params: "GetFilterParams t = Some (P, rate)" "unat P < 32"
    using assms(1,2) by (cases t) (simp_all add: GetFilterParams_def)
  have key: "BlockHashToFilterKey b = Some (block_key b)" "length (block_key b) = 16"
    using assms(3) by (simp_all add: sane_block_def BlockHashToFilterKey_eq length_block_key)
  have len: "length (contents b) < 2 ^ 32"
    using assms(3) by (simp add: sane_block_def)
  show ?thesis
  proof (rule build_filter_working [OF params(2) key(2) len, where h = h and rate = rate], goal_cases)
    case (1 f)
    have version: "gcs_version f = 1"
      using 1(1) by (elim build_filter_facts) simp
    have "stored_filter h t contents b = Filter (forgotten f)"
      using 1(1,4) key version assms(1)
      by (simp add: stored_filter_def GCS_from_block_def params(1) GCS_from_bytes_forgotten)
    moreover have "target_hash h t contents b v = filter_hash h f v" for v
    proof -
      have "of_nat (length (contents b)) = gcs_count f"
        by (simp flip: 1(7))
      then show ?thesis
        by (simp add: target_hash_def filter_hash_def GCS_Range_def params(1) 1)
    qed
    moreover have "set (filter_elements (forgotten f)) = {x \<in> set (filter_elements f). x \<noteq> 0 \<or> set (filter_elements f) = {0}}"
      using 1 by (intro forgotten_elements) simp_all
    moreover have "set (filter_elements f) = filter_hash h f ` set (contents b)"
      by (subst 1(8)) simp
    moreover have "HashToRange (GCS_Range (forgotten f)) (h (block_key b) v) = filter_hash h f v" for v
      using 1(4) by (simp add: filter_hash_def GCS_Range_def forgotten_def)
    ultimately show ?case
      using 1(2) by (intro that [of "forgotten f"]) (auto simp: gcs_inv_forgotten hit_def kept_hash_def, metis imageI)
  qed
qed

section \<open>The scan\<close>

definition scan_hashes :: "scan_env \<Rightarrow> block_position \<Rightarrow> int \<Rightarrow> block_position \<Rightarrow> subchain_data \<Rightarrow> view list" where
  "scan_hashes env best stop tested sd =
    (let start = fst tested + 1; stopHeight = stop_height env sd start best stop in
     if start > stopHeight then [] else sn_best_hashes env start (nat (stopHeight - start + 1)))"

definition tested_filters :: "scan_env \<Rightarrow> view list \<Rightarrow> gcs list" where
  "tested_filters env hashes =
    map (\<lambda>f. case f of Filter g \<Rightarrow> g) (takeWhile cfilter_IsValid (sn_load_filters env hashes))"

text \<open>The input of the scan of the blocks with these hashes.\<close>

definition scan_at ::
  "scan_env \<Rightarrow> (view \<Rightarrow> view \<Rightarrow> 64 word) \<Rightarrow> block_position \<Rightarrow> view list \<Rightarrow> subchain_data \<Rightarrow> scan_input" where
  "scan_at env h tested hashes sd = scan_of h sd (fst tested + 1) hashes (tested_filters env hashes)"

lemma loaded_filters:
  assumes "serves env h t contents available" "\<forall>b \<in> set hashes. sane_block contents b"
  shows "takeWhile cfilter_IsValid (sn_load_filters env hashes) = map Filter (tested_filters env hashes)"
    and "length (tested_filters env hashes) = length (takeWhile available hashes)"
    and "i < length (tested_filters env hashes) \<Longrightarrow> gcs_inv (tested_filters env hashes ! i) \<and>
      (\<forall>v. hit (h (block_key (hashes ! i))) (tested_filters env hashes ! i) v \<longleftrightarrow> kept_hash h t contents (hashes ! i) v)"
proof -
  let ?F = "\<lambda>b. if available b then stored_filter h t contents b else BlankFilter"
  have stored: "\<exists>g. stored_filter h t contents b = Filter g \<and> gcs_inv g \<and>
      (\<forall>v. hit (h (block_key b)) g v \<longleftrightarrow> kept_hash h t contents b v)" if "b \<in> set hashes" for b
  proof -
    have "t \<noteq> Basic_BIP158" "t \<noteq> UnknownCfilter" "sane_block contents b"
      using assms that by (simp_all add: serves_def)
    then show ?thesis
      by (rule stored_filter_eq [where h = h]) blast
  qed
  have "takeWhile (\<lambda>b. cfilter_IsValid (?F b)) hashes = takeWhile available hashes"
    by (intro takeWhile_cong refl) (auto simp: cfilter_IsValid_def dest!: stored)
  then have valid: "takeWhile cfilter_IsValid (sn_load_filters env hashes) = map ?F (takeWhile available hashes)"
    using assms(1) by (simp add: serves_def takeWhile_map comp_def)
  have filt: "\<exists>g. ?F b = Filter g \<and> gcs_inv g \<and> (\<forall>v. hit (h (block_key b)) g v \<longleftrightarrow> kept_hash h t contents b v)"
    if "b \<in> set (takeWhile available hashes)" for b
    using set_takeWhileD [OF that] stored [of b] by simp
  show "takeWhile cfilter_IsValid (sn_load_filters env hashes) = map Filter (tested_filters env hashes)"
    unfolding tested_filters_def valid map_map comp_def by (rule map_cong [OF refl]) (drule filt, auto split: if_splits)
  show len: "length (tested_filters env hashes) = length (takeWhile available hashes)"
    by (simp add: tested_filters_def valid)
  assume i: "i < length (tested_filters env hashes)"
  then have "takeWhile available hashes ! i = hashes ! i"
    by (simp add: len takeWhile_nth)
  then have "hashes ! i \<in> set (takeWhile available hashes)"
    using i len by (metis nth_mem)
  then obtain g where g: "?F (hashes ! i) = Filter g" "gcs_inv g"
    "\<forall>v. hit (h (block_key (hashes ! i))) g v \<longleftrightarrow> kept_hash h t contents (hashes ! i) v"
    using filt by blast
  have "tested_filters env hashes ! i = g"
    using i g(1) \<open>takeWhile available hashes ! i = hashes ! i\<close> len by (simp add: tested_filters_def valid)
  then show "gcs_inv (tested_filters env hashes ! i) \<and>
      (\<forall>v. hit (h (block_key (hashes ! i))) (tested_filters env hashes ! i) v \<longleftrightarrow> kept_hash h t contents (hashes ! i) v)"
    using g by simp
qed

text \<open>
  The state after a scan of which \<open>si\<close> is the input: the block oracle is asked for the dirty blocks, the match cache has
  the results, and, unless it is a rescan, the average of the filter sizes is updated.
\<close>

definition after_request :: "scan_input \<Rightarrow> subchain_data \<Rightarrow> subchain_data" where
  "after_request si sd =
    (if ar_dirty (final_results si) = [] then sd
     else sd\<lparr>sd_requested := sd_requested sd @ [map snd (ar_dirty (final_results si))]\<rparr>)"

definition merged_matches :: "scan_input \<Rightarrow> match_cache \<Rightarrow> match_cache" where
  "merged_matches si cache = (\<lambda>p.
    if si_blocks si = 0 \<or> p \<notin> si_position si ` {..<length (si_targets si)} then cache p
    else let i = nat (fst p - si_start si) in
      Some (MatchIndex_Merge (case cache p of None \<Rightarrow> no_match_index | Some m \<Rightarrow> m)
        (if i < si_blocks si then si_result si i else no_match_index)))"

lemma scan_range_assertions [simp]: "0 < elements_per_filter env sd" "0 < scan_threads env sd"
  using thread_count_bounds(1) [of "max (elements_size (ec_elements (sd_elements sd))) 1" "sn_max_jobs env"]
  by (auto simp: elements_per_filter_def scan_threads_def)

lemma scan_nothing: "scan_hashes env best stop tested sd = [] \<Longrightarrow> scan env rescan best stop tested out sd = Inr (None, tested, out, sd)"
  by (auto simp: scan_def scan_range_def scan_hashes_def Let_def split: if_splits)

lemma scan_eq:
  assumes serves: "serves env h t contents available"
    and hashes: "hashes = scan_hashes env best stop tested sd" "hashes \<noteq> []" "\<forall>b \<in> set hashes. sane_block contents b"
    and si: "si = scan_at env h tested hashes sd"
  shows "si_blocks si = length (takeWhile available hashes)"
    and "scan env rescan best stop tested out sd =
      bind_outcome (if rescan then Inr (after_request si sd) else update_average (final_results si) (after_request si sd)) (\<lambda>sd'.
        Inr (if clean_prefix si = 0 then None else Some (si_position si (clean_prefix si - 1)),
             if si_blocks si = 0 then tested else si_position si (si_blocks si - 1),
             out @ map (Pair ScanDirty) (positions_of si (si_dirty si)),
             sd'\<lparr>sd_matches := merged_matches si (sd_matches sd)\<rparr>))"
proof -
  let ?gs = "tested_filters env hashes"
  note filters = loaded_filters [OF serves hashes(3)]
  have len: "length ?gs \<le> length hashes"
    unfolding filters(2) by (rule length_takeWhile_le)
  have si': "si = scan_of h sd (fst tested + 1) hashes ?gs"
    by (simp add: si scan_at_def)
  have n: "si_blocks si = length ?gs" "length (si_targets si) = length hashes" "si_start si = fst tested + 1"
    using len by (simp_all add: si' si_blocks_def)
  show "si_blocks si = length (takeWhile available hashes)"
    by (simp add: n filters(2))
  have long: "\<forall>b \<in> set hashes. 16 \<le> length b"
    using hashes(3) by (simp add: sane_block_def)
  have inv: "\<forall>g \<in> set ?gs. gcs_inv g"
    using filters(3) by (auto simp: in_set_conv_nth)
  have hmac: "sn_hmac env = working h"
    using serves by (simp add: serves_def)
  obtain results where results: "ordered results"
    "map_of results = (\<lambda>p. if p \<in> si_position si ` {..<length hashes}
        then Some (if nat (fst p - (fst tested + 1)) < length ?gs then si_result si (nat (fst p - (fst tested + 1))) else no_match_index) else None)"
    and eq: "scan_blocks env rescan (fst tested + 1) hashes tested out sd =
      (let r = final_results si;
           sd' = (if ar_dirty r = [] then sd else sd\<lparr>sd_requested := sd_requested sd @ [map snd (ar_dirty r)]\<rparr>)
       in bind_outcome (if rescan then Inr sd' else update_average r sd') (\<lambda>sd'.
          Inr \<lparr>sc_highest_clean = fst (highest_clean r tested), sc_highest_tested = snd (highest_clean r tested),
               sc_at_least_once = (?gs \<noteq> []), sc_results = results, sc_out = out @ map (Pair ScanDirty) (ar_dirty r),
               sc_data = sd'\<rparr>))"
    using scan_blocks_eq [OF hmac hashes(2) long filters(1) inv len si', of rescan tested out] by blast
  have cache: "(if ?gs \<noteq> [] \<and> results \<noteq> [] then MatchCache_Add results cache else cache) = merged_matches si cache" for cache
  proof
    fix p
    have "map_of results (si_position si 0) \<noteq> None"
      using hashes(2) by (simp add: results(2))
    then have "results \<noteq> []"
      by auto
    then show "(if ?gs \<noteq> [] \<and> results \<noteq> [] then MatchCache_Add results cache else cache) p = merged_matches si cache p"
      using n by (simp add: MatchCache_Add_eq [OF results(1)] results(2) merged_matches_def Let_def)
  qed
  have keep: "sd_matches (after_request si sd) = sd_matches sd"
    "update_average r sd1 = Inr sd2 \<Longrightarrow> sd_matches sd2 = sd_matches sd1" for r sd1 sd2
    by (auto simp: after_request_def update_average_def Let_def split: if_splits)
  have range: "scan_range env rescan best stop (fst tested + 1) tested out sd =
      bind_outcome (scan_blocks env rescan (fst tested + 1) hashes tested out sd) (\<lambda>r. Inr (Some r))"
    using hashes(1,2) by (simp add: scan_range_def scan_hashes_def Let_def split: if_splits)
  show "scan env rescan best stop tested out sd =
      bind_outcome (if rescan then Inr (after_request si sd) else update_average (final_results si) (after_request si sd)) (\<lambda>sd'.
        Inr (if clean_prefix si = 0 then None else Some (si_position si (clean_prefix si - 1)),
             if si_blocks si = 0 then tested else si_position si (si_blocks si - 1),
             out @ map (Pair ScanDirty) (positions_of si (si_dirty si)),
             sd'\<lparr>sd_matches := merged_matches si (sd_matches sd)\<rparr>))"
  proof -
    define res where "res = (if rescan then Inr (after_request si sd) else update_average (final_results si) (after_request si sd))"
    have same: "sd_matches sd' = sd_matches sd" if "res = Inr sd'" for sd'
      using that keep unfolding res_def by (auto split: if_splits)
    have "scan env rescan best stop tested out sd =
      bind_outcome res (\<lambda>sd'.
        Inr (fst (highest_clean (final_results si) tested), snd (highest_clean (final_results si) tested),
             out @ map (Pair ScanDirty) (positions_of si (si_dirty si)),
             if ?gs \<noteq> [] \<and> results \<noteq> [] then sd'\<lparr>sd_matches := MatchCache_Add results (sd_matches sd')\<rparr> else sd'))"
      unfolding scan_def range eq after_request_def [symmetric] Let_def res_def [symmetric]
      by (cases res) (simp_all add: final_results_def)
    also have "\<dots> = bind_outcome res (\<lambda>sd'.
        Inr (if clean_prefix si = 0 then None else Some (si_position si (clean_prefix si - 1)),
             if si_blocks si = 0 then tested else si_position si (si_blocks si - 1),
             out @ map (Pair ScanDirty) (positions_of si (si_dirty si)),
             sd'\<lparr>sd_matches := merged_matches si (sd_matches sd)\<rparr>))"
    proof (cases res)
      case (Inr sd')
      have "(if ?gs \<noteq> [] \<and> results \<noteq> [] then sd'\<lparr>sd_matches := MatchCache_Add results (sd_matches sd')\<rparr> else sd') =
          sd'\<lparr>sd_matches := merged_matches si (sd_matches sd)\<rparr>"
        by (rule subchain_data.equality) (use cache [of "sd_matches sd"] same [OF Inr] in auto)
      then show ?thesis
        by (simp only: Inr bind_outcome_Inr highest_clean_eq fst_conv snd_conv)
    qed simp
    finally show ?thesis
      by (simp only: res_def)
  qed
qed

end
