(* ===== verification/Wallet_Scan_Blocks.thy ===== *)
theory Wallet_Scan_Blocks
  imports Wallet_Scan_Results
begin

text \<open>
  The facts on a scan that its properties rest on: the targets of a block, what a scan that returned says about its
  input, one block that was tested, the clean blocks before the first dirty one, and when a scan returns.
\<close>

section \<open>Targets and results\<close>

lemma zip_map_self: "zip ops (map g ops) = map (\<lambda>op. (op, g op)) ops"
  by (simp add: zip_map2 zip_same_conv_map)

lemma targets_iff:
  "(index, data) \<in> set (zip (fst (se_key (block_targets cache e p) s)) (snd (se_key (block_targets cache e p) s))) \<longleftrightarrow>
    (index, data) \<in> set (el_key e s) \<and> untested (cache p) (\<lambda>m. match_key m s) index"
  by (auto simp: block_targets_def select_keys_eq Let_def zip_map_fst_snd)

lemma targets_iff_txo:
  "(op, data) \<in> set (zip (fst (se_txo (block_targets cache e p))) (snd (se_txo (block_targets cache e p)))) \<longleftrightarrow>
    op \<in> fst ` set (el_txos e) \<and> data = outpoint_Bytes op \<and> untested (cache p) match_txo op"
  by (auto simp: block_targets_def select_txos_eq Let_def zip_map_self)

lemma selected_iff:
  "index \<in> set (fst (se_key (block_targets cache e p) s)) \<longleftrightarrow>
    index \<in> fst ` set (el_key e s) \<and> untested (cache p) (\<lambda>m. match_key m s) index"
  "op \<in> set (fst (se_txo (block_targets cache e p))) \<longleftrightarrow>
    op \<in> fst ` set (el_txos e) \<and> untested (cache p) match_txo op"
  by (auto simp: block_targets_def select_keys_eq select_txos_eq Let_def)

text \<open>The scan of a range of blocks, with what is known about its input.\<close>

lemma scan_at_target:
  assumes "i < length hashes" "si = scan_at env h tested hashes sd"
  shows "si_position si i = (fst tested + 1 + int i, hashes ! i)"
    and "si_targets si ! i = (hashes ! i, block_targets (sd_matches sd) (ec_elements (sd_elements sd)) (si_position si i))"
    and "si_key si i = h (block_key (hashes ! i))"
  using assms by (simp_all add: scan_at_def scan_of_def si_position_def select_targets_eq si_key_def)

lemma scan_at_hit:
  assumes "serves env h t contents available" "\<forall>b \<in> set hashes. sane_block contents b"
    and "i < si_blocks si" "si = scan_at env h tested hashes sd"
  shows "hit (si_key si i) (si_filters si ! i) v \<longleftrightarrow> kept_hash h t contents (hashes ! i) v"
proof -
  have "si_filters si = tested_filters env hashes" "si_blocks si \<le> length hashes" "i < length (tested_filters env hashes)"
    using assms(3) by (simp_all add: assms(4) scan_at_def si_blocks_def)
  then show ?thesis
    using loaded_filters(3) [OF assms(1,2), of i] assms(3) scan_at_target(3) [OF _ assms(4), of i] by simp
qed

lemma hit_item_dirty:
  assumes "index \<in> hit_items (si_key si i) (si_filters si ! i) (se_key (snd (si_targets si ! i)) s)"
  shows "si_dirty si i" "index \<in> match_key (confirmed_match (si_result si i)) s"
  using assms by (auto simp: si_dirty_def block_dirty_def si_result_def block_result_def)

lemma hit_txo_dirty:
  assumes "op \<in> hit_items (si_key si i) (si_filters si ! i) (se_txo (snd (si_targets si ! i)))"
  shows "si_dirty si i" "op \<in> match_txo (confirmed_match (si_result si i))"
  using assms by (auto simp: si_dirty_def block_dirty_def si_result_def block_result_def)

lemma merged_at:
  assumes "i < si_blocks si"
  shows "merged_matches si cache (si_position si i) =
    Some (MatchIndex_Merge (case cache (si_position si i) of None \<Rightarrow> no_match_index | Some m \<Rightarrow> m) (si_result si i))"
proof -
  have "i < length (si_targets si)" "nat (fst (si_position si i) - si_start si) = i"
    using assms by (simp_all add: si_blocks_def si_position_def)
  then show ?thesis
    using assms by (auto simp: merged_matches_def Let_def)
qed

lemma update_average_keeps:
  "update_average r sd = Inr sd' \<Longrightarrow> sd_elements sd' = sd_elements sd \<and> sd_id sd' = sd_id sd \<and> sd_subchain sd' = sd_subchain sd"
  by (auto simp: update_average_def Let_def split: if_splits)

lemma after_request_keeps [simp]:
  "sd_elements (after_request si sd) = sd_elements sd" "sd_id (after_request si sd) = sd_id sd"
  "sd_subchain (after_request si sd) = sd_subchain sd" "sd_filter_sizes (after_request si sd) = sd_filter_sizes sd"
  by (simp_all add: after_request_def)

text \<open>Everything that a scan which returned says about its input.\<close>

lemma scan_returned:
  assumes "serves env h t contents available" "\<forall>b \<in> set hashes. sane_block contents b"
    and hashes: "hashes = scan_hashes env best stop tested sd"
    and scan: "scan env rescan best stop tested out sd = Inr (clean, tested', out', sd')"
    and si: "si = scan_at env h tested hashes sd"
  shows "si_blocks si = length (takeWhile available hashes)"
    "clean = (if clean_prefix si = 0 then None else Some (si_position si (clean_prefix si - 1)))"
    "tested' = (if si_blocks si = 0 then tested else si_position si (si_blocks si - 1))"
    "out' = out @ map (Pair ScanDirty) (positions_of si (si_dirty si))"
    "sd_matches sd' = merged_matches si (sd_matches sd)"
    "sd_elements sd' = sd_elements sd" "sd_id sd' = sd_id sd" "sd_subchain sd' = sd_subchain sd"
proof -
  have blocks: "hashes = [] \<Longrightarrow> si_blocks si = 0"
    by (simp add: si scan_at_def scan_of_def si_blocks_def select_targets_eq)
  have prefix: "si_blocks si = 0 \<Longrightarrow> clean_prefix si = 0"
    using clean_prefix_le [of si] by simp
  have "si_blocks si = length (takeWhile available hashes) \<and>
    clean = (if clean_prefix si = 0 then None else Some (si_position si (clean_prefix si - 1))) \<and>
    tested' = (if si_blocks si = 0 then tested else si_position si (si_blocks si - 1)) \<and>
    out' = out @ map (Pair ScanDirty) (positions_of si (si_dirty si)) \<and>
    sd_matches sd' = merged_matches si (sd_matches sd) \<and>
    sd_elements sd' = sd_elements sd \<and> sd_id sd' = sd_id sd \<and> sd_subchain sd' = sd_subchain sd"
  proof (cases "hashes = []")
    case True
    then show ?thesis
      using scan scan_nothing [of env best stop tested sd rescan out] hashes blocks prefix
      by (auto simp: positions_of_def merged_matches_def fun_eq_iff)
  next
    case False
    note eq = scan_eq [OF assms(1) hashes False assms(2) si]
    obtain sd1 where "(if rescan then Inr (after_request si sd) else update_average (final_results si) (after_request si sd)) = Inr sd1"
      "sd' = sd1\<lparr>sd_matches := merged_matches si (sd_matches sd)\<rparr>"
      "clean = (if clean_prefix si = 0 then None else Some (si_position si (clean_prefix si - 1)))"
      "tested' = (if si_blocks si = 0 then tested else si_position si (si_blocks si - 1))"
      "out' = out @ map (Pair ScanDirty) (positions_of si (si_dirty si))"
      using scan unfolding eq(2) by (auto simp: outcome_rules)
    then show ?thesis
      using eq(1) update_average_keeps [of "final_results si" "after_request si sd" sd1] by (auto split: if_splits)
  qed
  then show "si_blocks si = length (takeWhile available hashes)"
    "clean = (if clean_prefix si = 0 then None else Some (si_position si (clean_prefix si - 1)))"
    "tested' = (if si_blocks si = 0 then tested else si_position si (si_blocks si - 1))"
    "out' = out @ map (Pair ScanDirty) (positions_of si (si_dirty si))"
    "sd_matches sd' = merged_matches si (sd_matches sd)"
    "sd_elements sd' = sd_elements sd" "sd_id sd' = sd_id sd" "sd_subchain sd' = sd_subchain sd"
    by blast+
qed

lemma select_matches_key:
  "index \<in> match_key (confirmed_match m) s \<Longrightarrow> (index, data) \<in> set (el_key e s) \<Longrightarrow>
    element_pattern sd index data \<in> set (snd (snd (select_matches sd (Some m) e (a, b))))"
  by (auto simp: select_matches_def Let_def)

lemma select_matches_txo:
  "op \<in> match_txo (confirmed_match m) \<Longrightarrow> (op, coin) \<in> set (el_txos e) \<Longrightarrow>
    set (txo_patterns sd op coin) \<subseteq> set (fst (snd (select_matches sd (Some m) e (a, b))))"
  by (cases op) (auto simp: select_matches_def Let_def)

lemma confirmed_merge [simp]:
  "confirmed_match (MatchIndex_Merge m n) = Matches_Merge (confirmed_match m) (confirmed_match n)"
  "confirmed_no_match (MatchIndex_Merge m n) = Matches_Merge (confirmed_no_match m) (confirmed_no_match n)"
  "match_key (Matches_Merge k l) s = match_key k s \<union> match_key l s"
  "match_txo (Matches_Merge k l) = match_txo k \<union> match_txo l"
  by (simp_all add: MatchIndex_Merge_def Matches_Merge_def)

lemma untested_merge:
  "untested (Some (MatchIndex_Merge (case known of None \<Rightarrow> no_match_index | Some m \<Rightarrow> m) r)) (\<lambda>m. match_key m s) index \<longleftrightarrow>
    untested known (\<lambda>m. match_key m s) index \<and> index \<notin> match_key (confirmed_no_match r) s \<and> index \<notin> match_key (confirmed_match r) s"
  "untested (Some (MatchIndex_Merge (case known of None \<Rightarrow> no_match_index | Some m \<Rightarrow> m) r)) match_txo op \<longleftrightarrow>
    untested known match_txo op \<and> op \<notin> match_txo (confirmed_no_match r) \<and> op \<notin> match_txo (confirmed_match r)"
  by (auto simp: untested_def no_match_index_def no_matches_def split: option.splits)

lemma each_entry:
  assumes "\<And>k item. (k, item) \<in> table \<Longrightarrow> Q k item"
  shows "\<forall>(k, item) \<in> table. Q k item"
  using assms by auto

text \<open>One block that was tested.\<close>

lemma tested_block:
  assumes "serves env h t contents available" "\<forall>b \<in> set hashes. sane_block contents b"
    and "hashes = scan_hashes env best stop tested sd"
    and "scan env rescan best stop tested out sd = Inr (clean, tested', out', sd')"
    and "i < length (takeWhile available hashes)" "p = (fst tested + 1 + int i, hashes ! i)"
    and si: "si = scan_at env h tested hashes sd"
  shows "si_dirty si i \<Longrightarrow> (ScanDirty, p) \<in> set out'"
    "sd_matches sd' p = Some (MatchIndex_Merge (case sd_matches sd p of None \<Rightarrow> no_match_index | Some m \<Rightarrow> m) (si_result si i))"
    "block_patterns sd' p = snd (select_matches sd (sd_matches sd' p) (ec_elements (sd_elements sd)) ([], []))"
    "snd (si_targets si ! i) = block_targets (sd_matches sd) (ec_elements (sd_elements sd)) p"
    "v \<in> set (contents (hashes ! i)) \<Longrightarrow> target_hash h t contents (hashes ! i) v \<noteq> 0 \<Longrightarrow>
      hit (si_key si i) (si_filters si ! i) v"
proof -
  note res = scan_returned [OF assms(1,2,3,4) si]
  have i: "i < si_blocks si" "i < length hashes"
    using assms(5) res(1) length_takeWhile_le [of available hashes] by simp_all
  note target = scan_at_target [OF i(2) si]
  have p: "p = si_position si i"
    using assms(6) target(1) by simp
  show "si_dirty si i \<Longrightarrow> (ScanDirty, p) \<in> set out'"
    using i(1) by (auto simp: res(4) p positions_of_def)
  show cache: "sd_matches sd' p = Some (MatchIndex_Merge (case sd_matches sd p of None \<Rightarrow> no_match_index | Some m \<Rightarrow> m) (si_result si i))"
    by (simp add: res(5) p merged_at [OF i(1)])
  have "element_pattern sd' = element_pattern sd" "txo_patterns sd' = txo_patterns sd"
    by (simp_all add: fun_eq_iff element_pattern_def txo_patterns_def res(7,8))
  then show "block_patterns sd' p = snd (select_matches sd (sd_matches sd' p) (ec_elements (sd_elements sd)) ([], []))"
    by (simp add: block_patterns_def MatchCache_GetMatches_def cache select_matches_def res(6) Let_def)
  show "snd (si_targets si ! i) = block_targets (sd_matches sd) (ec_elements (sd_elements sd)) p"
    by (simp add: target(2) p)
  show "hit (si_key si i) (si_filters si ! i) v"
    if "v \<in> set (contents (hashes ! i))" "target_hash h t contents (hashes ! i) v \<noteq> 0"
    using that by (auto simp: scan_at_hit [OF assms(1,2) i(1) si] kept_hash_def)
qed

section \<open>The blocks before the first dirty one\<close>

lemma position_nth:
  assumes "i < si_blocks si" "si = scan_at env h tested hashes sd"
  shows "si_position si i = (fst tested + 1 + int i, hashes ! i)"
  using assms(1) by (intro scan_at_target(1) [OF _ assms(2)]) (simp add: assms(2) scan_at_def si_blocks_def)

lemma clean_prefix_position:
  assumes "clean_prefix si \<noteq> 0"
  shows "si_position si (clean_prefix si - 1) \<le> si_position si (si_blocks si - 1)"
    "si_dirty si i \<Longrightarrow> si_position si (clean_prefix si - 1) < si_position si i"
    "clean_prefix si = si_blocks si \<or> si_dirty si (clean_prefix si)"
proof -
  have "clean_prefix si - 1 \<le> si_blocks si - 1"
    using clean_prefix_le [of si] by simp
  then show "si_position si (clean_prefix si - 1) \<le> si_position si (si_blocks si - 1)"
    by (simp add: not_less [symmetric])
  show "si_position si (clean_prefix si - 1) < si_position si i" if "si_dirty si i"
  proof -
    have "clean_prefix si \<le> i"
      using clean_prefix_clean [of i si] that by (meson not_less)
    then show ?thesis
      using assms by simp
  qed
  show "clean_prefix si = si_blocks si \<or> si_dirty si (clean_prefix si)"
    using clean_prefix_le [of si] clean_prefix_dirty [of si] by linarith
qed

section \<open>What is known of the tested blocks\<close>

lemma scan_classified:
  assumes "serves env h t contents available" "\<forall>b \<in> set hashes. sane_block contents b"
    and "hashes = scan_hashes env best stop tested sd"
    and "scan env rescan best stop tested [] sd = Inr (clean, tested', out', sd')"
    and "i < length (takeWhile available hashes)" "p = (fst tested + 1 + int i, hashes ! i)"
  shows "(\<forall>s. \<forall>(index, data) \<in> set (el_key (ec_elements (sd_elements sd)) s).
        \<not> untested (sd_matches sd' p) (\<lambda>m. match_key m s) index)
    \<and> (\<forall>(op, coin) \<in> set (el_txos (ec_elements (sd_elements sd))). \<not> untested (sd_matches sd' p) match_txo op)
    \<and> ((ScanDirty, p) \<in> set out' \<longleftrightarrow>
        (\<exists>s. \<exists>(index, data) \<in> set (el_key (ec_elements (sd_elements sd)) s).
          untested (sd_matches sd p) (\<lambda>m. match_key m s) index \<and> kept_hash h t contents (hashes ! i) data) \<or>
        (\<exists>op \<in> fst ` set (el_txos (ec_elements (sd_elements sd))).
          untested (sd_matches sd p) match_txo op \<and> kept_hash h t contents (hashes ! i) (outpoint_Bytes op)))"
proof (intro conjI allI each_entry)
  let ?si = "scan_at env h tested hashes sd"
  let ?e = "ec_elements (sd_elements sd)"
  note block = tested_block [OF assms refl]
  note res = scan_returned [OF assms(1,2,3,4) refl]
  have i: "i < si_blocks ?si"
    using assms(5) res(1) by simp
  note hits = scan_at_hit [OF assms(1,2) i refl]
  show "\<not> untested (sd_matches sd' p) (\<lambda>m. match_key m s) index"
    if "(index, data) \<in> set (el_key ?e s)" for s index data
    using that selected_iff(1) [of index "sd_matches sd" ?e p s]
    by (force simp: block(2) untested_merge si_result_def block_result_def block(4))
  show "\<not> untested (sd_matches sd' p) match_txo op" if "(op, coin) \<in> set (el_txos ?e)" for op coin
    using that selected_iff(2) [of op "sd_matches sd" ?e p]
    by (force simp: block(2) untested_merge si_result_def block_result_def block(4))
  have "p = si_position ?si i"
    using assms(6) position_nth [OF i refl] by simp
  then have "(ScanDirty, p) \<in> set out' \<longleftrightarrow> si_dirty ?si i"
    using i by (auto simp: res(4) positions_of_def)
  then show "(ScanDirty, p) \<in> set out' \<longleftrightarrow>
        (\<exists>s. \<exists>(index, data) \<in> set (el_key ?e s).
          untested (sd_matches sd p) (\<lambda>m. match_key m s) index \<and> kept_hash h t contents (hashes ! i) data) \<or>
        (\<exists>op \<in> fst ` set (el_txos ?e).
          untested (sd_matches sd p) match_txo op \<and> kept_hash h t contents (hashes ! i) (outpoint_Bytes op))"
    unfolding si_dirty_def block_dirty_def hit_items_def block(4) targets_iff targets_iff_txo hits by blast
qed

section \<open>Whether a scan returns\<close>

lemma update_average_empty:
  "if sd_filter_sizes sd = [] \<and> ar_sizes r = [] then update_average r sd = Inl UndefinedBehaviour
   else \<exists>sd'. update_average r sd = Inr sd'"
proof -
  have "drop (length xs - cfilter_size_window) xs = [] \<longleftrightarrow> xs = []" for xs :: "nat list"
    by (cases xs) (auto simp: cfilter_size_window_def)
  then show ?thesis
    by (auto simp: update_average_def Let_def)
qed

lemma scan_result_cases:
  assumes "serves env h t contents available" "\<forall>b \<in> set hashes. sane_block contents b"
    and "hashes = scan_hashes env best stop tested sd"
  shows "if \<not> rescan \<and> hashes \<noteq> [] \<and> \<not> available (hashes ! 0) \<and> sd_filter_sizes sd = []
    then scan env rescan best stop tested out sd = Inl UndefinedBehaviour
    else \<exists>r. scan env rescan best stop tested out sd = Inr r"
proof (cases "hashes = []")
  case True
  then show ?thesis
    using scan_nothing [of env best stop tested sd rescan out] assms(3) by simp
next
  case False
  define si where "si = scan_at env h tested hashes sd"
  note eq = scan_eq [OF assms(1,3) False assms(2) si_def]
  have "si_blocks si = 0 \<longleftrightarrow> \<not> available (hashes ! 0)"
    using False by (cases hashes) (simp_all add: eq(1))
  then have "ar_sizes (final_results si) = [] \<longleftrightarrow> \<not> available (hashes ! 0)"
    by (auto simp: final_results_def)
  then show ?thesis
    using False update_average_empty [of "after_request si sd" "final_results si"] by (auto simp: eq(2))
qed

end
