(* ===== verification/Wallet_Scan_Properties.thy ===== *)
theory Wallet_Scan_Properties
  imports Wallet_Scan_Blocks
begin

text \<open>
  The properties of the scan: which blocks it reports, what it says about progress, how much it does at once, and
  that its jobs can run in any order.
\<close>

section \<open>An example\<close>

text \<open>
  A chain of one block with one element of the wallet and one of somebody else; a hash function that gives
  each element the same hash, which is not 0.
\<close>

definition example_block :: view where
  "example_block = replicate 32 9"

definition example_contents :: "view \<Rightarrow> view list" where
  "example_contents b = [replicate 20 3, replicate 20 4]"

definition example_env :: "(view \<Rightarrow> bool) \<Rightarrow> scan_env" where
  "example_env available =
    \<lparr>sn_hmac = working (\<lambda>_ _. 2 ^ 63),
     sn_best_hashes = (\<lambda>start n. if start = 0 \<and> 0 < n then [example_block] else []),
     sn_load_filters = map (\<lambda>b. if available b then stored_filter (\<lambda>_ _. 2 ^ 63) ES example_contents b else BlankFilter),
     sn_max_jobs = 4, sn_batch_estimate = 100\<rparr>"

definition example_subchain :: subchain_data where
  "example_subchain =
    \<lparr>sd_id = ''account'', sd_subchain = SubchainExternal,
     sd_elements = \<lparr>ec_data = [(7, [replicate 20 3])],
       ec_elements = no_elements\<lparr>el_key := (\<lambda>s. if s = P20 then [(7, replicate 20 3)] else [])\<rparr>\<rparr>,
     sd_matches = (\<lambda>_. None), sd_filter_sizes = [], sd_elements_per_cfilter = 0, sd_requested = []\<rparr>"

lemma example_serves: "serves (example_env available) (\<lambda>_ _. 2 ^ 63) ES example_contents available"
  by (simp add: serves_def example_env_def)

lemma example_sane: "\<forall>b \<in> set [example_block]. sane_block example_contents b"
  by (simp add: sane_block_def example_block_def example_contents_def)

lemma example_scan_hashes:
  "[example_block] = scan_hashes (example_env available) (0, example_block) 10 null_position example_subchain"
proof -
  have "stop_height (example_env available) example_subchain 0 (0, example_block) 10 = 0"
    using scan_batch_bounds(1) [of "example_env available" example_subchain] by (auto simp: stop_height_def)
  then show ?thesis
    by (simp add: scan_hashes_def null_position_def Let_def) (simp add: example_env_def)
qed

lemma example_returns:
  obtains clean tested' out' sd' where
    "scan (example_env (\<lambda>_. True)) False (0, example_block) 10 null_position [] example_subchain = Inr (clean, tested', out', sd')"
proof -
  have "\<exists>r. scan (example_env (\<lambda>_. True)) False (0, example_block) 10 null_position [] example_subchain = Inr r"
    using scan_result_cases [OF example_serves [of "\<lambda>_. True"] example_sane example_scan_hashes, of False "[]"] by simp
  then show ?thesis
    using that by (metis prod.exhaust)
qed

section \<open>Elements are found\<close>

text \<open>
  C14. What a scan does not miss. Let it return, and let the filters served be those of the blocks (\<open>serves\<close>), of a type other
  than the basic one, and the blocks have fewer than \<open>2 ^ 32\<close> elements. A block that was tested, that is one before the first without a filter, and that contains
  an element of the wallet of which nothing was known yet for this block, is reported as dirty, and when it is processed afterwards,
  the element is among the patterns that are looked for; the same holds for the outpoints of unspent outputs with a key of
  the subchain. An element whose hash in the range of the filter is 0 is left out, and one already known to match is not
  reported again.
\<close>

theorem scan_finds_elements:
  assumes "serves env h t contents available" "\<forall>b \<in> set hashes. sane_block contents b"
    and "hashes = scan_hashes env best stop tested sd"
    and "scan env rescan best stop tested out sd = Inr (clean, tested', out', sd')"
    and "i < length (takeWhile available hashes)" "p = (fst tested + 1 + int i, hashes ! i)"
  shows "(\<forall>s. \<forall>(index, data) \<in> set (el_key (ec_elements (sd_elements sd)) s).
      data \<in> set (contents (hashes ! i)) \<and> target_hash h t contents (hashes ! i) data \<noteq> 0 \<and>
      untested (sd_matches sd p) (\<lambda>m. match_key m s) index \<longrightarrow>
      (ScanDirty, p) \<in> set out' \<and> element_pattern sd index data \<in> set (snd (block_patterns sd' p)))
    \<and> (\<forall>(op, coin) \<in> set (el_txos (ec_elements (sd_elements sd))).
      outpoint_Bytes op \<in> set (contents (hashes ! i)) \<and> target_hash h t contents (hashes ! i) (outpoint_Bytes op) \<noteq> 0 \<and>
      untested (sd_matches sd p) match_txo op \<longrightarrow>
      (ScanDirty, p) \<in> set out' \<and> set (txo_patterns sd op coin) \<subseteq> set (fst (block_patterns sd' p)))"
proof (rule conjI; intro allI each_entry impI; elim conjE)
  note block = tested_block [OF assms refl]
  let ?si = "scan_at env h tested hashes sd"
  show "(ScanDirty, p) \<in> set out' \<and> element_pattern sd index data \<in> set (snd (block_patterns sd' p))"
    if el: "(index, data) \<in> set (el_key (ec_elements (sd_elements sd)) s)" "data \<in> set (contents (hashes ! i))"
      "target_hash h t contents (hashes ! i) data \<noteq> 0" and new: "untested (sd_matches sd p) (\<lambda>m. match_key m s) index"
    for s index data
  proof -
    have "index \<in> hit_items (si_key ?si i) (si_filters ?si ! i) (se_key (snd (si_targets ?si ! i)) s)"
      using el(1) new block(5) [OF el(2,3)] unfolding block(4) hit_items_def targets_iff by blast
    from hit_item_dirty [OF this] show ?thesis
      using block(1) unfolding block(2,3) by (intro conjI select_matches_key [OF _ el(1)]) simp_all
  qed
  show "(ScanDirty, p) \<in> set out' \<and> set (txo_patterns sd op coin) \<subseteq> set (fst (block_patterns sd' p))"
    if el: "(op, coin) \<in> set (el_txos (ec_elements (sd_elements sd)))" "outpoint_Bytes op \<in> set (contents (hashes ! i))"
      "target_hash h t contents (hashes ! i) (outpoint_Bytes op) \<noteq> 0" and new: "untested (sd_matches sd p) match_txo op"
    for op coin
  proof -
    have "op \<in> hit_items (si_key ?si i) (si_filters ?si ! i) (se_txo (snd (si_targets ?si ! i)))"
      using el(1) new block(5) [OF el(2,3)] unfolding block(4) hit_items_def targets_iff_txo by force
    from hit_txo_dirty [OF this] show ?thesis
      using block(1) unfolding block(2,3) by (intro conjI select_matches_txo [OF _ el(1)]) simp_all
  qed
qed

lemma scan_finds_elements_witness:
  "\<exists>clean tested out sd. scan (example_env (\<lambda>_. True)) False (0, example_block) 10 null_position [] example_subchain = Inr (clean, tested, out, sd)
    \<and> (ScanDirty, (0, example_block)) \<in> set out
    \<and> element_pattern example_subchain 7 (replicate 20 3) \<in> set (snd (block_patterns sd (0, example_block)))"
proof (rule example_returns)
  fix clean tested out sd
  assume scan: "scan (example_env (\<lambda>_. True)) False (0, example_block) 10 null_position [] example_subchain = Inr (clean, tested, out, sd)"
  have hash: "target_hash (\<lambda>_ _. 2 ^ 63) ES example_contents example_block (replicate 20 3) \<noteq> 0"
    by (simp add: target_hash_def GetFilterParams_def filter_range_def HashToRange_def example_contents_def)
  show ?thesis
    using scan_finds_elements [OF example_serves example_sane example_scan_hashes scan, of 0 "(0, example_block)"] scan hash
    by (fastforce simp: null_position_def example_subchain_def untested_def example_contents_def)
qed

section \<open>Progress\<close>

text \<open>
  C15. What a scan says about progress: the highest tested position is that of the last block with a
  filter; up to the highest clean position no block is dirty, and the scan stops there because the next
  block is dirty or was not tested. There is no clean position only if nothing was tested or the first
  block is dirty.
\<close>

theorem scan_progress:
  assumes "serves env h t contents available" "\<forall>b \<in> set hashes. sane_block contents b"
    and "hashes = scan_hashes env best stop tested sd"
    and "scan env rescan best stop tested [] sd = Inr (clean, tested', out', sd')"
    and "n = length (takeWhile available hashes)"
  shows "tested' = (if n = 0 then tested else (fst tested + int n, hashes ! (n - 1)))
    \<and> (case clean of
        None \<Rightarrow> n = 0 \<or> (ScanDirty, (fst tested + 1, hashes ! 0)) \<in> set out'
      | Some q \<Rightarrow> fst tested < fst q \<and> q \<le> tested' \<and> q = (fst q, hashes ! nat (fst q - fst tested - 1))
          \<and> (\<forall>p. (ScanDirty, p) \<in> set out' \<longrightarrow> q < p)
          \<and> (q = tested' \<or> (\<exists>b. (ScanDirty, (fst q + 1, b)) \<in> set out')))"
proof -
  define si where "si = scan_at env h tested hashes sd"
  note res = scan_returned [OF assms(1,2,3,4) si_def]
  have n: "n = si_blocks si"
    by (simp add: assms(5) res(1))
  let ?c = "clean_prefix si"
  note pos = position_nth [OF _ si_def]
  have out: "(ScanDirty, p) \<in> set out' \<longleftrightarrow> (\<exists>i < n. si_dirty si i \<and> p = si_position si i)" for p
    by (auto simp: res(4) positions_of_def n)
  have tested': "tested' = (if n = 0 then tested else (fst tested + int n, hashes ! (n - 1)))"
    using pos [of "n - 1"] by (auto simp: res(3) n of_nat_diff)
  moreover have "n = 0 \<or> (ScanDirty, (fst tested + 1, hashes ! 0)) \<in> set out'" if "?c = 0"
    using that clean_prefix_dirty [of si] pos [of 0] unfolding out n by (cases "si_blocks si = 0") force+
  moreover have "fst tested < fst q \<and> q \<le> tested' \<and> q = (fst q, hashes ! nat (fst q - fst tested - 1))
      \<and> (\<forall>p. (ScanDirty, p) \<in> set out' \<longrightarrow> q < p) \<and> (q = tested' \<or> (\<exists>b. (ScanDirty, (fst q + 1, b)) \<in> set out'))"
    if c: "?c \<noteq> 0" and q: "q = si_position si (?c - 1)" for q
  proof -
    note clean = clean_prefix_position [OF c]
    have le: "?c - 1 < si_blocks si" "?c \<le> n"
      using c clean_prefix_le [of si] n by auto
    then have qp: "q = (fst tested + int ?c, hashes ! (?c - 1))"
      using pos [of "?c - 1"] c by (simp add: q of_nat_diff)
    have "tested' = si_position si (si_blocks si - 1)"
      using le c by (simp add: res(3) n)
    then have "q \<le> tested'" "q = tested' \<or> ?c \<noteq> si_blocks si"
      using clean(1) by (auto simp: q)
    moreover have "(ScanDirty, (fst q + 1, hashes ! ?c)) \<in> set out'" if "?c \<noteq> si_blocks si"
      using that clean(3) le pos [of ?c] unfolding out n by (intro exI [of _ ?c]) (auto simp: qp)
    moreover have "fst tested < fst q" "q = (fst q, hashes ! nat (fst q - fst tested - 1))"
      using c by (simp_all add: qp nat_diff_distrib)
    moreover have "q < p" if "(ScanDirty, p) \<in> set out'" for p
      using that clean(2) by (auto simp: out q)
    ultimately show ?thesis
      by blast
  qed
  ultimately show ?thesis
    by (auto simp: res(2))
qed

lemma scan_progress_witness:
  "\<exists>clean out sd. scan (example_env (\<lambda>_. True)) False (0, example_block) 10 null_position [] example_subchain
      = Inr (clean, (0, example_block), out, sd)"
proof (rule example_returns)
  fix clean tested out sd
  assume scan: "scan (example_env (\<lambda>_. True)) False (0, example_block) 10 null_position [] example_subchain = Inr (clean, tested, out, sd)"
  show ?thesis
    using scan_progress [OF example_serves example_sane example_scan_hashes scan refl] scan
    by (simp add: null_position_def)
qed

section \<open>What is known afterwards\<close>

text \<open>
  C29. A scan leaves nothing open: for every block that it tested each element of the wallet is known to match or not to
  match, what was known stays known, and the block is reported exactly if one of the elements that
  were not known before is in its filter.
\<close>

theorem scan_classifies_elements:
  assumes "serves env h t contents available" "\<forall>b \<in> set hashes. sane_block contents b"
    and "hashes = scan_hashes env best stop tested sd"
    and "scan env rescan best stop tested [] sd = Inr (clean, tested', out', sd')"
    and "i < length (takeWhile available hashes)" "p = (fst tested + 1 + int i, hashes ! i)"
  shows "(\<forall>s. \<forall>(index, data) \<in> set (el_key (ec_elements (sd_elements sd)) s).
        \<not> untested (sd_matches sd' p) (\<lambda>m. match_key m s) index)
    \<and> (\<forall>(op, coin) \<in> set (el_txos (ec_elements (sd_elements sd))). \<not> untested (sd_matches sd' p) match_txo op)
    \<and> ((ScanDirty, p) \<in> set out' \<longleftrightarrow>
        (\<exists>s. \<exists>(index, data) \<in> set (el_key (ec_elements (sd_elements sd)) s).
          untested (sd_matches sd p) (\<lambda>m. match_key m s) index \<and> kept_hash h t contents (hashes ! i) data) \<or>
        (\<exists>op \<in> fst ` set (el_txos (ec_elements (sd_elements sd))).
          untested (sd_matches sd p) match_txo op \<and> kept_hash h t contents (hashes ! i) (outpoint_Bytes op)))"
  using scan_classified [OF assms] .

lemma scan_classifies_elements_witness:
  "\<exists>clean tested out sd. scan (example_env (\<lambda>_. True)) False (0, example_block) 10 null_position [] example_subchain = Inr (clean, tested, out, sd)
    \<and> \<not> untested (sd_matches sd (0, example_block)) (\<lambda>m. match_key m P20) 7"
proof (rule example_returns)
  fix clean tested out sd
  assume scan: "scan (example_env (\<lambda>_. True)) False (0, example_block) 10 null_position [] example_subchain = Inr (clean, tested, out, sd)"
  show ?thesis
    using scan_classifies_elements [OF example_serves example_sane example_scan_hashes scan, of 0 "(0, example_block)"] scan
    by (fastforce simp: null_position_def example_subchain_def)
qed

section \<open>When a scan returns\<close>

text \<open>
  C35. A scan returns, unless it is the first one and the first block has no filter: then the average of
  the filter sizes is computed over an empty list, and the program divides by 0.
\<close>

theorem scan_without_filters:
  assumes "serves env h t contents available" "\<forall>b \<in> set hashes. sane_block contents b"
    and "hashes = scan_hashes env best stop tested sd"
  shows "if \<not> rescan \<and> hashes \<noteq> [] \<and> \<not> available (hashes ! 0) \<and> sd_filter_sizes sd = []
    then scan env rescan best stop tested out sd = Inl UndefinedBehaviour
    else \<exists>r. scan env rescan best stop tested out sd = Inr r"
  using scan_result_cases [OF assms] .

lemma scan_without_filters_witness:
  "scan (example_env (\<lambda>_. False)) False (0, example_block) 10 null_position [] example_subchain = Inl UndefinedBehaviour"
  using scan_without_filters [OF example_serves [of "\<lambda>_. False"] example_sane example_scan_hashes, of False "[]"]
  by (simp add: example_subchain_def)

section \<open>Bounds\<close>

text \<open>
  How much one scan does: at least one block is asked for and at most 2000; the number of threads is the
  integer square root of the number of elements divided by 512, at least one and fewer than the machine has.
\<close>

theorem scan_is_bounded:
  assumes "sd_elements sd = c" "n = max (elements_size (ec_elements c)) 1" "n < 2 ^ 64"
  shows "(\<exists>r. 512 * r ^ 2 \<le> n \<and> n < 512 * (r + 1) ^ 2
      \<and> scan_threads env sd = min (max r 1) (max (sn_max_jobs env) 2 - 1))
    \<and> 1 \<le> scan_batch env sd \<and> scan_batch env sd \<le> 2000
    \<and> stop_height env sd start best stop \<le> start + 1999
    \<and> (start \<le> fst best \<and> start \<le> stop \<longrightarrow> start \<le> stop_height env sd start best stop)"
proof -
  have "n div 2 ^ 9 < 2 ^ 64"
    using assms(3) by (rule order.strict_trans1 [OF div_le_dividend])
  note root = isqrt_root [OF this]
  have "512 * isqrt (n div 512) ^ 2 \<le> n" "n < 512 * (isqrt (n div 512) + 1) ^ 2"
    using root by (simp_all add: less_eq_div_iff_mult_less_eq div_less_iff_less_mult mult.commute)
  moreover have "scan_threads env sd = min (max (isqrt (n div 512)) 1) (max (sn_max_jobs env) 2 - 1)"
    by (simp add: scan_threads_def thread_count_def assms)
  ultimately show ?thesis
    using scan_batch_bounds [of env sd] by (auto simp: stop_height_def min_le_iff_disj)
qed

lemma scan_is_bounded_witness:
  "scan_threads (example_env (\<lambda>_. True)) example_subchain = 1 \<and> scan_batch (example_env (\<lambda>_. True)) example_subchain \<le> 2000"
proof -
  have "1 = max (elements_size (ec_elements (sd_elements example_subchain))) 1"
    by (simp add: example_subchain_def elements_size_def no_elements_def)
  note bounds = scan_is_bounded [OF refl this, of "example_env (\<lambda>_. True)" 0 "(0, example_block)" 10]
  then obtain r where "512 * r ^ 2 \<le> (1 :: nat)"
    "scan_threads (example_env (\<lambda>_. True)) example_subchain = min (max r 1) (max (sn_max_jobs (example_env (\<lambda>_. True))) 2 - 1)"
    by auto
  moreover from this(1) have "r = 0"
    by (cases r) (simp_all add: power2_eq_square)
  ultimately show ?thesis
    using bounds by (simp add: example_env_def)
qed

section \<open>Jobs\<close>

text \<open>
  C30. The jobs that compute the hashes of the targets, and those that compare them with the filters, can
  run in any order: the result is that of running them one after the other, and each row has the hashes
  of its own block.
\<close>

theorem jobs_in_any_order:
  assumes "PrehashData targets [] start jobs = Inr (pd, results)"
    and "\<forall>t \<in> set targets. even_targets (snd t) \<and> 16 \<le> length (fst t)" "\<forall>g \<in> set gs. gcs_inv g"
    and "mset js = mset [0..<jobs]" "mset ks = mset [0..<jobs]"
    and "m = \<lparr>mt_filters = map Filter gs, mt_at_least_once = False, mt_results = results, mt_matched = no_results\<rparr>"
  shows "\<exists>pd' m'. prepare_jobs (working h) js pd = Inr pd' \<and> Prepare (working h) pd = Inr pd'
    \<and> pd_data pd' = map (\<lambda>i. full_row h (targets ! i) (start + int i)) [0..<length targets]
    \<and> match_jobs pd' ks m = Inr m' \<and> Match_all pd' m = Inr m'"
proof -
  define si where "si = \<lparr>si_hash = h, si_start = start, si_targets = targets, si_filters = gs\<rparr>"
  have ok: "si_ok si"
    using assms(2,3) by (simp add: si_ok_def si_def)
  have jobs: "0 < jobs"
    using assms(1) by (auto simp: PrehashData_def outcome_rules)
  have pd: "pd = prepared si jobs {}" "results = si_results si"
    using PrehashData_eq [OF jobs, of si] assms(1) by (simp_all add: si_def)
  have perm: "distinct ls \<and> (\<forall>j \<in> set ls. j < jobs) \<and> set (job_rows ls jobs n) = {..<n}"
    if "mset ls = mset [0..<jobs]" for ls n
  proof -
    have "set ls = {0..<jobs}" "distinct ls"
      using that by (metis set_mset_mset set_upt, metis mset_eq_imp_distinct_iff distinct_upt)
    then show ?thesis
      using jobs by (auto simp: set_job_rows)
  qed
  have prepare: "prepare_jobs (working h) ls pd = Inr (prepared si jobs {..<length targets})" if "mset ls = mset [0..<jobs]" for ls
    using prepare_jobs_eq [OF ok, of ls jobs "{}"] perm [OF that] by (simp add: pd si_def)
  have start: "done_blocks si {} m"
    using matched_start [of si] noted_empty [of si] by (simp add: done_blocks_def assms(6) pd si_def)
  have match: "\<exists>m'. match_jobs (prepared si jobs {..<length targets}) ls m = Inr m' \<and> done_blocks si {..<si_blocks si} m'"
    if "mset ls = mset [0..<jobs]" for ls
    using match_jobs_eq [OF ok _ _ start, of ls jobs] perm [OF that] by (simp add: si_def)
  obtain m' where m': "match_jobs (prepared si jobs {..<length targets}) ks m = Inr m'" "done_blocks si {..<si_blocks si} m'"
    using match [OF assms(5)] by blast
  moreover obtain m'' where "match_jobs (prepared si jobs {..<length targets}) [0..<jobs] m = Inr m''" "done_blocks si {..<si_blocks si} m''"
    using match [OF refl] by blast
  ultimately have "match_jobs (prepared si jobs {..<length targets}) [0..<jobs] m = Inr m'"
    using done_blocks_unique by blast
  moreover have "pd_data (prepared si jobs {..<length targets}) = map (\<lambda>i. full_row h (targets ! i) (start + int i)) [0..<length targets]"
    by (simp add: prepared_def si_row_def si_def)
  ultimately show ?thesis
    using prepare [OF assms(4)] prepare [OF refl] m'(1) by (simp add: Prepare_def Match_all_def pd(1))
qed

lemma jobs_in_any_order_witness:
  "\<exists>pd results pd'. PrehashData [(example_block, \<lparr>se_key = (\<lambda>_. ([7], [replicate 20 3])), se_txo = ([], [])\<rparr>)] [] 0 2 = Inr (pd, results)
    \<and> prepare_jobs (working (\<lambda>_ _. 2 ^ 63)) [1, 0] pd = Inr pd' \<and> Prepare (working (\<lambda>_ _. 2 ^ 63)) pd = Inr pd'"
proof -
  let ?targets = "[(example_block, \<lparr>se_key = (\<lambda>_. ([7], [replicate 20 3])), se_txo = ([], [])\<rparr>)]"
  obtain pd results where pd: "PrehashData ?targets [] 0 2 = Inr (pd, results)"
    by (auto simp: PrehashData_def)
  have targets: "\<forall>t \<in> set ?targets. even_targets (snd t) \<and> 16 \<le> length (fst t)"
    by (simp add: even_targets_def example_block_def)
  have jobs: "mset [1, 0] = mset [0..<2]"
    by (simp add: upt_rec)
  have filters: "\<forall>g \<in> set ([] :: gcs list). gcs_inv g"
    by simp
  from jobs_in_any_order [OF pd targets filters jobs refl refl, of "\<lambda>_ _. 2 ^ 63"] pd show ?thesis
    by blast
qed

end
