(* ===== verification/Wallet_Messages.thy ===== *)
theory Wallet_Messages
  imports Wallet_Scan
begin

text \<open>
  The messages between the actors of one subchain (\<open>src/internal/blockchain/node/wallet/Types.hpp\<close>,
  \<open>src/blockchain/node/wallet/subchain/statemachine/Common.cpp\<close>). The body of a message begins with a frame for the kind of
  work; a message here is the kind and the other frames, so that \<open>body[k]\<close> is frame \<open>k - 1\<close> of the list. Numbers
  are copied into frames as they lie in memory, which is taken to be little-endian.
\<close>

section \<open>Messages\<close>

datatype subchain_work =
    ShutdownWork | FilterWork | MempoolWork | StartScanWork | PrepareReorgWork | UpdateWork | ProcessWork
  | WatchdogWork | WatchdogAckWork | ReprocessWork | RescanWork | DoRescanWork | FinishReorgWork | BlockWork
  | InitWork | KeyWork | PrepareShutdownWork | StateMachineWork

type_synonym job_message = "subchain_work \<times> view list"

text \<open>The kind of work is that of the actors of a subchain, or of any other actor.\<close>

definition body_size :: "'k \<times> view list \<Rightarrow> nat" where
  "body_size msg = Suc (length (snd msg))"

definition add_frame :: "view \<Rightarrow> job_message \<Rightarrow> job_message" where
  "add_frame f msg = (fst msg, snd msg @ [f])"

text \<open>An index beyond the end of a span is undefined behaviour; \<open>as\<close> throws at a frame of another size.\<close>

definition body_frame :: "'k \<times> view list \<Rightarrow> nat \<Rightarrow> view outcome" where
  "body_frame msg k = (if 0 < k \<and> k < body_size msg then Inr (snd msg ! (k - 1)) else Inl UndefinedBehaviour)"

definition frame_as :: "nat \<Rightarrow> view \<Rightarrow> 'a::len word outcome" where
  "frame_as n f = (if length f = n then Inr (le_value f) else Inl Terminated)"

definition height_of :: "64 word \<Rightarrow> int" where
  "height_of w = sint w"

definition height_frame :: "int \<Rightarrow> view" where
  "height_frame h = le_bytes 8 (word_of_int h :: 64 word)"

definition hash_of :: "view \<Rightarrow> view outcome" where
  "hash_of f = (if length f = 32 then Inr f else Inl Terminated)"

text \<open>A position that is sent as a frame for the height and a frame for the hash.\<close>

definition position_at :: "job_message \<Rightarrow> nat \<Rightarrow> block_position outcome" where
  "position_at msg k =
    bind_outcome (body_frame msg k) (\<lambda>f. bind_outcome (frame_as 8 f) (\<lambda>h.
    bind_outcome (body_frame msg (Suc k)) (\<lambda>g. bind_outcome (hash_of g) (\<lambda>hash.
      Inr (height_of h, hash)))))"

section \<open>Statuses of blocks\<close>

text \<open>A status that is read can have a byte that is none of the enumeration, and remains a byte here.\<close>

fun scan_state_byte :: "scan_state \<Rightarrow> 8 word" where
  "scan_state_byte ScanDirty = 0"
| "scan_state_byte ScanClean = 1"
| "scan_state_byte ScanProcessed = 2"
| "scan_state_byte RescanClean = 3"

definition encode_status :: "scan_status \<Rightarrow> view" where
  "encode_status status = scan_state_byte (fst status) # height_frame (fst (snd status)) @ snd (snd status)"

definition encode :: "scan_status list \<Rightarrow> job_message \<Rightarrow> job_message" where
  "encode statuses msg = fold (\<lambda>status. add_frame (encode_status status)) statuses msg"

definition decode_status :: "view \<Rightarrow> (8 word \<times> block_position) outcome" where
  "decode_status f =
    assert_that ''fixed < bytes'' (9 < length f)
    (assert_that ''41 == bytes'' (length f = 41)
      (bind_outcome (hash_of (drop 9 f)) (\<lambda>hash.
        Inr (f ! 0, (height_of (le_value (take 8 (drop 1 f))), hash)))))"

type_synonym statuses = "(8 word \<times> block_position) list \<times> block_position list"

definition decode_next :: "view \<Rightarrow> statuses \<Rightarrow> statuses outcome" where
  "decode_next f = (\<lambda>(clean, dirty).
    bind_outcome (decode_status f) (\<lambda>(type, position).
      Inr (if type = scan_state_byte ScanDirty then (clean, oset_put position dirty)
           else (oset_put (type, position) clean, dirty))))"

definition decode :: "job_message \<Rightarrow> statuses outcome" where
  "decode msg = assert_that ''2 < body.size()'' (2 < body_size msg) (fold_outcome decode_next (drop 1 (snd msg)) ([], []))"

definition extract_next :: "view \<Rightarrow> block_position list \<Rightarrow> block_position list outcome" where
  "extract_next f output =
    bind_outcome (decode_status f) (\<lambda>(type, position).
      Inr (if type \<noteq> scan_state_byte ScanDirty then output else output @ [position]))"

definition extract_dirty :: "job_message \<Rightarrow> block_position list outcome" where
  "extract_dirty msg =
    assert_that ''2 < body.size()'' (2 < body_size msg) (fold_outcome extract_next (drop 1 (snd msg)) [])"

section \<open>Facts\<close>

definition sendable :: "block_position \<Rightarrow> bool" where
  "sendable p \<longleftrightarrow> - (2 ^ 63) \<le> fst p \<and> fst p < 2 ^ 63 \<and> length (snd p) = 32"

lemma length_height_frame [simp]: "length (height_frame h) = 8"
  by (simp add: height_frame_def)

lemma height_of_frame: "- (2 ^ 63) \<le> h \<Longrightarrow> h < 2 ^ 63 \<Longrightarrow> height_of (le_value (height_frame h)) = h"
  by (simp add: height_of_def height_frame_def le_value_bytes take_bit_word_eq_self sint_sbintrunc' signed_take_bit_int_eq_self)

lemma position_frames:
  assumes "sendable p" "body_frame msg k = Inr (height_frame (fst p))" "body_frame msg (Suc k) = Inr (snd p)"
  shows "position_at msg k = Inr p"
  using assms by (simp add: position_at_def frame_as_def hash_of_def height_of_frame sendable_def)

lemma snd_encode [simp]: "fst (encode sts msg) = fst msg" "snd (encode sts msg) = snd msg @ map encode_status sts"
  unfolding encode_def by (induction sts arbitrary: msg) (simp_all add: add_frame_def)

lemma decode_encode_status:
  "sendable p \<Longrightarrow> decode_status (encode_status (s, p)) = Inr (scan_state_byte s, p)"
  by (simp add: decode_status_def encode_status_def sendable_def hash_of_def height_of_frame drop_Cons')

lemma scan_state_byte_inject [simp]: "scan_state_byte s = scan_state_byte s' \<longleftrightarrow> s = s'"
  by (cases s; cases s') simp_all

definition clean_of :: "scan_status list \<Rightarrow> (8 word \<times> block_position) set" where
  "clean_of sts = {(scan_state_byte s, p) | s p. (s, p) \<in> set sts \<and> s \<noteq> ScanDirty}"

definition dirty_of :: "scan_status list \<Rightarrow> block_position list" where
  "dirty_of sts = map snd (filter (\<lambda>st. fst st = ScanDirty) sts)"

lemma decode_statuses:
  assumes "\<forall>(s, p) \<in> set sts. sendable p"
  shows "fold_outcome decode_next (map encode_status sts) (clean, dirty)
    = Inr (fold oset_put (map (\<lambda>(s, p). (scan_state_byte s, p)) (filter (\<lambda>st. fst st \<noteq> ScanDirty) sts)) clean,
           fold oset_put (dirty_of sts) dirty)"
  using assms
proof (induction sts arbitrary: clean dirty)
  case (Cons st sts)
  obtain s p where st: "st = (s, p)"
    by (cases st)
  show ?case
    using Cons by (cases s) (simp_all add: st decode_encode_status dirty_of_def decode_next_def extract_next_def del: scan_state_byte.simps)
qed (simp add: dirty_of_def)

lemma extract_statuses:
  assumes "\<forall>(s, p) \<in> set sts. sendable p"
  shows "fold_outcome extract_next (map encode_status sts) out = Inr (out @ dirty_of sts)"
  using assms
proof (induction sts arbitrary: out)
  case (Cons st sts)
  obtain s p where st: "st = (s, p)"
    by (cases st)
  show ?case
    using Cons by (cases s) (simp_all add: st decode_encode_status dirty_of_def decode_next_def extract_next_def del: scan_state_byte.simps)
qed (simp add: dirty_of_def)

text \<open>What is read from an update that was made from statuses.\<close>

lemma decode_encode:
  assumes "\<forall>(s, p) \<in> set sts. sendable p" "sts \<noteq> []"
  shows "decode (encode sts (w, [epoch])) =
      Inr (fold oset_put (map (\<lambda>(s, p). (scan_state_byte s, p)) (filter (\<lambda>st. fst st \<noteq> ScanDirty) sts)) [],
           fold oset_put (dirty_of sts) [])"
    and "extract_dirty (encode sts (w, [epoch])) = Inr (dirty_of sts)"
  using assms decode_statuses [OF assms(1), of "[]" "[]"] extract_statuses [OF assms(1), of "[]"]
  by (simp_all add: decode_def extract_dirty_def body_size_def)

lemma set_clean_of:
  "(\<lambda>(s, p). (scan_state_byte s, p)) ` {st \<in> set sts. fst st \<noteq> ScanDirty} = clean_of sts"
  by (force simp: clean_of_def)

text \<open>
  C31. A list of statuses survives the way through a message: the receiver gets the clean statuses and the dirty positions as
  ordered sets, or the dirty positions in the order in which they were sent. A message without statuses ends the
  process.
\<close>

theorem status_message_roundtrip:
  assumes "\<forall>(s, p) \<in> set sts. sendable p"
  shows "(sts \<noteq> [] \<longrightarrow> (\<exists>clean dirty. decode (encode sts (w, [epoch])) = Inr (clean, dirty)
      \<and> sorted clean \<and> distinct clean \<and> set clean = {(scan_state_byte s, p) | s p. (s, p) \<in> set sts \<and> s \<noteq> ScanDirty}
      \<and> sorted dirty \<and> distinct dirty \<and> set dirty = {p. (ScanDirty, p) \<in> set sts})
      \<and> extract_dirty (encode sts (w, [epoch])) = Inr [p. (s, p) \<leftarrow> sts, s = ScanDirty])
    \<and> (sts = [] \<longrightarrow> aborts (decode (encode sts (w, [epoch]))) \<and> aborts (extract_dirty (encode sts (w, [epoch]))))"
proof (intro conjI impI)
  have "{p. (ScanDirty, p) \<in> set sts} = set (dirty_of sts)"
    by (force simp: dirty_of_def)
  then show "\<exists>clean dirty. decode (encode sts (w, [epoch])) = Inr (clean, dirty)
      \<and> sorted clean \<and> distinct clean \<and> set clean = {(scan_state_byte s, p) | s p. (s, p) \<in> set sts \<and> s \<noteq> ScanDirty}
      \<and> sorted dirty \<and> distinct dirty \<and> set dirty = {p. (ScanDirty, p) \<in> set sts}" if "sts \<noteq> []"
    unfolding clean_of_def [symmetric] using decode_encode(1) [OF assms that] by (simp add: set_clean_of)
  have "dirty_of sts = [p. (s, p) \<leftarrow> sts, s = ScanDirty]"
    by (induction sts) (auto simp: dirty_of_def)
  then show "extract_dirty (encode sts (w, [epoch])) = Inr [p. (s, p) \<leftarrow> sts, s = ScanDirty]" if "sts \<noteq> []"
    using decode_encode(2) [OF assms that] by simp
qed (simp_all add: decode_def extract_dirty_def body_size_def aborts_def)

lemma status_message_roundtrip_witness:
  "extract_dirty (encode [(ScanDirty, (5, replicate 32 1)), (ScanClean, null_position)] (UpdateWork, [[]]))
    = Inr [(5, replicate 32 1)]"
proof -
  have "\<forall>(s, p) \<in> set [(ScanDirty, (5, replicate 32 1)), (ScanClean, null_position)]. sendable p"
    by (simp add: sendable_def null_position_def)
  from status_message_roundtrip [OF this, of UpdateWork "[]"] show ?thesis
    by simp
qed

end
