(* ===== verification/Wallet_Actor.thy ===== *)
theory Wallet_Actor
  imports Wallet_Messages
begin

text \<open>
  What the five actors of a subchain have in common: the actor of \<open>src/util/Actor.hpp\<close> and
  \<open>src/blockchain/node/wallet/subchain/statemachine/Job.cpp\<close>, and the state that they share
  (\<open>SubchainStateData\<close>).
\<close>

section \<open>The shared state\<close>

record wallet_parent =
  wp_data :: subchain_data
  wp_scan_dirty :: bool
  wp_need_reorg :: bool
  wp_process_queue :: "64 word"
  wp_progress :: "block_position option"
  wp_rescan_pending :: bool
  wp_cached :: "block_position list" \<comment> \<open>blocks whose matches wait for the database\<close>
  wp_last_scanned :: block_position \<comment> \<open>in the database\<close>
  wp_last_indexed :: "bip32_index option" \<comment> \<open>in the database\<close>

definition scan_threshold :: int where
  "scan_threshold = 1000"

definition FinishRescan :: int where
  "FinishRescan = scan_threshold + int maximum_scan"

definition ReorgTarget :: "block_position \<Rightarrow> block_position \<Rightarrow> block_position" where
  "ReorgTarget reorg current = min current reorg"

record wallet_block =
  wb_hash :: view
  wb_txids :: "view list"

text \<open>
  The components outside of the subchain. \<open>ae_limited\<close> and \<open>ae_flush_due\<close> stand for the clock: whether a
  call of \<open>Actor_do_work\<close> (counted by \<open>jb_works\<close>) comes within the rate limit, and whether ten seconds have passed since the
  matches were written. \<open>ae_add_confirmed\<close> is the database: it returns the outputs that were created and consumed. The
  transactions that are not in a block are known by their ids: whether the mempool has one, whether it matches the elements, and the outputs it
  creates in the database.
\<close>

record actor_env =
  ae_scan :: scan_env
  ae_limited :: "nat \<Rightarrow> bool"
  ae_flush_due :: "nat \<Rightarrow> bool"
  ae_position :: "int \<Rightarrow> block_position"
  ae_filter_tip :: block_position
  ae_filter_type :: "32 word"
  ae_has_filter :: "view \<Rightarrow> bool"
  ae_header_position :: "view \<Rightarrow> block_position option"
  ae_parse_blocks :: "view list \<Rightarrow> wallet_block list option"
  ae_download_limit :: nat
  ae_add_confirmed :: "block_position list \<Rightarrow> ((outpoint \<times> txo) list \<times> outpoint list) option"
  ae_generated :: "bip32_index option"
  ae_patterns :: "bip32_index \<Rightarrow> view list"
  ae_store_elements :: "(bip32_index \<times> view list) list \<Rightarrow> bool"
  ae_store_scanned :: "block_position \<Rightarrow> bool"
  ae_own_key :: "view list \<Rightarrow> bool"
  ae_chain :: "32 word"
  ae_max_jobs :: nat
  ae_mempool :: "view list"
  ae_in_mempool :: "view \<Rightarrow> bool"
  ae_mempool_match :: "view \<Rightarrow> element_cache \<Rightarrow> bool"
  ae_add_mempool :: "view \<Rightarrow> (outpoint \<times> txo) list option"
  ae_reorg_stopped :: bool

section \<open>Actors\<close>

datatype job_state = JobNormal | JobReorg | JobPreShutdown | JobShutdown

datatype destination = ToSelf | ToParent | ToScan | ToProcess | ToIndex | ToRescan | ToProgress

datatype effect =
    Send destination job_message
  | RequestBlocks "view list"
  | StartJob block_position wallet_block
  | ReportScan block_position

record job =
  jb_init :: bool
  jb_queued :: bool
  jb_cache :: "job_message list"
  jb_state :: job_state
  jb_reorgs :: "64 word list"
  jb_works :: nat

definition new_job :: job where
  "new_job = \<lparr>jb_init = False, jb_queued = False, jb_cache = [], jb_state = JobNormal, jb_reorgs = [], jb_works = 0\<rparr>"

record 's actor =
  ac_job :: job
  ac_self :: 's
  ac_parent :: wallet_parent
  ac_effects :: "effect list"

definition emit :: "effect \<Rightarrow> 's actor \<Rightarrow> 's actor" where
  "emit e a = a\<lparr>ac_effects := ac_effects a @ [e]\<rparr>"

definition send_to :: "destination \<Rightarrow> job_message \<Rightarrow> 's actor \<Rightarrow> 's actor" where
  "send_to d msg = emit (Send d msg)"

definition set_job :: "(job \<Rightarrow> job) \<Rightarrow> 's actor \<Rightarrow> 's actor" where
  "set_job f a = a\<lparr>ac_job := f (ac_job a)\<rparr>"

definition set_self :: "('s \<Rightarrow> 's) \<Rightarrow> 's actor \<Rightarrow> 's actor" where
  "set_self f a = a\<lparr>ac_self := f (ac_self a)\<rparr>"

definition set_parent :: "(wallet_parent \<Rightarrow> wallet_parent) \<Rightarrow> 's actor \<Rightarrow> 's actor" where
  "set_parent f a = a\<lparr>ac_parent := f (ac_parent a)\<rparr>"

definition trigger :: "'s actor \<Rightarrow> 's actor" where
  "trigger a = (if jb_queued (ac_job a) then a
     else send_to ToSelf (StateMachineWork, []) (set_job (\<lambda>j. j\<lparr>jb_queued := True\<rparr>) a))"

definition defer_message :: "job_message \<Rightarrow> 's actor \<Rightarrow> 's actor" where
  "defer_message msg = set_job (\<lambda>j. j\<lparr>jb_cache := jb_cache j @ [msg]\<rparr>)"

text \<open>\<open>do_work\<close> runs the state machine, or asks a timer to do so.\<close>

definition Actor_do_work :: "actor_env \<Rightarrow> ('s actor \<Rightarrow> (bool \<times> 's actor) outcome) \<Rightarrow> 's actor \<Rightarrow> 's actor outcome" where
  "Actor_do_work env work a =
    (let n = jb_works (ac_job a); a = set_job (\<lambda>j. j\<lparr>jb_works := Suc n\<rparr>) a in
     if ae_limited env n then Inr (send_to ToSelf (StateMachineWork, []) a)
     else bind_outcome (work (set_job (\<lambda>j. j\<lparr>jb_queued := False\<rparr>) a)) (\<lambda>(again, a).
       Inr (if again then trigger a else a)))"

definition start_rescan :: "'s actor \<Rightarrow> 's actor" where
  "start_rescan = send_to ToScan (DoRescanWork, [])"

definition TriggerRescan :: "'s actor \<Rightarrow> 's actor" where
  "TriggerRescan a =
    (let pending = wp_rescan_pending (ac_parent a);
         a = set_parent (\<lambda>p. p\<lparr>wp_rescan_pending := True\<rparr>) a
     in if \<not> pending then start_rescan a else a)"

section \<open>Jobs\<close>

text \<open>The virtual functions of a job.\<close>

record 's job_class =
  jc_type :: "32 word"
  jc_startup :: "'s actor \<Rightarrow> 's actor outcome"
  jc_work :: "'s actor \<Rightarrow> (bool \<times> 's actor) outcome"
  jc_update :: "job_message \<Rightarrow> 's actor \<Rightarrow> 's actor outcome"
  jc_blocks :: "wallet_block list \<Rightarrow> 's actor \<Rightarrow> 's actor outcome"
  jc_filter :: "job_message \<Rightarrow> block_position \<Rightarrow> 's actor \<Rightarrow> 's actor outcome"
  jc_key :: "job_message \<Rightarrow> 's actor \<Rightarrow> 's actor outcome"
  jc_mempool :: "job_message \<Rightarrow> 's actor \<Rightarrow> 's actor outcome"
  jc_process :: "block_position \<Rightarrow> 's actor \<Rightarrow> 's actor outcome"
  jc_reprocess :: "job_message \<Rightarrow> 's actor \<Rightarrow> 's actor outcome"
  jc_start_scan :: "job_message \<Rightarrow> 's actor \<Rightarrow> 's actor outcome"
  jc_do_rescan :: "job_message \<Rightarrow> 's actor \<Rightarrow> 's actor outcome"
  jc_reorg :: "block_position \<Rightarrow> 's actor \<Rightarrow> (bool \<times> 's actor) outcome"

text \<open>What \<open>Job\<close> does where an actor has no function of its own.\<close>

definition unhandled :: "'s actor \<Rightarrow> 's actor outcome" where
  "unhandled a = Inl Unreachable"

definition last_reorg :: "'s actor \<Rightarrow> 64 word option" where
  "last_reorg a = (if jb_reorgs (ac_job a) = [] then None else Some (last (jb_reorgs (ac_job a))))"

definition add_last_reorg :: "'s actor \<Rightarrow> job_message \<Rightarrow> job_message" where
  "add_last_reorg a msg = add_frame (case last_reorg a of Some epoc \<Rightarrow> le_bytes 8 epoc | None \<Rightarrow> []) msg"

definition process_watchdog :: "32 word \<Rightarrow> 's actor \<Rightarrow> 's actor" where
  "process_watchdog type = send_to ToParent (WatchdogAckWork, [le_bytes 4 type])"

definition Job_work :: "32 word \<Rightarrow> 's actor \<Rightarrow> (bool \<times> 's actor) outcome" where
  "Job_work type a = Inr (False, process_watchdog type a)"

definition Job_do_reorg :: "block_position \<Rightarrow> 's actor \<Rightarrow> (bool \<times> 's actor) outcome" where
  "Job_do_reorg position a = Inr (True, a)"

text \<open>\<open>status_update\<close> is the message that tells the next actor about blocks.\<close>

definition status_update :: "subchain_work \<Rightarrow> scan_status list \<Rightarrow> 's actor \<Rightarrow> job_message" where
  "status_update w statuses a = encode statuses (add_last_reorg a (w, []))"

definition transition_state_normal :: "'s actor \<Rightarrow> 's actor" where
  "transition_state_normal a = trigger (set_job (\<lambda>j. j\<lparr>jb_state := JobNormal\<rparr>) a)"

definition transition_state_pre_shutdown :: "'s actor \<Rightarrow> 's actor" where
  "transition_state_pre_shutdown = set_job (\<lambda>j. j\<lparr>jb_state := JobPreShutdown\<rparr>)"

definition transition_state_reorg :: "64 word \<Rightarrow> 's actor \<Rightarrow> 's actor outcome" where
  "transition_state_reorg i a =
    assert_that ''0 < id'' (0 < i)
      (if i \<notin> set (jb_reorgs (ac_job a))
       then Inr (set_job (\<lambda>j. j\<lparr>jb_reorgs := oset_put i (jb_reorgs j), jb_state := JobReorg\<rparr>) a)
       else Inl Unreachable)"

definition process_prepare_reorg :: "job_message \<Rightarrow> 's actor \<Rightarrow> 's actor outcome" where
  "process_prepare_reorg msg a =
    assert_that ''1 < body.size()'' (1 < body_size msg)
      (bind_outcome (body_frame msg 1) (\<lambda>f. bind_outcome (frame_as 8 f) (\<lambda>i. transition_state_reorg i a)))"

definition process_block :: "actor_env \<Rightarrow> 's job_class \<Rightarrow> job_message \<Rightarrow> 's actor \<Rightarrow> 's actor outcome" where
  "process_block env cls msg a =
    assert_that ''1 < frames'' (1 < body_size msg)
      (case ae_parse_blocks env (snd msg) of
         None \<Rightarrow> Inl Unreachable
       | Some blocks \<Rightarrow> jc_blocks cls blocks a)"

definition process_filter :: "actor_env \<Rightarrow> 's job_class \<Rightarrow> job_message \<Rightarrow> 's actor \<Rightarrow> 's actor outcome" where
  "process_filter env cls msg a =
    assert_that ''3 < body.size()'' (3 < body_size msg)
      (bind_outcome (body_frame msg 1) (\<lambda>f. bind_outcome (frame_as 4 f) (\<lambda>type.
        if type \<noteq> ae_filter_type env then Inr a
        else bind_outcome (position_at msg 2) (\<lambda>position. jc_filter cls msg position a))))"

definition process_process :: "'s job_class \<Rightarrow> job_message \<Rightarrow> 's actor \<Rightarrow> 's actor outcome" where
  "process_process cls msg a =
    assert_that ''2 < body.size()'' (2 < body_size msg)
      (bind_outcome (position_at msg 1) (\<lambda>position. jc_process cls position a))"

text \<open>An update is stale unless it was sent in the epoch in which the receiver is.\<close>

definition process_update :: "'s job_class \<Rightarrow> job_message \<Rightarrow> 's actor \<Rightarrow> 's actor outcome" where
  "process_update cls msg a =
    assert_that ''1 < body.size()'' (1 < body_size msg)
      (bind_outcome (body_frame msg 1) (\<lambda>epoc.
        if length epoc = 0
        then (case last_reorg a of Some _ \<Rightarrow> Inr a | None \<Rightarrow> jc_update cls msg a)
        else (case last_reorg a of
            Some expected \<Rightarrow>
              bind_outcome (frame_as 8 epoc) (\<lambda>reorg. if reorg \<noteq> expected then Inr a else jc_update cls msg a)
          | None \<Rightarrow> Inr a)))"

definition state_normal :: "actor_env \<Rightarrow> 's job_class \<Rightarrow> job_message \<Rightarrow> 's actor \<Rightarrow> 's actor outcome" where
  "state_normal env cls msg a = (case fst msg of
     FilterWork \<Rightarrow> process_filter env cls msg a
   | MempoolWork \<Rightarrow> jc_mempool cls msg a
   | StartScanWork \<Rightarrow> jc_start_scan cls msg a
   | PrepareReorgWork \<Rightarrow> process_prepare_reorg msg a
   | UpdateWork \<Rightarrow> process_update cls msg a
   | ProcessWork \<Rightarrow> process_process cls msg a
   | RescanWork \<Rightarrow> Inr a
   | DoRescanWork \<Rightarrow> jc_do_rescan cls msg a
   | WatchdogWork \<Rightarrow> Inr (process_watchdog (jc_type cls) a)
   | ReprocessWork \<Rightarrow> jc_reprocess cls msg a
   | BlockWork \<Rightarrow> process_block env cls msg a
   | KeyWork \<Rightarrow> jc_key cls msg a
   | PrepareShutdownWork \<Rightarrow> Inr (transition_state_pre_shutdown a)
   | _ \<Rightarrow> Inl Unreachable)"

definition state_pre_shutdown :: "job_message \<Rightarrow> 's actor \<Rightarrow> 's actor outcome" where
  "state_pre_shutdown msg a =
    (if fst msg \<in> {FilterWork, MempoolWork, StartScanWork, UpdateWork, ProcessWork, RescanWork, DoRescanWork,
         WatchdogWork, ReprocessWork, BlockWork, KeyWork}
     then Inr a else Inl Unreachable)"

definition state_reorg :: "'s job_class \<Rightarrow> job_message \<Rightarrow> 's actor \<Rightarrow> 's actor outcome" where
  "state_reorg cls msg a =
    (if fst msg \<in> {FilterWork, UpdateWork} then Inr a
     else if fst msg \<in> {MempoolWork, StartScanWork, PrepareReorgWork, ProcessWork, ReprocessWork, RescanWork,
         DoRescanWork, BlockWork, KeyWork} then Inr (defer_message msg a)
     else if fst msg = FinishReorgWork then Inr (transition_state_normal a)
     else if fst msg = WatchdogWork then Inr (process_watchdog (jc_type cls) a)
     else Inl Unreachable)"

definition Job_pipeline :: "actor_env \<Rightarrow> 's job_class \<Rightarrow> job_message \<Rightarrow> 's actor \<Rightarrow> 's actor outcome" where
  "Job_pipeline env cls msg a =
    bind_outcome
      (case jb_state (ac_job a) of
         JobNormal \<Rightarrow> state_normal env cls msg a
       | JobReorg \<Rightarrow> state_reorg cls msg a
       | JobPreShutdown \<Rightarrow> state_pre_shutdown msg a
       | JobShutdown \<Rightarrow> Inr a)
      (\<lambda>a. Inr (process_watchdog (jc_type cls) a))"

section \<open>The life of an actor\<close>

definition do_shutdown :: "'s actor \<Rightarrow> 's actor" where
  "do_shutdown = set_job (\<lambda>j. j\<lparr>jb_state := JobShutdown\<rparr>)"

text \<open>A message after the start. The pipeline is closed by the shutdown, after which no message arrives.\<close>

definition handle_ready :: "actor_env \<Rightarrow> 's job_class \<Rightarrow> job_message \<Rightarrow> 's actor \<Rightarrow> 's actor outcome" where
  "handle_ready env cls msg a = (case fst msg of
     ShutdownWork \<Rightarrow> Inr (do_shutdown a)
   | StateMachineWork \<Rightarrow> Actor_do_work env (jc_work cls) a
   | _ \<Rightarrow> Job_pipeline env cls msg a)"

definition flush_cache :: "actor_env \<Rightarrow> 's job_class \<Rightarrow> 's actor \<Rightarrow> 's actor outcome" where
  "flush_cache env cls a =
    fold_outcome (\<lambda>msg a. handle_ready env cls msg (set_job (\<lambda>j. j\<lparr>jb_cache := tl (jb_cache j)\<rparr>) a))
      (jb_cache (ac_job a)) a"

definition do_startup :: "actor_env \<Rightarrow> 's job_class \<Rightarrow> 's actor \<Rightarrow> (bool \<times> 's actor) outcome" where
  "do_startup env cls a =
    (if ae_reorg_stopped env then Inr (True, a)
     else bind_outcome (jc_startup cls a) (\<lambda>a. Inr (False, a)))"

definition do_init :: "actor_env \<Rightarrow> 's job_class \<Rightarrow> 's actor \<Rightarrow> 's actor outcome" where
  "do_init env cls a =
    bind_outcome (do_startup env cls a) (\<lambda>(shutdown, a).
      let a = set_job (\<lambda>j. j\<lparr>jb_init := True\<rparr>) a in
      if shutdown then Inr (do_shutdown a) else flush_cache env cls a)"

text \<open>A message before the start is dropped: no job names work that must not be.\<close>

definition worker :: "actor_env \<Rightarrow> 's job_class \<Rightarrow> job_message \<Rightarrow> 's actor \<Rightarrow> 's actor outcome" where
  "worker env cls msg a =
    (if jb_state (ac_job a) = JobShutdown then Inr a
     else if \<not> jb_init (ac_job a) then
       (if fst msg = InitWork then bind_outcome (do_init env cls a) (flush_cache env cls) else Inr a)
     else bind_outcome (flush_cache env cls a) (handle_ready env cls msg))"

text \<open>The reorganisation itself: the master calls the function that the job handed over, while the job waits.\<close>

definition run_reorg :: "'s job_class \<Rightarrow> block_position \<Rightarrow> 's actor \<Rightarrow> (bool \<times> 's actor) outcome" where
  "run_reorg cls position a = jc_reorg cls position a"

text \<open>
  What may happen to an actor: messages arrive, the chain is reorganised while the actor waits for it, and the other actors
  and the account change the state that all of them share. What it asks of the oracles, the database and the clock can
  be answered differently at every step; \<open>ok\<close> is what is known of all answers.
\<close>

inductive job_steps :: "(actor_env \<Rightarrow> bool) \<Rightarrow> (actor_env \<Rightarrow> 's job_class) \<Rightarrow> 's actor \<Rightarrow> 's actor \<Rightarrow> bool"
  for ok cls a where
  Begin: "job_steps ok cls a a"
| Message: "job_steps ok cls a b \<Longrightarrow> ok env \<Longrightarrow> worker env (cls env) msg b = Inr c \<Longrightarrow> job_steps ok cls a c"
| Reorganise: "job_steps ok cls a b \<Longrightarrow> ok env \<Longrightarrow> jb_init (ac_job b) \<Longrightarrow> jb_state (ac_job b) = JobReorg \<Longrightarrow>
    run_reorg (cls env) position b = Inr (r, c) \<Longrightarrow> job_steps ok cls a c"
| Others: "job_steps ok cls a b \<Longrightarrow> job_steps ok cls a (set_parent f b)"

text \<open>An actor as its constructor leaves it.\<close>

definition new_actor :: "'s \<Rightarrow> wallet_parent \<Rightarrow> 's actor" where
  "new_actor s p = \<lparr>ac_job = new_job, ac_self = s, ac_parent = p, ac_effects = []\<rparr>"

end
