(* ===== verification/Wallet_Process.thy ===== *)
theory Wallet_Process
  imports Wallet_Actor
begin

text \<open>
  The actor \<open>Process\<close> (\<open>src/blockchain/node/wallet/subchain/statemachine/Process.cpp\<close>), which downloads
  the dirty blocks and has them processed by jobs, one at a time, and the cache of matches that wait for the database
  (\<open>src/blockchain/node/wallet/subchain/DeterministicStateData.cpp\<close>). What a block contains is not modelled: the
  matches found in a block are named by its position. A job runs in another thread; its steps are functions here, and may come
  at any time.
\<close>

section \<open>State\<close>

text \<open>
  \<open>pa_downloading\<close> is an ordered set, and \<open>pa_downloading_index\<close> maps hashes to iterators into it, which are given by
  the position they point to. The counter \<open>running_\<close> is the number of the jobs, each with whether it has pushed its result.
\<close>

record process_actor =
  pa_waiting :: "block_position list"
  pa_downloading :: "block_position list"
  pa_downloading_index :: "view \<Rightarrow> block_position option"
  pa_ready :: "(block_position \<times> wallet_block) list"
  pa_processing :: "(block_position \<times> wallet_block) list"
  pa_txids :: "view set"
  pa_running :: "((block_position \<times> wallet_block) \<times> bool) list"

definition new_process :: process_actor where
  "new_process = \<lparr>pa_waiting = [], pa_downloading = [], pa_downloading_index = (\<lambda>_. None), pa_ready = [], pa_processing = [],
     pa_txids = {}, pa_running = []\<rparr>"

definition active :: "process_actor \<Rightarrow> nat" where
  "active s = length (pa_waiting s) + length (pa_downloading s) + length (pa_ready s) + length (pa_processing s)"

definition add_process_queue :: "64 word \<Rightarrow> process_actor actor \<Rightarrow> process_actor actor" where
  "add_process_queue n = set_parent (\<lambda>p. p\<lparr>wp_process_queue := wp_process_queue p + n\<rparr>)"

section \<open>The cache of matches\<close>

definition set_elements :: "(element_cache \<Rightarrow> element_cache) \<Rightarrow> 's actor \<Rightarrow> 's actor" where
  "set_elements f = set_parent (\<lambda>p. p\<lparr>wp_data := (wp_data p)\<lparr>sd_elements := f (sd_elements (wp_data p))\<rparr>\<rparr>)"

definition set_cached :: "(block_position list \<Rightarrow> block_position list) \<Rightarrow> 's actor \<Rightarrow> 's actor" where
  "set_cached f = set_parent (\<lambda>p. p\<lparr>wp_cached := f (wp_cached p)\<rparr>)"

text \<open>The database takes the matches over, whether it succeeds or not.\<close>

definition flush_matches ::
  "actor_env \<Rightarrow> (block_position list \<Rightarrow> 's actor \<Rightarrow> 's actor) \<Rightarrow> 's actor \<Rightarrow> bool \<times> 's actor" where
  "flush_matches env cb a =
    (let positions = wp_cached (ac_parent a) in
     if positions \<noteq> [] then
       (case ae_add_confirmed env positions of
          None \<Rightarrow> (False, set_cached (\<lambda>_. []) a)
        | Some (created, consumed) \<Rightarrow>
            (True, cb positions (set_elements (ElementCache_Add_consumed consumed created) (set_cached (\<lambda>_. []) a))))
     else (True, a))"

definition CheckCache ::
  "actor_env \<Rightarrow> nat \<Rightarrow> (block_position list \<Rightarrow> 's actor \<Rightarrow> 's actor) \<Rightarrow> 's actor \<Rightarrow> 's actor" where
  "CheckCache env outstanding cb a =
    (if outstanding = 0 \<or> ae_flush_due env (jb_works (ac_job a)) then
       let (ok, a) = flush_matches env cb a in if \<not> ok then TriggerRescan a else a
     else a)"

definition handle_block_matches :: "block_position \<Rightarrow> wallet_block \<Rightarrow> 's actor \<Rightarrow> 's actor outcome" where
  "handle_block_matches position block a =
    assert_that ''position.hash_ == block.ID()'' (snd position = wb_hash block) (Inr (set_cached (oset_put position) a))"

definition ProcessBlock :: "actor_env \<Rightarrow> block_position \<Rightarrow> wallet_block \<Rightarrow> 's actor \<Rightarrow> 's actor outcome" where
  "ProcessBlock env position block a =
    assert_that ''cfilter.IsValid()'' (ae_has_filter env (snd position))
    (assert_that ''header.IsValid()'' (ae_header_position env (snd position) \<noteq> None)
      (assert_that ''position == header.Position()'' (ae_header_position env (snd position) = Some position)
        (handle_block_matches position block a)))"

text \<open>A transaction that is not in a block.\<close>

definition handle_mempool_match :: "actor_env \<Rightarrow> view \<Rightarrow> 's actor \<Rightarrow> 's actor outcome" where
  "handle_mempool_match env txid a = (case ae_add_mempool env txid of
     None \<Rightarrow> Inl (AssertFailed ''updated'')
   | Some created \<Rightarrow> Inr (set_elements (ElementCache_Add_txos created) a))"

definition ProcessTransaction :: "actor_env \<Rightarrow> view \<Rightarrow> 's actor \<Rightarrow> 's actor outcome" where
  "ProcessTransaction env txid a =
    (if \<not> ae_mempool_match env txid (sd_elements (wp_data (ac_parent a))) then Inr a else handle_mempool_match env txid a)"

section \<open>The state machine\<close>

definition report_processed :: "block_position list \<Rightarrow> process_actor actor \<Rightarrow> process_actor actor" where
  "report_processed positions a =
    (if positions = [] then a else send_to ToIndex (status_update UpdateWork (map (Pair ScanProcessed) positions) a) a)"

definition check_cache :: "actor_env \<Rightarrow> process_actor actor \<Rightarrow> process_actor actor" where
  "check_cache env a =
    (let s = ac_self a; queue = length (pa_waiting s) + length (pa_downloading s) + length (pa_ready s)
     in CheckCache env queue report_processed a)"

text \<open>The request is sent even if there is nothing to ask for.\<close>

definition download_one :: "block_position \<Rightarrow> process_actor \<Rightarrow> process_actor" where
  "download_one position s = s\<lparr>
     pa_downloading := oset_put position (pa_downloading s),
     pa_downloading_index := (case pa_downloading_index s (snd position) of
        None \<Rightarrow> (pa_downloading_index s)(snd position \<mapsto> position)
      | Some _ \<Rightarrow> pa_downloading_index s)\<rparr>"

definition download :: "block_position list \<Rightarrow> process_actor actor \<Rightarrow> process_actor actor" where
  "download blocks a = emit (RequestBlocks (map snd blocks)) (set_self (fold download_one blocks) a)"

definition queue_downloads :: "actor_env \<Rightarrow> process_actor actor \<Rightarrow> process_actor actor" where
  "queue_downloads env a =
    (let s = ac_self a; d = length (pa_downloading s);
         count = min (length (pa_waiting s)) (max (ae_download_limit env) d - d)
     in download (take count (pa_waiting s)) (set_self (\<lambda>s. s\<lparr>pa_waiting := drop count (pa_waiting s)\<rparr>) a))"

definition start_job :: "block_position \<times> wallet_block \<Rightarrow> process_actor actor \<Rightarrow> process_actor actor" where
  "start_job job a = emit (StartJob (fst job) (snd job))
    (set_self (\<lambda>s. s\<lparr>
       pa_ready := tl (pa_ready s),
       pa_processing := omap_emplace (fst job) (snd job) (pa_processing s),
       pa_running := pa_running s @ [(job, False)]\<rparr>) a)"

text \<open>The loop over the ready blocks, with the counter of the calls of \<open>CanProcess\<close>.\<close>

fun start_jobs ::
  "actor_env \<Rightarrow> nat \<Rightarrow> (block_position \<times> wallet_block) list \<Rightarrow> process_actor actor \<Rightarrow> process_actor actor" where
  "start_jobs env counter [] a = a"
| "start_jobs env counter (job # ready) a =
    (if Suc counter \<le> ae_max_jobs env \<and> length (pa_processing (ac_self a)) < 1
        \<and> \<not> ae_max_jobs env \<le> length (pa_running (ac_self a))
     then start_jobs env (Suc counter) ready (start_job job a) else a)"

definition queue_process :: "actor_env \<Rightarrow> process_actor actor \<Rightarrow> bool \<times> process_actor actor" where
  "queue_process env a = (let a = start_jobs env 0 (pa_ready (ac_self a)) a in (pa_ready (ac_self a) \<noteq> [], a))"

definition Process_work :: "actor_env \<Rightarrow> process_actor actor \<Rightarrow> (bool \<times> process_actor actor) outcome" where
  "Process_work env a =
    (if jb_state (ac_job a) = JobReorg then Inr (False, a)
     else bind_outcome (Job_work 1 (queue_downloads env (check_cache env a))) (\<lambda>(again, a).
       if again then Inr (True, a) else Inr (queue_process env a)))"

section \<open>Messages\<close>

definition Process_do_process_update :: "actor_env \<Rightarrow> job_message \<Rightarrow> process_actor actor \<Rightarrow> process_actor actor outcome" where
  "Process_do_process_update env msg a =
    bind_outcome (extract_dirty msg) (\<lambda>dirty.
      let a = add_process_queue (of_nat (length dirty)) a;
          a = set_self (\<lambda>s. s\<lparr>pa_waiting := pa_waiting s @ dirty\<rparr>) a
      in Actor_do_work env (Process_work env) (send_to ToIndex msg a))"

definition forget_downloads :: "block_position list \<Rightarrow> process_actor \<Rightarrow> process_actor" where
  "forget_downloads gone s = s\<lparr>
     pa_downloading := filter (\<lambda>p. p \<notin> set gone) (pa_downloading s),
     pa_downloading_index := (\<lambda>h. if h \<in> snd ` set gone then None else pa_downloading_index s h)\<rparr>"

definition Process_do_reorg :: "block_position \<Rightarrow> process_actor actor \<Rightarrow> (bool \<times> process_actor actor) outcome" where
  "Process_do_reorg target a =
    (if \<not> wp_need_reorg (ac_parent a) then Inr (True, a)
     else
       let kept = (\<lambda>p. \<not> IsReplacedBy p target);
           a = set_self (\<lambda>s. forget_downloads (dropWhile kept (pa_downloading s)) (s\<lparr>
             pa_txids := {},
             pa_waiting := filter kept (pa_waiting s),
             pa_ready := takeWhile (\<lambda>(p, _). kept p) (pa_ready s),
             pa_processing := takeWhile (\<lambda>(p, _). kept p) (pa_processing s)\<rparr>)) a
       in Job_do_reorg target (set_parent (\<lambda>p. p\<lparr>wp_process_queue := of_nat (active (ac_self a))\<rparr>) a))"

definition Process_startup :: "actor_env \<Rightarrow> process_actor actor \<Rightarrow> process_actor actor outcome" where
  "Process_startup env a = Actor_do_work env (Process_work env) a"

text \<open>A block that was asked for. To follow an iterator to an element that was erased is undefined behaviour.\<close>

definition receive_block :: "wallet_block \<Rightarrow> process_actor \<Rightarrow> process_actor outcome" where
  "receive_block block s = (case pa_downloading_index s (wb_hash block) of
     None \<Rightarrow> Inr s
   | Some position \<Rightarrow>
       if position \<notin> set (pa_downloading s) then Inl UndefinedBehaviour
       else Inr (s\<lparr>
         pa_txids := pa_txids s \<union> set (wb_txids block),
         pa_ready := omap_emplace position block (pa_ready s),
         pa_downloading := oset_del position (pa_downloading s),
         pa_downloading_index := (pa_downloading_index s)(wb_hash block := None)\<rparr>))"

definition Process_blocks :: "actor_env \<Rightarrow> wallet_block list \<Rightarrow> process_actor actor \<Rightarrow> process_actor actor outcome" where
  "Process_blocks env blocks a =
    bind_outcome (fold_outcome receive_block blocks (ac_self a)) (\<lambda>s.
      Actor_do_work env (Process_work env) (set_self (\<lambda>_. s) a))"

definition Process_do_rescan :: "job_message \<Rightarrow> process_actor actor \<Rightarrow> process_actor actor outcome" where
  "Process_do_rescan msg a =
    Inr (send_to ToIndex msg
      (set_parent (\<lambda>p. p\<lparr>wp_process_queue := 0\<rparr>)
        (set_self (\<lambda>s. new_process\<lparr>pa_running := pa_running s\<rparr>) a)))"

definition Process_filter ::
  "job_message \<Rightarrow> block_position \<Rightarrow> process_actor actor \<Rightarrow> process_actor actor outcome" where
  "Process_filter msg tip a = Inr (send_to ToIndex msg a)"

definition Process_mempool :: "actor_env \<Rightarrow> job_message \<Rightarrow> process_actor actor \<Rightarrow> process_actor actor outcome" where
  "Process_mempool env msg a =
    bind_outcome (body_frame msg 1) (\<lambda>f. bind_outcome (frame_as 4 f) (\<lambda>chain.
      if ae_chain env \<noteq> chain then Inr a
      else bind_outcome (body_frame msg 2) (\<lambda>g. bind_outcome (hash_of g) (\<lambda>txid.
        if txid \<in> pa_txids (ac_self a) then Inr a
        else if ae_in_mempool env txid then ProcessTransaction env txid a else Inr a))))"

definition Process_process :: "actor_env \<Rightarrow> block_position \<Rightarrow> process_actor actor \<Rightarrow> process_actor actor outcome" where
  "Process_process env pos a =
    Actor_do_work env (Process_work env)
      (if map_of (pa_processing (ac_self a)) pos = None then a
       else set_self (\<lambda>s. s\<lparr>pa_processing := omap_del pos (pa_processing s)\<rparr>) (add_process_queue (- 1) a))"

definition Process_reprocess :: "actor_env \<Rightarrow> job_message \<Rightarrow> process_actor actor \<Rightarrow> process_actor actor outcome" where
  "Process_reprocess env msg a =
    bind_outcome (extract_dirty msg) (\<lambda>dirty.
      Actor_do_work env (Process_work env) (download dirty (add_process_queue (of_nat (length dirty)) a)))"

definition Process_class :: "actor_env \<Rightarrow> process_actor job_class" where
  "Process_class env = \<lparr>
    jc_type = 1, jc_startup = Process_startup env, jc_work = Process_work env, jc_update = Process_do_process_update env,
    jc_blocks = Process_blocks env, jc_filter = Process_filter, jc_key = (\<lambda>_. unhandled),
    jc_mempool = Process_mempool env, jc_process = Process_process env, jc_reprocess = Process_reprocess env,
    jc_start_scan = (\<lambda>_. unhandled), jc_do_rescan = Process_do_rescan, jc_reorg = Process_do_reorg\<rparr>"

section \<open>The jobs\<close>

text \<open>A job processes its block and pushes the message that it has; later it is destroyed, and no longer counted.\<close>

definition do_process :: "actor_env \<Rightarrow> block_position \<Rightarrow> wallet_block \<Rightarrow> process_actor actor \<Rightarrow> process_actor actor outcome" where
  "do_process env position block a =
    bind_outcome (ProcessBlock env position block a) (\<lambda>a.
      Inr (send_to ToSelf (ProcessWork, [height_frame (fst position), snd position]) a))"

definition run_job :: "actor_env \<Rightarrow> nat \<Rightarrow> process_actor actor \<Rightarrow> process_actor actor outcome" where
  "run_job env k a =
    (let jobs = pa_running (ac_self a) in
     if k < length jobs \<and> \<not> snd (jobs ! k) then
       bind_outcome (do_process env (fst (fst (jobs ! k))) (snd (fst (jobs ! k))) a) (\<lambda>a.
         Inr (set_self (\<lambda>s. s\<lparr>pa_running := (pa_running s)[k := (fst (jobs ! k), True)]\<rparr>) a))
     else Inr a)"

definition end_job :: "nat \<Rightarrow> process_actor actor \<Rightarrow> process_actor actor" where
  "end_job k a =
    (let jobs = pa_running (ac_self a) in
     if k < length jobs \<and> snd (jobs ! k)
     then set_self (\<lambda>s. s\<lparr>pa_running := take k (pa_running s) @ drop (Suc k) (pa_running s)\<rparr>) a else a)"

text \<open>
  A run of the actor and its jobs. The matches that wait are changed by nobody else. What the actor and the jobs ask of
  the oracles and the database can be answered differently at every step, as long as \<open>ok\<close> holds. \<open>h\<close> bounds the
  reorganisations from below: their targets are above it.
\<close>

inductive process_steps :: "(actor_env \<Rightarrow> bool) \<Rightarrow> int \<Rightarrow> process_actor actor \<Rightarrow> process_actor actor \<Rightarrow> bool"
  for ok h a where
  Begin: "process_steps ok h a a"
| Message: "process_steps ok h a b \<Longrightarrow> ok env \<Longrightarrow> worker env (Process_class env) msg b = Inr c \<Longrightarrow> process_steps ok h a c"
| Reorganise: "process_steps ok h a b \<Longrightarrow> ok env \<Longrightarrow> jb_init (ac_job b) \<Longrightarrow> jb_state (ac_job b) = JobReorg \<Longrightarrow>
    h < fst position \<Longrightarrow> run_reorg (Process_class env) position b = Inr (r, c) \<Longrightarrow> process_steps ok h a c"
| Others: "process_steps ok h a b \<Longrightarrow> (\<And>p. wp_cached (f p) = wp_cached p) \<Longrightarrow> process_steps ok h a (set_parent f b)"
| Run: "process_steps ok h a b \<Longrightarrow> ok env \<Longrightarrow> run_job env k b = Inr c \<Longrightarrow> process_steps ok h a c"
| Finish: "process_steps ok h a b \<Longrightarrow> process_steps ok h a (end_job k b)"

text \<open>The database of the outputs takes what it is given.\<close>

definition database_ok :: "actor_env \<Rightarrow> bool" where
  "database_ok env \<longleftrightarrow> (\<forall>positions. ae_add_confirmed env positions \<noteq> None)"

end
