(* ===== verification/Wallet_Actor_Facts.thy ===== *)
theory Wallet_Actor_Facts
  imports Wallet_Actor
begin

text \<open>
  What every actor does with its parts, and the interface \<open>job_invariant\<close>: what each virtual function of a job
  keeps, the actor keeps.
\<close>

lemma emit_simps [simp]:
  "ac_job (emit e a) = ac_job a" "ac_self (emit e a) = ac_self a" "ac_parent (emit e a) = ac_parent a"
  "ac_effects (emit e a) = ac_effects a @ [e]"
  by (simp_all add: emit_def)

lemma send_to_simps [simp]:
  "ac_job (send_to d msg a) = ac_job a" "ac_self (send_to d msg a) = ac_self a" "ac_parent (send_to d msg a) = ac_parent a"
  "ac_effects (send_to d msg a) = ac_effects a @ [Send d msg]"
  by (simp_all add: send_to_def)

lemma set_job_simps [simp]:
  "ac_job (set_job f a) = f (ac_job a)" "ac_self (set_job f a) = ac_self a" "ac_parent (set_job f a) = ac_parent a"
  "ac_effects (set_job f a) = ac_effects a"
  by (simp_all add: set_job_def)

lemma set_self_simps [simp]:
  "ac_job (set_self g a) = ac_job a" "ac_self (set_self g a) = g (ac_self a)" "ac_parent (set_self g a) = ac_parent a"
  "ac_effects (set_self g a) = ac_effects a"
  by (simp_all add: set_self_def)

lemma set_parent_simps [simp]:
  "ac_job (set_parent h a) = ac_job a" "ac_self (set_parent h a) = ac_self a" "ac_parent (set_parent h a) = h (ac_parent a)"
  "ac_effects (set_parent h a) = ac_effects a"
  by (simp_all add: set_parent_def)

lemma trigger_simps [simp]: "ac_self (trigger a) = ac_self a" "ac_parent (trigger a) = ac_parent a"
  by (simp_all add: trigger_def)

lemma process_watchdog_simps [simp]:
  "ac_job (process_watchdog t a) = ac_job a" "ac_self (process_watchdog t a) = ac_self a"
  "ac_parent (process_watchdog t a) = ac_parent a"
  "ac_effects (process_watchdog t a) = ac_effects a @ [Send ToParent (WatchdogAckWork, [le_bytes 4 t])]"
  by (simp_all add: process_watchdog_def)

lemma TriggerRescan_simps [simp]:
  "ac_job (TriggerRescan a) = ac_job a" "ac_self (TriggerRescan a) = ac_self a"
  "ac_parent (TriggerRescan a) = (ac_parent a)\<lparr>wp_rescan_pending := True\<rparr>"
  by (simp_all add: TriggerRescan_def start_rescan_def Let_def)

lemma transition_simps [simp]:
  "ac_self (transition_state_normal a) = ac_self a" "ac_parent (transition_state_normal a) = ac_parent a"
  "ac_self (transition_state_pre_shutdown a) = ac_self a" "ac_parent (transition_state_pre_shutdown a) = ac_parent a"
  "ac_self (defer_message msg a) = ac_self a" "ac_parent (defer_message msg a) = ac_parent a"
  "ac_self (do_shutdown a) = ac_self a" "ac_parent (do_shutdown a) = ac_parent a"
  by (simp_all add: transition_state_normal_def transition_state_pre_shutdown_def defer_message_def do_shutdown_def)

section \<open>Invariants\<close>

text \<open>An invariant speaks of the state of the job, of the shared state and of what was sent to the actor \<open>Index\<close>.\<close>

definition is_told :: "effect \<Rightarrow> bool" where
  "is_told e = (case e of Send d _ \<Rightarrow> d = ToIndex | _ \<Rightarrow> False)"

lemma is_told_simps [simp]:
  "is_told (Send d msg) = (d = ToIndex)" "\<not> is_told (RequestBlocks hs)" "\<not> is_told (StartJob p b)" "\<not> is_told (ReportScan p)"
  by (simp_all add: is_told_def)

definition told :: "'s actor \<Rightarrow> effect list" where
  "told a = filter is_told (ac_effects a)"

lemma told_simps [simp]:
  "told (emit e a) = (if is_told e then told a @ [e] else told a)"
  "told (send_to d msg a) = (if d = ToIndex then told a @ [Send d msg] else told a)"
  "told (set_job f a) = told a" "told (set_self g a) = told a" "told (set_parent h a) = told a"
  "told (trigger a) = told a" "told (process_watchdog t a) = told a" "told (TriggerRescan a) = told a"
  "told (transition_state_normal a) = told a" "told (transition_state_pre_shutdown a) = told a"
  "told (defer_message msg a) = told a" "told (do_shutdown a) = told a"
  by (simp_all add: told_def trigger_def TriggerRescan_def start_rescan_def Let_def transition_state_normal_def
      transition_state_pre_shutdown_def defer_message_def do_shutdown_def)

type_synonym 's job_predicate = "'s \<Rightarrow> wallet_parent \<Rightarrow> effect list \<Rightarrow> bool"

definition holds :: "'s job_predicate \<Rightarrow> 's actor \<Rightarrow> bool" where
  "holds I a \<longleftrightarrow> jb_init (ac_job a) \<and> I (ac_self a) (ac_parent a) (told a)"

lemma holds_set_job [simp]: "jb_init (f (ac_job a)) = jb_init (ac_job a) \<Longrightarrow> holds I (set_job f a) = holds I a"
  by (simp add: holds_def)

lemma holds_simps [simp]:
  "\<not> is_told e \<Longrightarrow> holds I (emit e a) = holds I a" "d \<noteq> ToIndex \<Longrightarrow> holds I (send_to d msg a) = holds I a"
  "holds I (trigger a) = holds I a" "holds I (process_watchdog t a) = holds I a"
  "holds I (transition_state_normal a) = holds I a" "holds I (transition_state_pre_shutdown a) = holds I a"
  "holds I (defer_message msg a) = holds I a" "holds I (do_shutdown a) = holds I a"
  by (simp_all add: holds_def) (simp_all add: trigger_def transition_state_normal_def transition_state_pre_shutdown_def
      defer_message_def do_shutdown_def)

text \<open>
  An actor that was started satisfies the invariant, one that was not the condition on its first state. Before the start
  nothing is deferred, because messages are dropped.
\<close>

definition alive :: "'s job_predicate \<Rightarrow> 's job_predicate \<Rightarrow> 's actor \<Rightarrow> bool" where
  "alive I0 I a \<longleftrightarrow> jb_state (ac_job a) = JobShutdown \<or>
    (if jb_init (ac_job a) then holds I a else I0 (ac_self a) (ac_parent a) (told a) \<and> jb_cache (ac_job a) = [])"

definition keeps :: "'s job_predicate \<Rightarrow> ('s actor \<Rightarrow> 's actor outcome) \<Rightarrow> bool" where
  "keeps I f \<longleftrightarrow> (\<forall>a a'. holds I a \<longrightarrow> f a = Inr a' \<longrightarrow> holds I a')"

definition keeps_with :: "'s job_predicate \<Rightarrow> ('s actor \<Rightarrow> ('r \<times> 's actor) outcome) \<Rightarrow> bool" where
  "keeps_with I f \<longleftrightarrow>
    (\<forall>a r a'. holds I a \<longrightarrow> f a = Inr (r, a') \<longrightarrow> holds I a')"

lemma keepsI: "(\<And>a a'. holds I a \<Longrightarrow> f a = Inr a' \<Longrightarrow> holds I a') \<Longrightarrow> keeps I f"
  by (simp add: keeps_def)

lemma keepsD: "keeps I f \<Longrightarrow> holds I a \<Longrightarrow> f a = Inr a' \<Longrightarrow> holds I a'"
  by (simp add: keeps_def)

lemma keeps_withI:
  "(\<And>a r a'. holds I a \<Longrightarrow> f a = Inr (r, a') \<Longrightarrow> holds I a') \<Longrightarrow> keeps_with I f"
  by (simp add: keeps_with_def)

lemma keeps_withD:
  "keeps_with I f \<Longrightarrow> holds I a \<Longrightarrow> f a = Inr (r, a') \<Longrightarrow> holds I a'"
  by (simp add: keeps_with_def)

lemma keeps_unhandled [simp]: "keeps I unhandled"
  by (simp add: keeps_def unhandled_def)

lemma keeps_Inr [simp]: "keeps I Inr"
  by (simp add: keeps_def)

lemma keeps_bind:
  assumes "keeps I f" "keeps I g"
  shows "keeps I (\<lambda>a. bind_outcome (f a) g)"
proof (rule keepsI)
  fix a a'
  assume "holds I a" "bind_outcome (f a) g = Inr a'"
  then show "holds I a'"
    by (cases "f a") (auto dest: keepsD [OF assms(1)] keepsD [OF assms(2)])
qed

lemma keeps_do_work:
  assumes "keeps_with I work"
  shows "keeps I (Actor_do_work env work)"
proof (rule keepsI)
  fix a a'
  assume I: "holds I a" and step: "Actor_do_work env work a = Inr a'"
  let ?b = "set_job (\<lambda>j. j\<lparr>jb_queued := False\<rparr>) (set_job (\<lambda>j. j\<lparr>jb_works := Suc (jb_works (ac_job a))\<rparr>) a)"
  show "holds I a'"
    using I step by (cases "work ?b") (auto simp: Actor_do_work_def Let_def split: if_splits dest!: keeps_withD [OF assms, of ?b, rotated])
qed

lemma keeps_fold:
  assumes "\<And>x. keeps I (f x)"
  shows "keeps I (fold_outcome f xs)"
proof (rule keepsI)
  fix a a'
  assume "holds I a" "fold_outcome f xs a = Inr a'"
  then show "holds I a'"
  proof (induction xs arbitrary: a)
    case (Cons x xs)
    then show ?case
      using keepsD [OF assms, of a x] by (auto simp: bind_outcome_eq_Inr)
  qed simp
qed

locale job_invariant =
  fixes ok :: "actor_env \<Rightarrow> bool" and cls :: "actor_env \<Rightarrow> 's job_class" and allowed :: "block_position \<Rightarrow> bool"
    and I0 I :: "'s job_predicate"
  assumes startup: "ok env \<Longrightarrow> I0 (ac_self a) (ac_parent a) (told a) \<Longrightarrow> jc_startup (cls env) a = Inr a' \<Longrightarrow>
      I (ac_self a') (ac_parent a') (told a')"
    and work: "ok env \<Longrightarrow> keeps_with I (jc_work (cls env))"
    and update: "ok env \<Longrightarrow> fst msg = UpdateWork \<Longrightarrow> keeps I (jc_update (cls env) msg)"
    and blocks: "ok env \<Longrightarrow> keeps I (jc_blocks (cls env) bs)"
    and filter_tip: "ok env \<Longrightarrow> fst msg = FilterWork \<Longrightarrow> keeps I (jc_filter (cls env) msg p)"
    and key: "ok env \<Longrightarrow> keeps I (jc_key (cls env) msg)"
    and mempool: "ok env \<Longrightarrow> keeps I (jc_mempool (cls env) msg)"
    and process: "ok env \<Longrightarrow> keeps I (jc_process (cls env) p)"
    and reprocess: "ok env \<Longrightarrow> keeps I (jc_reprocess (cls env) msg)"
    and start_scan: "ok env \<Longrightarrow> keeps I (jc_start_scan (cls env) msg)"
    and do_rescan: "ok env \<Longrightarrow> fst msg = DoRescanWork \<Longrightarrow> keeps I (jc_do_rescan (cls env) msg)"
    and reorg: "ok env \<Longrightarrow> allowed p \<Longrightarrow> keeps_with I (jc_reorg (cls env) p)"
begin

lemma normal:
  assumes ok: "ok env"
  shows "keeps I (state_normal env (cls env) msg)"
proof (rule keepsI)
  fix a a'
  assume I: "holds I a" and step: "state_normal env (cls env) msg a = Inr a'"
  note keep = keepsD [OF _ I]
  show "holds I a'"
  proof (cases "fst msg")
    case FilterWork
    then show ?thesis
      using step I
      by (auto simp: state_normal_def process_filter_def bind_outcome_eq_Inr assert_that_eq_Inr split: if_splits
          dest: keep [OF filter_tip [OF ok FilterWork]])
  next
    case PrepareReorgWork
    then show ?thesis
      using step I
      by (auto simp: state_normal_def process_prepare_reorg_def transition_state_reorg_def bind_outcome_eq_Inr
          assert_that_eq_Inr split: if_splits)
  next
    case UpdateWork
    then show ?thesis
      using step I
      by (auto simp: state_normal_def process_update_def bind_outcome_eq_Inr assert_that_eq_Inr
          split: if_splits option.splits dest: keep [OF update [OF ok UpdateWork]])
  next
    case ProcessWork
    then show ?thesis
      using step
      by (auto simp: state_normal_def process_process_def bind_outcome_eq_Inr assert_that_eq_Inr dest: keep [OF process [OF ok]])
  next
    case BlockWork
    then show ?thesis
      using step
      by (auto simp: state_normal_def process_block_def assert_that_eq_Inr split: option.splits dest: keep [OF blocks [OF ok]])
  qed (use step I in \<open>auto simp: state_normal_def dest: keep [OF mempool [OF ok]] keep [OF start_scan [OF ok]] keep [OF do_rescan [OF ok, of msg]]
      keep [OF reprocess [OF ok]] keep [OF key [OF ok]]\<close>)
qed

lemma pipeline:
  assumes ok: "ok env"
  shows "keeps I (Job_pipeline env (cls env) msg)"
proof (rule keepsI)
  fix a a'
  assume I: "holds I a" and "Job_pipeline env (cls env) msg a = Inr a'"
  then show "holds I a'"
    by (auto simp: Job_pipeline_def bind_outcome_eq_Inr state_reorg_def state_pre_shutdown_def
        split: job_state.splits if_splits dest: keepsD [OF normal [OF ok] I])
qed

lemma ready:
  assumes ok: "ok env"
  shows "keeps I (handle_ready env (cls env) msg)"
proof (rule keepsI)
  fix a a'
  assume I: "holds I a" and step: "handle_ready env (cls env) msg a = Inr a'"
  show "holds I a'"
    using step I
    by (cases "fst msg") (auto simp: handle_ready_def dest: keepsD [OF keeps_do_work [OF work [OF ok]] I] keepsD [OF pipeline [OF ok] I])
qed

lemma flush:
  assumes ok: "ok env"
  shows "keeps I (flush_cache env (cls env))"
proof (rule keepsI)
  fix a a'
  assume I: "holds I a" and "flush_cache env (cls env) a = Inr a'"
  moreover have "keeps I (\<lambda>a. handle_ready env (cls env) msg (set_job (\<lambda>j. j\<lparr>jb_cache := tl (jb_cache j)\<rparr>) a))" for msg
    using keepsD [OF ready [OF ok], of "set_job (\<lambda>j. j\<lparr>jb_cache := tl (jb_cache j)\<rparr>) _"] by (intro keepsI) simp
  ultimately show "holds I a'"
    unfolding flush_cache_def by (rule_tac keepsD [OF keeps_fold I])
qed

lemma started:
  assumes "ok env" "I0 (ac_self a) (ac_parent a) (told a)" "do_init env (cls env) a = Inr c" "\<not> ae_reorg_stopped env"
  shows "holds I c"
proof -
  from assms(3,4) obtain b where b: "jc_startup (cls env) a = Inr b"
    "flush_cache env (cls env) (set_job (\<lambda>j. j\<lparr>jb_init := True\<rparr>) b) = Inr c"
    by (cases "jc_startup (cls env) a") (auto simp: do_init_def do_startup_def Let_def)
  have "holds I (set_job (\<lambda>j. j\<lparr>jb_init := True\<rparr>) b)"
    using startup [OF assms(1,2) b(1)] by (simp add: holds_def)
  then show ?thesis
    by (rule keepsD [OF flush [OF assms(1)] _ b(2)])
qed

lemma stopped:
  assumes "ae_reorg_stopped env" "jb_cache (ac_job a) = []" "bind_outcome (do_init env (cls env) a) (flush_cache env (cls env)) = Inr a'"
  shows "jb_state (ac_job a') = JobShutdown"
  using assms by (auto simp: do_init_def do_startup_def Let_def flush_cache_def do_shutdown_def)

lemma worker:
  assumes ok: "ok env" and run: "alive I0 I a" "worker env (cls env) msg a = Inr a'"
  shows "alive I0 I a'"
proof (cases "jb_state (ac_job a) = JobShutdown")
  case running: False
  have holds: "alive I0 I a'" if "holds I a'"
    using that by (simp add: alive_def holds_def)
  show ?thesis
  proof (cases "jb_init (ac_job a)")
    case True
    then have "holds I a" "bind_outcome (flush_cache env (cls env) a) (handle_ready env (cls env) msg) = Inr a'"
      using run running by (simp_all add: alive_def worker_def)
    then show ?thesis
      by (intro holds) (rule keepsD [OF keeps_bind [OF flush [OF ok] ready [OF ok]]])
  next
    case False
    then have I0: "I0 (ac_self a) (ac_parent a) (told a)" "jb_cache (ac_job a) = []"
      using run(1) running by (simp_all add: alive_def)
    show ?thesis
    proof (cases "fst msg = InitWork")
      case True
      then have step: "bind_outcome (do_init env (cls env) a) (flush_cache env (cls env)) = Inr a'"
        using run(2) running False by (simp add: worker_def)
      show ?thesis
      proof (cases "ae_reorg_stopped env")
        case True
        then show ?thesis
          using stopped [OF _ I0(2) step] by (simp add: alive_def)
      next
        case go: False
        obtain b where "do_init env (cls env) a = Inr b" "flush_cache env (cls env) b = Inr a'"
          using step by (cases "do_init env (cls env) a") auto
        then show ?thesis
          using started [OF ok I0(1) _ go] by (blast intro: holds keepsD [OF flush [OF ok]])
      qed
    next
      case False
      then show ?thesis
        using run running \<open>\<not> jb_init (ac_job a)\<close> by (simp add: worker_def)
    qed
  qed
qed (use run in \<open>simp add: worker_def\<close>)

lemma waiting:
  assumes "ok env" "alive I0 I a" "jb_init (ac_job a)" "jb_state (ac_job a) = JobReorg" "allowed position"
    "run_reorg (cls env) position a = Inr (r, a')"
  shows "alive I0 I a'"
proof -
  have "holds I a"
    using assms(2-4) by (simp add: alive_def)
  then have "holds I a'"
    using assms(6) unfolding run_reorg_def by (rule keeps_withD [OF reorg [OF assms(1,5)]])
  then show ?thesis
    by (simp add: alive_def holds_def)
qed

end

text \<open>An invariant that does not speak of the shared state also survives what the other actors do.\<close>

locale private_job_invariant = job_invariant ok cls "\<lambda>_. True" I0 I
  for ok and cls :: "actor_env \<Rightarrow> 's job_class" and I0 I :: "'s job_predicate" +
  assumes unshared: "I s p es \<Longrightarrow> I s q es" and unshared_start: "I0 s p es \<Longrightarrow> I0 s q es"
begin

lemma steps:
  assumes "job_steps ok cls a b" "alive I0 I a"
  shows "alive I0 I b"
  using assms
proof induction
  case (Others b f)
  then show ?case
    using unshared unshared_start by (auto simp: alive_def holds_def split: if_splits)
qed (auto intro: worker waiting)

lemma reached:
  assumes "job_steps ok cls (new_actor s p) a" "I0 s p []" "jb_state (ac_job a) \<noteq> JobShutdown" "jb_init (ac_job a)"
  shows "I (ac_self a) (ac_parent a) (told a)"
  using steps [OF assms(1)] assms(2-4) by (auto simp: alive_def holds_def new_actor_def new_job_def told_def)

lemma not_started:
  assumes "job_steps ok cls (new_actor s p) a" "I0 s p []" "jb_state (ac_job a) \<noteq> JobShutdown" "\<not> jb_init (ac_job a)"
  shows "I0 (ac_self a) (ac_parent a) (told a)"
  using steps [OF assms(1)] assms(2-4) by (auto simp: alive_def holds_def new_actor_def new_job_def told_def)

end

end
