(* ===== verification/Wallet_Process_Facts.thy ===== *)
theory Wallet_Process_Facts
  imports Wallet_Process Wallet_Actor_Facts
begin

text \<open>
  Where the blocks are that \<open>Process\<close> has to process: each step of the actor moves them from one of its queues to
  the next, and none is lost.
\<close>

section \<open>What was told to the next actor\<close>

text \<open>
  The blocks that \<open>Index\<close> was told to be dirty, and not yet that they are processed. A rescan begins anew.
\<close>

definition told_dirty :: "job_message \<Rightarrow> block_position set" where
  "told_dirty msg = (case extract_dirty msg of Inr dirty \<Rightarrow> set dirty | Inl _ \<Rightarrow> {})"

definition told_processed :: "job_message \<Rightarrow> block_position set" where
  "told_processed msg = (case decode msg of
     Inr (clean, dirty) \<Rightarrow> snd ` set (filter (\<lambda>(state, _). state = scan_state_byte ScanProcessed) clean)
   | Inl _ \<Rightarrow> {})"

definition owed_after :: "effect \<Rightarrow> block_position set \<Rightarrow> block_position set" where
  "owed_after e S = (case e of
     Send d msg \<Rightarrow>
       if d \<noteq> ToIndex then S
       else if fst msg = DoRescanWork then {}
       else if fst msg = UpdateWork then S \<union> told_dirty msg - told_processed msg
       else S
   | _ \<Rightarrow> S)"

definition owed :: "effect list \<Rightarrow> block_position set" where
  "owed es = fold owed_after es {}"

lemma owed_Nil [simp]: "owed [] = {}"
  by (simp add: owed_def)

lemma owed_snoc [simp]: "owed (es @ [e]) = owed_after e (owed es)"
  by (simp add: owed_def)

lemma owed_told: "owed (told a) = owed (ac_effects a)"
proof -
  have "owed (filter is_told es) = owed es" for es
  proof (induction es rule: rev_induct)
    case (snoc e es)
    then show ?case
      by (cases e) (auto simp: owed_after_def)
  qed simp
  then show ?thesis
    by (simp add: told_def)
qed

text \<open>The positions in a message can be sent on.\<close>

lemma sendable_decoded: "decode_status f = Inr (type, p) \<Longrightarrow> sendable p"
  using sint_range_size [of "le_value (take 8 (drop 1 f)) :: 64 word"]
  by (auto simp: decode_status_def assert_that_eq_Inr hash_of_def sendable_def height_of_def bind_outcome_eq_Inr
      word_size split: if_splits)

lemma sendable_extracted:
  assumes "extract_dirty msg = Inr dirty"
  shows "\<forall>p \<in> set dirty. sendable p"
proof -
  have "\<forall>p \<in> set out. sendable p" if "fold_outcome extract_next fs out0 = Inr out" "\<forall>p \<in> set out0. sendable p" for fs out0 out
    using that
  proof (induction fs arbitrary: out0)
    case (Cons f fs)
    obtain st where st: "decode_status f = Inr st"
      using Cons.prems(1) by (cases "decode_status f") (simp_all add: extract_next_def)
    define out1 where "out1 = (if fst st \<noteq> scan_state_byte ScanDirty then out0 else out0 @ [snd st])"
    have "extract_next f out0 = Inr out1"
      by (simp add: extract_next_def st out1_def case_prod_beta del: scan_state_byte.simps)
    then have "fold_outcome extract_next fs out1 = Inr out"
      using Cons.prems(1) by simp
    moreover have "\<forall>p \<in> set out1. sendable p"
      using Cons.prems(2) sendable_decoded [of f "fst st" "snd st"] st by (simp add: out1_def)
    ultimately show ?case
      by (rule Cons.IH)
  qed simp
  then show ?thesis
    using assms by (force simp: extract_dirty_def assert_that_eq_Inr)
qed

lemma told_status_update:
  assumes "\<forall>p \<in> set ps. sendable p" "ps \<noteq> []"
  shows "told_dirty (status_update UpdateWork (map (Pair ScanProcessed) ps) a) = {}"
    and "told_processed (status_update UpdateWork (map (Pair ScanProcessed) ps) a) = set ps"
proof -
  define sts where "sts = map (Pair ScanProcessed) ps"
  have sts: "\<forall>(s, p) \<in> set sts. sendable p" "sts \<noteq> []"
    using assms by (auto simp: sts_def)
  obtain epoch where msg: "status_update UpdateWork sts a = encode sts (UpdateWork, [epoch])"
    by (auto simp: status_update_def add_last_reorg_def add_frame_def)
  have dirty: "dirty_of sts = []"
    by (simp add: dirty_of_def sts_def filter_map o_def)
  show "told_dirty (status_update UpdateWork (map (Pair ScanProcessed) ps) a) = {}"
    by (simp add: told_dirty_def msg [unfolded sts_def] decode_encode(2) [OF sts, unfolded sts_def] dirty [unfolded sts_def])
  have "filter (\<lambda>st. fst st \<noteq> ScanDirty) sts = sts"
    by (simp add: sts_def filter_map o_def)
  then have "told_processed (status_update UpdateWork sts a) =
      snd ` {c. c \<in> (\<lambda>(s, p). (scan_state_byte s, p)) ` set sts \<and> fst c = scan_state_byte ScanProcessed}"
    by (simp add: told_processed_def msg decode_encode(1) [OF sts] case_prod_beta)
  then show "told_processed (status_update UpdateWork (map (Pair ScanProcessed) ps) a) = set ps"
    by (force simp: sts_def image_iff simp del: scan_state_byte.simps)
qed

lemma fst_status_update [simp]: "fst (status_update w sts a) = w"
  by (simp add: status_update_def add_last_reorg_def add_frame_def)

section \<open>The queues\<close>

definition queued :: "process_actor \<Rightarrow> block_position set" where
  "queued s = set (pa_waiting s) \<union> set (pa_downloading s) \<union> fst ` set (pa_ready s) \<union>
     fst ` fst ` set (filter (\<lambda>j. \<not> snd j) (pa_running s))"

definition places :: "process_actor actor \<Rightarrow> block_position set" where
  "places a = queued (ac_self a) \<union> set (wp_cached (ac_parent a))"

definition downloads_ok :: "process_actor \<Rightarrow> bool" where
  "downloads_ok s \<longleftrightarrow> sorted (pa_downloading s) \<and> distinct (pa_downloading s) \<and> ordered (pa_ready s) \<and>
     (\<forall>hash q. pa_downloading_index s hash = Some q \<longrightarrow> q \<in> set (pa_downloading s) \<and> snd q = hash)"

definition process_sane :: "int \<Rightarrow> process_actor job_predicate" where
  "process_sane h s p es \<longleftrightarrow> downloads_ok s \<and> (\<forall>q \<in> queued s \<union> set (wp_cached p). sendable q) \<and>
     (\<forall>q \<in> owed es. fst q \<le> h \<longrightarrow> q \<in> queued s \<union> set (wp_cached p))"

text \<open>A step that only moves blocks.\<close>

definition moves :: "process_actor actor \<Rightarrow> process_actor actor \<Rightarrow> bool" where
  "moves a b \<longleftrightarrow> (downloads_ok (ac_self a) \<longrightarrow> downloads_ok (ac_self b) \<and> places b = places a \<and> told b = told a) \<and>
     ac_job b = ac_job a"

lemma moves_holds: "holds (process_sane h) a \<Longrightarrow> moves a b \<Longrightarrow> holds (process_sane h) b"
  by (auto simp: holds_def process_sane_def moves_def places_def)

lemma moves_refl [simp]: "moves a a"
  by (simp add: moves_def)

lemma moves_trans: "moves a b \<Longrightarrow> moves b c \<Longrightarrow> moves a c"
  by (auto simp: moves_def)

lemma queued_download_one [simp]: "queued (download_one p s) = insert p (queued s)"
  by (auto simp: queued_def download_one_def)

lemma queued_downloads: "queued (fold download_one ps s) = queued s \<union> set ps"
  by (induction ps arbitrary: s) auto

lemma downloads_ok_one: "downloads_ok s \<Longrightarrow> downloads_ok (download_one p s)"
  by (auto simp: downloads_ok_def download_one_def split: option.splits if_splits)

lemma downloads_ok_downloads: "downloads_ok s \<Longrightarrow> downloads_ok (fold download_one ps s)"
  by (induction ps arbitrary: s) (simp_all add: downloads_ok_one)

lemma download_simps [simp]:
  "ac_job (download ps a) = ac_job a" "ac_parent (download ps a) = ac_parent a" "told (download ps a) = told a"
  "ac_self (download ps a) = fold download_one ps (ac_self a)"
  by (simp_all add: download_def)

lemma moves_queue_downloads: "moves a (queue_downloads env a)"
proof -
  define n where "n = min (length (pa_waiting (ac_self a)))
    (max (ae_download_limit env) (length (pa_downloading (ac_self a))) - length (pa_downloading (ac_self a)))"
  let ?s = "ac_self a"
  let ?t = "?s\<lparr>pa_waiting := drop n (pa_waiting ?s)\<rparr>"
  have "queued ?t \<union> set (take n (pa_waiting ?s)) = queued ?s"
    using set_append [of "take n (pa_waiting ?s)" "drop n (pa_waiting ?s)"] by (auto simp: queued_def simp del: set_append)
  moreover have "downloads_ok ?t = downloads_ok ?s"
    by (simp add: downloads_ok_def)
  moreover have "queue_downloads env a =
      download (take n (pa_waiting ?s)) (set_self (\<lambda>s. s\<lparr>pa_waiting := drop n (pa_waiting s)\<rparr>) a)"
    by (simp add: queue_downloads_def n_def Let_def)
  ultimately show ?thesis
    by (auto simp: moves_def places_def queued_downloads downloads_ok_downloads)
qed

lemma moves_start_job:
  assumes "pa_ready (ac_self a) = job # ready"
  shows "moves a (start_job job a)"
  using assms by (cases job) (auto simp: moves_def places_def start_job_def queued_def downloads_ok_def)

lemma ready_start_job [simp]: "pa_ready (ac_self (start_job job a)) = tl (pa_ready (ac_self a))"
  by (simp add: start_job_def)

lemma moves_start_jobs: "pa_ready (ac_self a) = ready \<Longrightarrow> moves a (start_jobs env n ready a)"
proof (induction env n ready a rule: start_jobs.induct)
  case (2 env counter job ready a)
  then show ?case
    by (auto intro: moves_trans [OF moves_start_job])
qed simp

lemma moves_queue_process: "moves a (snd (queue_process env a))"
  by (simp add: queue_process_def Let_def moves_start_jobs)

section \<open>The cache of matches\<close>

lemma set_cached_simps [simp]:
  "ac_job (set_cached f a) = ac_job a" "ac_self (set_cached f a) = ac_self a" "told (set_cached f a) = told a"
  "ac_parent (set_cached f a) = (ac_parent a)\<lparr>wp_cached := f (wp_cached (ac_parent a))\<rparr>"
  by (simp_all add: set_cached_def)

lemma set_elements_simps [simp]:
  "ac_job (set_elements f a) = ac_job a" "ac_self (set_elements f a) = ac_self a" "told (set_elements f a) = told a"
  "wp_cached (ac_parent (set_elements f a)) = wp_cached (ac_parent a)"
  by (simp_all add: set_elements_def)

lemma last_reorg_parent [simp]:
  "last_reorg (set_cached f a) = last_reorg a" "last_reorg (set_elements g a) = last_reorg a"
  by (simp_all add: last_reorg_def)

lemma status_update_cong: "ac_job a = ac_job b \<Longrightarrow> status_update w sts a = status_update w sts b"
  by (simp add: status_update_def add_last_reorg_def last_reorg_def)

lemma holds_check_cache:
  assumes "database_ok env" "holds (process_sane h) a"
  shows "holds (process_sane h) (check_cache env a)"
proof (cases "check_cache env a = a")
  case False
  let ?ps = "wp_cached (ac_parent a)"
  have ps: "?ps \<noteq> []" "\<forall>p \<in> set ?ps. sendable p"
    using assms False by (auto simp: check_cache_def CheckCache_def flush_matches_def Let_def holds_def process_sane_def)
  show ?thesis
  proof (cases "ae_add_confirmed env ?ps")
    case None
    then show ?thesis
      using assms(1) unfolding database_ok_def by blast
  next
    case (Some out)
    obtain f where f: "check_cache env a = report_processed ?ps (set_elements f (set_cached (\<lambda>_. []) a))"
      using False ps Some by (cases out) (auto simp: check_cache_def CheckCache_def flush_matches_def Let_def split: if_splits)
    define b where "b = set_elements f (set_cached (\<lambda>_. []) a)"
    have "ac_job b = ac_job a" "ac_self b = ac_self a" "told b = told a" "wp_cached (ac_parent b) = []"
      by (simp_all add: b_def)
    then show ?thesis
      using assms ps told_status_update [OF ps(2,1), of b]
      by (auto simp: f b_def [symmetric] holds_def process_sane_def report_processed_def owed_after_def)
  qed
qed (use assms(2) in simp)

lemma keeps_process_work:
  assumes ok: "database_ok env"
  shows "keeps_with (process_sane h) (Process_work env)"
proof (rule keeps_withI)
  fix a r a'
  assume holds: "holds (process_sane h) a" and step: "Process_work env a = Inr (r, a')"
  show "holds (process_sane h) a'"
  proof (cases "jb_state (ac_job a) = JobReorg")
    case False
    define b where "b = process_watchdog 1 (queue_downloads env (check_cache env a))"
    have "queue_process env b = (r, a')"
      using step False by (simp add: Process_work_def Job_work_def b_def)
    moreover have "holds (process_sane h) b"
      using moves_holds [OF holds_check_cache [OF ok holds] moves_queue_downloads] by (simp add: b_def)
    ultimately show ?thesis
      using moves_holds [OF _ moves_queue_process, of h b env] by simp
  qed (use holds step in \<open>simp add: Process_work_def\<close>)
qed

lemmas keeps_process_do_work = keepsD [OF keeps_do_work [OF keeps_process_work], rotated]

section \<open>Messages\<close>

lemma add_process_queue_simps [simp]:
  "ac_job (add_process_queue n a) = ac_job a" "ac_self (add_process_queue n a) = ac_self a"
  "told (add_process_queue n a) = told a" "wp_cached (ac_parent (add_process_queue n a)) = wp_cached (ac_parent a)"
  by (simp_all add: add_process_queue_def)

lemma keeps_process_update:
  assumes ok: "database_ok env" and "fst msg = UpdateWork"
  shows "keeps (process_sane h) (Process_do_process_update env msg)"
proof (rule keepsI)
  fix a a'
  assume holds: "holds (process_sane h) a" and step: "Process_do_process_update env msg a = Inr a'"
  obtain dirty where dirty: "extract_dirty msg = Inr dirty"
    using step by (cases "extract_dirty msg") (simp_all add: Process_do_process_update_def)
  define b where "b = send_to ToIndex msg (set_self (\<lambda>s. s\<lparr>pa_waiting := pa_waiting s @ dirty\<rparr>)
    (add_process_queue (of_nat (length dirty)) a))"
  have queued: "queued (ac_self b) = queued (ac_self a) \<union> set dirty" "downloads_ok (ac_self b) = downloads_ok (ac_self a)"
    by (auto simp: b_def queued_def downloads_ok_def)
  have "ac_job b = ac_job a" "wp_cached (ac_parent b) = wp_cached (ac_parent a)" "told b = told a @ [Send ToIndex msg]"
    by (simp_all add: b_def)
  then have "holds (process_sane h) b"
    using holds sendable_extracted [OF dirty]
    by (auto simp: holds_def process_sane_def queued owed_after_def told_dirty_def dirty assms)
  moreover have "Actor_do_work env (Process_work env) b = Inr a'"
    using step by (simp add: Process_do_process_update_def dirty b_def Let_def)
  ultimately show "holds (process_sane h) a'"
    by (rule keeps_process_do_work [OF _ _ ok])
qed

lemma keeps_process_reprocess:
  assumes ok: "database_ok env"
  shows "keeps (process_sane h) (Process_reprocess env msg)"
proof (rule keepsI)
  fix a a'
  assume holds: "holds (process_sane h) a" and step: "Process_reprocess env msg a = Inr a'"
  obtain dirty where dirty: "extract_dirty msg = Inr dirty"
    using step by (cases "extract_dirty msg") (simp_all add: Process_reprocess_def)
  have "holds (process_sane h) (download dirty (add_process_queue (of_nat (length dirty)) a))"
    using holds sendable_extracted [OF dirty]
    by (auto simp: holds_def process_sane_def queued_downloads downloads_ok_downloads)
  moreover have "Actor_do_work env (Process_work env) (download dirty (add_process_queue (of_nat (length dirty)) a)) = Inr a'"
    using step by (simp add: Process_reprocess_def dirty)
  ultimately show "holds (process_sane h) a'"
    by (rule keeps_process_do_work [OF _ _ ok])
qed

text \<open>A block that arrives moves from the downloads to the ready ones; no iterator of the index dangles.\<close>

lemma receive_block_ok:
  assumes "downloads_ok s"
  shows "\<exists>s'. receive_block block s = Inr s' \<and> downloads_ok s' \<and> queued s' = queued s"
proof (cases "pa_downloading_index s (wb_hash block)")
  case (Some q)
  define t where "t = s\<lparr>pa_txids := pa_txids s \<union> set (wb_txids block), pa_ready := omap_emplace q block (pa_ready s),
    pa_downloading := oset_del q (pa_downloading s), pa_downloading_index := (pa_downloading_index s)(wb_hash block := None)\<rparr>"
  have q: "q \<in> set (pa_downloading s)" "snd q = wb_hash block"
    using assms Some unfolding downloads_ok_def by blast+
  have "fst ` set (omap_emplace q block (pa_ready s)) = insert q (fst ` set (pa_ready s))"
    by (cases "map_of (pa_ready s) q = None") (auto simp: omap_emplace_def map_of_eq_None_iff insert_absorb image_iff dest: map_of_SomeD)
  then have "queued t = queued s"
    using q by (auto simp: t_def queued_def)
  moreover have "q' \<in> set (pa_downloading t) \<and> snd q' = hash" if "pa_downloading_index t hash = Some q'" for hash q'
  proof -
    have hash: "hash \<noteq> wb_hash block" "pa_downloading_index s hash = Some q'"
      using that by (auto simp: t_def split: if_splits)
    then have "q' \<in> set (pa_downloading s)" "snd q' = hash"
      using assms unfolding downloads_ok_def by blast+
    then show ?thesis
      using hash(1) q(2) by (auto simp: t_def)
  qed
  then have "downloads_ok t"
    using assms by (simp add: downloads_ok_def) (simp add: t_def oset_del_def removeAll_filter_not_eq sorted_wrt_filter)
  moreover have "receive_block block s = Inr t"
    using q Some by (simp add: receive_block_def t_def)
  ultimately show ?thesis
    by blast
qed (use assms in \<open>simp add: receive_block_def\<close>)

lemma receive_blocks_ok:
  "downloads_ok s \<Longrightarrow> \<exists>s'. fold_outcome receive_block blocks s = Inr s' \<and> downloads_ok s' \<and> queued s' = queued s"
proof (induction blocks arbitrary: s)
  case (Cons b blocks)
  obtain t where "receive_block b s = Inr t" "downloads_ok t" "queued t = queued s"
    using receive_block_ok [OF Cons.prems] by blast
  with Cons.IH [of t] show ?case
    by simp
qed simp

lemma keeps_process_blocks:
  assumes ok: "database_ok env"
  shows "keeps (process_sane h) (Process_blocks env blocks)"
proof (rule keepsI)
  fix a a'
  assume holds: "holds (process_sane h) a" and step: "Process_blocks env blocks a = Inr a'"
  then obtain s where s: "fold_outcome receive_block blocks (ac_self a) = Inr s" "downloads_ok s" "queued s = queued (ac_self a)"
    using receive_blocks_ok [of "ac_self a" blocks] by (auto simp: holds_def process_sane_def)
  then have "holds (process_sane h) (set_self (\<lambda>_. s) a)"
    using holds by (simp add: holds_def process_sane_def)
  moreover have "Actor_do_work env (Process_work env) (set_self (\<lambda>_. s) a) = Inr a'"
    using step by (simp add: Process_blocks_def s(1))
  ultimately show "holds (process_sane h) a'"
    by (rule keeps_process_do_work [OF _ _ ok])
qed

lemma keeps_process_process:
  assumes ok: "database_ok env"
  shows "keeps (process_sane h) (Process_process env p)"
proof (rule keepsI)
  fix a a'
  assume holds: "holds (process_sane h) a" and step: "Process_process env p a = Inr a'"
  let ?b = "if map_of (pa_processing (ac_self a)) p = None then a
    else set_self (\<lambda>s. s\<lparr>pa_processing := omap_del p (pa_processing s)\<rparr>) (add_process_queue (- 1) a)"
  have "moves a ?b"
    by (auto simp: moves_def places_def queued_def downloads_ok_def)
  then show "holds (process_sane h) a'"
    using step moves_holds [OF holds] unfolding Process_process_def by (blast intro: keeps_process_do_work [OF _ _ ok])
qed

lemma keeps_process_mempool: "keeps (process_sane h) (Process_mempool env msg)"
proof (rule keepsI)
  fix a a'
  assume holds: "holds (process_sane h) a" and step: "Process_mempool env msg a = Inr a'"
  have "moves a a'"
    using step
    by (auto simp: Process_mempool_def ProcessTransaction_def handle_mempool_match_def bind_outcome_eq_Inr moves_def
        places_def split: if_splits option.splits)
  then show "holds (process_sane h) a'"
    by (rule moves_holds [OF holds])
qed

section \<open>Reorganisations\<close>

lemma le_height: "p \<le> q \<Longrightarrow> fst p \<le> fst (q :: block_position)"
  by (cases p; cases q) auto

lemma replaced_above: "sorted ps \<Longrightarrow> q \<in> set (dropWhile (\<lambda>p. \<not> IsReplacedBy p t) ps) \<Longrightarrow> fst t \<le> fst (q :: block_position)"
proof (induction ps)
  case (Cons p ps)
  have "fst p \<le> fst q" if "q \<in> set ps"
    using Cons.prems(1) that by (intro le_height) simp
  then show ?case
    using Cons by (auto simp: IsReplacedBy_def split: if_splits)
qed simp

lemma kept_below:
  "ordered m \<Longrightarrow> q \<in> fst ` set m \<Longrightarrow> fst q < fst t \<Longrightarrow> q \<in> fst ` set (takeWhile (\<lambda>(p, _). \<not> IsReplacedBy p t) m)"
proof (induction m)
  case (Cons x m)
  obtain k v where x: "x = (k, v)"
    by (cases x)
  have "k \<le> q"
    using Cons.prems(1,2) by (auto simp: x simp del: less_eq_prod_simp less_prod_simp)
  then have "\<not> IsReplacedBy k t"
    using Cons.prems(3) le_height [of k q] by (simp add: IsReplacedBy_def)
  then show ?case
    using Cons by (auto simp: x)
qed simp

lemma ordered_takeWhile: "ordered m \<Longrightarrow> ordered (takeWhile P m)"
  by (simp add: ordered_def sorted_wrt_map sorted_wrt_takeWhile)

lemma downloads_ok_forget:
  assumes "downloads_ok s"
  shows "downloads_ok (forget_downloads gone s)"
proof -
  let ?t = "forget_downloads gone s"
  have "q \<in> set (pa_downloading ?t) \<and> snd q = hash" if index: "pa_downloading_index ?t hash = Some q" for hash q
  proof -
    have hash: "hash \<notin> snd ` set gone" "pa_downloading_index s hash = Some q"
      using index by (auto simp: forget_downloads_def split: if_splits)
    then have "q \<in> set (pa_downloading s)" "snd q = hash"
      using assms unfolding downloads_ok_def by blast+
    with hash(1) show ?thesis
      by (auto simp: forget_downloads_def)
  qed
  moreover have "sorted (pa_downloading ?t)" "distinct (pa_downloading ?t)" "ordered (pa_ready ?t)"
    using assms by (simp_all add: downloads_ok_def forget_downloads_def sorted_wrt_filter)
  ultimately show ?thesis
    unfolding downloads_ok_def by blast
qed

lemma keeps_process_reorg:
  assumes "h < fst target"
  shows "keeps_with (process_sane h) (Process_do_reorg target)"
proof (rule keeps_withI)
  fix a r a'
  assume holds: "holds (process_sane h) a" and step: "Process_do_reorg target a = Inr (r, a')"
  let ?s = "ac_self a"
  let ?kept = "\<lambda>p. \<not> IsReplacedBy p target"
  let ?gone = "dropWhile ?kept (pa_downloading ?s)"
  define t where "t = forget_downloads ?gone (?s\<lparr>pa_txids := {}, pa_waiting := filter ?kept (pa_waiting ?s),
    pa_ready := takeWhile (\<lambda>(p, _). ?kept p) (pa_ready ?s), pa_processing := takeWhile (\<lambda>(p, _). ?kept p) (pa_processing ?s)\<rparr>)"
  have ok: "downloads_ok ?s"
    using holds by (simp add: holds_def process_sane_def)
  have "q \<in> queued t" if q: "q \<in> queued ?s" "fst q \<le> h" for q
  proof -
    have below: "fst q < fst target"
      using q(2) assms by simp
    have "?kept q"
      using below by (simp add: IsReplacedBy_def)
    moreover have "q \<notin> set ?gone"
      using replaced_above [of "pa_downloading ?s" q target] below ok unfolding downloads_ok_def by auto
    ultimately show ?thesis
      using q(1) kept_below [OF _ _ below, of "pa_ready ?s"] ok
      unfolding queued_def downloads_ok_def t_def forget_downloads_def by auto
  qed
  moreover have "queued t \<subseteq> queued ?s"
    by (auto simp: t_def forget_downloads_def queued_def dest: set_takeWhileD)
  moreover have "downloads_ok t"
    using ok unfolding t_def by (intro downloads_ok_forget) (simp add: downloads_ok_def ordered_takeWhile)
  ultimately have "process_sane h t p (told a)" if "wp_cached p = wp_cached (ac_parent a)" for p
    using holds that by (auto simp: holds_def process_sane_def)
  moreover have "a' = a \<or> (ac_self a' = t \<and> ac_job a' = ac_job a \<and> told a' = told a \<and> wp_cached (ac_parent a') = wp_cached (ac_parent a))"
    using step by (auto simp: Process_do_reorg_def Job_do_reorg_def t_def Let_def split: if_splits)
  ultimately show "holds (process_sane h) a'"
    using holds by (auto simp: holds_def)
qed

section \<open>Runs\<close>

definition fresh_process :: "process_actor job_predicate" where
  "fresh_process s p es \<longleftrightarrow> s = new_process \<and> wp_cached p = [] \<and> es = []"

lemma Process_startup_fresh:
  assumes "fresh_process (ac_self a) (ac_parent a) (told a)" "Process_startup env a = Inr a'"
  shows "fresh_process (ac_self a') (ac_parent a') (told a')"
  using assms
  by (auto simp: Process_startup_def Actor_do_work_def Let_def fresh_process_def Process_work_def Job_work_def check_cache_def
      CheckCache_def flush_matches_def queue_downloads_def queue_process_def new_process_def split: if_splits)

lemma fresh_process_sane: "fresh_process s p es \<Longrightarrow> process_sane h s p es"
  by (simp add: fresh_process_def process_sane_def new_process_def queued_def downloads_ok_def)

lemma Process_class_simps [simp]:
  "jc_startup (Process_class env) = Process_startup env" "jc_work (Process_class env) = Process_work env"
  "jc_update (Process_class env) = Process_do_process_update env" "jc_blocks (Process_class env) = Process_blocks env"
  "jc_filter (Process_class env) = Process_filter" "jc_key (Process_class env) = (\<lambda>_. unhandled)"
  "jc_mempool (Process_class env) = Process_mempool env" "jc_process (Process_class env) = Process_process env"
  "jc_reprocess (Process_class env) = Process_reprocess env" "jc_start_scan (Process_class env) = (\<lambda>_. unhandled)"
  "jc_do_rescan (Process_class env) = Process_do_rescan" "jc_reorg (Process_class env) = Process_do_reorg"
  "jc_type (Process_class env) = 1"
  by (simp_all add: Process_class_def)

interpretation process: job_invariant database_ok Process_class "\<lambda>p. h < fst p" fresh_process "process_sane h" for h
proof
  show "process_sane h (ac_self a') (ac_parent a') (told a')"
    if "fresh_process (ac_self a) (ac_parent a) (told a)" "jc_startup (Process_class env) a = Inr a'" for env a a'
    using that Process_startup_fresh [of a env a'] by (simp add: fresh_process_sane)
  show "keeps (process_sane h) (jc_filter (Process_class env) msg p)" if "fst msg = FilterWork" for env msg p
    using that by (intro keepsI) (auto simp: Process_filter_def holds_def process_sane_def owed_after_def)
  show "keeps (process_sane h) (jc_do_rescan (Process_class env) msg)" if "fst msg = DoRescanWork" for env msg
  proof (rule keepsI)
    fix a a'
    assume holds: "holds (process_sane h) a" and step: "jc_do_rescan (Process_class env) msg a = Inr a'"
    let ?s = "new_process\<lparr>pa_running := pa_running (ac_self a)\<rparr>"
    have "downloads_ok ?s" "queued ?s \<subseteq> queued (ac_self a)"
      by (auto simp: new_process_def downloads_ok_def queued_def)
    moreover have "ac_self a' = ?s" "owed (told a') = {}" "ac_job a' = ac_job a" "wp_cached (ac_parent a') = wp_cached (ac_parent a)"
      using step that by (auto simp: Process_do_rescan_def owed_after_def)
    ultimately show "holds (process_sane h) a'"
      using holds by (auto simp: holds_def process_sane_def)
  qed
qed (simp_all add: keeps_process_work keeps_process_update keeps_process_blocks keeps_process_process keeps_process_mempool
    keeps_process_reprocess keeps_process_reorg)

text \<open>The steps of the jobs.\<close>

lemma queued_finish:
  assumes "k < length (pa_running s)" "pa_running s ! k = (job, False)"
  shows "queued s = insert (fst job) (queued (s\<lparr>pa_running := (pa_running s)[k := (job, True)]\<rparr>))"
proof -
  define jobs where "jobs = pa_running s"
  define running where "running = (\<lambda>js :: ((block_position \<times> wallet_block) \<times> bool) list. fst ` fst ` set (filter (\<lambda>j. \<not> snd j) js))"
  have jobs: "jobs = take k jobs @ (job, False) # drop (Suc k) jobs"
    using assms id_take_nth_drop [of k jobs] by (simp add: jobs_def)
  have "jobs[k := (job, True)] = take k jobs @ (job, True) # drop (Suc k) jobs"
    using assms by (simp add: jobs_def upd_conv_take_nth_drop)
  moreover have "running (xs @ (job, b) # ys) = (if b then running xs \<union> running ys else insert (fst job) (running xs \<union> running ys))" for xs b ys
    by (cases b) (simp_all add: running_def image_Un filter_append del: set_filter)
  ultimately have "running jobs = insert (fst job) (running (jobs[k := (job, True)]))"
    using arg_cong [OF jobs, where f = running] by simp
  moreover have "queued (s\<lparr>pa_running := js\<rparr>) = set (pa_waiting s) \<union> set (pa_downloading s) \<union> fst ` set (pa_ready s) \<union> running js" for js
    by (simp add: queued_def running_def)
  moreover have "s = s\<lparr>pa_running := jobs\<rparr>"
    by (simp add: jobs_def)
  ultimately show ?thesis
    unfolding jobs_def by (metis Un_insert_right)
qed

lemma moves_run_job:
  assumes "run_job env k a = Inr b"
  shows "moves a b"
proof (cases "k < length (pa_running (ac_self a)) \<and> \<not> snd (pa_running (ac_self a) ! k)")
  case True
  let ?jobs = "pa_running (ac_self a)"
  obtain p block where k: "?jobs ! k = ((p, block), False)"
    using True by (cases "?jobs ! k") auto
  have queued: "queued (ac_self a) = insert p (queued ((ac_self a)\<lparr>pa_running := ?jobs[k := ((p, block), True)]\<rparr>))"
    using queued_finish [OF _ k] True by simp
  let ?c = "send_to ToSelf (ProcessWork, [height_frame (fst p), snd p]) (set_cached (oset_put p) a)"
  have result: "do_process env p block a = Inr c \<Longrightarrow> c = ?c" for c
    by (simp add: do_process_def ProcessBlock_def handle_block_matches_def assert_that_def split: if_splits)
  have "run_job env k a = bind_outcome (do_process env p block a) (\<lambda>a.
      Inr (set_self (\<lambda>s. s\<lparr>pa_running := (pa_running s)[k := ((p, block), True)]\<rparr>) a))"
    using True by (simp add: run_job_def k)
  then have "b = set_self (\<lambda>s. s\<lparr>pa_running := (pa_running s)[k := ((p, block), True)]\<rparr>) ?c"
    using assms result by (cases "do_process env p block a") auto
  then have b: "ac_self b = (ac_self a)\<lparr>pa_running := ?jobs[k := ((p, block), True)]\<rparr>" "ac_job b = ac_job a" "told b = told a"
    "set (wp_cached (ac_parent b)) = insert p (set (wp_cached (ac_parent a)))"
    by simp_all
  have "places b = places a"
    unfolding places_def b(4) queued unfolding b(1) by blast
  moreover have "downloads_ok (ac_self b) = downloads_ok (ac_self a)"
    by (simp add: b(1) downloads_ok_def)
  ultimately show ?thesis
    by (simp add: moves_def b(2,3))
qed (use assms in \<open>auto simp: run_job_def Let_def\<close>)

lemma moves_end_job: "moves a (end_job k a)"
proof (cases "k < length (pa_running (ac_self a)) \<and> snd (pa_running (ac_self a) ! k)")
  case True
  let ?jobs = "pa_running (ac_self a)"
  have "filter (\<lambda>j. \<not> snd j) ?jobs = filter (\<lambda>j. \<not> snd j) (take k ?jobs @ drop (Suc k) ?jobs)"
    using True arg_cong [OF id_take_nth_drop [of k ?jobs], where f = "filter (\<lambda>j. \<not> snd j)"] by simp
  then show ?thesis
    using True by (simp add: end_job_def moves_def places_def queued_def downloads_ok_def)
qed (auto simp: end_job_def Let_def)

lemma alive_moves:
  assumes "alive fresh_process (process_sane h) a" "moves a b"
    and "\<not> jb_init (ac_job a) \<Longrightarrow> jb_state (ac_job a) \<noteq> JobShutdown \<Longrightarrow> b = a"
  shows "alive fresh_process (process_sane h) b"
  using assms moves_holds [OF _ assms(2), of h] by (auto simp: alive_def moves_def split: if_splits)

lemma process_steps_alive:
  assumes "process_steps database_ok h a b" "alive fresh_process (process_sane h) a"
  shows "alive fresh_process (process_sane h) b"
  using assms
proof induction
  case (Others b f)
  then show ?case
    by (auto simp: alive_def holds_def process_sane_def fresh_process_def split: if_splits)
next
  case (Run b env k c)
  have "c = b" if "\<not> jb_init (ac_job b)" "jb_state (ac_job b) \<noteq> JobShutdown"
    using Run that by (simp add: alive_def fresh_process_def new_process_def run_job_def)
  then show ?case
    using Run moves_run_job by (blast intro: alive_moves)
next
  case (Finish b k)
  have "end_job k b = b" if "\<not> jb_init (ac_job b)" "jb_state (ac_job b) \<noteq> JobShutdown"
    using Finish that by (simp add: alive_def fresh_process_def new_process_def end_job_def)
  then show ?case
    using Finish moves_end_job by (blast intro: alive_moves)
qed (auto intro: process.worker process.waiting)

text \<open>What holds of an actor that is not shut down.\<close>

lemma process_reached:
  assumes "process_steps database_ok h (new_actor new_process w) a" "wp_cached w = []" "jb_state (ac_job a) \<noteq> JobShutdown"
  shows "process_sane h (ac_self a) (ac_parent a) (told a)"
proof -
  have "alive fresh_process (process_sane h) a"
    using assms(1) by (rule process_steps_alive)
      (simp add: alive_def fresh_process_def new_actor_def new_job_def told_def assms(2))
  then show ?thesis
    using assms(3) by (auto simp: alive_def holds_def fresh_process_sane split: if_splits)
qed

end
