(* ===== verification/Wallet_Index.thy ===== *)
theory Wallet_Index
  imports Wallet_Process
begin

text \<open>
  The actor \<open>Index\<close> (\<open>src/blockchain/node/wallet/subchain/statemachine/Index.cpp\<close>,
  \<open>DeterministicIndex.cpp\<close>): it adds the patterns of the keys that were generated since to the elements to look for, and
  hands on what \<open>Process\<close> tells. The patterns of a key are a parameter. The loop over the keys ends unless the last key has the
  largest number of 32 bits; keys that are not hardened have smaller ones.
\<close>

section \<open>Keys\<close>

record index_actor =
  xa_last_indexed :: "bip32_index option"

definition new_index :: index_actor where
  "new_index = \<lparr>xa_last_indexed = None\<rparr>"

definition need_index :: "actor_env \<Rightarrow> bip32_index option \<Rightarrow> bip32_index option" where
  "need_index env current = (case ae_generated env of
     Some target \<Rightarrow> if current = None \<or> current \<noteq> Some target then Some target else None
   | None \<Rightarrow> None)"

text \<open>The database notes the highest key that was stored, or 0.\<close>

definition add_elements :: "actor_env \<Rightarrow> (bip32_index \<times> view list) list \<Rightarrow> wallet_parent \<Rightarrow> wallet_parent" where
  "add_elements env elements p =
    (if ae_store_elements env elements then p\<lparr>wp_last_indexed := Some (fold max (map fst elements) 0)\<rparr> else p)"

definition index_done ::
  "actor_env \<Rightarrow> (bip32_index \<times> view list) list \<Rightarrow> index_actor actor \<Rightarrow> index_actor actor outcome" where
  "index_done env elements a =
    (let a = set_parent (add_elements env elements) a;
         a = set_self (\<lambda>s. s\<lparr>xa_last_indexed := wp_last_indexed (ac_parent a)\<rparr>) a
     in bind_outcome (ElementCache_Add elements (sd_elements (wp_data (ac_parent a)))) (\<lambda>c.
       Inr (set_elements (\<lambda>_. c) a)))"

definition keys_between :: "bip32_index \<Rightarrow> bip32_index \<Rightarrow> bip32_index list" where
  "keys_between lowest highest = map of_nat [unat lowest ..< Suc (unat highest)]"

definition index_process ::
  "actor_env \<Rightarrow> bip32_index option \<Rightarrow> index_actor actor \<Rightarrow> index_actor actor outcome" where
  "index_process env current a =
    (let first = (case current of Some c \<Rightarrow> c + 1 | None \<Rightarrow> 0);
         last = (case ae_generated env of Some l \<Rightarrow> l | None \<Rightarrow> 0)
     in index_done env (map (\<lambda>i. (i, ae_patterns env i)) (keys_between first last)) a)"

definition check_mempool :: "actor_env \<Rightarrow> index_actor actor \<Rightarrow> index_actor actor outcome" where
  "check_mempool env =
    fold_outcome (\<lambda>txid a. if ae_in_mempool env txid then ProcessTransaction env txid a else Inr a) (ae_mempool env)"

definition Index_work :: "actor_env \<Rightarrow> index_actor actor \<Rightarrow> (bool \<times> index_actor actor) outcome" where
  "Index_work env a =
    (if jb_state (ac_job a) = JobReorg then Inr (False, a)
     else bind_outcome
       (case need_index env (xa_last_indexed (ac_self a)) of
          Some target \<Rightarrow> bind_outcome (index_process env (xa_last_indexed (ac_self a)) a) (check_mempool env)
        | None \<Rightarrow> Inr a)
       (Job_work 2))"

section \<open>Messages\<close>

definition Index_do_process_update :: "actor_env \<Rightarrow> job_message \<Rightarrow> index_actor actor \<Rightarrow> index_actor actor outcome" where
  "Index_do_process_update env msg a =
    bind_outcome (decode msg) (\<lambda>_.
      bind_outcome (Actor_do_work env (Index_work env) a) (\<lambda>a. Inr (send_to ToRescan msg a)))"

definition Index_startup :: "actor_env \<Rightarrow> index_actor actor \<Rightarrow> index_actor actor outcome" where
  "Index_startup env a =
    bind_outcome
      (Actor_do_work env (Index_work env) (set_self (\<lambda>s. s\<lparr>xa_last_indexed := wp_last_indexed (ac_parent a)\<rparr>) a))
      (\<lambda>a. Inr (send_to ToScan (StartScanWork, []) a))"

definition Index_do_rescan :: "job_message \<Rightarrow> index_actor actor \<Rightarrow> index_actor actor outcome" where
  "Index_do_rescan msg a = Inr (send_to ToRescan msg a)"

definition Index_filter :: "job_message \<Rightarrow> block_position \<Rightarrow> index_actor actor \<Rightarrow> index_actor actor outcome" where
  "Index_filter msg tip a = Inr (send_to ToRescan msg a)"

text \<open>A new key of another chain, owner, account or subchain is none of this actor's business.\<close>

definition Index_key :: "actor_env \<Rightarrow> job_message \<Rightarrow> index_actor actor \<Rightarrow> index_actor actor outcome" where
  "Index_key env msg a =
    assert_that ''7 < body.size()'' (7 < body_size msg)
      (if \<not> ae_own_key env (snd msg) then Inr a else Actor_do_work env (Index_work env) a)"

definition Index_class :: "actor_env \<Rightarrow> index_actor job_class" where
  "Index_class env = \<lparr>
    jc_type = 2, jc_startup = Index_startup env, jc_work = Index_work env, jc_update = Index_do_process_update env,
    jc_blocks = (\<lambda>_. unhandled), jc_filter = Index_filter, jc_key = Index_key env,
    jc_mempool = (\<lambda>_. unhandled), jc_process = (\<lambda>_. unhandled), jc_reprocess = (\<lambda>_. unhandled),
    jc_start_scan = (\<lambda>_. unhandled), jc_do_rescan = Index_do_rescan, jc_reorg = Job_do_reorg\<rparr>"

end
