(* ===== verification/Wallet_Scanners.thy ===== *)
theory Wallet_Scanners
  imports Wallet_Actor
begin

text \<open>
  Three of the actors of a subchain (\<open>src/blockchain/node/wallet/subchain/statemachine/\<close>): \<open>Scan\<close>, which
  goes ahead along the chain, \<open>Rescan\<close>, which follows behind the blocks that were found and processed, and
  \<open>Progress\<close>, which notes how far all is done.
\<close>

definition maximum_height :: int where
  "maximum_height = 2 ^ 63 - 1"

section \<open>Scan\<close>

record scan_actor =
  sa_last_scanned :: "block_position option"
  sa_filter_tip :: "block_position option"
  sa_index_ready :: bool

definition position_or_null :: "block_position option \<Rightarrow> block_position" where
  "position_or_null p = (case p of Some q \<Rightarrow> q | None \<Rightarrow> null_position)"

definition Scan_current :: "scan_actor actor \<Rightarrow> block_position" where
  "Scan_current a = position_or_null (sa_last_scanned (ac_self a))"

definition Scan_tip :: "scan_actor actor \<Rightarrow> block_position" where
  "Scan_tip a = position_or_null (sa_filter_tip (ac_self a))"

definition Scan_caught_up :: "scan_actor actor \<Rightarrow> bool" where
  "Scan_caught_up a \<longleftrightarrow> Scan_current a = position_or_null (sa_filter_tip (ac_self a))"

text \<open>The position an actor goes back to in a reorganisation.\<close>

definition reset_tip :: "block_position \<Rightarrow> block_position option \<Rightarrow> block_position option" where
  "reset_tip position tip = (case tip of
     Some t \<Rightarrow> if IsReplacedBy t position then Some position else Some t
   | None \<Rightarrow> None)"

definition Scan_do_reorg :: "block_position \<Rightarrow> scan_actor actor \<Rightarrow> (bool \<times> scan_actor actor) outcome" where
  "Scan_do_reorg position a =
    (if \<not> wp_need_reorg (ac_parent a) then Inr (True, a)
     else Job_do_reorg position (set_self (\<lambda>s. s\<lparr>
       sa_last_scanned := map_option (ReorgTarget position) (sa_last_scanned s),
       sa_filter_tip := reset_tip position (sa_filter_tip s)\<rparr>) a))"

definition Scan_startup :: "actor_env \<Rightarrow> scan_actor actor \<Rightarrow> scan_actor actor outcome" where
  "Scan_startup env a =
    (let last = wp_last_scanned (ac_parent a); tip = ae_filter_tip env;
         last = (if IsReplacedBy last tip then tip else last);
         a = set_self (\<lambda>s. s\<lparr>sa_last_scanned := Some last, sa_filter_tip := Some tip\<rparr>) a
     in Inr (send_to ToProcess (status_update UpdateWork [(ScanClean, last)] a) a))"

definition Scan_do_rescan :: "job_message \<Rightarrow> scan_actor actor \<Rightarrow> scan_actor actor outcome" where
  "Scan_do_rescan msg a =
    Inr (send_to ToProcess msg
      (set_parent (\<lambda>p. p\<lparr>wp_data := (wp_data p)\<lparr>sd_matches := MatchCache_Reset\<rparr>\<rparr>)
        (set_self (\<lambda>s. s\<lparr>sa_last_scanned := None\<rparr>) a)))"

definition Scan_batch :: "actor_env \<Rightarrow> block_position \<Rightarrow> scan_actor actor \<Rightarrow> (bool \<times> scan_actor actor) outcome" where
  "Scan_batch env tip a =
    bind_outcome (Scan (ae_scan env) tip maximum_height (Scan_current a) [] (wp_data (ac_parent a)))
      (\<lambda>(highestClean, highestTested, dirty, sd).
        let a = set_parent (\<lambda>p. p\<lparr>wp_data := sd\<rparr>) a;
            a = set_self (\<lambda>s. s\<lparr>sa_last_scanned := Some highestTested\<rparr>) a;
            a = (if dirty \<noteq> [] then send_to ToProcess (status_update UpdateWork dirty a) a else a);
            a = (case highestClean of
                Some clean \<Rightarrow> send_to ToProcess (status_update UpdateWork [(ScanClean, clean)] a) a
              | None \<Rightarrow> a)
        in Inr (\<not> Scan_caught_up a, a))"

definition Scan_body :: "actor_env \<Rightarrow> scan_actor actor \<Rightarrow> (bool \<times> scan_actor actor) outcome" where
  "Scan_body env a = (case sa_filter_tip (ac_self a) of
     None \<Rightarrow> Inr (False, a)
   | Some tip \<Rightarrow>
       if Scan_caught_up a then Inr (False, a)
       else
         let height = fst (Scan_current a);
             rescan = (case wp_progress (ac_parent a) of Some p \<Rightarrow> fst p | None \<Rightarrow> -1)
         in if wp_scan_dirty (ac_parent a) \<and> height - rescan > scan_threshold then Inr (False, a)
            else Scan_batch env tip a)"

definition Scan_work :: "actor_env \<Rightarrow> scan_actor actor \<Rightarrow> (bool \<times> scan_actor actor) outcome" where
  "Scan_work env a =
    (if \<not> sa_index_ready (ac_self a) \<or> jb_state (ac_job a) = JobReorg then Inr (False, a)
     else bind_outcome (Scan_body env a) (\<lambda>(again, a). Inr (again, process_watchdog 0 a)))"

definition Scan_process_filter ::
  "actor_env \<Rightarrow> job_message \<Rightarrow> block_position \<Rightarrow> scan_actor actor \<Rightarrow> scan_actor actor outcome" where
  "Scan_process_filter env msg tip a =
    (if tip < Scan_tip a then Inr a
     else
       let a = set_self (\<lambda>s. s\<lparr>sa_filter_tip := Some tip\<rparr>) a;
           msg = (case last_reorg a of Some epoc \<Rightarrow> add_frame (le_bytes 8 epoc) msg | None \<Rightarrow> msg)
       in Actor_do_work env (Scan_work env) (send_to ToProcess msg a))"

definition Scan_start_scan :: "actor_env \<Rightarrow> job_message \<Rightarrow> scan_actor actor \<Rightarrow> scan_actor actor outcome" where
  "Scan_start_scan env msg a = Actor_do_work env (Scan_work env) (set_self (\<lambda>s. s\<lparr>sa_index_ready := True\<rparr>) a)"

definition Scan_class :: "actor_env \<Rightarrow> scan_actor job_class" where
  "Scan_class env = \<lparr>
    jc_type = 0, jc_startup = Scan_startup env, jc_work = Scan_work env, jc_update = (\<lambda>_. unhandled),
    jc_blocks = (\<lambda>_. unhandled), jc_filter = Scan_process_filter env, jc_key = (\<lambda>_. unhandled),
    jc_mempool = (\<lambda>_. unhandled), jc_process = (\<lambda>_. unhandled), jc_reprocess = (\<lambda>_. unhandled),
    jc_start_scan = Scan_start_scan env, jc_do_rescan = Scan_do_rescan, jc_reorg = Scan_do_reorg\<rparr>"

section \<open>Rescan\<close>

record rescan_actor =
  ra_last_scanned :: "block_position option"
  ra_filter_tip :: "block_position option"
  ra_highest_dirty :: block_position
  ra_dirty :: "block_position list"

text \<open>What the constructor sets.\<close>

definition new_rescan :: rescan_actor where
  "new_rescan = \<lparr>ra_last_scanned = None, ra_filter_tip = None, ra_highest_dirty = null_position, ra_dirty = []\<rparr>"

definition set_last_scanned :: "block_position option \<Rightarrow> rescan_actor actor \<Rightarrow> rescan_actor actor" where
  "set_last_scanned p = set_self (\<lambda>s. s\<lparr>ra_last_scanned := p\<rparr>)"

definition Rescan_current :: "rescan_actor actor \<Rightarrow> block_position" where
  "Rescan_current a = position_or_null (ra_last_scanned (ac_self a))"

definition adjust_last_scanned :: "block_position option \<Rightarrow> rescan_actor actor \<Rightarrow> rescan_actor actor" where
  "adjust_last_scanned highestClean a =
    (if wp_scan_dirty (ac_parent a) then a
     else if highestClean \<noteq> None then set_last_scanned highestClean a else a)"

definition Rescan_before :: "actor_env \<Rightarrow> block_position \<Rightarrow> block_position" where
  "Rescan_before env position = ae_position env (max (fst position - 1) 0)"

definition can_advance :: "actor_env \<Rightarrow> rescan_actor actor \<Rightarrow> bool" where
  "can_advance env a =
    (let target = (if ra_dirty (ac_self a) = [] then position_or_null (ra_filter_tip (ac_self a))
                   else ae_position env (max (fst (hd (ra_dirty (ac_self a))) - 1) 0))
     in Rescan_current a \<noteq> target)"

definition Rescan_caught_up :: "rescan_actor actor \<Rightarrow> bool" where
  "Rescan_caught_up a \<longleftrightarrow> Rescan_current a = position_or_null (ra_filter_tip (ac_self a))"

definition Rescan_highest_clean :: "block_position list \<Rightarrow> rescan_actor actor \<Rightarrow> block_position option" where
  "Rescan_highest_clean clean a =
    (if clean = [] then None
     else if ra_dirty (ac_self a) = [] then Some (last clean)
     else let below = takeWhile (\<lambda>p. p < hd (ra_dirty (ac_self a))) clean in
       if below \<noteq> [] then Some (last below) else None)"

definition process_clean :: "(8 word \<times> block_position) list \<Rightarrow> rescan_actor actor \<Rightarrow> rescan_actor actor" where
  "process_clean clean = fold (\<lambda>(state, position) a.
     if state = scan_state_byte ScanProcessed
     then set_self (\<lambda>s. s\<lparr>ra_dirty := oset_del position (ra_dirty s)\<rparr>) a else a) clean"

definition process_dirty :: "actor_env \<Rightarrow> block_position list \<Rightarrow> rescan_actor actor \<Rightarrow> rescan_actor actor" where
  "process_dirty env dirty a =
    (let a = (if dirty \<noteq> []
              then set_self (\<lambda>s. s\<lparr>ra_dirty := fold oset_put dirty (ra_dirty s)\<rparr>)
                     (set_parent (\<lambda>p. p\<lparr>wp_scan_dirty := True\<rparr>) a)
              else a)
     in if ra_dirty (ac_self a) \<noteq> [] then
          let lowestDirty = hd (ra_dirty (ac_self a)); highestDirty = last (ra_dirty (ac_self a));
              limit = Rescan_before env lowestDirty;
              a = (if IsReplacedBy (Rescan_current a) limit then set_last_scanned (Some limit) a else a)
          in set_self (\<lambda>s. s\<lparr>ra_highest_dirty := max (ra_highest_dirty s) highestDirty\<rparr>) a
        else a)"

definition Rescan_do_rescan :: "job_message \<Rightarrow> rescan_actor actor \<Rightarrow> rescan_actor actor outcome" where
  "Rescan_do_rescan msg a =
    Inr (send_to ToProgress msg
      (set_self (\<lambda>s. s\<lparr>ra_last_scanned := None, ra_highest_dirty := null_position, ra_dirty := []\<rparr>) a))"

definition Rescan_do_reorg :: "block_position \<Rightarrow> rescan_actor actor \<Rightarrow> (bool \<times> rescan_actor actor) outcome" where
  "Rescan_do_reorg position a =
    (if \<not> wp_need_reorg (ac_parent a) then Inr (True, a)
     else Job_do_reorg position (set_self (\<lambda>s. s\<lparr>
       ra_last_scanned := map_option (ReorgTarget position) (ra_last_scanned s),
       ra_filter_tip := reset_tip position (ra_filter_tip s),
       ra_dirty := takeWhile (\<lambda>p. p \<le> position) (ra_dirty s)\<rparr>) a))"

definition Rescan_startup :: "actor_env \<Rightarrow> rescan_actor actor \<Rightarrow> rescan_actor actor outcome" where
  "Rescan_startup env a =
    (let last = wp_last_scanned (ac_parent a); tip = ae_filter_tip env;
         last = (if IsReplacedBy last tip then tip else last)
     in Inr (set_self (\<lambda>s. s\<lparr>ra_last_scanned := Some last, ra_filter_tip := Some tip\<rparr>) a))"

definition is_finished :: "block_position \<Rightarrow> block_position \<Rightarrow> bool" where
  "is_finished lhs rhs = (if fst lhs < fst rhs then True else if fst lhs > fst rhs then False else snd lhs = snd rhs)"

definition prune :: "rescan_actor actor \<Rightarrow> rescan_actor actor" where
  "prune a = (case ra_last_scanned (ac_self a) of
     None \<Rightarrow> TriggerRescan a
   | Some target \<Rightarrow> set_self (\<lambda>s. s\<lparr>ra_dirty := dropWhile (\<lambda>p. is_finished p target) (ra_dirty s)\<rparr>) a)"

definition rescan_finished :: "rescan_actor actor \<Rightarrow> bool \<times> rescan_actor actor" where
  "rescan_finished a = (case ra_last_scanned (ac_self a) of
     None \<Rightarrow> (True, TriggerRescan a)
   | Some p \<Rightarrow>
       (if Rescan_caught_up a then True
        else if ra_dirty (ac_self a) \<noteq> [] then False
        else let clean = fst p; dirty = fst (ra_highest_dirty (ac_self a)) in
          if dirty > clean then False else clean - dirty > FinishRescan, a))"

definition Rescan_stop :: "rescan_actor actor \<Rightarrow> int" where
  "Rescan_stop a = (if ra_dirty (ac_self a) = [] then maximum_height else max 0 (fst (hd (ra_dirty (ac_self a))) - 1))"

definition Rescan_batch :: "actor_env \<Rightarrow> rescan_actor actor \<Rightarrow> (bool \<times> rescan_actor actor) outcome" where
  "Rescan_batch env a = (case ra_filter_tip (ac_self a) of
     None \<Rightarrow> Inl Terminated
   | Some tip \<Rightarrow>
       bind_outcome (Rescan (ae_scan env) tip (Rescan_stop a) (Rescan_current a) [] (wp_data (ac_parent a)))
         (\<lambda>(highestClean, highestTested, dirty, sd).
           let a = set_parent (\<lambda>p. p\<lparr>wp_data := sd\<rparr>) a;
               a = (if highestClean \<noteq> None then prune (set_last_scanned highestClean a) else a)
           in if ra_last_scanned (ac_self a) = None then Inr (False, TriggerRescan a)
              else
                let a = (if dirty \<noteq> []
                         then send_to ToProcess (status_update ReprocessWork dirty a)
                                (set_self (\<lambda>s. s\<lparr>ra_dirty := fold oset_put (map snd dirty) (ra_dirty s)\<rparr>) a)
                         else a)
                in Inr (can_advance env a, a)))"

definition Rescan_body :: "actor_env \<Rightarrow> rescan_actor actor \<Rightarrow> (bool \<times> rescan_actor actor) outcome" where
  "Rescan_body env a =
    (if \<not> wp_scan_dirty (ac_parent a) then Inr (False, a)
     else let finished = fst (rescan_finished a); a = snd (rescan_finished a) in
       if finished then Inr (False, set_parent (\<lambda>p. p\<lparr>wp_scan_dirty := False\<rparr>) a)
       else if fst (Rescan_current a) \<ge> Rescan_stop a then Inr (False, a)
       else Rescan_batch env a)"

definition report_progress :: "rescan_actor actor \<Rightarrow> rescan_actor actor" where
  "report_progress a = (case ra_last_scanned (ac_self a) of
     Some p \<Rightarrow> send_to ToProgress (status_update UpdateWork [(RescanClean, p)] a) a
   | None \<Rightarrow> a)"

definition Rescan_work :: "actor_env \<Rightarrow> rescan_actor actor \<Rightarrow> (bool \<times> rescan_actor actor) outcome" where
  "Rescan_work env a =
    (if jb_state (ac_job a) = JobReorg then Inr (False, a)
     else bind_outcome (Rescan_body env a) (\<lambda>(again, a). Inr (again, process_watchdog 3 (report_progress a))))"

definition Rescan_do_process_update :: "actor_env \<Rightarrow> job_message \<Rightarrow> rescan_actor actor \<Rightarrow> rescan_actor actor outcome" where
  "Rescan_do_process_update env msg a =
    bind_outcome (decode msg) (\<lambda>(clean, dirty).
      let highestClean = Rescan_highest_clean (fold oset_put (map snd clean) []) a;
          a = adjust_last_scanned highestClean a;
          a = process_dirty env dirty a;
          a = process_clean clean a
      in if wp_scan_dirty (ac_parent a) then Actor_do_work env (Rescan_work env) a
         else if clean \<noteq> [] then Inr (send_to ToProgress msg a) else Inr a)"

definition Rescan_process_filter ::
  "actor_env \<Rightarrow> job_message \<Rightarrow> block_position \<Rightarrow> rescan_actor actor \<Rightarrow> rescan_actor actor outcome" where
  "Rescan_process_filter env msg tip a =
    (let accept = Actor_do_work env (Rescan_work env) (set_self (\<lambda>s. s\<lparr>ra_filter_tip := Some tip\<rparr>) a) in
     case last_reorg a of
       None \<Rightarrow> accept
     | Some epoc \<Rightarrow>
         if 5 \<ge> body_size msg then Inr a
         else bind_outcome (body_frame msg 5) (\<lambda>f. bind_outcome (frame_as 8 f) (\<lambda>incoming.
           if incoming < epoc then Inr a else accept)))"

definition Rescan_class :: "actor_env \<Rightarrow> rescan_actor job_class" where
  "Rescan_class env = \<lparr>
    jc_type = 3, jc_startup = Rescan_startup env, jc_work = Rescan_work env, jc_update = Rescan_do_process_update env,
    jc_blocks = (\<lambda>_. unhandled), jc_filter = Rescan_process_filter env, jc_key = (\<lambda>_. unhandled),
    jc_mempool = (\<lambda>_. unhandled), jc_process = (\<lambda>_. unhandled), jc_reprocess = (\<lambda>_. unhandled),
    jc_start_scan = (\<lambda>_. unhandled), jc_do_rescan = Rescan_do_rescan, jc_reorg = Rescan_do_reorg\<rparr>"

section \<open>Progress\<close>

definition set_progress :: "block_position option \<Rightarrow> unit actor \<Rightarrow> unit actor" where
  "set_progress p = set_parent (\<lambda>w. w\<lparr>wp_progress := p\<rparr>)"

definition SubchainSetLastScanned :: "actor_env \<Rightarrow> block_position \<Rightarrow> unit actor \<Rightarrow> unit actor" where
  "SubchainSetLastScanned env p =
    set_parent (\<lambda>w. if ae_store_scanned env p then w\<lparr>wp_last_scanned := p\<rparr> else w)"

definition Progress_do_process_update :: "actor_env \<Rightarrow> job_message \<Rightarrow> unit actor \<Rightarrow> unit actor outcome" where
  "Progress_do_process_update env msg a =
    bind_outcome (decode msg) (\<lambda>(clean, dirty).
      assert_that ''0u == dirty.size()'' (dirty = [])
      (assert_that ''0u < clean.size()'' (clean \<noteq> [])
        (let best = snd (last clean);
             a = (if wp_progress (ac_parent a) \<noteq> Some best
                  then send_to ToScan (StateMachineWork, [])
                         (emit (ReportScan best) (set_progress (Some best) (SubchainSetLastScanned env best a)))
                  else a)
         in Inr (set_parent (\<lambda>p. p\<lparr>wp_data := (wp_data p)\<lparr>sd_matches := MatchCache_Forget best (sd_matches (wp_data p))\<rparr>\<rparr>) a))))"

definition Progress_do_reorg :: "block_position \<Rightarrow> unit actor \<Rightarrow> (bool \<times> unit actor) outcome" where
  "Progress_do_reorg position a =
    (if \<not> wp_need_reorg (ac_parent a) then Inr (True, a)
     else Job_do_reorg position (case wp_progress (ac_parent a) of
       Some p \<Rightarrow> let target = ReorgTarget position p in emit (ReportScan target) (set_progress (Some target) a)
     | None \<Rightarrow> a))"

definition Progress_do_rescan :: "actor_env \<Rightarrow> job_message \<Rightarrow> unit actor \<Rightarrow> unit actor outcome" where
  "Progress_do_rescan env msg a =
    (let a = SubchainSetLastScanned env null_position (set_progress None a);
         a = set_parent (\<lambda>p. p\<lparr>wp_rescan_pending := False\<rparr>) a
     in Inr (send_to ToScan (StateMachineWork, []) (emit (ReportScan null_position) a)))"

definition Progress_class :: "actor_env \<Rightarrow> unit job_class" where
  "Progress_class env = \<lparr>
    jc_type = 4, jc_startup = Inr, jc_work = Job_work 4, jc_update = Progress_do_process_update env,
    jc_blocks = (\<lambda>_. unhandled), jc_filter = (\<lambda>_ _. unhandled), jc_key = (\<lambda>_. unhandled),
    jc_mempool = (\<lambda>_. unhandled), jc_process = (\<lambda>_. unhandled), jc_reprocess = (\<lambda>_. unhandled),
    jc_start_scan = (\<lambda>_. unhandled), jc_do_rescan = Progress_do_rescan env, jc_reorg = Progress_do_reorg\<rparr>"

end
