(* ===== verification/Wallet_Reorg.thy ===== *)
theory Wallet_Reorg
  imports Wallet_Scanners Header_Branches
begin

text \<open>
  What a reorganisation does to a subchain: \<open>SubchainStateData::do_reorg\<close>, the wallet database below it
  (\<open>src/blockchain/database/Wallet.cpp\<close>, \<open>src/blockchain/database/wallet/SubchainPrivate.cpp\<close>) and
  the header oracle, which runs the jobs of all subchains and actors one after the other. The database of the outputs is a
  parameter.
\<close>

section \<open>Hashes\<close>

text \<open>The header oracle counts with hashes as numbers, the wallet has their bytes.\<close>

definition hash_bytes :: "hash \<Rightarrow> view" where
  "hash_bytes h = le_bytes 32 (of_nat h :: 256 word)"

definition hash_number :: "view \<Rightarrow> hash" where
  "hash_number v = unat (le_value v :: 256 word)"

definition bytes_position :: "position \<Rightarrow> block_position" where
  "bytes_position p = (fst p, hash_bytes (snd p))"

definition number_position :: "block_position \<Rightarrow> position" where
  "number_position p = (fst p, hash_number (snd p))"

lemma number_bytes_position [simp]:
  assumes "snd p < 2 ^ 256"
  shows "number_position (bytes_position p) = p"
  using assms
  by (simp add: number_position_def bytes_position_def hash_number_def hash_bytes_def le_value_bytes take_bit_word_eq_self
      unat_of_nat take_bit_nat_eq_self_iff flip: take_bit_eq_mod)

lemma fst_positions [simp]: "fst (bytes_position p) = fst p" "fst (number_position q) = fst q"
  by (simp_all add: bytes_position_def number_position_def)

section \<open>The database\<close>

record reorg_env =
  re_oracle :: header_oracle
  re_store :: "block_position \<Rightarrow> bool" \<comment> \<open>whether the position is written\<close>
  re_start_reorg :: "block_position \<Rightarrow> bool" \<comment> \<open>\<open>Output::StartReorg\<close>\<close>

definition subchain_reorg :: "reorg_env \<Rightarrow> int \<Rightarrow> wallet_parent \<Rightarrow> (bool \<times> wallet_parent) outcome" where
  "subchain_reorg env lastGoodHeight w =
    (let height = fst (wp_last_scanned w) in
     if height < lastGoodHeight then Inr (True, w)
     else
       let target = (if height > lastGoodHeight then lastGoodHeight else max (lastGoodHeight - 1) 0);
           position = bytes_position (get_position (re_oracle env) target)
       in if re_store env position then Inr (False, w\<lparr>wp_last_scanned := position\<rparr>) else Inl Unreachable)"

definition ReorgTo :: "reorg_env \<Rightarrow> block_position list \<Rightarrow> wallet_parent \<Rightarrow> (bool \<times> wallet_parent) outcome" where
  "ReorgTo env reorg w =
    (if reorg = [] then Inr (True, w)
     else
       let oldest = hd reorg; lastGoodHeight = fst oldest - 1
       in bind_outcome (subchain_reorg env lastGoodHeight w) (\<lambda>(done, w).
            if done then Inr (True, w) else Inr (list_all (re_start_reorg env) reorg, w)))"

section \<open>The subchain\<close>

definition Subchain_do_reorg :: "reorg_env \<Rightarrow> wallet_parent \<Rightarrow> (bool \<times> wallet_parent) outcome" where
  "Subchain_do_reorg env w =
    (let tip = wp_last_scanned w in
     case calculate_reorg (re_oracle env) (number_position tip) of
       None \<Rightarrow> Inr (False, w)
     | Some reorg \<Rightarrow>
         if reorg = [] then Inr (True, w\<lparr>wp_need_reorg := False\<rparr>)
         else ReorgTo env (map bytes_position reorg) (w\<lparr>wp_need_reorg := True\<rparr>))"

text \<open>The header oracle runs the jobs until one of them fails.\<close>

fun Execute :: "('w \<Rightarrow> (bool \<times> 'w) outcome) list \<Rightarrow> 'w \<Rightarrow> (bool \<times> 'w) outcome" where
  "Execute [] w = Inr (True, w)"
| "Execute (job # jobs) w = bind_outcome (job w) (\<lambda>(ok, w). if ok then Execute jobs w else Inr (False, w))"

section \<open>The branch that was left\<close>

lemma branch_height:
  assumes "oracle_inv env s" "branch s x qs pos"
  shows "hd_height x = fst pos + int (length qs)"
proof -
  have keyed: "keyed (db_headers (ho_db s))"
    using assms(1) by (simp add: oracle_inv_def chain_inv_def)
  obtain p where p: "db_headers (ho_db s) (snd pos) = Some p"
    using assms(2) by (auto simp: branch_def HeaderExists_def)
  have "snd pos = BestBlock (fst pos) (ho_db s)"
    using assms(2) by (simp add: branch_def position_in_best_chain_def at_height_def)
  moreover have "snd pos \<noteq> null_hash"
    by (rule keyedD(2) [OF keyed p])
  ultimately have height: "hd_height p = fst pos" "hd_hash p = snd pos"
    using best_chain_facts(5) [OF assms(1), of "fst pos"] p keyedD(1) [OF keyed p] by auto
  show ?thesis
  proof (cases "qs = []")
    case False
    then have "fst (last (rev qs)) = hd_height p + int (length qs)"
      using assms(2) linked_sorted(3) [of "db_headers (ho_db s)" p "rev qs"] p by (simp add: branch_def height(2))
    then show ?thesis
      using False assms(2) by (simp add: branch_def height(1) last_rev Position_def)
  qed (use assms(2) in \<open>simp add: branch_def Position_def\<close>)
qed

lemma best_position_at:
  assumes "oracle_inv env s" "0 \<le> k" "k \<le> fst (ho_tip s)"
  shows "fst (get_position s k) = k" "position_in_best_chain s (get_position s k)"
  using best_chain_facts(1) [OF assms(1), of k] assms(2,3)
  by (simp_all add: get_position_def best_hash_def position_in_best_chain_def at_height_def)

text \<open>What a subchain does whose last scanned block was replaced.\<close>

lemma reorganised_subchain:
  assumes inv: "oracle_inv oenv (re_oracle env)"
    and x: "db_headers (ho_db (re_oracle env)) h = Some x" "\<not> IsDisconnected x" "\<not> position_in_best_chain (re_oracle env) (Position x)"
    and w: "wp_last_scanned w = bytes_position (Position x)" "hd_hash x < 2 ^ 256"
    and step: "Subchain_do_reorg env w = Inr (ok, w')"
  shows "\<exists>qs pos. calculate_reorg (re_oracle env) (Position x) = Some qs \<and> branch (re_oracle env) x qs pos \<and>
    hd_height x = fst pos + int (length qs) \<and> 0 < length qs \<and>
    w' = w\<lparr>wp_need_reorg := True, wp_last_scanned := bytes_position (get_position (re_oracle env) (hd_height x - 1))\<rparr>"
proof -
  obtain qs pos where qs: "calculate_reorg (re_oracle env) (Position x) = Some qs" "branch (re_oracle env) x qs pos"
    using branch_spec [OF inv x(1,2)] by blast
  have "qs \<noteq> []" "hd qs = Position x"
    using qs(2) x(3) by (auto simp: branch_def split: if_splits)
  then have "hd (map bytes_position qs) = bytes_position (Position x)"
    by (simp add: hd_map)
  then have "w' = w\<lparr>wp_need_reorg := True, wp_last_scanned := bytes_position (get_position (re_oracle env) (hd_height x - 1))\<rparr>"
    using step qs(1) \<open>qs \<noteq> []\<close> w
    by (auto simp: Subchain_do_reorg_def ReorgTo_def subchain_reorg_def Let_def bind_outcome_eq_Inr Position_def split: if_splits)
  then show ?thesis
    using qs branch_height [OF inv qs(2)] \<open>qs \<noteq> []\<close> by blast
qed

end
