(* ===== verification/Wallet_Rescan.thy ===== *)
theory Wallet_Rescan
  imports Wallet_Scanners Wallet_Actor_Facts Wallet_Scan_Blocks
begin

text \<open>
  The actor \<open>Rescan\<close> stays behind the blocks that must be processed, whatever messages arrive and in whatever order.
\<close>

section \<open>Scans as the actors see them\<close>

definition scans_sanely :: "scan_env \<Rightarrow> bool" where
  "scans_sanely env \<longleftrightarrow> (\<exists>h t contents available. serves env h t contents available \<and>
    (\<forall>start n. length (sn_best_hashes env start n) \<le> n \<and> (\<forall>b \<in> set (sn_best_hashes env start n). sane_block contents b)))"

lemma scan_forward:
  assumes "scans_sanely env" "scan env rescan best stop tested [] sd = Inr (clean, tested', out, sd')"
  shows "clean = Some q \<Longrightarrow> fst tested < fst q \<and> fst q \<le> stop"
    and "(s, p) \<in> set out \<Longrightarrow> s = ScanDirty \<and> fst tested < fst p"
    and "clean = Some q \<Longrightarrow> (s, p) \<in> set out \<Longrightarrow> q < p"
proof -
  obtain h t contents available where serves: "serves env h t contents available"
    and hashes: "\<And>start n. length (sn_best_hashes env start n) \<le> n"
      "\<And>start n. \<forall>b \<in> set (sn_best_hashes env start n). sane_block contents b"
    using assms(1) unfolding scans_sanely_def by blast
  define bs where "bs = scan_hashes env best stop tested sd"
  have sane: "\<forall>b \<in> set bs. sane_block contents b"
    using hashes(2) by (simp add: bs_def scan_hashes_def Let_def)
  define si where "si = scan_at env h tested bs sd"
  note res = scan_returned [OF serves sane bs_def assms(2) si_def]
  note pos = position_nth [OF _ si_def]
  have "int (length bs) \<le> max 0 (stop - fst tested)"
    using hashes(1) [of "fst tested + 1"] by (auto simp: bs_def scan_hashes_def stop_height_def Let_def le_nat_iff intro!: order.trans [OF iffD2 [OF of_nat_le_iff hashes(1)]])
  moreover have "si_blocks si \<le> length bs"
    using res(1) by (simp add: length_takeWhile_le)
  ultimately have bound: "i < si_blocks si \<Longrightarrow> fst tested < fst (si_position si i) \<and> fst (si_position si i) \<le> stop" for i
    using pos [of i] by auto
  have out: "(s, p) \<in> set out \<longleftrightarrow> s = ScanDirty \<and> (\<exists>i < si_blocks si. si_dirty si i \<and> p = si_position si i)" for s p
    by (auto simp: res(4) positions_of_def)
  show "(s, p) \<in> set out \<Longrightarrow> s = ScanDirty \<and> fst tested < fst p"
    using bound by (auto simp: out)
  have q: "clean_prefix si \<noteq> 0 \<and> q = si_position si (clean_prefix si - 1)" if "clean = Some q"
    using that by (auto simp: res(2) split: if_splits)
  show "clean = Some q \<Longrightarrow> fst tested < fst q \<and> fst q \<le> stop"
    using bound [of "clean_prefix si - 1"] clean_prefix_le [of si] by (auto dest!: q)
  show "clean = Some q \<Longrightarrow> (s, p) \<in> set out \<Longrightarrow> q < p"
    using clean_prefix_position(2) by (auto simp: out dest!: q)
qed

section \<open>The invariant\<close>

text \<open>The block at height 0 has no predecessor to go back to, and is left out.\<close>

definition behind :: "rescan_actor \<Rightarrow> bool" where
  "behind s \<longleftrightarrow> sorted (ra_dirty s) \<and> distinct (ra_dirty s) \<and>
    (\<forall>l d. ra_last_scanned s = Some l \<and> d \<in> set (ra_dirty s) \<and> 0 < fst d \<longrightarrow> l < d)"

definition rescan_env_ok :: "actor_env \<Rightarrow> bool" where
  "rescan_env_ok env \<longleftrightarrow> scans_sanely (ae_scan env) \<and> (\<forall>h \<ge> 0. fst (ae_position env h) \<le> h)"

lemma less_position: "fst l < fst d \<Longrightarrow> l < (d :: block_position)"
  by (cases l; cases d) simp

lemma behindI [intro]:
  assumes "sorted (ra_dirty s)" "distinct (ra_dirty s)"
    and "\<And>l d. ra_last_scanned s = Some l \<Longrightarrow> d \<in> set (ra_dirty s) \<Longrightarrow> 0 < fst d \<Longrightarrow> l < d"
  shows "behind s"
  using assms unfolding behind_def by blast

lemma behindD:
  assumes "behind s"
  shows "sorted (ra_dirty s)" "distinct (ra_dirty s)"
    "ra_last_scanned s = Some l \<Longrightarrow> d \<in> set (ra_dirty s) \<Longrightarrow> 0 < fst d \<Longrightarrow> l < d"
  using assms unfolding behind_def by blast+

lemma hd_le: "sorted ds \<Longrightarrow> d \<in> set ds \<Longrightarrow> hd ds \<le> (d :: block_position)"
  by (cases ds) auto

lemma hd_height: "sorted ds \<Longrightarrow> d \<in> set ds \<Longrightarrow> fst (hd ds) \<le> fst (d :: block_position)"
  using hd_le [of ds d] by (cases "hd ds"; cases d) auto

text \<open>What is below the block before the lowest dirty one is below all of them.\<close>

lemma below_dirty:
  assumes "sorted ds" "d \<in> set ds" "0 < fst d" "fst l \<le> max (fst (hd ds) - 1) 0"
  shows "l < (d :: block_position)"
  using assms hd_height [OF assms(1,2)] by (intro less_position) auto

lemma behind_adjust:
  assumes "behind (ac_self a)"
  shows "behind (ac_self (adjust_last_scanned (Rescan_highest_clean clean a) a))"
proof -
  have "q < d" if "Rescan_highest_clean clean a = Some q" "d \<in> set (ra_dirty (ac_self a))" for q d
  proof -
    let ?below = "takeWhile (\<lambda>p. p < hd (ra_dirty (ac_self a))) clean"
    have "?below \<noteq> []" "q = last ?below"
      using that by (auto simp: Rescan_highest_clean_def Let_def split: if_splits)
    then have "q < hd (ra_dirty (ac_self a))"
      using set_takeWhileD [of q "\<lambda>p. p < hd (ra_dirty (ac_self a))" clean] by simp
    then show ?thesis
      using hd_le [OF behindD(1) [OF assms] that(2)] by simp
  qed
  then show ?thesis
    using behindD [OF assms] by (auto simp: adjust_last_scanned_def set_last_scanned_def)
qed

lemma behind_process_dirty:
  assumes "behind (ac_self a)" "\<And>h. 0 \<le> h \<Longrightarrow> fst (ae_position env h) \<le> h"
  shows "behind (ac_self (process_dirty env dirty a))"
proof -
  define b where "b = (if dirty \<noteq> []
    then set_self (\<lambda>s. s\<lparr>ra_dirty := fold oset_put dirty (ra_dirty s)\<rparr>) (set_parent (\<lambda>p. p\<lparr>wp_scan_dirty := True\<rparr>) a) else a)"
  let ?ds = "ra_dirty (ac_self b)"
  let ?limit = "Rescan_before env (hd ?ds)"
  have ds: "sorted ?ds" "distinct ?ds"
    using behindD [OF assms(1)] by (simp_all add: b_def)
  have last: "ra_last_scanned (ac_self b) = ra_last_scanned (ac_self a)"
    by (simp add: b_def)
  have limit: "fst ?limit \<le> max (fst (hd ?ds) - 1) 0"
    using assms(2) [of "max (fst (hd ?ds) - 1) 0"] by (simp add: Rescan_before_def)
  have *: "process_dirty env dirty a = (if ?ds \<noteq> [] then
      set_self (\<lambda>s. s\<lparr>ra_highest_dirty := max (ra_highest_dirty s) (last ?ds)\<rparr>)
        (if IsReplacedBy (Rescan_current b) ?limit then set_last_scanned (Some ?limit) b else b) else b)"
    by (simp add: process_dirty_def b_def Let_def set_last_scanned_def)
  show ?thesis
  proof (cases "?ds = []")
    case True
    then show ?thesis
      using behindI [of "ac_self b"] by (simp add: * )
  next
    case False
    have "l < d" if "\<not> IsReplacedBy (Rescan_current b) ?limit" "ra_last_scanned (ac_self b) = Some l"
      "d \<in> set ?ds" "0 < fst d" for l d
      using that limit by (intro below_dirty [OF ds(1)]) (auto simp: IsReplacedBy_def Rescan_current_def position_or_null_def split: if_splits)
    moreover have "?limit < d" if "d \<in> set ?ds" "0 < fst d" for d
      using that limit by (intro below_dirty [OF ds(1)])
    ultimately show ?thesis
      using ds False by (auto simp: * set_last_scanned_def)
  qed
qed

lemma behind_subset:
  assumes "behind s" "sorted (ra_dirty s')" "distinct (ra_dirty s')" "set (ra_dirty s') \<subseteq> set (ra_dirty s)"
    and "\<And>l. ra_last_scanned s' = Some l \<Longrightarrow> \<exists>m. ra_last_scanned s = Some m \<and> l \<le> m"
  shows "behind s'"
proof (rule behindI)
  fix l d
  assume "ra_last_scanned s' = Some l" "d \<in> set (ra_dirty s')" "0 < fst d"
  then obtain m where "ra_last_scanned s = Some m" "l \<le> m"
    using assms(5) by blast
  then show "l < d"
    using behindD(3) [OF assms(1), of m d] assms(4) \<open>d \<in> set (ra_dirty s')\<close> \<open>0 < fst d\<close> by (blast intro: order.strict_trans1)
qed (use assms(2,3) in simp_all)

lemma behind_process_clean: "behind (ac_self a) \<Longrightarrow> behind (ac_self (process_clean clean a))"
proof (induction clean arbitrary: a)
  case (Cons c clean)
  have "behind (s\<lparr>ra_dirty := oset_del p (ra_dirty s)\<rparr>)" if "behind s" for s p
    using behindD [OF that] by (intro behind_subset [OF that]) (auto simp: oset_del_def removeAll_filter_not_eq sorted_wrt_filter)
  then show ?case
    using Cons by (cases c) (simp add: process_clean_def)
qed (simp add: process_clean_def)

lemma behind_prune:
  assumes "behind (ac_self a)"
  shows "behind (ac_self (prune a))"
  using behindD(1,2) [OF assms]
  by (intro behind_subset [OF assms]) (auto simp: prune_def sorted_wrt_dropWhile dest: set_dropWhileD split: option.splits)

lemma finished_simps [simp]:
  "ac_self (snd (rescan_finished a)) = ac_self a" "ac_job (snd (rescan_finished a)) = ac_job a"
  by (simp_all add: rescan_finished_def split: option.splits)

lemma batch_result:
  assumes "Rescan_batch env a = Inr (again, a')"
  obtains tip clean tested dirty sd c where
    "scan (ae_scan env) True tip (Rescan_stop a) (Rescan_current a) [] (wp_data (ac_parent a)) = Inr (clean, tested, dirty, sd)"
    "c = (let b = set_parent (\<lambda>p. p\<lparr>wp_data := sd\<rparr>) a in if clean \<noteq> None then prune (set_last_scanned clean b) else b)"
    "ac_self a' = (if ra_last_scanned (ac_self c) = None then ac_self c
      else (ac_self c)\<lparr>ra_dirty := fold oset_put (map snd dirty) (ra_dirty (ac_self c))\<rparr>)"
    "ac_job a' = ac_job c"
proof -
  obtain tip where tip: "ra_filter_tip (ac_self a) = Some tip"
    using assms by (cases "ra_filter_tip (ac_self a)") (simp_all add: Rescan_batch_def)
  obtain clean tested dirty sd where
    scan: "scan (ae_scan env) True tip (Rescan_stop a) (Rescan_current a) [] (wp_data (ac_parent a)) = Inr (clean, tested, dirty, sd)"
    using assms by (cases "scan (ae_scan env) True tip (Rescan_stop a) (Rescan_current a) [] (wp_data (ac_parent a))")
      (auto simp: Rescan_batch_def tip Rescan_def)
  define c where "c = (if clean \<noteq> None then prune (set_last_scanned clean (set_parent (\<lambda>p. p\<lparr>wp_data := sd\<rparr>) a))
    else set_parent (\<lambda>p. p\<lparr>wp_data := sd\<rparr>) a)"
  define d where "d = (if dirty \<noteq> [] then send_to ToProcess (status_update ReprocessWork dirty c)
      (set_self (\<lambda>s. s\<lparr>ra_dirty := fold oset_put (map snd dirty) (ra_dirty s)\<rparr>) c) else c)"
  have "(if ra_last_scanned (ac_self c) = None then Inr (False, TriggerRescan c) else Inr (can_advance env d, d)) = (Inr (again, a') :: (bool \<times> rescan_actor actor) outcome)"
    using assms unfolding Rescan_batch_def tip option.case Rescan_def scan bind_outcome_Inr prod.case Let_def
      d_def c_def .
  then have "ac_self a' = (if ra_last_scanned (ac_self c) = None then ac_self c
      else (ac_self c)\<lparr>ra_dirty := fold oset_put (map snd dirty) (ra_dirty (ac_self c))\<rparr>) \<and> ac_job a' = ac_job c"
    by (cases "ra_last_scanned (ac_self c)"; cases dirty) (auto simp: d_def)
  moreover have "c = (let b = set_parent (\<lambda>p. p\<lparr>wp_data := sd\<rparr>) a in if clean \<noteq> None then prune (set_last_scanned clean b) else b)"
    unfolding c_def Let_def ..
  ultimately show thesis
    using that [OF scan] by blast
qed

lemma prune_job [simp]: "ac_job (prune a) = ac_job a" "ac_job (set_last_scanned p a) = ac_job a"
  by (simp_all add: prune_def set_last_scanned_def split: option.splits)

lemma batch_job: "Rescan_batch env a = Inr (again, a') \<Longrightarrow> ac_job a' = ac_job a"
  by (erule batch_result) (simp add: Let_def)

text \<open>A batch never passes the lowest dirty block, and what it finds lies above it.\<close>

lemma behind_batch:
  assumes "scans_sanely (ae_scan env)" "behind (ac_self a)" "fst (Rescan_current a) < Rescan_stop a"
    "Rescan_batch env a = Inr (again, a')"
  shows "behind (ac_self a')"
proof -
  let ?s = "ac_self a"
  from assms(4) obtain tip clean tested dirty sd c where
    scan: "scan (ae_scan env) True tip (Rescan_stop a) (Rescan_current a) [] (wp_data (ac_parent a)) = Inr (clean, tested, dirty, sd)"
    and c_def: "c = (let b = set_parent (\<lambda>p. p\<lparr>wp_data := sd\<rparr>) a in if clean \<noteq> None then prune (set_last_scanned clean b) else b)"
    and a': "ac_self a' = (if ra_last_scanned (ac_self c) = None then ac_self c
      else (ac_self c)\<lparr>ra_dirty := fold oset_put (map snd dirty) (ra_dirty (ac_self c))\<rparr>)"
    by (rule batch_result)
  note forward = scan_forward [OF assms(1) scan]
  define b where "b = set_parent (\<lambda>p. p\<lparr>wp_data := sd\<rparr>) a"
  have bc: "ac_self b = ?s"
    by (simp add: b_def)
  have c_def: "c = (if clean \<noteq> None then prune (set_last_scanned clean b) else b)"
    by (simp add: c_def b_def Let_def)
  have "behind (ac_self (set_last_scanned clean b))" if "clean = Some q" for q
  proof (rule behindI)
    fix l d
    assume "ra_last_scanned (ac_self (set_last_scanned clean b)) = Some l" and
      d: "d \<in> set (ra_dirty (ac_self (set_last_scanned clean b)))" "0 < fst d"
    then have "l = q" "d \<in> set (ra_dirty ?s)"
      using that by (simp_all add: set_last_scanned_def bc)
    moreover from this(2) have "fst q \<le> max 0 (fst (hd (ra_dirty ?s)) - 1)"
      using forward(1) [OF that] by (auto simp: Rescan_stop_def split: if_splits)
    ultimately show "l < d"
      using d(2) by (intro below_dirty [OF behindD(1) [OF assms(2)]]) auto
  qed (use behindD [OF assms(2)] in \<open>simp_all add: set_last_scanned_def bc\<close>)
  then have c: "behind (ac_self c)"
    using assms(2) by (auto simp: c_def bc intro: behind_prune)
  have last_c: "ra_last_scanned (ac_self c) = (if clean = None then ra_last_scanned ?s else clean)"
    by (auto simp: c_def bc prune_def set_last_scanned_def split: option.splits)
  have new: "l < d" if "ra_last_scanned (ac_self c) = Some l" "d \<in> snd ` set dirty" for l d
  proof (cases clean)
    case None
    then have "l = Rescan_current a"
      using that(1) by (simp add: last_c Rescan_current_def position_or_null_def)
    then show ?thesis
      using that(2) forward(2) by (auto intro: less_position)
  next
    case (Some q)
    then show ?thesis
      using that forward(3) [OF Some] by (auto simp: last_c)
  qed
  show "behind (ac_self a')"
  proof (cases "ra_last_scanned (ac_self c) = None")
    case False
    then have self: "ac_self a' = (ac_self c)\<lparr>ra_dirty := fold oset_put (map snd dirty) (ra_dirty (ac_self c))\<rparr>"
      using a' unfolding if_not_P [OF False] by simp
    show ?thesis
    proof (rule behindI)
      fix l d
      assume "ra_last_scanned (ac_self a') = Some l" "d \<in> set (ra_dirty (ac_self a'))" "0 < fst d"
      then show "l < d"
        using new [of l d] behindD(3) [OF c, of l d] unfolding self by (auto simp del: less_prod_simp)
    qed (use behindD [OF c] in \<open>simp_all add: self\<close>)
  qed (use c a' in simp)
qed

lemma report_progress_simps [simp]:
  "ac_self (report_progress a) = ac_self a" "ac_job (report_progress a) = ac_job a"
  by (simp_all add: report_progress_def split: option.splits)

lemma body_job: "Rescan_body env a = Inr (again, a') \<Longrightarrow> ac_job a' = ac_job a"
  by (auto simp: Rescan_body_def Let_def split: if_splits dest: batch_job)

lemma behind_body:
  assumes "scans_sanely (ae_scan env)" "behind (ac_self a)" "Rescan_body env a = Inr (again, a')"
  shows "behind (ac_self a')"
proof (cases "\<not> wp_scan_dirty (ac_parent a) \<or> fst (rescan_finished a) \<or> Rescan_stop (snd (rescan_finished a)) \<le> fst (Rescan_current (snd (rescan_finished a)))")
  case False
  then have "Rescan_batch env (snd (rescan_finished a)) = Inr (again, a')"
    using assms(3) by (simp add: Rescan_body_def Let_def)
  with False show ?thesis
    using assms(2) by (rule_tac behind_batch [OF assms(1)]) simp_all
qed (use assms(2,3) in \<open>auto simp: Rescan_body_def Let_def split: if_splits\<close>)

definition rescan_sane :: "rescan_actor job_predicate" where
  "rescan_sane s p es \<longleftrightarrow> behind s"

lemma keeps_rescan:
  assumes "\<And>a a'. f a = Inr a' \<Longrightarrow> jb_init (ac_job a') = jb_init (ac_job a)"
    and "\<And>a a'. behind (ac_self a) \<Longrightarrow> f a = Inr a' \<Longrightarrow> behind (ac_self a')"
  shows "keeps rescan_sane f"
  using assms by (intro keepsI) (auto simp: holds_def rescan_sane_def)

lemma keeps_rescan_work:
  assumes ok: "rescan_env_ok env"
  shows "keeps_with rescan_sane (Rescan_work env)"
proof (rule keeps_withI)
  fix a r a'
  assume holds: "holds rescan_sane a" and step: "Rescan_work env a = Inr (r, a')"
  show "holds rescan_sane a'"
  proof (cases "jb_state (ac_job a) = JobReorg")
    case False
    then obtain c where "Rescan_body env a = Inr (r, c)" "ac_self a' = ac_self c" "ac_job a' = ac_job c"
      using step by (auto simp: Rescan_work_def bind_outcome_eq_Inr)
    then show ?thesis
      using ok holds behind_body [of env a r c] body_job [of env a r c]
      by (auto simp: holds_def rescan_sane_def rescan_env_ok_def)
  qed (use holds step in \<open>simp add: Rescan_work_def\<close>)
qed

lemma job_simps [simp]:
  "ac_job (adjust_last_scanned p a) = ac_job a" "ac_job (process_dirty env dirty a) = ac_job a"
  by (simp_all add: adjust_last_scanned_def process_dirty_def Let_def)

lemma process_clean_job [simp]: "ac_job (process_clean clean a) = ac_job a"
  by (induction clean arbitrary: a) (auto simp: process_clean_def)

lemma keeps_rescan_update:
  assumes ok: "rescan_env_ok env"
  shows "keeps rescan_sane (Rescan_do_process_update env msg)"
proof (rule keepsI)
  fix a a'
  assume holds: "holds rescan_sane a" and step: "Rescan_do_process_update env msg a = Inr a'"
  obtain clean dirty where msg: "decode msg = Inr (clean, dirty)"
    using step by (cases "decode msg") (auto simp: Rescan_do_process_update_def)
  define b where "b = process_clean clean (process_dirty env dirty
    (adjust_last_scanned (Rescan_highest_clean (fold oset_put (map snd clean) []) a) a))"
  have "holds rescan_sane b"
    using ok holds by (auto simp: b_def holds_def rescan_sane_def rescan_env_ok_def
        intro!: behind_process_clean behind_process_dirty behind_adjust)
  moreover have "(if wp_scan_dirty (ac_parent b) then Actor_do_work env (Rescan_work env) b
      else if clean \<noteq> [] then Inr (send_to ToProgress msg b) else Inr b) = (Inr a' :: rescan_actor actor outcome)"
    using step unfolding Rescan_do_process_update_def msg bind_outcome_Inr prod.case Let_def b_def .
  ultimately show "holds rescan_sane a'"
    by (auto split: if_splits dest: keepsD [OF keeps_do_work [OF keeps_rescan_work [OF ok]]])
qed

lemma keeps_rescan_filter:
  assumes ok: "rescan_env_ok env"
  shows "keeps rescan_sane (Rescan_process_filter env msg tip)"
proof (rule keepsI)
  fix a a'
  assume holds: "holds rescan_sane a" and step: "Rescan_process_filter env msg tip a = Inr a'"
  let ?b = "set_self (\<lambda>s. s\<lparr>ra_filter_tip := Some tip\<rparr>) a"
  have "holds rescan_sane ?b"
    using holds by (auto simp: holds_def rescan_sane_def behind_def)
  moreover have "a' = a \<or> Actor_do_work env (Rescan_work env) ?b = Inr a'"
    using step by (auto simp: Rescan_process_filter_def Let_def bind_outcome_eq_Inr split: option.splits if_splits)
  ultimately show "holds rescan_sane a'"
    using holds by (auto dest: keepsD [OF keeps_do_work [OF keeps_rescan_work [OF ok]]])
qed

text \<open>A job that was not started has no dirty blocks.\<close>

lemma min_below: "min m p = q \<Longrightarrow> q \<le> (m :: block_position)"
  by (auto simp: min_def split: if_splits)

definition fresh_rescan :: "rescan_actor job_predicate" where
  "fresh_rescan s p es \<longleftrightarrow> ra_dirty s = []"

lemma Rescan_class_simps [simp]:
  "jc_startup (Rescan_class env) = Rescan_startup env" "jc_work (Rescan_class env) = Rescan_work env"
  "jc_update (Rescan_class env) = Rescan_do_process_update env" "jc_blocks (Rescan_class env) = (\<lambda>_. unhandled)"
  "jc_filter (Rescan_class env) = Rescan_process_filter env" "jc_key (Rescan_class env) = (\<lambda>_. unhandled)"
  "jc_mempool (Rescan_class env) = (\<lambda>_. unhandled)" "jc_process (Rescan_class env) = (\<lambda>_. unhandled)"
  "jc_reprocess (Rescan_class env) = (\<lambda>_. unhandled)" "jc_start_scan (Rescan_class env) = (\<lambda>_. unhandled)"
  "jc_do_rescan (Rescan_class env) = Rescan_do_rescan" "jc_reorg (Rescan_class env) = Rescan_do_reorg"
  "jc_type (Rescan_class env) = 3"
  by (simp_all add: Rescan_class_def)

interpretation rescan: private_job_invariant rescan_env_ok Rescan_class fresh_rescan rescan_sane
proof
  show "rescan_sane (ac_self a') (ac_parent a') (told a')"
    if "fresh_rescan (ac_self a) (ac_parent a) (told a)" "jc_startup (Rescan_class env) a = Inr a'" for env a a'
    using that by (auto simp: fresh_rescan_def rescan_sane_def Rescan_startup_def Let_def behind_def)
  show "keeps rescan_sane (jc_do_rescan (Rescan_class env) msg)" for env msg
    by (rule keeps_rescan) (auto simp: Rescan_do_rescan_def behind_def)
  show "keeps_with rescan_sane (jc_reorg (Rescan_class env) p)" for env p
  proof (rule keeps_withI)
    fix a r a'
    assume holds: "holds rescan_sane a" and step: "jc_reorg (Rescan_class env) p a = Inr (r, a')"
    let ?s = "(ac_self a)\<lparr>ra_last_scanned := map_option (ReorgTarget p) (ra_last_scanned (ac_self a)),
      ra_filter_tip := reset_tip p (ra_filter_tip (ac_self a)), ra_dirty := takeWhile (\<lambda>q. q \<le> p) (ra_dirty (ac_self a))\<rparr>"
    have "behind ?s" if "behind (ac_self a)"
      using behindD(1,2) [OF that]
      by (intro behind_subset [OF that])
        (auto simp: ReorgTarget_def sorted_wrt_takeWhile dest: set_takeWhileD intro: min_below simp del: less_eq_prod_simp)
    then show "holds rescan_sane a'"
      using holds step by (auto simp: Rescan_do_reorg_def Job_do_reorg_def holds_def rescan_sane_def split: if_splits)
  qed
qed (auto simp: keeps_rescan_work keeps_rescan_update keeps_rescan_filter rescan_sane_def fresh_rescan_def)

end
