(* ===== verification/Wallet_Actor_Properties.thy ===== *)
theory Wallet_Actor_Properties
  imports Wallet_Rescan Wallet_Scan_Properties
begin

text \<open>
  The properties of the actors that scan: what holds whatever messages arrive in whatever order, and where a message is
  lost.
\<close>

section \<open>An example\<close>

definition example_actors :: actor_env where
  "example_actors = \<lparr>
    ae_scan = example_env (\<lambda>_. True), ae_limited = (\<lambda>_. True), ae_flush_due = (\<lambda>_. False),
    ae_position = (\<lambda>h. (h, replicate 32 0)), ae_filter_tip = (20, replicate 32 0), ae_filter_type = 4,
    ae_has_filter = (\<lambda>_. True), ae_header_position = (\<lambda>_. None), ae_parse_blocks = (\<lambda>_. None), ae_download_limit = 2,
    ae_add_confirmed = (\<lambda>_. Some ([], [])), ae_generated = None, ae_patterns = (\<lambda>_. []),
    ae_store_elements = (\<lambda>_. True), ae_store_scanned = (\<lambda>_. True), ae_own_key = (\<lambda>_. False), ae_chain = 1, ae_max_jobs = 2,
    ae_mempool = [], ae_in_mempool = (\<lambda>_. False), ae_mempool_match = (\<lambda>_ _. False), ae_add_mempool = (\<lambda>_. None), ae_reorg_stopped = False\<rparr>"

definition example_parent :: wallet_parent where
  "example_parent = \<lparr>
    wp_data = example_subchain, wp_scan_dirty = False, wp_need_reorg = False, wp_process_queue = 0, wp_progress = None,
    wp_rescan_pending = False, wp_cached = [], wp_last_scanned = (10, replicate 32 0), wp_last_indexed = None\<rparr>"

lemma example_actors_ok: "rescan_env_ok example_actors"
proof -
  have hashes: "sn_best_hashes (example_env (\<lambda>_. True)) start n = (if start = 0 \<and> 0 < n then [example_block] else [])" for start n
    by (simp add: example_env_def)
  have "scans_sanely (example_env (\<lambda>_. True))"
    unfolding scans_sanely_def using example_serves [of "\<lambda>_. True"] example_sane
    by (intro exI [of _ "\<lambda>_ _. 2 ^ 63"] exI [of _ ES] exI [of _ example_contents] exI [of _ "\<lambda>_. True"])
      (simp add: hashes Suc_le_eq)
  then show ?thesis
    by (simp add: rescan_env_ok_def example_actors_def)
qed

section \<open>Progress\<close>

text \<open>
  C12. \<open>Rescan\<close> keeps the set of the dirty blocks it was told of or found itself, until it is told that they are processed.
  However the messages, the reorganisations of the chain and the changes by the other actors follow each other, and
  whatever the oracles and the database answer at each step: while the actor is not shut down, the position up to which it takes
  the chain to be done, and which it reports as progress, is below every block of this set but the genesis block, which has no
  predecessor. What is asked of the oracles is that the filters served are those of the blocks (\<open>scans_sanely\<close>) and that
  a position asked for by its height is not above it. A block that must be processed but is not in the set, because \<open>Rescan\<close> was
  not told of it yet, can be passed: \<open>rescan_passes_block_in_flight\<close>.
\<close>

theorem rescan_stays_behind:
  assumes "job_steps rescan_env_ok Rescan_class (new_actor new_rescan p) a"
    and "jb_state (ac_job a) \<noteq> JobShutdown" "ra_last_scanned (ac_self a) = Some l"
    and "d \<in> set (ra_dirty (ac_self a))" "0 < fst d"
  shows "l < d"
proof (cases "jb_init (ac_job a)")
  case True
  then have "rescan_sane (ac_self a) (ac_parent a) (told a)"
    using assms(2) by (intro rescan.reached [OF assms(1)]) (simp_all add: fresh_rescan_def new_rescan_def)
  then show ?thesis
    using assms(3-5) by (simp add: rescan_sane_def behindD)
next
  case False
  then have "fresh_rescan (ac_self a) (ac_parent a) (told a)"
    using assms(2) by (intro rescan.not_started [OF assms(1)]) (simp_all add: fresh_rescan_def new_rescan_def)
  then show ?thesis
    using assms(4) by (simp add: fresh_rescan_def)
qed

text \<open>
  \<open>Rescan\<close> starts at height 10 and hears of a block at height 5 that must be processed: it goes back to height 4.
\<close>

definition example_update :: job_message where
  "example_update = encode [(ScanDirty, (5, replicate 32 1))] (UpdateWork, [[]])"

lemma example_decoded: "decode example_update = Inr ([], [(5, replicate 32 1)])"
  unfolding example_update_def by (subst decode_encode(1)) (simp_all add: sendable_def dirty_of_def oset_put_def)

lemma example_update_simps:
  "fst example_update = UpdateWork" "body_size example_update = 3" "body_frame example_update (Suc 0) = Inr []"
  by (simp_all add: example_update_def body_size_def body_frame_def)

definition example_started :: "rescan_actor actor" where
  "example_started = \<lparr>ac_job = new_job\<lparr>jb_init := True\<rparr>,
    ac_self = new_rescan\<lparr>ra_last_scanned := Some (10, replicate 32 0), ra_filter_tip := Some (20, replicate 32 0)\<rparr>,
    ac_parent = example_parent, ac_effects = []\<rparr>"

lemma example_starts:
  "worker example_actors (Rescan_class example_actors) (InitWork, []) (new_actor new_rescan example_parent) = Inr example_started"
  by (simp add: worker_def do_init_def do_startup_def flush_cache_def Rescan_startup_def new_actor_def new_job_def
      example_started_def example_actors_def example_parent_def new_rescan_def set_self_def set_job_def IsReplacedBy_def Let_def)

lemma example_started_simps [simp]:
  "ac_job example_started = new_job\<lparr>jb_init := True\<rparr>" "ac_parent example_started = example_parent"
  "ac_self example_started = new_rescan\<lparr>ra_last_scanned := Some (10, replicate 32 0), ra_filter_tip := Some (20, replicate 32 0)\<rparr>"
  by (simp_all add: example_started_def)

lemma example_update_run:
  obtains b where "worker example_actors (Rescan_class example_actors) example_update example_started = Inr b"
    "ra_dirty (ac_self b) = [(5, replicate 32 1)]" "ra_last_scanned (ac_self b) = Some (4, replicate 32 0)"
    "jb_state (ac_job b) = JobNormal"
proof -
  let ?a = "process_dirty example_actors [(5, replicate 32 1)] example_started"
  have env: "ae_limited example_actors n" "ae_position example_actors h = (h, replicate 32 0)" for n h
    by (simp_all add: example_actors_def)
  have a: "ac_self ?a = new_rescan\<lparr>ra_last_scanned := Some (4, replicate 32 0), ra_filter_tip := Some (20, replicate 32 0),
      ra_highest_dirty := (5, replicate 32 1), ra_dirty := [(5, replicate 32 1)]\<rparr>"
    "wp_scan_dirty (ac_parent ?a)" "ac_job ?a = new_job\<lparr>jb_init := True\<rparr>"
    by (simp_all add: process_dirty_def Let_def oset_put_def new_rescan_def Rescan_before_def env IsReplacedBy_def
        Rescan_current_def position_or_null_def set_last_scanned_def null_position_def max_def example_parent_def)
  have "Rescan_do_process_update example_actors example_update example_started
    = Actor_do_work example_actors (Rescan_work example_actors) ?a"
    using a(2) by (simp add: Rescan_do_process_update_def example_decoded Rescan_highest_clean_def adjust_last_scanned_def
        process_clean_def example_parent_def Let_def)
  then have "worker example_actors (Rescan_class example_actors) example_update example_started
    = Inr (process_watchdog 3 (send_to ToSelf (StateMachineWork, []) (set_job (\<lambda>j. j\<lparr>jb_works := Suc 0\<rparr>) ?a)))"
    by (simp add: worker_def flush_cache_def new_job_def handle_ready_def Job_pipeline_def state_normal_def process_update_def
      example_update_simps last_reorg_def Actor_do_work_def env a Let_def)
  then show ?thesis
    by (rule that) (simp_all add: a new_job_def)
qed

lemma rescan_stays_behind_witness:
  "\<exists>b. worker example_actors (Rescan_class example_actors) example_update example_started = Inr b \<and>
    ra_last_scanned (ac_self b) = Some (4, replicate 32 0) \<and> (4, replicate 32 0) < (5 :: int, replicate 32 (1 :: 8 word))"
proof -
  obtain b where b: "worker example_actors (Rescan_class example_actors) example_update example_started = Inr b"
    "ra_dirty (ac_self b) = [(5, replicate 32 1)]" "ra_last_scanned (ac_self b) = Some (4, replicate 32 0)"
    "jb_state (ac_job b) = JobNormal"
    by (rule example_update_run)
  have "job_steps rescan_env_ok Rescan_class (new_actor new_rescan example_parent) b"
    using job_steps.Begin example_actors_ok example_starts b(1) by (blast intro: job_steps.Message)
  from rescan_stays_behind [OF this _ b(3), of "(5, replicate 32 1)"] b show ?thesis
    by simp
qed

section \<open>Filter tips after a reorganisation\<close>

text \<open>What the state machine of \<open>Scan\<close> sends is no filter tip.\<close>

definition no_filter :: "effect list \<Rightarrow> bool" where
  "no_filter es \<longleftrightarrow> (\<forall>d frames. Send d (FilterWork, frames) \<notin> set es)"

definition adds_no_filter :: "'s actor \<Rightarrow> 's actor \<Rightarrow> bool" where
  "adds_no_filter a b \<longleftrightarrow> (\<exists>es. ac_effects b = ac_effects a @ es \<and> no_filter es)"

lemma adds_no_filter_trans: "adds_no_filter a b \<Longrightarrow> adds_no_filter b c \<Longrightarrow> adds_no_filter a c"
  unfolding adds_no_filter_def no_filter_def by force

lemma adds_no_filter_simps [simp]:
  "adds_no_filter a a" "adds_no_filter a (set_self f a)" "adds_no_filter a (set_parent g a)" "adds_no_filter a (set_job j a)"
  "adds_no_filter a (process_watchdog t a)" "adds_no_filter a (trigger a)"
  "fst msg \<noteq> FilterWork \<Longrightarrow> adds_no_filter a (send_to d msg a)"
  by (auto simp: adds_no_filter_def no_filter_def trigger_def)

lemma status_update_kind [simp]: "fst (status_update w sts a) = w"
  by (simp add: status_update_def add_last_reorg_def add_frame_def)

lemma Scan_batch_no_filter:
  assumes "Scan_batch env tip a = Inr (again, b)"
  shows "adds_no_filter a b"
proof -
  obtain clean tested dirty sd where
    scan: "Scan (ae_scan env) tip maximum_height (Scan_current a) [] (wp_data (ac_parent a)) = Inr (clean, tested, dirty, sd)"
    using assms by (cases "Scan (ae_scan env) tip maximum_height (Scan_current a) [] (wp_data (ac_parent a))")
      (auto simp: Scan_batch_def)
  define c where "c = set_self (\<lambda>s. s\<lparr>sa_last_scanned := Some tested\<rparr>) (set_parent (\<lambda>p. p\<lparr>wp_data := sd\<rparr>) a)"
  define d where "d = (if dirty \<noteq> [] then send_to ToProcess (status_update UpdateWork dirty c) c else c)"
  have "(Inr (\<not> Scan_caught_up (case clean of Some q \<Rightarrow> send_to ToProcess (status_update UpdateWork [(ScanClean, q)] d) d | None \<Rightarrow> d),
      case clean of Some q \<Rightarrow> send_to ToProcess (status_update UpdateWork [(ScanClean, q)] d) d | None \<Rightarrow> d)
    :: (bool \<times> scan_actor actor) outcome) = Inr (again, b)"
    using assms unfolding Scan_batch_def scan bind_outcome_Inr prod.case Let_def c_def d_def .
  then have "adds_no_filter d b"
    by (auto split: option.splits)
  moreover have "adds_no_filter a c" "adds_no_filter c d"
    unfolding c_def d_def by (rule adds_no_filter_trans [of _ "set_parent (\<lambda>p. p\<lparr>wp_data := sd\<rparr>) a"]) auto
  ultimately show ?thesis
    by (blast intro: adds_no_filter_trans)
qed

lemma Scan_work_no_filter: "Scan_work env a = Inr (again, b) \<Longrightarrow> adds_no_filter a b"
  by (auto simp: Scan_work_def Scan_body_def bind_outcome_eq_Inr Let_def split: if_splits option.splits
      intro: adds_no_filter_trans Scan_batch_no_filter)

lemma Scan_do_work_no_filter:
  assumes "Actor_do_work env (Scan_work env) a = Inr b"
  shows "adds_no_filter a b"
proof -
  let ?a = "set_job (\<lambda>j. j\<lparr>jb_works := Suc (jb_works (ac_job a))\<rparr>) a"
  let ?c = "set_job (\<lambda>j. j\<lparr>jb_queued := False\<rparr>) ?a"
  have a: "adds_no_filter a ?a" "adds_no_filter a ?c"
    by (rule adds_no_filter_simps, rule adds_no_filter_trans) (rule adds_no_filter_simps)+
  show ?thesis
  proof (cases "ae_limited env (jb_works (ac_job a))")
    case True
    then show ?thesis
      using assms by (auto simp: Actor_do_work_def Let_def intro: adds_no_filter_trans [OF a(1)])
  next
    case False
    then obtain again c where "Scan_work env ?c = Inr (again, c)" "b = (if again then trigger c else c)"
      using assms by (auto simp: Actor_do_work_def Let_def bind_outcome_eq_Inr)
    then show ?thesis
      using Scan_work_no_filter [of env ?c again c] by (auto intro: adds_no_filter_trans [OF a(2)] adds_no_filter_trans)
  qed
qed

text \<open>
  After a reorganisation \<open>Rescan\<close> learns of no new filter any more. \<open>Scan\<close> adds the epoch to the
  message of the filter oracle as its fifth frame, the kind included; \<open>Rescan\<close> drops the message, since it wants
  more than five frames and reads the sixth.
\<close>

theorem rescan_ignores_filters_after_reorg:
  assumes "last_reorg s = Some epoch" "last_reorg r = Some epoch'" "msg = (FilterWork, [type, height, hash])"
    and "Scan_process_filter env msg tip s = Inr s'" "Send ToProcess (FilterWork, frames) \<in> set (drop (length (ac_effects s)) (ac_effects s'))"
  shows "Rescan_process_filter env (FilterWork, frames) tip r = Inr r \<and> length frames = 4"
proof (cases "tip < Scan_tip s")
  case False
  let ?b = "set_self (\<lambda>x. x\<lparr>sa_filter_tip := Some tip\<rparr>) s"
  let ?m = "(FilterWork, [type, height, hash, le_bytes 8 epoch])"
  have "Actor_do_work env (Scan_work env) (send_to ToProcess ?m ?b) = Inr s'"
    using assms(1,3,4) False by (simp add: Scan_process_filter_def Let_def last_reorg_def add_frame_def split: if_splits)
  then obtain es where "ac_effects s' = ac_effects s @ [Send ToProcess ?m] @ es" "no_filter es"
    using Scan_do_work_no_filter by (fastforce simp: adds_no_filter_def)
  then have "frames = [type, height, hash, le_bytes 8 epoch]"
    using assms(5) by (auto simp: no_filter_def)
  then show ?thesis
    using assms(2) by (simp add: Rescan_process_filter_def Let_def body_size_def)
qed (use assms in \<open>simp add: Scan_process_filter_def\<close>)

definition reorganised :: "'s \<Rightarrow> 's actor" where
  "reorganised s = \<lparr>ac_job = new_job\<lparr>jb_init := True, jb_reorgs := [1]\<rparr>, ac_self = s, ac_parent = example_parent, ac_effects = []\<rparr>"

lemma reorganised_simps [simp]:
  "ac_self (reorganised s) = s" "ac_effects (reorganised s) = []" "last_reorg (reorganised s) = Some 1"
  by (simp_all add: reorganised_def last_reorg_def)

lemma rescan_ignores_filters_after_reorg_witness:
  "\<exists>s' frames. Scan_process_filter example_actors (FilterWork, [le_bytes 4 (4 :: 32 word), height_frame 30, replicate 32 0]) (30, replicate 32 0)
      (reorganised \<lparr>sa_last_scanned = None, sa_filter_tip = None, sa_index_ready = True\<rparr>) = Inr s' \<and>
    Send ToProcess (FilterWork, frames) \<in> set (ac_effects s') \<and>
    Rescan_process_filter example_actors (FilterWork, frames) (30, replicate 32 0) (reorganised new_rescan) = Inr (reorganised new_rescan)"
proof -
  let ?msg = "(FilterWork, [le_bytes 4 (4 :: 32 word), height_frame 30, replicate 32 0]) :: job_message"
  let ?s = "reorganised \<lparr>sa_last_scanned = None, sa_filter_tip = None, sa_index_ready = True\<rparr>"
  let ?frames = "[le_bytes 4 (4 :: 32 word), height_frame 30, replicate 32 0, le_bytes 8 (1 :: 64 word)]"
  obtain s' where s': "Scan_process_filter example_actors ?msg (30, replicate 32 0) ?s = Inr s'"
    "Send ToProcess (FilterWork, ?frames) \<in> set (ac_effects s')"
    by (simp add: Scan_process_filter_def Scan_tip_def position_or_null_def null_position_def Let_def Actor_do_work_def
        example_actors_def add_frame_def last_reorg_def reorganised_def)
  then show ?thesis
    using rescan_ignores_filters_after_reorg [OF reorganised_simps(3) _ refl s'(1), of "reorganised new_rescan" 1 ?frames]
    by auto
qed

section \<open>Blocks in flight\<close>

text \<open>A second scan of the same blocks finds nothing: what the first one found is known.\<close>

lemma scanned_twice:
  assumes serves: "serves env h t contents available" and sane: "\<forall>b \<in> set hashes. sane_block contents b"
    and first: "hashes = scan_hashes env best stop tested sd" "scan env rescan best stop tested [] sd = Inr (clean, tested', dirty, sd')"
    and second: "hashes = scan_hashes env best' stop' tested sd'" "scan env rescan' best' stop' tested [] sd' = Inr (clean', tested'', dirty', sd'')"
  shows "dirty' = []" "tested'' = tested'" "(s, d) \<in> set dirty \<Longrightarrow> clean' = Some tested' \<and> d \<le> tested'"
proof -
  let ?si = "scan_at env h tested hashes sd" and ?si' = "scan_at env h tested hashes sd'"
  note res = scan_returned [OF serves sane first refl] and res' = scan_returned [OF serves sane second refl]
  have blocks: "si_blocks ?si' = si_blocks ?si"
    by (simp add: res(1) res'(1))
  have pos: "si_position ?si' i = si_position ?si i" if "i < si_blocks ?si" for i
    using position_nth [OF that refl] position_nth [OF that [folded blocks] refl] by simp
  have clean: "\<not> si_dirty ?si' i" if i: "i < si_blocks ?si" for i
  proof
    assume "si_dirty ?si' i"
    then have "(ScanDirty, si_position ?si' i) \<in> set dirty'"
      using i by (auto simp: res'(4) positions_of_def blocks)
    moreover have "i < length (takeWhile available hashes)" "si_position ?si' i = (fst tested + 1 + int i, hashes ! i)"
      using i pos [OF i] position_nth [OF i refl] by (simp_all add: res(1))
    ultimately show False
      using scan_classified [OF serves sane first, of i] scan_classified [OF serves sane second, of i] res(6) by fastforce
  qed
  then show "dirty' = []"
    by (auto simp: res'(4) positions_of_def blocks)
  show "tested'' = tested'"
    using pos by (simp add: res(3) res'(3) blocks)
  show "clean' = Some tested' \<and> d \<le> tested'" if found: "(s, d) \<in> set dirty"
  proof -
    obtain i where i: "i < si_blocks ?si" "d = si_position ?si i"
      using found by (auto simp: res(4) positions_of_def)
    have "clean_prefix ?si' = si_blocks ?si"
      using clean_prefix_dirty [of ?si'] clean [of "clean_prefix ?si'"] clean_prefix_le [of ?si'] by (force simp: blocks le_less)
    moreover have "d \<le> si_position ?si (si_blocks ?si - 1)"
      using i by (simp add: not_less [symmetric])
    ultimately show ?thesis
      using i pos [of "si_blocks ?si - 1"] by (simp add: res'(2) res(3) blocks)
  qed
qed

text \<open>
  C39. \<open>Rescan\<close> passes a block that must be processed, if it comes to the block between the scan that found it
  and the arrival of the message about it: the matches are known by then, and the block counts as clean. The
  position that it reports makes \<open>Progress\<close> forget the matches of the block and store a position that is not below
  it.
\<close>

theorem rescan_passes_block_in_flight:
  assumes "serves (ae_scan env) h t contents available" "\<forall>b \<in> set hashes. sane_block contents b"
    and scan: "hashes = scan_hashes (ae_scan env) tip maximum_height (Scan_current s) (wp_data (ac_parent s))"
      "scan (ae_scan env) False tip maximum_height (Scan_current s) [] (wp_data (ac_parent s)) = Inr (clean, tested, dirty, sd)"
      "(ScanDirty, d) \<in> set dirty" "sendable tested"
    and rescan: "hashes = scan_hashes (ae_scan env) tip maximum_height (Scan_current s) sd"
      "wp_data (ac_parent r) = sd" "wp_scan_dirty (ac_parent r)" "ra_dirty (ac_self r) = []" "ra_filter_tip (ac_self r) = Some tip"
      "Rescan_current r = Scan_current s" "fst (Scan_current s) < maximum_height" "\<not> fst (rescan_finished r)" "jb_state (ac_job r) \<noteq> JobReorg"
  shows "\<exists>r'. Rescan_work env r = Inr (tested \<noteq> tip, r') \<and> d \<le> tested \<and>
    Send ToProgress (status_update UpdateWork [(RescanClean, tested)] r') \<in> set (ac_effects r') \<and>
    (\<forall>q. \<exists>q'. Progress_do_process_update env (status_update UpdateWork [(RescanClean, tested)] r') q = Inr q' \<and>
      wp_progress (ac_parent q') = Some tested \<and> sd_matches (wp_data (ac_parent q')) d = None)"
proof -
  obtain clean' tested' dirty' sd' where again: "scan (ae_scan env) True tip maximum_height (Scan_current s) [] sd = Inr (clean', tested', dirty', sd')"
    using scan_result_cases [OF assms(1,2) rescan(1), of True "[]"] by (auto split: if_splits)
  note twice = scanned_twice [OF assms(1,2) scan(1,2) rescan(1) again]
  have result: "scan (ae_scan env) True tip maximum_height (Scan_current s) [] sd = Inr (Some tested, tested, [], sd')" "d \<le> tested"
    using again twice(1,2) twice(3) [OF scan(3)] by simp_all
  have going: "rescan_finished r = (False, r)"
    using rescan(8) by (auto simp: rescan_finished_def Let_def split: option.splits)
  define b where "b = prune (set_last_scanned (Some tested) (set_parent (\<lambda>p. p\<lparr>wp_data := sd'\<rparr>) r))"
  have b: "ra_last_scanned (ac_self b) = Some tested" "ra_dirty (ac_self b) = []" "ra_filter_tip (ac_self b) = Some tip"
    by (simp_all add: b_def prune_def set_last_scanned_def rescan(4,5))
  have stop: "Rescan_stop r = maximum_height"
    by (simp add: Rescan_stop_def rescan(4))
  have "Rescan_batch env r = Inr (tested \<noteq> tip, b)"
    using b unfolding Rescan_batch_def rescan(5) option.case Rescan_def stop rescan(2,6) result(1) bind_outcome_Inr prod.case Let_def b_def [symmetric]
    by (simp add: can_advance_def Rescan_current_def position_or_null_def b_def [symmetric])
  then have "Rescan_work env r = Inr (tested \<noteq> tip, process_watchdog 3 (report_progress b))"
    using rescan(3,7,9) by (simp add: Rescan_work_def Rescan_body_def going Let_def stop rescan(6))
  moreover have "status_update UpdateWork [(RescanClean, tested)] (process_watchdog 3 (report_progress b)) = status_update UpdateWork [(RescanClean, tested)] b"
    by (simp add: status_update_def add_last_reorg_def last_reorg_def)
  moreover have "\<exists>q'. Progress_do_process_update env (status_update UpdateWork [(RescanClean, tested)] b) q = Inr q' \<and>
      wp_progress (ac_parent q') = Some tested \<and> sd_matches (wp_data (ac_parent q')) d = None" for q
  proof -
    have "decode (status_update UpdateWork [(RescanClean, tested)] b) = Inr ([(scan_state_byte RescanClean, tested)], [])"
      using scan(4) by (simp add: status_update_def add_last_reorg_def add_frame_def decode_encode dirty_of_def oset_put_def del: scan_state_byte.simps)
    then show ?thesis
      using result(2) by (simp add: Progress_do_process_update_def Let_def MatchCache_Forget_def set_progress_def SubchainSetLastScanned_def)
  qed
  ultimately show ?thesis
    using result(2) b by (simp add: report_progress_def)
qed

text \<open>The block at height 0 is found by \<open>Scan\<close>, and \<open>Rescan\<close> comes to it before it hears of it.\<close>

lemma example_hashes_to:
  assumes "0 \<le> stop"
  shows "[example_block] = scan_hashes (example_env available) (0, example_block) stop null_position sd"
proof -
  have "stop_height (example_env available) sd 0 (0, example_block) stop = 0"
    using scan_batch_bounds(1) [of "example_env available" sd] assms by (auto simp: stop_height_def)
  then show ?thesis
    by (simp add: scan_hashes_def null_position_def Let_def) (simp add: example_env_def)
qed

lemma example_scan:
  obtains clean dirty sd where
    "scan (ae_scan example_actors) False (0, example_block) maximum_height null_position [] example_subchain = Inr (clean, (0, example_block), dirty, sd)"
    "(ScanDirty, (0, example_block)) \<in> set dirty"
proof -
  note hashes = example_hashes_to [of maximum_height "\<lambda>_. True" example_subchain]
  obtain clean tested dirty sd where scan:
    "scan (example_env (\<lambda>_. True)) False (0, example_block) maximum_height null_position [] example_subchain = Inr (clean, tested, dirty, sd)"
    using scan_result_cases [OF example_serves [of "\<lambda>_. True"] example_sane hashes, of False "[]"] by (auto simp: maximum_height_def)
  have blocks: "si_blocks (scan_at (example_env (\<lambda>_. True)) (\<lambda>_ _. 2 ^ 63) null_position [example_block] example_subchain) = 1"
    using scan_returned(1) [OF example_serves example_sane hashes scan refl] by (simp add: maximum_height_def)
  have "tested = (0, example_block)"
    using scan_returned(3) [OF example_serves example_sane hashes scan refl] blocks position_nth [OF _ refl, of 0]
    by (simp add: maximum_height_def null_position_def)
  moreover have "(ScanDirty, (0, example_block)) \<in> set dirty"
    using scan_classified [OF example_serves example_sane hashes scan, of 0 "(0, example_block)"]
    by (fastforce simp: maximum_height_def null_position_def example_subchain_def untested_def kept_hash_def example_contents_def
        target_hash_def GetFilterParams_def filter_range_def HashToRange_def)
  ultimately show ?thesis
    using that scan by (simp add: example_actors_def)
qed

lemma rescan_passes_block_in_flight_witness:
  "\<exists>sd r'. Rescan_work example_actors
      \<lparr>ac_job = new_job, ac_self = new_rescan\<lparr>ra_last_scanned := Some null_position, ra_filter_tip := Some (0, example_block)\<rparr>,
       ac_parent = example_parent\<lparr>wp_scan_dirty := True, wp_data := sd\<rparr>, ac_effects = []\<rparr> = Inr (False, r') \<and>
    Send ToProgress (status_update UpdateWork [(RescanClean, (0, example_block))] r') \<in> set (ac_effects r')"
proof -
  obtain clean dirty sd where scan:
    "scan (ae_scan example_actors) False (0, example_block) maximum_height null_position [] example_subchain = Inr (clean, (0, example_block), dirty, sd)"
    "(ScanDirty, (0, example_block)) \<in> set dirty"
    by (rule example_scan)
  let ?s = "\<lparr>ac_job = new_job, ac_self = \<lparr>sa_last_scanned = None, sa_filter_tip = None, sa_index_ready = True\<rparr>,
    ac_parent = example_parent, ac_effects = []\<rparr>"
  let ?r = "\<lparr>ac_job = new_job, ac_self = new_rescan\<lparr>ra_last_scanned := Some null_position, ra_filter_tip := Some (0, example_block)\<rparr>,
       ac_parent = example_parent\<lparr>wp_scan_dirty := True, wp_data := sd\<rparr>, ac_effects = []\<rparr>"
  have s: "Scan_current ?s = null_position" "Rescan_current ?r = null_position"
    by (simp_all add: Scan_current_def Rescan_current_def position_or_null_def)
  have env: "ae_scan example_actors = example_env (\<lambda>_. True)" "wp_data example_parent = example_subchain"
    by (simp_all add: example_actors_def example_parent_def)
  have going: "\<not> fst (rescan_finished ?r)"
    using s(2) by (simp add: rescan_finished_def Rescan_caught_up_def new_rescan_def position_or_null_def null_position_def FinishRescan_def
        scan_threshold_def maximum_scan_def)
  have hashes: "[example_block] = scan_hashes (ae_scan example_actors) (0, example_block) maximum_height (Scan_current ?s) x" for x
    unfolding s(1) env(1) by (rule example_hashes_to) (simp add: maximum_height_def)
  have "\<exists>r'. Rescan_work example_actors ?r = Inr ((0 :: int, example_block) \<noteq> (0, example_block), r') \<and> (0 :: int, example_block) \<le> (0, example_block) \<and>
    Send ToProgress (status_update UpdateWork [(RescanClean, (0, example_block))] r') \<in> set (ac_effects r') \<and>
    (\<forall>q. \<exists>q'. Progress_do_process_update example_actors (status_update UpdateWork [(RescanClean, (0, example_block))] r') q = Inr q' \<and>
      wp_progress (ac_parent q') = Some (0, example_block) \<and> sd_matches (wp_data (ac_parent q')) (0, example_block) = None)"
  proof (rule rescan_passes_block_in_flight)
    show "serves (ae_scan example_actors) (\<lambda>_ _. 2 ^ 63) ES example_contents (\<lambda>_. True)"
      unfolding env by (rule example_serves)
    show "scan (ae_scan example_actors) False (0, example_block) maximum_height (Scan_current ?s) [] (wp_data (ac_parent ?s))
        = Inr (clean, (0, example_block), dirty, sd)"
      using scan(1) by (simp add: s env)
    show "Rescan_current ?r = Scan_current ?s"
      unfolding s ..
    show "fst (Scan_current ?s) < maximum_height"
      unfolding s by (simp add: null_position_def maximum_height_def)
  qed (use hashes scan(2) going example_sane in \<open>simp_all add: sendable_def example_block_def new_rescan_def new_job_def\<close>)
  then show ?thesis
    by (intro exI [of _ sd]) auto
qed

end
