(* ===== verification/Wallet_Reorg_Properties.thy ===== *)
theory Wallet_Reorg_Properties
  imports Wallet_Reorg Wallet_Actor_Properties Header_Properties
begin

text \<open>
  The properties of reorganisations of a subchain, with the header oracle of the second part.
\<close>

section \<open>The stored position\<close>

text \<open>
  C36. A reorganisation that replaced the last scanned block of a subchain moves the stored position back by one block, however
  many blocks were replaced: it becomes the block of the new best chain at the height below, which is \<open>n - 1\<close> blocks
  above the last block that the chains have in common, if \<open>n\<close> blocks were replaced. \<open>ReorgTo\<close> takes the
  first element of the list for the oldest one, but \<open>CalculateReorg\<close> lists the newest first.
\<close>

theorem reorg_goes_back_one_block:
  assumes "oracle_reachable oenv s" "storage_works oenv" "exact_sums (env_add oenv)" "re_oracle env = s"
    and "db_headers (ho_db s) h = Some x" "\<not> IsDisconnected x" "\<not> position_in_best_chain s (Position x)"
    and "hd_height x \<le> fst (ho_tip s) + 1"
    and "wp_last_scanned w = bytes_position (Position x)" "hd_hash x < 2 ^ 256"
    and "Subchain_do_reorg env w = Inr (ok, w')"
  shows "\<exists>qs pos. calculate_reorg s (Position x) = Some qs \<and> branch s x qs pos \<and> 0 < length qs \<and>
    wp_need_reorg w' \<and> wp_last_scanned w' = bytes_position (get_position s (hd_height x - 1)) \<and>
    position_in_best_chain s (get_position s (hd_height x - 1)) \<and>
    fst (wp_last_scanned w') = fst pos + int (length qs) - 1"
proof -
  have inv: "oracle_inv oenv s"
    by (rule oracle_reachable_inv [OF assms(1-3)])
  obtain qs pos where qs: "calculate_reorg s (Position x) = Some qs" "branch s x qs pos"
    "hd_height x = fst pos + int (length qs)" "0 < length qs"
    "w' = w\<lparr>wp_need_reorg := True, wp_last_scanned := bytes_position (get_position s (hd_height x - 1))\<rparr>"
    using reorganised_subchain [OF inv [folded assms(4)] assms(5) [folded assms(4)] assms(6) assms(7) [folded assms(4)] assms(9,10,11)]
    unfolding assms(4) by blast
  have "0 \<le> fst pos" "0 < int (length qs)"
    using qs(2,4) by (simp_all add: branch_def)
  then have "0 \<le> hd_height x - 1" "hd_height x - 1 \<le> fst (ho_tip s)"
    unfolding qs(3) using qs(3) assms(8) by linarith+
  note at = best_position_at [OF inv this]
  show ?thesis
    using qs at by (intro exI [of _ qs] exI [of _ pos]) simp
qed

text \<open>Two blocks are replaced by three, which branch off from the genesis block.\<close>

abbreviation fork_env :: oracle_env where
  "fork_env \<equiv> Header_Examples.example_env blank_position"

abbreviation old_chain :: "(hash \<times> hash) list" where
  "old_chain \<equiv> [(2, 1), (3, 2)]"

abbreviation new_chain :: "(hash \<times> hash) list" where
  "new_chain \<equiv> [(4, 1), (5, 4), (6, 5)]"

lemma receive_all_append:
  "receive_all env (xs @ ys) s = bind_outcome (receive_all env xs s) (receive_all env ys)"
  by (induction xs arbitrary: s) (auto simp: bind_outcome_def split: sum.splits prod.splits)

lemma fork_facts:
  "bind_outcome (example_run blank_position (old_chain @ new_chain)) (\<lambda>s. Inr (ho_tip s,
     map_option (\<lambda>x. (hd_height x, hd_hash x, IsDisconnected x, position_in_best_chain s (Position x))) (db_headers (ho_db s) 3),
     calculate_reorg s (2, 3), get_position s 1)) =
   Inr ((3, 6), Some (2, 3, False, False), Some [(2, 3), (1, 2)], (1, 4))"
  by code_simp

lemma old_chain_facts:
  "bind_outcome (example_run blank_position old_chain) (\<lambda>s. Inr (db_disconnected (ho_db s))) = Inr []"
  by code_simp

lemma fork_run:
  obtains s where "example_run blank_position (old_chain @ new_chain) = Inr s" "oracle_reachable fork_env s"
proof -
  obtain s1 where s1: "example_run blank_position old_chain = Inr s1" "oracle_reachable fork_env s1" "oracle_inv fork_env s1"
    "facts (db_headers (ho_db s1)) = facts_of (map example_header old_chain) ++ [1 \<mapsto> (0, 1)]"
    by (rule example_run_ok [of old_chain blank_position]) auto
  have disconnected: "db_disconnected (ho_db s1) = []"
    using old_chain_facts s1(1) by simp
  have dom: "dom (db_headers (ho_db s1)) = {1, 2, 3}"
    using arg_cong [OF s1(4), of dom] by (auto simp: facts_of_def)
  then have work: "total_work (db_headers (ho_db s1)) = 3"
    by (simp add: total_work_facts s1(4) facts_of_def)
  have "deliverable fork_env s1 (map example_header new_chain)"
    by (auto simp: deliverable_def disconnected work dom parents_def only_children_def)
  note d = this
  obtain s where s: "receive_all fork_env (map example_header new_chain) s1 = Inr s"
    using receive_all_ok [OF s1(3) _ _ d] by auto
  have "example_run blank_position (old_chain @ new_chain) = Inr s"
    using s1(1) s by (auto simp: example_run_def bind_outcome_eq_Inr receive_all_append)
  moreover have "oracle_reachable fork_env s"
    by (rule receive_all_reachable [OF s1(2) _ _ d s]) simp_all
  ultimately show ?thesis
    using that by blast
qed

lemma reorg_goes_back_one_block_witness:
  "\<exists>s w'. example_run blank_position (old_chain @ new_chain) = Inr s \<and>
    Subchain_do_reorg \<lparr>re_oracle = s, re_store = (\<lambda>_. True), re_start_reorg = (\<lambda>_. True)\<rparr>
      (example_parent\<lparr>wp_last_scanned := bytes_position (2, 3)\<rparr>) = Inr (True, w') \<and>
    wp_last_scanned w' = bytes_position (1, 4)"
proof -
  obtain s where s: "example_run blank_position (old_chain @ new_chain) = Inr s" "oracle_reachable fork_env s"
    by (rule fork_run)
  let ?env = "\<lparr>re_oracle = s, re_store = (\<lambda>_. True), re_start_reorg = (\<lambda>_. True)\<rparr>"
  let ?w = "example_parent\<lparr>wp_last_scanned := bytes_position (2, 3)\<rparr>"
  from fork_facts s(1) obtain x where x: "db_headers (ho_db s) 3 = Some x" "hd_height x = 2" "hd_hash x = 3" "\<not> IsDisconnected x"
    "\<not> position_in_best_chain s (Position x)" "ho_tip s = (3, 6)" "calculate_reorg s (2, 3) = Some [(2, 3), (1, 2)]" "get_position s 1 = (1, 4)"
    by auto
  have step: "\<exists>w'. Subchain_do_reorg ?env ?w = Inr (True, w')"
    using x(7) by (simp add: Subchain_do_reorg_def ReorgTo_def subchain_reorg_def)
  then obtain w' where w': "Subchain_do_reorg ?env ?w = Inr (True, w')"
    by blast
  have "wp_last_scanned ?w = bytes_position (Position x)"
    using x(2,3) by (simp add: Position_def)
  from reorg_goes_back_one_block [OF s(2) _ _ _ x(1,4,5) _ this _ w'] x w' s(1) show ?thesis
    by auto
qed

section \<open>Where the actors are\<close>

text \<open>
  C37. Whether a reorganisation concerns a subchain is decided by its stored position alone. If that block is still on the best
  chain, all actors stay where they are, even on replaced blocks that lie above it: \<open>Scan\<close> goes on from its
  position, so that no block of the new chain up to that height is ever reported by it, and \<open>Rescan\<close> keeps
  its dirty blocks.
\<close>

theorem replaced_position_is_kept:
  assumes "position_in_best_chain (re_oracle env) (number_position (wp_last_scanned w))" "Subchain_do_reorg env w = Inr (ok, w')"
    and "ac_parent a = w'" "ac_parent b = w'" "ac_parent c = w'" "scans_sanely (ae_scan aenv)"
  shows "ok \<and> run_reorg (Scan_class aenv) target a = Inr (True, a) \<and>
    run_reorg (Rescan_class aenv) target b = Inr (True, b) \<and> run_reorg (Progress_class aenv) target c = Inr (True, c) \<and>
    (\<forall>tip clean tested dirty sd st p.
      Scan (ae_scan aenv) tip maximum_height (Scan_current a) [] (wp_data (ac_parent a)) = Inr (clean, tested, dirty, sd) \<longrightarrow>
      (st, p) \<in> set dirty \<longrightarrow> fst (Scan_current a) < fst p)"
proof -
  have "ok \<and> \<not> wp_need_reorg w'"
    using assms(1,2) by (auto simp: Subchain_do_reorg_def calculate_reorg_def)
  then show ?thesis
    using assms(3-5) scan_forward(2) [OF assms(6)]
    by (auto simp: run_reorg_def Scan_class_def Scan_do_reorg_def Rescan_class_def Rescan_do_reorg_def Progress_class_def Progress_do_reorg_def Scan_def)
qed

lemma replaced_position_is_kept_witness:
  "\<exists>s w' a. example_run blank_position (old_chain @ new_chain) = Inr s \<and>
    Subchain_do_reorg \<lparr>re_oracle = s, re_store = (\<lambda>_. True), re_start_reorg = (\<lambda>_. True)\<rparr>
      (example_parent\<lparr>wp_last_scanned := bytes_position (0, 1)\<rparr>) = Inr (True, w') \<and>
    run_reorg (Scan_class example_actors) (bytes_position (0, 1)) a = Inr (True, a) \<and>
    Scan_current a = bytes_position (2, 3) \<and> \<not> position_in_best_chain s (number_position (Scan_current a))"
proof -
  obtain s where s: "example_run blank_position (old_chain @ new_chain) = Inr s" "oracle_reachable fork_env s"
    by (rule fork_run)
  let ?env = "\<lparr>re_oracle = s, re_store = (\<lambda>_. True), re_start_reorg = (\<lambda>_. True)\<rparr>"
  let ?w = "example_parent\<lparr>wp_last_scanned := bytes_position (0, 1)\<rparr>"
  have "oracle_inv fork_env s"
    by (rule oracle_reachable_inv [OF s(2)]) simp_all
  then have best: "position_in_best_chain s (0, 1)"
    using best_chain_facts(4) by (simp add: position_in_best_chain_def at_height_def)
  from fork_facts s(1) obtain x where x: "hd_height x = 2" "hd_hash x = 3" "\<not> position_in_best_chain s (Position x)"
    by auto
  define w' where "w' = ?w\<lparr>wp_need_reorg := False\<rparr>"
  define a where "a = (new_actor \<lparr>sa_last_scanned = Some (bytes_position (2, 3)), sa_filter_tip = None, sa_index_ready = True\<rparr> w')"
  have step: "Subchain_do_reorg ?env ?w = Inr (True, w')"
    using best by (simp add: Subchain_do_reorg_def calculate_reorg_def w'_def)
  have parents: "ac_parent a = w'" "ac_parent (new_actor new_rescan w') = w'" "ac_parent (new_actor () w') = w'"
    by (simp_all add: a_def new_actor_def)
  have current: "Scan_current a = bytes_position (2, 3)"
    by (simp add: a_def new_actor_def Scan_current_def position_or_null_def)
  have "position_in_best_chain (re_oracle ?env) (number_position (wp_last_scanned ?w))"
    using best by simp
  from replaced_position_is_kept [OF this step parents] example_actors_ok
  have "run_reorg (Scan_class example_actors) (bytes_position (0, 1)) a = Inr (True, a)"
    by (simp add: rescan_env_ok_def)
  moreover have "\<not> position_in_best_chain s (number_position (Scan_current a))"
    using x by (simp add: current Position_def)
  ultimately show ?thesis
    using s(1) step current by blast
qed

end
