(* ===== verification/Wallet_Process_Properties.thy ===== *)
theory Wallet_Process_Properties
  imports Wallet_Process_Facts Wallet_Index Wallet_Cache Wallet_Reorg_Properties
begin

text \<open>
  The properties of the actors that process blocks and index keys.
\<close>

section \<open>No block is lost\<close>

text \<open>
  C11. \<open>Process\<close> loses no block. Whatever messages arrive, whatever the oracles answer and whenever the jobs come to their ends:
  while the actor is not shut down, every block that it has told the next actor is dirty waits, is downloaded, is ready, is
  being processed by a job, or its matches wait for the database, until the next actor is told that it is processed. The
  conditions are that the database of the outputs takes what it is given (\<open>database_ok\<close>), and that the target of no
  reorganisation in the run is at or below the height of the block (\<open>fst q \<le> h\<close>). A rescan starts anew: what was told before
  it is not counted any more (\<open>owed\<close>).
\<close>

theorem process_loses_no_block:
  assumes "process_steps database_ok h (new_actor new_process w) a" "wp_cached w = []"
    and "jb_state (ac_job a) \<noteq> JobShutdown" "q \<in> owed (ac_effects a)" "fst q \<le> h"
  shows "q \<in> set (pa_waiting (ac_self a)) \<or> q \<in> set (pa_downloading (ac_self a)) \<or> (\<exists>block. (q, block) \<in> set (pa_ready (ac_self a))) \<or>
    (\<exists>block. ((q, block), False) \<in> set (pa_running (ac_self a))) \<or> q \<in> set (wp_cached (ac_parent a))"
proof -
  have "process_sane h (ac_self a) (ac_parent a) (told a)"
    by (rule process_reached [OF assms(1-3)])
  then have "q \<in> queued (ac_self a) \<union> set (wp_cached (ac_parent a))"
    using assms(4,5) by (auto simp: process_sane_def owed_told)
  then show ?thesis
    by (auto simp: queued_def)
qed

definition example_process :: "process_actor actor" where
  "example_process = \<lparr>ac_job = new_job\<lparr>jb_init := True, jb_works := 1\<rparr>, ac_self = new_process, ac_parent = example_parent,
     ac_effects = [Send ToSelf (StateMachineWork, [])]\<rparr>"

lemma example_process_starts:
  "worker example_actors (Process_class example_actors) (InitWork, []) (new_actor new_process example_parent) = Inr example_process"
  by (simp add: worker_def do_init_def do_startup_def flush_cache_def Process_startup_def Actor_do_work_def new_actor_def new_job_def
      example_process_def example_actors_def set_job_def send_to_def emit_def Let_def)

lemma example_process_update:
  obtains b where "worker example_actors (Process_class example_actors) example_update example_process = Inr b"
    "pa_waiting (ac_self b) = [(5, replicate 32 1)]" "owed (ac_effects b) = {(5, replicate 32 1)}"
    "jb_state (ac_job b) = JobNormal"
proof -
  have extracted: "extract_dirty example_update = Inr [(5, replicate 32 1)]"
    unfolding example_update_def by (subst decode_encode(2)) (simp_all add: sendable_def dirty_of_def)
  have update: "fst example_update = UpdateWork" "body_size example_update = 3" "body_frame example_update (Suc 0) = Inr []"
    by (rule example_update_simps)+
  have env: "ae_limited example_actors n" for n
    by (simp add: example_actors_def)
  have job: "ac_job example_process = new_job\<lparr>jb_init := True, jb_works := 1\<rparr>" "ac_self example_process = new_process"
    "ac_effects example_process = [Send ToSelf (StateMachineWork, [])]"
    by (simp_all add: example_process_def)
  obtain b where b: "worker example_actors (Process_class example_actors) example_update example_process = Inr b"
    "b = process_watchdog 1 (send_to ToSelf (StateMachineWork, []) (set_job (\<lambda>j. j\<lparr>jb_works := Suc 1\<rparr>)
      (send_to ToIndex example_update (set_self (\<lambda>s. s\<lparr>pa_waiting := pa_waiting s @ [(5, replicate 32 1)]\<rparr>)
        (add_process_queue 1 example_process)))))"
    by (simp add: worker_def flush_cache_def job new_job_def handle_ready_def Job_pipeline_def state_normal_def process_update_def
        update last_reorg_def Process_do_process_update_def extracted Actor_do_work_def env Let_def)
  have "told b = [Send ToIndex example_update]"
    by (simp add: b(2)) (simp add: told_def job)
  then have "owed (ac_effects b) = {(5, replicate 32 1)}"
    using owed_told [of b] by (simp add: owed_def owed_after_def update told_dirty_def extracted told_processed_def example_decoded)
  then show ?thesis
    using that [OF b(1)] by (simp add: b(2) job new_process_def new_job_def)
qed

lemma process_loses_no_block_witness:
  "\<exists>b. worker example_actors (Process_class example_actors) example_update example_process = Inr b \<and>
    (5, replicate 32 1) \<in> owed (ac_effects b) \<and>
    ((5, replicate 32 1) \<in> set (pa_waiting (ac_self b)) \<or> (5, replicate 32 1) \<in> set (pa_downloading (ac_self b)) \<or>
     (\<exists>block. ((5, replicate 32 1), block) \<in> set (pa_ready (ac_self b))) \<or>
     (\<exists>block. (((5, replicate 32 1), block), False) \<in> set (pa_running (ac_self b))) \<or>
     (5, replicate 32 1) \<in> set (wp_cached (ac_parent b)))"
proof -
  obtain b where b: "worker example_actors (Process_class example_actors) example_update example_process = Inr b"
    "pa_waiting (ac_self b) = [(5, replicate 32 1)]" "owed (ac_effects b) = {(5, replicate 32 1)}"
    "jb_state (ac_job b) = JobNormal"
    by (rule example_process_update)
  have "database_ok example_actors"
    by (simp add: database_ok_def example_actors_def)
  then have "process_steps database_ok 10 (new_actor new_process example_parent) b"
    using process_steps.Begin example_process_starts b(1) by (blast intro: process_steps.Message)
  from process_loses_no_block [OF this, of "(5, replicate 32 1)"] b show ?thesis
    by (simp add: example_parent_def)
qed

section \<open>Matches of replaced blocks\<close>

lemma queue_simps [simp]:
  "told (queue_downloads env a) = told a" "ac_parent (queue_downloads env a) = ac_parent a"
  by (simp_all add: queue_downloads_def Let_def)

lemma start_jobs_simps [simp]:
  "told (start_jobs env n ready a) = told a" "ac_parent (start_jobs env n ready a) = ac_parent a"
  by (induction env n ready a rule: start_jobs.induct) (simp_all add: start_job_def)

lemma Process_work_flushes:
  assumes "jb_state (ac_job a) \<noteq> JobReorg" "ae_flush_due env (jb_works (ac_job a))"
    and "wp_cached (ac_parent a) \<noteq> []" "ae_add_confirmed env (wp_cached (ac_parent a)) = Some (created, consumed)"
  obtains r b where "Process_work env a = Inr (r, b)"
    "told b = told a @ [Send ToIndex (status_update UpdateWork (map (Pair ScanProcessed) (wp_cached (ac_parent a))) a)]"
    "sd_elements (wp_data (ac_parent b)) = ElementCache_Add_consumed consumed created (sd_elements (wp_data (ac_parent a)))"
proof -
  let ?c = "check_cache env a"
  have c: "?c = report_processed (wp_cached (ac_parent a))
      (set_elements (ElementCache_Add_consumed consumed created) (set_cached (\<lambda>_. []) a))"
    using assms(2-4) by (simp add: check_cache_def CheckCache_def flush_matches_def Let_def)
  have "told ?c = told a @ [Send ToIndex (status_update UpdateWork (map (Pair ScanProcessed) (wp_cached (ac_parent a))) a)]"
    using assms(3) by (simp add: c report_processed_def) (rule status_update_cong, simp)
  moreover have "sd_elements (wp_data (ac_parent ?c)) = ElementCache_Add_consumed consumed created (sd_elements (wp_data (ac_parent a)))"
    using assms(3) by (simp add: c report_processed_def set_elements_def set_cached_def)
  ultimately show ?thesis
    using assms(1) by (intro that [of "fst (queue_process env (process_watchdog 1 (queue_downloads env ?c)))"
      "snd (queue_process env (process_watchdog 1 (queue_downloads env ?c)))"])
      (simp_all add: Process_work_def Job_work_def queue_process_def Let_def)
qed

text \<open>A reorganisation does not concern the matches that wait for the database.\<close>

lemma Subchain_do_reorg_cached: "Subchain_do_reorg env w = Inr (ok, w') \<Longrightarrow> wp_cached w' = wp_cached w"
  by (auto simp: Subchain_do_reorg_def ReorgTo_def subchain_reorg_def Let_def bind_outcome_eq_Inr split: option.splits if_splits)

lemma Process_reorg_keeps:
  "\<exists>b. run_reorg (Process_class env) target a = Inr (True, b) \<and> ac_job b = ac_job a \<and> told b = told a \<and>
    wp_cached (ac_parent b) = wp_cached (ac_parent a) \<and> wp_data (ac_parent b) = wp_data (ac_parent a)"
  by (simp add: run_reorg_def Process_do_reorg_def Job_do_reorg_def Let_def)

text \<open>
  C40. Matches of a block that a reorganisation replaces, and that wait for the database at that time, are not dropped: neither
  \<open>SubchainStateData::do_reorg\<close> nor \<open>Process\<close> touches them. When the actor goes on, they are written as confirmed, their outputs
  are added to the elements, and the next actor is told, in the new epoch, that the block is processed.
\<close>

theorem replaced_matches_are_stored:
  assumes "jb_init (ac_job a)" "jb_state (ac_job a) = JobReorg" "jb_cache (ac_job a) = []"
    and "q \<in> set (wp_cached (ac_parent a))" "IsReplacedBy q target" "\<forall>p \<in> set (wp_cached (ac_parent a)). sendable p"
    and "ae_add_confirmed env (wp_cached (ac_parent a)) = Some (created, consumed)"
    and "\<not> ae_limited env (jb_works (ac_job a))" "ae_flush_due env (Suc (jb_works (ac_job a)))"
  shows "(\<forall>renv w ok w'. Subchain_do_reorg renv w = Inr (ok, w') \<longrightarrow> wp_cached w' = wp_cached w) \<and>
    (\<exists>b c d msg. run_reorg (Process_class env) target a = Inr (True, b) \<and>
      worker env (Process_class env) (FinishReorgWork, []) b = Inr c \<and>
      worker env (Process_class env) (StateMachineWork, []) c = Inr d \<and>
      Send ToIndex msg \<in> set (ac_effects d) \<and> msg = status_update UpdateWork (map (Pair ScanProcessed) (wp_cached (ac_parent a))) a \<and>
      q \<in> told_processed msg \<and>
      sd_elements (wp_data (ac_parent d)) = ElementCache_Add_consumed consumed created (sd_elements (wp_data (ac_parent a))))"
proof -
  obtain b where b: "run_reorg (Process_class env) target a = Inr (True, b)" "ac_job b = ac_job a" "told b = told a"
    "wp_cached (ac_parent b) = wp_cached (ac_parent a)" "wp_data (ac_parent b) = wp_data (ac_parent a)"
    using Process_reorg_keeps [of env target a] by blast
  define c where "c = process_watchdog 1 (transition_state_normal b)"
  have c: "worker env (Process_class env) (FinishReorgWork, []) b = Inr c"
    using assms(1-3) by (simp add: worker_def flush_cache_def b(2) handle_ready_def Job_pipeline_def state_reorg_def c_def)
  have job: "jb_init (ac_job c)" "jb_state (ac_job c) = JobNormal" "jb_cache (ac_job c) = []" "jb_works (ac_job c) = jb_works (ac_job a)"
    "jb_reorgs (ac_job c) = jb_reorgs (ac_job a)"
    using assms(1-3) by (simp_all add: c_def transition_state_normal_def trigger_def b(2))
  let ?e = "set_job (\<lambda>j. j\<lparr>jb_queued := False\<rparr>) (set_job (\<lambda>j. j\<lparr>jb_works := Suc (jb_works (ac_job c))\<rparr>) c)"
  have parent: "wp_cached (ac_parent c) = wp_cached (ac_parent a)" "wp_data (ac_parent c) = wp_data (ac_parent a)"
    by (simp_all add: c_def b)
  have "jb_state (ac_job ?e) \<noteq> JobReorg" "ae_flush_due env (jb_works (ac_job ?e))" "wp_cached (ac_parent ?e) \<noteq> []"
    "ae_add_confirmed env (wp_cached (ac_parent ?e)) = Some (created, consumed)"
    using assms(4,7,9) by (auto simp: job parent)
  then obtain again d where d: "Process_work env ?e = Inr (again, d)"
    "told d = told ?e @ [Send ToIndex (status_update UpdateWork (map (Pair ScanProcessed) (wp_cached (ac_parent ?e))) ?e)]"
    "sd_elements (wp_data (ac_parent d)) = ElementCache_Add_consumed consumed created (sd_elements (wp_data (ac_parent ?e)))"
    by (rule Process_work_flushes)
  define d' where "d' = (if again then trigger d else d)"
  let ?msg = "status_update UpdateWork (map (Pair ScanProcessed) (wp_cached (ac_parent a))) a"
  have "status_update UpdateWork sts ?e = status_update UpdateWork sts a" for sts
    by (simp add: status_update_def add_last_reorg_def last_reorg_def job(5))
  then have "Send ToIndex ?msg \<in> set (told d')"
    by (simp add: d'_def d(2) parent)
  then have sent: "Send ToIndex ?msg \<in> set (ac_effects d')"
    by (simp add: told_def)
  have d1: "Process_work env (set_job (\<lambda>j. j\<lparr>jb_queued := False\<rparr>) (set_job (\<lambda>j. j\<lparr>jb_works := Suc (jb_works (ac_job a))\<rparr>) c)) =
      Inr (again, d)"
    using d(1) by (simp only: job)
  have d': "worker env (Process_class env) (StateMachineWork, []) c = Inr d'"
    using assms(8) by (simp add: worker_def flush_cache_def job handle_ready_def Actor_do_work_def d1 d'_def Let_def)
  have "q \<in> told_processed ?msg"
    using assms(4,6) by (subst told_status_update(2)) auto
  moreover have "sd_elements (wp_data (ac_parent d')) = ElementCache_Add_consumed consumed created (sd_elements (wp_data (ac_parent a)))"
    using d(3) by (simp add: d'_def parent)
  ultimately show ?thesis
    using b(1) c d' sent Subchain_do_reorg_cached by blast
qed

lemma replaced_matches_are_stored_witness:
  "\<exists>env a b c d msg. wp_cached (ac_parent a) = [(12, replicate 32 1)] \<and>
    run_reorg (Process_class env) (11, replicate 32 0) a = Inr (True, b) \<and>
    worker env (Process_class env) (FinishReorgWork, []) b = Inr c \<and>
    worker env (Process_class env) (StateMachineWork, []) c = Inr d \<and>
    Send ToIndex msg \<in> set (ac_effects d) \<and> (12, replicate 32 1) \<in> told_processed msg"
proof -
  let ?env = "example_actors\<lparr>ae_limited := \<lambda>_. False, ae_flush_due := \<lambda>_. True\<rparr>"
  let ?a = "\<lparr>ac_job = new_job\<lparr>jb_init := True, jb_state := JobReorg, jb_reorgs := [1]\<rparr>, ac_self = new_process,
    ac_parent = example_parent\<lparr>wp_need_reorg := True, wp_cached := [(12, replicate 32 1)]\<rparr>, ac_effects = []\<rparr>"
  have "jb_init (ac_job ?a)" "jb_state (ac_job ?a) = JobReorg" "jb_cache (ac_job ?a) = []"
    "(12, replicate 32 1) \<in> set (wp_cached (ac_parent ?a))" "IsReplacedBy (12, replicate 32 1) (11, replicate 32 0)"
    "\<forall>p \<in> set (wp_cached (ac_parent ?a)). sendable p"
    "ae_add_confirmed ?env (wp_cached (ac_parent ?a)) = Some ([], [])"
    "\<not> ae_limited ?env (jb_works (ac_job ?a))" "ae_flush_due ?env (Suc (jb_works (ac_job ?a)))"
    by (simp_all add: new_job_def IsReplacedBy_def sendable_def example_actors_def)
  from conjunct2 [OF replaced_matches_are_stored [OF this]] obtain b c d msg where
    "run_reorg (Process_class ?env) (11, replicate 32 0) ?a = Inr (True, b)"
    "worker ?env (Process_class ?env) (FinishReorgWork, []) b = Inr c"
    "worker ?env (Process_class ?env) (StateMachineWork, []) c = Inr d"
    "Send ToIndex msg \<in> set (ac_effects d)" "(12, replicate 32 1) \<in> told_processed msg"
    by blast
  moreover have "wp_cached (ac_parent ?a) = [(12, replicate 32 1)]"
    by simp
  ultimately show ?thesis
    by blast
qed

section \<open>Keys\<close>

lemma set_keys_between: "set (keys_between lowest highest) = {lowest..highest}"
proof -
  have "i \<in> of_nat ` {unat lowest ..< Suc (unat highest)} \<longleftrightarrow> lowest \<le> i \<and> i \<le> highest" for i :: "32 word"
  proof
    assume "i \<in> of_nat ` {unat lowest ..< Suc (unat highest)}"
    then obtain k where k: "i = of_nat k" "unat lowest \<le> k" "k \<le> unat highest"
      by auto
    then have "unat i = k"
      using unat_lt2p [of highest] by (simp add: unat_of_nat)
    then show "lowest \<le> i \<and> i \<le> highest"
      using k by (simp add: word_le_nat_alt)
  next
    assume "lowest \<le> i \<and> i \<le> highest"
    then show "i \<in> of_nat ` {unat lowest ..< Suc (unat highest)}"
      by (intro image_eqI [of _ _ "unat i"]) (simp_all add: word_le_nat_alt)
  qed
  then have "of_nat ` {unat lowest ..< Suc (unat highest)} = {lowest..highest}"
    by (intro set_eqI) (simp only: atLeastAtMost_iff)
  then show ?thesis
    by (simp only: keys_between_def set_map set_upt)
qed

lemma fold_max: "(n \<in> set xs \<or> m = n) \<Longrightarrow> \<forall>x \<in> set xs. x \<le> n \<Longrightarrow> m \<le> n \<Longrightarrow> fold max xs m = (n :: 'a::linorder)"
  by (induction xs arbitrary: m) (auto simp: max_def)

text \<open>The elements of a state that scans look for, apart from the outputs.\<close>

definition key_elements :: "'s actor \<Rightarrow> pattern_size \<Rightarrow> (bip32_index \<times> view) set" where
  "key_elements a s = set (el_key (ec_elements (sd_elements (wp_data (ac_parent a)))) s)"

lemma check_mempool_result:
  assumes "\<forall>txid. ae_add_mempool env txid \<noteq> None"
  shows "\<exists>b. check_mempool env a = Inr b \<and> ac_self b = ac_self a \<and> key_elements b = key_elements a"
proof -
  have step: "\<exists>b. (if ae_in_mempool env txid then ProcessTransaction env txid a else Inr a) = Inr b \<and>
      ac_self b = ac_self a \<and> key_elements b = key_elements a" for txid and a :: "index_actor actor"
    using spec [OF assms, of txid] by (cases "ae_add_mempool env txid")
      (auto simp: ProcessTransaction_def handle_mempool_match_def key_elements_def set_elements_def ElementCache_Add_txos_def)
  have "\<exists>b. fold_outcome (\<lambda>txid a. if ae_in_mempool env txid then ProcessTransaction env txid a else Inr a) txids a = Inr b \<and>
      ac_self b = ac_self a \<and> key_elements b = key_elements a" for txids
  proof (induction txids arbitrary: a)
    case (Cons txid txids)
    obtain b where "(if ae_in_mempool env txid then ProcessTransaction env txid a else Inr a) = Inr b"
      "ac_self b = ac_self a" "key_elements b = key_elements a"
      using step by blast
    with Cons.IH [of b] show ?case
      by simp
  qed simp
  then show ?thesis
    by (simp add: check_mempool_def)
qed

text \<open>
  C32. When keys were generated that are not indexed yet, the state machine of \<open>Index\<close> adds exactly their patterns to the elements that
  scans look for, and then all keys are indexed.
\<close>

theorem index_catches_up:
  assumes "jb_state (ac_job a) \<noteq> JobReorg" "cache_inv (sd_elements (wp_data (ac_parent a)))"
    and "ae_generated env = Some n" "\<forall>c. xa_last_indexed (ac_self a) = Some c \<longrightarrow> c < n"
    and "\<forall>i. \<forall>v \<in> set (ae_patterns env i). length v \<in> {20, 32, 33, 64, 65}"
    and "\<forall>es. ae_store_elements env es" "\<forall>txid. ae_add_mempool env txid \<noteq> None"
  shows "\<exists>b. Index_work env a = Inr (False, b) \<and> xa_last_indexed (ac_self b) = Some n \<and>
    need_index env (xa_last_indexed (ac_self b)) = None \<and>
    (\<forall>s. key_elements b s = key_elements a s \<union> {(i, v). (\<forall>c. xa_last_indexed (ac_self a) = Some c \<longrightarrow> c < i) \<and> i \<le> n \<and>
      v \<in> set (ae_patterns env i) \<and> pattern_size_of v = Some s})"
proof -
  let ?current = "xa_last_indexed (ac_self a)"
  define lowest where "lowest = (case ?current of Some c \<Rightarrow> c + 1 | None \<Rightarrow> 0)"
  have above: "lowest \<le> i \<longleftrightarrow> (\<forall>c. ?current = Some c \<longrightarrow> c < i)" for i
  proof (cases ?current)
    case (Some c)
    then have "c < n"
      using assms(4) by simp
    then have "unat (c + 1) = Suc (unat c)"
      using unat_lt2p [of n] by (simp add: unat_word_ariths word_less_nat_alt)
    then show ?thesis
      by (simp add: lowest_def Some word_le_nat_alt word_less_nat_alt Suc_le_eq)
  qed (simp add: lowest_def)
  define keys where "keys = keys_between lowest n"
  have keys: "set keys = {i. (\<forall>c. ?current = Some c \<longrightarrow> c < i) \<and> i \<le> n}"
    by (auto simp: keys_def set_keys_between above)
  define elements where "elements = map (\<lambda>i. (i, ae_patterns env i)) keys"
  have highest: "fold max (map fst elements) 0 = n"
    using assms(4) by (intro fold_max) (auto simp: elements_def keys o_def)
  have entries: "entries elements = {(i, v). i \<in> set keys \<and> v \<in> set (ae_patterns env i)}"
    by (force simp: entries_def elements_def)
  have "sized (entries elements)"
    using assms(5) by (auto simp: sized_def entries pattern_size_of_def)
  then obtain c where c: "ElementCache_Add elements (sd_elements (wp_data (ac_parent a))) = Inr c" "cache_inv c"
    "cached (ec_data c) = cached (ec_data (sd_elements (wp_data (ac_parent a)))) \<union> entries elements"
    using ElementCache_Add_result [OF assms(2), of elements] by (auto simp: adds_def)
  define d where "d = set_elements (\<lambda>_. c) (set_self (\<lambda>s. s\<lparr>xa_last_indexed := Some n\<rparr>)
    (set_parent (\<lambda>p. p\<lparr>wp_last_indexed := Some n\<rparr>) a))"
  have stored: "set_parent (add_elements env elements) a = set_parent (\<lambda>p. p\<lparr>wp_last_indexed := Some n\<rparr>) a"
    using assms(6) by (simp add: set_parent_def add_elements_def highest)
  have "index_done env elements a = Inr d"
    using c(1) unfolding index_done_def stored by (simp add: d_def)
  then have d: "index_process env ?current a = Inr d"
    using assms(3) by (simp add: index_process_def elements_def keys_def lowest_def)
  have new: "key_elements d s = key_elements a s \<union> {(i, v). (\<forall>c. ?current = Some c \<longrightarrow> c < i) \<and> i \<le> n \<and>
      v \<in> set (ae_patterns env i) \<and> pattern_size_of v = Some s}" for s
    using assms(2) c(2,3) by (auto simp: key_elements_def d_def set_elements_def cache_inv_def entries keys)
  obtain b where b: "check_mempool env d = Inr b" "ac_self b = ac_self d" "key_elements b = key_elements d"
    using check_mempool_result [OF assms(7)] by blast
  have "need_index env ?current = Some n"
    using assms(3,4) by (auto simp: need_index_def)
  then have "Index_work env a = Inr (False, process_watchdog 2 b)"
    using assms(1) by (simp add: Index_work_def d b(1) Job_work_def)
  moreover have "key_elements (process_watchdog 2 b) = key_elements b"
    by (simp add: key_elements_def fun_eq_iff)
  moreover have "xa_last_indexed (ac_self b) = Some n" "need_index env (Some n) = None"
    using assms(3) by (simp_all add: b(2) d_def need_index_def)
  ultimately show ?thesis
    using new b(2,3) by (intro exI [of _ "process_watchdog 2 b"]) simp
qed

text \<open>A wallet without indexed keys, of which three were generated.\<close>

lemma index_catches_up_witness:
  "\<exists>b. Index_work (example_actors\<lparr>ae_generated := Some 2, ae_patterns := \<lambda>i. [replicate 20 (ucast i)], ae_add_mempool := \<lambda>_. Some []\<rparr>)
      (new_actor new_index (example_parent\<lparr>wp_data := example_subchain\<lparr>sd_elements := \<lparr>ec_data = [], ec_elements = no_elements\<rparr>\<rparr>\<rparr>)) = Inr (False, b) \<and>
    xa_last_indexed (ac_self b) = Some 2 \<and> (1, replicate 20 1) \<in> key_elements b P20 \<and> (3, replicate 20 3) \<notin> key_elements b P20"
proof -
  let ?env = "example_actors\<lparr>ae_generated := Some 2, ae_patterns := \<lambda>i. [replicate 20 (ucast i)], ae_add_mempool := \<lambda>_. Some []\<rparr>"
  let ?a = "new_actor new_index (example_parent\<lparr>wp_data := example_subchain\<lparr>sd_elements := \<lparr>ec_data = [], ec_elements = no_elements\<rparr>\<rparr>\<rparr>)"
  have "jb_state (ac_job ?a) \<noteq> JobReorg" "cache_inv (sd_elements (wp_data (ac_parent ?a)))" "ae_generated ?env = Some 2"
    "\<forall>c. xa_last_indexed (ac_self ?a) = Some c \<longrightarrow> c < 2"
    "\<forall>i. \<forall>v \<in> set (ae_patterns ?env i). length v \<in> {20, 32, 33, 64, 65}"
    "\<forall>es. ae_store_elements ?env es" "\<forall>txid. ae_add_mempool ?env txid \<noteq> None"
    by (simp_all add: new_actor_def new_job_def new_index_def cache_inv_def no_elements_def example_actors_def)
  from index_catches_up [OF this] obtain b where b: "Index_work ?env ?a = Inr (False, b)" "xa_last_indexed (ac_self b) = Some 2"
    "key_elements b P20 = key_elements ?a P20 \<union> {(i, v). (\<forall>c. xa_last_indexed (ac_self ?a) = Some c \<longrightarrow> c < i) \<and> i \<le> 2 \<and>
      v \<in> set (ae_patterns ?env i) \<and> pattern_size_of v = Some P20}"
    by blast
  have "key_elements ?a P20 = {}"
    by (simp add: key_elements_def new_actor_def no_elements_def)
  then have "(1, replicate 20 1) \<in> key_elements b P20" "(3, replicate 20 3) \<notin> key_elements b P20"
    unfolding b(3) by (simp_all add: pattern_size_of_def new_actor_def new_index_def)
  with b(1,2) show ?thesis
    by blast
qed

end
