(* ===== verification/Reorg_Master.thy ===== *)
theory Reorg_Master
  imports Wallet_Reorg
begin

text \<open>
  How the actors of the wallets of one chain agree on a reorganisation
  (\<open>src/blockchain/node/wallet/ReorgMaster.cpp\<close>, \<open>ReorgSlave.cpp\<close>): the master tells its slaves to
  prepare, every slave hands over the function that reorganises it and stops, and when all have done so the
  functions are run. Every function of the master holds its lock, and is one step. An exception that is caught ends in
  \<open>LogAbort\<close>.
\<close>

section \<open>State\<close>

datatype reorg_phase = PhaseNormal | PhasePreReorg | PhaseReorg | PhaseShutdown

datatype accounts_work =
    AccountsShutdown | AccountsNym | AccountsHeader | AccountsReorg | AccountsRescan | AccountsReorgReady
  | AccountsShutdownReady | AccountsInit | AccountsPrepareShutdown | AccountsStateMachine

text \<open>A message for the parent of the master, or for a slave. \<open>PrepareReorgWork\<close> carries the number of the
  reorganisation.\<close>

datatype master_message =
    ToAccounts accounts_work
  | ToSlave int job_message

type_synonym 'w reorg_task = "block_position \<Rightarrow> 'w \<Rightarrow> (bool \<times> 'w) outcome"

record 'w reorg_master =
  rm_phase :: reorg_phase
  rm_counter :: int
  rm_shutdown_slaves :: "int list"
  rm_reorg_slaves :: "int list"
  rm_actions :: "(int \<times> 'w reorg_task) list"
  rm_shutdown_acks :: "int list"
  rm_reorg_acks :: "int list"
  rm_params :: "block_position option"
  rm_sent :: "master_message list"

definition new_master :: "'w reorg_master" where
  "new_master = \<lparr>rm_phase = PhaseNormal, rm_counter = - 1, rm_shutdown_slaves = [], rm_reorg_slaves = [], rm_actions = [],
    rm_shutdown_acks = [], rm_reorg_acks = [], rm_params = None, rm_sent = []\<rparr>"

definition post :: "master_message list \<Rightarrow> 'w reorg_master \<Rightarrow> 'w reorg_master" where
  "post msgs m = m\<lparr>rm_sent := rm_sent m @ msgs\<rparr>"

section \<open>Slaves come and go\<close>

definition GetSlave :: "'w reorg_master \<Rightarrow> int \<times> 'w reorg_master" where
  "GetSlave m =
    (let i = rm_counter m + 1
     in (i, m\<lparr>rm_counter := i, rm_shutdown_slaves := oset_put i (rm_shutdown_slaves m)\<rparr>))"

definition Register :: "int \<Rightarrow> 'w reorg_master \<Rightarrow> (reorg_phase \<times> 'w reorg_master) outcome" where
  "Register i m =
    assert_that ''rc'' (i \<notin> set (rm_reorg_slaves m))
      (Inr (rm_phase m, m\<lparr>rm_reorg_slaves := oset_put i (rm_reorg_slaves m)\<rparr>))"

definition Unregister :: "int \<Rightarrow> 'w reorg_master \<Rightarrow> 'w reorg_master" where
  "Unregister i m = m\<lparr>
    rm_shutdown_slaves := oset_del i (rm_shutdown_slaves m), rm_reorg_slaves := oset_del i (rm_reorg_slaves m),
    rm_actions := omap_del i (rm_actions m), rm_shutdown_acks := oset_del i (rm_shutdown_acks m),
    rm_reorg_acks := oset_del i (rm_reorg_acks m)\<rparr>"

text \<open>\<open>ReorgSlavePrivate::Start\<close>: true if the actor must stop at once.\<close>

definition slave_Start :: "int \<Rightarrow> 'w reorg_master \<Rightarrow> (bool \<times> 'w reorg_master) outcome" where
  "slave_Start i m =
    bind_outcome (Register i m) (\<lambda>(state, m).
      if state = PhaseShutdown then Inr (True, Unregister i m) else Inr (False, m))"

section \<open>Acknowledgements\<close>

definition check_condition :: "bool \<Rightarrow> accounts_work \<Rightarrow> 'w reorg_master \<Rightarrow> bool \<times> 'w reorg_master" where
  "check_condition reorg w m =
    (let slaves = (if reorg then rm_reorg_slaves m else rm_shutdown_slaves m);
         acks = (if reorg then rm_reorg_acks m else rm_shutdown_acks m)
     in if length slaves = 0 \<or> length acks = length slaves then (True, post [ToAccounts w] m) else (False, m))"

definition check_prepare_reorg :: "'w reorg_master \<Rightarrow> bool \<times> 'w reorg_master" where
  "check_prepare_reorg = check_condition True AccountsReorgReady"

definition check_shutdown :: "'w reorg_master \<Rightarrow> bool \<times> 'w reorg_master" where
  "check_shutdown = check_condition False AccountsShutdownReady"

definition acknowledge :: "bool \<Rightarrow> reorg_phase \<Rightarrow> accounts_work \<Rightarrow> int \<Rightarrow> 'w reorg_master \<Rightarrow> 'w reorg_master outcome" where
  "acknowledge reorg expected w i m =
    (let slaves = (if reorg then rm_reorg_slaves m else rm_shutdown_slaves m);
         acks = (if reorg then rm_reorg_acks m else rm_shutdown_acks m)
     in if expected \<noteq> rm_phase m \<or> i \<notin> set slaves \<or> i \<in> set acks then Inl Unreachable
        else Inr (snd (check_condition reorg w
          (if reorg then m\<lparr>rm_reorg_acks := oset_put i acks\<rparr> else m\<lparr>rm_shutdown_acks := oset_put i acks\<rparr>))))"

text \<open>A job that is empty (\<open>None\<close>) is refused.\<close>

definition AcknowledgePrepareReorg :: "int \<Rightarrow> 'w reorg_task option \<Rightarrow> 'w reorg_master \<Rightarrow> 'w reorg_master outcome" where
  "AcknowledgePrepareReorg i job m = (case job of
     None \<Rightarrow> Inl Unreachable
   | Some task \<Rightarrow>
       if map_of (rm_actions m) i \<noteq> None then Inl Unreachable
       else acknowledge True PhasePreReorg AccountsReorgReady i (m\<lparr>rm_actions := omap_emplace i task (rm_actions m)\<rparr>))"

definition AcknowledgeShutdown :: "int \<Rightarrow> 'w reorg_master \<Rightarrow> 'w reorg_master outcome" where
  "AcknowledgeShutdown = acknowledge False PhaseShutdown AccountsShutdownReady"

section \<open>A reorganisation\<close>

definition PrepareReorg :: "64 word \<Rightarrow> 'w reorg_master \<Rightarrow> (bool \<times> 'w reorg_master) outcome" where
  "PrepareReorg n m =
    (if rm_phase m \<noteq> PhaseNormal then Inl Unreachable
     else
       let m = m\<lparr>rm_phase := PhasePreReorg, rm_reorg_acks := []\<rparr> in
       if rm_actions m \<noteq> [] then Inl Unreachable
       else let (ready, m) = check_prepare_reorg m in
         if ready then Inr (True, m)
         else Inr (True, post (map (\<lambda>i. ToSlave i (PrepareReorgWork, [le_bytes 8 n])) (rm_reorg_slaves m)) m))"

definition GetReorg :: "block_position \<Rightarrow> 'w reorg_master \<Rightarrow> 'w reorg_master outcome" where
  "GetReorg position m =
    (if rm_phase m \<noteq> PhasePreReorg \<or> rm_params m \<noteq> None then Inl Unreachable
     else Inr (m\<lparr>rm_params := Some position\<rparr>))"

text \<open>The exceptions of \<open>PerformReorg\<close> are not caught, and it is \<open>noexcept\<close>.\<close>

definition take_jobs :: "'w reorg_master \<Rightarrow> (('w \<Rightarrow> (bool \<times> 'w) outcome) list \<times> 'w reorg_master) outcome" where
  "take_jobs m =
    (if rm_phase m \<noteq> PhasePreReorg then Inl Terminated
     else case rm_params m of
       None \<Rightarrow> Inl Terminated
     | Some position \<Rightarrow>
         if length (rm_actions m) \<noteq> length (rm_reorg_slaves m) then Inl Terminated
         else Inr (map (\<lambda>(i, task). task position) (rm_actions m),
           m\<lparr>rm_phase := PhaseReorg, rm_reorg_acks := [], rm_actions := []\<rparr>))"

definition PerformReorg :: "'w reorg_master \<Rightarrow> 'w \<Rightarrow> (bool \<times> 'w reorg_master \<times> 'w) outcome" where
  "PerformReorg m w =
    bind_outcome (take_jobs m) (\<lambda>(jobs, m).
      bind_outcome (Execute jobs w) (\<lambda>(ok, w). Inr (ok, m, w)))"

definition ClearReorg :: "'w reorg_master \<Rightarrow> 'w reorg_master outcome" where
  "ClearReorg m =
    (if rm_phase m \<noteq> PhaseReorg \<or> rm_params m = None then Inl Unreachable else Inr (m\<lparr>rm_params := None\<rparr>))"

definition FinishReorg :: "'w reorg_master \<Rightarrow> 'w reorg_master outcome" where
  "FinishReorg m =
    (if rm_phase m \<noteq> PhaseReorg \<or> rm_params m \<noteq> None \<or> rm_reorg_acks m \<noteq> [] \<or> rm_actions m \<noteq> [] then Inl Unreachable
     else Inr (post (map (\<lambda>i. ToSlave i (FinishReorgWork, [])) (rm_reorg_slaves m)) (m\<lparr>rm_phase := PhaseNormal\<rparr>)))"

section \<open>Shutdown\<close>

definition PrepareShutdown :: "'w reorg_master \<Rightarrow> (bool \<times> 'w reorg_master) outcome" where
  "PrepareShutdown m =
    (if rm_phase m \<noteq> PhaseNormal then Inl Unreachable
     else let (ready, m) = check_shutdown (m\<lparr>rm_phase := PhaseShutdown, rm_shutdown_acks := []\<rparr>) in
       if ready then Inr (True, m)
       else Inr (False, post (map (\<lambda>i. ToSlave i (PrepareShutdownWork, [])) (rm_shutdown_slaves m)) m))"

definition Stop :: "'w reorg_master \<Rightarrow> 'w reorg_master" where
  "Stop m = post (map (\<lambda>i. ToSlave i (ShutdownWork, [])) (rm_shutdown_slaves m)) m"

definition CheckShutdown :: "'w reorg_master \<Rightarrow> bool \<times> 'w reorg_master" where
  "CheckShutdown m =
    (let (ready, m) = check_shutdown m in
     if ready then (True, m) else (False, Stop m))"

end
