(* ===== verification/Reorg_Accounts.thy ===== *)
theory Reorg_Accounts
  imports Reorg_Master
begin

text \<open>
  The actor that owns the master (\<open>src/blockchain/node/wallet/Accounts.cpp\<close>): it hears of new blocks, of
  reorganisations and of new identities, and drives a reorganisation through its phases. The database and the header oracle
  are parameters; what the slaves do is the state \<open>xs_world\<close>, on which their functions work.
\<close>

section \<open>State\<close>

record accounts_env =
  xe_chain :: "32 word"
  xe_nym :: "view \<Rightarrow> string"
  xe_local_nyms :: "string list"
  xe_position :: block_position \<comment> \<open>\<open>GetPosition\<close> of the database\<close>
  xe_common_parent :: "block_position \<Rightarrow> block_position \<times> block_position"
  xe_finalize :: "block_position \<Rightarrow> bool"
  xe_advance :: "block_position \<Rightarrow> bool"
  xe_shutting_down :: bool

datatype accounts_phase = AccNormal | AccPreReorg | AccPreShutdown | AccShutdown

type_synonym accounts_message = "accounts_work \<times> view list"

datatype accounts_effect =
    StartAccount string
  | AdvanceTo block_position
  | RescanChildren
  | PushSelf accounts_message

record 'w accounts =
  xs_phase :: accounts_phase
  xs_init :: bool
  xs_counter :: "64 word"
  xs_startup_reorg :: "64 word option"
  xs_data :: "(block_position \<times> block_position) option"
  xs_accounts :: "string list"
  xs_cache :: "accounts_message list"
  xs_master :: "'w reorg_master"
  xs_world :: 'w
  xs_effects :: "accounts_effect list"

definition new_accounts :: "'w \<Rightarrow> 'w accounts" where
  "new_accounts w = \<lparr>xs_phase = AccNormal, xs_init = False, xs_counter = 0, xs_startup_reorg = None, xs_data = None,
    xs_accounts = [], xs_cache = [], xs_master = new_master, xs_world = w, xs_effects = []\<rparr>"

definition note_effect :: "accounts_effect \<Rightarrow> 'w accounts \<Rightarrow> 'w accounts" where
  "note_effect e x = x\<lparr>xs_effects := xs_effects x @ [e]\<rparr>"

definition defer_accounts :: "accounts_message \<Rightarrow> 'w accounts \<Rightarrow> 'w accounts" where
  "defer_accounts msg x = x\<lparr>xs_cache := xs_cache x @ [msg]\<rparr>"

section \<open>Messages\<close>

definition process_nym_id :: "string \<Rightarrow> 'w accounts \<Rightarrow> 'w accounts" where
  "process_nym_id nym x =
    (if nym \<in> set (xs_accounts x) then x else note_effect (StartAccount nym) (x\<lparr>xs_accounts := xs_accounts x @ [nym]\<rparr>))"

definition process_nym :: "accounts_env \<Rightarrow> accounts_message \<Rightarrow> 'w accounts \<Rightarrow> 'w accounts outcome" where
  "process_nym env msg x =
    assert_that ''1 < body.size()'' (1 < body_size msg)
      (bind_outcome (body_frame msg 1) (\<lambda>f. let nym = xe_nym env f in
        Inr (if nym = [] then x else process_nym_id nym x)))"

text \<open>A hash in frame \<open>k\<close> and a height in the next one.\<close>

definition hash_height_at :: "accounts_message \<Rightarrow> nat \<Rightarrow> block_position outcome" where
  "hash_height_at msg k =
    bind_outcome (body_frame msg (Suc k)) (\<lambda>f. bind_outcome (frame_as 8 f) (\<lambda>h.
    bind_outcome (body_frame msg k) (\<lambda>g. bind_outcome (hash_of g) (\<lambda>hash. Inr (height_of h, hash)))))"

definition of_chain :: "accounts_env \<Rightarrow> accounts_message \<Rightarrow> 'w accounts \<Rightarrow> 'w accounts outcome \<Rightarrow> 'w accounts outcome" where
  "of_chain env msg x k =
    bind_outcome (body_frame msg 1) (\<lambda>f. bind_outcome (frame_as 4 f) (\<lambda>chain.
      if chain \<noteq> xe_chain env then Inr x else k))"

definition process_block_header :: "accounts_env \<Rightarrow> accounts_message \<Rightarrow> 'w accounts \<Rightarrow> 'w accounts outcome" where
  "process_block_header env msg x =
    (if xs_startup_reorg x \<noteq> None then Inr (defer_accounts msg x)
     else if 3 \<ge> body_size msg then Inl Unreachable
     else of_chain env msg x (bind_outcome (hash_height_at msg 2) (\<lambda>position. Inr (note_effect (AdvanceTo position) x))))"

section \<open>Transitions\<close>

definition transition_pre_reorg :: "'w accounts \<Rightarrow> 'w accounts outcome" where
  "transition_pre_reorg x =
    (let n = (case xs_startup_reorg x of Some n \<Rightarrow> n | None \<Rightarrow> xs_counter x + 1);
         x = (case xs_startup_reorg x of Some _ \<Rightarrow> x | None \<Rightarrow> x\<lparr>xs_counter := n\<rparr>);
         x = x\<lparr>xs_phase := AccPreReorg, xs_startup_reorg := None\<rparr>
     in bind_outcome (PrepareReorg n (xs_master x)) (\<lambda>(_, m). Inr (x\<lparr>xs_master := m\<rparr>)))"

definition process_reorg_to :: "block_position \<Rightarrow> block_position \<Rightarrow> 'w accounts \<Rightarrow> 'w accounts outcome" where
  "process_reorg_to ancestor tip x =
    assert_that ''reorg_data_.has_value()'' (xs_data x = None)
      (transition_pre_reorg (x\<lparr>xs_data := Some (ancestor, tip)\<rparr>))"

definition process_reorg :: "accounts_env \<Rightarrow> accounts_message \<Rightarrow> 'w accounts \<Rightarrow> 'w accounts outcome" where
  "process_reorg env msg x =
    (if 6 > body_size msg then Inl Unreachable
     else of_chain env msg x
       (bind_outcome (hash_height_at msg 2) (\<lambda>ancestor. bind_outcome (hash_height_at msg 4) (\<lambda>tip.
         process_reorg_to ancestor tip x))))"

text \<open>\<open>trigger\<close> has no effect, since the state machine of this actor does nothing.\<close>

definition transition_normal :: "'w accounts \<Rightarrow> 'w accounts outcome" where
  "transition_normal x =
    assert_that ''reorg_data_.has_value()'' (xs_data x \<noteq> None) (Inr (x\<lparr>xs_phase := AccNormal, xs_data := None\<rparr>))"

definition Accounts_do_reorg :: "accounts_env \<Rightarrow> 'w accounts \<Rightarrow> 'w accounts outcome" where
  "Accounts_do_reorg env x = (case xs_data x of
     None \<Rightarrow> Inl Unreachable
   | Some (ancestor, tip) \<Rightarrow>
       bind_outcome (GetReorg ancestor (xs_master x)) (\<lambda>m.
       bind_outcome (PerformReorg m (xs_world x)) (\<lambda>(ok, m, w).
         if \<not> ok then Inl Unreachable
         else if \<not> xe_finalize env ancestor then Inl Unreachable
         else bind_outcome (ClearReorg m) (\<lambda>m.
           if \<not> xe_advance env tip then Inl Unreachable
           else bind_outcome (FinishReorg m) (\<lambda>m. transition_normal (x\<lparr>xs_master := m, xs_world := w\<rparr>))))))"

definition Accounts_do_shutdown :: "'w accounts \<Rightarrow> 'w accounts" where
  "Accounts_do_shutdown x = x\<lparr>xs_phase := AccShutdown, xs_master := Stop (xs_master x)\<rparr>"

definition transition_pre_shutdown :: "'w accounts \<Rightarrow> 'w accounts outcome" where
  "transition_pre_shutdown x =
    bind_outcome (PrepareShutdown (xs_master x)) (\<lambda>(ready, m).
      let x = x\<lparr>xs_phase := AccPreShutdown, xs_master := m\<rparr>
      in Inr (if ready then Accounts_do_shutdown x else x))"

section \<open>The states\<close>

definition accounts_normal :: "accounts_env \<Rightarrow> accounts_message \<Rightarrow> 'w accounts \<Rightarrow> 'w accounts outcome" where
  "accounts_normal env msg x = (case fst msg of
     AccountsNym \<Rightarrow> process_nym env msg x
   | AccountsHeader \<Rightarrow> process_block_header env msg x
   | AccountsReorg \<Rightarrow> process_reorg env msg x
   | AccountsRescan \<Rightarrow> Inr (note_effect RescanChildren x)
   | AccountsShutdown \<Rightarrow> transition_pre_shutdown x
   | AccountsPrepareShutdown \<Rightarrow> transition_pre_shutdown x
   | _ \<Rightarrow> Inl Unreachable)"

definition accounts_pre_reorg :: "accounts_env \<Rightarrow> accounts_message \<Rightarrow> 'w accounts \<Rightarrow> 'w accounts outcome" where
  "accounts_pre_reorg env msg x =
    (if fst msg \<in> {AccountsShutdown, AccountsNym, AccountsHeader, AccountsReorg, AccountsRescan, AccountsPrepareShutdown}
     then Inr (defer_accounts msg x)
     else if fst msg = AccountsReorgReady then Accounts_do_reorg env x
     else Inl Unreachable)"

definition accounts_pre_shutdown :: "accounts_message \<Rightarrow> 'w accounts \<Rightarrow> 'w accounts outcome" where
  "accounts_pre_shutdown msg x =
    (if fst msg \<in> {AccountsShutdown, AccountsPrepareShutdown} then
       (let (ready, m) = CheckShutdown (xs_master x); x = x\<lparr>xs_master := m\<rparr>
        in Inr (if ready then Accounts_do_shutdown x else x))
     else if fst msg \<in> {AccountsNym, AccountsHeader, AccountsReorg, AccountsRescan} then Inr x
     else Inl Unreachable)"

definition accounts_pipeline :: "accounts_env \<Rightarrow> accounts_message \<Rightarrow> 'w accounts \<Rightarrow> 'w accounts outcome" where
  "accounts_pipeline env msg x = (case xs_phase x of
     AccNormal \<Rightarrow> accounts_normal env msg x
   | AccPreReorg \<Rightarrow> accounts_pre_reorg env msg x
   | AccPreShutdown \<Rightarrow> accounts_pre_shutdown msg x
   | AccShutdown \<Rightarrow> Inr x)"

section \<open>The life of the actor\<close>

definition accounts_startup :: "accounts_env \<Rightarrow> 'w accounts \<Rightarrow> bool \<times> 'w accounts" where
  "accounts_startup env x =
    (if xe_shutting_down env then (True, x)
     else
       let x = fold process_nym_id (xe_local_nyms env) x; old = xe_position env
       in if 0 > fst old then (False, x)
          else let (parent, best) = xe_common_parent env old in
            if parent = old then (False, x)
            else (False, note_effect
              (PushSelf (AccountsReorg, [le_bytes 4 (xe_chain env), snd parent, height_frame (fst parent), snd best, height_frame (fst best)]))
              (x\<lparr>xs_counter := xs_counter x + 1, xs_startup_reorg := Some (xs_counter x + 1)\<rparr>)))"

definition accounts_ready :: "accounts_env \<Rightarrow> accounts_message \<Rightarrow> 'w accounts \<Rightarrow> 'w accounts outcome" where
  "accounts_ready env msg x = (case fst msg of
     AccountsShutdown \<Rightarrow> Inr (Accounts_do_shutdown x)
   | AccountsStateMachine \<Rightarrow> Inr x
   | _ \<Rightarrow> accounts_pipeline env msg x)"

definition accounts_flush :: "accounts_env \<Rightarrow> 'w accounts \<Rightarrow> 'w accounts outcome" where
  "accounts_flush env x =
    fold_outcome (\<lambda>msg x. accounts_ready env msg (x\<lparr>xs_cache := tl (xs_cache x)\<rparr>)) (xs_cache x) x"

definition accounts_init :: "accounts_env \<Rightarrow> 'w accounts \<Rightarrow> 'w accounts outcome" where
  "accounts_init env x =
    (let (shutdown, x) = accounts_startup env x; x = x\<lparr>xs_init := True\<rparr>
     in if shutdown then Inr (Accounts_do_shutdown x) else accounts_flush env x)"

definition accounts_worker :: "accounts_env \<Rightarrow> accounts_message \<Rightarrow> 'w accounts \<Rightarrow> 'w accounts outcome" where
  "accounts_worker env msg x =
    (if xs_phase x = AccShutdown then Inr x
     else if \<not> xs_init x then
       (if fst msg = AccountsInit then bind_outcome (accounts_init env x) (accounts_flush env) else Inr x)
     else bind_outcome (accounts_flush env x) (accounts_ready env msg))"

end
