(* ===== verification/Reorg_Facts.thy ===== *)
theory Reorg_Facts
  imports Reorg_Accounts
begin

text \<open>
  The steps of the master as a machine, its invariant, and what a round of acknowledgements does.
\<close>

section \<open>The master as a machine\<close>

datatype 'w master_op =
    DoGetSlave
  | DoStart int
  | DoUnregister int
  | DoAcknowledge int "'w reorg_task option"
  | DoAcknowledgeShutdown int
  | DoPrepare "64 word"
  | DoGetReorg block_position
  | DoPerform
  | DoClear
  | DoFinish
  | DoPrepareShutdown
  | DoCheckShutdown
  | DoStop

definition on_master :: "'w reorg_master outcome \<Rightarrow> 'w \<Rightarrow> ('w reorg_master \<times> 'w) outcome" where
  "on_master r w = bind_outcome r (\<lambda>m. Inr (m, w))"

definition and_master :: "('r \<times> 'w reorg_master) outcome \<Rightarrow> 'w \<Rightarrow> ('w reorg_master \<times> 'w) outcome" where
  "and_master r w = bind_outcome r (\<lambda>(_, m). Inr (m, w))"

fun master_do :: "'w master_op \<Rightarrow> 'w reorg_master \<times> 'w \<Rightarrow> ('w reorg_master \<times> 'w) outcome" where
  "master_do DoGetSlave (m, w) = Inr (snd (GetSlave m), w)"
| "master_do (DoStart i) (m, w) = and_master (slave_Start i m) w"
| "master_do (DoUnregister i) (m, w) = Inr (Unregister i m, w)"
| "master_do (DoAcknowledge i job) (m, w) = on_master (AcknowledgePrepareReorg i job m) w"
| "master_do (DoAcknowledgeShutdown i) (m, w) = on_master (AcknowledgeShutdown i m) w"
| "master_do (DoPrepare n) (m, w) = and_master (PrepareReorg n m) w"
| "master_do (DoGetReorg position) (m, w) = on_master (GetReorg position m) w"
| "master_do DoPerform (m, w) = bind_outcome (PerformReorg m w) (\<lambda>(_, m, w). Inr (m, w))"
| "master_do DoClear (m, w) = on_master (ClearReorg m) w"
| "master_do DoFinish (m, w) = on_master (FinishReorg m) w"
| "master_do DoPrepareShutdown (m, w) = and_master (PrepareShutdown m) w"
| "master_do DoCheckShutdown (m, w) = Inr (snd (CheckShutdown m), w)"
| "master_do DoStop (m, w) = Inr (Stop m, w)"

definition master_run :: "'w master_op list \<Rightarrow> 'w reorg_master \<times> 'w \<Rightarrow> ('w reorg_master \<times> 'w) outcome" where
  "master_run = fold_outcome master_do"

section \<open>The invariant\<close>

definition master_ok :: "'w reorg_master \<Rightarrow> bool" where
  "master_ok m \<longleftrightarrow>
    sorted (rm_reorg_slaves m) \<and> distinct (rm_reorg_slaves m) \<and> sorted (rm_reorg_acks m) \<and> distinct (rm_reorg_acks m) \<and>
    map fst (rm_actions m) = rm_reorg_acks m \<and> set (rm_reorg_acks m) \<subseteq> set (rm_reorg_slaves m) \<and>
    (rm_phase m \<noteq> PhasePreReorg \<longrightarrow> rm_actions m = []) \<and>
    (rm_phase m = PhaseNormal \<or> rm_phase m = PhaseShutdown \<longrightarrow> rm_params m = None)"

lemma post_simps [simp]:
  "rm_phase (post ms m) = rm_phase m" "rm_counter (post ms m) = rm_counter m"
  "rm_shutdown_slaves (post ms m) = rm_shutdown_slaves m" "rm_reorg_slaves (post ms m) = rm_reorg_slaves m"
  "rm_actions (post ms m) = rm_actions m" "rm_shutdown_acks (post ms m) = rm_shutdown_acks m"
  "rm_reorg_acks (post ms m) = rm_reorg_acks m" "rm_params (post ms m) = rm_params m" "rm_sent (post ms m) = rm_sent m @ ms"
  by (simp_all add: post_def)

lemma master_ok_post [simp]: "master_ok (post ms m) = master_ok m"
  by (simp add: master_ok_def)

lemma check_condition_eq:
  "snd (check_condition reorg k m) = (if fst (check_condition reorg k m) then post [ToAccounts k] m else m)"
  "fst (check_condition True k m) \<longleftrightarrow> rm_reorg_slaves m = [] \<or> length (rm_reorg_acks m) = length (rm_reorg_slaves m)"
  "fst (check_condition False k m) \<longleftrightarrow> rm_shutdown_slaves m = [] \<or> length (rm_shutdown_acks m) = length (rm_shutdown_slaves m)"
  by (simp_all add: check_condition_def Let_def)

lemma master_ok_condition [simp]: "master_ok (snd (check_condition reorg k m)) = master_ok m"
  by (simp add: check_condition_eq)

lemma new_master_ok: "master_ok new_master"
  by (simp add: master_ok_def new_master_def)

lemma omap_put_new_key: "k \<notin> set (map fst m) \<Longrightarrow> map fst (omap_put k v m) = insort k (map fst m)"
  by (induction k v m rule: omap_put.induct) auto

lemma emplaced_keys: "map_of m k = None \<Longrightarrow> map fst (omap_emplace k v m) = oset_put k (map fst m)"
  by (simp add: omap_emplace_def omap_put_new_key oset_put_def map_of_eq_None_iff)

lemma omap_emplace_entries: "set (omap_emplace k v m) \<subseteq> insert (k, v) (set m)"
proof -
  have "set (omap_put k v m) \<subseteq> insert (k, v) (set m)"
    by (induction k v m rule: omap_put.induct) auto
  then show ?thesis
    by (auto simp: omap_emplace_def)
qed

lemma deleted_keys: "map fst (omap_del k m) = oset_del k (map fst m)"
  by (induction m) (auto simp: omap_del_def oset_del_def)

lemma omap_del_Nil [simp]: "omap_del k [] = []"
  by (simp add: omap_del_def)

lemma acknowledge_ok:
  assumes "master_ok m" "AcknowledgePrepareReorg i job m = Inr m'"
  shows "master_ok m'"
proof -
  obtain task where task: "job = Some task" "map_of (rm_actions m) i = None"
    using assms(2) by (auto simp: AcknowledgePrepareReorg_def split: option.splits if_splits)
  let ?m = "m\<lparr>rm_actions := omap_emplace i task (rm_actions m), rm_reorg_acks := oset_put i (rm_reorg_acks m)\<rparr>"
  have "rm_phase m = PhasePreReorg" "i \<in> set (rm_reorg_slaves m)" "m' = snd (check_condition True AccountsReorgReady ?m)"
    using assms(2) task by (auto simp: AcknowledgePrepareReorg_def acknowledge_def Let_def split: if_splits)
  moreover from this have "master_ok ?m"
    using assms(1) emplaced_keys [OF task(2)] by (simp add: master_ok_def)
  ultimately show ?thesis
    by simp
qed

lemma register_ok: "master_ok m \<Longrightarrow> master_ok (m\<lparr>rm_reorg_slaves := oset_put i (rm_reorg_slaves m)\<rparr>)"
  by (auto simp: master_ok_def)

lemma sorted_oset_del: "sorted xs \<Longrightarrow> sorted (oset_del x xs)"
  by (simp add: oset_del_def removeAll_filter_not_eq sorted_wrt_filter)

lemma unregister_ok:
  assumes "master_ok m"
  shows "master_ok (Unregister i m)"
  using assms deleted_keys [of i "rm_actions m"] unfolding master_ok_def Unregister_def
  by (simp add: sorted_oset_del) blast

lemma start_ok: "master_ok m \<Longrightarrow> slave_Start i m = Inr (stop, m') \<Longrightarrow> master_ok m'"
  unfolding slave_Start_def Register_def
  by (auto simp: bind_outcome_eq_Inr assert_that_eq_Inr register_ok unregister_ok split: if_splits)

lemma finish_ok: "master_ok m \<Longrightarrow> FinishReorg m = Inr m' \<Longrightarrow> master_ok m'"
  unfolding FinishReorg_def by (cases "rm_params m") (auto simp: master_ok_def split: if_splits)

lemma master_do_ok:
  assumes "master_ok m" "master_do op (m, w) = Inr (m', w')"
  shows "master_ok m'"
proof (cases op)
  case DoGetSlave
  then show ?thesis
    using assms unfolding master_ok_def by (fastforce simp: GetSlave_def Let_def)
next
  case (DoStart i)
  then show ?thesis
    using assms by (auto simp: and_master_def bind_outcome_eq_Inr dest: start_ok)
next
  case (DoUnregister i)
  then show ?thesis
    using assms unregister_ok by auto
next
  case (DoAcknowledge i job)
  then show ?thesis
    using assms by (auto simp: on_master_def bind_outcome_eq_Inr dest: acknowledge_ok)
next
  case (DoAcknowledgeShutdown i)
  then show ?thesis
    using assms unfolding master_ok_def by (force simp: on_master_def bind_outcome_eq_Inr AcknowledgeShutdown_def acknowledge_def Let_def check_condition_eq split: if_splits)
next
  case (DoPrepare n)
  then show ?thesis
    using assms unfolding master_ok_def by (force simp: and_master_def PrepareReorg_def check_prepare_reorg_def check_condition_def Let_def bind_outcome_eq_Inr split: if_splits)
next
  case (DoGetReorg position)
  then show ?thesis
    using assms unfolding master_ok_def by (force simp: on_master_def GetReorg_def bind_outcome_eq_Inr split: if_splits)
next
  case DoPerform
  then show ?thesis
    using assms unfolding master_ok_def by (force simp: PerformReorg_def take_jobs_def bind_outcome_eq_Inr split: if_splits option.splits)
next
  case DoClear
  then show ?thesis
    using assms unfolding master_ok_def by (force simp: on_master_def ClearReorg_def bind_outcome_eq_Inr split: if_splits)
next
  case DoFinish
  then show ?thesis
    using assms by (auto simp: on_master_def bind_outcome_eq_Inr dest: finish_ok)
next
  case DoPrepareShutdown
  then show ?thesis
    using assms unfolding master_ok_def by (force simp: and_master_def PrepareShutdown_def check_shutdown_def check_condition_def Let_def bind_outcome_eq_Inr split: if_splits)
next
  case DoCheckShutdown
  then show ?thesis
    using assms by (auto simp: CheckShutdown_def check_shutdown_def check_condition_def Stop_def Let_def split: if_splits)
next
  case DoStop
  then show ?thesis
    using assms by (auto simp: Stop_def)
qed

lemma master_run_ok: "master_ok m \<Longrightarrow> master_run ops (m, w) = Inr (m', w') \<Longrightarrow> master_ok m'"
  unfolding master_run_def
  by (induction ops arbitrary: m w) (auto simp: bind_outcome_eq_Inr dest: master_do_ok)

text \<open>When all have handed over their functions, the functions are those of the slaves, in the order of their numbers.\<close>

lemma complete_actions:
  assumes "master_ok m" "length (rm_actions m) = length (rm_reorg_slaves m)"
  shows "map fst (rm_actions m) = rm_reorg_slaves m" "rm_reorg_acks m = rm_reorg_slaves m"
proof -
  have keys: "map fst (rm_actions m) = rm_reorg_acks m"
    using assms(1) by (simp add: master_ok_def)
  have "length (rm_reorg_acks m) = length (rm_reorg_slaves m)"
    using assms(2) unfolding keys [symmetric] by simp
  then have "set (rm_reorg_acks m) = set (rm_reorg_slaves m)"
    using assms(1) by (intro card_subset_eq) (simp_all add: master_ok_def distinct_card)
  then show "rm_reorg_acks m = rm_reorg_slaves m"
    using assms(1) by (intro sorted_distinct_set_unique) (simp_all add: master_ok_def)
  then show "map fst (rm_actions m) = rm_reorg_slaves m"
    using keys by simp
qed

section \<open>A round of acknowledgements\<close>

lemma acknowledge_step:
  assumes "master_ok m" "rm_phase m = PhasePreReorg" "i \<in> set (rm_reorg_slaves m)" "i \<notin> set (rm_reorg_acks m)"
  shows "AcknowledgePrepareReorg i (Some task) m =
    Inr (m\<lparr>rm_actions := omap_emplace i task (rm_actions m), rm_reorg_acks := oset_put i (rm_reorg_acks m),
      rm_sent := rm_sent m @ (if Suc (length (rm_reorg_acks m)) = length (rm_reorg_slaves m) then [ToAccounts AccountsReorgReady] else [])\<rparr>)"
proof -
  have "i \<notin> set (map fst (rm_actions m))"
    using assms(1,4) by (simp add: master_ok_def)
  then have "map_of (rm_actions m) i = None"
    by (simp add: map_of_eq_None_iff)
  moreover have "length (oset_put i (rm_reorg_acks m)) = Suc (length (rm_reorg_acks m))"
    using assms(4) by (simp add: oset_put_def)
  ultimately show ?thesis
    using assms(2-4) by (auto simp: AcknowledgePrepareReorg_def acknowledge_def check_condition_def Let_def post_def)
qed

definition acknowledge_all :: "(int \<Rightarrow> 'w reorg_task) \<Rightarrow> int list \<Rightarrow> 'w reorg_master \<Rightarrow> 'w reorg_master outcome" where
  "acknowledge_all task = fold_outcome (\<lambda>i. AcknowledgePrepareReorg i (Some (task i)))"

lemma acknowledge_all_Cons:
  "acknowledge_all task (i # is) m = bind_outcome (AcknowledgePrepareReorg i (Some (task i)) m) (acknowledge_all task is)"
  by (simp add: acknowledge_all_def)

lemma acknowledge_all_Nil [simp]: "acknowledge_all task [] m = Inr m"
  by (simp add: acknowledge_all_def)

text \<open>The message that all are ready is sent with the last of them, and only then.\<close>

lemma acknowledged_round:
  assumes "master_ok m" "rm_phase m = PhasePreReorg" "distinct is" "set is \<subseteq> set (rm_reorg_slaves m)"
    "set is \<inter> set (rm_reorg_acks m) = {}" "\<forall>(i, t) \<in> set (rm_actions m). t = task i"
  shows "\<exists>m'. acknowledge_all task is m = Inr m' \<and> master_ok m' \<and> rm_phase m' = PhasePreReorg \<and>
    rm_reorg_slaves m' = rm_reorg_slaves m \<and> rm_params m' = rm_params m \<and>
    set (rm_reorg_acks m') = set is \<union> set (rm_reorg_acks m) \<and> (\<forall>(i, t) \<in> set (rm_actions m'). t = task i) \<and>
    rm_sent m' = rm_sent m @ (if is \<noteq> [] \<and> length is + length (rm_reorg_acks m) = length (rm_reorg_slaves m)
      then [ToAccounts AccountsReorgReady] else [])"
  using assms
proof (induction "is" arbitrary: m)
  case (Cons i "is")
  let ?m = "m\<lparr>rm_actions := omap_emplace i (task i) (rm_actions m), rm_reorg_acks := oset_put i (rm_reorg_acks m),
      rm_sent := rm_sent m @ (if Suc (length (rm_reorg_acks m)) = length (rm_reorg_slaves m) then [ToAccounts AccountsReorgReady] else [])\<rparr>"
  have step: "AcknowledgePrepareReorg i (Some (task i)) m = Inr ?m"
    using Cons.prems by (intro acknowledge_step) auto
  have ok: "master_ok ?m"
    by (rule acknowledge_ok [OF Cons.prems(1) step])
  have tasks: "\<forall>(j, t) \<in> set (rm_actions ?m). t = task j"
    using Cons.prems(6) omap_emplace_entries [of i "task i" "rm_actions m"] by auto
  have acks: "length (rm_reorg_acks ?m) = Suc (length (rm_reorg_acks m))"
    using Cons.prems(5) by (simp add: oset_put_def)
  have "card (set (i # is) \<union> set (rm_reorg_acks m)) \<le> card (set (rm_reorg_slaves m))"
    using Cons.prems(1,4) by (intro card_mono) (auto simp: master_ok_def)
  then have "length (i # is) + length (rm_reorg_acks m) \<le> length (rm_reorg_slaves m)"
    using Cons.prems(1,3,5) by (simp add: card_Un_disjoint distinct_card master_ok_def)
  then have few: "is \<noteq> [] \<Longrightarrow> Suc (length (rm_reorg_acks m)) \<noteq> length (rm_reorg_slaves m)"
    by (cases "is") auto
  have "\<exists>m'. acknowledge_all task is ?m = Inr m' \<and> master_ok m' \<and> rm_phase m' = PhasePreReorg \<and>
    rm_reorg_slaves m' = rm_reorg_slaves ?m \<and> rm_params m' = rm_params ?m \<and>
    set (rm_reorg_acks m') = set is \<union> set (rm_reorg_acks ?m) \<and> (\<forall>(i, t) \<in> set (rm_actions m'). t = task i) \<and>
    rm_sent m' = rm_sent ?m @ (if is \<noteq> [] \<and> length is + length (rm_reorg_acks ?m) = length (rm_reorg_slaves ?m)
      then [ToAccounts AccountsReorgReady] else [])"
    by (rule Cons.IH [OF ok _ _ _ _ tasks]) (use Cons.prems in auto)
  then obtain m' where m': "acknowledge_all task is ?m = Inr m'" "master_ok m'" "rm_phase m' = PhasePreReorg"
    "rm_reorg_slaves m' = rm_reorg_slaves m" "rm_params m' = rm_params m" "set (rm_reorg_acks m') = set is \<union> insert i (set (rm_reorg_acks m))"
    "\<forall>(i, t) \<in> set (rm_actions m'). t = task i"
    "rm_sent m' = rm_sent ?m @ (if is \<noteq> [] \<and> length is + length (rm_reorg_acks ?m) = length (rm_reorg_slaves m)
      then [ToAccounts AccountsReorgReady] else [])"
    by auto
  have "rm_sent m' = rm_sent m @ (if length (i # is) + length (rm_reorg_acks m) = length (rm_reorg_slaves m)
      then [ToAccounts AccountsReorgReady] else [])"
    unfolding m'(8) acks using few by (cases "is") auto
  then show ?case
    using m' by (intro exI [of _ m']) (simp add: acknowledge_all_Cons step)
qed simp

text \<open>The functions are then those of the slaves.\<close>

lemma complete_tasks:
  assumes "master_ok m" "set (rm_reorg_acks m) = set (rm_reorg_slaves m)" "\<forall>(i, t) \<in> set (rm_actions m). t = task i"
  shows "rm_actions m = map (\<lambda>i. (i, task i)) (rm_reorg_slaves m)"
proof -
  have "rm_reorg_acks m = rm_reorg_slaves m"
    using assms(1,2) by (intro sorted_distinct_set_unique) (simp_all add: master_ok_def)
  then have "map fst (rm_actions m) = rm_reorg_slaves m"
    using assms(1) by (simp add: master_ok_def)
  moreover have "map ((\<lambda>i. (i, task i)) \<circ> fst) (rm_actions m) = rm_actions m"
    by (rule map_idI) (use assms(3) in auto)
  ultimately show ?thesis
    by (metis map_map)
qed

end
