(* ===== verification/Reorg_Properties.thy ===== *)
theory Reorg_Properties
  imports Reorg_Facts Wallet_Reorg_Properties
begin

text \<open>
  What holds of a reorganisation of all wallets of a chain, for every order in which the threads take the lock of the
  master.
\<close>

section \<open>Safety\<close>

text \<open>
  C10. If the functions of a reorganisation are run, then every registered slave has stopped and handed over its function, and
  exactly these functions are run, once each and in the order of the numbers of the slaves, so that a subchain
  is reorganised before its actors; when one fails, the others are not run.
\<close>

theorem reorg_runs_every_slave:
  assumes "master_run ops (new_master, u) = Inr (m, w)" "PerformReorg m w = Inr (ok, m', w')"
  shows "\<exists>position. rm_params m = Some position \<and> rm_reorg_acks m = rm_reorg_slaves m \<and>
    map fst (rm_actions m) = rm_reorg_slaves m \<and> sorted (rm_reorg_slaves m) \<and> distinct (rm_reorg_slaves m) \<and>
    Execute (map (\<lambda>(i, task). task position) (rm_actions m)) w = Inr (ok, w') \<and>
    rm_phase m' = PhaseReorg \<and> rm_actions m' = [] \<and> rm_reorg_acks m' = []"
proof -
  have ok: "master_ok m"
    using assms(1) by (rule master_run_ok [OF new_master_ok])
  obtain position where "rm_params m = Some position" "length (rm_actions m) = length (rm_reorg_slaves m)"
    using assms(2) by (auto simp: PerformReorg_def take_jobs_def split: if_splits option.splits)
  then show ?thesis
    using assms(2) complete_actions [OF ok] ok
    by (auto simp: PerformReorg_def take_jobs_def bind_outcome_eq_Inr master_ok_def split: if_splits)
qed

text \<open>Two slaves; the second one acknowledges first.\<close>

definition noting :: "int \<Rightarrow> int list reorg_task" where
  "noting i position w = Inr (True, w @ [i])"

definition two_slaves :: "int list master_op list" where
  "two_slaves = [DoGetSlave, DoGetSlave, DoStart 0, DoStart 1]"

definition prepared_ops :: "int list master_op list" where
  "prepared_ops = two_slaves @ [DoPrepare 1, DoAcknowledge 1 (Some (noting 1)), DoAcknowledge 0 (Some (noting 0)), DoGetReorg null_position]"

lemma reorg_runs_every_slave_witness:
  "\<exists>m m'. master_run prepared_ops (new_master, []) = Inr (m, []) \<and> PerformReorg m [] = Inr (True, m', [0, 1]) \<and>
    rm_reorg_acks m = [0, 1] \<and> rm_reorg_slaves m = [0, 1] \<and> rm_phase m' = PhaseReorg"
proof -
  have "\<exists>m m'. master_run prepared_ops (new_master, []) = Inr (m, []) \<and> PerformReorg m [] = Inr (True, m', [0, 1]) \<and> rm_reorg_slaves m = [0, 1]"
    by (simp add: prepared_ops_def two_slaves_def master_run_def new_master_def GetSlave_def and_master_def on_master_def slave_Start_def
      Register_def oset_put_def PrepareReorg_def check_prepare_reorg_def check_condition_def post_def AcknowledgePrepareReorg_def
      acknowledge_def omap_emplace_def GetReorg_def PerformReorg_def take_jobs_def noting_def Let_def)
  then obtain m m' where m: "master_run prepared_ops (new_master, []) = Inr (m, [])" "PerformReorg m [] = Inr (True, m', [0, 1])"
    "rm_reorg_slaves m = [0, 1]"
    by blast
  from reorg_runs_every_slave [OF m(1,2)] m show ?thesis
    by auto
qed

section \<open>Completion\<close>

lemma execute_all:
  assumes "\<forall>i \<in> set is. \<forall>w. \<exists>w'. task i ancestor w = Inr (True, w')"
  shows "\<exists>w'. Execute (map (\<lambda>i. task i ancestor) is) w = Inr (True, w')"
  using assms
proof (induction "is" arbitrary: w)
  case (Cons i "is")
  then have "\<exists>w1. task i ancestor w = Inr (True, w1)"
    by simp
  then obtain w1 where "task i ancestor w = Inr (True, w1)" ..
  then show ?case
    using Cons by simp
qed simp

lemma prepared_master:
  assumes "master_ok m" "rm_phase m = PhaseNormal"
  shows "PrepareReorg n m = Inr (True, m\<lparr>rm_phase := PhasePreReorg, rm_reorg_acks := [],
      rm_sent := rm_sent m @ (if rm_reorg_slaves m = [] then [ToAccounts AccountsReorgReady]
        else map (\<lambda>i. ToSlave i (PrepareReorgWork, [le_bytes 8 n])) (rm_reorg_slaves m))\<rparr>)"
  using assms
  by (simp add: PrepareReorg_def master_ok_def check_prepare_reorg_def check_condition_def post_def Let_def)

text \<open>The beginning of a reorganisation, the round of the answers, and its end.\<close>

definition preparing :: "64 word \<Rightarrow> 'w reorg_master \<Rightarrow> 'w reorg_master" where
  "preparing n m = m\<lparr>rm_phase := PhasePreReorg, rm_reorg_acks := [],
     rm_sent := rm_sent m @ (if rm_reorg_slaves m = [] then [ToAccounts AccountsReorgReady]
       else map (\<lambda>i. ToSlave i (PrepareReorgWork, [le_bytes 8 n])) (rm_reorg_slaves m))\<rparr>"

lemma reorg_begins:
  assumes "master_ok (xs_master x)" "rm_phase (xs_master x) = PhaseNormal" "xs_data x = None"
  shows "\<exists>n x'. process_reorg_to ancestor tip x = Inr x' \<and> xs_master x' = preparing n (xs_master x) \<and> xs_phase x' = AccPreReorg \<and>
    xs_data x' = Some (ancestor, tip) \<and> xs_world x' = xs_world x"
proof -
  define n where "n = (case xs_startup_reorg x of Some n \<Rightarrow> n | None \<Rightarrow> xs_counter x + 1)"
  have "PrepareReorg n (xs_master x) = Inr (True, preparing n (xs_master x))"
    using prepared_master [OF assms(1,2)] by (simp add: preparing_def)
  then show ?thesis
    using assms(3) by (auto simp: process_reorg_to_def transition_pre_reorg_def n_def Let_def split: option.splits)
qed

lemma reorg_answered:
  assumes ok: "master_ok m" and phase: "rm_phase m = PhaseNormal"
    and "is": "distinct is" "set is = set (rm_reorg_slaves m)"
  shows "\<exists>m1. acknowledge_all task is (preparing n m) = Inr m1 \<and> rm_phase m1 = PhasePreReorg \<and> rm_params m1 = None \<and>
    rm_reorg_slaves m1 = rm_reorg_slaves m \<and> rm_actions m1 = map (\<lambda>i. (i, task i)) (rm_reorg_slaves m) \<and>
    rm_sent m1 = rm_sent m @ map (\<lambda>i. ToSlave i (PrepareReorgWork, [le_bytes 8 n])) (rm_reorg_slaves m) @ [ToAccounts AccountsReorgReady]"
proof -
  let ?S = "rm_reorg_slaves m" and ?m = "preparing n m"
  have ok0: "master_ok ?m" "rm_phase ?m = PhasePreReorg" "rm_params ?m = None" "rm_reorg_slaves ?m = ?S"
    "rm_actions ?m = []" "rm_reorg_acks ?m = []"
    using ok phase by (simp_all add: preparing_def master_ok_def)
  have count: "length is = length ?S"
    using "is" ok distinct_card [of "is"] distinct_card [of ?S] by (simp add: master_ok_def)
  have "\<exists>m1. acknowledge_all task is ?m = Inr m1 \<and> master_ok m1 \<and> rm_phase m1 = PhasePreReorg \<and>
    rm_reorg_slaves m1 = rm_reorg_slaves ?m \<and> rm_params m1 = rm_params ?m \<and>
    set (rm_reorg_acks m1) = set is \<union> set (rm_reorg_acks ?m) \<and> (\<forall>(i, t) \<in> set (rm_actions m1). t = task i) \<and>
    rm_sent m1 = rm_sent ?m @ (if is \<noteq> [] \<and> length is + length (rm_reorg_acks ?m) = length (rm_reorg_slaves ?m)
      then [ToAccounts AccountsReorgReady] else [])"
    by (rule acknowledged_round [OF ok0(1,2) "is"(1)]) (simp_all add: ok0 "is")
  moreover have "is \<noteq> [] \<and> length is + length (rm_reorg_acks ?m) = length (rm_reorg_slaves ?m) \<longleftrightarrow> ?S \<noteq> []"
    using count by (auto simp: ok0)
  ultimately obtain m1 where m1: "acknowledge_all task is ?m = Inr m1" "master_ok m1" "rm_phase m1 = PhasePreReorg"
    "rm_reorg_slaves m1 = ?S" "rm_params m1 = None" "set (rm_reorg_acks m1) = set ?S" "\<forall>(i, t) \<in> set (rm_actions m1). t = task i"
    "rm_sent m1 = rm_sent ?m @ (if ?S \<noteq> [] then [ToAccounts AccountsReorgReady] else [])"
    by (auto simp: ok0 "is")
  moreover have "rm_actions m1 = map (\<lambda>i. (i, task i)) ?S"
    using complete_tasks [OF m1(2) _ m1(7)] m1(4,6) by simp
  ultimately show ?thesis
    by (intro exI [of _ m1]) (simp add: preparing_def)
qed

lemma reorg_ends:
  assumes "xs_phase x = AccPreReorg" "xs_data x = Some (ancestor, tip)" "xe_finalize env ancestor" "xe_advance env tip"
    and "rm_phase m = PhasePreReorg" "rm_params m = None" "rm_actions m = map (\<lambda>i. (i, task i)) (rm_reorg_slaves m)"
    and "Execute (map (\<lambda>i. task i ancestor) (rm_reorg_slaves m)) (xs_world x) = Inr (True, w)"
  shows "accounts_pipeline env (AccountsReorgReady, []) (x\<lparr>xs_master := m\<rparr>) = Inr (x\<lparr>
    xs_master := post (map (\<lambda>i. ToSlave i (FinishReorgWork, [])) (rm_reorg_slaves m))
      (m\<lparr>rm_params := None, rm_phase := PhaseNormal, rm_reorg_acks := [], rm_actions := []\<rparr>),
    xs_world := w, xs_phase := AccNormal, xs_data := None\<rparr>)"
  using assms
  by (simp add: accounts_pipeline_def accounts_pre_reorg_def Accounts_do_reorg_def GetReorg_def PerformReorg_def take_jobs_def
      ClearReorg_def FinishReorg_def transition_normal_def o_def)

text \<open>
  C13. A reorganisation comes to its end, in whatever order the slaves answer, if none registers or leaves meanwhile, each answers
  once, the functions they hand over succeed, and the database of the outputs finalizes the reorganisation to the ancestor
  and advances to the tip. Then every slave is told to prepare and later to go on, the message that all are ready is sent
  once, after the last answer, the functions of all slaves are run, and the actor and the master are back in their
  normal state. The master may have come to the state in which it begins by any of its operations. This holds with no slave as
  well, where the reorganisation ends at once without any function. A slave that registers meanwhile stops it:
  \<open>late_slave_stops_reorg\<close>.
\<close>

theorem reorganisation_completes:
  assumes "master_run ops (new_master, u) = Inr (xs_master x, v)" "rm_phase (xs_master x) = PhaseNormal"
    and "xs_phase x = AccNormal" "xs_data x = None"
    and "distinct is" "set is = set (rm_reorg_slaves (xs_master x))"
    and "\<forall>i \<in> set is. \<forall>w. \<exists>w'. task i ancestor w = Inr (True, w')"
    and "xe_finalize env ancestor" "xe_advance env tip"
  shows "\<exists>n x1 m1 x2. process_reorg_to ancestor tip x = Inr x1 \<and> acknowledge_all task is (xs_master x1) = Inr m1 \<and>
    accounts_pipeline env (AccountsReorgReady, []) (x1\<lparr>xs_master := m1\<rparr>) = Inr x2 \<and>
    xs_phase x2 = AccNormal \<and> xs_data x2 = None \<and> rm_phase (xs_master x2) = PhaseNormal \<and>
    rm_reorg_slaves (xs_master x2) = rm_reorg_slaves (xs_master x) \<and>
    Execute (map (\<lambda>i. task i ancestor) (rm_reorg_slaves (xs_master x))) (xs_world x) = Inr (True, xs_world x2) \<and>
    rm_sent (xs_master x2) = rm_sent (xs_master x)
      @ map (\<lambda>i. ToSlave i (PrepareReorgWork, [le_bytes 8 (n :: 64 word)])) (rm_reorg_slaves (xs_master x))
      @ [ToAccounts AccountsReorgReady] @ map (\<lambda>i. ToSlave i (FinishReorgWork, [])) (rm_reorg_slaves (xs_master x))"
proof -
  let ?S = "rm_reorg_slaves (xs_master x)"
  have ok: "master_ok (xs_master x)"
    using assms(1) by (rule master_run_ok [OF new_master_ok])
  obtain n x1 where x1: "process_reorg_to ancestor tip x = Inr x1" "xs_master x1 = preparing n (xs_master x)" "xs_phase x1 = AccPreReorg"
    "xs_data x1 = Some (ancestor, tip)" "xs_world x1 = xs_world x"
    using reorg_begins [OF ok assms(2,4)] by blast
  obtain m1 where m1: "acknowledge_all task is (xs_master x1) = Inr m1" "rm_phase m1 = PhasePreReorg" "rm_params m1 = None"
    "rm_reorg_slaves m1 = ?S" "rm_actions m1 = map (\<lambda>i. (i, task i)) ?S"
    "rm_sent m1 = rm_sent (xs_master x) @ map (\<lambda>i. ToSlave i (PrepareReorgWork, [le_bytes 8 n])) ?S @ [ToAccounts AccountsReorgReady]"
    using reorg_answered [OF ok assms(2,5,6), of task n] unfolding x1(2) by blast
  obtain w where w: "Execute (map (\<lambda>i. task i ancestor) ?S) (xs_world x) = Inr (True, w)"
    using execute_all [of ?S task ancestor] assms(6,7) by metis
  define x2 where "x2 = x1\<lparr>
    xs_master := post (map (\<lambda>i. ToSlave i (FinishReorgWork, [])) ?S)
      (m1\<lparr>rm_params := None, rm_phase := PhaseNormal, rm_reorg_acks := [], rm_actions := []\<rparr>),
    xs_world := w, xs_phase := AccNormal, xs_data := None\<rparr>"
  have "accounts_pipeline env (AccountsReorgReady, []) (x1\<lparr>xs_master := m1\<rparr>) = Inr x2"
    using reorg_ends [OF x1(3,4) assms(8,9) m1(2,3), of task w] m1(4,5) x1(5) w by (simp add: x2_def)
  then show ?thesis
    using x1(1) m1 w by (intro exI [of _ n] exI [of _ x1] exI [of _ m1] exI [of _ x2]) (simp add: x2_def)
qed

definition two_slaves_master :: "int list reorg_master" where
  "two_slaves_master = new_master\<lparr>rm_counter := 1, rm_shutdown_slaves := [0, 1], rm_reorg_slaves := [0, 1]\<rparr>"

lemma two_slaves_run: "master_run two_slaves (new_master, []) = Inr (two_slaves_master, [])"
  by (simp add: two_slaves_def master_run_def new_master_def GetSlave_def and_master_def slave_Start_def
      Register_def oset_put_def two_slaves_master_def Let_def)

lemma two_slaves_phase [simp]: "rm_phase two_slaves_master = PhaseNormal" "rm_reorg_slaves two_slaves_master = [0, 1]"
  by (simp_all add: two_slaves_master_def new_master_def)

definition example_accounts :: accounts_env where
  "example_accounts = \<lparr>xe_chain = 1, xe_nym = (\<lambda>_. []), xe_local_nyms = [], xe_position = null_position,
    xe_common_parent = (\<lambda>p. (p, p)), xe_finalize = (\<lambda>_. True), xe_advance = (\<lambda>_. True), xe_shutting_down = False\<rparr>"

lemma reorganisation_completes_witness:
  "\<exists>x1 m1 x2. process_reorg_to (4, []) (7, []) ((new_accounts [])\<lparr>xs_master := two_slaves_master\<rparr>) = Inr x1 \<and>
    acknowledge_all noting [1, 0] (xs_master x1) = Inr m1 \<and>
    accounts_pipeline example_accounts (AccountsReorgReady, []) (x1\<lparr>xs_master := m1\<rparr>) = Inr x2 \<and>
    xs_phase x2 = AccNormal \<and> xs_world x2 = [0, 1]"
proof -
  let ?x = "(new_accounts [])\<lparr>xs_master := two_slaves_master\<rparr>"
  have "\<exists>n x1 m1 x2. process_reorg_to (4, []) (7, []) ?x = Inr x1 \<and> acknowledge_all noting [1, 0] (xs_master x1) = Inr m1 \<and>
    accounts_pipeline example_accounts (AccountsReorgReady, []) (x1\<lparr>xs_master := m1\<rparr>) = Inr x2 \<and>
    xs_phase x2 = AccNormal \<and> xs_data x2 = None \<and> rm_phase (xs_master x2) = PhaseNormal \<and>
    rm_reorg_slaves (xs_master x2) = rm_reorg_slaves (xs_master ?x) \<and>
    Execute (map (\<lambda>i. noting i (4, [])) (rm_reorg_slaves (xs_master ?x))) (xs_world ?x) = Inr (True, xs_world x2) \<and>
    rm_sent (xs_master x2) = rm_sent (xs_master ?x)
      @ map (\<lambda>i. ToSlave i (PrepareReorgWork, [le_bytes 8 (n :: 64 word)])) (rm_reorg_slaves (xs_master ?x))
      @ [ToAccounts AccountsReorgReady] @ map (\<lambda>i. ToSlave i (FinishReorgWork, [])) (rm_reorg_slaves (xs_master ?x))"
    by (rule reorganisation_completes [where ops = two_slaves and u = "[]" and v = "[]"])
      (auto simp: two_slaves_run new_accounts_def noting_def example_accounts_def)
  then show ?thesis
    by (auto simp: new_accounts_def noting_def)
qed

section \<open>Slaves that come late\<close>

definition unready :: "int \<Rightarrow> 'w reorg_master \<Rightarrow> bool" where
  "unready i m \<longleftrightarrow> master_ok m \<and> rm_phase m = PhasePreReorg \<and> i \<in> set (rm_reorg_slaves m) \<and> i \<notin> set (rm_reorg_acks m)"

definition keeps_waiting :: "int \<Rightarrow> master_message list \<Rightarrow> bool" where
  "keeps_waiting i es \<longleftrightarrow> ToAccounts AccountsReorgReady \<notin> set es \<and> (\<forall>frames. ToSlave i (PrepareReorgWork, frames) \<notin> set es)"

lemma unready_few:
  assumes "unready i m"
  shows "length (rm_reorg_acks m) < length (rm_reorg_slaves m)" "length (rm_actions m) < length (rm_reorg_slaves m)"
proof -
  have "set (rm_reorg_acks m) \<subset> set (rm_reorg_slaves m)"
    using assms by (auto simp: unready_def master_ok_def)
  then have "card (set (rm_reorg_acks m)) < card (set (rm_reorg_slaves m))"
    by (intro psubset_card_mono) simp_all
  then show "length (rm_reorg_acks m) < length (rm_reorg_slaves m)"
    using assms by (simp add: unready_def master_ok_def distinct_card)
  moreover have "length (rm_actions m) = length (rm_reorg_acks m)"
    using assms by (metis length_map master_ok_def unready_def)
  ultimately show "length (rm_actions m) < length (rm_reorg_slaves m)"
    by simp
qed

lemma unready_perform: "unready i m \<Longrightarrow> PerformReorg m w = Inl Terminated"
  using unready_few(2) [of i m] by (auto simp: PerformReorg_def take_jobs_def unready_def split: option.splits)

lemma unready_step:
  assumes "unready i m" "op \<noteq> DoUnregister i" "\<forall>job. op \<noteq> DoAcknowledge i job" "master_do op (m, w) = Inr (m', w')"
  shows "unready i m' \<and> (\<exists>es. rm_sent m' = rm_sent m @ es \<and> keeps_waiting i es)"
proof -
  have ok: "master_ok m'"
    using assms(1) master_do_ok [OF _ assms(4)] by (simp add: unready_def)
  note phase = assms(1) [unfolded unready_def]
  show ?thesis
  proof (cases op)
    case (DoAcknowledge j job)
    then obtain task where task: "job = Some task" "j \<in> set (rm_reorg_slaves m)" "j \<notin> set (rm_reorg_acks m)" "j \<noteq> i"
      using assms(3,4) by (auto simp: on_master_def bind_outcome_eq_Inr AcknowledgePrepareReorg_def acknowledge_def Let_def
          split: option.splits if_splits)
    then have m': "m' = m\<lparr>rm_actions := omap_emplace j task (rm_actions m), rm_reorg_acks := oset_put j (rm_reorg_acks m),
      rm_sent := rm_sent m @ (if Suc (length (rm_reorg_acks m)) = length (rm_reorg_slaves m) then [ToAccounts AccountsReorgReady] else [])\<rparr>"
      using assms(4) DoAcknowledge phase by (simp add: on_master_def acknowledge_step)
    then have unready: "unready i m'"
      using ok phase task(4) by (simp add: unready_def)
    moreover have "length (rm_reorg_acks m') = Suc (length (rm_reorg_acks m))" "rm_reorg_slaves m' = rm_reorg_slaves m"
      using m' task(3) by (simp_all add: oset_put_def)
    ultimately have "rm_sent m' = rm_sent m"
      using unready_few(1) [of i m'] m' by simp
    then show ?thesis
      using unready by (simp add: keeps_waiting_def)
  next
    case (DoStart j)
    then show ?thesis
      using assms(4) phase ok
      by (auto simp: unready_def keeps_waiting_def and_master_def slave_Start_def Register_def bind_outcome_eq_Inr assert_that_eq_Inr split: if_splits)
  next
    case DoCheckShutdown
    then show ?thesis
      using assms(4) phase ok
      by (auto simp: unready_def CheckShutdown_def check_shutdown_def check_condition_def Stop_def keeps_waiting_def Let_def split: if_splits)
  qed (use assms(2,4) phase ok in
    \<open>auto simp: unready_def GetSlave_def Unregister_def on_master_def and_master_def AcknowledgeShutdown_def acknowledge_def
      PrepareReorg_def GetReorg_def unready_perform [OF assms(1)] ClearReorg_def FinishReorg_def PrepareShutdown_def Stop_def
      keeps_waiting_def bind_outcome_eq_Inr Let_def split: if_splits\<close>)
qed

lemma unready_run:
  assumes "unready i m" "\<forall>op \<in> set ops. op \<noteq> DoUnregister i \<and> (\<forall>job. op \<noteq> DoAcknowledge i job)" "master_run ops (m, w) = Inr (m', w')"
  shows "unready i m' \<and> (\<exists>es. rm_sent m' = rm_sent m @ es \<and> keeps_waiting i es)"
  using assms
proof (induction ops arbitrary: m w)
  case (Cons op ops)
  obtain m1 w1 where step: "master_do op (m, w) = Inr (m1, w1)" "master_run ops (m1, w1) = Inr (m', w')"
    using Cons.prems(3) by (auto simp: master_run_def bind_outcome_eq_Inr)
  obtain es where es: "unready i m1" "rm_sent m1 = rm_sent m @ es" "keeps_waiting i es"
    using unready_step [OF Cons.prems(1) _ _ step(1)] Cons.prems(2) by auto
  obtain es' where es': "unready i m'" "rm_sent m' = rm_sent m1 @ es'" "keeps_waiting i es'"
    using Cons.IH [OF es(1) _ step(2)] Cons.prems(2) by auto
  show ?case
    using es es' by (intro conjI exI [of _ "es @ es'"]) (auto simp: keeps_waiting_def)
qed (auto simp: master_run_def keeps_waiting_def)

text \<open>
  C38. A slave that registers while a reorganisation is being prepared brings it to a stop. It is not told to prepare, so that it does not
  answer; the message that all are ready is not sent any more, until the slave goes away, and if it was
  sent already, then \<open>PerformReorg\<close> ends the process with an exception. \<open>Register\<close> returns the state of the
  master, but \<open>Start\<close> asks only for the shutdown.
\<close>

theorem late_slave_stops_reorg:
  assumes "master_run ops (new_master, u) = Inr (m, w)" "rm_phase m = PhasePreReorg" "slave_Start i m = Inr (stop, m1)"
    and "master_run later (m1, w) = Inr (m2, w2)"
    and "\<forall>op \<in> set later. op \<noteq> DoUnregister i \<and> (\<forall>job. op \<noteq> DoAcknowledge i job)"
  shows "\<not> stop \<and> rm_phase m2 = PhasePreReorg \<and> PerformReorg m2 w2 = Inl Terminated \<and>
    (\<exists>es. rm_sent m2 = rm_sent m @ es \<and> ToAccounts AccountsReorgReady \<notin> set es \<and> (\<forall>frames. ToSlave i (PrepareReorgWork, frames) \<notin> set es))"
proof -
  have ok: "master_ok m"
    using assms(1) by (rule master_run_ok [OF new_master_ok])
  have start: "\<not> stop" "i \<notin> set (rm_reorg_slaves m)" "m1 = m\<lparr>rm_reorg_slaves := oset_put i (rm_reorg_slaves m)\<rparr>"
    using assms(2,3) by (auto simp: slave_Start_def Register_def bind_outcome_eq_Inr assert_that_eq_Inr)
  moreover have "unready i m1"
    using ok start assms(2) register_ok [OF ok, of i] by (auto simp: unready_def master_ok_def)
  ultimately show ?thesis
    using unready_run [OF _ assms(5,4)] unready_perform [of i m2 w2] by (auto simp: unready_def keeps_waiting_def)
qed

text \<open>The slave 1 starts after the slave 0 was told to prepare; then the slave 0 answers.\<close>

lemma late_slave_stops_reorg_witness:
  "\<exists>m2. master_run [DoGetSlave, DoGetSlave, DoStart 0, DoPrepare 1, DoStart 1, DoAcknowledge 0 (Some (noting 0)), DoGetReorg null_position]
      (new_master, []) = Inr (m2, []) \<and>
    rm_phase m2 = PhasePreReorg \<and> PerformReorg m2 [] = Inl Terminated"
proof -
  let ?before = "[DoGetSlave, DoGetSlave, DoStart 0, DoPrepare 1]"
  let ?after = "[DoAcknowledge 0 (Some (noting 0)), DoGetReorg null_position]"
  note simps = master_run_def new_master_def GetSlave_def and_master_def on_master_def slave_Start_def
      Register_def oset_put_def PrepareReorg_def check_prepare_reorg_def check_condition_def post_def AcknowledgePrepareReorg_def
      acknowledge_def omap_emplace_def GetReorg_def Let_def
  have "\<exists>m m1 m2. master_run ?before (new_master, []) = Inr (m, []) \<and> rm_phase m = PhasePreReorg \<and> slave_Start 1 m = Inr (False, m1) \<and>
    master_run ?after (m1, []) = Inr (m2, []) \<and>
    master_run [DoGetSlave, DoGetSlave, DoStart 0, DoPrepare 1, DoStart 1, DoAcknowledge 0 (Some (noting 0)), DoGetReorg null_position]
      (new_master, []) = Inr (m2, [])"
    by (simp add: simps)
  then obtain m m1 m2 where m: "master_run ?before (new_master, []) = Inr (m, [])" "rm_phase m = PhasePreReorg" "slave_Start 1 m = Inr (False, m1)"
    "master_run ?after (m1, []) = Inr (m2, [])"
    "master_run [DoGetSlave, DoGetSlave, DoStart 0, DoPrepare 1, DoStart 1, DoAcknowledge 0 (Some (noting 0)), DoGetReorg null_position]
      (new_master, []) = Inr (m2, [])"
    by blast
  from late_slave_stops_reorg [OF m(1,2,3,4)] m(5) show ?thesis
    by auto
qed

end
