(* ===== verification/Spec2Isabelle.thy ===== *)
theory Spec2Isabelle
  imports Workflow_Properties Workflow_Node_Properties Header_Properties Filter_Properties Wallet_Cache
    Wallet_Scan_Properties Wallet_Process_Properties Reorg_Properties
begin

text \<open>
  Open-Transactions (\<open>opentxs\<close>): models of the program's payment workflow engine, of its
  blockchain header oracle, of its compact block filters, of the wallet's scan for its own payments, and of the actors that
  do this scan and agree on reorganisations.

  The library keeps two kinds of record of its own that the rest of it relies on: of what a user did with
  payment instruments, and of which blockchain headers form the best chain. Along that chain it keeps a compact
  filter of each block, in which the wallet looks for its own elements before it asks for the block. The first
  three parts do not call each other; the scan of part 4 uses the filters of part 3, and the actors of part 5 call the scan and
  are reorganised along the chain of part 2.

  \<^bold>\<open>Part 1: payment workflows.\<close> Every payment instrument a user of the library sends or receives
  (a cheque, a transfer between accounts, a purse of cash) is accompanied by a \<^emph>\<open>payment
  workflow\<close>: a protobuf object which records the instrument, its state and the history of what was
  attempted with it. \<open>src/api/session/Workflow.cpp\<close> holds the engine: about twenty public
  operations (\<open>WriteCheque\<close>, \<open>SendCheque\<close>, \<open>DepositCheque\<close>,
  \<open>CreateTransfer\<close>, \<open>ConveyTransfer\<close>, \<open>SendCash\<close>, ...) which the
  client's state machines call as messages and receipts arrive, in whatever order the network brings
  them. An operation finds the workflow of its instrument by way of the storage node of the nym
  (\<open>src/util/storage/tree/PaymentWorkflows.cpp\<close>, reached through
  \<open>src/api/session/Storage.cpp\<close>), asks a guard \<open>can_*\<close> whether the
  state admits it, appends an event, moves the state and stores the result. Storing first runs the
  syntax check of the object (\<open>src/opentxs/protobuf/syntax/PaymentWorkflow.0[123].cpp\<close>,
  \<open>PaymentEvent.0[123].cpp\<close>, \<open>InstrumentRevision.01.cpp\<close>, with the tables of
  \<open>VerifyWorkflows.cpp\<close> and the macros of \<open>Macros.hpp\<close>), and the engine
  \<^emph>\<open>ends the process\<close> when that check fails (\<open>assert_true(valid)\<close> in
  \<open>save_workflow\<close>). The guards in the engine and the checks in the syntax files are two
  descriptions of one state machine, written apart; most of the properties here are about their
  agreement, and the findings about the places where they disagree.

  \<^bold>\<open>Theories of part 1.\<close>
  \<^item> \<open>OT_Prelude\<close>: results of calls that can end the process (\<open>outcome\<close>: the
    assertions, null pointers and exceptions of the source are its left values), maps whose values
    are sets (\<open>bucket\<close>), \<open>emplace\<close>.
  \<^item> \<open>Protobuf_Syntax\<close>: the macros of \<open>Macros.hpp\<close>, \<open>check_version\<close> and
    \<open>check\<close> of \<open>Types.internal.tpp\<close>.
  \<^item> \<open>Workflow_Types\<close>: the messages and enumerations of \<open>data/opentxs/protobuf/\<close>
    and the tables of \<open>VerifyWorkflows.cpp\<close>; an optional field is an option.
  \<^item> \<open>Workflow_Syntax\<close>: the three versions of the check, one definition per case of the
    source's \<open>switch\<close> on the type of workflow; \<open>Workflow_Validity\<close> characterises the
    check per type, in terms of the fields, the list of events and the state.
  \<^item> \<open>Workflow_Storage\<close>: the storage node with its indexes, its operations and their
    invariant.
  \<^item> \<open>Workflow_Engine\<close>: the state (the nodes of all nyms, the log of notifications), loads,
    \<open>save_workflow\<close>, notifications, guards, the extraction of transfers from receipts.
    \<open>Workflow_Events\<close>: the helpers that append an event or make a new workflow.
    \<open>Workflow_Operations\<close>: the public operations, one definition each, with every call that
    changes state. \<open>Workflow_Queries\<close>: the read-only interface.
  \<^item> \<open>Workflow_History\<close>: the abstract specification. \<open>moves\<close> is the state machine of
    each type of workflow, \<open>evolves\<close> what a call may do to a stored workflow (move its state,
    append to its history, keep all else), \<open>engine_inv\<close> the invariant.
  \<^item> \<open>Object_History\<close>: the interface between a component that keeps objects under
    identifiers and what can be said about the histories of its objects, as a locale.
    \<open>Workflow_Steps\<close> and \<open>Workflow_Transfers\<close> show for each operation that it satisfies
    the interface (one case lemma and one step lemma each); \<open>Workflow_Reachable\<close> makes a step
    function and relation of all operations and interprets the locale on the engine.
  \<^item> \<open>Workflow_Cheques\<close> and \<open>Workflow_Transfer_Runs\<close>: what each operation computes from
    a given state when its message is well formed, that it does not end the process there, and when
    it does.
  \<^item> \<open>Workflow_Lifecycles\<close>: the sequences documented in
    \<open>include/opentxs/api/session/Workflow.hpp\<close>, with any number of failed attempts.
    \<open>Workflow_Properties\<close> and \<open>Workflow_Node_Properties\<close>: the properties of the engine and
    of the storage node and checks. \<open>Workflow_Examples\<close>: the concrete nyms, cheques, items
    and messages on which the properties are exercised.

  \<^bold>\<open>Correspondence in part 1.\<close> An identifier is its base58 text, a string; the empty identifier is
  the empty string. Protobuf messages are records, repeated fields lists, the counters of the
  checks functions from event types to numbers. The state of the engine is a map from nyms to
  storage nodes; a node has the objects (of which an entry can be unreadable: \<open>Some None\<close>),
  the maps from sources, accounts and units, and the state index. What a call obtains from outside
  the modelled files is the record \<open>wf_env\<close> (the clock, the random identifier of a new
  workflow, the account index, the contact lookup, the deserializers of \<open>src/otx/common/\<close>,
  whether the storage plugin accepts a write) or a field of the message, receipt or item it gets.
  Operations have the order of the source: guards, mutations and early returns in sequence; a failed
  assertion, a null pointer or an uncaught exception is \<open>Inl\<close> with its cause, so that
  every theorem about a result \<open>Inr\<close> states that the process goes on.

  \<^bold>\<open>What the lemmas of part 1 show.\<close> That every workflow stored in a reachable state passes its
  check, that its state is one its type can reach and that histories only grow
  (\<open>reachable_workflows_valid\<close>, \<open>workflow_history\<close>, \<open>final_states_stay\<close>); that
  the documented sequences run to their end from a fresh nym, whatever number of attempts fails
  (\<open>Workflow_Lifecycles\<close>); that the storage node returns what was stored and lists it
  where it should, by its sources as far as they did not lead elsewhere (\<open>stored_workflow_is_found\<close>); how the versions of the check relate; and,
  for each way found in which guards and checks disagree, exactly when it shows.
  All loops of this part are structural recursions over lists.

  \<^bold>\<open>Not modelled of part 1.\<close> Locks: an operation holds the lock of its workflow from load to save, so
  the operations on one workflow form a sequence; concurrent operations on different workflows of
  one nym share only the node, whose operations take its write lock. The fields \<open>memo\<close> of an
  event and \<open>archived\<close> of a workflow, which no modelled code reads. The serialized index of
  the storage node, and the storage drivers. \<open>UUID\<close>, a hash. The protobuf library, the
  deserializers of cheques, items and purses.

  \<^bold>\<open>Part 2: the header oracle.\<close> For each blockchain a node keeps the block headers it has seen and
  the chain of most work among them. \<open>src/blockchain/node/headeroracle/Shared.cpp\<close> adds headers in whatever
  order peers send them: a header whose parent is missing waits as \<^emph>\<open>disconnected\<close>; when the parent comes, the header
  and all that waited for it are connected, each inherits height, work and checkpoint state from its parent, and the
  candidate chains that result compete with the current one. A change is collected in an
  \<open>UpdateTransaction\<close> (\<open>src/blockchain/node/UpdateTransaction.cpp\<close>) and applied to the tables of
  \<open>src/blockchain/database/Headers.cpp\<close>, which publishes the new tip or the reorganisation. The
  actor (\<open>Actor.cpp\<close>) takes the messages of the other components one after the other; \<open>HeaderOraclePrivate.cpp\<close>
  keeps the hashes that peers announced, the height of the network and the header job that is out.

  \<^bold>\<open>Theories of part 2.\<close>
  \<^item> \<open>Ordered_Containers\<close>: the ordered sets and maps of the C++ library and of LMDB as sorted lists.
  \<^item> \<open>Block_Header\<close>: headers (\<open>src/blockchain/block/header/Imp.cpp\<close>) and their work.
    \<open>Header_Database\<close>: the tables, the update transaction with all its operations, \<open>ApplyUpdate\<close>.
    \<open>Header_Oracle\<close>: adding headers, checkpoints, announced hashes, jobs. \<open>Header_Queries\<close>: start on
    an empty or existing database, queries, \<open>ProcessSyncData\<close>. \<open>Header_Actor\<close>: the messages, and the states they reach.
  \<^item> \<open>Header_Chain\<close>: the invariant \<open>chain_inv\<close> of the database and induction along the header tree.
  \<^item> \<open>Header_Staging\<close>, \<open>Header_Line\<close>, \<open>Header_Walk\<close>: one theory per
    phase of \<open>add_header\<close> (staging; connecting the waiting descendants; the walk back to the best chain; choosing a
    candidate). \<open>Header_Extend\<close> and \<open>Header_Add\<close> put them together: the transaction \<open>add_header\<close> leaves.
  \<^item> \<open>Header_Apply\<close>, \<open>Header_Grow\<close>, \<open>Header_Connect\<close>: the tables after the transaction
    was applied, and the invariant for them. \<open>Header_Invariant\<close>: headers that wait, the invariant \<open>oracle_inv\<close> of the oracle.
    \<open>Header_Receive\<close>: \<open>AddHeader\<close> as a whole. \<open>Header_Convergence\<close>: two oracles with the same
    headers. \<open>Header_Start\<close>: the state after the start. \<open>Header_Branches\<close> and \<open>Header_Safety\<close>: queries,
    checkpoints, jobs. \<open>Header_Properties\<close>: the properties, on the concrete headers of \<open>Header_Examples\<close>.

  \<^bold>\<open>Correspondence in part 2.\<close> A hash is a number (its bytes, big-endian), the null hash 0; a height an
  integer. A work value is a rational number; its addition is the field \<open>env_add\<close> of the environment, because the
  program adds binary floating point numbers of 53 bits, and the theorems ask of it only that sums of non-negative integers up to
  \<open>2 ^ 53\<close> are exact (\<open>exact_sums\<close>). The LMDB tables are the fields of \<open>header_db\<close>; whether a write
  succeeds is a field of the environment, as is how a vector grows when it is full: candidates are kept in a vector and
  referred to by reference, and a reference that is used after its vector was reallocated is \<open>DanglingReference\<close>.
  Loops that follow parent hashes have the fuel \<open>env_fuel\<close>; the theorems ask for as much as there are
  headers, which is enough because heights fall along a path and each waiting header is connected once. An exception that
  leaves a \<open>noexcept\<close> function is \<open>Terminated\<close>.

  \<^bold>\<open>What the lemmas of part 2 show.\<close> The states that these theorems are about (\<open>oracle_reachable\<close>) are those
  that messages with one header each lead to (\<open>admissible\<close>), of positive integer work with a total up to \<open>2 ^ 53\<close>, as long as
  no two waiting headers have the same parent. That there the invariant holds and no message of this kind ends the
  process (\<open>reachable_oracle\<close>), that the tip has the most work (\<open>most_work\<close>) and that the best chain passes
  through the checkpoint (\<open>checkpoint_respected\<close>); that the order of arrival does not matter for headers of which no two have the
  same parent (\<open>order_of_arrival\<close>); what the queries return. That the condition on waiting headers is
  needed: \<open>checkpoint_bypassed\<close> and \<open>three_waiting_children\<close> are runs without it. How setting and deleting a
  checkpoint goes wrong when the chain is above it already.

  \<^bold>\<open>Not modelled of part 2.\<close> Locks, sockets, timers and the logging; proof of work and the wire format of headers.
  \<open>Execute\<close>, which runs the jobs of a reorganisation, is in part 5. Several headers in one call of \<open>AddHeaders\<close> are
  modelled, but the theorems on the invariant are about calls with one header.

  \<^bold>\<open>Part 3: compact filters.\<close> A filter (\<open>src/blockchain/cfilter/GCSImp.cpp\<close>, in the form of BIP 158) stands
  for a set of byte strings: each is hashed with SipHash into the range \<open>N * M\<close>, the hashes are sorted, and their
  differences are Golomb coded, the quotient in unary and the remainder in \<open>P\<close> bits, in a stream of bits
  (\<open>BitReader\<close>, \<open>BitWriter\<close> of \<open>src/blockchain/Blockchain.cpp\<close>). The encoding is preceded by the number of elements as
  a CompactSize (\<open>src/network/blockchain/bitcoin/CompactSize.cpp\<close>). A filter made from a block's elements is kept,
  sent and read back; \<open>Test\<close> and \<open>Match\<close> decode it, hash the targets and intersect.

  \<^bold>\<open>Theories of part 3.\<close>
  \<^item> \<open>Bit_Stream\<close>: reader and writer with their 64-bit accumulators, as lists of bits.
    \<open>Prefix_Codes\<close>: the interface of a serializer, as a locale: what the encoder writes, the decoder takes off
    the front of any input; sequences of values follow. It is interpreted on the Golomb code of \<open>Golomb_Code\<close> and on
    \<open>Compact_Size\<close>.
  \<^item> \<open>Compact_Filter\<close>: hashing, the factories, the filter object with its decompression cache, \<open>Test\<close>,
    \<open>Match\<close>, \<open>Range\<close>, \<open>Encode\<close>, \<open>Header\<close> and the rest of its interface. \<open>Filter_Sets\<close>: the invariant of a
    filter, and its answers in terms of the set of its hashes. \<open>Filter_Facts\<close>: what the factories build.
    \<open>Filter_Properties\<close>: the properties.

  \<^bold>\<open>Correspondence in part 3.\<close> Views and vectors of bytes are lists of \<open>8 word\<close>, counters and hashes words of the width
  the code has. An exception is \<open>None\<close>; where it leaves a \<open>noexcept\<close> function the result is \<open>Terminated\<close>. SipHash
  and the hash of filters are parameters of the definitions: no theorem asks more of them than that they return. The
  loops of the bit streams terminate by measures (the bits that are left to read or write), the decoder of the elements
  by their number; no fuel is needed.

  \<^bold>\<open>What the lemmas of part 3 show.\<close> That what is written to a stream is read back (\<open>bit_stream_roundtrip\<close>,
  \<open>compact_size_encoding\<close>, \<open>golomb_roundtrip\<close>); that hashes stay in their range (\<open>hash_to_range_bounds\<close>); that
  every filter the factories make satisfies the invariant (\<open>filter_well_formed\<close>) and answers yes for each of its
  elements (\<open>filter_contains_elements\<close>), also after it was read back (\<open>reloaded_filter\<close>), but for an element whose
  hash is 0 beside others (\<open>element_with_hash_zero_is_lost\<close>); that \<open>Match\<close> and \<open>Test\<close> agree
  (\<open>match_agrees_with_test\<close>).

  \<^bold>\<open>Not modelled of part 3.\<close> Allocators; the protobuf envelope of a filter; \<open>ExtractElements\<close> of a block; the build
  without blockchains (\<open>Disabled.cpp\<close>); the filter oracle, which requests and stores the filters.

  \<^bold>\<open>Part 4: the wallet's scan.\<close> For each subchain of an account (the keys of one derivation path) the wallet keeps the byte
  strings to look for: public keys and their hashes in five sizes, and its unspent outputs
  (\<open>src/blockchain/node/wallet/subchain/statemachine/ElementCache.cpp\<close>). \<open>SubchainStateData::scan\<close>
  (\<open>subchain/SubchainStateData.cpp\<close>) takes the next hashes of the best chain and their filters, as many as a scan may take. It
  hashes the elements not tested before with the key of each block (\<open>PrehashData.cpp\<close>), distributed over jobs, and matches them
  with the filter. Elements found or excluded are noted in the match cache (\<open>MatchCache.cpp\<close>); a block with a match is
  \<^emph>\<open>dirty\<close>, and asked for. When the block comes, \<open>ProcessBlock\<close> looks in it for the elements that the match cache names.

  \<^bold>\<open>Theories of part 4.\<close>
  \<^item> \<open>Wallet_Elements\<close>: positions, outpoints, the two caches and their operations. \<open>Wallet_Cache\<close>: that the
    element cache is complete.
  \<^item> \<open>Wallet_Targets\<close>: selection, hashing and matching of targets, block by block and job by job. \<open>Wallet_Scan\<close>:
    the size of a scan, \<open>scan\<close> itself, the patterns for a block.
  \<^item> \<open>Wallet_Match\<close>: what one block yields, in terms of the hashes of its filter. \<open>Wallet_Jobs\<close>: what the jobs have done
    together after any subset of them, whatever the order. \<open>Wallet_Scan_Facts\<close>: integer roots, the batch, the parts of
    \<open>scan\<close>. \<open>Wallet_Scan_Results\<close> and \<open>Wallet_Scan_Blocks\<close>: the result of \<open>scan\<close> in closed form, with
    filters that were made from the blocks. \<open>Wallet_Scan_Properties\<close>: the properties.

  \<^bold>\<open>Correspondence in part 4.\<close> A position is a height and the bytes of a hash. An ordered set or map of the C++ library is a
  sorted list where its order is used, otherwise a set or function; the five vectors of elements and the five sets of matches
  are functions of the size. The header oracle, the filter oracle and the number of processors are the fields of
  \<open>scan_env\<close>; \<open>serves\<close> is what the theorems ask of the filter oracle: that it returns, for each hash asked for, the filter
  that was built from the elements of the block, or an invalid one. The state is \<open>subchain_data\<close>, with the requests to the block oracle as
  a list. Loops over blocks end by their distance from the last block, the integer root by its argument; no fuel is needed.

  \<^bold>\<open>What the lemmas of part 4 show.\<close> That an element of a block is found by a scan that returns and is handed to the
  processing of the block (\<open>scan_finds_elements\<close>), unless its hash is 0 or it was tested for that block before. That progress reported is
  true (\<open>scan_progress\<close>); that every question is answered once and for all (\<open>scan_classifies_elements\<close>); that the result
  does not depend on the order of the jobs (\<open>jobs_in_any_order\<close>); the size of a scan (\<open>scan_is_bounded\<close>); and that a
  scan returns in all cases but one (\<open>scan_without_filters\<close>).

  \<^bold>\<open>Not modelled of part 4.\<close> Locks; that jobs run at the same time (each has its own blocks and results, merged under a lock,
  so an order of the jobs is what is left); what a block contains and \<open>FindMatches\<close> in it; the databases.

  \<^bold>\<open>Part 5: the wallet's actors and reorganisations.\<close> A subchain is scanned by actors
  (\<open>src/blockchain/node/wallet/subchain/statemachine/\<close>), each a thread of its own behind a queue of messages: \<open>Scan\<close>
  goes ahead along the chain, \<open>Process\<close> works on the dirty blocks, \<open>Rescan\<close> follows behind the blocks that are done, and
  \<open>Progress\<close> stores how far all is done. What they have in common is \<open>src/util/Actor.hpp\<close> and \<open>Job.cpp\<close>;
  they share the object \<open>SubchainStateData\<close>. When the header oracle of part 2 finds a better chain, all actors of all
  subchains must have stopped before any of them changes its state. \<open>ReorgMaster.cpp\<close> keeps this agreement:
  \<open>Accounts.cpp\<close> begins it with \<open>PrepareReorg\<close>, each slave (\<open>ReorgSlave.cpp\<close>) hands over a function
  with \<open>AcknowledgePrepareReorg\<close>, the last one makes the master send \<open>reorg_ready\<close>, \<open>PerformReorg\<close> runs
  the functions through \<open>Execute\<close> of the header oracle, and \<open>FinishReorg\<close> lets the slaves go on.

  \<^bold>\<open>Theories of part 5.\<close>
  \<^item> \<open>Wallet_Messages\<close>: messages and their frames, the statuses of blocks in them. \<open>Wallet_Actor\<close>: the shared
    state, the actor with its states \<open>normal\<close>, \<open>reorg\<close> and \<open>pre_shutdown\<close>, the runs
    \<open>job_steps\<close>. \<open>Wallet_Scanners\<close>: \<open>Scan\<close>, \<open>Rescan\<close> and \<open>Progress\<close>.
    \<open>Wallet_Process\<close>: \<open>Process\<close>, its jobs, the cache of matches (\<open>DeterministicStateData.cpp\<close>).
    \<open>Wallet_Index\<close>: \<open>Index\<close> (\<open>DeterministicIndex.cpp\<close>).
  \<^item> \<open>Wallet_Actor_Facts\<close>: the interface of a job as the locales \<open>job_invariant\<close> and
    \<open>private_job_invariant\<close> (what each virtual function keeps, the actor keeps in every run).
    \<open>Wallet_Rescan\<close> interprets it on \<open>Rescan\<close>, \<open>Wallet_Process_Facts\<close> on \<open>Process\<close>.
    \<open>Wallet_Actor_Properties\<close> and \<open>Wallet_Process_Properties\<close>: the properties.
  \<^item> \<open>Wallet_Reorg\<close>: \<open>Subchain_do_reorg\<close> with the database below it. \<open>Wallet_Reorg_Properties\<close>: what it
    does along the chain of a reachable header oracle.
  \<^item> \<open>Reorg_Master\<close>: master and slaves. \<open>Reorg_Accounts\<close>: the actor \<open>Accounts\<close>. \<open>Reorg_Facts\<close>: the
    master as a machine (\<open>master_op\<close>, \<open>master_run\<close>), its invariant, a round of acknowledgements.
    \<open>Reorg_Properties\<close>: the properties.

  \<^bold>\<open>Correspondence in part 5.\<close> A message is its kind and the other frames of its body, numbers in them little-endian. What
  an actor sends and reports is appended to a list of effects, in order. The virtual functions of a job are the fields of the record
  \<open>job_class\<close>. Clock and rate limit are the parameter \<open>ae_limited\<close>, a function of the number of the call; the oracles,
  the output database, the keys of the account and the content of blocks are other fields of \<open>actor_env\<close>. A run of an
  actor is a sequence of its messages, of reorganisations and of changes that the others make to the shared state
  (\<open>Message\<close>, \<open>Reorganise\<close>, \<open>Others\<close>), in any order, each step with an \<open>actor_env\<close> of its own, so that best chain,
  filter tip and answers of the database change during a run; for \<open>Process\<close> also of the ends of its jobs
  (\<open>process_steps\<close>), which run in other threads. Every function of the master holds its lock, and is one
  step; a reorganisation function is a function on the state of all wallets, of any type. The header oracle counts with hashes as
  numbers and the wallet has their 32 bytes; \<open>hash_bytes\<close> and \<open>hash_number\<close> convert.

  \<^bold>\<open>What the lemmas of part 5 show.\<close> That the functions of a reorganisation are run only when all slaves have
  stopped, each once (\<open>reorg_runs_every_slave\<close>), and that in whatever order they answer it comes to its end
  (\<open>reorganisation_completes\<close>), if all of them answer, their functions and the database succeed, and no slave registers
  (\<open>late_slave_stops_reorg\<close>) or leaves meanwhile. That \<open>Rescan\<close> stays
  behind the dirty blocks it knows of (\<open>rescan_stays_behind\<close>), and yet can pass one it was not told of, whose matches are known
  already (\<open>rescan_passes_block_in_flight\<close>). That \<open>Process\<close> loses no block from the message that names it to the message
  that it is processed, a rescan, a reorganisation at or below it or the failure of the database
  (\<open>process_loses_no_block\<close>), but also stores what it found in blocks that a reorganisation replaced
  (\<open>replaced_matches_are_stored\<close>); that \<open>Index\<close> indexes all keys (\<open>index_catches_up\<close>). That statuses are read as they were sent
  (\<open>status_message_roundtrip\<close>). How far a reorganisation goes back (\<open>reorg_goes_back_one_block\<close>,
  \<open>replaced_position_is_kept\<close>), and which message is lost after it (\<open>rescan_ignores_filters_after_reorg\<close>).

  \<^bold>\<open>Not modelled of part 5.\<close> The content of blocks and transactions (the matches of a block are named by its
  position, a transaction outside of blocks by its id); the actors \<open>Account\<close> and \<open>SubchainStateData\<close> themselves, which
  start the others and watch them; subaccounts for notifications; sockets and timers; the database of the outputs.

  The rest of the library is listed part by part in the manifest.
\<close>

end
